(* ===== verification/Prelude.thy ===== *)
theory Prelude
  imports Main "HOL-Library.Char_ord" "HOL-Library.List_Lexorder"
begin

text \<open>
  Shared vocabulary of the development.

  A JavaScript string is a \<^typ>\<open>string\<close>, read as its UTF-8 bytes. Every character the
  modelled code tests for is ASCII, so scanning bytes and scanning UTF-16 units agree; the two
  places where the byte view shows are \<open>length\<close> (bytes) and case folding, which here folds the
  ASCII letters only. The string methods of the standard library that the sources call are
  defined below under their JavaScript names.

  A call that can throw has a result of type \<open>js_error + 'a\<close>: \<open>Inl\<close> is the exception,
  \<open>Inr\<close> the value.
\<close>

section \<open>Results\<close>

datatype js_error =
    TypeError string
  | RangeError
  | Thrown string

type_synonym 'a result = "js_error + 'a"

text \<open>\<open>err instanceof Error ? err.message : String(err)\<close>.\<close>

fun error_text :: "js_error \<Rightarrow> string" where
  "error_text (TypeError s) = s"
| "error_text RangeError = ''Maximum call stack size exceeded''"
| "error_text (Thrown s) = s"

named_theorems result_simps \<open>iff-rules for results that may throw\<close>

definition bind_result :: "'a result \<Rightarrow> ('a \<Rightarrow> 'b result) \<Rightarrow> 'b result" where
  "bind_result m f = (case m of Inl e \<Rightarrow> Inl e | Inr x \<Rightarrow> f x)"

lemma bind_result_Inl [simp]: "bind_result (Inl e) f = Inl e"
  by (simp add: bind_result_def)

lemma bind_result_Inr [simp]: "bind_result (Inr x) f = f x"
  by (simp add: bind_result_def)

lemma bind_result_eq_Inr [result_simps]:
  "bind_result m f = Inr y \<longleftrightarrow> (\<exists>x. m = Inr x \<and> f x = Inr y)"
  by (cases m) auto

lemma bind_result_eq_Inl [result_simps]:
  "bind_result m f = Inl e \<longleftrightarrow> m = Inl e \<or> (\<exists>x. m = Inr x \<and> f x = Inl e)"
  by (cases m) auto

lemma bind_result_cong [fundef_cong]:
  assumes "m = m'" and "\<And>x. m' = Inr x \<Longrightarrow> f x = f' x"
  shows "bind_result m f = bind_result m' f'"
  using assms by (cases m') auto

fun map_result :: "('a \<Rightarrow> 'b result) \<Rightarrow> 'a list \<Rightarrow> 'b list result" where
  "map_result f [] = Inr []"
| "map_result f (x # xs) =
     bind_result (f x) (\<lambda>y. bind_result (map_result f xs) (\<lambda>ys. Inr (y # ys)))"

section \<open>Strings\<close>

definition starts_with :: "string \<Rightarrow> string \<Rightarrow> bool" where
  "starts_with s p \<longleftrightarrow> take (length p) s = p"

definition ends_with :: "string \<Rightarrow> string \<Rightarrow> bool" where
  "ends_with s p \<longleftrightarrow> starts_with (rev s) (rev p)"

fun includes_str :: "string \<Rightarrow> string \<Rightarrow> bool" where
  "includes_str [] p \<longleftrightarrow> p = []"
| "includes_str (c # cs) p \<longleftrightarrow> starts_with (c # cs) p \<or> includes_str cs p"

text \<open>\<open>s.split(c)\<close> for a one-character separator.\<close>

fun split_on :: "char \<Rightarrow> string \<Rightarrow> string list" where
  "split_on d [] = [[]]"
| "split_on d (c # cs) =
     (if c = d then [] # split_on d cs
      else (case split_on d cs of [] \<Rightarrow> [[c]] | w # ws \<Rightarrow> (c # w) # ws))"

text \<open>\<open>parts.join(sep)\<close>.\<close>

fun join :: "string \<Rightarrow> string list \<Rightarrow> string" where
  "join sep [] = []"
| "join sep [w] = w"
| "join sep (w # v # ws) = w @ sep @ join sep (v # ws)"

text \<open>The text after the last slash: \<open>s.split("/").pop()\<close>.\<close>

definition last_segment :: "string \<Rightarrow> string" where
  "last_segment s = rev (takeWhile (\<lambda>c. c \<noteq> CHR ''/'') (rev s))"

definition in_range :: "char \<Rightarrow> char \<Rightarrow> char \<Rightarrow> bool" where
  "in_range lo hi c \<longleftrightarrow> (of_char lo :: nat) \<le> of_char c \<and> (of_char c :: nat) \<le> of_char hi"

definition is_digit :: "char \<Rightarrow> bool" where
  "is_digit c \<longleftrightarrow> in_range CHR ''0'' CHR ''9'' c"

definition is_upper :: "char \<Rightarrow> bool" where
  "is_upper c \<longleftrightarrow> in_range CHR ''A'' CHR ''Z'' c"

definition is_alphau :: "char \<Rightarrow> bool" where
  "is_alphau c \<longleftrightarrow> in_range CHR ''a'' CHR ''z'' c \<or> is_upper c \<or> c = CHR ''_''"

definition is_alnumu :: "char \<Rightarrow> bool" where
  "is_alnumu c \<longleftrightarrow> is_alphau c \<or> is_digit c"

definition lower_char :: "char \<Rightarrow> char" where
  "lower_char c = (if is_upper c then char_of ((of_char c :: nat) + 32) else c)"

definition to_lower :: "string \<Rightarrow> string" where
  "to_lower = map lower_char"

abbreviation newline :: char where
  "newline \<equiv> CHR 0x0A"

abbreviation tab :: char where
  "tab \<equiv> CHR 0x09"

text \<open>The UTF-8 bytes of the em dash of the messages.\<close>

definition em_dash :: string where
  "em_dash = [CHR 0xE2, CHR 0x80, CHR 0x94]"

definition is_space :: "char \<Rightarrow> bool" where
  "is_space c \<longleftrightarrow> c = CHR '' '' \<or> in_range CHR 0x09 CHR 0x0D c"

definition trim :: "string \<Rightarrow> string" where
  "trim s = rev (dropWhile is_space (rev (dropWhile is_space s)))"

text \<open>The slice of the source between a position and a later one, both given as suffixes.\<close>

definition slice_until :: "'a list \<Rightarrow> 'a list \<Rightarrow> 'a list" where
  "slice_until start rest = take (length start - length rest) start"

text \<open>\<open>new Set(xs)\<close> spread back into an array: first occurrences, in order.\<close>

definition uniq :: "'a list \<Rightarrow> 'a list" where
  "uniq xs = rev (remdups (rev xs))"

text \<open>Insertion-ordered string-keyed objects: assignment overwrites in place or appends.\<close>

fun obj_set :: "'k \<Rightarrow> 'v \<Rightarrow> ('k \<times> 'v) list \<Rightarrow> ('k \<times> 'v) list" where
  "obj_set k v [] = [(k, v)]"
| "obj_set k v ((k', v') # ps) = (if k' = k then (k, v) # ps else (k', v') # obj_set k v ps)"

text \<open>\<open>a || b\<close> for strings that may be undefined: the empty string is falsy.\<close>

fun str_or :: "string option \<Rightarrow> string option \<Rightarrow> string option" where
  "str_or (Some (c # cs)) b = Some (c # cs)"
| "str_or _ b = b"

definition truthy :: "string option \<Rightarrow> bool" where
  "truthy v \<longleftrightarrow> v \<noteq> None \<and> v \<noteq> Some []"

text \<open>
  The names every object inherits from \<open>Object.prototype\<close>: a lookup of one of them on a plain
  object finds the inherited value where no own property hides it.
\<close>

definition inherited_names :: "string list" where
  "inherited_names = [''constructor'', ''__defineGetter__'', ''__defineSetter__'',
     ''hasOwnProperty'', ''__lookupGetter__'', ''__lookupSetter__'', ''isPrototypeOf'',
     ''propertyIsEnumerable'', ''toString'', ''valueOf'', ''__proto__'', ''toLocaleString'']"

text \<open>
  \<open>path.posix.normalize\<close> and \<open>path.posix.join\<close>: the segments are folded over a stack (the top
  first); a parent segment pops, or stays where the path is relative and nothing is left to pop.
\<close>

fun norm_segments :: "bool \<Rightarrow> string list \<Rightarrow> string list \<Rightarrow> string list" where
  "norm_segments root st [] = rev st"
| "norm_segments root st (s # ss) =
     (if s = [] \<or> s = ''.'' then norm_segments root st ss
      else if s = ''..'' then
        (if st \<noteq> [] \<and> hd st \<noteq> ''..'' then norm_segments root (tl st) ss
         else if root then norm_segments root st ss
         else norm_segments root (s # st) ss)
      else norm_segments root (s # st) ss)"

definition path_normalize :: "string \<Rightarrow> string" where
  "path_normalize p =
    (if p = [] then ''.''
     else
       (let root = hd p = CHR ''/''; slash = last p = CHR ''/'';
            body = join ''/'' (norm_segments root [] (split_on (CHR ''/'') p))
        in if body = [] then (if root then ''/'' else if slash then ''./'' else ''.'')
           else (if root then ''/'' else []) @ body @ (if slash then ''/'' else [])))"

definition path_join :: "string list \<Rightarrow> string" where
  "path_join ps = path_normalize (join ''/'' (filter (\<lambda>p. p \<noteq> []) ps))"

definition is_absolute :: "string \<Rightarrow> bool" where
  "is_absolute p \<longleftrightarrow> starts_with p ''/''"

section \<open>Lemmas\<close>

lemma starts_with_iff: "starts_with s p \<longleftrightarrow> (\<exists>r. s = p @ r)"
  unfolding starts_with_def by (metis append_eq_conv_conj append_take_drop_id)

lemma starts_with_append [simp]: "starts_with (p @ r) p"
  by (simp add: starts_with_def)

lemma starts_with_Nil [simp]: "starts_with s []"
  by (simp add: starts_with_def)

lemma includes_str_iff: "includes_str s p \<longleftrightarrow> (\<exists>a b. s = a @ p @ b)"
proof (induction s)
  case Nil
  then show ?case by auto
next
  case (Cons c cs)
  have "(\<exists>a b. c # cs = a @ p @ b)
      \<longleftrightarrow> (\<exists>b. c # cs = p @ b) \<or> (\<exists>a b. cs = a @ p @ b)" (is "?l = ?r")
  proof
    assume ?l
    then obtain a b where "c # cs = a @ p @ b" by blast
    then show ?r by (cases a) auto
  next
    assume ?r
    then show ?l by (metis append_Cons append_Nil)
  qed
  with Cons.IH show ?case by (simp add: starts_with_iff)
qed

lemma set_uniq [simp]: "set (uniq xs) = set xs"
  by (simp add: uniq_def)

lemma distinct_uniq [simp]: "distinct (uniq xs)"
  by (simp add: uniq_def)

lemma map_of_obj_set [simp]: "map_of (obj_set k v ps) = (map_of ps)(k \<mapsto> v)"
  by (induction ps) (auto simp: fun_eq_iff)

lemma takeWhile_rev_all: "\<forall>x \<in> set xs. P x \<Longrightarrow> takeWhile P (rev xs) = rev xs"
  by (simp add: takeWhile_eq_all_conv)

lemma last_segment_append_slash [simp]:
  assumes "CHR ''/'' \<notin> set b"
  shows "last_segment (a @ CHR ''/'' # b) = b"
proof -
  have "takeWhile (\<lambda>c. c \<noteq> CHR ''/'') (rev b) = rev b"
    by (rule takeWhile_rev_all) (use assms in auto)
  then have "takeWhile (\<lambda>c. c \<noteq> CHR ''/'') (rev b @ CHR ''/'' # rev a) = rev b"
    by (simp only: takeWhile_tail append_Nil2 simp_thms)
  then show ?thesis by (simp add: last_segment_def)
qed

lemma last_segment_no_slash [simp]:
  assumes "CHR ''/'' \<notin> set s"
  shows "last_segment s = s"
proof -
  have "takeWhile (\<lambda>c. c \<noteq> CHR ''/'') (rev s) = rev s"
    by (rule takeWhile_rev_all) (use assms in auto)
  then show ?thesis by (simp only: last_segment_def rev_rev_ident)
qed

lemma length_dropWhile_le: "length (dropWhile P xs) \<le> length xs"
  by (induction xs) auto

lemma slice_until_append [simp]: "slice_until (a @ b) b = a"
  by (simp add: slice_until_def)

lemma map_result_Inr_length: "map_result f xs = Inr ys \<Longrightarrow> length ys = length xs"
  by (induction xs arbitrary: ys) (auto simp: result_simps)

end
