(* ===== verification/ShellTypes.thy ===== *)
theory ShellTypes
  imports Prelude
begin

text \<open>
  The data of the shell recognizer, \<^verbatim>\<open>packages/core/src/shell/types.ts\<close>: tokens, redirects,
  sink indicators, the confidence scale and the tree of parsed commands, and its constant word
  lists. Optional fields are \<open>option\<close>s; a child list that is absent is the empty list (every
  reader of the field treats the two alike); \<open>argv: "unresolved"\<close> is \<open>None\<close>.
\<close>

datatype token_kind =
    Word | Assignment | Pipe | AndIf | OrIf | Semi | Amp | RedirectT | LParen | RParen
  | ProcessSubIn | ProcessSubOut | HeredocMarker | Newline | Comment

fun kind_name :: "token_kind \<Rightarrow> string" where
  "kind_name Word = ''word''"
| "kind_name Assignment = ''assignment''"
| "kind_name Pipe = ''pipe''"
| "kind_name AndIf = ''and_if''"
| "kind_name OrIf = ''or_if''"
| "kind_name Semi = ''semi''"
| "kind_name Amp = ''amp''"
| "kind_name RedirectT = ''redirect''"
| "kind_name LParen = ''lparen''"
| "kind_name RParen = ''rparen''"
| "kind_name ProcessSubIn = ''process_sub_in''"
| "kind_name ProcessSubOut = ''process_sub_out''"
| "kind_name HeredocMarker = ''heredoc_marker''"
| "kind_name Newline = ''newline''"
| "kind_name Comment = ''comment''"

record token =
  tkind :: token_kind
  traw :: string
  tresolved :: "string option"
  thas_expansion :: bool
  thas_command_sub :: bool
  tredirect_op :: "string option"
  tfd :: "nat option"

text \<open>A token with no optional field set.\<close>

definition plain_token :: "token_kind \<Rightarrow> string \<Rightarrow> token" where
  "plain_token k r = \<lparr>tkind = k, traw = r, tresolved = None, thas_expansion = False,
     thas_command_sub = False, tredirect_op = None, tfd = None\<rparr>"

datatype redirect_kind =
    StdinFile | StdoutFile | StdoutAppend | StderrFile | StderrAppend | MergeStderrStdout
  | FdDup | Heredoc | HeredocDash | Herestring | UnknownRedirect

fun redirect_kind_name :: "redirect_kind \<Rightarrow> string" where
  "redirect_kind_name StdinFile = ''stdin_file''"
| "redirect_kind_name StdoutFile = ''stdout_file''"
| "redirect_kind_name StdoutAppend = ''stdout_append''"
| "redirect_kind_name StderrFile = ''stderr_file''"
| "redirect_kind_name StderrAppend = ''stderr_append''"
| "redirect_kind_name MergeStderrStdout = ''merge_stderr_stdout''"
| "redirect_kind_name FdDup = ''fd_dup''"
| "redirect_kind_name Heredoc = ''heredoc''"
| "redirect_kind_name HeredocDash = ''heredoc_dash''"
| "redirect_kind_name Herestring = ''herestring''"
| "redirect_kind_name UnknownRedirect = ''unknown''"

record redirect =
  rkind :: redirect_kind
  rfd :: "nat option"
  rtarget :: string
  rtarget_resolved :: bool
  rraw :: string

datatype indicator_kind =
    Interpreter | FetchTool | EvalConstruct | NetworkRedirect | SecretPath | ScpRsync | NcSocat
  | Ssh | PackageLifecycle | GhUpload | GitRemoteMutate | ProcessSubToInterpreter
  | PipeToInterpreter | InterpreterInlineEval

fun indicator_name :: "indicator_kind \<Rightarrow> string" where
  "indicator_name Interpreter = ''interpreter''"
| "indicator_name FetchTool = ''fetch_tool''"
| "indicator_name EvalConstruct = ''eval_construct''"
| "indicator_name NetworkRedirect = ''network_redirect''"
| "indicator_name SecretPath = ''secret_path''"
| "indicator_name ScpRsync = ''scp_rsync''"
| "indicator_name NcSocat = ''nc_socat''"
| "indicator_name Ssh = ''ssh''"
| "indicator_name PackageLifecycle = ''package_lifecycle''"
| "indicator_name GhUpload = ''gh_upload''"
| "indicator_name GitRemoteMutate = ''git_remote_mutate''"
| "indicator_name ProcessSubToInterpreter = ''process_sub_to_interpreter''"
| "indicator_name PipeToInterpreter = ''pipe_to_interpreter''"
| "indicator_name InterpreterInlineEval = ''interpreter_inline_eval''"

text \<open>
  The \<open>token\<close> of an indicator is \<open>argv[0]\<close>, which is undefined when the argv is unresolved and
  only the head word is known: an \<open>option\<close>. Positions are \<open>-1\<close> for redirects.
\<close>

record indicator =
  ikind :: indicator_kind
  itoken :: "string option"
  iposition :: int
  idetail :: "string option"

text \<open>The order of the constructors is the order of the scale: unknown, low, high.\<close>

datatype parse_confidence = Unknown | Low | High

fun confidence_index :: "parse_confidence \<Rightarrow> nat" where
  "confidence_index Unknown = 0"
| "confidence_index Low = 1"
| "confidence_index High = 2"

instantiation parse_confidence :: linorder
begin

definition less_eq_parse_confidence :: "parse_confidence \<Rightarrow> parse_confidence \<Rightarrow> bool" where
  "a \<le> b \<longleftrightarrow> confidence_index a \<le> confidence_index b"

definition less_parse_confidence :: "parse_confidence \<Rightarrow> parse_confidence \<Rightarrow> bool" where
  "a < b \<longleftrightarrow> confidence_index a < confidence_index b"

instance
proof
  fix x y :: parse_confidence
  show "x \<le> y \<Longrightarrow> y \<le> x \<Longrightarrow> x = y"
    by (cases x; cases y) (simp_all add: less_eq_parse_confidence_def)
qed (auto simp: less_eq_parse_confidence_def less_parse_confidence_def)

end

lemma confidence_le_High [simp]: "c \<le> High"
  by (cases c) (simp_all add: less_eq_parse_confidence_def)

lemma Unknown_le_confidence [simp]: "Unknown \<le> c"
  by (simp add: less_eq_parse_confidence_def)

datatype parsed_op =
    OpPipe | OpSequence | OpAnd | OpOr | OpProcessSubIn | OpProcessSubOut | OpSubshell
  | OpBackground

datatype parsed_command = ParsedCommand
  (argv: "string list option")
  (env: "(string \<times> string) list")
  (redirects: "redirect list")
  (children: "parsed_command list")
  (pop: "parsed_op option")
  (praw: string)
  (confidence: parse_confidence)
  (sink_indicators: "indicator list")
  (parse_error: "string option")
  (resolved_head: "string option")

text \<open>Field updates of the tree's nodes.\<close>

fun set_op :: "parsed_op \<Rightarrow> parsed_command \<Rightarrow> parsed_command" where
  "set_op p (ParsedCommand a e r c q w cf s pe h) = ParsedCommand a e r c (Some p) w cf s pe h"

fun set_indicators :: "indicator list \<Rightarrow> parsed_command \<Rightarrow> parsed_command" where
  "set_indicators s' (ParsedCommand a e r c q w cf s pe h) = ParsedCommand a e r c q w cf s' pe h"

fun set_redirects :: "redirect list \<Rightarrow> parsed_command \<Rightarrow> parsed_command" where
  "set_redirects r' (ParsedCommand a e r c q w cf s pe h) = ParsedCommand a e r' c q w cf s pe h"

fun set_failure :: "parse_confidence \<Rightarrow> string \<Rightarrow> parsed_command \<Rightarrow> parsed_command" where
  "set_failure cf' pe' (ParsedCommand a e r c q w cf s pe h) =
     ParsedCommand a e r c q w cf' s (Some pe') h"

fun set_argv_env ::
  "string list option \<Rightarrow> (string \<times> string) list \<Rightarrow> parsed_command \<Rightarrow> parsed_command" where
  "set_argv_env a' e' (ParsedCommand a e r c q w cf s pe h) = ParsedCommand a' e' r c q w cf s pe h"

fun set_inline ::
  "parsed_command list \<Rightarrow> parse_confidence \<Rightarrow> indicator list \<Rightarrow> parsed_command \<Rightarrow> parsed_command"
where
  "set_inline c' cf' s' (ParsedCommand a e r c q w cf s pe h) =
     ParsedCommand a e r c' q w cf' s' pe h"

lemma set_op_sel [simp]:
  "argv (set_op p n) = argv n" "env (set_op p n) = env n" "redirects (set_op p n) = redirects n"
  "children (set_op p n) = children n" "pop (set_op p n) = Some p"
  "confidence (set_op p n) = confidence n" "sink_indicators (set_op p n) = sink_indicators n"
  "resolved_head (set_op p n) = resolved_head n"
  by (cases n; simp)+

lemma set_indicators_sel [simp]:
  "argv (set_indicators s n) = argv n" "redirects (set_indicators s n) = redirects n"
  "children (set_indicators s n) = children n" "pop (set_indicators s n) = pop n"
  "confidence (set_indicators s n) = confidence n" "sink_indicators (set_indicators s n) = s"
  "resolved_head (set_indicators s n) = resolved_head n"
  by (cases n; simp)+

lemma set_redirects_sel [simp]:
  "argv (set_redirects r n) = argv n" "redirects (set_redirects r n) = r"
  "children (set_redirects r n) = children n" "pop (set_redirects r n) = pop n"
  "confidence (set_redirects r n) = confidence n"
  "sink_indicators (set_redirects r n) = sink_indicators n"
  "resolved_head (set_redirects r n) = resolved_head n"
  by (cases n; simp)+

lemma set_failure_sel [simp]:
  "argv (set_failure c e n) = argv n" "redirects (set_failure c e n) = redirects n"
  "children (set_failure c e n) = children n" "pop (set_failure c e n) = pop n"
  "confidence (set_failure c e n) = c"
  "sink_indicators (set_failure c e n) = sink_indicators n"
  "resolved_head (set_failure c e n) = resolved_head n"
  by (cases n; simp)+

lemma set_argv_env_sel [simp]:
  "argv (set_argv_env a e n) = a" "env (set_argv_env a e n) = e"
  "redirects (set_argv_env a e n) = redirects n" "children (set_argv_env a e n) = children n"
  "pop (set_argv_env a e n) = pop n" "confidence (set_argv_env a e n) = confidence n"
  "sink_indicators (set_argv_env a e n) = sink_indicators n"
  "resolved_head (set_argv_env a e n) = resolved_head n"
  by (cases n; simp)+

lemma set_inline_sel [simp]:
  "argv (set_inline c f s n) = argv n" "redirects (set_inline c f s n) = redirects n"
  "children (set_inline c f s n) = c" "pop (set_inline c f s n) = pop n"
  "confidence (set_inline c f s n) = f" "sink_indicators (set_inline c f s n) = s"
  "resolved_head (set_inline c f s n) = resolved_head n"
  by (cases n; simp)+

section \<open>Word lists\<close>

definition INTERPRETER_NAMES :: "string list" where
  "INTERPRETER_NAMES =
     [''sh'', ''bash'', ''dash'', ''zsh'', ''ksh'', ''ash'', ''fish'', ''busybox'']"

definition FETCH_TOOL_NAMES :: "string list" where
  "FETCH_TOOL_NAMES = [''curl'', ''wget'', ''http'', ''httpie'', ''fetch'']"

definition COMPOUND_PREFIXES :: "string list" where
  "COMPOUND_PREFIXES = [''sudo'', ''nice'', ''timeout'', ''env'', ''command'', ''exec'',
     ''nohup'', ''stdbuf'']"

text \<open>
  \<open>INLINE_EVAL_FLAGS\<close> is an object literal, and a lookup \<open>INLINE_EVAL_FLAGS[head]\<close> with a head
  taken from the input also finds what an object inherits. The head is lower-cased, and the
  inherited names with no capital are \<open>constructor\<close> and \<open>__proto__\<close>: both are truthy and
  neither has a \<open>has\<close> method.
\<close>

datatype flags_lookup = NoFlags | FlagSet "string list" | InheritedValue

definition INLINE_EVAL_FLAGS :: "string \<Rightarrow> flags_lookup" where
  "INLINE_EVAL_FLAGS h =
    (if h = ''node'' then FlagSet [''-e'', ''--eval'', ''-p'', ''--print'']
     else if h = ''deno'' then FlagSet [''eval'']
     else if h = ''python'' then FlagSet [''-c'']
     else if h = ''python3'' then FlagSet [''-c'']
     else if h = ''ruby'' then FlagSet [''-e'']
     else if h = ''perl'' then FlagSet [''-e'', ''-E'']
     else if h = ''php'' then FlagSet [''-r'']
     else if h = ''osascript'' then FlagSet [''-e'']
     else if h = ''constructor'' \<or> h = ''__proto__'' then InheritedValue
     else NoFlags)"

section \<open>Nodes of a tree\<close>

text \<open>All nodes of a tree, the root first.\<close>

primrec nodes :: "parsed_command \<Rightarrow> parsed_command list" where
  "nodes (ParsedCommand a e r cs p w cf s pe h) =
     ParsedCommand a e r cs p w cf s pe h # concat (map nodes cs)"

lemma nodes_unfold: "nodes n = n # concat (map nodes (children n))"
  by (cases n) simp

lemma root_in_nodes [simp, intro]: "n \<in> set (nodes n)"
  by (subst nodes_unfold) simp

lemma child_in_nodes: "c \<in> set (children n) \<Longrightarrow> m \<in> set (nodes c) \<Longrightarrow> m \<in> set (nodes n)"
  by (subst nodes_unfold) auto

text \<open>
  Every traversal of the sources is the same explicit-stack loop: pop a node, visit it, push
  its children in order, so that the last child is visited next. \<open>stack_walk\<close> lists the nodes
  in that order, the head of the list being the top of the stack.
\<close>

fun tree_size :: "parsed_command \<Rightarrow> nat" where
  "tree_size (ParsedCommand a e r cs p w cf s pe h) = Suc (sum_list (map tree_size cs))"

lemma tree_size_children: "tree_size n = Suc (sum_list (map tree_size (children n)))"
  by (cases n) simp

function stack_walk :: "parsed_command list \<Rightarrow> parsed_command list" where
  "stack_walk [] = []"
| "stack_walk (n # st) = n # stack_walk (rev (children n) @ st)"
  by pat_completeness auto
termination
  by (relation "measure (\<lambda>st. sum_list (map tree_size st))")
    (auto simp: tree_size_children rev_map[symmetric])

lemma set_nodes: "set (nodes n) = insert n (\<Union>c \<in> set (children n). set (nodes c))"
  by (subst nodes_unfold) (simp only: list.set set_concat set_map image_image)

lemma set_stack_walk: "set (stack_walk st) = (\<Union>n \<in> set st. set (nodes n))"
proof (induction st rule: stack_walk.induct)
  case 1
  then show ?case by simp
next
  case (2 n st)
  have "set (stack_walk (n # st)) = insert n (\<Union>c \<in> set (children n) \<union> set st. set (nodes c))"
    using 2 by simp
  also have "\<dots> = set (nodes n) \<union> (\<Union>c \<in> set st. set (nodes c))"
    by (simp only: set_nodes [of n] UN_Un Un_insert_left)
  finally show ?case by (simp only: list.set UN_insert)
qed

lemma set_stack_walk_root [simp]: "set (stack_walk [n]) = set (nodes n)"
  by (simp only: set_stack_walk list.set UN_insert UN_empty Un_empty_right)

text \<open>Evaluation unfolds the walk; proofs use its set.\<close>

declare stack_walk.simps [simp del]

end
