(* ===== verification/ShellLexer.thy ===== *)
theory ShellLexer
  imports ShellTypes "HOL-Library.Sublist"
begin

text \<open>
  The shell lexer, \<^verbatim>\<open>packages/core/src/shell/lexer.ts\<close>. The lexer object holds a position \<open>i\<close>
  in the source; here the position is the unread suffix \<open>src.slice(i)\<close>, so \<open>src[i]\<close> is the head
  of the suffix, \<open>i >= len\<close> is the empty suffix and \<open>src.slice(start, i)\<close> is the part of the
  start suffix that precedes the current one (\<open>slice_until\<close>). Each consuming method is a function
  from a suffix to its result and the suffix it leaves.
\<close>

section \<open>Consumers\<close>

fun skip_until :: "char \<Rightarrow> string \<Rightarrow> string" where
  "skip_until q [] = []"
| "skip_until q (c # cs) = (if c = q then c # cs else skip_until q cs)"

definition is_hex :: "char \<Rightarrow> bool" where
  "is_hex c \<longleftrightarrow> is_digit c \<or> in_range CHR ''a'' CHR ''f'' c \<or> in_range CHR ''A'' CHR ''F'' c"

definition hex_digit :: "char \<Rightarrow> nat" where
  "hex_digit c =
    (if is_digit c then of_char c - 48
     else if is_upper c then of_char c - 55 else of_char c - 87)"

definition parse_hex :: "string \<Rightarrow> nat" where
  "parse_hex s = foldl (\<lambda>n c. 16 * n + hex_digit c) 0 s"

text \<open>\<open>String.fromCharCode(n)\<close>: the UTF-8 bytes of a code unit.\<close>

definition from_char_code :: "nat \<Rightarrow> string" where
  "from_char_code n =
    (if n < 128 then [char_of n]
     else if n < 2048 then [char_of (192 + n div 64), char_of (128 + n mod 64)]
     else [char_of (224 + n div 4096), char_of (128 + n div 64 mod 64), char_of (128 + n mod 64)])"

text \<open>\<open>consumeSingleQuoted\<close>, called at the opening quote. No closing quote gives \<open>None\<close>.\<close>

definition consume_single_quoted :: "string \<Rightarrow> string option \<times> string" where
  "consume_single_quoted s =
    (let body = tl s; r = skip_until CHR 0x27 body
     in if r = [] then (None, []) else (Some (slice_until body r), tl r))"

text \<open>
  \<open>consumeAnsiCQuoted\<close>: the switch on the character after a backslash (the text it appends and
  the suffix it goes on with), and the loop over the body of \<open>$'...'\<close>.
\<close>

definition ansi_hex :: "nat \<Rightarrow> char \<Rightarrow> string \<Rightarrow> string \<times> string" where
  "ansi_hex k nx r =
    (let hex = take k r
     in if length hex = k \<and> list_all is_hex hex then (from_char_code (parse_hex hex), drop k r)
        else ([nx], r))"

definition ansi_escape :: "char \<Rightarrow> string \<Rightarrow> string \<times> string" where
  "ansi_escape nx r =
    (if nx = CHR ''n'' then ([newline], r)
     else if nx = CHR ''t'' then ([tab], r)
     else if nx = CHR ''r'' then ([CHR 0x0D], r)
     else if nx = CHR 0x5C then ([CHR 0x5C], r)
     else if nx = CHR 0x27 then ([CHR 0x27], r)
     else if nx = CHR 0x22 then ([CHR 0x22], r)
     else if nx = CHR ''0'' then ([CHR 0x00], r)
     else if nx = CHR ''x'' then ansi_hex 2 nx r
     else if nx = CHR ''u'' then ansi_hex 4 nx r
     else ([nx], r))"

lemma suffix_ansi_escape: "suffix (snd (ansi_escape nx r)) r"
  by (simp add: ansi_escape_def ansi_hex_def Let_def suffix_drop)

lemma length_ansi_escape [simp, termination_simp]:
  "length (snd (ansi_escape nx r)) < Suc (Suc (length r))"
  using suffix_length_le [OF suffix_ansi_escape, of nx r] by simp

fun ansi_c_body :: "string \<Rightarrow> string \<Rightarrow> string option \<times> string" where
  "ansi_c_body out [] = (None, [])"
| "ansi_c_body out (c # cs) =
    (if c = CHR 0x27 then (Some out, cs)
     else if c = CHR 0x5C then
       (case cs of
          [] \<Rightarrow> (None, [])
        | nx # r \<Rightarrow> ansi_c_body (out @ fst (ansi_escape nx r)) (snd (ansi_escape nx r)))
     else ansi_c_body (out @ [c]) cs)"

definition consume_ansi_c_quoted :: "string \<Rightarrow> string option \<times> string" where
  "consume_ansi_c_quoted s = ansi_c_body [] (drop 2 s)"

text \<open>\<open>consumeBacktick\<close>: the loop after the opening backtick.\<close>

fun backtick_rest :: "string \<Rightarrow> string" where
  "backtick_rest [] = []"
| "backtick_rest (c # cs) =
    (if c = CHR 0x60 then cs
     else if c = CHR 0x5C then backtick_rest (tl cs)
     else backtick_rest cs)"

definition consume_backtick :: "string \<Rightarrow> string" where
  "consume_backtick s = backtick_rest (tl s)"

text \<open>The double-quoted part inside \<open>consumeBalanced\<close>.\<close>

fun skip_double_quoted :: "string \<Rightarrow> string" where
  "skip_double_quoted [] = []"
| "skip_double_quoted (c # cs) =
    (if c = CHR 0x22 then cs
     else if c = CHR 0x5C then skip_double_quoted (tl cs)
     else skip_double_quoted cs)"

named_theorems suffix_facts \<open>a consumer leaves a suffix of what it was given\<close>

lemma suffix_Cons_simp [simp]: "suffix r cs \<Longrightarrow> suffix r (c # cs)"
  by (rule suffix_ConsI)

lemma suffix_tl_trans: "suffix r (tl s) \<Longrightarrow> suffix r s"
  by (meson suffix_order.trans suffix_tl)

lemma suffix_tl_tl [simp]: "suffix (tl (tl s)) s"
  by (meson suffix_order.trans suffix_tl)

lemma suffix_drop_trans: "suffix r (drop n s) \<Longrightarrow> suffix r s"
  by (meson suffix_drop suffix_order.trans)

lemma suffix_skip_until [suffix_facts]: "suffix (skip_until q s) s"
  by (induction s) auto

lemma suffix_tl_skip_until [suffix_facts]: "suffix (tl (skip_until q s)) s"
  by (meson suffix_skip_until suffix_order.trans suffix_tl)

lemma suffix_skip_double_quoted [suffix_facts]: "suffix (skip_double_quoted s) s"
  by (induction s rule: skip_double_quoted.induct) (simp_all add: suffix_tl_trans)

lemma suffix_backtick_rest [suffix_facts]: "suffix (backtick_rest s) s"
  by (induction s rule: backtick_rest.induct) (simp_all add: suffix_tl_trans)

lemma suffix_consume_backtick [suffix_facts]: "suffix (consume_backtick (c # cs)) cs"
  by (simp add: consume_backtick_def suffix_facts)

lemma suffix_ansi_c_body: "suffix (snd (ansi_c_body out s)) s"
proof (induction out s rule: ansi_c_body.induct)
  case (1 out)
  then show ?case by simp
next
  case (2 out c cs)
  show ?case
  proof (cases "c = CHR 0x27")
    case True
    then show ?thesis by simp
  next
    case False
    then show ?thesis
      using 2
      by (cases cs) (auto intro!: suffix_ConsI intro: suffix_order.trans [OF _ suffix_ansi_escape])
  qed
qed

lemma suffix_consume_ansi [suffix_facts]:
  "cs \<noteq> [] \<Longrightarrow> suffix (snd (consume_ansi_c_quoted (c # cs))) cs"
  unfolding consume_ansi_c_quoted_def
  by (cases cs) (simp_all add: suffix_ansi_c_body)

lemma suffix_consume_single [suffix_facts]: "suffix (snd (consume_single_quoted (c # cs))) cs"
  by (simp add: consume_single_quoted_def Let_def suffix_facts)

lemma length_skip_until [termination_simp]: "length (skip_until q s) - Suc 0 < Suc (length s)"
  using suffix_length_le [OF suffix_skip_until, of q s] by simp

lemma suffix_length_Suc: "suffix r cs \<Longrightarrow> length r < Suc (length cs)"
  by (simp add: suffix_length_le le_imp_less_Suc)

text \<open>
  \<open>consumeBalanced(open, close)\<close>: one iteration of its loop, from a depth above 0 and a nonempty
  suffix, and the loop after the opening string. The two branches that skip a matched delimiter
  drop its remaining characters after the first.
\<close>

definition balanced_step :: "string \<Rightarrow> string \<Rightarrow> nat \<Rightarrow> char \<Rightarrow> string \<Rightarrow> nat \<times> string" where
  "balanced_step opn close depth c cs =
    (if starts_with (c # cs) close then (depth - 1, drop (length close - 1) cs)
     else if starts_with (c # cs) opn then (Suc depth, drop (length opn - 1) cs)
     else if c = CHR 0x5C \<and> cs \<noteq> [] then (depth, tl cs)
     else if c = CHR 0x27 then (depth, tl (skip_until CHR 0x27 cs))
     else if c = CHR 0x22 then (depth, skip_double_quoted cs)
     else (depth, cs))"

lemma suffix_balanced_step: "suffix (snd (balanced_step opn close depth c cs)) cs"
  by (simp add: balanced_step_def suffix_drop suffix_tl suffix_facts)

lemma length_balanced_step [simp, termination_simp]:
  "length (snd (balanced_step opn close depth c cs)) < Suc (length cs)"
  by (rule suffix_length_Suc) (rule suffix_balanced_step)

fun balanced_loop :: "string \<Rightarrow> string \<Rightarrow> nat \<Rightarrow> string \<Rightarrow> string" where
  "balanced_loop opn close depth [] = []"
| "balanced_loop opn close depth (c # cs) =
    (if depth = 0 then c # cs
     else balanced_loop opn close (fst (balanced_step opn close depth c cs))
            (snd (balanced_step opn close depth c cs)))"

definition consume_balanced :: "string \<Rightarrow> string \<Rightarrow> string \<Rightarrow> string" where
  "consume_balanced opn close s = balanced_loop opn close 1 (drop (length opn) s)"

text \<open>
  \<open>consumeDollarExpansion\<close>, called at the dollar: the value it leaves in \<open>lastWasCommandSub\<close> and
  the suffix after the expansion.
\<close>

definition consume_dollar_expansion :: "string \<Rightarrow> bool \<times> string" where
  "consume_dollar_expansion s =
    (let t = tl s in
     case t of
       [] \<Rightarrow> (False, [])
     | c # cs \<Rightarrow>
         (if c = CHR ''('' then
            (case cs of
               d # _ \<Rightarrow>
                 (if d = CHR ''('' then (False, consume_balanced ''(('' ''))'' t)
                  else (True, consume_balanced ''('' '')'' t))
             | [] \<Rightarrow> (True, consume_balanced ''('' '')'' t))
          else if c = CHR 0x7B then (False, consume_balanced [CHR 0x7B] [CHR 0x7D] t)
          else if is_alphau c then (False, dropWhile is_alnumu t)
          else (False, t)))"

lemma suffix_balanced_loop: "suffix (balanced_loop opn close d s) s"
proof (induction opn close d s rule: balanced_loop.induct)
  case (1 opn close depth)
  then show ?case by simp
next
  case (2 opn close depth c cs)
  then show ?case
    by (auto intro!: suffix_ConsI intro: suffix_order.trans [OF _ suffix_balanced_step])
qed

lemma suffix_consume_balanced: "suffix (consume_balanced opn close s) s"
  unfolding consume_balanced_def by (meson suffix_balanced_loop suffix_drop suffix_order.trans)

lemma suffix_consume_dollar [suffix_facts]:
  "suffix (snd (consume_dollar_expansion (c # cs))) cs"
  by (simp add: consume_dollar_expansion_def Let_def suffix_dropWhile suffix_consume_balanced
      split: list.split)

text \<open>\<open>consumeDoubleQuoted\<close>: the record it returns and its loop after the opening quote.\<close>

record dq_segment =
  dq_literal :: string
  dq_expansion :: bool
  dq_command_sub :: bool
  dq_resolvable :: bool

definition dq_step :: "dq_segment \<Rightarrow> char \<Rightarrow> string \<Rightarrow> dq_segment \<times> string" where
  "dq_step d c cs =
    (if c = CHR 0x5C then
       (if cs \<noteq> [] \<and> hd cs \<in> {CHR ''$'', CHR 0x60, CHR 0x22, CHR 0x5C, newline}
        then (if hd cs = newline then d else d\<lparr>dq_literal := dq_literal d @ [hd cs]\<rparr>, tl cs)
        else (d\<lparr>dq_literal := dq_literal d @ [c]\<rparr>, cs))
     else if c = CHR ''$'' then
       (let er = consume_dollar_expansion (c # cs)
        in (d\<lparr>dq_resolvable := False, dq_expansion := True,
              dq_command_sub := dq_command_sub d \<or> fst er\<rparr>, snd er))
     else if c = CHR 0x60 then
       (d\<lparr>dq_resolvable := False, dq_expansion := True, dq_command_sub := True\<rparr>,
        consume_backtick (c # cs))
     else (d\<lparr>dq_literal := dq_literal d @ [c]\<rparr>, cs))"

lemma suffix_dq_step: "suffix (snd (dq_step d c cs)) cs"
  by (simp add: dq_step_def Let_def suffix_tl suffix_facts)

lemma length_dq_step [simp, termination_simp]: "length (snd (dq_step d c cs)) < Suc (length cs)"
  by (rule suffix_length_Suc) (rule suffix_dq_step)

fun dq_loop :: "dq_segment \<Rightarrow> string \<Rightarrow> dq_segment option \<times> string" where
  "dq_loop d [] = (None, [])"
| "dq_loop d (c # cs) =
    (if c = CHR 0x22 then (Some d, cs)
     else dq_loop (fst (dq_step d c cs)) (snd (dq_step d c cs)))"

definition consume_double_quoted :: "string \<Rightarrow> dq_segment option \<times> string" where
  "consume_double_quoted s =
    dq_loop \<lparr>dq_literal = [], dq_expansion = False, dq_command_sub = False, dq_resolvable = True\<rparr>
      (tl s)"

lemma suffix_dq_loop: "suffix (snd (dq_loop d s)) s"
proof (induction d s rule: dq_loop.induct)
  case (1 d)
  then show ?case by simp
next
  case (2 d c cs)
  then show ?case
    by (auto intro!: suffix_ConsI intro: suffix_order.trans [OF _ suffix_dq_step])
qed

lemma suffix_consume_double [suffix_facts]: "suffix (snd (consume_double_quoted (c # cs))) cs"
  by (simp add: consume_double_quoted_def suffix_dq_loop)

section \<open>Words\<close>

text \<open>
  \<open>consumeWord\<close>: the loop's local variables, with the errors it pushes. The loop stops at a blank
  or an operator character, and after a quote that is never closed.
\<close>

record word_acc =
  w_resolved :: string
  w_expansion :: bool
  w_command_sub :: bool
  w_resolvable :: bool
  w_errors :: "string list"

definition word_acc0 :: word_acc where
  "word_acc0 = \<lparr>w_resolved = [], w_expansion = False, w_command_sub = False, w_resolvable = True,
     w_errors = []\<rparr>"

definition is_word_break :: "char \<Rightarrow> bool" where
  "is_word_break c \<longleftrightarrow> c \<in> {CHR '' '', tab, newline, CHR ''|'', CHR '';'', CHR ''&'', CHR ''('',
     CHR '')'', CHR ''<'', CHR ''>''}"

definition word_fail :: "string \<Rightarrow> word_acc \<Rightarrow> word_acc" where
  "word_fail e w = w\<lparr>w_resolvable := False, w_errors := w_errors w @ [e]\<rparr>"

definition word_append :: "string \<Rightarrow> word_acc \<Rightarrow> word_acc" where
  "word_append t w = w\<lparr>w_resolved := w_resolved w @ t\<rparr>"

text \<open>
  The three quoted segments share one shape: a segment that is not closed ends the word with an
  error, a closed one extends it.
\<close>

definition quoted_step ::
  "string \<Rightarrow> word_acc \<Rightarrow> ('a \<Rightarrow> word_acc) \<Rightarrow> 'a option \<times> string \<Rightarrow> bool \<times> word_acc \<times> string" where
  "quoted_step e w f sr =
    (case fst sr of
       None \<Rightarrow> (False, word_fail e w, snd sr)
     | Some seg \<Rightarrow> (True, f seg, snd sr))"

lemma snd_quoted_step [simp]: "snd (snd (quoted_step e w f sr)) = snd sr"
  by (simp add: quoted_step_def split: option.split)

definition append_dq :: "word_acc \<Rightarrow> dq_segment \<Rightarrow> word_acc" where
  "append_dq w seg =
    w\<lparr>w_resolved := w_resolved w @ dq_literal seg,
      w_expansion := w_expansion w \<or> dq_expansion seg,
      w_command_sub := w_command_sub w \<or> dq_command_sub seg,
      w_resolvable := w_resolvable w \<and> dq_resolvable seg\<rparr>"

text \<open>One iteration from \<open>src[i] = c\<close>: whether the loop goes on, its variables, the suffix.\<close>

definition word_step :: "word_acc \<Rightarrow> char \<Rightarrow> string \<Rightarrow> bool \<times> word_acc \<times> string" where
  "word_step w c cs =
    (if is_word_break c then (False, w, c # cs)
     else if c = CHR 0x5C then
       (if cs = [] then (True, w, [])
        else (True, if hd cs = newline then w else word_append [hd cs] w, tl cs))
     else if c = CHR 0x27 then
       quoted_step ''unterminated single quote'' w (\<lambda>seg. word_append seg w)
         (consume_single_quoted (c # cs))
     else if c = CHR ''$'' \<and> cs \<noteq> [] \<and> hd cs = CHR 0x27 then
       quoted_step ''unterminated ansi-c quote'' w (\<lambda>seg. word_append seg w)
         (consume_ansi_c_quoted (c # cs))
     else if c = CHR 0x22 then
       quoted_step ''unterminated double quote'' w (append_dq w) (consume_double_quoted (c # cs))
     else if c = CHR ''$'' then
       (let er = consume_dollar_expansion (c # cs)
        in (True, w\<lparr>w_resolvable := False, w_expansion := True,
                    w_command_sub := w_command_sub w \<or> fst er\<rparr>, snd er))
     else if c = CHR 0x60 then
       (True, w\<lparr>w_resolvable := False, w_expansion := True, w_command_sub := True\<rparr>,
        consume_backtick (c # cs))
     else (True, word_append [c] w, cs))"

lemma suffix_word_step:
  "\<not> is_word_break c \<Longrightarrow> suffix (snd (snd (word_step w c cs))) cs"
  by (simp add: word_step_def Let_def suffix_tl suffix_facts)

lemma word_step_go: "fst (word_step w c cs) \<Longrightarrow> \<not> is_word_break c"
  by (rule notI) (simp add: word_step_def)

lemma length_word_step [termination_simp]:
  "fst (word_step w c cs) \<Longrightarrow> length (snd (snd (word_step w c cs))) < Suc (length cs)"
  by (rule suffix_length_Suc) (rule suffix_word_step, rule word_step_go)

fun word_loop :: "word_acc \<Rightarrow> string \<Rightarrow> word_acc \<times> string" where
  "word_loop w [] = (w, [])"
| "word_loop w (c # cs) =
    (if fst (word_step w c cs)
     then word_loop (fst (snd (word_step w c cs))) (snd (snd (word_step w c cs)))
     else snd (word_step w c cs))"

lemma suffix_word_loop: "suffix (snd (word_loop w s)) s"
proof (induction w s rule: word_loop.induct)
  case (1 w)
  then show ?case by simp
next
  case (2 w c cs)
  show ?case
  proof (cases "is_word_break c")
    case True
    then show ?thesis by (simp add: word_step_def)
  next
    case False
    note step = suffix_word_step [OF False, of w cs]
    show ?thesis
      using 2 step suffix_order.trans [OF _ step]
      by (cases "fst (word_step w c cs)") (simp_all del: suffix_Cons_simp add: suffix_ConsI)
  qed
qed

text \<open>A word that starts at a character that does not end it is not empty.\<close>

lemma suffix_word_loop_Cons:
  assumes "\<not> is_word_break c"
  shows "suffix (snd (word_loop w (c # cs))) cs"
proof (cases "fst (word_step w c cs)")
  case True
  then show ?thesis
    using suffix_order.trans [OF suffix_word_loop suffix_word_step [OF assms, of w cs]] by simp
next
  case False
  then show ?thesis using suffix_word_step [OF assms, of w cs] by simp
qed

section \<open>Redirects and here-documents\<close>

definition starts_redirect :: "string \<Rightarrow> bool" where
  "starts_redirect s \<longleftrightarrow>
    (let r = dropWhile is_digit s in r \<noteq> [] \<and> (hd r = CHR ''<'' \<or> hd r = CHR ''>''))"

definition parse_dec :: "string \<Rightarrow> nat" where
  "parse_dec s = foldl (\<lambda>n c. 10 * n + (of_char c - 48)) 0 s"

text \<open>The operator after the optional descriptor digits, and the suffix after it.\<close>

definition redirect_operator :: "string \<Rightarrow> string \<times> string" where
  "redirect_operator r =
    (if starts_with r ''<'' then
       (let r1 = tl r in
        if starts_with r1 ''<'' then
          (let r2 = tl r1 in
           if starts_with r2 ''<'' then (''<<<'', tl r2)
           else if starts_with r2 ''-'' then (''<<-'', tl r2)
           else (''<<'', r2))
        else if starts_with r1 ''&'' then (''<&'', tl r1)
        else (''<'', r1))
     else if starts_with r ''>'' then
       (let r1 = tl r in
        if starts_with r1 ''>'' then (''>>'', tl r1)
        else if starts_with r1 ''&'' then (''>&'', tl r1)
        else if starts_with r1 ''|'' then (''>|'', tl r1)
        else (''>'', r1))
     else ([], r))"

text \<open>\<open>consumeBareDelimiter\<close>: the loop that collects the unquoted delimiter.\<close>

function (sequential) bare_delimiter_loop :: "string \<Rightarrow> string \<Rightarrow> string \<times> string" where
  "bare_delimiter_loop resolved [] = (resolved, [])"
| "bare_delimiter_loop resolved (c # cs) =
    (if c = CHR 0x27 \<or> c = CHR 0x22 then
       bare_delimiter_loop (resolved @ slice_until cs (skip_until c cs)) (tl (skip_until c cs))
     else if c \<in> {CHR '' '', tab, newline, CHR '';''} then (resolved, c # cs)
     else bare_delimiter_loop (resolved @ [c]) cs)"
  by pat_completeness auto
termination
  by (relation "measure (\<lambda>(resolved, s). length s)") (auto simp: length_skip_until)

definition consume_bare_delimiter :: "string \<Rightarrow> (string \<times> string) option \<times> string" where
  "consume_bare_delimiter s =
    (let rr = bare_delimiter_loop [] s
     in if length (snd rr) = length s then (None, s)
        else (Some (slice_until s (snd rr), fst rr), snd rr))"

text \<open>
  \<open>consumeHeredocBody\<close>: the loop over the lines. It gives the lines before the delimiter line,
  and, when that line is found, the suffix at its start and the suffix after it.
\<close>

function (sequential) heredoc_lines ::
  "string \<Rightarrow> bool \<Rightarrow> string list \<Rightarrow> string \<Rightarrow> string list \<times> (string \<times> string) option" where
  "heredoc_lines delim dashed acc [] = (acc, None)"
| "heredoc_lines delim dashed acc (c # cs) =
    (let s = c # cs; r = skip_until newline s; line0 = slice_until s r;
         line = (if dashed then dropWhile (\<lambda>x. x = tab) line0 else line0)
     in if line = delim then (acc, Some (s, tl r))
        else heredoc_lines delim dashed (acc @ [line]) (tl r))"
  by pat_completeness auto
termination
  by (relation "measure (\<lambda>(delim, dashed, acc, s). length s)") (auto simp: length_skip_until)

definition word_token :: "string \<Rightarrow> string \<Rightarrow> token" where
  "word_token r res = (plain_token Word r)\<lparr>tresolved := Some res\<rparr>"

definition heredoc_text :: "string list \<Rightarrow> string \<Rightarrow> string" where
  "heredoc_text ls none = (if ls \<noteq> [] then join [newline] ls @ [newline] else none)"

text \<open>The tokens pushed, the errors pushed and the suffix left.\<close>

definition consume_heredoc_body ::
  "string \<Rightarrow> bool \<Rightarrow> string \<Rightarrow> token list \<times> string list \<times> string" where
  "consume_heredoc_body delim dashed s =
    (let body = tl (skip_until newline s) in
     case heredoc_lines delim dashed [] body of
       (ls, Some (line_start, after)) \<Rightarrow>
         ([word_token (slice_until body line_start) (heredoc_text ls []),
           plain_token Newline [newline]], [], after)
     | (ls, None) \<Rightarrow> ([word_token body (heredoc_text ls body)], [''heredoc not terminated''], []))"

definition is_heredoc_op :: "string \<Rightarrow> bool" where
  "is_heredoc_op op \<longleftrightarrow> op = ''<<'' \<or> op = ''<<-''"

definition redirect_token :: "string \<Rightarrow> string \<Rightarrow> string \<Rightarrow> token" where
  "redirect_token raw op fd_str =
    (plain_token (if is_heredoc_op op then HeredocMarker else RedirectT) raw)
      \<lparr>tredirect_op := Some op, tfd := (if fd_str = [] then None else Some (parse_dec fd_str))\<rparr>"

definition consume_redirect :: "string \<Rightarrow> token list \<times> string list \<times> string" where
  "consume_redirect s =
    (let fd_str = takeWhile is_digit s;
         op = fst (redirect_operator (dropWhile is_digit s));
         r = snd (redirect_operator (dropWhile is_digit s));
         tok = redirect_token (slice_until s r) op fd_str
     in if is_heredoc_op op then
          (case consume_bare_delimiter (dropWhile (\<lambda>c. c = CHR '' '' \<or> c = tab) r) of
             (None, r') \<Rightarrow> ([tok], [], r')
           | (Some (draw, dres), r') \<Rightarrow>
               (case consume_heredoc_body dres (op = ''<<-'') r' of
                  (toks, errs, r'') \<Rightarrow> (tok # word_token draw dres # toks, errs, r'')))
        else ([tok], [], r))"

section \<open>The main loop\<close>

record lexer =
  lrest :: string
  ltokens :: "token list"
  lerrors :: "string list"

definition push :: "token list \<Rightarrow> string list \<Rightarrow> string \<Rightarrow> lexer \<Rightarrow> lexer" where
  "push toks errs r lx =
    lx\<lparr>lrest := r, ltokens := ltokens lx @ toks, lerrors := lerrors lx @ errs\<rparr>"

text \<open>\<open>startsCommand\<close>: whether an assignment here would prefix a command.\<close>

definition starts_command :: "token list \<Rightarrow> bool" where
  "starts_command toks \<longleftrightarrow> toks = [] \<or> tkind (last toks) \<in> {Pipe, AndIf, OrIf, Semi, Amp, Newline,
     LParen, ProcessSubIn, ProcessSubOut, Comment, Assignment}"

text \<open>\<open>/^[A-Za-z_][A-Za-z0-9_]*=/\<close>.\<close>

definition is_assignment_text :: "string \<Rightarrow> bool" where
  "is_assignment_text raw \<longleftrightarrow>
    raw \<noteq> [] \<and> is_alphau (hd raw) \<and> starts_with (dropWhile is_alnumu raw) ''=''"

definition consume_word :: "lexer \<Rightarrow> lexer" where
  "consume_word lx =
    (let s = lrest lx; w = fst (word_loop word_acc0 s); r = snd (word_loop word_acc0 s);
         raw = slice_until s r
     in if raw = [] then push [] (w_errors w) r lx
        else push [(plain_token
                      (if is_assignment_text raw \<and> starts_command (ltokens lx)
                       then Assignment else Word) raw)
                    \<lparr>tresolved := (if w_resolvable w then Some (w_resolved w) else None),
                      thas_expansion := w_expansion w, thas_command_sub := w_command_sub w\<rparr>]
               (w_errors w) r lx)"

definition redirect_only :: "string \<Rightarrow> token" where
  "redirect_only op = (plain_token RedirectT op)\<lparr>tredirect_op := Some op\<rparr>"

text \<open>One iteration of \<open>run\<close> at \<open>src[i] = c\<close>.\<close>

definition lex_char :: "lexer \<Rightarrow> char \<Rightarrow> string \<Rightarrow> lexer" where
  "lex_char lx c cs =
    (if c = CHR '' '' \<or> c = tab then push [] [] cs lx
     else if c = newline then push [plain_token Newline [newline]] [] cs lx
     else if c = CHR ''#'' then
       push [plain_token Comment (slice_until (c # cs) (skip_until newline cs))] []
         (skip_until newline cs) lx
     else if c = CHR 0x5C \<and> starts_with cs [newline] then push [] [] (tl cs) lx
     else if c = CHR ''|'' then
       (if starts_with cs ''|'' then push [plain_token OrIf ''||''] [] (tl cs) lx
        else push [plain_token Pipe ''|''] [] cs lx)
     else if c = CHR ''&'' then
       (if starts_with cs ''&'' then push [plain_token AndIf ''&&''] [] (tl cs) lx
        else if starts_with cs ''>>'' then push [redirect_only ''&>>''] [] (tl (tl cs)) lx
        else if starts_with cs ''>'' then push [redirect_only ''&>''] [] (tl cs) lx
        else push [plain_token Amp ''&''] [] cs lx)
     else if c = CHR '';'' then push [plain_token Semi '';''] [] cs lx
     else if c = CHR ''('' then push [plain_token LParen ''(''] [] cs lx
     else if c = CHR '')'' then push [plain_token RParen '')''] [] cs lx
     else if (c = CHR ''<'' \<or> c = CHR ''>'') \<and> starts_with cs ''('' then
       push [plain_token (if c = CHR ''<'' then ProcessSubIn else ProcessSubOut) [c, CHR ''('']] []
         (tl cs) lx
     else if starts_redirect (c # cs) then
       (case consume_redirect (c # cs) of (toks, errs, r) \<Rightarrow> push toks errs r lx)
     else consume_word lx)"

definition lex_step :: "lexer \<Rightarrow> lexer" where
  "lex_step lx = (case lrest lx of [] \<Rightarrow> lx | c # cs \<Rightarrow> lex_char lx c cs)"

lemma suffix_redirect_operator:
  assumes "r \<noteq> []" and "hd r = CHR ''<'' \<or> hd r = CHR ''>''"
  shows "suffix (snd (redirect_operator r)) (tl r)"
proof -
  obtain c cs where r: "r = c # cs" using assms(1) by (cases r) auto
  show ?thesis
    using assms(2) unfolding r
    by (auto simp: redirect_operator_def Let_def starts_with_def suffix_tl)
qed

lemma suffix_bare_delimiter_loop: "suffix (snd (bare_delimiter_loop acc s)) s"
proof (induction acc s rule: bare_delimiter_loop.induct)
  case (1 acc)
  then show ?case by simp
next
  case (2 acc c cs)
  then show ?case
    by (auto intro!: suffix_ConsI intro: suffix_order.trans [OF _ suffix_tl_skip_until])
qed

lemma suffix_consume_bare_delimiter: "suffix (snd (consume_bare_delimiter s)) s"
  by (simp add: consume_bare_delimiter_def Let_def suffix_bare_delimiter_loop)

lemma heredoc_lines_suffix:
  "heredoc_lines delim dashed acc s = (ls, Some (a, b)) \<Longrightarrow> suffix a s \<and> a \<noteq> [] \<and> suffix b (tl a)"
proof (induction delim dashed acc s rule: heredoc_lines.induct)
  case (1 delim dashed acc)
  then show ?case by simp
next
  case (2 delim dashed acc c cs)
  have tl: "suffix (tl (skip_until newline (c # cs))) cs"
    by (simp add: suffix_tl_skip_until)
  show ?case
    using 2 tl suffix_order.trans [OF _ tl]
    by (auto simp: Let_def split: if_splits intro!: suffix_ConsI)
qed

lemma suffix_consume_heredoc_body: "suffix (snd (snd (consume_heredoc_body delim dashed s))) s"
proof -
  have t: "suffix (tl (skip_until newline s)) s" by (rule suffix_tl_skip_until)
  show ?thesis
  proof (cases "heredoc_lines delim dashed [] (tl (skip_until newline s))")
    case (Pair ls o')
    show ?thesis
    proof (cases o')
      case None
      with Pair show ?thesis by (simp add: consume_heredoc_body_def Let_def)
    next
      case (Some ab)
      obtain a b where ab: "ab = (a, b)" by (cases ab)
      have "suffix b a" "suffix a (tl (skip_until newline s))"
        using heredoc_lines_suffix [of delim dashed "[]" _ ls a b] Pair Some ab
        by (auto intro: suffix_tl_trans)
      then have "suffix b s" using t by (meson suffix_order.trans)
      with Pair Some ab show ?thesis by (simp add: consume_heredoc_body_def Let_def)
    qed
  qed
qed

lemma suffix_consume_redirect:
  assumes "starts_redirect (c # cs)"
  shows "suffix (snd (snd (consume_redirect (c # cs)))) cs"
proof -
  define r0 where "r0 = dropWhile is_digit (c # cs)"
  define r where "r = snd (redirect_operator r0)"
  have r0: "r0 \<noteq> []" "hd r0 = CHR ''<'' \<or> hd r0 = CHR ''>''"
    using assms by (auto simp: starts_redirect_def r0_def Let_def)
  have "suffix (tl r0) cs"
    using suffix_dropWhile [of is_digit "c # cs"] r0(1)
    by (metis r0_def list.sel(3) list.exhaust_sel suffix_Cons suffix_ConsD suffix_tl_trans
        suffix_order.refl suffix_tl)
  then have r: "suffix r cs"
    using suffix_redirect_operator [OF r0] by (metis r_def suffix_order.trans)
  define d where "d = consume_bare_delimiter (dropWhile (\<lambda>c. c = CHR '' '' \<or> c = tab) r)"
  have d: "suffix (snd d) cs"
    by (metis d_def r suffix_consume_bare_delimiter suffix_dropWhile suffix_order.trans)
  have "suffix (snd (snd (consume_heredoc_body x y (snd d)))) cs" for x y
    using suffix_consume_heredoc_body d by (meson suffix_order.trans)
  then show ?thesis
    using r d unfolding consume_redirect_def Let_def r0_def [symmetric] r_def [symmetric]
      d_def [symmetric]
    by (auto simp: split_beta split: prod.split option.split)
qed

lemma lrest_push [simp]: "lrest (push toks errs r lx) = r"
  by (simp add: push_def)

lemma lrest_consume_word:
  "lrest lx = c # cs \<Longrightarrow> \<not> is_word_break c \<Longrightarrow> suffix (lrest (consume_word lx)) cs"
  using suffix_word_loop_Cons [of c word_acc0 cs] by (simp add: consume_word_def Let_def)

lemma starts_redirect_angle: "starts_redirect (CHR ''<'' # cs)" "starts_redirect (CHR ''>'' # cs)"
  by (simp_all add: starts_redirect_def is_digit_def in_range_def)

lemma starts_redirect_head:
  "starts_redirect (c # cs) \<Longrightarrow> is_digit c \<or> c = CHR ''<'' \<or> c = CHR ''>''"
  by (auto simp: starts_redirect_def Let_def split: if_splits)

lemma lrest_lex_char:
  assumes "lrest lx = c # cs"
  shows "suffix (lrest (lex_char lx c cs)) cs"
proof (cases "is_word_break c")
  case True
  then consider "c = CHR ''<'' \<or> c = CHR ''>''" | "c \<in> {CHR '' '', tab, newline, CHR ''|'', CHR '';'',
      CHR ''&'', CHR ''('', CHR '')''}"
    by (auto simp: is_word_break_def)
  then show ?thesis
  proof cases
    case 1
    then show ?thesis
      using suffix_consume_redirect [OF starts_redirect_angle(1), of cs]
        suffix_consume_redirect [OF starts_redirect_angle(2), of cs]
      by (elim disjE) (simp_all add: lex_char_def split_beta suffix_tl starts_redirect_angle)
  next
    case 2
    then show ?thesis by (elim insertE emptyE) (simp_all add: lex_char_def suffix_tl)
  qed
next
  case False
  then have c: "c \<notin> {CHR '' '', tab, newline, CHR ''|'', CHR '';'', CHR ''&'', CHR ''('', CHR '')'',
      CHR ''<'', CHR ''>''}"
    by (simp add: is_word_break_def)
  show ?thesis
    using c lrest_consume_word [OF assms False] suffix_consume_redirect [of c cs]
    by (simp add: lex_char_def split_beta suffix_tl suffix_skip_until)
qed

lemma lex_step_progress: "lrest lx \<noteq> [] \<Longrightarrow> length (lrest (lex_step lx)) < length (lrest lx)"
  using lrest_lex_char [of lx "hd (lrest lx)" "tl (lrest lx)"]
  by (cases "lrest lx") (simp_all add: lex_step_def suffix_length_Suc)

function lex_run :: "lexer \<Rightarrow> lexer" where
  "lex_run lx = (if lrest lx = [] then lx else lex_run (lex_step lx))"
  by pat_completeness auto
termination
  by (relation "measure (\<lambda>lx. length (lrest lx))") (auto simp: lex_step_progress)

declare lex_run.simps [simp del]

definition tokenize :: "string \<Rightarrow> token list \<times> string list" where
  "tokenize input =
    (let lx = lex_run \<lparr>lrest = input, ltokens = [], lerrors = []\<rparr> in (ltokens lx, lerrors lx))"

end
