(* ===== verification/SinkIndicators.thy ===== *)
theory SinkIndicators
  imports ShellTypes
begin

text \<open>
  Sink-indicator detection, \<^verbatim>\<open>packages/core/src/shell/sink-indicators.ts\<close>. The scan of one
  command can throw: the flag table it indexes with the command's own name is an object literal
  (see \<open>INLINE_EVAL_FLAGS\<close>), so its result type is \<open>result\<close>.
\<close>

definition EVAL_CONSTRUCTS :: "string list" where
  "EVAL_CONSTRUCTS = [''eval'', ''source'', ''.'']"

definition SCP_RSYNC :: "string list" where
  "SCP_RSYNC = [''scp'', ''rsync'']"

definition NC_SOCAT :: "string list" where
  "NC_SOCAT = [''nc'', ''ncat'', ''socat'']"

definition SSH_TOOLS :: "string list" where
  "SSH_TOOLS = [''ssh'', ''sshpass'']"

definition PACKAGE_LIFECYCLE :: "string list" where
  "PACKAGE_LIFECYCLE = [''npm'', ''pnpm'', ''yarn'', ''bun'']"

definition PACKAGE_LIFECYCLE_VERBS :: "string list" where
  "PACKAGE_LIFECYCLE_VERBS = [''install'', ''i'', ''add'', ''ci'', ''rebuild'']"

definition SECRET_PATH_FRAGMENTS :: "string list" where
  "SECRET_PATH_FRAGMENTS = [''/.aws/credentials'', ''/.ssh/id_'', ''/.npmrc'', ''/.netrc'',
     ''/.git-credentials'', ''/.config/gh/hosts.yml'', ''/.docker/config.json'', ''/.kube/config'',
     ''/.gnupg/private-keys-v1.d/'', ''/.password-store/'']"

definition NETWORK_REDIRECT_PREFIXES :: "string list" where
  "NETWORK_REDIRECT_PREFIXES = [''/dev/tcp/'', ''/dev/udp/'']"

text \<open>\<open>/(?:^|\/)\.env(?:[^/]*)?$/\<close>: the last path segment starts with \<open>.env\<close>.\<close>

definition ENV_DOT_FILE_RE :: "string \<Rightarrow> bool" where
  "ENV_DOT_FILE_RE s \<longleftrightarrow> starts_with (last_segment s) ''.env''"

definition isSecretPath :: "string \<Rightarrow> bool" where
  "isSecretPath v \<longleftrightarrow>
    ENV_DOT_FILE_RE v \<or> list_ex (\<lambda>frag. includes_str v frag) SECRET_PATH_FRAGMENTS"

definition mk_indicator ::
  "indicator_kind \<Rightarrow> string option \<Rightarrow> int \<Rightarrow> string option \<Rightarrow> indicator" where
  "mk_indicator k t p d = \<lparr>ikind = k, itoken = t, iposition = p, idetail = d\<rparr>"

definition arg :: "string list \<Rightarrow> nat \<Rightarrow> string option" where
  "arg a i = (if i < length a then Some (a ! i) else None)"

text \<open>\<open>(argv[i] ?? "")\<close>.\<close>

definition arg_or_empty :: "string list \<Rightarrow> nat \<Rightarrow> string" where
  "arg_or_empty a i = (case arg a i of None \<Rightarrow> [] | Some v \<Rightarrow> v)"

text \<open>\<open>s.split("/").pop() || s\<close>.\<close>

definition base_or_self :: "string \<Rightarrow> string" where
  "base_or_self s = (if last_segment s = [] then s else last_segment s)"

definition argv_list :: "parsed_command \<Rightarrow> string list" where
  "argv_list cmd = (case argv cmd of None \<Rightarrow> [] | Some a \<Rightarrow> a)"

definition leaf_head :: "parsed_command \<Rightarrow> string" where
  "leaf_head cmd =
    (case argv_list cmd of
       h # _ \<Rightarrow> h
     | [] \<Rightarrow> (case resolved_head cmd of Some h \<Rightarrow> h | None \<Rightarrow> []))"

definition leaf_base :: "parsed_command \<Rightarrow> string" where
  "leaf_base cmd = base_or_self (to_lower (leaf_head cmd))"

section \<open>The parts of the scan\<close>

definition emit :: "bool \<Rightarrow> 'a \<Rightarrow> 'a list" where
  "emit b x = (if b then [x] else [])"

text \<open>The six word-list checks on the head.\<close>

definition head_indicators :: "string \<Rightarrow> string list \<Rightarrow> indicator list" where
  "head_indicators base a =
     emit (base \<in> set INTERPRETER_NAMES) (mk_indicator Interpreter (arg a 0) 0 None)
   @ emit (base \<in> set FETCH_TOOL_NAMES) (mk_indicator FetchTool (arg a 0) 0 None)
   @ emit (base \<in> set EVAL_CONSTRUCTS) (mk_indicator EvalConstruct (arg a 0) 0 None)
   @ emit (base \<in> set SCP_RSYNC) (mk_indicator ScpRsync (arg a 0) 0 None)
   @ emit (base \<in> set NC_SOCAT) (mk_indicator NcSocat (arg a 0) 0 None)
   @ emit (base \<in> set SSH_TOOLS) (mk_indicator Ssh (arg a 0) 0 None)"

definition package_indicators :: "string \<Rightarrow> string list \<Rightarrow> indicator list" where
  "package_indicators base a =
    (let verb = to_lower (arg_or_empty a 1) in
     emit (base \<in> set PACKAGE_LIFECYCLE \<and> length a > 1 \<and> verb \<in> set PACKAGE_LIFECYCLE_VERBS
           \<and> ''--ignore-scripts'' \<notin> set (drop 1 a))
       (mk_indicator PackageLifecycle (Some (arg_or_empty a 0 @ '' '' @ arg_or_empty a 1)) 0
          (Some ''missing --ignore-scripts'')))"

definition gh_indicators :: "string \<Rightarrow> string list \<Rightarrow> indicator list" where
  "gh_indicators base a =
    (let sub1 = to_lower (arg_or_empty a 1); sub2 = to_lower (arg_or_empty a 2);
         upload = sub1 = ''gist'' \<and> sub2 = ''create'' \<or> sub1 = ''release'' \<and> sub2 = ''upload''
           \<or> sub1 = ''issue'' \<and> sub2 = ''create'' \<or> sub1 = ''pr'' \<and> sub2 = ''comment''
           \<or> sub1 = ''api''
     in emit (base = ''gh'' \<and> length a \<ge> 3 \<and> upload)
          (mk_indicator GhUpload (Some (''gh '' @ sub1 @ '' '' @ sub2)) 0 None))"

definition git_indicators :: "string \<Rightarrow> string list \<Rightarrow> indicator list" where
  "git_indicators base a =
    (let sub = to_lower (arg_or_empty a 1) in
     if base = ''git'' \<and> length a > 1 then
       emit (sub \<in> {''push'', ''fetch'', ''pull'', ''remote'', ''config'', ''submodule''})
         (mk_indicator GitRemoteMutate (Some (''git '' @ sub)) 0 None)
       @ emit (sub = ''-c'')
           (mk_indicator GitRemoteMutate (Some (''git -c '' @ [CHR 0xE2, CHR 0x80, CHR 0xA6])) 0
              (Some ''git -c flag''))
     else [])"

text \<open>The search for the first inline-eval flag from index \<open>i\<close> on.\<close>

fun first_flag :: "string list \<Rightarrow> nat \<Rightarrow> string list \<Rightarrow> (nat \<times> string) option" where
  "first_flag flags i [] = None"
| "first_flag flags i (a # as) =
     (if a \<in> set flags then Some (i, a) else first_flag flags (Suc i) as)"

definition inline_eval_indicators :: "string \<Rightarrow> string list \<Rightarrow> indicator list result" where
  "inline_eval_indicators base a =
    (case INLINE_EVAL_FLAGS base of
       NoFlags \<Rightarrow> Inr []
     | InheritedValue \<Rightarrow>
         if length a > 1 then Inl (TypeError ''flagsForHead.has is not a function'') else Inr []
     | FlagSet flags \<Rightarrow>
         Inr (case first_flag flags 1 (drop 1 a) of
                None \<Rightarrow> []
              | Some (i, f) \<Rightarrow>
                  [mk_indicator InterpreterInlineEval (Some (arg_or_empty a 0 @ '' '' @ f))
                     (int i) None]))"

fun secret_arg_indicators :: "nat \<Rightarrow> string list \<Rightarrow> indicator list" where
  "secret_arg_indicators i [] = []"
| "secret_arg_indicators i (a # as) =
     emit (isSecretPath a) (mk_indicator SecretPath (Some a) (int i) None)
     @ secret_arg_indicators (Suc i) as"

definition indicatorForRedirect :: "redirect \<Rightarrow> indicator option" where
  "indicatorForRedirect r =
    (if \<not> rtarget_resolved r then None
     else if list_ex (\<lambda>p. starts_with (rtarget r) p) NETWORK_REDIRECT_PREFIXES then
       Some (mk_indicator NetworkRedirect (Some (rtarget r)) (-1)
               (Some (redirect_kind_name (rkind r))))
     else if isSecretPath (rtarget r) then
       Some (mk_indicator SecretPath (Some (rtarget r)) (-1)
               (Some (''redirect '' @ redirect_kind_name (rkind r))))
     else None)"

definition indicatorsForLeaf :: "parsed_command \<Rightarrow> indicator list result" where
  "indicatorsForLeaf cmd =
    (let a = argv_list cmd; base = leaf_base cmd in
     bind_result (inline_eval_indicators base a) (\<lambda>inline.
       Inr (head_indicators base a @ package_indicators base a @ gh_indicators base a
            @ git_indicators base a @ inline @ secret_arg_indicators 0 a
            @ List.map_filter indicatorForRedirect (redirects cmd))))"

text \<open>
  \<open>combineChildrenIndicators\<close>: indicators that span children. The interpreter test here takes the
  last path segment without the fallback of \<open>base_or_self\<close>.
\<close>

definition head_is_interpreter :: "parsed_command \<Rightarrow> bool" where
  "head_is_interpreter cmd \<longleftrightarrow>
    (case argv cmd of
       Some (h # _) \<Rightarrow> last_segment (to_lower h) \<in> set INTERPRETER_NAMES
     | _ \<Rightarrow> False)"

definition combineChildrenIndicators :: "parsed_command \<Rightarrow> indicator list" where
  "combineChildrenIndicators parent =
    (let cs = children parent in
     (if pop parent = Some OpPipe \<and> length cs \<ge> 2 \<and> head_is_interpreter (last cs)
      then [mk_indicator PipeToInterpreter (arg (argv_list (last cs)) 0) (int (length cs) - 1)
              (Some ''final stage is shell interpreter'')]
      else [])
     @ emit (head_is_interpreter parent
             \<and> list_ex (\<lambda>c. pop c = Some OpProcessSubIn \<or> pop c = Some OpProcessSubOut) cs)
         (mk_indicator ProcessSubToInterpreter (arg (argv_list parent) 0) 0
            (Some ''interpreter consumes process substitution'')))"

definition collectChildSinkIndicators :: "parsed_command list \<Rightarrow> indicator list" where
  "collectChildSinkIndicators cs = concat (map sink_indicators cs)"

section \<open>Facts\<close>

lemma emit_simps [simp]: "emit True x = [x]" "emit False x = []"
  by (simp_all add: emit_def)

lemma set_emit [simp]: "y \<in> set (emit b x) \<longleftrightarrow> b \<and> y = x"
  by (cases b) auto

lemma mk_indicator_sel [simp]:
  "ikind (mk_indicator k t p d) = k" "itoken (mk_indicator k t p d) = t"
  "iposition (mk_indicator k t p d) = p" "idetail (mk_indicator k t p d) = d"
  by (simp_all add: mk_indicator_def)

text \<open>The scan throws exactly on an inherited name with at least one argument.\<close>

lemma INLINE_EVAL_FLAGS_inherited_iff:
  "INLINE_EVAL_FLAGS h = InheritedValue \<longleftrightarrow> h = ''constructor'' \<or> h = ''__proto__''"
  by (simp add: INLINE_EVAL_FLAGS_def)

lemma inline_eval_indicators_throws_iff:
  "inline_eval_indicators base a = Inl e \<longleftrightarrow>
     base \<in> {''constructor'', ''__proto__''} \<and> length a > 1
     \<and> e = TypeError ''flagsForHead.has is not a function''"
  by (cases "INLINE_EVAL_FLAGS base")
    (auto simp: inline_eval_indicators_def INLINE_EVAL_FLAGS_inherited_iff [symmetric])

lemma indicatorsForLeaf_throws_iff:
  "indicatorsForLeaf cmd = Inl e \<longleftrightarrow>
     leaf_base cmd \<in> {''constructor'', ''__proto__''} \<and> length (argv_list cmd) > 1
     \<and> e = TypeError ''flagsForHead.has is not a function''"
  by (simp add: indicatorsForLeaf_def Let_def bind_result_eq_Inl inline_eval_indicators_throws_iff)

end
