(* ===== verification/ShellParser.thy ===== *)
theory ShellParser
  imports ShellLexer SinkIndicators
begin

text \<open>
  The shell parser, \<^verbatim>\<open>packages/core/src/shell/parse.ts\<close>. The cursor is the list of unread
  tokens (\<open>cur.tokens.slice(cur.i)\<close>); a parsing function returns its node with the tokens it
  leaves. The three mutually recursive functions and their loops share one fuel argument, the
  recursion of \<open>sh -c\<close> bodies a second one; running out is \<open>RangeError\<close>, what the engine raises
  when its call stack is exhausted. The entry point supplies enough of both.
\<close>

section \<open>Redirects and words\<close>

definition classifyRedirect :: "string \<Rightarrow> nat option \<Rightarrow> redirect_kind" where
  "classifyRedirect op fd =
    (if op = ''<'' then StdinFile
     else if op = ''>'' then (if fd = Some 2 then StderrFile else StdoutFile)
     else if op = ''>>'' then (if fd = Some 2 then StderrAppend else StdoutAppend)
     else if op = ''2>'' then StderrFile
     else if op = ''2>>'' then StderrAppend
     else if op = ''&>'' \<or> op = ''&>>'' then MergeStderrStdout
     else if op = ''>&'' \<or> op = ''<&'' then FdDup
     else if op = ''<<'' then Heredoc
     else if op = ''<<-'' then HeredocDash
     else if op = ''<<<'' then Herestring
     else UnknownRedirect)"

definition downgrade :: "parse_confidence \<Rightarrow> parse_confidence \<Rightarrow> parse_confidence" where
  "downgrade a b = min a b"

definition mergeConfidence :: "parse_confidence list \<Rightarrow> parse_confidence" where
  "mergeConfidence parts = foldl downgrade High parts"

text \<open>The value of a token whose text is statically known.\<close>

definition static_value :: "token \<Rightarrow> string option" where
  "static_value t = (if thas_expansion t then None else tresolved t)"

text \<open>\<open>consumeRedirect\<close>, at a redirect token \<open>op\<close>; \<open>ts\<close> are the tokens after it.\<close>

definition parse_redirect :: "token \<Rightarrow> token list \<Rightarrow> redirect \<times> token list" where
  "parse_redirect op ts =
    (let rk = classifyRedirect
                (case tredirect_op op of None \<Rightarrow> traw op | Some o' \<Rightarrow> o') (tfd op) in
     case ts of
       [] \<Rightarrow> (\<lparr>rkind = rk, rfd = tfd op, rtarget = [], rtarget_resolved = False,
              rraw = traw op\<rparr>, [])
     | t # ts' \<Rightarrow>
         (let raw = traw op @ '' '' @ traw t in
          if tkind t = Word then
            (\<lparr>rkind = rk, rfd = tfd op,
              rtarget = (case static_value t of Some v \<Rightarrow> v | None \<Rightarrow> traw t),
              rtarget_resolved = (static_value t \<noteq> None), rraw = raw\<rparr>, ts')
          else (\<lparr>rkind = rk, rfd = tfd op, rtarget = [], rtarget_resolved = False,
                 rraw = raw\<rparr>, ts)))"

text \<open>\<open>consumeHeredoc\<close>, at a heredoc marker; no delimiter word after it gives no redirect.\<close>

definition parse_heredoc :: "token \<Rightarrow> token list \<Rightarrow> redirect option \<times> token list" where
  "parse_heredoc op ts =
    (case ts of
       [] \<Rightarrow> (None, [])
     | delim # ts' \<Rightarrow>
         if tkind delim \<noteq> Word then (None, ts)
         else
           (let body = (case ts' of
                          b # _ \<Rightarrow> if tkind b = Word
                                   then (case tresolved b of Some v \<Rightarrow> v | None \<Rightarrow> traw b) else []
                        | [] \<Rightarrow> []);
                ts'' = (case ts' of b # r \<Rightarrow> if tkind b = Word then r else ts' | [] \<Rightarrow> [])
            in (Some \<lparr>rkind = (if tredirect_op op = Some ''<<-'' then HeredocDash else Heredoc),
                      rfd = tfd op, rtarget = body, rtarget_resolved = True,
                      rraw = traw op @ '' '' @ traw delim @ [newline] @ body @ [newline]
                             @ traw delim\<rparr>, ts'')))"

definition rawFromTokens :: "token list \<Rightarrow> string" where
  "rawFromTokens toks = join '' '' (map traw toks)"

definition stripQuotes :: "string \<Rightarrow> string" where
  "stripQuotes s =
    (if length s \<ge> 2
        \<and> (hd s = CHR 0x27 \<and> last s = CHR 0x27 \<or> hd s = CHR 0x22 \<and> last s = CHR 0x22)
     then butlast (tl s) else s)"

text \<open>
  Assignment to a property of a plain object: the name \<open>__proto__\<close> reaches the inherited setter,
  which ignores a string.
\<close>

definition env_set :: "string \<Rightarrow> string \<Rightarrow> (string \<times> string) list \<Rightarrow> (string \<times> string) list" where
  "env_set k v e = (if k = ''__proto__'' then e else obj_set k v e)"

definition makeUnknown :: "string \<Rightarrow> string \<Rightarrow> parsed_command" where
  "makeUnknown raw why = ParsedCommand None [] [] [] None raw Unknown [] (Some why) None"

section \<open>Compound prefixes\<close>

text \<open>\<open>/^\d+(\.\d+)?[smhd]?$/\<close>.\<close>

definition is_duration :: "string \<Rightarrow> bool" where
  "is_duration s \<longleftrightarrow>
    (let r = dropWhile is_digit s; unit_ok = (\<lambda>u. u = [] \<or> u \<in> {''s'', ''m'', ''h'', ''d''}) in
     s \<noteq> [] \<and> is_digit (hd s)
     \<and> (unit_ok r
        \<or> r \<noteq> [] \<and> hd r = CHR ''.'' \<and> tl r \<noteq> [] \<and> is_digit (hd (tl r))
          \<and> unit_ok (dropWhile is_digit (tl r))))"

text \<open>\<open>/^[A-Za-z_][A-Za-z0-9_]*$/\<close>.\<close>

definition is_name :: "string \<Rightarrow> bool" where
  "is_name s \<longleftrightarrow> s \<noteq> [] \<and> is_alphau (hd s) \<and> list_all is_alnumu s"

text \<open>The argument loops of \<open>timeout\<close>, \<open>stdbuf\<close> and \<open>env\<close>, over the words after the prefix.\<close>

fun skip_timeout_args :: "string list \<Rightarrow> string list" where
  "skip_timeout_args [] = []"
| "skip_timeout_args (a # as) =
     (if starts_with a ''-'' \<or> is_duration a then skip_timeout_args as else a # as)"

fun skip_stdbuf_args :: "string list \<Rightarrow> string list" where
  "skip_stdbuf_args [] = []"
| "skip_stdbuf_args (a # as) =
     (if starts_with a ''-'' then
        (if length a = 2 \<and> as \<noteq> [] then skip_stdbuf_args (tl as) else skip_stdbuf_args as)
      else a # as)"

fun skip_env_args ::
  "(string \<times> string) list \<Rightarrow> string list \<Rightarrow> (string \<times> string) list \<times> string list" where
  "skip_env_args e [] = (e, [])"
| "skip_env_args e (a # as) =
     (if starts_with a ''-'' then skip_env_args e as
      else
        (let name = takeWhile (\<lambda>c. c \<noteq> CHR ''='') a; r = dropWhile (\<lambda>c. c \<noteq> CHR ''='') a in
         if r = [] \<or> name = [] \<or> \<not> is_name name then (e, a # as)
         else skip_env_args (env_set name (tl r) e) as))"

definition skip_nice_args :: "string list \<Rightarrow> string list" where
  "skip_nice_args as =
    (if arg as 0 = Some ''-n'' \<and> length as \<ge> 2 then drop 2 as
     else if starts_with (arg_or_empty as 0) ''-'' then drop 1 as
     else as)"

text \<open>
  The loop of \<open>unwrapCompoundPrefixes\<close>, with its \<open>safety\<close> counter; the flag says whether a prefix
  was removed.
\<close>

fun unwrap_loop ::
  "nat \<Rightarrow> bool \<Rightarrow> (string \<times> string) list \<Rightarrow> string list \<Rightarrow> bool \<times> (string \<times> string) list \<times> string list"
where
  "unwrap_loop 0 u e a = (u, e, a)"
| "unwrap_loop (Suc n) u e [] = (u, e, [])"
| "unwrap_loop (Suc n) u e (h # as) =
     (if h \<notin> set COMPOUND_PREFIXES then (u, e, h # as)
      else if h = ''nice'' then unwrap_loop n True e (skip_nice_args as)
      else if h = ''timeout'' then unwrap_loop n True e (skip_timeout_args as)
      else if h = ''stdbuf'' then unwrap_loop n True e (skip_stdbuf_args as)
      else if h = ''env'' then
        unwrap_loop n True (fst (skip_env_args e as)) (snd (skip_env_args e as))
      else unwrap_loop n True e as)"

definition unwrapCompoundPrefixes :: "parsed_command \<Rightarrow> parsed_command" where
  "unwrapCompoundPrefixes node =
    (case argv node of
       None \<Rightarrow> node
     | Some a \<Rightarrow>
         if a = [] then node
         else (case unwrap_loop 8 False (env node) a of
                 (u, e, a') \<Rightarrow>
                   if \<not> u then node
                   else set_argv_env (if a' = [] then None else Some a') e node))"

section \<open>Inline \<open>-c\<close> bodies\<close>

text \<open>
  The search for the flag from index 1 on, excluding the last word: the body is the word after
  it. The given function parses a body.
\<close>

fun dash_c_body :: "string list \<Rightarrow> string option" where
  "dash_c_body (f # b # as) =
     (if f = ''-c'' \<or> f = ''--command'' then Some b else dash_c_body (b # as))"
| "dash_c_body _ = None"

definition maybeUnwrapInlineDashC ::
  "(string \<Rightarrow> parsed_command result) \<Rightarrow> parsed_command \<Rightarrow> parsed_command result" where
  "maybeUnwrapInlineDashC parse node =
    (case argv node of
       None \<Rightarrow> Inr node
     | Some a \<Rightarrow>
         if length a < 3 then Inr node
         else if base_or_self (to_lower (hd a)) \<notin> set INTERPRETER_NAMES then Inr node
         else (case dash_c_body (tl a) of
                 None \<Rightarrow> Inr node
               | Some body \<Rightarrow>
                   if body = [] then Inr node
                   else bind_result (parse body) (\<lambda>inner.
                     Inr (set_inline (inner # children node)
                            (downgrade (confidence node) (confidence inner))
                            (sink_indicators node @ sink_indicators inner) node))))"

section \<open>Simple commands\<close>

text \<open>The local variables of \<open>parseSimpleCommand\<close>.\<close>

record simple_acc =
  sa_env :: "(string \<times> string) list"
  sa_argv :: "token list"
  sa_redirects :: "redirect list"
  sa_subs :: "parsed_command list"
  sa_confidence :: parse_confidence
  sa_errors :: "string list"

definition simple_acc0 :: simple_acc where
  "simple_acc0 = \<lparr>sa_env = [], sa_argv = [], sa_redirects = [], sa_subs = [],
     sa_confidence = High, sa_errors = []\<rparr>"

definition ends_simple :: "token_kind \<Rightarrow> bool" where
  "ends_simple k \<longleftrightarrow> k \<in> {Pipe, Semi, Newline, AndIf, OrIf, Amp, RParen}"

definition add_assignment :: "token \<Rightarrow> simple_acc \<Rightarrow> simple_acc" where
  "add_assignment t a =
    (if thas_expansion t then a\<lparr>sa_confidence := Low\<rparr>
     else a\<lparr>sa_env := env_set (takeWhile (\<lambda>c. c \<noteq> CHR ''='') (traw t))
                        (stripQuotes (tl (dropWhile (\<lambda>c. c \<noteq> CHR ''='') (traw t)))) (sa_env a)\<rparr>)"

definition add_redirect :: "redirect \<Rightarrow> simple_acc \<Rightarrow> simple_acc" where
  "add_redirect r a =
    a\<lparr>sa_redirects := sa_redirects a @ [r],
      sa_confidence := (if rtarget_resolved r then sa_confidence a
                        else downgrade (sa_confidence a) Low)\<rparr>"

definition add_heredoc :: "redirect option \<Rightarrow> simple_acc \<Rightarrow> simple_acc" where
  "add_heredoc ro a =
    (case ro of None \<Rightarrow> a | Some r \<Rightarrow> a\<lparr>sa_redirects := sa_redirects a @ [r]\<rparr>)"

definition add_word :: "token \<Rightarrow> simple_acc \<Rightarrow> simple_acc" where
  "add_word t a =
    a\<lparr>sa_argv := sa_argv a @ [t],
      sa_confidence := (if static_value t = None then downgrade (sa_confidence a) Low
                        else sa_confidence a)\<rparr>"

definition add_unexpected :: "token \<Rightarrow> simple_acc \<Rightarrow> simple_acc" where
  "add_unexpected t a =
    a\<lparr>sa_errors := sa_errors a @ [''unexpected token: '' @ kind_name (tkind t)],
      sa_confidence := Unknown\<rparr>"

definition add_sub :: "parsed_command \<Rightarrow> simple_acc \<Rightarrow> simple_acc" where
  "add_sub n a = a\<lparr>sa_subs := sa_subs a @ [n]\<rparr>"

text \<open>The node built after the loop, before unwrapping.\<close>

definition simple_node :: "simple_acc \<Rightarrow> string \<Rightarrow> parsed_command" where
  "simple_node a raw =
    ParsedCommand
      (if list_all (\<lambda>t. static_value t \<noteq> None) (sa_argv a)
       then Some (map (the \<circ> static_value) (sa_argv a)) else None)
      (sa_env a) (sa_redirects a) (sa_subs a) None raw
      (if sa_subs a \<noteq> [] \<and> sa_confidence a = High then Low else sa_confidence a)
      [] (if sa_errors a \<noteq> [] then Some (join ''; '' (sa_errors a)) else None)
      (case sa_argv a of [] \<Rightarrow> None | t # _ \<Rightarrow> static_value t)"

definition finish_simple ::
  "(string \<Rightarrow> parsed_command result) \<Rightarrow> simple_acc \<Rightarrow> string \<Rightarrow> parsed_command result" where
  "finish_simple parse a raw =
    bind_result (maybeUnwrapInlineDashC parse (unwrapCompoundPrefixes (simple_node a raw)))
      (\<lambda>node. bind_result (indicatorsForLeaf node) (\<lambda>leaf.
         Inr (set_indicators (leaf @ collectChildSinkIndicators (children node)
                              @ combineChildrenIndicators node) node)))"

text \<open>The trailing redirects of a subshell.\<close>

function (sequential) subshell_redirects :: "token list \<Rightarrow> redirect list \<times> token list" where
  "subshell_redirects [] = ([], [])"
| "subshell_redirects (t # ts) =
    (if tkind t = RedirectT then
       (let r = fst (parse_redirect t ts); p = subshell_redirects (snd (parse_redirect t ts))
        in (r # fst p, snd p))
     else ([], t # ts))"
  by pat_completeness auto
termination
  by (relation "measure length") (auto simp: parse_redirect_def Let_def split: list.split)

text \<open>\<open>if (cur.tokens[cur.i]?.kind === "rparen") cur.i++\<close>.\<close>

definition skip_rparen :: "token list \<Rightarrow> token list" where
  "skip_rparen ts = (case ts of t # r \<Rightarrow> if tkind t = RParen then r else ts | [] \<Rightarrow> [])"

section \<open>Pipelines and sequences\<close>

definition pipe_node :: "parsed_command list \<Rightarrow> string \<Rightarrow> parsed_command" where
  "pipe_node stages raw =
    (let parent = ParsedCommand None [] [] stages (Some OpPipe) raw
                    (mergeConfidence (map confidence stages)) [] None None
     in set_indicators (collectChildSinkIndicators stages @ combineChildrenIndicators parent)
          parent)"

definition is_separator :: "token_kind \<Rightarrow> bool" where
  "is_separator k \<longleftrightarrow> k \<in> {Semi, Newline, AndIf, OrIf, Amp}"

fun separator_op :: "token_kind \<Rightarrow> parsed_op" where
  "separator_op AndIf = OpAnd"
| "separator_op OrIf = OpOr"
| "separator_op Amp = OpBackground"
| "separator_op _ = OpSequence"

text \<open>
  The result of \<open>parseSequence\<close> from its segments: a node and the operator before it, absent for
  the first.
\<close>

definition sequence_node ::
  "(parsed_command \<times> parsed_op option) list \<Rightarrow> string \<Rightarrow> parsed_command" where
  "sequence_node segs raw =
    (case segs of
       [] \<Rightarrow> makeUnknown raw ''empty input''
     | [s] \<Rightarrow> fst s
     | s # s' # rest \<Rightarrow>
         (let op_of = (\<lambda>x. case snd x of None \<Rightarrow> OpSequence | Some p \<Rightarrow> p);
              cs = fst s # map (\<lambda>x. set_op (op_of x) (fst x)) (s' # rest)
          in ParsedCommand None [] [] cs (Some (op_of s')) raw (mergeConfidence (map confidence cs))
               (collectChildSinkIndicators cs) None None))"

text \<open>
  \<open>parseSequence\<close>, \<open>parsePipeline\<close> and \<open>parseSimpleCommand\<close> with their loops. The first
  argument parses the body of an inline \<open>-c\<close>, the second is the fuel.
\<close>

function seq_loop ::
  "(string \<Rightarrow> parsed_command result) \<Rightarrow> nat \<Rightarrow> (parsed_command \<times> parsed_op option) list
   \<Rightarrow> parsed_op option \<Rightarrow> token list
   \<Rightarrow> ((parsed_command \<times> parsed_op option) list \<times> token list) result"
and parse_pipeline ::
  "(string \<Rightarrow> parsed_command result) \<Rightarrow> nat \<Rightarrow> token list \<Rightarrow> (parsed_command \<times> token list) result"
and pipe_loop ::
  "(string \<Rightarrow> parsed_command result) \<Rightarrow> nat \<Rightarrow> parsed_command list \<Rightarrow> token list
   \<Rightarrow> (parsed_command list \<times> token list) result"
and parse_simple ::
  "(string \<Rightarrow> parsed_command result) \<Rightarrow> nat \<Rightarrow> token list \<Rightarrow> (parsed_command \<times> token list) result"
and simple_loop ::
  "(string \<Rightarrow> parsed_command result) \<Rightarrow> nat \<Rightarrow> simple_acc \<Rightarrow> token list
   \<Rightarrow> (simple_acc \<times> token list) result"
where
  "seq_loop p 0 segs q ts = Inl RangeError"
| "seq_loop p (Suc n) segs q toks =
    (case toks of [] \<Rightarrow> Inr (segs, []) | t # ts \<Rightarrow>
     if tkind t = RParen then Inr (segs, t # ts)
     else if tkind t = Comment \<or> is_separator (tkind t) then seq_loop p n segs q ts
     else bind_result (parse_pipeline p n (t # ts)) (\<lambda>nr.
       case snd nr of
         [] \<Rightarrow> Inr (segs @ [(fst nr, q)], [])
       | s # r \<Rightarrow>
           if is_separator (tkind s)
           then seq_loop p n (segs @ [(fst nr, q)]) (Some (separator_op (tkind s))) r
           else Inr (segs @ [(fst nr, q)], s # r)))"
| "parse_pipeline p 0 ts = Inl RangeError"
| "parse_pipeline p (Suc n) ts =
    bind_result (parse_simple p n ts) (\<lambda>sr.
      bind_result (pipe_loop p n [fst sr] (snd sr)) (\<lambda>gr.
        Inr (if length (fst gr) = 1 then hd (fst gr)
             else pipe_node (fst gr) (rawFromTokens (slice_until ts (snd gr))), snd gr)))"
| "pipe_loop p 0 stages ts = Inl RangeError"
| "pipe_loop p (Suc n) stages toks =
    (case toks of [] \<Rightarrow> Inr (stages, []) | t # ts \<Rightarrow>
     if tkind t = Pipe
     then bind_result (parse_simple p n ts) (\<lambda>sr. pipe_loop p n (stages @ [fst sr]) (snd sr))
     else Inr (stages, t # ts))"
| "parse_simple p 0 ts = Inl RangeError"
| "parse_simple p (Suc n) ts =
    (if ts \<noteq> [] \<and> tkind (hd ts) = LParen then
       bind_result (seq_loop p n [] None (tl ts)) (\<lambda>gr.
         let inner = sequence_node (fst gr) []; r1 = skip_rparen (snd gr);
             raw = rawFromTokens (slice_until ts r1); rr = subshell_redirects r1
         in Inr (ParsedCommand None [] (fst rr) [inner] (Some OpSubshell) raw (confidence inner)
                   (sink_indicators inner) None None, snd rr))
     else
       bind_result (simple_loop p n simple_acc0 ts) (\<lambda>ar.
         bind_result (finish_simple p (fst ar) (rawFromTokens (slice_until ts (snd ar)))) (\<lambda>node.
           Inr (node, snd ar))))"
| "simple_loop p 0 a ts = Inl RangeError"
| "simple_loop p (Suc n) a toks =
    (case toks of [] \<Rightarrow> Inr (a, []) | t # ts \<Rightarrow>
     if ends_simple (tkind t) then Inr (a, t # ts)
     else if tkind t = Comment then simple_loop p n a ts
     else if tkind t = Assignment \<and> sa_argv a = [] then simple_loop p n (add_assignment t a) ts
     else if tkind t = RedirectT then
       simple_loop p n (add_redirect (fst (parse_redirect t ts)) a) (snd (parse_redirect t ts))
     else if tkind t = HeredocMarker then
       simple_loop p n (add_heredoc (fst (parse_heredoc t ts)) a) (snd (parse_heredoc t ts))
     else if tkind t = ProcessSubIn \<or> tkind t = ProcessSubOut then
       bind_result (seq_loop p n [] None ts) (\<lambda>gr.
         simple_loop p n
           (add_sub (set_op (if tkind t = ProcessSubIn then OpProcessSubIn else OpProcessSubOut)
                       (sequence_node (fst gr) [])) a)
           (skip_rparen (snd gr)))
     else if tkind t = Word \<or> tkind t = Assignment then simple_loop p n (add_word t a) ts
     else simple_loop p n (add_unexpected t a) ts)"
  by pat_completeness auto
termination
  by (relation "measure (case_sum
        (case_sum (\<lambda>(p, n, segs, q, ts). n) (\<lambda>(p, n, ts). n))
        (case_sum (\<lambda>(p, n, st, ts). n) (case_sum (\<lambda>(p, n, ts). n) (\<lambda>(p, n, a, ts). n))))")
    simp_all

definition parseSequence ::
  "(string \<Rightarrow> parsed_command result) \<Rightarrow> string \<Rightarrow> token list \<Rightarrow> parsed_command result" where
  "parseSequence p raw ts =
    bind_result (seq_loop p (4 * length ts + 4) [] None ts) (\<lambda>gr. Inr (sequence_node (fst gr) raw))"

text \<open>\<open>parseShellCommand\<close>, with fuel for the nesting of inline bodies.\<close>

fun parse_shell :: "nat \<Rightarrow> string \<Rightarrow> parsed_command result" where
  "parse_shell 0 input = Inl RangeError"
| "parse_shell (Suc n) input =
    (if input = [] then Inr (makeUnknown [] ''empty input'')
     else
       (let te = tokenize input; toks = fst te; errs = snd te in
        if toks = [] then
          Inr (if errs \<noteq> [] then set_failure Unknown (join ''; '' errs)
                                  (makeUnknown input ''no tokens'')
               else makeUnknown input ''no tokens'')
        else bind_result (parseSequence (\<lambda>body. parse_shell n body) input toks) (\<lambda>node.
          Inr (if errs \<noteq> [] then
                 set_failure (downgrade (confidence node) Unknown)
                   ((case parse_error node of
                       Some e \<Rightarrow> if e = [] then [] else e @ ''; '' | None \<Rightarrow> []) @ join ''; '' errs)
                   node
               else node))))"

definition parseShellCommand :: "string \<Rightarrow> parsed_command result" where
  "parseShellCommand input = parse_shell (Suc (length input)) input"

end
