(* ===== verification/ShellBounds.thy ===== *)
theory ShellBounds
  imports ShellParser
begin

text \<open>
  Sizes of what the lexer emits and of what the parser leaves, and from them the termination
  facts of the recognizer: the text of the tokens is no longer than the source, a resolved value
  at most one character longer than its token's text (the newline a here-document body without
  one gets), and every parsing function leaves a suffix of its tokens. The fuel of
  \<open>parseSequence\<close> and the fuel of \<open>parseShellCommand\<close> are therefore never exhausted.
\<close>

section \<open>Token sizes\<close>

definition raw_size :: "token list \<Rightarrow> nat" where
  "raw_size toks = sum_list (map (\<lambda>t. length (traw t)) toks)"

definition token_ok :: "token \<Rightarrow> bool" where
  "token_ok t \<longleftrightarrow>
    (case tresolved t of None \<Rightarrow> True | Some v \<Rightarrow> length v \<le> Suc (length (traw t)))"

lemma raw_size_simps [simp]:
  "raw_size [] = 0" "raw_size (t # ts) = length (traw t) + raw_size ts"
  "raw_size (ts @ us) = raw_size ts + raw_size us"
  by (simp_all add: raw_size_def)

lemma raw_size_suffix: "suffix r ts \<Longrightarrow> raw_size r \<le> raw_size ts"
  by (auto simp: suffix_def)

lemma plain_token_sel [simp]:
  "tkind (plain_token k r) = k" "traw (plain_token k r) = r" "tresolved (plain_token k r) = None"
  by (simp_all add: plain_token_def)

lemma token_ok_simps [simp]:
  "token_ok (plain_token k r)" "token_ok (redirect_only r)" "token_ok (redirect_token r p f)"
  "token_ok (word_token r v) \<longleftrightarrow> length v \<le> Suc (length r)"
  "traw (word_token r v) = r" "traw (redirect_token r p f) = r" "traw (redirect_only r) = r"
  by (simp_all add: token_ok_def redirect_only_def redirect_token_def word_token_def plain_token_def)

lemma length_slice_until [simp]: "length (slice_until s r) = length s - length r"
  by (simp add: slice_until_def)

lemma length_skip_until_le: "length (skip_until q s) \<le> length s"
  by (rule suffix_length_le) (rule suffix_skip_until)

section \<open>Resolved text\<close>

text \<open>Each consumer appends at most as many characters as it reads.\<close>

lemma length_from_char_code: "length (from_char_code n) \<le> 3"
  by (simp add: from_char_code_def)

lemma length_ansi_escape_text:
  "length (fst (ansi_escape nx r)) + length (snd (ansi_escape nx r)) \<le> Suc (Suc (length r))"
proof -
  have hex: "length (fst (ansi_hex k c r)) + length (snd (ansi_hex k c r)) \<le> Suc (Suc (length r))"
    if "2 \<le> k" for k c
    using that length_from_char_code [of "parse_hex (take k r)"]
    by (auto simp: ansi_hex_def Let_def)
  show ?thesis by (simp add: ansi_escape_def hex)
qed

lemma length_ansi_c_body:
  "fst (ansi_c_body out s) = Some v
   \<Longrightarrow> length v + length (snd (ansi_c_body out s)) \<le> length out + length s"
proof (induction out s rule: ansi_c_body.induct)
  case (1 out)
  then show ?case by simp
next
  case (2 out c cs)
  consider "c = CHR 0x27 \<or> c \<noteq> CHR 0x5C" | "c = CHR 0x5C" "cs = []"
    | nx r where "c = CHR 0x5C" "cs = nx # r"
    by (cases cs) auto
  then show ?case
  proof cases
    case 1
    with 2 show ?thesis by (auto split: if_splits)
  next
    case 2
    with \<open>fst (ansi_c_body out (c # cs)) = Some v\<close> show ?thesis by simp
  next
    case 3
    with 2 show ?thesis using length_ansi_escape_text [of nx r] by simp
  qed
qed

lemma length_single_quoted:
  "fst (consume_single_quoted (c # cs)) = Some v
   \<Longrightarrow> length v + length (snd (consume_single_quoted (c # cs))) \<le> length cs"
  using length_skip_until_le [of "CHR 0x27" cs]
  by (auto simp: consume_single_quoted_def Let_def split: if_splits)

lemma length_dq_step_text:
  "length (dq_literal (fst (dq_step d c cs))) + length (snd (dq_step d c cs))
   \<le> length (dq_literal d) + Suc (length cs)"
  using suffix_length_le [OF suffix_consume_dollar [of c cs]]
    suffix_length_le [OF suffix_consume_backtick [of c cs]]
  by (cases cs) (auto simp: dq_step_def Let_def)

lemma length_dq_loop:
  "fst (dq_loop d s) = Some g
   \<Longrightarrow> length (dq_literal g) + length (snd (dq_loop d s)) \<le> length (dq_literal d) + length s"
proof (induction d s rule: dq_loop.induct)
  case (1 d)
  then show ?case by simp
next
  case (2 d c cs)
  then show ?case
    using length_dq_step_text [of d c cs] by (auto split: if_splits)
qed

lemma length_double_quoted:
  "fst (consume_double_quoted (c # cs)) = Some g
   \<Longrightarrow> length (dq_literal g) + length (snd (consume_double_quoted (c # cs))) \<le> length cs"
  using length_dq_loop by (fastforce simp: consume_double_quoted_def)

lemma length_quoted_step:
  assumes "suffix (snd sr) cs"
    and "\<And>v. fst sr = Some v \<Longrightarrow>
      length (w_resolved (f v)) + length (snd sr) \<le> length (w_resolved w) + length cs"
  shows "length (w_resolved (fst (snd (quoted_step e w f sr)))) + length (snd sr)
    \<le> length (w_resolved w) + length cs"
  using assms suffix_length_le [OF assms(1)]
  by (simp add: quoted_step_def word_fail_def split: option.split)

lemma length_ansi_quoted:
  "fst (consume_ansi_c_quoted (c # cs)) = Some v
   \<Longrightarrow> length v + length (snd (consume_ansi_c_quoted (c # cs))) \<le> length cs"
  using length_ansi_c_body [of "[]" "drop 2 (c # cs)" v] by (simp add: consume_ansi_c_quoted_def)

lemma length_word_step_text:
  "length (w_resolved (fst (snd (word_step w c cs)))) + length (snd (snd (word_step w c cs)))
   \<le> length (w_resolved w) + Suc (length cs)"
proof -
  have q: "length (w_resolved (fst (snd (quoted_step e w (\<lambda>seg. word_append seg w)
              (consume_single_quoted (CHR 0x27 # cs))))))
           + length (snd (consume_single_quoted (CHR 0x27 # cs))) \<le> length (w_resolved w) + length cs"
    for e
    by (rule length_quoted_step) (simp_all add: suffix_facts word_append_def length_single_quoted)
  have d: "length (w_resolved (fst (snd (quoted_step e w (append_dq w)
              (consume_double_quoted (CHR 0x22 # cs))))))
           + length (snd (consume_double_quoted (CHR 0x22 # cs))) \<le> length (w_resolved w) + length cs"
    for e
    by (rule length_quoted_step) (simp_all add: suffix_facts append_dq_def length_double_quoted)
  have a: "length (w_resolved (fst (snd (quoted_step e w (\<lambda>seg. word_append seg w)
              (consume_ansi_c_quoted (CHR ''$'' # cs))))))
           + length (snd (consume_ansi_c_quoted (CHR ''$'' # cs)))
           \<le> length (w_resolved w) + length cs" if "cs \<noteq> []" for e
    by (rule length_quoted_step)
      (simp_all add: suffix_facts that word_append_def length_ansi_quoted)
  note le = suffix_length_le [OF suffix_consume_dollar [of c cs]]
    suffix_length_le [OF suffix_consume_backtick [of c cs]]
  show ?thesis
    using q d a le
    by (cases "c \<in> {CHR 0x27, CHR 0x22}"; cases cs)
      (auto simp: word_step_def Let_def word_append_def le_SucI)
qed

lemma length_word_loop:
  "length (w_resolved (fst (word_loop w s))) + length (snd (word_loop w s))
   \<le> length (w_resolved w) + length s"
proof (induction w s rule: word_loop.induct)
  case (1 w)
  then show ?case by simp
next
  case (2 w c cs)
  then show ?case
    using length_word_step_text [of w c cs] by (auto simp: not_le)
qed

section \<open>Token streams\<close>

text \<open>
  \<open>within s toks r\<close>: the tokens' text and the suffix left fit in the source, and the tokens'
  values are bounded.
\<close>

definition within :: "string \<Rightarrow> token list \<Rightarrow> string \<Rightarrow> bool" where
  "within s toks r \<longleftrightarrow> raw_size toks + length r \<le> length s \<and> list_all token_ok toks"

lemma within_Nil [simp]: "within s [] r \<longleftrightarrow> length r \<le> length s"
  by (simp add: within_def)

lemma within_single [simp]:
  "within s [t] r \<longleftrightarrow> length (traw t) + length r \<le> length s \<and> token_ok t"
  by (simp add: within_def)

lemma within_append: "within s ts r \<Longrightarrow> within r us q \<Longrightarrow> within s (ts @ us) q"
  by (auto simp: within_def)

lemma heredoc_lines_text:
  assumes "heredoc_lines delim dashed acc s = (ls, o')"
  shows "sum_list (map (\<lambda>l. Suc (length l)) ls)
    \<le> sum_list (map (\<lambda>l. Suc (length l)) acc)
       + (case o' of None \<Rightarrow> if s = [] then 0 else Suc (length s)
          | Some (a, b) \<Rightarrow> length s - length a)"
  using assms
proof (induction delim dashed acc s rule: heredoc_lines.induct)
  case (1 delim dashed acc)
  then show ?case by auto
next
  case (2 delim dashed acc c cs)
  define s where "s = c # cs"
  define r where "r = skip_until newline s"
  define line where "line =
    (if dashed then dropWhile (\<lambda>x. x = tab) (slice_until s r) else slice_until s r)"
  have r: "length r \<le> length s" by (simp add: r_def length_skip_until_le)
  have "s \<noteq> []" by (simp add: s_def)
  have line: "length line \<le> length s - length r"
    using length_dropWhile_le [of "\<lambda>x. x = tab" "slice_until s r"] by (simp add: line_def)
  show ?case
  proof (cases "line = delim")
    case True
    with 2 have "ls = acc" by (auto simp: Let_def line_def r_def s_def split: if_splits)
    then show ?thesis by simp
  next
    case False
    with 2 have rec: "heredoc_lines delim dashed (acc @ [line]) (tl r) = (ls, o')"
      by (auto simp: Let_def line_def r_def s_def split: if_splits)
    note IH = 2(1) [of s r "slice_until s r" line]
    show ?thesis
    proof (cases o')
      case None
      show ?thesis
        using IH rec line r False None
          \<open>s \<noteq> []\<close>
        by (cases "tl r = []"; cases r)
          (auto simp: s_def [symmetric] r_def line_def [symmetric])
    next
      case (Some ab)
      obtain a b where "ab = (a, b)" by (cases ab)
      then have "length a \<le> length (tl r)" "a \<noteq> []"
        using heredoc_lines_suffix [of delim dashed "acc @ [line]" "tl r" ls a b] rec Some
        by (auto dest: suffix_length_le)
      then show ?thesis
        using IH rec line r False Some \<open>ab = (a, b)\<close>
        by (cases r) (simp_all add: s_def [symmetric] r_def line_def [symmetric])
    qed
  qed
qed

lemma length_join_newline:
  "ls \<noteq> [] \<Longrightarrow> length (join [newline] ls) + 1 = sum_list (map (\<lambda>l. Suc (length l)) ls)"
  by (induction "[newline]" ls rule: join.induct) auto

lemma within_heredoc_body:
  assumes "consume_heredoc_body delim dashed s = (toks, errs, r)"
  shows "within s toks r"
proof -
  define body where "body = tl (skip_until newline s)"
  have body: "length body \<le> length s"
    using length_skip_until_le [of newline s] by (simp add: body_def)
  obtain ls o' where h: "heredoc_lines delim dashed [] body = (ls, o')"
    by (cases "heredoc_lines delim dashed [] body")
  have bnd: "length (heredoc_text ls x) \<le> (if ls = [] then length x
      else case o' of None \<Rightarrow> Suc (length body) | Some (a, b) \<Rightarrow> length body - length a)"
    for x :: string
    using heredoc_lines_text [OF h] length_join_newline [of ls]
    by (cases "ls = []") (auto simp: heredoc_text_def split: option.splits if_splits)
  show ?thesis
  proof (cases o')
    case None
    with assms h body bnd [of body] show ?thesis
      by (auto simp: consume_heredoc_body_def body_def [symmetric] split: if_splits)
  next
    case (Some ab)
    obtain a b where ab: "ab = (a, b)" by (cases ab)
    then have "length a \<le> length body" "length b < length a"
      using heredoc_lines_suffix [of delim dashed "[]" body ls a b] h Some
      by (auto dest!: suffix_length_le simp: less_eq_Suc_le) (cases a; simp)+
    with assms h body bnd [of "[]"] Some ab show ?thesis
      by (auto simp: consume_heredoc_body_def body_def [symmetric] within_def split: if_splits)
  qed
qed

lemma within_bare_delimiter:
  assumes "suffix t s"
  shows "length (fst (bare_delimiter_loop acc t)) + length (snd (bare_delimiter_loop acc t))
    \<le> length acc + length t"
proof (induction acc t rule: bare_delimiter_loop.induct)
  case (1 acc)
  then show ?case by simp
next
  case (2 acc c cs)
  then show ?case
    using length_skip_until_le [of c cs] by auto
qed

lemma within_consume_redirect:
  assumes "consume_redirect s = (toks, errs, r)" and "starts_redirect s"
  shows "within s toks r"
proof -
  define r0 where "r0 = dropWhile is_digit s"
  define q where "q = snd (redirect_operator r0)"
  define opn where "opn = fst (redirect_operator r0)"
  define q' where "q' = dropWhile (\<lambda>c. c = CHR '' '' \<or> c = tab) q"
  define tok where "tok = redirect_token (slice_until s q) opn (takeWhile is_digit s)"
  have "r0 \<noteq> []" "hd r0 = CHR ''<'' \<or> hd r0 = CHR ''>''"
    using assms(2) by (auto simp: starts_redirect_def r0_def Let_def)
  then have q: "length q \<le> length s" "length q' \<le> length q"
    using suffix_length_le [OF suffix_redirect_operator [of r0]]
      length_dropWhile_le [of is_digit s] length_dropWhile_le [of _ q]
    by (auto simp: q_def q'_def r0_def)
  have t: "within s [tok] q" using q by (simp add: tok_def)
  show ?thesis
  proof (cases "is_heredoc_op opn")
    case False
    with assms(1) t show ?thesis
      by (auto simp: consume_redirect_def Let_def r0_def opn_def q_def tok_def)
  next
    case True
    show ?thesis
    proof (cases "fst (consume_bare_delimiter q')")
      case None
      with True assms(1) t q show ?thesis
        by (auto simp: consume_redirect_def Let_def r0_def opn_def q_def q'_def tok_def
            consume_bare_delimiter_def split: if_splits)
    next
      case (Some dd)
      obtain draw dres where dd: "dd = (draw, dres)" by (cases dd)
      define e where "e = snd (consume_bare_delimiter q')"
      have d: "within q' [word_token draw dres] e"
        using Some dd within_bare_delimiter [OF suffix_order.refl, of "[]" q']
          suffix_length_le [OF suffix_bare_delimiter_loop [of "[]" q']]
        by (auto simp: consume_bare_delimiter_def Let_def e_def split: if_splits)
      obtain bt be br where b: "consume_heredoc_body dres (opn = ''<<-'') e = (bt, be, br)"
        by (cases "consume_heredoc_body dres (opn = ''<<-'') e")
      have bd: "consume_bare_delimiter q' = (Some (draw, dres), e)"
        by (metis Some dd e_def prod.collapse)
      have "toks = [tok] @ [word_token draw dres] @ bt \<and> r = br"
        using assms(1) True b bd
        by (auto simp: consume_redirect_def Let_def r0_def opn_def q_def q'_def tok_def)
      moreover have "within q ([word_token draw dres] @ bt) br"
        using within_append [OF d within_heredoc_body [OF b]] q(2) by (simp add: within_def)
      ultimately show ?thesis using within_append [OF t] by blast
    qed
  qed
qed

text \<open>The lexer's state fits in the source.\<close>

definition lexer_ok :: "nat \<Rightarrow> lexer \<Rightarrow> bool" where
  "lexer_ok k lx \<longleftrightarrow> raw_size (ltokens lx) + length (lrest lx) \<le> k \<and> list_all token_ok (ltokens lx)"

lemma lexer_ok_push:
  "lexer_ok k lx \<Longrightarrow> within (lrest lx) toks r \<Longrightarrow> lexer_ok k (push toks errs r lx)"
  by (simp add: lexer_ok_def within_def push_def)

lemma lexer_ok_consume_word:
  assumes "lexer_ok k lx"
  shows "lexer_ok k (consume_word lx)"
proof -
  define s where "s = lrest lx"
  define w where "w = fst (word_loop word_acc0 s)"
  define r where "r = snd (word_loop word_acc0 s)"
  have r: "suffix r s" by (simp add: r_def suffix_word_loop)
  then have le: "length r \<le> length s" by (rule suffix_length_le)
  have w: "length (w_resolved w) \<le> length s - length r"
    using length_word_loop [of word_acc0 s] by (simp add: w_def r_def word_acc0_def)
  have "lexer_ok k (push [t] e r lx)"
    if "traw t = slice_until s r" "tresolved t = Some (w_resolved w) \<or> tresolved t = None" for t e
    by (rule lexer_ok_push [OF assms])
      (use that w le in \<open>auto simp: token_ok_def s_def [symmetric]\<close>)
  moreover have "lexer_ok k (push [] e r lx)" for e
    by (rule lexer_ok_push [OF assms]) (simp add: le s_def [symmetric])
  ultimately show ?thesis
    by (simp add: consume_word_def Let_def s_def [symmetric] w_def [symmetric] r_def [symmetric]
        plain_token_def)
qed

lemma lexer_ok_if:
  "(b \<Longrightarrow> lexer_ok k x) \<Longrightarrow> (\<not> b \<Longrightarrow> lexer_ok k y) \<Longrightarrow> lexer_ok k (if b then x else y)"
  by simp

lemma starts_with_length: "starts_with s p \<Longrightarrow> length p \<le> length s"
  by (auto simp: starts_with_iff)

lemma lexer_ok_lex_char:
  assumes "lexer_ok k lx" and s: "lrest lx = c # cs"
  shows "lexer_ok k (lex_char lx c cs)"
proof -
  note p = lexer_ok_push [OF assms(1)]
  have redirect: "lexer_ok k (case consume_redirect (c # cs) of
      (toks, errs, r) \<Rightarrow> push toks errs r lx)" if "starts_redirect (c # cs)"
    using p within_consume_redirect [of "c # cs"] that by (auto simp: s split: prod.split)
  show ?thesis
    unfolding lex_char_def
    by (intro lexer_ok_if redirect lexer_ok_consume_word assms(1) p;
        (elim conjE)?; (drule starts_with_length)?; (drule starts_with_length)?;
        simp (no_asm_use) add: s length_skip_until_le le_SucI)
qed

lemma lexer_ok_run: "lexer_ok k lx \<Longrightarrow> lexer_ok k (lex_run lx)"
proof (induction lx rule: lex_run.induct)
  case (1 lx)
  then show ?case
    using lexer_ok_lex_char
    by (cases "lrest lx") (simp_all add: lex_run.simps [of lx] lex_step_def)
qed

lemma tokenize_bounds:
  assumes "tokenize s = (toks, errs)"
  shows "raw_size toks \<le> length s" "list_all token_ok toks"
  using assms lexer_ok_run [of "length s" "\<lparr>lrest = s, ltokens = [], lerrors = []\<rparr>"]
  by (auto simp: tokenize_def Let_def lexer_ok_def)

section \<open>What the parser leaves\<close>

lemma suffix_parse_redirect: "suffix (snd (parse_redirect t ts)) ts"
  by (auto simp: parse_redirect_def Let_def split: list.split)

lemma suffix_parse_heredoc: "suffix (snd (parse_heredoc t ts)) ts"
  by (auto simp: parse_heredoc_def Let_def split: list.split)

lemma suffix_skip_rparen: "suffix (skip_rparen ts) ts"
  by (auto simp: skip_rparen_def split: list.split)

lemma suffix_subshell_redirects: "suffix (snd (subshell_redirects ts)) ts"
proof (induction ts rule: subshell_redirects.induct)
  case 1
  then show ?case by simp
next
  case (2 t ts)
  then show ?case
    using suffix_order.trans [OF _ suffix_parse_redirect] by (auto simp: Let_def)
qed

lemmas suffix_chain = suffix_order.trans [OF _ suffix_parse_redirect]
  suffix_order.trans [OF _ suffix_parse_heredoc] suffix_order.trans [OF suffix_skip_rparen]
  suffix_order.trans [OF suffix_subshell_redirects]

lemma suffix_Cons2: "suffix r ts \<Longrightarrow> suffix ts us \<Longrightarrow> suffix r (u # us)"
  by (meson suffix_ConsI suffix_order.trans)

lemma suffix_parser:
  "seq_loop p n segs q ts = Inr (x1, r) \<Longrightarrow> suffix r ts"
  "parse_pipeline p n ts = Inr (x2, r) \<Longrightarrow> suffix r ts"
  "pipe_loop p n st ts = Inr (x3, r) \<Longrightarrow> suffix r ts"
  "parse_simple p n ts = Inr (x4, r) \<Longrightarrow> suffix r ts"
  "simple_loop p n a ts = Inr (x5, r) \<Longrightarrow> suffix r ts"
proof (induction p n segs q ts and p n ts and p n st ts and p n ts and p n a ts
    arbitrary: x1 r and x2 r and x3 r and x4 r and x5 r
    rule: seq_loop_parse_pipeline_pipe_loop_parse_simple_simple_loop.induct)
  case (2 p n segs q toks)
  show ?case
  proof (cases toks)
    case Nil
    with 2(4) show ?thesis by simp
  next
    case (Cons t ts)
    consider "tkind t = RParen" | "tkind t \<noteq> RParen" "tkind t = Comment \<or> is_separator (tkind t)"
      | "tkind t \<noteq> RParen" "\<not> (tkind t = Comment \<or> is_separator (tkind t))" by blast
    then show ?thesis
    proof cases
      case 1
      with 2(4) Cons show ?thesis by simp
    next
      case 2
      with \<open>seq_loop p (Suc n) segs q toks = _\<close> Cons 2 "2.IH"(1) [OF Cons] show ?thesis
        by (simp add: suffix_ConsI)
    next
      case 3
      obtain nd u where nr: "parse_pipeline p n (t # ts) = Inr (nd, u)"
        using 2(4) Cons 3 by (auto simp: bind_result_eq_Inr)
      have u: "suffix u (t # ts)" using 2(2) [OF Cons 3] nr by blast
      show ?thesis
      proof (cases u)
        case Nil
        with 2(4) Cons 3 nr show ?thesis by simp
      next
        case (Cons s r')
        show ?thesis
        proof (cases "is_separator (tkind s)")
          case True
          have "suffix r r'"
            using 2(3) [OF \<open>toks = t # ts\<close> 3, of "(nd, u)" s r'] 2(4) \<open>toks = t # ts\<close> 3 nr Cons True
            by simp
          then show ?thesis
            using u Cons \<open>toks = t # ts\<close> by (meson suffix_ConsI suffix_order.trans)
        next
          case False
          with 2(4) \<open>toks = t # ts\<close> 3 nr Cons u show ?thesis by simp
        qed
      qed
    qed
  qed
next
  case (4 p n ts)
  from 4(3) obtain nd u where s: "parse_simple p n ts = Inr (nd, u)"
    by (auto simp: bind_result_eq_Inr)
  with 4(3) obtain g where "pipe_loop p n [nd] u = Inr (g, r)"
    by (auto simp: bind_result_eq_Inr)
  then show ?case
    using 4(1) [OF s] 4(2) [of "(nd, u)"] s by (auto intro: suffix_order.trans)
next
  case (6 p n st toks)
  show ?case
  proof (cases toks)
    case Nil
    with 6(3) show ?thesis by simp
  next
    case (Cons t ts)
    show ?thesis
    proof (cases "tkind t = Pipe")
      case True
      with Cons 6(3) obtain nd u where s: "parse_simple p n ts = Inr (nd, u)"
        and "pipe_loop p n (st @ [nd]) u = Inr (x3, r)"
        by (auto simp: bind_result_eq_Inr)
      then show ?thesis
        using 6(1) [OF Cons True s] 6(2) [OF Cons True, of "(nd, u)"] Cons
        by (auto intro: suffix_Cons2)
    next
      case False
      with Cons 6(3) show ?thesis by simp
    qed
  qed
next
  case (8 p n ts)
  show ?case
  proof (cases "ts \<noteq> [] \<and> tkind (hd ts) = LParen")
    case True
    with 8(3) obtain g u where s: "seq_loop p n [] None (tl ts) = Inr (g, u)"
      and r: "r = snd (subshell_redirects (skip_rparen u))"
      by (auto simp: bind_result_eq_Inr Let_def)
    have "suffix u (tl ts)" using 8(1) [OF True s] .
    then show ?thesis
      unfolding r
      by (meson suffix_order.trans suffix_skip_rparen suffix_subshell_redirects suffix_tl)
  next
    case False
    with 8(3) obtain a where s: "simple_loop p n simple_acc0 ts = Inr (a, r)"
      by (auto simp: bind_result_eq_Inr simp del: simple_loop.simps)
    show ?thesis using 8(2) [OF False s] .
  qed
next
  case (10 p n a toks)
  show ?case
  proof (cases toks)
    case Nil
    with 10(9) show ?thesis by simp
  next
    case (Cons t ts)
    consider "ends_simple (tkind t)" | "\<not> ends_simple (tkind t)" "tkind t = Comment"
      | "\<not> ends_simple (tkind t)" "tkind t = Assignment" "sa_argv a = []"
      | "\<not> ends_simple (tkind t)" "tkind t = RedirectT"
      | "\<not> ends_simple (tkind t)" "tkind t = HeredocMarker"
      | "\<not> ends_simple (tkind t)" "tkind t = ProcessSubIn \<or> tkind t = ProcessSubOut"
      | "\<not> ends_simple (tkind t)" "tkind t = Word \<or> tkind t = Assignment \<and> sa_argv a \<noteq> []"
      | "\<not> ends_simple (tkind t)" "tkind t \<in> {LParen}"
      by (cases "tkind t") (auto simp: ends_simple_def)
    then show ?thesis
    proof cases
      case 1
      with 10(9) Cons show ?thesis by simp
    next
      case 2
      with 10(9) Cons show ?thesis by (simp add: 10(1) [OF Cons])
    next
      case 3
      with 10(9) Cons show ?thesis using 10(2) [OF Cons] by simp
    next
      case 4
      with 10(9) Cons show ?thesis
        using 10(3) [OF Cons] suffix_order.trans [OF _ suffix_parse_redirect [of t ts]] by simp
    next
      case 5
      with 10(9) Cons show ?thesis
        using 10(4) [OF Cons] suffix_order.trans [OF _ suffix_parse_heredoc [of t ts]] by simp
    next
      case 6
      with 10(9) Cons obtain g u where s: "seq_loop p n [] None ts = Inr (g, u)"
        by (auto simp: bind_result_eq_Inr)
      have u: "suffix u ts" using 10(5) [OF Cons] 6 s by auto
      have "suffix r (skip_rparen u)"
        using 10(6) [OF Cons] 10(9) 6 s Cons by auto
      then show ?thesis
        using u Cons suffix_skip_rparen by (metis suffix_Cons2 suffix_order.trans)
    next
      case 7
      with 10(9) Cons show ?thesis using 10(7) [OF Cons] by auto
    next
      case 8
      with 10(9) Cons show ?thesis using 10(8) [OF Cons] by auto
    qed
  qed
qed simp_all

section \<open>The words of a command\<close>

text \<open>The words collected for a command come from the tokens read for it.\<close>

definition words_ok :: "nat \<Rightarrow> simple_acc \<Rightarrow> token list \<Rightarrow> bool" where
  "words_ok k a ts \<longleftrightarrow> raw_size (sa_argv a) + raw_size ts \<le> k \<and> list_all token_ok (sa_argv a)
     \<and> list_all token_ok ts"

lemma words_ok_suffix: "words_ok k a (t # ts) \<Longrightarrow> suffix r ts \<Longrightarrow> words_ok k a r"
  by (auto simp: words_ok_def suffix_def)

lemma sa_argv_ops [simp]:
  "sa_argv (add_assignment t a) = sa_argv a" "sa_argv (add_redirect rd a) = sa_argv a"
  "sa_argv (add_heredoc ro a) = sa_argv a" "sa_argv (add_sub nd a) = sa_argv a"
  "sa_argv (add_unexpected t a) = sa_argv a" "sa_argv (add_word t a) = sa_argv a @ [t]"
  "sa_argv simple_acc0 = []"
  by (simp_all add: add_assignment_def add_redirect_def add_heredoc_def add_sub_def
      add_unexpected_def add_word_def simple_acc0_def split: option.split)

lemma words_ok_ops [simp]:
  "words_ok k (add_assignment t a) r = words_ok k a r"
  "words_ok k (add_redirect rd a) r = words_ok k a r"
  "words_ok k (add_heredoc ro a) r = words_ok k a r" "words_ok k (add_sub nd a) r = words_ok k a r"
  "words_ok k (add_unexpected t a) r = words_ok k a r"
  by (simp_all add: words_ok_def)

lemma words_ok_add_word: "words_ok k a (t # ts) \<Longrightarrow> words_ok k (add_word t a) ts"
  by (simp add: words_ok_def)

lemma words_ok_simple_loop:
  "simple_loop p n a ts = Inr (a', r) \<Longrightarrow> words_ok k a ts \<Longrightarrow> words_ok k a' r"
proof (induction n arbitrary: a ts)
  case 0
  then show ?case by simp
next
  case (Suc n)
  show ?case
  proof (cases ts)
    case Nil
    with Suc.prems show ?thesis by simp
  next
    case (Cons t us)
    with Suc.prems have w: "words_ok k a (t # us)" by simp
    have sub: "words_ok k a (skip_rparen u)" if "seq_loop p n [] None us = Inr (x, u)" for x u
      using that suffix_parser(1) suffix_skip_rparen suffix_order.trans
      by (blast intro: words_ok_suffix [OF w])
    note step = words_ok_suffix [OF w suffix_parse_redirect]
      words_ok_suffix [OF w suffix_parse_heredoc] words_ok_suffix [OF w suffix_order.refl]
    show ?thesis
      using Suc.prems(1) Cons w words_ok_add_word [OF w]
      by (auto simp: bind_result_eq_Inr step sub split: if_splits intro!: Suc.IH)
  qed
qed

section \<open>Inline bodies\<close>

lemma unwrap_loop_suffix: "unwrap_loop n u e a = (u', e', a') \<Longrightarrow> suffix a' a"
proof -
  have timeout: "suffix (skip_timeout_args as) as" for as
    by (induction as) auto
  have stdbuf: "suffix (skip_stdbuf_args as) as" for as
    by (induction as rule: skip_stdbuf_args.induct) (auto intro: suffix_ConsI [OF suffix_tl_trans])
  have envs: "suffix (snd (skip_env_args e as)) as" for e as
    by (induction e as rule: skip_env_args.induct) (auto simp: Let_def)
  have nice: "suffix (skip_nice_args as) as" for as
    by (simp add: skip_nice_args_def suffix_drop)
  show "unwrap_loop n u e a = (u', e', a') \<Longrightarrow> suffix a' a"
  proof (induction n u e a rule: unwrap_loop.induct)
    case (3 n u e h as)
    note trans = suffix_order.trans [OF _ timeout] suffix_order.trans [OF _ stdbuf]
      suffix_order.trans [OF _ envs] suffix_order.trans [OF _ nice]
    from 3 show ?case
      by (auto split: if_splits intro!: suffix_ConsI intro: trans simp del: suffix_Cons_simp)
  qed auto
qed

lemma argv_unwrap:
  assumes "argv (unwrapCompoundPrefixes nd) = Some a'"
  obtains a where "argv nd = Some a" "suffix a' a"
proof (cases "argv nd")
  case None
  with assms that show ?thesis by (simp add: unwrapCompoundPrefixes_def)
next
  case (Some a)
  obtain u e b where u: "unwrap_loop 8 False (env nd) a = (u, e, b)"
    by (cases "unwrap_loop 8 False (env nd) a")
  show ?thesis
    using assms that Some u unwrap_loop_suffix [OF u]
    by (auto simp: unwrapCompoundPrefixes_def split: if_splits)
qed

lemma dash_c_body_parts:
  "dash_c_body as = Some v \<Longrightarrow> \<exists>pre f post. as = pre @ f # v # post \<and> 2 \<le> length f"
proof (induction as rule: dash_c_body.induct)
  case (1 f b as)
  show ?case
  proof (cases "f = ''-c'' \<or> f = ''--command''")
    case True
    with 1 show ?thesis by (auto intro: exI [of _ "[]"])
  next
    case False
    with 1 obtain pre g post where "b # as = pre @ g # v # post" "2 \<le> length g"
      by auto
    then show ?thesis by (intro exI [of _ "f # pre"]) auto
  qed
qed simp_all

lemma interpreter_length: "s \<in> set INTERPRETER_NAMES \<Longrightarrow> 2 \<le> length s"
  by (auto simp: INTERPRETER_NAMES_def)

lemma length_last_segment: "length (last_segment s) \<le> length s"
  by (simp add: last_segment_def) (metis length_rev length_takeWhile_le)

lemma length_base_or_self: "length (base_or_self (to_lower s)) \<le> length s"
  using length_last_segment [of "to_lower s"] by (simp add: base_or_self_def to_lower_def)

text \<open>The static values of tokens, summed: each at most one above its token's text.\<close>

definition value_size :: "string list \<Rightarrow> nat" where
  "value_size vs = sum_list (map (\<lambda>v. length v - 1) vs)"

lemma value_size_simps [simp]:
  "value_size [] = 0" "value_size (v # vs) = (length v - 1) + value_size vs"
  "value_size (vs @ us) = value_size vs + value_size us"
  by (simp_all add: value_size_def)

lemma value_size_static:
  "list_all token_ok toks \<Longrightarrow> list_all (\<lambda>t. static_value t \<noteq> None) toks
   \<Longrightarrow> value_size (map (the \<circ> static_value) toks) \<le> raw_size toks"
  by (induction toks) (auto simp: token_ok_def static_value_def split: if_splits)

lemma body_length:
  assumes "argv (unwrapCompoundPrefixes (simple_node a raw)) = Some as" and "as \<noteq> []"
    and "base_or_self (to_lower (hd as)) \<in> set INTERPRETER_NAMES"
    and "dash_c_body (tl as) = Some b" and "list_all token_ok (sa_argv a)"
  shows "length b < raw_size (sa_argv a)"
proof -
  obtain vs where vs: "argv (simple_node a raw) = Some vs" "suffix as vs"
    using argv_unwrap [OF assms(1)] .
  then have "value_size as \<le> value_size vs" by (auto simp: suffix_def)
  also have "\<dots> \<le> raw_size (sa_argv a)"
    using vs(1) value_size_static [OF assms(5)] by (auto simp: simple_node_def split: if_splits)
  finally have "value_size as \<le> raw_size (sa_argv a)" .
  moreover obtain pre f post where "tl as = pre @ f # b # post" "2 \<le> length f"
    using dash_c_body_parts [OF assms(4)] by blast
  moreover have "2 \<le> length (hd as)"
    using interpreter_length [OF assms(3)] length_base_or_self [of "hd as"] by linarith
  ultimately show ?thesis
    using assms(2) by (cases as) auto
qed

section \<open>The fuel suffices\<close>

text \<open>A value, or the one exception of the indicator scan; in particular never \<open>RangeError\<close>.\<close>

definition in_depth :: "'a result \<Rightarrow> bool" where
  "in_depth m \<longleftrightarrow> (\<forall>e. m = Inl e \<longrightarrow> e = TypeError ''flagsForHead.has is not a function'')"

lemma in_depth_Inr [simp]: "in_depth (Inr x)"
  by (simp add: in_depth_def)

lemma in_depth_bind:
  "in_depth m \<Longrightarrow> (\<And>x. m = Inr x \<Longrightarrow> in_depth (f x)) \<Longrightarrow> in_depth (bind_result m f)"
  by (cases m) (auto simp: in_depth_def)

lemma in_depth_indicatorsForLeaf: "in_depth (indicatorsForLeaf cmd)"
  by (simp add: in_depth_def indicatorsForLeaf_throws_iff)

lemma in_depth_finish_simple:
  assumes p: "\<And>b. length b < k \<Longrightarrow> in_depth (p b)" and a: "words_ok k a ts"
  shows "in_depth (finish_simple p a raw)"
proof -
  define nd where "nd = unwrapCompoundPrefixes (simple_node a raw)"
  have "in_depth (p b)"
    if "argv nd = Some as" "\<not> length as < 3" "base_or_self (to_lower (hd as)) \<in> set INTERPRETER_NAMES"
      "dash_c_body (tl as) = Some b" for as b
    using body_length [of a raw as b] that p a by (cases as) (auto simp: nd_def words_ok_def)
  then have "in_depth (maybeUnwrapInlineDashC p nd)"
    by (auto simp: maybeUnwrapInlineDashC_def intro!: in_depth_bind split: option.split)
  then show ?thesis
    unfolding finish_simple_def nd_def [symmetric]
    by (intro in_depth_bind in_depth_indicatorsForLeaf) auto
qed

definition tokens_ok :: "nat \<Rightarrow> token list \<Rightarrow> bool" where
  "tokens_ok k ts \<longleftrightarrow> raw_size ts \<le> k \<and> list_all token_ok ts"

lemma tokens_ok_suffix: "tokens_ok k ts \<Longrightarrow> suffix r ts \<Longrightarrow> tokens_ok k r"
  by (auto simp: tokens_ok_def suffix_def)

lemma tokens_ok_Cons: "tokens_ok k (t # ts) \<Longrightarrow> tokens_ok k ts"
  by (simp add: tokens_ok_def)

lemma words_ok_start: "words_ok k simple_acc0 ts \<longleftrightarrow> tokens_ok k ts"
  by (auto simp: words_ok_def tokens_ok_def)

text \<open>Tokens with enough fuel for a function that starts with \<open>c\<close> more than four per token.\<close>

definition room :: "nat \<Rightarrow> nat \<Rightarrow> nat \<Rightarrow> token list \<Rightarrow> bool" where
  "room k n c ts \<longleftrightarrow> tokens_ok k ts \<and> 4 * length ts + c \<le> n"

lemma room_tail: "room k (Suc n) c (t # ts) \<Longrightarrow> suffix r ts \<Longrightarrow> c' \<le> c + 3 \<Longrightarrow> room k n c' r"
  using suffix_length_le [of r ts] tokens_ok_suffix [of k ts r]
  by (auto simp: room_def dest: tokens_ok_Cons)

lemma room_same: "room k (Suc n) c ts \<Longrightarrow> suffix r ts \<Longrightarrow> c' < c \<Longrightarrow> room k n c' r"
  using suffix_length_le [of r ts] tokens_ok_suffix [of k ts r] by (auto simp: room_def)

lemma fuel_suffices:
  assumes p: "\<And>b. length b < k \<Longrightarrow> in_depth (p b)"
  shows "room k n 4 ts \<Longrightarrow> in_depth (seq_loop p n segs q ts)"
    and "room k n 3 ts \<Longrightarrow> in_depth (parse_pipeline p n ts)"
    and "room k n 1 ts \<Longrightarrow> in_depth (pipe_loop p n st ts)"
    and "room k n 2 ts \<Longrightarrow> in_depth (parse_simple p n ts)"
    and "room k n 1 ts \<Longrightarrow> words_ok k a ts \<Longrightarrow> in_depth (simple_loop p n a ts)"
proof (induction n arbitrary: ts segs q st a)
  case 0
  {
    case 1 then show ?case by (simp add: room_def)
  next
    case 2 then show ?case by (simp add: room_def)
  next
    case 3 then show ?case by (simp add: room_def)
  next
    case 4 then show ?case by (simp add: room_def)
  next
    case 5 then show ?case by (simp add: room_def)
  }
next
  case (Suc n)
  {
    case (1 toks segs q)
    show ?case
    proof (cases toks)
      case (Cons t ts)
      note room = 1 [unfolded Cons]
      have "in_depth (seq_loop p n segs' q' r)"
        if "parse_pipeline p n (t # ts) = Inr (nd, s # r)" for segs' q' nd s r
        using Suc.IH(1) [OF room_tail [OF room]] suffix_parser(2) [OF that]
        by (metis le_add1 suffix_ConsD2 suffix_Cons)
      then show ?thesis
        using Suc.IH(1) [OF room_tail [OF room suffix_order.refl]]
          Suc.IH(2) [OF room_same [OF room suffix_order.refl]] Cons
        by (auto intro!: in_depth_bind split: list.split)
    qed simp
  next
    case (2 ts)
    have "in_depth (pipe_loop p n st u)" if "parse_simple p n ts = Inr (nd, u)" for st nd u
      using Suc.IH(3) [OF room_same [OF 2 suffix_parser(4) [OF that]]] by simp
    then show ?case
      using Suc.IH(4) [OF room_same [OF 2 suffix_order.refl]] by (auto intro!: in_depth_bind)
  next
    case (3 toks st)
    show ?case
    proof (cases toks)
      case (Cons t ts)
      note room = 3 [unfolded Cons]
      have "in_depth (pipe_loop p n st u)" if "parse_simple p n ts = Inr (nd, u)" for st nd u
        using Suc.IH(3) [OF room_tail [OF room suffix_parser(4) [OF that]]] by simp
      then show ?thesis
        using Suc.IH(4) [OF room_tail [OF room suffix_order.refl]] Cons
        by (auto intro!: in_depth_bind)
    qed simp
  next
    case (4 ts)
    have sub: "in_depth (seq_loop p n [] None (tl ts))" if "ts \<noteq> []"
      using that Suc.IH(1) [OF room_tail [of k n 2 "hd ts" "tl ts" "tl ts"]] 4 by simp
    have w: "words_ok k simple_acc0 ts" using 4 by (simp add: words_ok_start room_def)
    have "in_depth (finish_simple p a' raw)" if "simple_loop p n simple_acc0 ts = Inr (a', r)"
      for a' r raw
      by (rule in_depth_finish_simple [OF _ words_ok_simple_loop [OF that w]]) (rule p)
    then show ?case
      using sub Suc.IH(5) [OF room_same [OF 4 suffix_order.refl] w]
      by (auto intro!: in_depth_bind simp: Let_def)
  next
    case (5 toks a)
    show ?case
    proof (cases toks)
      case (Cons t ts)
      note room = 5(1) [unfolded Cons] and w = 5(2) [unfolded Cons]
      have go: "in_depth (simple_loop p n a' r)" if "suffix r ts" "words_ok k a' r" for a' r
        using Suc.IH(5) [OF room_tail [OF room that(1)] that(2)] by simp
      have skip: "in_depth (simple_loop p n a r)" if "suffix r ts" for r
        using go [OF that words_ok_suffix [OF w that]] .
      have sub: "suffix (skip_rparen u) ts" "words_ok k a (skip_rparen u)"
        if "seq_loop p n [] None ts = Inr (g, u)" for g u
        using suffix_order.trans [OF suffix_skip_rparen suffix_parser(1) [OF that]]
          words_ok_suffix [OF w] by blast+
      have "in_depth (seq_loop p n [] None ts)"
        using Suc.IH(1) [OF room_tail [OF room suffix_order.refl]] by simp
      moreover note skip [OF suffix_order.refl] words_ok_add_word [OF w]
        words_ok_suffix [OF w suffix_order.refl] words_ok_suffix [OF w suffix_parse_redirect]
        words_ok_suffix [OF w suffix_parse_heredoc]
      ultimately show ?thesis
        unfolding Cons
        by (auto intro!: in_depth_bind go suffix_parse_redirect suffix_parse_heredoc simp: sub)
    qed simp
  }
qed

lemma in_depth_parse_shell: "length s < n \<Longrightarrow> in_depth (parse_shell n s)"
proof (induction n arbitrary: s)
  case 0
  then show ?case by simp
next
  case (Suc n)
  obtain toks errs where t: "tokenize s = (toks, errs)" by (cases "tokenize s")
  have "tokens_ok (length s) toks" using tokenize_bounds [OF t] by (simp add: tokens_ok_def)
  then have "in_depth (parseSequence (\<lambda>body. parse_shell n body) s toks)"
    unfolding parseSequence_def
    by (intro in_depth_bind fuel_suffices [of "length s"] Suc.IH)
      (use Suc.prems in \<open>auto simp: room_def\<close>)
  then show ?case by (auto simp: t Let_def intro!: in_depth_bind)
qed

end
