(* ===== verification/ShellTree.thy ===== *)
theory ShellTree
  imports ShellBounds
begin

text \<open>
  Properties of every node the recognizer builds. The locale \<open>node_contract\<close> is the interface of
  the parser's node constructors: a property of nodes that each of them establishes (from the
  same property of the nodes it is given) holds of every node of every tree that
  \<open>parseShellCommand\<close> returns. It is interpreted for the bubbling of sink indicators to the root
  and for the order of the confidences.
\<close>

text \<open>The node of a subshell.\<close>

definition subshell_node :: "parsed_command \<Rightarrow> redirect list \<Rightarrow> string \<Rightarrow> parsed_command" where
  "subshell_node inner rs raw =
    ParsedCommand None [] rs [inner] (Some OpSubshell) raw (confidence inner)
      (sink_indicators inner) None None"

abbreviation is_substitution :: "parsed_command \<Rightarrow> bool" where
  "is_substitution n \<equiv> pop n = Some OpProcessSubIn \<or> pop n = Some OpProcessSubOut"

section \<open>Contract\<close>

locale node_contract =
  fixes ok :: "parsed_command \<Rightarrow> bool"
  assumes set_op: "ok n \<Longrightarrow> ok (set_op q n)"
    and failure: "ok n \<Longrightarrow> ok (set_failure Unknown e n)"
    and unknown: "ok (makeUnknown raw e)"
    and pipe: "list_all ok stages \<Longrightarrow> ok (pipe_node stages raw)"
    and sequence: "list_all ok (map fst segs) \<Longrightarrow> ok (sequence_node segs raw)"
    and subshell: "ok inner \<Longrightarrow> ok (subshell_node inner rs raw)"
    and simple: "(\<And>b n. parse b = Inr n \<Longrightarrow> ok n) \<Longrightarrow> list_all ok (sa_subs a)
      \<Longrightarrow> list_all is_substitution (sa_subs a) \<Longrightarrow> finish_simple parse a raw = Inr n \<Longrightarrow> ok n"
begin

definition acc_ok :: "simple_acc \<Rightarrow> bool" where
  "acc_ok a \<longleftrightarrow> list_all ok (sa_subs a) \<and> list_all is_substitution (sa_subs a)"

lemma acc_ok_ops [simp]:
  "acc_ok simple_acc0" "acc_ok (add_assignment t a) = acc_ok a"
  "acc_ok (add_redirect rd a) = acc_ok a" "acc_ok (add_heredoc ro a) = acc_ok a"
  "acc_ok (add_unexpected t a) = acc_ok a" "acc_ok (add_word t a) = acc_ok a"
  "acc_ok (add_sub n a) \<longleftrightarrow> acc_ok a \<and> ok n \<and> is_substitution n"
  by (auto simp: acc_ok_def simple_acc0_def add_assignment_def add_redirect_def add_heredoc_def
      add_unexpected_def add_word_def add_sub_def split: option.split)

lemma parser_ok:
  assumes p: "\<And>b n. p b = Inr n \<Longrightarrow> ok n"
  shows "list_all ok (map fst segs) \<Longrightarrow> seq_loop p n segs q ts = Inr (segs', r)
      \<Longrightarrow> list_all ok (map fst segs')"
    and "parse_pipeline p n ts = Inr (nd, r) \<Longrightarrow> ok nd"
    and "list_all ok st \<Longrightarrow> pipe_loop p n st ts = Inr (st', r) \<Longrightarrow> list_all ok st'"
    and "parse_simple p n ts = Inr (nd, r) \<Longrightarrow> ok nd"
    and "acc_ok a \<Longrightarrow> simple_loop p n a ts = Inr (a', r) \<Longrightarrow> acc_ok a'"
proof (induction n arbitrary: ts segs segs' q st st' a a' nd r)
  case 0
  {
    case 1 then show ?case by simp
  next
    case 2 then show ?case by simp
  next
    case 3 then show ?case by simp
  next
    case 4 then show ?case by simp
  next
    case 5 then show ?case by simp
  }
next
  case (Suc n)
  {
    case (1 toks segs segs' q r)
    show ?case
    proof (cases toks)
      case (Cons t ts)
      show ?thesis
      proof (cases "tkind t = RParen \<or> tkind t = Comment \<or> is_separator (tkind t)")
        case True
        with 1 Cons show ?thesis by (auto split: if_splits intro: Suc.IH(1))
      next
        case False
        with 1 Cons obtain nd u where nd: "parse_pipeline p n (t # ts) = Inr (nd, u)"
          by (auto simp: bind_result_eq_Inr)
        have "list_all ok (map fst (segs @ [(nd, q)]))"
          using 1(1) Suc.IH(2) [OF nd] by simp
        with False 1 Cons nd show ?thesis
          by (cases u) (auto split: if_splits intro: Suc.IH(1) simp del: map_append)
      qed
    next
      case Nil
      with 1 show ?thesis by simp
    qed
  next
    case (2 ts nd r)
    then obtain s u g where s: "parse_simple p n ts = Inr (s, u)"
      and g: "pipe_loop p n [s] u = Inr (g, r)"
      and nd: "nd = (if length g = 1 then hd g else pipe_node g (rawFromTokens (slice_until ts r)))"
      by (auto simp: bind_result_eq_Inr)
    have "list_all ok g" using Suc.IH(3) [OF _ g] Suc.IH(4) [OF s] by simp
    then show ?case using pipe unfolding nd by (cases g) auto
  next
    case (3 toks st st' r)
    show ?case
    proof (cases toks)
      case (Cons t ts)
      have "list_all ok (st @ [nd])" if "parse_simple p n ts = Inr (nd, u)" for nd u
        using 3(1) Suc.IH(4) [OF that] by simp
      then show ?thesis
        using 3 Cons by (auto simp: bind_result_eq_Inr split: if_splits intro: Suc.IH(3)
            simp del: list_all_append)
    next
      case Nil
      with 3 show ?thesis by simp
    qed
  next
    case (4 ts nd r)
    show ?case
    proof (cases "ts \<noteq> [] \<and> tkind (hd ts) = LParen")
      case True
      with 4 obtain g u rs raw where g: "seq_loop p n [] None (tl ts) = Inr (g, u)"
        and nd: "nd = subshell_node (sequence_node g []) rs raw"
        by (auto simp: bind_result_eq_Inr Let_def subshell_node_def)
      have "list_all ok (map fst g)" using Suc.IH(1) [OF _ g] by simp
      then show ?thesis unfolding nd by (intro subshell sequence)
    next
      case False
      with 4 obtain a raw where a: "simple_loop p n simple_acc0 ts = Inr (a, r)"
        and "finish_simple p a raw = Inr nd"
        by (auto simp: bind_result_eq_Inr)
      moreover have "acc_ok a" using Suc.IH(5) [OF _ a] by simp
      ultimately show ?thesis
        using simple [of p a raw nd] p by (simp add: acc_ok_def)
    qed
  next
    case (5 toks a a' r)
    show ?case
    proof (cases toks)
      case (Cons t ts)
      have "ok (set_op x (sequence_node g []))" if "seq_loop p n [] None ts = Inr (g, u)" for x g u
        using set_op sequence Suc.IH(1) [OF _ that] by simp
      then show ?thesis
        using 5 Cons by (auto simp: bind_result_eq_Inr split: if_splits intro: Suc.IH(5) [rotated])
    next
      case Nil
      with 5 show ?thesis by simp
    qed
  }
qed

lemma parse_shell_ok: "parse_shell n s = Inr nd \<Longrightarrow> ok nd"
proof (induction n arbitrary: s nd)
  case 0
  then show ?case by simp
next
  case (Suc n)
  have "ok nd" if "parseSequence (parse_shell n) raw ts = Inr nd" for raw ts nd
    using that parser_ok(1) [of "parse_shell n" "[]"] Suc.IH sequence
    by (auto simp: parseSequence_def bind_result_eq_Inr)
  then show ?case
    using Suc.prems unknown failure
    by (auto simp: Let_def bind_result_eq_Inr downgrade_def split: if_splits prod.splits)
qed

lemma parseShellCommand_ok: "parseShellCommand s = Inr nd \<Longrightarrow> ok nd"
  unfolding parseShellCommand_def by (rule parse_shell_ok)

end

section \<open>Bubbling of indicators\<close>

text \<open>Every node of the tree carries the indicators of all its children.\<close>

definition bubbled :: "parsed_command \<Rightarrow> bool" where
  "bubbled n \<longleftrightarrow> (\<forall>m \<in> set (nodes n). \<forall>c \<in> set (children m).
     set (sink_indicators c) \<subseteq> set (sink_indicators m))"

lemma bubbled_unfold:
  "bubbled n \<longleftrightarrow> list_all (\<lambda>c. bubbled c \<and> set (sink_indicators c) \<subseteq> set (sink_indicators n))
     (children n)"
proof -
  have "bubbled n \<longleftrightarrow> (\<forall>c \<in> set (children n). set (sink_indicators c) \<subseteq> set (sink_indicators n))
      \<and> (\<forall>c \<in> set (children n). bubbled c)"
    unfolding bubbled_def by (subst set_nodes) blast
  then show ?thesis by (auto simp: list_all_iff)
qed

lemma bubbled_indicators:
  "bubbled n \<Longrightarrow> m \<in> set (nodes n) \<Longrightarrow> set (sink_indicators m) \<subseteq> set (sink_indicators n)"
proof (induction n arbitrary: m)
  case (ParsedCommand a e r cs p w cf s pe h)
  define n where "n = ParsedCommand a e r cs p w cf s pe h"
  have "m = n \<or> (\<exists>c \<in> set cs. m \<in> set (nodes c))"
    using ParsedCommand.prems(2) by (auto simp: n_def)
  then show ?case
  proof
    assume "\<exists>c \<in> set cs. m \<in> set (nodes c)"
    then obtain c where c: "c \<in> set cs" "m \<in> set (nodes c)" ..
    have "bubbled c" "set (sink_indicators c) \<subseteq> set s"
      using ParsedCommand.prems(1) c(1) bubbled_unfold [of n] by (auto simp: n_def list_all_iff)
    with ParsedCommand.IH [OF c(1) _ c(2)] show ?thesis by auto
  qed (simp add: n_def)
qed

lemma collectChild_superset:
  "c \<in> set cs \<Longrightarrow> set (sink_indicators c) \<subseteq> set (collectChildSinkIndicators cs)"
  by (auto simp: collectChildSinkIndicators_def)

lemma bubbled_intro:
  "list_all bubbled (children n)
   \<Longrightarrow> set (collectChildSinkIndicators (children n)) \<subseteq> set (sink_indicators n) \<Longrightarrow> bubbled n"
  using collectChild_superset by (subst bubbled_unfold) (fastforce simp: list_all_iff)

lemma bubbled_same:
  "children m = children n \<Longrightarrow> sink_indicators m = sink_indicators n \<Longrightarrow> bubbled m = bubbled n"
  by (simp add: bubbled_unfold [of m] bubbled_unfold [of n])

text \<open>The children of the node of a simple command.\<close>

lemma children_simple_node [simp]:
  "children (simple_node a raw) = sa_subs a" "sink_indicators (simple_node a raw) = []"
  "pop (simple_node a raw) = None"
  by (simp_all add: simple_node_def)

lemma unwrapCompoundPrefixes_sel [simp]:
  "children (unwrapCompoundPrefixes n) = children n"
  "sink_indicators (unwrapCompoundPrefixes n) = sink_indicators n"
  "confidence (unwrapCompoundPrefixes n) = confidence n"
  "pop (unwrapCompoundPrefixes n) = pop n"
  by (auto simp: unwrapCompoundPrefixes_def split: option.split prod.split)

lemma inline_children:
  assumes "maybeUnwrapInlineDashC parse n = Inr m"
  obtains "m = n"
  | b inner where "parse b = Inr inner" "children m = inner # children n"
      "confidence m = min (confidence n) (confidence inner)"
  using assms
  by (auto simp: maybeUnwrapInlineDashC_def bind_result_eq_Inr downgrade_def
      split: option.splits if_splits)

lemma finish_simple_parts:
  assumes "finish_simple parse a raw = Inr n"
  obtains m leaf where
    "maybeUnwrapInlineDashC parse (unwrapCompoundPrefixes (simple_node a raw)) = Inr m"
    "indicatorsForLeaf m = Inr leaf"
    "n = set_indicators (leaf @ collectChildSinkIndicators (children m)
           @ combineChildrenIndicators m) m"
  using assms by (auto simp: finish_simple_def bind_result_eq_Inr)

lemma pipe_node_sel [simp]:
  "children (pipe_node st raw) = st" "pop (pipe_node st raw) = Some OpPipe"
  "confidence (pipe_node st raw) = mergeConfidence (map confidence st)"
  by (simp_all add: pipe_node_def Let_def)

lemma subshell_node_sel [simp]:
  "children (subshell_node i rs raw) = [i]" "confidence (subshell_node i rs raw) = confidence i"
  "sink_indicators (subshell_node i rs raw) = sink_indicators i"
  by (simp_all add: subshell_node_def)

lemma makeUnknown_sel [simp]:
  "children (makeUnknown raw e) = []" "sink_indicators (makeUnknown raw e) = []"
  by (simp_all add: makeUnknown_def)

text \<open>A sequence of two or more segments keeps them, with their operators, as its children.\<close>

lemma sequence_node_cases:
  obtains "segs = []" "sequence_node segs raw = makeUnknown raw ''empty input''"
  | s where "segs = [s]" "sequence_node segs raw = fst s"
  | cs where "list_all2 (\<lambda>c s. c = fst s \<or> (\<exists>q. c = set_op q (fst s))) cs segs"
      "children (sequence_node segs raw) = cs"
      "confidence (sequence_node segs raw) = mergeConfidence (map confidence cs)"
      "sink_indicators (sequence_node segs raw) = collectChildSinkIndicators cs"
proof (cases segs)
  case Nil
  with that(1) show thesis by (simp add: sequence_node_def)
next
  case (Cons s ss)
  show thesis
  proof (cases ss)
    case Nil
    with Cons that(2) show thesis by (simp add: sequence_node_def)
  next
    case (Cons s' rest)
    with \<open>segs = s # ss\<close> show thesis
      by (intro that(3)) (auto simp: sequence_node_def Let_def list_all2_map1 list_all2_same)
  qed
qed

interpretation bubbling: node_contract bubbled
proof
  fix n q assume "bubbled n"
  then show "bubbled (set_op q n)" by (simp add: bubbled_same [of "set_op q n" n])
next
  fix n e assume "bubbled n"
  then show "bubbled (set_failure Unknown e n)"
    by (simp add: bubbled_same [of "set_failure Unknown e n" n])
next
  fix raw e show "bubbled (makeUnknown raw e)" by (subst bubbled_unfold) simp
next
  fix stages raw assume "list_all bubbled stages"
  then show "bubbled (pipe_node stages raw)"
    by (intro bubbled_intro) (auto simp: pipe_node_def Let_def)
next
  fix segs :: "(parsed_command \<times> parsed_op option) list" and raw
  assume segs: "list_all bubbled (map fst segs)"
  show "bubbled (sequence_node segs raw)"
  proof (cases segs raw rule: sequence_node_cases)
    case 1
    then show ?thesis by (subst bubbled_unfold) simp
  next
    case (2 s)
    with segs show ?thesis by simp
  next
    case (3 cs)
    have "list_all bubbled cs"
      using 3(1) segs
      by (induction rule: list_all2_induct) (auto simp: bubbled_same [of "set_op _ _"])
    with 3 show ?thesis by (intro bubbled_intro) auto
  qed
next
  fix inner rs raw assume "bubbled inner"
  then show "bubbled (subshell_node inner rs raw)" by (subst bubbled_unfold) simp
next
  fix parse a raw n
  assume p: "\<And>b n. parse b = Inr n \<Longrightarrow> bubbled n" and subs: "list_all bubbled (sa_subs a)"
    and "finish_simple parse a raw = Inr n"
  then obtain m leaf where
    m: "maybeUnwrapInlineDashC parse (unwrapCompoundPrefixes (simple_node a raw)) = Inr m"
    and n: "n = set_indicators (leaf @ collectChildSinkIndicators (children m)
        @ combineChildrenIndicators m) m"
    by (auto elim!: finish_simple_parts)
  have "list_all bubbled (children m)"
    using inline_children [OF m] p subs by fastforce
  then show "bubbled n" unfolding n by (intro bubbled_intro) auto
qed

section \<open>Order of confidences\<close>

text \<open>
  A node claims no more confidence than any of its children, process substitutions apart (a
  command that has one is at most \<open>Low\<close>).
\<close>

definition graded :: "parsed_command \<Rightarrow> bool" where
  "graded n \<longleftrightarrow> (\<forall>m \<in> set (nodes n). \<forall>c \<in> set (children m).
     is_substitution c \<or> confidence m \<le> confidence c)"

lemma graded_unfold:
  "graded n \<longleftrightarrow> list_all (\<lambda>c. graded c \<and> (is_substitution c \<or> confidence n \<le> confidence c))
     (children n)"
proof -
  have "graded n \<longleftrightarrow> (\<forall>c \<in> set (children n). is_substitution c \<or> confidence n \<le> confidence c)
      \<and> (\<forall>c \<in> set (children n). graded c)"
    unfolding graded_def by (subst set_nodes) blast
  then show ?thesis by (auto simp: list_all_iff)
qed

lemma graded_lower:
  "children m = children n \<Longrightarrow> confidence m \<le> confidence n \<Longrightarrow> graded n \<Longrightarrow> graded m"
  by (auto simp: graded_unfold [of m] graded_unfold [of n] list_all_iff)

lemma mergeConfidence_le: "c \<in> set cs \<Longrightarrow> mergeConfidence cs \<le> c"
proof -
  have "foldl downgrade b cs \<le> b \<and> (\<forall>c \<in> set cs. foldl downgrade b cs \<le> c)" for b
  proof (induction cs arbitrary: b)
    case (Cons a cs)
    have "foldl downgrade (min b a) cs \<le> min b a" using Cons by blast
    with Cons [of "min b a"] show ?case by (simp add: downgrade_def)
  qed simp
  then show "c \<in> set cs \<Longrightarrow> mergeConfidence cs \<le> c" by (simp add: mergeConfidence_def)
qed

lemma graded_merge:
  "list_all graded (children n) \<Longrightarrow> confidence n = mergeConfidence (map confidence (children n))
   \<Longrightarrow> graded n"
  by (subst graded_unfold) (auto simp: list_all_iff intro: mergeConfidence_le)

interpretation grading: node_contract graded
proof
  fix n q assume "graded n"
  then show "graded (set_op q n)" by (rule graded_lower [rotated 2]) simp_all
next
  fix n e assume "graded n"
  then show "graded (set_failure Unknown e n)" by (rule graded_lower [rotated 2]) simp_all
next
  fix raw e show "graded (makeUnknown raw e)" by (subst graded_unfold) simp
next
  fix stages raw assume "list_all graded stages"
  then show "graded (pipe_node stages raw)" by (intro graded_merge) simp_all
next
  fix segs :: "(parsed_command \<times> parsed_op option) list" and raw
  assume segs: "list_all graded (map fst segs)"
  show "graded (sequence_node segs raw)"
  proof (cases segs raw rule: sequence_node_cases)
    case 1
    then show ?thesis by (subst graded_unfold) simp
  next
    case (2 s)
    with segs show ?thesis by simp
  next
    case (3 cs)
    have op: "graded (set_op q n)" if "graded n" for q n
      using that by (rule graded_lower [rotated 2]) simp_all
    have "list_all graded cs"
      using 3(1) segs by (induction rule: list_all2_induct) (auto intro: op)
    with 3 show ?thesis by (intro graded_merge) simp_all
  qed
next
  fix inner rs raw assume "graded inner"
  then show "graded (subshell_node inner rs raw)" by (subst graded_unfold) simp
next
  fix parse a raw n
  assume p: "\<And>b n. parse b = Inr n \<Longrightarrow> graded n" and subs: "list_all graded (sa_subs a)"
    and substs: "list_all is_substitution (sa_subs a)" and "finish_simple parse a raw = Inr n"
  then obtain m leaf where
    m: "maybeUnwrapInlineDashC parse (unwrapCompoundPrefixes (simple_node a raw)) = Inr m"
    and n: "n = set_indicators (leaf @ collectChildSinkIndicators (children m)
        @ combineChildrenIndicators m) m"
    by (auto elim!: finish_simple_parts)
  have "graded m"
    by (subst graded_unfold, rule inline_children [OF m])
      (use p subs substs in \<open>fastforce simp: list_all_iff\<close>)+
  then show "graded n" unfolding n by (rule graded_lower [rotated 2]) simp_all
qed

section \<open>The root's confidence\<close>

text \<open>
  A node of high confidence has only nodes of high confidence below it: a process substitution
  lowers the command that has it.
\<close>

definition solid :: "parsed_command \<Rightarrow> bool" where
  "solid n \<longleftrightarrow> (confidence n = High \<longrightarrow> (\<forall>m \<in> set (nodes n). confidence m = High))"

lemma solid_intro:
  "(confidence n = High \<Longrightarrow> list_all (\<lambda>c. solid c \<and> confidence c = High) (children n)) \<Longrightarrow> solid n"
  unfolding solid_def by (subst set_nodes) (fastforce simp: list_all_iff)

lemma mergeConfidence_High: "mergeConfidence cs = High \<Longrightarrow> c \<in> set cs \<Longrightarrow> c = High"
  using mergeConfidence_le [of c cs] by (metis confidence_le_High order_antisym)

lemma solid_same:
  assumes ch: "children m = children n" and cf: "confidence m = confidence n \<or> confidence m \<noteq> High"
    and n: "solid n"
  shows "solid m"
proof -
  have "set (nodes m) \<subseteq> insert m (set (nodes n))" by (simp add: set_nodes [of m] set_nodes [of n] ch) blast
  with cf n show ?thesis by (auto simp: solid_def)
qed

lemma solid_merge:
  assumes "list_all solid (children n)" "confidence n = mergeConfidence (map confidence (children n))"
  shows "solid n"
proof (rule solid_intro)
  assume "confidence n = High"
  then have "mergeConfidence (map confidence (children n)) = High" using assms(2) by simp
  then have "confidence c = High" if "c \<in> set (children n)" for c
    using that mergeConfidence_High by fastforce
  with assms(1) show "list_all (\<lambda>c. solid c \<and> confidence c = High) (children n)"
    by (simp add: list_all_iff)
qed

lemma min_High: "min a b = High \<longleftrightarrow> a = High \<and> b = High"
  by (cases a; cases b) (simp_all add: min_def less_eq_parse_confidence_def)

lemma simple_node_High: "confidence (simple_node a raw) = High \<Longrightarrow> sa_subs a = []"
  by (auto simp: simple_node_def split: if_splits)

interpretation solidity: node_contract solid
proof
  fix n q assume "solid n"
  then show "solid (set_op q n)" by (rule solid_same [rotated 2]) simp_all
next
  fix n e assume "solid n"
  then show "solid (set_failure Unknown e n)" by (rule solid_same [rotated 2]) simp_all
next
  fix raw e show "solid (makeUnknown raw e)" by (rule solid_intro) simp
next
  fix stages raw assume "list_all solid stages"
  then show "solid (pipe_node stages raw)" by (intro solid_merge) simp_all
next
  fix segs :: "(parsed_command \<times> parsed_op option) list" and raw
  assume segs: "list_all solid (map fst segs)"
  show "solid (sequence_node segs raw)"
  proof (cases segs raw rule: sequence_node_cases)
    case 1
    then show ?thesis by (intro solid_intro) simp
  next
    case (2 s)
    with segs show ?thesis by simp
  next
    case (3 cs)
    have op: "solid (set_op q n)" if "solid n" for q n
      using that by (rule solid_same [rotated 2]) simp_all
    have "list_all solid cs"
      using 3(1) segs by (induction rule: list_all2_induct) (auto intro: op)
    with 3 show ?thesis by (intro solid_merge) simp_all
  qed
next
  fix inner rs raw assume "solid inner"
  then show "solid (subshell_node inner rs raw)" by (intro solid_intro) simp
next
  fix parse a raw n
  assume p: "\<And>b n. parse b = Inr n \<Longrightarrow> solid n" and subs: "list_all solid (sa_subs a)"
    and "finish_simple parse a raw = Inr n"
  then obtain m leaf where
    m: "maybeUnwrapInlineDashC parse (unwrapCompoundPrefixes (simple_node a raw)) = Inr m"
    and n: "n = set_indicators (leaf @ collectChildSinkIndicators (children m)
        @ combineChildrenIndicators m) m"
    by (auto elim!: finish_simple_parts)
  have "solid m"
    by (rule solid_intro, rule inline_children [OF m])
      (use p simple_node_High in \<open>fastforce simp: min_High\<close>)+
  then show "solid n" unfolding n by (rule solid_same [rotated 2]) simp_all
qed

text \<open>So the root alone tells whether some node is not of high confidence.\<close>

lemma root_confidence_decides:
  "solid n \<Longrightarrow> (\<exists>m \<in> set (nodes n). confidence m \<noteq> High) \<longleftrightarrow> confidence n \<noteq> High"
  by (auto simp: solid_def)

end
