(* ===== verification/ShellQuoting.thy ===== *)
theory ShellQuoting
  imports ShellTree
begin

text \<open>
  Commands written with POSIX single quotes: the lexer reads back exactly the words that were
  quoted, and the parser gives them as the argv of one simple command.
\<close>

text \<open>The usual quoting of a word: single quotes around it, each inner quote as \<open>'\''\<close>.\<close>

definition quote_chars :: "string \<Rightarrow> string" where
  "quote_chars w =
    concat (map (\<lambda>c. if c = CHR 0x27 then [CHR 0x27, CHR 0x5C, CHR 0x27, CHR 0x27] else [c]) w)"

definition posix_quote :: "string \<Rightarrow> string" where
  "posix_quote w = CHR 0x27 # quote_chars w @ [CHR 0x27]"

definition quote_command :: "string list \<Rightarrow> string" where
  "quote_command ws = join '' '' (map posix_quote ws)"

definition quoted_token :: "string \<Rightarrow> token" where
  "quoted_token w = word_token (posix_quote w) w"

section \<open>Lexing\<close>

lemma skip_until_notin: "q \<notin> set u \<Longrightarrow> skip_until q (u @ q # r) = q # r"
  by (induction u) auto

lemma consume_single_quoted_body:
  "CHR 0x27 \<notin> set u \<Longrightarrow> consume_single_quoted (CHR 0x27 # u @ CHR 0x27 # r) = (Some u, r)"
  by (simp add: consume_single_quoted_def skip_until_notin)

lemma word_loop_single:
  assumes "CHR 0x27 \<notin> set u"
  shows "word_loop w (CHR 0x27 # u @ CHR 0x27 # r) = word_loop (word_append u w) r"
  using assms
  by (simp add: word_step_def is_word_break_def quoted_step_def consume_single_quoted_body)

lemma word_loop_escaped_quote:
  "word_loop w (CHR 0x5C # CHR 0x27 # r) = word_loop (word_append [CHR 0x27] w) r"
  by (simp add: word_step_def is_word_break_def)

lemma word_append_append: "word_append v (word_append u w) = word_append (u @ v) w"
  by (simp add: word_append_def)

lemma quote_chars_append: "quote_chars (u @ v) = quote_chars u @ quote_chars v"
  by (simp add: quote_chars_def)

lemma quote_chars_plain: "CHR 0x27 \<notin> set u \<Longrightarrow> quote_chars u = u"
  by (induction u) (auto simp: quote_chars_def)

lemma word_loop_posix_quote: "word_loop w (posix_quote v @ r) = word_loop (word_append v w) r"
proof (induction "length v" arbitrary: v w rule: less_induct)
  case less
  show ?case
  proof (cases "CHR 0x27 \<in> set v")
    case False
    then show ?thesis
      using word_loop_single [of v w r] by (simp add: posix_quote_def quote_chars_plain)
  next
    case True
    then obtain u v' where v: "v = u @ CHR 0x27 # v'" and u: "CHR 0x27 \<notin> set u"
      by (meson split_list_first)
    have "posix_quote v @ r = CHR 0x27 # u @ CHR 0x27 # CHR 0x5C # CHR 0x27 # posix_quote v' @ r"
      using u by (simp add: v posix_quote_def quote_chars_append quote_chars_plain)
        (simp add: quote_chars_def)
    moreover have "word_loop w (posix_quote v' @ r) = word_loop (word_append v' w) r" for w
      using less [of v'] by (simp add: v)
    ultimately show ?thesis
      by (simp only: word_loop_single [OF u] word_loop_escaped_quote word_append_append v
          append_assoc append.simps)
  qed
qed

lemma word_loop_stop: "r = [] \<or> is_word_break (hd r) \<Longrightarrow> word_loop w r = (w, r)"
  by (cases r) (auto simp: word_step_def)

text \<open>One quoted word, at the start of the input or after a blank.\<close>

lemma lex_step_quoted:
  assumes "lrest lx = posix_quote v @ r" and "r = [] \<or> is_word_break (hd r)"
  shows "lex_step lx = push [quoted_token v] [] r lx"
proof -
  have w: "word_loop word_acc0 (lrest lx) = (word_append v word_acc0, r)"
    unfolding assms(1) word_loop_posix_quote by (rule word_loop_stop) (rule assms(2))
  have raw: "slice_until (lrest lx) r = posix_quote v" by (simp add: assms(1))
  have "\<not> is_assignment_text (posix_quote v)"
    by (simp add: is_assignment_text_def posix_quote_def is_alphau_def in_range_def is_upper_def)
  then have "consume_word lx = push [quoted_token v] [] r lx"
    unfolding consume_word_def Let_def w raw fst_conv snd_conv
    by (simp add: quoted_token_def word_token_def plain_token_def word_append_def word_acc0_def
        posix_quote_def)
  moreover have "\<not> starts_redirect (CHR 0x27 # s)" for s
    by (simp add: starts_redirect_def is_digit_def in_range_def)
  ultimately show ?thesis
    using assms(1) by (simp add: lex_step_def posix_quote_def lex_char_def)
qed

lemma lex_run_step: "lrest lx \<noteq> [] \<Longrightarrow> lex_run lx = lex_run (lex_step lx)"
  by (simp add: lex_run.simps [of lx])

lemma lex_run_done: "lrest lx = [] \<Longrightarrow> lex_run lx = lx"
  by (simp add: lex_run.simps [of lx])

lemma lex_run_quoted:
  "lrest lx = quote_command ws @ r \<Longrightarrow> ws \<noteq> [] \<Longrightarrow> r = [] \<or> is_word_break (hd r)
   \<Longrightarrow> lex_run lx = lex_run (push (map quoted_token ws) [] r lx)"
proof (induction ws arbitrary: lx rule: induct_list012)
  case 1
  then show ?case by simp
next
  case (2 v)
  then have l: "lrest lx = posix_quote v @ r" by (simp add: quote_command_def)
  then have "lrest lx \<noteq> []" by (simp add: posix_quote_def)
  with lex_step_quoted [OF l] 2 show ?case by (simp add: lex_run_step)
next
  case (3 v v' ws)
  then have l: "lrest lx = posix_quote v @ CHR '' '' # quote_command (v' # ws) @ r"
    by (simp add: quote_command_def)
  define ly where "ly = push [quoted_token v] [] (CHR '' '' # quote_command (v' # ws) @ r) lx"
  define lz where "lz = push [] [] (quote_command (v' # ws) @ r) ly"
  have "lex_step lx = ly"
    unfolding ly_def by (rule lex_step_quoted [OF l]) (simp add: is_word_break_def)
  moreover have "lex_step ly = lz"
    by (simp add: lex_step_def lz_def lex_char_def ly_def)
  moreover have "lrest lx \<noteq> []" "lrest ly \<noteq> []" by (simp_all add: l ly_def)
  ultimately have "lex_run lx = lex_run lz" by (simp add: lex_run_step)
  also have "\<dots> = lex_run (push (map quoted_token (v' # ws)) [] r lz)"
    using 3 by (intro "3.IH"(2)) (simp_all add: lz_def)
  finally show ?case by (simp add: lz_def ly_def push_def)
qed

text \<open>Quoted commands joined by pipes, and their tokens.\<close>

definition quote_pipeline :: "string list list \<Rightarrow> string" where
  "quote_pipeline wss = join '' | '' (map quote_command wss)"

definition pipe_token :: token where
  "pipe_token = plain_token Pipe ''|''"

fun pipe_tokens :: "string list list \<Rightarrow> token list" where
  "pipe_tokens [] = []"
| "pipe_tokens [ws] = map quoted_token ws"
| "pipe_tokens (ws # vs # wss) = map quoted_token ws @ pipe_token # pipe_tokens (vs # wss)"

lemma lex_run_pipeline:
  "lrest lx = quote_pipeline wss \<Longrightarrow> [] \<notin> set wss
   \<Longrightarrow> lex_run lx = lx\<lparr>lrest := [], ltokens := ltokens lx @ pipe_tokens wss\<rparr>"
proof (induction wss arbitrary: lx rule: induct_list012)
  case 1
  then show ?case by (simp add: quote_pipeline_def lex_run_done)
next
  case (2 ws)
  then show ?case
    using lex_run_quoted [of lx ws "[]"]
    by (simp add: quote_pipeline_def lex_run_done) (simp add: push_def)
next
  case (3 ws vs wss)
  define q where "q = quote_pipeline (vs # wss)"
  have l: "lrest lx = quote_command ws @ '' | '' @ q"
    using 3 by (simp add: quote_pipeline_def q_def)
  define l1 where "l1 = push (map quoted_token ws) [] ('' | '' @ q) lx"
  have "lex_run lx = lex_run l1"
    unfolding l1_def using 3 by (intro lex_run_quoted [OF l]) (auto simp: is_word_break_def)
  also have "lex_run l1 = lex_run (push [] [] ('' '' @ q) (push [pipe_token] [] ('' '' @ q)
      (push [] [] (''| '' @ q) l1)))"
    by (simp add: lex_run_step lex_step_def lex_char_def l1_def pipe_token_def starts_with_def)
      (simp add: push_def)
  also have "\<dots> = lex_run (push [pipe_token] [] q l1)"
    by (subst lex_run_step) (simp_all add: lex_step_def lex_char_def, simp add: push_def)
  also have "\<dots> = (push [pipe_token] [] q l1)\<lparr>lrest := [],
      ltokens := ltokens (push [pipe_token] [] q l1) @ pipe_tokens (vs # wss)\<rparr>"
    using 3 by (intro "3.IH"(2)) (simp_all add: q_def)
  finally show ?case by (simp add: l1_def push_def)
qed

lemma tokenize_pipeline:
  "[] \<notin> set wss \<Longrightarrow> tokenize (quote_pipeline wss) = (pipe_tokens wss, [])"
  using lex_run_pipeline [of "\<lparr>lrest = quote_pipeline wss, ltokens = [], lerrors = []\<rparr>" wss]
  by (simp add: tokenize_def)

lemma quote_pipeline_single [simp]: "quote_pipeline [ws] = quote_command ws"
  by (simp add: quote_pipeline_def)

lemma tokenize_quoted: "tokenize (quote_command ws) = (map quoted_token ws, [])"
proof (cases "ws = []")
  case True
  then show ?thesis by (simp add: quote_command_def tokenize_def lex_run_done)
next
  case False
  then show ?thesis using tokenize_pipeline [of "[ws]"] by simp
qed

section \<open>Parsing\<close>

lemma quoted_token_sel [simp]:
  "tkind (quoted_token w) = Word" "traw (quoted_token w) = posix_quote w"
  "tresolved (quoted_token w) = Some w" "thas_expansion (quoted_token w) = False"
  "static_value (quoted_token w) = Some w"
  by (simp_all add: quoted_token_def word_token_def plain_token_def static_value_def)

text \<open>The words of a command, read one by one.\<close>

lemma add_word_quoted:
  "add_word (quoted_token w) a = a\<lparr>sa_argv := sa_argv a @ [quoted_token w]\<rparr>"
  by (simp add: add_word_def)

definition stops_simple :: "token list \<Rightarrow> bool" where
  "stops_simple ts \<longleftrightarrow> ts = [] \<or> ends_simple (tkind (hd ts))"

lemma simple_loop_quoted:
  "length ws < n \<Longrightarrow> stops_simple ts \<Longrightarrow> simple_loop p n a (map quoted_token ws @ ts)
     = Inr (a\<lparr>sa_argv := sa_argv a @ map quoted_token ws\<rparr>, ts)"
proof (induction ws arbitrary: n a)
  case Nil
  then obtain m where "n = Suc m" by (cases n) auto
  with Nil show ?case by (cases ts) (simp_all add: stops_simple_def)
next
  case (Cons w ws)
  then obtain m where n: "n = Suc m" and m: "length ws < m" by (cases n) auto
  show ?case
    using Cons.IH [OF m, of "add_word (quoted_token w) a"] Cons.prems
    by (simp add: n ends_simple_def add_word_quoted)
qed

definition quoted_acc :: "string list \<Rightarrow> simple_acc" where
  "quoted_acc ws = simple_acc0\<lparr>sa_argv := map quoted_token ws\<rparr>"

lemma parse_simple_quoted:
  assumes "Suc (length ws) < n" and "ws \<noteq> []" and "stops_simple ts"
  shows "parse_simple p n (map quoted_token ws @ ts)
    = bind_result (finish_simple p (quoted_acc ws) (quote_command ws)) (\<lambda>nd. Inr (nd, ts))"
proof -
  obtain m where n: "n = Suc m" and m: "length ws < m" using assms(1) by (cases n) auto
  have raw: "rawFromTokens (map quoted_token ws) = quote_command ws"
    by (simp add: rawFromTokens_def quote_command_def comp_def)
  obtain w vs where "ws = w # vs" using assms(2) by (cases ws) auto
  then have hd: "tkind (hd (map quoted_token ws @ ts)) = Word" by simp
  show ?thesis
    unfolding n parse_simple.simps hd simple_loop_quoted [OF m assms(3)]
    by (simp add: raw quoted_acc_def simple_acc0_def)
qed

text \<open>The nodes of the stages of a pipeline.\<close>

definition stage_nodes ::
  "(string \<Rightarrow> parsed_command result) \<Rightarrow> string list list \<Rightarrow> parsed_command list \<Rightarrow> bool" where
  "stage_nodes p wss nds \<longleftrightarrow>
    list_all2 (\<lambda>ws nd. finish_simple p (quoted_acc ws) (quote_command ws) = Inr nd) wss nds"

lemma stops_pipe [simp]: "stops_simple (pipe_token # ts)" "stops_simple []"
  by (simp_all add: stops_simple_def pipe_token_def ends_simple_def plain_token_def)

lemma length_pipe_tokens_Cons:
  "length (pipe_tokens (ws # wss)) \<ge> length ws" "wss \<noteq> []
   \<Longrightarrow> length (pipe_tokens (ws # wss)) = Suc (length ws + length (pipe_tokens wss))"
  by (cases wss; simp)+

lemma pipe_loop_quoted:
  "stage_nodes p wss nds \<Longrightarrow> [] \<notin> set wss \<Longrightarrow> wss \<noteq> [] \<Longrightarrow> length (pipe_tokens wss) + 3 < n
   \<Longrightarrow> pipe_loop p n st (pipe_token # pipe_tokens wss) = Inr (st @ nds, [])"
proof (induction wss arbitrary: nds n st)
  case Nil
  then show ?case by simp
next
  case (Cons ws wss)
  then obtain nd nds' where nds: "nds = nd # nds'" and stages: "stage_nodes p wss nds'"
    and nd: "finish_simple p (quoted_acc ws) (quote_command ws) = Inr nd"
    by (auto simp: stage_nodes_def list_all2_Cons1)
  obtain m where n: "n = Suc m" using Cons.prems by (cases n) auto
  obtain k where m: "m = Suc k" using Cons.prems n by (cases m) auto
  show ?case
  proof (cases wss)
    case Nil
    with Cons.prems stages nd show ?thesis
      using parse_simple_quoted [of ws m "[]" p]
      by (simp add: n m nds pipe_token_def plain_token_def stage_nodes_def)
  next
    case (Cons vs vss)
    define ts where "ts = pipe_token # pipe_tokens wss"
    have toks: "pipe_tokens (ws # wss) = map quoted_token ws @ ts"
      by (simp add: Cons ts_def)
    have ps: "parse_simple p m (map quoted_token ws @ ts) = Inr (nd, ts)"
      using Cons.prems(2,4) parse_simple_quoted [of ws m ts p] nd
      by (auto simp: n toks ts_def)
    have "pipe_loop p m (st @ [nd]) ts = Inr ((st @ [nd]) @ nds', [])"
      unfolding ts_def using Cons.prems Cons n toks ts_def
      by (intro Cons.IH [OF stages]) auto
    with ps show ?thesis
      by (simp add: n toks nds pipe_token_def plain_token_def)
  qed
qed

lemma parse_pipeline_quoted:
  assumes st: "stage_nodes p (ws # wss) nds" and ne: "[] \<notin> set (ws # wss)"
    and fuel: "length (pipe_tokens (ws # wss)) + 4 < n"
  shows "parse_pipeline p n (pipe_tokens (ws # wss))
    = Inr (if length nds = 1 then hd nds
           else pipe_node nds (rawFromTokens (pipe_tokens (ws # wss))), [])"
proof -
  obtain nd nds' where nds: "nds = nd # nds'" and stages: "stage_nodes p wss nds'"
    and nd: "finish_simple p (quoted_acc ws) (quote_command ws) = Inr nd"
    using st by (auto simp: stage_nodes_def list_all2_Cons1)
  obtain m where n: "n = Suc m" using fuel by (cases n) auto
  obtain k where m: "m = Suc k" using fuel n by (cases m) auto
  show ?thesis
  proof (cases "wss = []")
    case True
    with ne fuel stages nd show ?thesis
      using parse_simple_quoted [of ws m "[]" p]
      by (simp add: n m nds stage_nodes_def)
  next
    case False
    define ts where "ts = pipe_token # pipe_tokens wss"
    have toks: "pipe_tokens (ws # wss) = map quoted_token ws @ ts"
      using False by (cases wss) (simp_all add: ts_def)
    have "parse_simple p m (map quoted_token ws @ ts) = Inr (nd, ts)"
      using ne fuel parse_simple_quoted [of ws m ts p] nd by (auto simp: n toks ts_def)
    moreover have "pipe_loop p m [nd] ts = Inr ([nd] @ nds', [])"
      unfolding ts_def using ne fuel False toks n
      by (intro pipe_loop_quoted [OF stages]) (auto simp: ts_def)
    ultimately show ?thesis by (simp add: n toks nds slice_until_def)
  qed
qed

lemma hd_pipe_tokens: "ws \<noteq> [] \<Longrightarrow> \<exists>ts. pipe_tokens (ws # wss) = quoted_token (hd ws) # ts"
  by (cases wss; cases ws) auto

lemma quote_pipeline_nonempty: "ws \<noteq> [] \<Longrightarrow> quote_pipeline (ws # wss) \<noteq> []"
  by (cases wss; cases ws; cases "tl ws")
    (simp_all add: quote_pipeline_def quote_command_def posix_quote_def)

lemma parse_shell_pipeline:
  assumes st: "stage_nodes (parse_shell n) (ws # wss) nds" and ne: "[] \<notin> set (ws # wss)"
  shows "parse_shell (Suc n) (quote_pipeline (ws # wss))
    = Inr (if length nds = 1 then hd nds
           else pipe_node nds (rawFromTokens (pipe_tokens (ws # wss))))"
proof -
  define p where "p = parse_shell n"
  define ts where "ts = pipe_tokens (ws # wss)"
  define nd where "nd = (if length nds = 1 then hd nds else pipe_node nds (rawFromTokens ts))"
  have toks: "tokenize (quote_pipeline (ws # wss)) = (ts, [])"
    unfolding ts_def by (rule tokenize_pipeline) (rule ne)
  obtain us where ts: "ts = quoted_token (hd ws) # us"
    using hd_pipe_tokens [of ws wss] ne by (auto simp: ts_def)
  obtain m where fuel: "4 * length ts + 4 = Suc m" and m: "length ts + 4 < m"
    by (simp add: ts)
  have "seq_loop p (Suc m) [] None ts = Inr ([(nd, None)], [])"
    using parse_pipeline_quoted [OF st ne, of m] m
    by (simp add: ts p_def [symmetric] nd_def is_separator_def)
      (simp add: ts_def [symmetric] ts)
  then have "parseSequence p raw ts = Inr nd" for raw
    unfolding parseSequence_def fuel by (simp add: sequence_node_def)
  moreover have "ts \<noteq> []" "quote_pipeline (ws # wss) \<noteq> []"
    using quote_pipeline_nonempty [of ws wss] ne by (auto simp: ts)
  ultimately show ?thesis
    by (simp add: toks p_def [symmetric] nd_def ts_def)
qed

text \<open>
  Words that the parser neither unwraps nor descends into: the first is not a compound prefix
  and no inline body follows an interpreter.
\<close>

definition plain_argv :: "string list \<Rightarrow> bool" where
  "plain_argv ws \<longleftrightarrow> ws \<noteq> [] \<and> hd ws \<notin> set COMPOUND_PREFIXES
     \<and> (base_or_self (to_lower (hd ws)) \<in> set INTERPRETER_NAMES \<longrightarrow> dash_c_body (tl ws) = None)
     \<and> base_or_self (to_lower (hd ws)) \<notin> {''constructor'', ''__proto__''}"

lemma finish_quoted:
  assumes "plain_argv ws"
  shows "\<exists>ind. finish_simple p (quoted_acc ws) raw
    = Inr (ParsedCommand (Some ws) [] [] [] None raw High ind None (Some (hd ws)))"
proof -
  obtain w vs where ws: "ws = w # vs" using assms by (cases ws) (auto simp: plain_argv_def)
  have u: "unwrap_loop 8 False e ws = (False, e, ws)" for e
    using assms by (simp add: ws numeral_eq_Suc plain_argv_def)
  define nd where "nd = ParsedCommand (Some ws) [] [] [] None raw High [] None (Some w)"
  have vals: "map (the \<circ> static_value) (map quoted_token ws) = ws"
    by (simp add: comp_def)
  have node: "simple_node (quoted_acc ws) raw = nd"
    using vals
    by (simp add: simple_node_def quoted_acc_def simple_acc0_def nd_def list_all_iff ws)
  have unwrap: "unwrapCompoundPrefixes nd = nd"
    using u by (simp add: unwrapCompoundPrefixes_def nd_def)
  have inline: "maybeUnwrapInlineDashC p nd = Inr nd"
    using assms by (auto simp: maybeUnwrapInlineDashC_def nd_def plain_argv_def ws)
  obtain leaf where "indicatorsForLeaf nd = Inr leaf"
    using assms indicatorsForLeaf_throws_iff [of nd]
    by (cases "indicatorsForLeaf nd")
      (auto simp: leaf_base_def leaf_head_def argv_list_def nd_def plain_argv_def ws)
  then show ?thesis
    by (simp add: finish_simple_def node unwrap inline) (simp add: nd_def ws)
qed

text \<open>The node of one such command.\<close>

definition plain_node :: "string list \<Rightarrow> parsed_command \<Rightarrow> bool" where
  "plain_node ws nd \<longleftrightarrow> argv nd = Some ws \<and> resolved_head nd = Some (hd ws) \<and> confidence nd = High
     \<and> children nd = [] \<and> pop nd = None"

lemma stage_nodes_plain:
  assumes "list_all plain_argv wss"
  obtains nds where "stage_nodes p wss nds"
    "list_all2 plain_node wss nds"
proof -
  have "\<exists>nds. stage_nodes p wss nds
      \<and> list_all2 plain_node wss nds"
    using assms
  proof (induction wss)
    case Nil
    then show ?case by (simp add: stage_nodes_def)
  next
    case (Cons ws wss)
    then obtain nds where nds: "stage_nodes p wss nds"
      "list_all2 plain_node wss nds"
      by auto
    obtain ind where "finish_simple p (quoted_acc ws) (quote_command ws)
        = Inr (ParsedCommand (Some ws) [] [] [] None (quote_command ws) High ind None (Some (hd ws)))"
      using finish_quoted [of ws p "quote_command ws"] Cons.prems by auto
    moreover have "plain_node ws
        (ParsedCommand (Some ws) [] [] [] None (quote_command ws) High ind None (Some (hd ws)))"
      by (simp add: plain_node_def)
    ultimately show ?case
      using nds by (intro exI [of _ "_ # nds"]) (auto simp: stage_nodes_def)
  qed
  then show thesis using that by blast
qed

lemma parse_quoted_pipeline:
  assumes "list_all plain_argv (ws # wss)"
  obtains nds where
    "parseShellCommand (quote_pipeline (ws # wss))
     = Inr (if length nds = 1 then hd nds
            else pipe_node nds (rawFromTokens (pipe_tokens (ws # wss))))"
    "list_all2 plain_node (ws # wss) nds"
proof -
  obtain nds where st: "stage_nodes (parse_shell (length (quote_pipeline (ws # wss)))) (ws # wss) nds"
    and nds: "list_all2 plain_node (ws # wss) nds"
    by (rule stage_nodes_plain [OF assms])
  have "[] \<notin> set (ws # wss)" using assms by (auto simp: plain_argv_def list_all_iff)
  from that [OF _ nds] parse_shell_pipeline [OF st this] show thesis
    unfolding parseShellCommand_def by blast
qed

end
