(* ===== verification/SinkTypes.thy ===== *)
theory SinkTypes
  imports Prelude
begin

text \<open>
  The sink taxonomy, \<^verbatim>\<open>packages/core/src/sinks/types.ts\<close>, and the taint data of
  \<^verbatim>\<open>packages/core/src/core/tool-event.ts\<close>. Severities are ordered advisory, approval, deny.
\<close>

datatype sink_class =
    ClaudeFileWritePersistence | SecretRead | PipeToShell | DirectSecretToNetwork
  | AllowedSaasUpload | ConfiguredRemoteNetwork | NetworkEgressOffAllowlist
  | PackageLifecycleSink | InterpreterEvalWithNetwork | GeneratedFileExecute

datatype severity = Advisory | ApprovalRequired | Deny

fun severity_rank :: "severity \<Rightarrow> nat" where
  "severity_rank Advisory = 0"
| "severity_rank ApprovalRequired = 1"
| "severity_rank Deny = 2"

instantiation severity :: linorder
begin

definition less_eq_severity :: "severity \<Rightarrow> severity \<Rightarrow> bool" where
  "a \<le> b \<longleftrightarrow> severity_rank a \<le> severity_rank b"

definition less_severity :: "severity \<Rightarrow> severity \<Rightarrow> bool" where
  "a < b \<longleftrightarrow> severity_rank a < severity_rank b"

instance
proof
  fix x y :: severity
  show "x \<le> y \<Longrightarrow> y \<le> x \<Longrightarrow> x = y"
    by (cases x; cases y) (simp_all add: less_eq_severity_def)
qed (auto simp: less_eq_severity_def less_severity_def)

end

lemma severity_order [simp]:
  "Advisory \<le> s" "s \<le> Deny" "\<not> Deny \<le> ApprovalRequired" "\<not> Deny \<le> Advisory"
  "\<not> ApprovalRequired \<le> Advisory"
  by (cases s; simp add: less_eq_severity_def)+

record sink_match =
  mclass :: sink_class
  mseverity :: severity
  mreason :: string
  mpath :: "string option"
  mpattern :: string

section \<open>Taint\<close>

datatype taint_kind = Prompt | Secret | NetworkContent | McpContent | GeneratedFile

fun kind_key :: "taint_kind \<Rightarrow> string" where
  "kind_key Prompt = ''prompt''"
| "kind_key Secret = ''secret''"
| "kind_key NetworkContent = ''network_content''"
| "kind_key McpContent = ''mcp''"
| "kind_key GeneratedFile = ''generated_file''"

lemma kind_key_inject [simp]: "kind_key k = kind_key k' \<longleftrightarrow> k = k'"
  by (cases k; cases k') simp_all

definition ALL_TAINT_KINDS :: "taint_kind list" where
  "ALL_TAINT_KINDS = [Prompt, Secret, NetworkContent, McpContent, GeneratedFile]"

lemma set_ALL_TAINT_KINDS [simp]: "set ALL_TAINT_KINDS = UNIV"
  by (auto simp: ALL_TAINT_KINDS_def) (metis taint_kind.exhaust)

datatype clear_method = OutOfBand | ConfigTrusted

text \<open>Timestamps are integers (milliseconds).\<close>

record cleared_mark =
  cts :: int
  cmethod :: clear_method
  cscope :: "taint_kind list"

record taint_source =
  sts :: int
  sref :: string
  shash :: string
  scleared :: "cleared_mark option"

type_synonym source_table = "(string \<times> taint_source list) list"

text \<open>Both records are insertion-ordered objects.\<close>

record taint_snapshot =
  session_id :: string
  by_kind :: source_table
  generated_files :: source_table

end
