(* ===== verification/ShellCombos.thy ===== *)
theory ShellCombos
  imports ShellTypes SinkTypes
begin

text \<open>
  Dangerous combinations of shell indicators,
  \<^verbatim>\<open>packages/agents/src/claude-code/dangerous-shell-combos.ts\<close>. What the file reads from its
  process (the candidate path of the running CLI and the file system's \<open>realpath\<close>) is the
  record \<open>cli_env\<close>.
\<close>

record cli_env =
  env_candidate :: "string option"
  env_realpath :: "string \<Rightarrow> string option"

section \<open>Collecting\<close>

definition collect_all :: "parsed_command \<Rightarrow> indicator list" where
  "collect_all root = concat (map sink_indicators (stack_walk [root]))"

text \<open>The set of kinds, in insertion order.\<close>

definition collect_kinds :: "parsed_command \<Rightarrow> indicator_kind list" where
  "collect_kinds root = uniq (map ikind (collect_all root))"

definition EGRESS_KINDS :: "indicator_kind list" where
  "EGRESS_KINDS = [FetchTool, NcSocat, ScpRsync, GhUpload, NetworkRedirect]"

section \<open>The administrative CLI\<close>

definition ADMIN_CLI_VERBS :: "string list" where
  "ADMIN_CLI_VERBS = [''approve'', ''clear-taint'', ''trust-repo-config'']"

definition MODIFIER_HEADS :: "string list" where
  "MODIFIER_HEADS = [''command'', ''exec'']"

definition basenameOf :: "string \<Rightarrow> string" where
  "basenameOf p = last_segment p"

definition patchworkCanonicalRealpath :: "cli_env \<Rightarrow> string option" where
  "patchworkCanonicalRealpath e =
    (case env_candidate e of
       None \<Rightarrow> None
     | Some c \<Rightarrow> if c = [] then None else env_realpath e c)"

definition isPatchworkExecutable :: "cli_env \<Rightarrow> string \<Rightarrow> bool" where
  "isPatchworkExecutable e headPath \<longleftrightarrow>
    (if basenameOf headPath = ''patchwork'' then True
     else
       (case patchworkCanonicalRealpath e of
          None \<Rightarrow> False
        | Some canonical \<Rightarrow> env_realpath e headPath = Some canonical))"

text \<open>The loop of \<open>peelModifierFlags\<close> over the argv.\<close>

fun peel_flags :: "string \<Rightarrow> string list \<Rightarrow> string list" where
  "peel_flags h [] = []"
| "peel_flags h (a # as) =
     (if starts_with a ''-'' then
        (if h = ''exec'' \<and> a = ''-a'' \<and> as \<noteq> [] then peel_flags h (tl as)
         else peel_flags h as)
      else a # as)"

definition peelModifierFlags :: "string list \<Rightarrow> string option \<Rightarrow> string list" where
  "peelModifierFlags a originalHead =
    (case originalHead of
       None \<Rightarrow> a
     | Some h \<Rightarrow> if h \<in> set MODIFIER_HEADS then peel_flags h a else a)"

definition isAdminCliInvocation :: "cli_env \<Rightarrow> parsed_command \<Rightarrow> bool" where
  "isAdminCliInvocation e node \<longleftrightarrow>
    (case argv node of
       None \<Rightarrow>
         (case resolved_head node of None \<Rightarrow> False | Some h \<Rightarrow> isPatchworkExecutable e h)
     | Some a \<Rightarrow>
         (case peelModifierFlags a (resolved_head node) of
            x # v # rest \<Rightarrow> isPatchworkExecutable e x \<and> v \<in> set ADMIN_CLI_VERBS
          | _ \<Rightarrow> False))"

definition treeHasAdminCliInvocation :: "cli_env \<Rightarrow> parsed_command \<Rightarrow> bool" where
  "treeHasAdminCliInvocation e root \<longleftrightarrow> list_ex (isAdminCliInvocation e) (stack_walk [root])"

section \<open>Environment dumps\<close>

definition ENV_DUMP_BARE_HEADS :: "string list" where
  "ENV_DUMP_BARE_HEADS = [''env'', ''printenv'']"

text \<open>\<open>/^\/proc\/[^/]+\/environ$/\<close>.\<close>

definition PROC_ENVIRON_RE :: "string \<Rightarrow> bool" where
  "PROC_ENVIRON_RE s \<longleftrightarrow>
    starts_with s ''/proc/''
    \<and> (let r = drop 6 s; comp = takeWhile (\<lambda>c. c \<noteq> CHR ''/'') r in
       comp \<noteq> [] \<and> dropWhile (\<lambda>c. c \<noteq> CHR ''/'') r = ''/environ'')"

definition isDeclareDumpFlag :: "string \<Rightarrow> bool" where
  "isDeclareDumpFlag s \<longleftrightarrow> s \<in> {''-p'', ''-x'', ''-px'', ''-xp''}"

definition dump_redirect :: "redirect \<Rightarrow> bool" where
  "dump_redirect r \<longleftrightarrow>
    (rkind r = StdinFile \<or> rkind r = Herestring) \<and> rtarget_resolved r \<and> PROC_ENVIRON_RE (rtarget r)"

definition dump_argv :: "string list \<Rightarrow> bool" where
  "dump_argv a \<longleftrightarrow>
    (case a of
       [] \<Rightarrow> False
     | head # as \<Rightarrow>
         if list_ex PROC_ENVIRON_RE a then True
         else if head \<in> set ENV_DUMP_BARE_HEADS \<and> length a = 1 then True
         else if head = ''set'' \<and> length a = 1 then True
         else if head = ''export'' \<and> length a = 2 \<and> a ! 1 = ''-p'' then True
         else if (head = ''declare'' \<or> head = ''typeset'') \<and> length a = 2 \<and> isDeclareDumpFlag (a ! 1)
         then True
         else if head = ''readonly'' \<and> length a = 2 \<and> a ! 1 = ''-p'' then True
         else if head = ''compgen'' \<and> length a = 2 \<and> a ! 1 = ''-e'' then True
         else False)"

definition isEnvDump :: "parsed_command \<Rightarrow> bool" where
  "isEnvDump node \<longleftrightarrow>
    (if list_ex dump_redirect (redirects node) then True
     else
       (case argv node of
          None \<Rightarrow>
            (case resolved_head node of None \<Rightarrow> False | Some h \<Rightarrow> h \<in> set ENV_DUMP_BARE_HEADS)
        | Some a \<Rightarrow> dump_argv a))"

definition treeHasEnvDump :: "parsed_command \<Rightarrow> bool" where
  "treeHasEnvDump root \<longleftrightarrow> list_ex isEnvDump (stack_walk [root])"

section \<open>The classifier\<close>

definition severityFor :: "bool \<Rightarrow> severity" where
  "severityFor tainted = (if tainted then Deny else ApprovalRequired)"

text \<open>The distinct nonempty tokens of the indicators, at most four.\<close>

definition match_tokens :: "indicator list \<Rightarrow> string list" where
  "match_tokens inds =
    take 4 (uniq (filter (\<lambda>t. t \<noteq> []) (List.map_filter itoken inds)))"

definition makeMatch :: "sink_class \<Rightarrow> indicator list \<Rightarrow> string \<Rightarrow> bool \<Rightarrow> sink_match" where
  "makeMatch cls inds prefix tainted =
    (let tokens = match_tokens inds;
         summary = (if tokens \<noteq> [] then '' ['' @ join '', '' tokens @ '']'' else [])
     in \<lparr>mclass = cls, mseverity = severityFor tainted,
         mreason = (if tainted then prefix @ '' under active taint'' @ summary @ '' '' @ em_dash
                                    @ '' refusing''
                    else prefix @ summary @ '' '' @ em_dash @ '' approval required''),
         mpath = None,
         mpattern = join ''+'' (sort (map (\<lambda>i. indicator_name (ikind i)) inds))\<rparr>)"

definition admin_match :: sink_match where
  "admin_match =
    \<lparr>mclass = PipeToShell, mseverity = Deny,
     mreason = ''Administrative '' @ [CHR 0x60] @ ''patchwork'' @ [CHR 0x60]
       @ '' CLI invocation (approve / clear-taint / trust-repo-config) '' @ em_dash
       @ '' agent cannot authorize its own actions. Ask the human user to run this command in ''
       @ ''their own terminal.'',
     mpath = None, mpattern = ''admin_cli_invocation''\<rparr>"

text \<open>The indicators of one of some kinds, and a match for them when there are any.\<close>

definition of_kinds :: "indicator_kind list \<Rightarrow> indicator list \<Rightarrow> indicator list" where
  "of_kinds ks inds = filter (\<lambda>i. ikind i \<in> set ks) inds"

definition match_if_any :: "sink_class \<Rightarrow> indicator list \<Rightarrow> string \<Rightarrow> bool \<Rightarrow> sink_match list" where
  "match_if_any cls inds prefix tainted =
    (if inds \<noteq> [] then [makeMatch cls inds prefix tainted] else [])"

definition egress_names :: "indicator_kind list \<Rightarrow> string list" where
  "egress_names kinds = map indicator_name (filter (\<lambda>k. k \<in> set EGRESS_KINDS) kinds)"

definition inline_eval_match :: "indicator list \<Rightarrow> indicator_kind list \<Rightarrow> bool \<Rightarrow> sink_match list" where
  "inline_eval_match inds kinds tainted =
    (if InterpreterInlineEval \<in> set kinds \<and> FetchTool \<in> set kinds
     then [makeMatch InterpreterEvalWithNetwork (of_kinds [InterpreterInlineEval, FetchTool] inds)
             ''Network fetch alongside inline interpreter eval'' tainted]
     else [])"

definition secret_egress_match :: "indicator list \<Rightarrow> indicator_kind list \<Rightarrow> bool \<Rightarrow> sink_match list" where
  "secret_egress_match inds kinds tainted =
    (if SecretPath \<in> set kinds \<and> egress_names kinds \<noteq> []
     then [makeMatch DirectSecretToNetwork (of_kinds (SecretPath # EGRESS_KINDS) inds)
             (''Secret-class path combined with egress ('' @ join '', '' (egress_names kinds) @ '')'')
             tainted]
     else [])"

definition env_dump_match :: "parsed_command \<Rightarrow> indicator_kind list \<Rightarrow> bool \<Rightarrow> sink_match list" where
  "env_dump_match root kinds tainted =
    (if treeHasEnvDump root \<and> egress_names kinds \<noteq> []
     then
       (let prefix = ''Environment-dump command piped to egress (''
                     @ join '', '' (egress_names kinds) @ '')'' in
        [\<lparr>mclass = DirectSecretToNetwork, mseverity = severityFor tainted,
          mreason = (if tainted then prefix @ '' under active taint '' @ em_dash @ '' refusing''
                     else prefix @ '' '' @ em_dash @ '' approval required''),
          mpath = None, mpattern = ''env_dump+'' @ join ''+'' (sort (egress_names kinds))\<rparr>])
     else [])"

definition classifyDangerousShellCombos ::
  "cli_env \<Rightarrow> parsed_command \<Rightarrow> bool \<Rightarrow> sink_match list" where
  "classifyDangerousShellCombos e root tainted =
    (let inds = collect_all root; kinds = collect_kinds root in
     (if treeHasAdminCliInvocation e root then [admin_match] else [])
     @ match_if_any PipeToShell (of_kinds [PipeToInterpreter, ProcessSubToInterpreter] inds)
         ''Shell content piped or process-substituted into an interpreter'' tainted
     @ inline_eval_match inds kinds tainted
     @ secret_egress_match inds kinds tainted
     @ env_dump_match root kinds tainted
     @ match_if_any PipeToShell (of_kinds [GitRemoteMutate] inds)
         ''Git remote mutation (push/remote add/fetch with custom URL)'' tainted
     @ match_if_any PackageLifecycleSink (of_kinds [PackageLifecycle] inds)
         ''Package-manager install can execute lifecycle scripts'' tainted)"

section \<open>Facts\<close>

lemma set_collect_all: "set (collect_all root) = (\<Union>n \<in> set (nodes root). set (sink_indicators n))"
  by (simp add: collect_all_def)

lemma set_collect_kinds: "set (collect_kinds root) = ikind ` set (collect_all root)"
  by (simp add: collect_kinds_def)

lemma treeHasAdmin_iff:
  "treeHasAdminCliInvocation e root \<longleftrightarrow> (\<exists>n \<in> set (nodes root). isAdminCliInvocation e n)"
  by (simp add: treeHasAdminCliInvocation_def list_ex_iff)

lemma treeHasEnvDump_iff: "treeHasEnvDump root \<longleftrightarrow> (\<exists>n \<in> set (nodes root). isEnvDump n)"
  by (simp add: treeHasEnvDump_def list_ex_iff)

lemma mseverity_makeMatch [simp]: "mseverity (makeMatch c i p t) = severityFor t"
  by (simp add: makeMatch_def Let_def)

lemma mclass_makeMatch [simp]: "mclass (makeMatch c i p t) = c"
  by (simp add: makeMatch_def Let_def)

lemma of_kinds_Nil_iff: "of_kinds ks inds = [] \<longleftrightarrow> (\<forall>i \<in> set inds. ikind i \<notin> set ks)"
  by (auto simp: of_kinds_def filter_empty_conv)

lemma egress_names_Nil_iff: "egress_names ks = [] \<longleftrightarrow> set ks \<inter> set EGRESS_KINDS = {}"
  by (auto simp: egress_names_def filter_empty_conv)

text \<open>
  Every match is the administrative one or carries the severity of the taint; only the text and
  the severity of a match depend on the taint, not whether it is there.
\<close>

lemma combos_severity:
  "m \<in> set (classifyDangerousShellCombos e root tainted)
   \<Longrightarrow> m = admin_match \<or> mseverity m = severityFor tainted"
  by (auto simp: classifyDangerousShellCombos_def Let_def match_if_any_def inline_eval_match_def
      secret_egress_match_def env_dump_match_def split: if_splits)

lemma combos_classes:
  "map mclass (classifyDangerousShellCombos e root tainted)
   = map mclass (classifyDangerousShellCombos e root tainted')"
  by (simp add: classifyDangerousShellCombos_def Let_def match_if_any_def inline_eval_match_def
      secret_egress_match_def env_dump_match_def)

lemma combos_Nil_iff:
  "classifyDangerousShellCombos e root tainted = [] \<longleftrightarrow>
     \<not> treeHasAdminCliInvocation e root
     \<and> (\<forall>i \<in> set (collect_all root). ikind i \<notin> {PipeToInterpreter, ProcessSubToInterpreter,
          GitRemoteMutate, PackageLifecycle})
     \<and> \<not> (InterpreterInlineEval \<in> set (collect_kinds root) \<and> FetchTool \<in> set (collect_kinds root))
     \<and> ((SecretPath \<in> set (collect_kinds root) \<or> treeHasEnvDump root)
        \<longrightarrow> set (collect_kinds root) \<inter> set EGRESS_KINDS = {})"
  by (auto simp: classifyDangerousShellCombos_def Let_def match_if_any_def inline_eval_match_def
      secret_egress_match_def env_dump_match_def of_kinds_Nil_iff egress_names_Nil_iff)

lemma admin_in_combos:
  "treeHasAdminCliInvocation e root \<Longrightarrow> admin_match \<in> set (classifyDangerousShellCombos e root t)"
  by (simp add: classifyDangerousShellCombos_def Let_def)

end
