(* ===== verification/TaintSnapshot.thy ===== *)
theory TaintSnapshot
  imports SinkTypes
begin

text \<open>
  The taint engine, \<^verbatim>\<open>packages/core/src/taint/snapshot.ts\<close>: every operation returns a new
  snapshot. A lookup in the table of generated files is a lookup in a plain object with a path
  from the input, so the operations that use it can meet an inherited property and throw.
\<close>

section \<open>Operations\<close>

definition copy_source :: "taint_source \<Rightarrow> taint_source" where
  "copy_source s = \<lparr>sts = sts s, sref = sref s, shash = shash s, scleared = scleared s\<rparr>"

definition cloneSnapshot :: "taint_snapshot \<Rightarrow> taint_snapshot" where
  "cloneSnapshot s =
    \<lparr>session_id = session_id s,
     by_kind = map (\<lambda>(k, ss). (k, map copy_source ss)) (by_kind s),
     generated_files = map (\<lambda>(p, ss). (p, map copy_source ss)) (generated_files s)\<rparr>"

definition createSnapshot :: "string \<Rightarrow> taint_snapshot" where
  "createSnapshot sid =
    \<lparr>session_id = sid, by_kind = map (\<lambda>k. (kind_key k, [])) ALL_TAINT_KINDS, generated_files = []\<rparr>"

text \<open>\<open>snapshot.by_kind[kind] ?? []\<close>.\<close>

definition sources :: "taint_snapshot \<Rightarrow> taint_kind \<Rightarrow> taint_source list" where
  "sources s k = (case map_of (by_kind s) (kind_key k) of None \<Rightarrow> [] | Some ss \<Rightarrow> ss)"

definition set_sources ::
  "taint_kind \<Rightarrow> taint_source list \<Rightarrow> taint_snapshot \<Rightarrow> taint_snapshot" where
  "set_sources k ss s = s\<lparr>by_kind := obj_set (kind_key k) ss (by_kind s)\<rparr>"

definition active :: "taint_source \<Rightarrow> bool" where
  "active src \<longleftrightarrow> scleared src = None"

definition registerTaint ::
  "taint_snapshot \<Rightarrow> taint_kind \<Rightarrow> taint_source \<Rightarrow> taint_snapshot result" where
  "registerTaint s k src =
    (if scleared src \<noteq> None
     then Inl (Thrown ''registerTaint: cleared field is reserved for clearTaint'')
     else (let next' = cloneSnapshot s in
           Inr (set_sources k (sources next' k @ [copy_source src]) next')))"

text \<open>\<open>snapshot.generated_files[path]\<close>: an own entry, an inherited value, or undefined.\<close>

datatype 'v lookup = Own 'v | Inherited | Undefined

definition files_at :: "taint_snapshot \<Rightarrow> string \<Rightarrow> taint_source list lookup" where
  "files_at s p =
    (case map_of (generated_files s) p of
       Some ss \<Rightarrow> Own ss
     | None \<Rightarrow> if p \<in> set inherited_names then Inherited else Undefined)"

definition strip_cleared :: "taint_source \<Rightarrow> taint_source" where
  "strip_cleared s = s\<lparr>scleared := None\<rparr>"

definition upstream_of :: "taint_source list \<Rightarrow> taint_source list" where
  "upstream_of ss = map strip_cleared (filter active ss)"

definition registerGeneratedFile ::
  "taint_snapshot \<Rightarrow> string \<Rightarrow> taint_source list \<Rightarrow> taint_snapshot result" where
  "registerGeneratedFile s path ups =
    (let next' = cloneSnapshot s; filtered = upstream_of ups;
         store = (\<lambda>existing.
           set_sources GeneratedFile
             (sources next' GeneratedFile @ map (\<lambda>u. u\<lparr>sref := path\<rparr>) filtered)
             (next'\<lparr>generated_files := obj_set path (existing @ filtered) (generated_files next')\<rparr>))
     in case files_at next' path of
          Own existing \<Rightarrow> Inr (store existing)
        | Inherited \<Rightarrow> Inl (TypeError ''existing is not iterable'')
        | Undefined \<Rightarrow> Inr (store []))"

record clear_options =
  omethod :: clear_method
  ots :: int
  oallow_secret :: bool

definition mark_cleared :: "taint_kind \<Rightarrow> int \<Rightarrow> clear_method \<Rightarrow> taint_source \<Rightarrow> taint_source" where
  "mark_cleared k ts m src = src\<lparr>scleared := Some \<lparr>cts = ts, cmethod = m, cscope = [k]\<rparr>\<rparr>"

definition clearTaint ::
  "taint_snapshot \<Rightarrow> taint_kind \<Rightarrow> clear_options \<Rightarrow> taint_snapshot result" where
  "clearTaint s k opts =
    (if k = Secret \<and> \<not> oallow_secret opts
     then Inl (Thrown ''clearTaint: secret kind requires allowSecretClear=true'')
     else (let next' = cloneSnapshot s in
           Inr (set_sources k
                  (map (\<lambda>src. if active src then mark_cleared k (ots opts) (omethod opts) src
                              else src) (sources next' k)) next')))"

definition forgetGeneratedFile ::
  "taint_snapshot \<Rightarrow> string \<Rightarrow> int \<Rightarrow> clear_method \<Rightarrow> taint_snapshot" where
  "forgetGeneratedFile s path ts m =
    (let next' = cloneSnapshot s;
         next'' = next'\<lparr>generated_files := filter (\<lambda>(p, ss). p \<noteq> path) (generated_files next')\<rparr>
     in set_sources GeneratedFile
          (map (\<lambda>src. if sref src = path \<and> active src then mark_cleared GeneratedFile ts m src
                      else src) (sources next'' GeneratedFile)) next'')"

definition hasKind :: "taint_snapshot \<Rightarrow> taint_kind \<Rightarrow> bool" where
  "hasKind s k \<longleftrightarrow> list_ex active (sources s k)"

definition hasAnyTaint :: "taint_snapshot \<Rightarrow> bool" where
  "hasAnyTaint s \<longleftrightarrow> list_ex (hasKind s) ALL_TAINT_KINDS"

definition getActiveSources :: "taint_snapshot \<Rightarrow> taint_kind \<Rightarrow> taint_source list" where
  "getActiveSources s k = filter active (sources s k)"

definition getAllSources :: "taint_snapshot \<Rightarrow> taint_kind \<Rightarrow> taint_source list" where
  "getAllSources s k = sources s k"

text \<open>
  The \<open>length\<close> of an inherited function is 0 for three of the names; such a lookup reads as an
  empty list, every other inherited value reaches a method it does not have.
\<close>

definition isFileGenerated :: "taint_snapshot \<Rightarrow> string \<Rightarrow> bool result" where
  "isFileGenerated s path =
    (case files_at s path of
       Own ss \<Rightarrow> Inr (ss \<noteq> [] \<and> list_ex active ss)
     | Undefined \<Rightarrow> Inr False
     | Inherited \<Rightarrow>
         if path \<in> {''toString'', ''valueOf'', ''toLocaleString''} then Inr False
         else Inl (TypeError ''sources.some is not a function''))"

definition getGeneratedFileSources :: "taint_snapshot \<Rightarrow> string \<Rightarrow> taint_source list result" where
  "getGeneratedFileSources s path =
    (case files_at s path of
       Own ss \<Rightarrow> Inr (filter active ss)
     | Undefined \<Rightarrow> Inr []
     | Inherited \<Rightarrow> Inl (TypeError ''filter is not a function''))"

section \<open>Tables\<close>

text \<open>
  \<open>RAISES_FOR_TOOL[tool] ?? []\<close>; the table is an object literal as well.
\<close>

definition RAISES_FOR_TOOL :: "string \<Rightarrow> taint_kind list lookup" where
  "RAISES_FOR_TOOL t =
    (if t = ''WebFetch'' \<or> t = ''WebSearch'' then Own [NetworkContent, Prompt]
     else if t = ''mcp:'' then Own [McpContent, Prompt]
     else if t = ''Read'' then Own [Prompt, Secret]
     else if t = ''Bash'' then Own []
     else if t \<in> {''Write'', ''Edit'', ''MultiEdit'', ''NotebookEdit''} then Own [GeneratedFile]
     else if t \<in> set inherited_names then Inherited
     else Undefined)"

definition FORCE_UNTRUSTED_PATTERNS :: "string list" where
  "FORCE_UNTRUSTED_PATTERNS =
    [''**/README*'', ''README*'', ''docs/**'', ''**/docs/**'', ''examples/**'',
     ''**/examples/**'', ''tests/fixtures/**'', ''**/tests/fixtures/**'', ''**/.changeset/*'',
     ''CHANGELOG*'', ''**/CHANGELOG*'', ''node_modules/**'', ''**/node_modules/**'',
     ''vendor/**'', ''**/vendor/**'', ''dist/**'', ''**/dist/**'', ''build/**'', ''**/build/**'']"

text \<open>
  \<open>isPathUntrustedRepo\<close>. The glob matcher is a third-party library and a parameter; the
  overridable pattern list is an argument too.
\<close>

definition isPathUntrustedRepo ::
  "(string \<Rightarrow> string \<Rightarrow> bool) \<Rightarrow> string list \<Rightarrow> string \<Rightarrow> string list \<Rightarrow> string \<Rightarrow> bool" where
  "isPathUntrustedRepo matchGlob force projectRoot trusted path \<longleftrightarrow>
    (if list_ex (matchGlob path) force then True
     else if \<not> starts_with path projectRoot then True
     else if trusted = [] then True
     else \<not> list_ex (matchGlob path) trusted)"

section \<open>Facts\<close>

lemma copy_source_id [simp]: "copy_source s = s"
  by (simp add: copy_source_def)

lemma cloneSnapshot_id [simp]: "cloneSnapshot s = s"
  by (cases s) (simp add: cloneSnapshot_def map_idI split_beta)

lemma sources_set_sources [simp]:
  "sources (set_sources k ss s) k' = (if k' = k then ss else sources s k')"
  by (simp add: sources_def set_sources_def)

lemma sources_files_update [simp]: "sources (s\<lparr>generated_files := g\<rparr>) k = sources s k"
  by (simp add: sources_def)

lemma session_set_sources [simp]: "session_id (set_sources k ss s) = session_id s"
  by (simp add: set_sources_def)

lemma generated_files_set_sources [simp]:
  "generated_files (set_sources k ss s) = generated_files s"
  by (simp add: set_sources_def)

lemma sources_createSnapshot [simp]: "sources (createSnapshot sid) k = []"
  by (cases k) (simp_all add: sources_def createSnapshot_def ALL_TAINT_KINDS_def)

lemma hasAnyTaint_iff: "hasAnyTaint s \<longleftrightarrow> (\<exists>k. hasKind s k)"
  by (simp add: hasAnyTaint_def list_ex_iff)

lemma hasKind_iff: "hasKind s k \<longleftrightarrow> (\<exists>src \<in> set (sources s k). active src)"
  by (simp add: hasKind_def list_ex_iff)

lemma active_simps [simp]:
  "\<not> active (mark_cleared k ts m src)" "active (strip_cleared src)"
  "active (src\<lparr>sref := p\<rparr>) = active src"
  by (simp_all add: active_def mark_cleared_def strip_cleared_def)

lemma upstream_of_Nil_iff: "upstream_of ss = [] \<longleftrightarrow> \<not> list_ex active ss"
  by (auto simp: upstream_of_def list_ex_iff filter_empty_conv)

lemma files_at_iff:
  "files_at s p = Own ss \<longleftrightarrow> map_of (generated_files s) p = Some ss"
  "files_at s p = Inherited \<longleftrightarrow> map_of (generated_files s) p = None \<and> p \<in> set inherited_names"
  "files_at s p = Undefined \<longleftrightarrow> map_of (generated_files s) p = None \<and> p \<notin> set inherited_names"
  by (simp_all add: files_at_def split: option.split)

end
