(* ===== verification/PreToolDecision.thy ===== *)
theory PreToolDecision
  imports ShellTypes TaintSnapshot
begin

text \<open>
  The decision composer of the PreToolUse hook,
  \<^verbatim>\<open>packages/agents/src/claude-code/pre-tool-decision.ts\<close>: the five rules in their order.
\<close>

record policy_decision =
  pd_allowed :: bool
  pd_reason :: "string option"

datatype verdict = AllowV | ApprovalV | DenyV

fun verdict_rank :: "verdict \<Rightarrow> nat" where
  "verdict_rank AllowV = 0"
| "verdict_rank ApprovalV = 1"
| "verdict_rank DenyV = 2"

instantiation verdict :: linorder
begin

definition less_eq_verdict :: "verdict \<Rightarrow> verdict \<Rightarrow> bool" where
  "a \<le> b \<longleftrightarrow> verdict_rank a \<le> verdict_rank b"

definition less_verdict :: "verdict \<Rightarrow> verdict \<Rightarrow> bool" where
  "a < b \<longleftrightarrow> verdict_rank a < verdict_rank b"

instance
proof
  fix x y :: verdict
  show "x \<le> y \<Longrightarrow> y \<le> x \<Longrightarrow> x = y"
    by (cases x; cases y) (simp_all add: less_eq_verdict_def)
qed (auto simp: less_eq_verdict_def less_verdict_def)

end

lemma verdict_order [simp]:
  "AllowV \<le> v" "v \<le> DenyV" "\<not> DenyV \<le> ApprovalV" "\<not> DenyV \<le> AllowV" "\<not> ApprovalV \<le> AllowV"
  by (cases v; simp add: less_eq_verdict_def)+

datatype rule = PolicyDeny | BashUnknownIndicatorTaint | SinkDeny | SinkApprovalRequired | DefaultAllow

fun rule_name :: "rule \<Rightarrow> string" where
  "rule_name PolicyDeny = ''policy_deny''"
| "rule_name BashUnknownIndicatorTaint = ''bash_unknown_indicator_taint''"
| "rule_name SinkDeny = ''sink_deny''"
| "rule_name SinkApprovalRequired = ''sink_approval_required''"
| "rule_name DefaultAllow = ''default_allow''"

record decision =
  dverdict :: verdict
  dreason :: string
  drule :: rule

record decision_input =
  in_policy :: policy_decision
  in_matches :: "sink_match list"
  in_command :: "parsed_command option"
  in_taint :: "taint_snapshot option"

definition collectIndicators :: "parsed_command \<Rightarrow> indicator list" where
  "collectIndicators root = concat (map sink_indicators (stack_walk [root]))"

definition hasNonHighConfidenceNode :: "parsed_command \<Rightarrow> bool" where
  "hasNonHighConfidenceNode root \<longleftrightarrow> list_ex (\<lambda>n. confidence n \<noteq> High) (stack_walk [root])"

definition firstWithSeverity :: "sink_match list \<Rightarrow> severity \<Rightarrow> sink_match option" where
  "firstWithSeverity ms s = find (\<lambda>m. mseverity m = s) ms"

text \<open>A missing snapshot reads as tainted.\<close>

definition effective_taint :: "taint_snapshot option \<Rightarrow> bool" where
  "effective_taint s = (case s of None \<Rightarrow> True | Some sn \<Rightarrow> hasAnyTaint sn)"

definition keystone :: "parsed_command option \<Rightarrow> bool \<Rightarrow> indicator list option" where
  "keystone cmd tainted =
    (case cmd of
       None \<Rightarrow> None
     | Some c \<Rightarrow>
         if tainted \<and> collectIndicators c \<noteq> [] \<and> hasNonHighConfidenceNode c
         then Some (collectIndicators c) else None)"

definition decidePreToolUse :: "decision_input \<Rightarrow> decision" where
  "decidePreToolUse i =
    (if \<not> pd_allowed (in_policy i) then
       \<lparr>dverdict = DenyV,
        dreason = (case str_or (pd_reason (in_policy i)) None of
                     Some r \<Rightarrow> r | None \<Rightarrow> ''policy denied this action''),
        drule = PolicyDeny\<rparr>
     else
       (case keystone (in_command i) (effective_taint (in_taint i)) of
          Some inds \<Rightarrow>
            \<lparr>dverdict = DenyV,
             dreason = ''Imperfectly-parsed shell with sink indicator(s) [''
               @ join '', '' (map indicator_name (uniq (map ikind inds)))
               @ ''] under active taint '' @ em_dash @ '' refusing to proceed'',
             drule = BashUnknownIndicatorTaint\<rparr>
        | None \<Rightarrow>
            (case firstWithSeverity (in_matches i) Deny of
               Some m \<Rightarrow> \<lparr>dverdict = DenyV, dreason = mreason m, drule = SinkDeny\<rparr>
             | None \<Rightarrow>
                 (case firstWithSeverity (in_matches i) ApprovalRequired of
                    Some m \<Rightarrow>
                      \<lparr>dverdict = ApprovalV, dreason = mreason m, drule = SinkApprovalRequired\<rparr>
                  | None \<Rightarrow>
                      \<lparr>dverdict = AllowV, dreason = ''no rule blocks this action'',
                       drule = DefaultAllow\<rparr>))))"

section \<open>Facts\<close>

lemma firstWithSeverity_None_iff:
  "firstWithSeverity ms s = None \<longleftrightarrow> (\<forall>m \<in> set ms. mseverity m \<noteq> s)"
  by (auto simp: firstWithSeverity_def find_None_iff)

lemma collectIndicators_Nil_iff:
  "collectIndicators c = [] \<longleftrightarrow> (\<forall>n \<in> set (nodes c). sink_indicators n = [])"
  by (simp add: collectIndicators_def)

lemma hasNonHigh_iff: "hasNonHighConfidenceNode c \<longleftrightarrow> (\<exists>n \<in> set (nodes c). confidence n \<noteq> High)"
  by (simp add: hasNonHighConfidenceNode_def list_ex_iff)

lemma keystone_None_iff:
  "keystone cmd t = None \<longleftrightarrow>
     \<not> (t \<and> (\<exists>c. cmd = Some c \<and> (\<exists>n \<in> set (nodes c). sink_indicators n \<noteq> [])
           \<and> (\<exists>n \<in> set (nodes c). confidence n \<noteq> High)))"
  by (auto simp: keystone_def collectIndicators_Nil_iff hasNonHigh_iff split: option.split)

text \<open>The conditions of the verdicts.\<close>

definition keystone_fires :: "decision_input \<Rightarrow> bool" where
  "keystone_fires i \<longleftrightarrow>
    effective_taint (in_taint i)
    \<and> (\<exists>c. in_command i = Some c \<and> (\<exists>n \<in> set (nodes c). sink_indicators n \<noteq> [])
         \<and> (\<exists>n \<in> set (nodes c). confidence n \<noteq> High))"

lemma keystone_fires_iff:
  "keystone_fires i \<longleftrightarrow> keystone (in_command i) (effective_taint (in_taint i)) \<noteq> None"
  unfolding keystone_None_iff keystone_fires_def by blast

lemma verdict_deny_iff:
  "dverdict (decidePreToolUse i) = DenyV \<longleftrightarrow>
     \<not> pd_allowed (in_policy i) \<or> keystone_fires i \<or> (\<exists>m \<in> set (in_matches i). mseverity m = Deny)"
  using firstWithSeverity_None_iff [of "in_matches i" Deny]
  by (auto simp: decidePreToolUse_def keystone_fires_iff split: option.split)

lemma verdict_allow_iff:
  "dverdict (decidePreToolUse i) = AllowV \<longleftrightarrow>
     pd_allowed (in_policy i) \<and> \<not> keystone_fires i
     \<and> (\<forall>m \<in> set (in_matches i). mseverity m = Advisory)"
proof -
  have "(\<forall>m \<in> set ms. mseverity m = Advisory) \<longleftrightarrow>
      firstWithSeverity ms Deny = None \<and> firstWithSeverity ms ApprovalRequired = None" for ms
    unfolding firstWithSeverity_None_iff by (metis severity.distinct severity.exhaust)
  then show ?thesis
    by (auto simp: decidePreToolUse_def keystone_fires_iff split: option.split)
qed

end
