(* ===== verification/ShellProperties.thy ===== *)
theory ShellProperties
  imports ShellQuoting ShellCombos PreToolDecision
begin

text \<open>
  What the recognizer, the classifier of dangerous combinations and the decision composer show
  together: the tree of a pipeline of quoted commands, the confidence of a root, and the flags
  that a pipe into an interpreter and an administrative command raise.
\<close>

section \<open>Pipelines of quoted commands\<close>

lemma quoted_root:
  assumes "list_all plain_argv (ws # wss)"
  obtains root nds where "parseShellCommand (quote_pipeline (ws # wss)) = Inr root"
    and "list_all2 plain_node (ws # wss) nds"
    and "wss = [] \<Longrightarrow> nds = [root]"
    and "wss \<noteq> [] \<Longrightarrow> root = pipe_node nds (rawFromTokens (pipe_tokens (ws # wss)))"
proof -
  obtain nds where root: "parseShellCommand (quote_pipeline (ws # wss))
     = Inr (if length nds = 1 then hd nds
            else pipe_node nds (rawFromTokens (pipe_tokens (ws # wss))))"
    and nds: "list_all2 plain_node (ws # wss) nds"
    by (rule parse_quoted_pipeline [OF assms])
  have "length nds = Suc (length wss)" using list_all2_lengthD [OF nds] by simp
  then show thesis using that [OF root nds] by (cases wss; cases nds) auto
qed

lemma plain_node_argv: "list_all2 plain_node wss nds \<Longrightarrow> map argv nds = map Some wss"
  by (induction rule: list_all2_induct) (auto simp: plain_node_def)

lemma plain_node_High: "list_all2 plain_node wss nds \<Longrightarrow> nd \<in> set nds \<Longrightarrow> confidence nd = High"
  by (auto simp: plain_node_def list_all2_conv_all_nth in_set_conv_nth)

lemma foldl_High: "\<forall>c \<in> set cs. c = High \<Longrightarrow> foldl downgrade High cs = High"
  by (induction cs) (simp_all add: downgrade_def)

lemma pipe_node_High:
  "(\<And>nd. nd \<in> set nds \<Longrightarrow> confidence nd = High) \<Longrightarrow> confidence (pipe_node nds raw) = High"
  by (simp add: mergeConfidence_def foldl_High)

lemma parse_error_set_failure: "parse_error (set_failure c e n) = Some e"
  by (cases n) simp

lemma downgrade_Unknown: "downgrade c Unknown = Unknown"
  by (cases c) (simp_all add: downgrade_def)

text \<open>The stages of a pipeline in the tree: the root itself or its children.\<close>

definition stages :: "parsed_command \<Rightarrow> parsed_command list" where
  "stages root = (if pop root = Some OpPipe then children root else [root])"

lemma quoted_stages:
  assumes "list_all plain_argv (ws # wss)"
  obtains root where "parseShellCommand (quote_pipeline (ws # wss)) = Inr root"
    and "list_all2 plain_node (ws # wss) (stages root)" and "confidence root = High"
    and "set (stages root) \<subseteq> set (nodes root)"
    and "wss \<noteq> [] \<Longrightarrow> set (combineChildrenIndicators root) \<subseteq> set (sink_indicators root)
           \<and> pop root = Some OpPipe"
proof -
  obtain root nds where p: "parseShellCommand (quote_pipeline (ws # wss)) = Inr root"
    and nds: "list_all2 plain_node (ws # wss) nds" and one: "wss = [] \<Longrightarrow> nds = [root]"
    and more: "wss \<noteq> [] \<Longrightarrow> root = pipe_node nds (rawFromTokens (pipe_tokens (ws # wss)))"
    using quoted_root [OF assms] by blast
  note high = plain_node_High [OF nds]
  show thesis
  proof (cases "wss = []")
    case True
    with nds one have "plain_node ws root" by simp
    then have "stages root = [root]" by (simp add: stages_def plain_node_def)
    with nds one True have "list_all2 plain_node (ws # wss) (stages root)"
      "set (stages root) \<subseteq> set (nodes root)" by auto
    with True p one high show thesis by (intro that) simp_all
  next
    case False
    note root = more [OF this]
    have st: "stages root = nds" "pop root = Some OpPipe" "confidence root = High"
      by (simp_all add: stages_def root pipe_node_High high del: pipe_node_sel(3))
    have "set nds \<subseteq> set (nodes root)"
      using child_in_nodes [of _ root] unfolding root by auto
    moreover have "set (combineChildrenIndicators root) \<subseteq> set (sink_indicators root)"
      unfolding root pipe_node_def by (auto simp: combineChildrenIndicators_def head_is_interpreter_def argv_list_def)
    ultimately show thesis
      using p nds st by (intro that) simp_all
  qed
qed

section \<open>Properties\<close>

text \<open>
  A pipeline of commands whose words are quoted is read back word for word: the recognizer
  returns a tree of high confidence whose stages have exactly the quoted words as their argv.
\<close>

theorem quoted_pipeline_argv:
  assumes "list_all plain_argv (ws # wss)"
  shows "\<exists>root. parseShellCommand (quote_pipeline (ws # wss)) = Inr root \<and> confidence root = High
     \<and> map argv (stages root) = map Some (ws # wss)"
  using quoted_stages [OF assms] plain_node_argv by metis

lemma quoted_pipeline_argv_witness:
  "list_all plain_argv [[''echo'', ''it'' @ [CHR 0x27] @ ''s''], [''wc'', ''-l'']]
   \<and> (\<exists>root. parseShellCommand (quote_pipeline [[''echo'', ''it'' @ [CHR 0x27] @ ''s''], [''wc'', ''-l'']])
          = Inr root \<and> confidence root = High
        \<and> map argv (stages root) = [Some [''echo'', ''it'' @ [CHR 0x27] @ ''s''], Some [''wc'', ''-l'']])"
proof -
  have "list_all plain_argv [[''echo'', ''it'' @ [CHR 0x27] @ ''s''], [''wc'', ''-l'']]" by code_simp
  from this quoted_pipeline_argv [OF this] show ?thesis by simp
qed

text \<open>
  The one number the enforcement reads off a tree suffices: some node of a parsed command has
  less than high confidence exactly when its root has.
\<close>

theorem root_confidence:
  assumes "parseShellCommand s = Inr root"
  shows "hasNonHighConfidenceNode root \<longleftrightarrow> confidence root \<noteq> High"
  unfolding hasNonHigh_iff
  by (rule root_confidence_decides) (rule solidity.parseShellCommand_ok [OF assms])

lemma root_confidence_witness:
  "\<exists>root. parseShellCommand (quote_pipeline [[''ls'']]) = Inr root \<and> \<not> hasNonHighConfidenceNode root"
proof -
  have "list_all plain_argv [[''ls'']]" by code_simp
  then obtain root where "parseShellCommand (quote_pipeline [[''ls'']]) = Inr root" "confidence root = High"
    using quoted_stages by metis
  with root_confidence [of _ root] show ?thesis by blast
qed

text \<open>
  A lexical error is never silent: the root of a command with one has unknown confidence and
  carries an error text.
\<close>

theorem lexer_errors_visible:
  assumes "parseShellCommand s = Inr root" and "snd (tokenize s) \<noteq> []"
  shows "confidence root = Unknown \<and> parse_error root \<noteq> None"
proof -
  have "s \<noteq> []" using assms(2) by (auto simp: tokenize_def lex_run_done)
  with assms show ?thesis
    by (auto simp: parseShellCommand_def Let_def downgrade_Unknown bind_result_eq_Inr
        parse_error_set_failure split: if_splits)
qed

lemma lexer_errors_visible_witness:
  "\<exists>root. parseShellCommand (''echo '' @ [CHR 0x27] @ ''x'') = Inr root \<and> confidence root = Unknown"
proof -
  have e: "snd (tokenize (''echo '' @ [CHR 0x27] @ ''x'')) \<noteq> []" by code_simp
  have "case parseShellCommand (''echo '' @ [CHR 0x27] @ ''x'') of Inr r \<Rightarrow> True | Inl x \<Rightarrow> False" by code_simp
  then obtain root where r: "parseShellCommand (''echo '' @ [CHR 0x27] @ ''x'') = Inr root" by (auto split: sum.splits)
  with lexer_errors_visible [OF r e] show ?thesis by blast
qed

lemma piped_flagged:
  assumes "list_all plain_argv (ws # wss)" and "wss \<noteq> []"
    and "last_segment (to_lower (hd (last wss))) \<in> set INTERPRETER_NAMES"
  shows "\<exists>root m. parseShellCommand (quote_pipeline (ws # wss)) = Inr root
     \<and> m \<in> set (classifyDangerousShellCombos e root tainted)
     \<and> mclass m = PipeToShell \<and> mseverity m = severityFor tainted"
proof -
  obtain root where root: "parseShellCommand (quote_pipeline (ws # wss)) = Inr root"
    and st: "list_all2 plain_node (ws # wss) (stages root)"
    and inds: "set (combineChildrenIndicators root) \<subseteq> set (sink_indicators root)"
    and pipe: "pop root = Some OpPipe"
    using quoted_stages [OF assms(1)] assms(2) by metis
  have ch: "children root = stages root" by (simp add: stages_def pipe)
  have len: "length (children root) = Suc (length wss)"
    using list_all2_lengthD [OF st] by (simp add: ch)
  then have two: "2 \<le> length (children root)" using assms(2) by (cases wss) simp_all
  have "argv (last (children root)) = last (map argv (stages root))"
    using len by (subst last_map) (auto simp: ch)
  also have "\<dots> = Some (last wss)"
    unfolding plain_node_argv [OF st] using assms(2) by (simp add: last_map)
  finally have "argv (last (children root)) = Some (last wss)" .
  moreover have "last wss \<noteq> []"
    using assms(1,2) by (auto simp: list_all_iff plain_argv_def)
  ultimately have "head_is_interpreter (last (children root))"
    using assms(3) by (cases "last wss") (simp_all add: head_is_interpreter_def)
  with inds pipe two
  obtain i where "i \<in> set (sink_indicators root)" "ikind i = PipeToInterpreter"
    by (auto simp: combineChildrenIndicators_def Let_def)
  then have "of_kinds [PipeToInterpreter, ProcessSubToInterpreter] (collect_all root) \<noteq> []"
    using root_in_nodes [of root] by (auto simp: of_kinds_Nil_iff set_collect_all)
  then obtain m where "m \<in> set (classifyDangerousShellCombos e root tainted)"
    "mclass m = PipeToShell" "mseverity m = severityFor tainted"
    unfolding classifyDangerousShellCombos_def Let_def match_if_any_def
    by (simp only: if_True simp_thms append_Cons append_Nil set_append Un_iff list.set_intros)
      (metis mclass_makeMatch mseverity_makeMatch list.set_intros(1))
  with root show ?thesis by blast
qed

text \<open>
  A pipeline of quoted commands that ends in a shell interpreter is always classified as
  content piped into a shell, refused under taint and held for approval otherwise.
\<close>

theorem piped_interpreter_flagged:
  assumes "list_all plain_argv (ws # wss)" and "wss \<noteq> []"
    and "last_segment (to_lower (hd (last wss))) \<in> set INTERPRETER_NAMES"
  shows "\<exists>root m. parseShellCommand (quote_pipeline (ws # wss)) = Inr root
     \<and> m \<in> set (classifyDangerousShellCombos e root tainted)
     \<and> mclass m = PipeToShell \<and> mseverity m = severityFor tainted"
  by (rule piped_flagged [OF assms])

lemma piped_interpreter_flagged_witness:
  "\<exists>root m. parseShellCommand (quote_pipeline [[''curl'', ''x.sh''], [''/bin/BASH'']]) = Inr root
     \<and> m \<in> set (classifyDangerousShellCombos \<lparr>env_candidate = None, env_realpath = (\<lambda>p. None)\<rparr> root True)
     \<and> mclass m = PipeToShell \<and> mseverity m = Deny"
proof -
  have p: "list_all plain_argv [[''curl'', ''x.sh''], [''/bin/BASH'']]" by code_simp
  have l: "last_segment (to_lower (hd (last [[''/bin/BASH'']]))) \<in> set INTERPRETER_NAMES"
    by code_simp
  from piped_interpreter_flagged [OF p _ l, of _ True] show ?thesis by (simp add: severityFor_def)
qed

lemma admin_denied:
  assumes "list_all plain_argv wss" and "ws \<in> set wss"
    and "basenameOf (hd ws) = ''patchwork''" and "length ws \<ge> 2" and "ws ! 1 \<in> set ADMIN_CLI_VERBS"
  shows "\<exists>root. parseShellCommand (quote_pipeline wss) = Inr root
     \<and> (\<forall>i. set (classifyDangerousShellCombos e root t) \<subseteq> set (in_matches i)
          \<longrightarrow> dverdict (decidePreToolUse i) = DenyV)"
proof -
  obtain v vs where wss: "wss = v # vs" using assms(2) by (cases wss) auto
  obtain root where root: "parseShellCommand (quote_pipeline wss) = Inr root"
    and st: "list_all2 plain_node wss (stages root)"
    and sub: "set (stages root) \<subseteq> set (nodes root)"
    using quoted_stages [of v vs] assms(1) unfolding wss by metis
  obtain nd where nd: "nd \<in> set (stages root)" "plain_node ws nd"
    using st assms(2) by (metis in_set_conv_nth list_all2_conv_all_nth)
  obtain h rest where ws: "ws = h # ws ! 1 # rest" using assms(4) by (cases ws; cases "tl ws") auto
  have "basenameOf h = ''patchwork''" using assms(3) by (subst (asm) ws) simp
  moreover have "basenameOf m \<noteq> ''patchwork''" if "m \<in> set MODIFIER_HEADS" for m
    using that by (auto simp: MODIFIER_HEADS_def) code_simp+
  ultimately have "peelModifierFlags ws (Some (hd ws)) = ws"
    by (subst (2) ws, subst ws) (auto simp: peelModifierFlags_def)
  then have "isAdminCliInvocation e nd"
    using nd(2) assms(3,5) ws
    by (auto simp: isAdminCliInvocation_def plain_node_def isPatchworkExecutable_def split: list.split)
  then have "admin_match \<in> set (classifyDangerousShellCombos e root t)"
    using nd(1) sub by (intro admin_in_combos) (auto simp: treeHasAdmin_iff)
  then show ?thesis
    using root by (auto simp: verdict_deny_iff admin_match_def intro!: bexI [of _ admin_match])
qed

text \<open>
  An administrative command of the tool itself, quoted anywhere in a pipeline, is refused: with
  the matches of the classifier in its input, the composer answers deny whatever the policy, the
  taint and the other matches are.
\<close>

theorem admin_command_denied:
  assumes "list_all plain_argv wss" and "ws \<in> set wss"
    and "basenameOf (hd ws) = ''patchwork''" and "length ws \<ge> 2" and "ws ! 1 \<in> set ADMIN_CLI_VERBS"
  shows "\<exists>root. parseShellCommand (quote_pipeline wss) = Inr root
     \<and> (\<forall>i. set (classifyDangerousShellCombos e root t) \<subseteq> set (in_matches i)
          \<longrightarrow> dverdict (decidePreToolUse i) = DenyV)"
  by (rule admin_denied [OF assms])

lemma admin_command_denied_witness:
  "\<exists>root. parseShellCommand (quote_pipeline [[''/usr/bin/patchwork'', ''approve'', ''1f'']]) = Inr root
     \<and> dverdict (decidePreToolUse \<lparr>in_policy = \<lparr>pd_allowed = True, pd_reason = None\<rparr>,
          in_matches = classifyDangerousShellCombos \<lparr>env_candidate = None, env_realpath = (\<lambda>p. None)\<rparr>
            root False,
          in_command = Some root, in_taint = Some (createSnapshot ''s'')\<rparr>) = DenyV"
proof -
  have p: "list_all plain_argv [[''/usr/bin/patchwork'', ''approve'', ''1f'']]" by code_simp
  let ?ws = "[''/usr/bin/patchwork'', ''approve'', ''1f'']"
  have "basenameOf (hd ?ws) = ''patchwork''" "?ws ! 1 \<in> set ADMIN_CLI_VERBS" by code_simp+
  then obtain root where "parseShellCommand (quote_pipeline [?ws]) = Inr root"
    and d: "\<And>i. set (classifyDangerousShellCombos
        \<lparr>env_candidate = None, env_realpath = (\<lambda>p. None)\<rparr> root False) \<subseteq> set (in_matches i)
      \<Longrightarrow> dverdict (decidePreToolUse i) = DenyV"
    using admin_command_denied [OF p, of ?ws "\<lparr>env_candidate = None, env_realpath = (\<lambda>p. None)\<rparr>" False]
    by force
  then show ?thesis by (intro exI [of _ root] conjI d) simp_all
qed

end
