(* ===== verification/TaintEngine.thy ===== *)
theory TaintEngine
  imports TaintSnapshot
begin

text \<open>
  The taint engine as a state machine over its four updates, and what it promises: the set of
  active kinds is the abstract state, and the list of a kind's sources is an audit trail that only
  grows, in which a source changes at most once, by being marked as cleared.
\<close>

datatype taint_op =
    Register taint_kind taint_source
  | Generate string "taint_source list"
  | Clear taint_kind clear_options
  | Forget string int clear_method

fun apply_op :: "taint_op \<Rightarrow> taint_snapshot \<Rightarrow> taint_snapshot result" where
  "apply_op (Register k src) s = registerTaint s k src"
| "apply_op (Generate p ups) s = registerGeneratedFile s p ups"
| "apply_op (Clear k opts) s = clearTaint s k opts"
| "apply_op (Forget p ts m) s = Inr (forgetGeneratedFile s p ts m)"

text \<open>A sequence of calls by callers that survive a throw; a call that throws changes nothing.\<close>

inductive taint_run :: "taint_snapshot \<Rightarrow> taint_op list \<Rightarrow> taint_snapshot \<Rightarrow> bool" where
  run_done: "taint_run s [] s"
| run_call: "apply_op p s = Inr s' \<Longrightarrow> taint_run s' ps t \<Longrightarrow> taint_run s (p # ps) t"
| run_throw: "apply_op p s = Inl e \<Longrightarrow> taint_run s ps t \<Longrightarrow> taint_run s (p # ps) t"

code_pred (modes: i \<Rightarrow> i \<Rightarrow> o \<Rightarrow> bool) taint_run .

inductive_cases taint_run_ConsE: "taint_run s (p # ps) t"

section \<open>The active kinds\<close>

definition active_kinds :: "taint_snapshot \<Rightarrow> taint_kind set" where
  "active_kinds s = {k. hasKind s k}"

text \<open>The abstract machine; forgetting a file may or may not drop the kind.\<close>

fun abs_op :: "taint_op \<Rightarrow> taint_kind set \<Rightarrow> taint_kind set set" where
  "abs_op (Register k src) A = {insert k A}"
| "abs_op (Generate p ups) A = {if list_ex active ups then insert GeneratedFile A else A}"
| "abs_op (Clear k opts) A = {A - {k}}"
| "abs_op (Forget p ts m) A = {A, A - {GeneratedFile}}"

lemma hasKind_set_sources:
  "hasKind (set_sources k ss s) k' \<longleftrightarrow> (if k' = k then list_ex active ss else hasKind s k')"
  by (simp add: hasKind_def)

lemma hasKind_files_update [simp]: "hasKind (s\<lparr>generated_files := g\<rparr>) k = hasKind s k"
  by (simp add: hasKind_def)

lemma registerTaint_eq:
  "registerTaint s k src = Inr s' \<longleftrightarrow>
     active src \<and> s' = set_sources k (sources s k @ [src]) s"
  by (auto simp: registerTaint_def Let_def active_def)

lemma registerGeneratedFile_eq:
  "registerGeneratedFile s p ups = Inr s' \<longleftrightarrow>
     files_at s p \<noteq> Inherited
     \<and> s' = set_sources GeneratedFile
         (sources s GeneratedFile @ map (\<lambda>u. u\<lparr>sref := p\<rparr>) (upstream_of ups))
         (s\<lparr>generated_files :=
             obj_set p ((case files_at s p of Own ss \<Rightarrow> ss | _ \<Rightarrow> []) @ upstream_of ups)
               (generated_files s)\<rparr>)"
  by (auto simp: registerGeneratedFile_def Let_def split: lookup.split)

lemma clearTaint_eq:
  "clearTaint s k opts = Inr s' \<longleftrightarrow>
     (k = Secret \<longrightarrow> oallow_secret opts)
     \<and> s' = set_sources k (map (\<lambda>src. if active src
           then mark_cleared k (ots opts) (omethod opts) src else src) (sources s k)) s"
  by (auto simp: clearTaint_def Let_def)

lemma forgetGeneratedFile_eq:
  "forgetGeneratedFile s p ts m =
     set_sources GeneratedFile
       (map (\<lambda>src. if sref src = p \<and> active src then mark_cleared GeneratedFile ts m src
                   else src) (sources s GeneratedFile))
       (s\<lparr>generated_files := filter (\<lambda>(q, ss). q \<noteq> p) (generated_files s)\<rparr>)"
  by (simp add: forgetGeneratedFile_def Let_def)

lemmas op_eqs = registerTaint_eq registerGeneratedFile_eq clearTaint_eq forgetGeneratedFile_eq

lemma apply_op_refines:
  assumes "apply_op p s = Inr s'"
  shows "active_kinds s' \<in> abs_op p (active_kinds s)"
proof (cases p)
  case (Register k src)
  with assms show ?thesis
    by (auto simp: op_eqs active_kinds_def hasKind_set_sources list_ex_iff hasKind_iff)
next
  case (Generate q ups)
  have "list_ex active (map (\<lambda>u. u\<lparr>sref := q\<rparr>) (upstream_of ups)) \<longleftrightarrow> list_ex active ups"
    by (auto simp: upstream_of_def list_ex_iff)
  with assms Generate show ?thesis
    by (auto simp: op_eqs active_kinds_def hasKind_set_sources hasKind_def)
next
  case (Clear k opts)
  with assms show ?thesis
    by (auto simp: op_eqs active_kinds_def hasKind_set_sources list_ex_iff)
next
  case (Forget q ts m)
  have other: "hasKind s' k = hasKind s k" if "k \<noteq> GeneratedFile" for k
    using assms Forget that by (auto simp: op_eqs hasKind_set_sources)
  have gen: "hasKind s GeneratedFile" if "hasKind s' GeneratedFile"
    using assms Forget that
    by (auto simp: op_eqs hasKind_set_sources list_ex_iff hasKind_iff split: if_splits)
  have "active_kinds s' = (if hasKind s' GeneratedFile then active_kinds s
      else active_kinds s - {GeneratedFile})"
  proof (rule set_eqI)
    fix k
    show "k \<in> active_kinds s' \<longleftrightarrow> k \<in> (if hasKind s' GeneratedFile then active_kinds s
        else active_kinds s - {GeneratedFile})"
    proof (cases "k = GeneratedFile")
      case True
      with gen show ?thesis by (simp add: active_kinds_def)
    next
      case False
      with other [OF False] show ?thesis by (simp add: active_kinds_def)
    qed
  qed
  then show ?thesis using Forget by simp
qed

text \<open>An operation that can end the activity of a kind.\<close>

fun may_clear :: "taint_kind \<Rightarrow> taint_op \<Rightarrow> bool" where
  "may_clear k (Clear k' opts) \<longleftrightarrow> k' = k \<and> (k = Secret \<longrightarrow> oallow_secret opts)"
| "may_clear k (Forget p ts m) \<longleftrightarrow> k = GeneratedFile"
| "may_clear k _ \<longleftrightarrow> False"

lemma apply_op_keeps:
  assumes "apply_op p s = Inr s'" and "hasKind s k" and "\<not> may_clear k p"
  shows "hasKind s' k"
  using apply_op_refines [OF assms(1)] assms
  by (cases p) (auto simp: active_kinds_def op_eqs split: if_splits)

lemma run_keeps:
  "taint_run s ps t \<Longrightarrow> hasKind s k \<Longrightarrow> \<forall>p \<in> set ps. \<not> may_clear k p \<Longrightarrow> hasKind t k"
  by (induction rule: taint_run.induct) (auto dest: apply_op_keeps)

section \<open>The audit trail\<close>

definition cleared_once :: "taint_source \<Rightarrow> taint_source \<Rightarrow> bool" where
  "cleared_once a b \<longleftrightarrow> b = a \<or> active a \<and> (\<exists>c. b = a\<lparr>scleared := Some c\<rparr>)"

definition trail_extends :: "taint_source list \<Rightarrow> taint_source list \<Rightarrow> bool" where
  "trail_extends ss ts \<longleftrightarrow> (\<exists>us vs. ts = us @ vs \<and> list_all2 cleared_once ss us)"

lemma cleared_once_refl [simp]: "cleared_once a a"
  by (simp add: cleared_once_def)

lemma cleared_once_trans: "cleared_once a b \<Longrightarrow> cleared_once b c \<Longrightarrow> cleared_once a c"
  by (auto simp: cleared_once_def active_def)

lemma cleared_once_mark: "active a \<Longrightarrow> cleared_once a (mark_cleared k ts m a)"
  by (auto simp: cleared_once_def mark_cleared_def)

lemma trail_extends_refl [simp]: "trail_extends ss ss"
  unfolding trail_extends_def
  by (rule exI [of _ ss], rule exI [of _ "[]"]) (simp add: list_all2_same)

lemma trail_extends_append [simp]: "trail_extends ss (ss @ us)"
  by (auto simp: trail_extends_def list_all2_same)

lemma trail_extends_map:
  "(\<And>a. a \<in> set ss \<Longrightarrow> cleared_once a (f a)) \<Longrightarrow> trail_extends ss (map f ss)"
  unfolding trail_extends_def
  by (rule exI [of _ "map f ss"], rule exI [of _ "[]"]) (simp add: list_all2_map2 list_all2_same)

lemma trail_extends_trans:
  assumes "trail_extends a b" and "trail_extends b c"
  shows "trail_extends a c"
proof -
  obtain us vs where b: "b = us @ vs" and us: "list_all2 cleared_once a us"
    using assms(1) by (auto simp: trail_extends_def)
  obtain ws xs where c: "c = ws @ xs" and ws: "list_all2 cleared_once b ws"
    using assms(2) by (auto simp: trail_extends_def)
  obtain p q where "ws = p @ q" "list_all2 cleared_once us p"
    using ws unfolding b by (auto simp: list_all2_append1)
  moreover from this us have "list_all2 cleared_once a p"
    by (rule_tac list_all2_trans [OF cleared_once_trans]) auto
  ultimately show ?thesis unfolding trail_extends_def c by auto
qed

lemma apply_op_trail:
  "apply_op p s = Inr s' \<Longrightarrow> trail_extends (sources s k) (sources s' k)"
  by (cases p) (auto simp: op_eqs intro!: trail_extends_map cleared_once_mark)

lemma run_trail: "taint_run s ps t \<Longrightarrow> trail_extends (sources s k) (sources t k)"
  by (induction rule: taint_run.induct) (auto dest: apply_op_trail intro: trail_extends_trans)

text \<open>Every call returns or throws, so every sequence of calls has a final state.\<close>

lemma run_total: "\<exists>t. taint_run s ps t"
proof (induction ps arbitrary: s)
  case Nil
  then show ?case by (blast intro: taint_run.intros)
next
  case (Cons p ps)
  then show ?case by (cases "apply_op p s") (blast intro: taint_run.intros)+
qed

lemma run_session: "taint_run s ps t \<Longrightarrow> session_id t = session_id s"
proof (induction rule: taint_run.induct)
  case (run_call p s s' ps t)
  then have "session_id s' = session_id s"
    by (cases p) (auto simp: op_eqs)
  with run_call show ?case by simp
qed simp_all

end
