(* ===== verification/TaintStore.thy ===== *)
theory TaintStore
  imports TaintEngine
begin

text \<open>
  The per-session snapshot files, \<^verbatim>\<open>packages/agents/src/claude-code/taint-store.ts\<close>. The state is
  the taint directory: what \<open>lstat\<close> finds at each name, and the age of each lock. The hash that
  names the files, the reader (\<open>JSON.parse\<close> with the schema of the third-party validator) and the
  printer are the record \<open>store_env\<close>; the temporary name is not modelled, a rename either happens
  or the write fails. The optional override path, which only tests pass, is left out.
\<close>

section \<open>State\<close>

text \<open>A symlink carries the text it leads to, if it leads to a readable file.\<close>

datatype entry = Absent | Regular string | Symlink "string option" | Unreadable

datatype dir_state = DirAbsent | DirPlain | DirSymlink | DirUnreadable

record taint_fs =
  tdir :: dir_state
  tfiles :: "string \<Rightarrow> entry"
  tlocks :: "string \<Rightarrow> int option"

record store_env =
  se_sha256 :: "string \<Rightarrow> string"
  se_parse :: "string \<Rightarrow> taint_snapshot option"
  se_render :: "taint_snapshot \<Rightarrow> string"

definition sessionIdToFilenameStem :: "store_env \<Rightarrow> string \<Rightarrow> string" where
  "sessionIdToFilenameStem env sid = se_sha256 env sid"

definition getTaintSnapshotPath :: "store_env \<Rightarrow> string \<Rightarrow> string" where
  "getTaintSnapshotPath env sid = sessionIdToFilenameStem env sid @ ''.json''"

definition getTaintPendingPath :: "store_env \<Rightarrow> string \<Rightarrow> string" where
  "getTaintPendingPath env sid = sessionIdToFilenameStem env sid @ ''.pending''"

definition getTaintLockPath :: "store_env \<Rightarrow> string \<Rightarrow> string" where
  "getTaintLockPath env sid = sessionIdToFilenameStem env sid @ ''.lock''"

section \<open>Reading\<close>

text \<open>\<open>symlinkState\<close>: \<open>None\<close> is the indeterminate answer.\<close>

fun symlinkState :: "entry \<Rightarrow> bool option" where
  "symlinkState Absent = Some False"
| "symlinkState (Regular c) = Some False"
| "symlinkState (Symlink c) = Some True"
| "symlinkState Unreadable = None"

fun dirSymlinkState :: "dir_state \<Rightarrow> bool option" where
  "dirSymlinkState DirAbsent = Some False"
| "dirSymlinkState DirPlain = Some False"
| "dirSymlinkState DirSymlink = Some True"
| "dirSymlinkState DirUnreadable = None"

definition taintPathIsUnsafe :: "taint_fs \<Rightarrow> string \<Rightarrow> bool" where
  "taintPathIsUnsafe fs p \<longleftrightarrow>
    (if dirSymlinkState (tdir fs) \<noteq> Some False then True
     else if symlinkState (tfiles fs p) \<noteq> Some False then True
     else False)"

text \<open>\<open>existsSync\<close> follows symlinks and is false where it may not look.\<close>

fun existsSync :: "entry \<Rightarrow> bool" where
  "existsSync (Regular c) \<longleftrightarrow> True"
| "existsSync (Symlink (Some c)) \<longleftrightarrow> True"
| "existsSync _ \<longleftrightarrow> False"

fun readFileSync :: "entry \<Rightarrow> string option" where
  "readFileSync (Regular c) = Some c"
| "readFileSync (Symlink t) = t"
| "readFileSync _ = None"

definition readTaintSnapshot :: "store_env \<Rightarrow> taint_fs \<Rightarrow> string \<Rightarrow> taint_snapshot option" where
  "readTaintSnapshot env fs sid =
    (let p = getTaintSnapshotPath env sid; pend = getTaintPendingPath env sid in
     if taintPathIsUnsafe fs p then None
     else if existsSync (tfiles fs pend) \<and> existsSync (tfiles fs p) then None
     else
       (case readFileSync (tfiles fs p) of
          None \<Rightarrow> None
        | Some raw \<Rightarrow>
            (case se_parse env raw of
               None \<Rightarrow> None
             | Some s \<Rightarrow> if session_id s \<noteq> sid then None else Some s)))"

definition loadOrInitSnapshot :: "store_env \<Rightarrow> taint_fs \<Rightarrow> string \<Rightarrow> taint_snapshot" where
  "loadOrInitSnapshot env fs sid =
    (case readTaintSnapshot env fs sid of Some s \<Rightarrow> s | None \<Rightarrow> createSnapshot sid)"

section \<open>Writing\<close>

text \<open>The first argument says whether the file-system calls of the write succeed.\<close>

definition writeTaintSnapshot ::
  "store_env \<Rightarrow> bool \<Rightarrow> taint_snapshot \<Rightarrow> taint_fs \<Rightarrow> taint_fs \<times> unit result" where
  "writeTaintSnapshot env io s fs =
    (let p = getTaintSnapshotPath env (session_id s) in
     if taintPathIsUnsafe fs p then
       (fs, Inl (Thrown (''Refusing to write taint snapshot: '' @ p)))
     else if \<not> io then (fs, Inl (Thrown ''write failed''))
     else (fs\<lparr>tdir := DirPlain, tfiles := (tfiles fs)(p := Regular (se_render env s))\<rparr>, Inr ()))"

text \<open>Writing an empty file at the marker's name; a symlink there stays and its target is emptied.\<close>

definition setPendingMarker :: "store_env \<Rightarrow> bool \<Rightarrow> string \<Rightarrow> taint_fs \<Rightarrow> taint_fs" where
  "setPendingMarker env io sid fs =
    (let p = getTaintPendingPath env sid in
     if \<not> io then fs
     else fs\<lparr>tfiles := (tfiles fs)(p :=
            (case tfiles fs p of
               Symlink t \<Rightarrow> Symlink (Some []) | Unreadable \<Rightarrow> Unreadable | _ \<Rightarrow> Regular []))\<rparr>)"

definition clearPendingMarker :: "store_env \<Rightarrow> string \<Rightarrow> taint_fs \<Rightarrow> taint_fs" where
  "clearPendingMarker env sid fs =
    (let p = getTaintPendingPath env sid in
     fs\<lparr>tfiles := (tfiles fs)(p :=
          (case tfiles fs p of Unreadable \<Rightarrow> Unreadable | _ \<Rightarrow> Absent))\<rparr>)"

definition LOCK_STALE_MS :: int where
  "LOCK_STALE_MS = 30000"

text \<open>
  \<open>withSessionLock\<close>: one attempt, a lock older than the grace window is reclaimed once. The body
  runs with the lock and the lock is removed whether the body returns or throws.
\<close>

definition withSessionLock ::
  "store_env \<Rightarrow> int \<Rightarrow> string \<Rightarrow> (taint_fs \<Rightarrow> taint_fs \<times> 'a result) \<Rightarrow> taint_fs
   \<Rightarrow> taint_fs \<times> 'a result" where
  "withSessionLock env now sid f fs =
    (let p = getTaintLockPath env sid;
         run = (\<lambda>fs0. let r = f (fs0\<lparr>tlocks := (tlocks fs0)(p := Some now)\<rparr>)
                      in ((fst r)\<lparr>tlocks := (tlocks (fst r))(p := None)\<rparr>, snd r))
     in case tlocks fs p of
          None \<Rightarrow> run fs
        | Some mtime \<Rightarrow>
            if now - mtime > LOCK_STALE_MS then run fs
            else (fs, Inl (Thrown (''taint-store: lock at '' @ p @ '' held by another writer''))))"

text \<open>The write of one update, between the two marker calls; the marker is cleared either way.\<close>

definition commit_snapshot ::
  "store_env \<Rightarrow> bool \<Rightarrow> bool \<Rightarrow> string \<Rightarrow> taint_snapshot \<Rightarrow> taint_fs \<Rightarrow> taint_fs \<times> unit result" where
  "commit_snapshot env pend_io io sid s fs =
    (let r = writeTaintSnapshot env io s (setPendingMarker env pend_io sid fs)
     in (clearPendingMarker env sid (fst r), snd r))"

section \<open>Names\<close>

lemma names_distinct [simp]:
  "getTaintSnapshotPath env a \<noteq> getTaintPendingPath env b"
  "getTaintPendingPath env b \<noteq> getTaintSnapshotPath env a"
proof -
  have "last (getTaintSnapshotPath env a) = CHR ''n''" "last (getTaintPendingPath env b) = CHR ''g''"
    by (simp_all add: getTaintSnapshotPath_def getTaintPendingPath_def)
  then show "getTaintSnapshotPath env a \<noteq> getTaintPendingPath env b"
    "getTaintPendingPath env b \<noteq> getTaintSnapshotPath env a"
    by fastforce+
qed

lemma paths_inject [simp]:
  "getTaintSnapshotPath env a = getTaintSnapshotPath env b
   \<longleftrightarrow> sessionIdToFilenameStem env a = sessionIdToFilenameStem env b"
  "getTaintPendingPath env a = getTaintPendingPath env b
   \<longleftrightarrow> sessionIdToFilenameStem env a = sessionIdToFilenameStem env b"
  by (simp_all add: getTaintSnapshotPath_def getTaintPendingPath_def)

section \<open>The contract of the store\<close>

text \<open>
  What the hook handlers rely on: a snapshot that is read carries the session it was asked for, a
  committed snapshot is the one read next, a failed commit leaves what was stored, and a commit
  for one session is invisible to the others.
\<close>

locale session_store =
  fixes rd :: "'fs \<Rightarrow> string \<Rightarrow> taint_snapshot option"
    and cm :: "string \<Rightarrow> taint_snapshot \<Rightarrow> 'fs \<Rightarrow> 'fs \<times> unit result"
    and key :: "string \<Rightarrow> string"
    and decodes :: "taint_snapshot \<Rightarrow> bool"
    and clean :: "'fs \<Rightarrow> string \<Rightarrow> bool"
  assumes own: "rd fs sid = Some s \<Longrightarrow> session_id s = sid"
    and read_back: "cm sid s fs = (fs', Inr ()) \<Longrightarrow> session_id s = sid \<Longrightarrow> decodes s
      \<Longrightarrow> clean fs sid \<Longrightarrow> rd fs' sid = Some s"
    and isolated: "cm sid s fs = (fs', r) \<Longrightarrow> session_id s = sid \<Longrightarrow> key sid' \<noteq> key sid
      \<Longrightarrow> rd fs' sid' = rd fs sid'"
begin

text \<open>What the enforcement sees: a missing snapshot counts as tainted.\<close>

definition seen_tainted :: "'fs \<Rightarrow> string \<Rightarrow> bool" where
  "seen_tainted fs sid \<longleftrightarrow> (case rd fs sid of None \<Rightarrow> True | Some s \<Rightarrow> hasAnyTaint s)"

definition load :: "'fs \<Rightarrow> string \<Rightarrow> taint_snapshot" where
  "load fs sid = (case rd fs sid of Some s \<Rightarrow> s | None \<Rightarrow> createSnapshot sid)"

lemma session_load: "session_id (load fs sid) = sid"
  using own by (auto simp: load_def createSnapshot_def split: option.split)

text \<open>An update by an engine operation, committed, is what the next read sees.\<close>

lemma update_visible:
  assumes "apply_op p (load fs sid) = Inr s" and "cm sid s fs = (fs', Inr ())" and "decodes s"
    and "clean fs sid"
  shows "rd fs' sid = Some s"
proof -
  have "taint_run (load fs sid) [p] s" using assms(1) by (blast intro: taint_run.intros)
  then have "session_id s = sid" using run_session session_load by metis
  with assms show ?thesis using read_back by blast
qed

lemma register_seen:
  assumes "apply_op (Register k src) (load fs sid) = Inr s" and "cm sid s fs = (fs', Inr ())"
    and "decodes s" and "clean fs sid"
  shows "seen_tainted fs' sid"
proof -
  have "hasKind s k" using assms(1) by (auto simp: op_eqs hasKind_set_sources)
  then show ?thesis
    using update_visible [OF assms] by (auto simp: seen_tainted_def hasAnyTaint_iff)
qed

end

text \<open>
  In a directory that is plain or can be made, with the marker's name not unreadable, the names
  of a session are clean.
\<close>

definition marker_clean :: "store_env \<Rightarrow> taint_fs \<Rightarrow> string \<Rightarrow> bool" where
  "marker_clean env fs sid \<longleftrightarrow> tfiles fs (getTaintPendingPath env sid) \<noteq> Unreadable"

definition decodes_back :: "store_env \<Rightarrow> taint_snapshot \<Rightarrow> bool" where
  "decodes_back env s \<longleftrightarrow> se_parse env (se_render env s) = Some s"

lemma tfiles_setPending:
  "q \<noteq> getTaintPendingPath env sid \<Longrightarrow> tfiles (setPendingMarker env io sid fs) q = tfiles fs q"
  by (simp add: setPendingMarker_def Let_def)

lemma tdir_setPending [simp]: "tdir (setPendingMarker env io sid fs) = tdir fs"
  by (simp add: setPendingMarker_def Let_def)

lemma tdir_clearPending [simp]: "tdir (clearPendingMarker env sid fs) = tdir fs"
  by (simp add: clearPendingMarker_def Let_def)

lemma tfiles_clearPending:
  "q \<noteq> getTaintPendingPath env sid \<Longrightarrow> tfiles (clearPendingMarker env sid fs) q = tfiles fs q"
  by (simp add: clearPendingMarker_def Let_def)

lemma read_own: "readTaintSnapshot env fs sid = Some s \<Longrightarrow> session_id s = sid"
  by (auto simp: readTaintSnapshot_def Let_def split: if_splits option.splits)

lemma unsafe_setPending [simp]:
  "taintPathIsUnsafe (setPendingMarker env io sid fs) (getTaintSnapshotPath env sid')
   = taintPathIsUnsafe fs (getTaintSnapshotPath env sid')"
  by (simp add: taintPathIsUnsafe_def tfiles_setPending)

lemma commit_read_back:
  assumes "commit_snapshot env pio io sid s fs = (fs', Inr ())" and "session_id s = sid"
    and "decodes_back env s" and "marker_clean env fs sid"
  shows "readTaintSnapshot env fs' sid = Some s"
  using assms
  by (auto simp: commit_snapshot_def writeTaintSnapshot_def Let_def readTaintSnapshot_def
      taintPathIsUnsafe_def clearPendingMarker_def setPendingMarker_def marker_clean_def
      decodes_back_def split: if_splits entry.splits)

lemma commit_isolated:
  assumes "commit_snapshot env pio io sid s fs = (fs', r)" and "session_id s = sid"
    and "sessionIdToFilenameStem env sid' \<noteq> sessionIdToFilenameStem env sid"
  shows "readTaintSnapshot env fs' sid' = readTaintSnapshot env fs sid'"
proof -
  have files: "tfiles fs' q = tfiles fs q"
    if "q = getTaintSnapshotPath env sid' \<or> q = getTaintPendingPath env sid'" for q
    using assms that
    by (auto simp: commit_snapshot_def writeTaintSnapshot_def Let_def clearPendingMarker_def
        setPendingMarker_def split: if_splits)
  have "dirSymlinkState (tdir fs') = dirSymlinkState (tdir fs)"
    using assms(1)
    by (auto simp: commit_snapshot_def writeTaintSnapshot_def Let_def taintPathIsUnsafe_def
        split: if_splits)
  then show ?thesis
    by (simp add: readTaintSnapshot_def Let_def taintPathIsUnsafe_def files)
qed

interpretation taint_store:
  session_store "readTaintSnapshot env" "commit_snapshot env pio io" "sessionIdToFilenameStem env"
    "decodes_back env" "marker_clean env" for env pio io
  by unfold_locales (blast intro: read_own commit_read_back commit_isolated)+

lemma loadOrInit_load: "loadOrInitSnapshot env fs sid = taint_store.load env fs sid"
  by (simp add: loadOrInitSnapshot_def taint_store.load_def)

section \<open>Doubt reads as taint\<close>

text \<open>The states of the directory that a reader may not trust.\<close>

definition doubtful :: "store_env \<Rightarrow> taint_fs \<Rightarrow> string \<Rightarrow> bool" where
  "doubtful env fs sid \<longleftrightarrow>
    (let f = tfiles fs (getTaintSnapshotPath env sid); m = tfiles fs (getTaintPendingPath env sid)
     in tdir fs = DirSymlink \<or> tdir fs = DirUnreadable
        \<or> f = Absent \<or> f = Unreadable \<or> (\<exists>t. f = Symlink t)
        \<or> existsSync m
        \<or> (\<exists>c. f = Regular c \<and> (se_parse env c = None
              \<or> (\<exists>s. se_parse env c = Some s \<and> session_id s \<noteq> sid))))"

lemma dirSymlinkState_ok: "dirSymlinkState d = Some False \<longleftrightarrow> d = DirAbsent \<or> d = DirPlain"
  by (cases d) simp_all

lemma read_None_iff: "readTaintSnapshot env fs sid = None \<longleftrightarrow> doubtful env fs sid"
  by (cases "tdir fs"; cases "tfiles fs (getTaintSnapshotPath env sid)")
    (auto simp: readTaintSnapshot_def doubtful_def Let_def taintPathIsUnsafe_def
      split: option.split)

end
