(* ===== verification/SinkClassify.thy ===== *)
theory SinkClassify
  imports TaintSnapshot
begin

text \<open>
  The path sinks, \<^verbatim>\<open>packages/core/src/sinks/classify.ts\<close> with the pattern tables of
  \<^verbatim>\<open>persistence-paths.ts\<close> and \<^verbatim>\<open>secret-paths.ts\<close>. The glob library is third-party: the
  predicate \<open>glob pattern path\<close> and the home directory are parameters.
\<close>

text \<open>A pattern with its label, in the order of the tables.\<close>

definition PERSISTENCE_PATTERNS :: "(string \<times> string) list" where
  "PERSISTENCE_PATTERNS =
    [(''~/.ssh/authorized_keys'', ''SSH authorized_keys (passwordless login)''),
     (''~/.ssh/authorized_keys2'', ''SSH authorized_keys2''),
     (''~/.ssh/config'', ''SSH client config (host aliases / proxy commands)''),
     (''~/.ssh/**'', ''SSH directory (keys / known_hosts)''),
     (''~/.bashrc'', ''Bash interactive rc''),
     (''~/.bash_profile'', ''Bash login profile''),
     (''~/.bash_login'', ''Bash login profile''),
     (''~/.profile'', ''POSIX shell profile''),
     (''~/.zshrc'', ''Zsh interactive rc''),
     (''~/.zshenv'', ''Zsh environment''),
     (''~/.zprofile'', ''Zsh login profile''),
     (''~/.zlogin'', ''Zsh login script''),
     (''~/.config/fish/**'', ''Fish shell config''),
     (''~/.inputrc'', ''Readline config''),
     (''/etc/profile'', ''System POSIX profile''),
     (''/etc/profile.d/**'', ''System profile drop-in''),
     (''/etc/zshrc'', ''System zsh rc''),
     (''/etc/bashrc'', ''System bash rc''),
     (''**/.git/hooks/**'', ''Git hook (runs on every commit/push/fetch)''),
     (''**/.husky/**'', ''Husky git hook''),
     (''~/.gitconfig'', ''Global git config (aliases / hooks / templates)''),
     (''~/.config/git/config'', ''Global git config (XDG)''),
     (''~/.config/git/attributes'', ''Global git attributes''),
     (''~/.config/git/ignore'', ''Global git ignore''),
     (''**/.github/workflows/**'', ''GitHub Actions workflow''),
     (''**/.gitlab-ci.yml'', ''GitLab CI config''),
     (''**/.gitlab/**'', ''GitLab CI directory''),
     (''**/.circleci/**'', ''CircleCI config''),
     (''**/Jenkinsfile'', ''Jenkins pipeline''),
     (''**/azure-pipelines.yml'', ''Azure Pipelines''),
     (''**/bitbucket-pipelines.yml'', ''Bitbucket Pipelines''),
     (''**/.buildkite/**'', ''Buildkite pipeline''),
     (''**/.travis.yml'', ''Travis CI''),
     (''~/Library/LaunchAgents/**'', ''macOS LaunchAgent (runs on login)''),
     (''/Library/LaunchAgents/**'', ''macOS LaunchAgent (system, all users)''),
     (''/Library/LaunchDaemons/**'', ''macOS LaunchDaemon (runs as root)''),
     (''~/.config/systemd/user/**'', ''systemd user unit (runs on login)''),
     (''/etc/systemd/system/**'', ''systemd system unit (runs as root)''),
     (''**/.envrc'', ''direnv envrc (runs on cd into dir)''),
     (''**/.vscode/tasks.json'', ''VS Code tasks (runs on open)''),
     (''**/.vscode/launch.json'', ''VS Code launch config''),
     (''**/.vscode/settings.json'', ''VS Code project settings''),
     (''**/.idea/**'', ''JetBrains IDE config''),
     (''/etc/cron.*/**'', ''System cron drop-in''),
     (''/var/spool/cron/**'', ''User crontab''),
     (''/etc/crontab'', ''System crontab''),
     (''~/.patchwork/**'', ''Patchwork state directory''),
     (''~/.claude/settings.json'', ''Claude Code global settings (hooks!)''),
     (''~/.claude/settings.local.json'', ''Claude Code local settings''),
     (''**/.claude/settings.json'', ''Claude Code project settings (hooks!)'')]"

definition SECRET_PATTERNS :: "(string \<times> string) list" where
  "SECRET_PATTERNS =
    [(''~/.ssh/id_*'', ''SSH private key''),
     (''~/.ssh/*.pem'', ''SSH/TLS PEM key''),
     (''~/.ssh/*_rsa'', ''SSH RSA private key''),
     (''~/.ssh/*_ed25519'', ''SSH ed25519 private key''),
     (''~/.ssh/*ecdsa'', ''SSH ECDSA private key''),
     (''~/.ssh/identity'', ''SSH legacy identity''),
     (''~/.aws/credentials'', ''AWS credentials''),
     (''~/.aws/config'', ''AWS config (may contain SSO tokens)''),
     (''~/.aws/sso/**'', ''AWS SSO cache''),
     (''~/.config/gcloud/credentials.db'', ''gcloud credentials''),
     (''~/.config/gcloud/legacy_credentials/**'', ''gcloud legacy credentials''),
     (''~/.config/gcloud/application_default_credentials.json'', ''gcloud ADC''),
     (''~/.azure/accessTokens.json'', ''Azure CLI tokens''),
     (''~/.azure/azureProfile.json'', ''Azure CLI profile''),
     (''~/.kube/config'', ''kubeconfig (cluster credentials)''),
     (''~/.docker/config.json'', ''Docker registry credentials''),
     (''~/.config/gh/hosts.yml'', ''gh CLI host tokens''),
     (''~/.npmrc'', ''npm credentials (auth tokens)''),
     (''**/.npmrc'', ''project npm credentials''),
     (''~/.pypirc'', ''PyPI credentials''),
     (''~/.cargo/credentials'', ''Cargo registry credentials''),
     (''~/.cargo/credentials.toml'', ''Cargo registry credentials''),
     (''~/.gem/credentials'', ''RubyGems credentials''),
     (''~/.git-credentials'', ''git stored credentials''),
     (''~/.config/git/credentials'', ''git stored credentials (XDG)''),
     (''~/.netrc'', ''.netrc (credentials for HTTP tools)''),
     (''~/.password-store/**'', ''pass(1) password store''),
     (''~/.gnupg/private-keys-v1.d/**'', ''GPG private keys''),
     (''~/.gnupg/secring.gpg'', ''GPG legacy secret keyring''),
     (''**/.env'', ''.env file''),
     (''**/.env.*'', ''.env.* file'')]"

definition expandHomePattern :: "string \<Rightarrow> string \<Rightarrow> string" where
  "expandHomePattern home pattern =
    (if pattern = ''~'' then path_join [home]
     else if starts_with pattern ''~/'' then path_join [home, drop 2 pattern]
     else pattern)"

definition CLAUDE_NATIVE_WRITE_TOOLS :: "string list" where
  "CLAUDE_NATIVE_WRITE_TOOLS = [''Write'', ''Edit'', ''MultiEdit'', ''NotebookEdit'']"

definition CLAUDE_NATIVE_READ_TOOLS :: "string list" where
  "CLAUDE_NATIVE_READ_TOOLS = [''Read'']"

text \<open>A compiled pattern: the matcher closes over the expanded pattern.\<close>

record compiled_pattern =
  cp_matcher :: "string \<Rightarrow> bool"
  cp_raw :: string
  cp_label :: string

definition compilePatterns ::
  "(string \<Rightarrow> string \<Rightarrow> bool) \<Rightarrow> string \<Rightarrow> (string \<times> string) list \<Rightarrow> compiled_pattern list" where
  "compilePatterns glob home ps =
    map (\<lambda>(p, l). \<lparr>cp_matcher = glob (expandHomePattern home p), cp_raw = p, cp_label = l\<rparr>) ps"

text \<open>
  The fields of a \<open>ToolEvent\<close> that the classifier reads. The two path lists default to empty.
\<close>

record tool_event =
  ev_tool :: string
  ev_target_paths :: "string list"
  ev_resolved_paths :: "string list"
  ev_taint_state :: "taint_snapshot option"

definition pathsToEvaluate :: "tool_event \<Rightarrow> string list" where
  "pathsToEvaluate ev =
    (if ev_resolved_paths ev \<noteq> [] then ev_resolved_paths ev else ev_target_paths ev)"

fun findFirstMatch ::
  "compiled_pattern list \<Rightarrow> string list \<Rightarrow> (string \<times> compiled_pattern) option" where
  "findFirstMatch ms [] = None"
| "findFirstMatch ms (p # ps) =
     (case find (\<lambda>m. cp_matcher m p) ms of
        Some m \<Rightarrow> Some (p, m)
      | None \<Rightarrow> findFirstMatch ms ps)"

definition event_tainted :: "taint_snapshot option \<Rightarrow> bool" where
  "event_tainted s = (case s of None \<Rightarrow> False | Some sn \<Rightarrow> hasAnyTaint sn)"

definition classifyPersistence ::
  "(string \<Rightarrow> string \<Rightarrow> bool) \<Rightarrow> string \<Rightarrow> tool_event \<Rightarrow> sink_match option" where
  "classifyPersistence glob home ev =
    (if ev_tool ev \<notin> set CLAUDE_NATIVE_WRITE_TOOLS then None
     else if pathsToEvaluate ev = [] then None
     else
       (case findFirstMatch (compilePatterns glob home PERSISTENCE_PATTERNS) (pathsToEvaluate ev) of
          None \<Rightarrow> None
        | Some (path, m) \<Rightarrow>
            (let tainted = event_tainted (ev_taint_state ev) in
             Some \<lparr>mclass = ClaudeFileWritePersistence,
                   mseverity = (if tainted then Deny else ApprovalRequired),
                   mreason =
                     (if tainted
                      then ''Write to persistence path under active taint: '' @ cp_label m
                      else ''Write to persistence path requires out-of-band approval: ''
                           @ cp_label m),
                   mpath = Some path, mpattern = cp_raw m\<rparr>)))"

definition classifySecretRead ::
  "(string \<Rightarrow> string \<Rightarrow> bool) \<Rightarrow> string \<Rightarrow> tool_event \<Rightarrow> sink_match option" where
  "classifySecretRead glob home ev =
    (if ev_tool ev \<notin> set CLAUDE_NATIVE_READ_TOOLS then None
     else if pathsToEvaluate ev = [] then None
     else
       (case findFirstMatch (compilePatterns glob home SECRET_PATTERNS) (pathsToEvaluate ev) of
          None \<Rightarrow> None
        | Some (path, m) \<Rightarrow>
            Some \<lparr>mclass = SecretRead, mseverity = Advisory,
                  mreason = ''Read of credential-class path: '' @ cp_label m,
                  mpath = Some path, mpattern = cp_raw m\<rparr>))"

definition opt_list :: "'a option \<Rightarrow> 'a list" where
  "opt_list v = (case v of None \<Rightarrow> [] | Some x \<Rightarrow> [x])"

definition classifyToolEvent ::
  "(string \<Rightarrow> string \<Rightarrow> bool) \<Rightarrow> string \<Rightarrow> tool_event \<Rightarrow> sink_match list" where
  "classifyToolEvent glob home ev =
    opt_list (classifyPersistence glob home ev) @ opt_list (classifySecretRead glob home ev)"

text \<open>\<open>highestSeverity\<close>: the loop keeps the earliest of the strictest matches.\<close>

definition highestSeverity :: "sink_match list \<Rightarrow> sink_match option" where
  "highestSeverity ms =
    (case ms of
       [] \<Rightarrow> None
     | m # rest \<Rightarrow>
         Some (foldl (\<lambda>best x. if severity_rank (mseverity x) > severity_rank (mseverity best)
                               then x else best) m rest))"

section \<open>Facts\<close>

lemma opt_list_simps [simp]: "opt_list None = []" "opt_list (Some x) = [x]"
  by (simp_all add: opt_list_def)

lemma find_Some_in: "find P xs = Some x \<Longrightarrow> x \<in> set xs \<and> P x"
  by (induction xs) (auto split: if_splits)

lemma findFirstMatch_None_iff:
  "findFirstMatch ms ps = None \<longleftrightarrow> (\<forall>p \<in> set ps. \<forall>m \<in> set ms. \<not> cp_matcher m p)"
  by (induction ps) (auto simp: find_None_iff split: option.split dest: find_Some_in)

lemma findFirstMatch_Some:
  "findFirstMatch ms ps = Some (p, m) \<Longrightarrow> p \<in> set ps \<and> m \<in> set ms \<and> cp_matcher m p"
  by (induction ps) (auto split: option.splits dest: find_Some_in)

text \<open>A path that one of the patterns of a table matches.\<close>

definition matches_table ::
  "(string \<Rightarrow> string \<Rightarrow> bool) \<Rightarrow> string \<Rightarrow> (string \<times> string) list \<Rightarrow> string \<Rightarrow> bool" where
  "matches_table glob home tbl path \<longleftrightarrow>
    list_ex (\<lambda>(p, l). glob (expandHomePattern home p) path) tbl"

lemma findFirstMatch_table:
  "findFirstMatch (compilePatterns glob home tbl) ps = None
   \<longleftrightarrow> \<not> list_ex (matches_table glob home tbl) ps"
  by (simp add: findFirstMatch_None_iff compilePatterns_def matches_table_def list_ex_iff
      split_beta)

lemma classifyPersistence_iff:
  "classifyPersistence glob home ev \<noteq> None \<longleftrightarrow>
     ev_tool ev \<in> set CLAUDE_NATIVE_WRITE_TOOLS
     \<and> list_ex (matches_table glob home PERSISTENCE_PATTERNS) (pathsToEvaluate ev)"
  using findFirstMatch_table [of glob home PERSISTENCE_PATTERNS "pathsToEvaluate ev"]
  by (cases "findFirstMatch (compilePatterns glob home PERSISTENCE_PATTERNS) (pathsToEvaluate ev)")
    (auto simp: classifyPersistence_def Let_def)

lemma classifyPersistence_severity:
  "classifyPersistence glob home ev = Some m \<Longrightarrow>
     mclass m = ClaudeFileWritePersistence
     \<and> mseverity m = (if event_tainted (ev_taint_state ev) then Deny else ApprovalRequired)"
  by (auto simp: classifyPersistence_def Let_def split: if_splits option.splits prod.splits)

lemma classifySecretRead_advisory:
  "classifySecretRead glob home ev = Some m \<Longrightarrow> mclass m = SecretRead \<and> mseverity m = Advisory"
  by (auto simp: classifySecretRead_def split: if_splits option.splits prod.splits)

lemma highestSeverity_max:
  "highestSeverity ms = Some b \<Longrightarrow> b \<in> set ms \<and> (\<forall>m \<in> set ms. mseverity m \<le> mseverity b)"
proof -
  define step :: "sink_match \<Rightarrow> sink_match \<Rightarrow> sink_match" where
    "step = (\<lambda>best x. if severity_rank (mseverity x) > severity_rank (mseverity best)
              then x else best)"
  have fold: "foldl step m rest \<in> insert m (set rest)
      \<and> (\<forall>x \<in> insert m (set rest). mseverity x \<le> mseverity (foldl step m rest))" for m rest
  proof (induction rest arbitrary: m)
    case (Cons r rest)
    have "mseverity m \<le> mseverity (step m r)" "mseverity r \<le> mseverity (step m r)"
      by (auto simp: step_def less_eq_severity_def)
    with Cons [of "step m r"] show ?case by (auto simp: step_def intro: order_trans split: if_splits)
  qed simp
  assume "highestSeverity ms = Some b"
  then show ?thesis
    using fold by (cases ms) (auto simp: highestSeverity_def step_def [symmetric])
qed

end
