(* ===== verification/TaintProperties.thy ===== *)
theory TaintProperties
  imports TaintStore SinkClassify PreToolDecision
begin

text \<open>
  What the taint engine, its store, the sink classifier and the decision composer promise
  together: taint is lost only by an explicit clearing, the trail of sources only grows, doubt
  about a stored snapshot reads as taint, and more taint or more matches never relax a verdict.
\<close>

section \<open>The engine\<close>

text \<open>
  C32: each update of a snapshot implements the abstract machine on the set of active kinds: a
  registration adds its kind, a generated file adds its kind exactly when some upstream source is
  active, a clearing removes exactly its kind, and forgetting a file touches no other kind.
\<close>

theorem update_refines_active_kinds:
  assumes "apply_op p s = Inr s'"
  shows "active_kinds s' \<in> abs_op p (active_kinds s)"
  by (rule apply_op_refines [OF assms])

definition sample_source :: taint_source where
  "sample_source = \<lparr>sts = 1, sref = ''https://x'', shash = ''sha256:0'', scleared = None\<rparr>"

lemma register_sample:
  "apply_op (Register Prompt sample_source) (createSnapshot ''s'')
   = Inr (set_sources Prompt [sample_source] (createSnapshot ''s''))"
  by (simp add: registerTaint_def sample_source_def copy_source_def)

lemma update_refines_active_kinds_witness:
  "active_kinds (set_sources Prompt [sample_source] (createSnapshot ''s'')) = {Prompt}"
proof -
  have "active_kinds (createSnapshot ''s'') = {}" by (simp add: active_kinds_def hasKind_def)
  with update_refines_active_kinds [OF register_sample] show ?thesis by simp
qed

text \<open>
  Taint is sticky: over any sequence of updates, some of which may throw, a kind that is
  active stays active unless the sequence has a call that clears this kind (for secrets, with the
  explicit permission) or, for generated files, forgets one.
\<close>

theorem active_kind_survives:
  assumes "taint_run s ps t" and "hasKind s k" and "\<forall>p \<in> set ps. \<not> may_clear k p"
  shows "hasKind t k"
  by (rule run_keeps [OF assms])

lemma active_kind_survives_witness:
  "hasKind (set_sources Prompt [sample_source] (createSnapshot ''s'')) Prompt
   \<and> (\<exists>t. taint_run (set_sources Prompt [sample_source] (createSnapshot ''s''))
        [Clear McpContent \<lparr>omethod = OutOfBand, ots = 5, oallow_secret = False\<rparr>] t \<and> hasKind t Prompt)"
proof -
  let ?s = "set_sources Prompt [sample_source] (createSnapshot ''s'')"
  let ?p = "Clear McpContent \<lparr>omethod = OutOfBand, ots = 5, oallow_secret = False\<rparr>"
  obtain t where t: "taint_run ?s [?p] t" using run_total by blast
  moreover have k: "hasKind ?s Prompt" by (simp add: hasKind_def sample_source_def active_def)
  moreover have "hasKind t Prompt" by (rule active_kind_survives [OF t k]) simp
  ultimately show ?thesis by blast
qed

text \<open>
  The sources of a kind are an audit trail: over any sequence of updates the old list is kept
  in order at the front of the new one, and an old source differs from what it was only by having
  been marked as cleared, once, while it was active.
\<close>

theorem trail_only_grows:
  assumes "taint_run s ps t"
  shows "\<exists>old new. sources t k = old @ new
     \<and> list_all2 (\<lambda>a b. b = a \<or> active a \<and> (\<exists>c. b = a\<lparr>scleared := Some c\<rparr>)) (sources s k) old"
  using run_trail [OF assms, of k] unfolding trail_extends_def cleared_once_def by blast

lemma trail_only_grows_witness:
  "\<exists>t. taint_run (createSnapshot ''s'') [Register Prompt sample_source] t
     \<and> (\<exists>old new. sources t Prompt = old @ new \<and> old = [])"
proof -
  obtain t where t: "taint_run (createSnapshot ''s'') [Register Prompt sample_source] t"
    using run_total by blast
  from trail_only_grows [OF t, of Prompt] t show ?thesis by auto
qed

section \<open>The store\<close>

text \<open>
  A source recorded for a session through the store is what the next reader of that session
  sees, so the session counts as tainted, and no other session's reader sees a difference.
\<close>

theorem recorded_taint_visible:
  assumes "apply_op (Register k src) (loadOrInitSnapshot e fs sid) = Inr s"
    and "commit_snapshot e pend_io io sid s fs = (fs', Inr ())"
    and "decodes_back e s" and "marker_clean e fs sid"
  shows "readTaintSnapshot e fs' sid = Some s \<and> effective_taint (readTaintSnapshot e fs' sid)
     \<and> (\<forall>other. sessionIdToFilenameStem e other \<noteq> sessionIdToFilenameStem e sid
          \<longrightarrow> readTaintSnapshot e fs' other = readTaintSnapshot e fs other)"
proof -
  note op = assms(1) [unfolded loadOrInit_load]
  have own: "session_id s = sid"
    using op taint_store.session_load [of e fs sid] by (auto simp: op_eqs)
  have "readTaintSnapshot e fs' sid = Some s"
    by (rule taint_store.update_visible [OF op assms(2-4)])
  moreover have "effective_taint (readTaintSnapshot e fs' sid)"
    using taint_store.register_seen [OF op assms(2-4)]
    by (auto simp: taint_store.seen_tainted_def effective_taint_def split: option.splits)
  ultimately show ?thesis using commit_isolated [OF assms(2) own] by blast
qed

text \<open>A store in which one text stands for the snapshot that was written.\<close>

definition sample_snapshot :: taint_snapshot where
  "sample_snapshot = set_sources Prompt [sample_source] (createSnapshot ''s'')"

definition sample_store :: store_env where
  "sample_store =
    \<lparr>se_sha256 = (\<lambda>s. s), se_parse = (\<lambda>raw. if raw = ''x'' then Some sample_snapshot else None),
     se_render = (\<lambda>s. ''x'')\<rparr>"

definition empty_taint_fs :: taint_fs where
  "empty_taint_fs = \<lparr>tdir = DirPlain, tfiles = (\<lambda>p. Absent), tlocks = (\<lambda>p. None)\<rparr>"

lemma recorded_taint_visible_witness:
  "\<exists>fs'. commit_snapshot sample_store True True ''s'' sample_snapshot empty_taint_fs = (fs', Inr ())
     \<and> readTaintSnapshot sample_store fs' ''s'' = Some sample_snapshot
     \<and> effective_taint (readTaintSnapshot sample_store fs' ''s'')"
proof -
  have "readTaintSnapshot sample_store empty_taint_fs ''s'' = None"
    by (simp add: read_None_iff doubtful_def empty_taint_fs_def Let_def)
  then have op: "apply_op (Register Prompt sample_source)
      (loadOrInitSnapshot sample_store empty_taint_fs ''s'') = Inr sample_snapshot"
    using register_sample by (simp add: loadOrInitSnapshot_def sample_snapshot_def)
  have "snd (commit_snapshot sample_store True True ''s'' sample_snapshot empty_taint_fs) = Inr ()"
    by (simp add: commit_snapshot_def writeTaintSnapshot_def setPendingMarker_def Let_def
        taintPathIsUnsafe_def empty_taint_fs_def sample_snapshot_def createSnapshot_def)
  then obtain fs' where cm: "commit_snapshot sample_store True True ''s'' sample_snapshot empty_taint_fs
      = (fs', Inr ())" by (metis prod.collapse)
  have "decodes_back sample_store sample_snapshot" "marker_clean sample_store empty_taint_fs ''s''"
    by (simp_all add: decodes_back_def marker_clean_def sample_store_def empty_taint_fs_def)
  from recorded_taint_visible [OF op cm this] cm show ?thesis by blast
qed

text \<open>
  C4: doubt reads as taint: when the snapshot of a session is missing, unreadable, a symbolic
  link, malformed, of another session or marked as pending, or its directory is not a plain
  one, then the reader has no snapshot and the enforcement treats the session as tainted; in every
  other state the session's file holds a text that parses to a snapshot of this session, and the
  reader returns that snapshot.
\<close>

theorem doubt_reads_as_taint:
  "if doubtful e fs sid
   then readTaintSnapshot e fs sid = None \<and> effective_taint (readTaintSnapshot e fs sid)
   else (\<exists>raw s. tfiles fs (getTaintSnapshotPath e sid) = Regular raw \<and> se_parse e raw = Some s
           \<and> session_id s = sid \<and> readTaintSnapshot e fs sid = Some s)"
proof (cases "doubtful e fs sid")
  case False
  then obtain s where s: "readTaintSnapshot e fs sid = Some s" using read_None_iff by fastforce
  then obtain raw where "tfiles fs (getTaintSnapshotPath e sid) = Regular raw" "se_parse e raw = Some s"
    by (cases "tfiles fs (getTaintSnapshotPath e sid)")
      (auto simp: readTaintSnapshot_def taintPathIsUnsafe_def Let_def split: if_splits option.splits)
  with s False read_own show ?thesis by auto
qed (simp add: read_None_iff [symmetric] effective_taint_def)

section \<open>The verdict\<close>

lemma verdict_le_cases:
  "(v = DenyV \<longrightarrow> w = DenyV) \<Longrightarrow> (w = AllowV \<longrightarrow> v = AllowV) \<Longrightarrow> v \<le> (w :: verdict)"
  by (cases v; cases w) (simp_all add: less_eq_verdict_def)

lemma severity_ends: "Deny \<le> s \<longleftrightarrow> s = Deny" "s \<le> Advisory \<longleftrightarrow> s = Advisory"
  by (cases s; simp)+

text \<open>
  C29: the composer is monotone: for the same command, input with more taint, with matches at least
  as severe and a policy that allows no more never gets a milder verdict.
\<close>

theorem verdict_monotone:
  assumes "in_command j = in_command i"
    and "pd_allowed (in_policy j) \<longrightarrow> pd_allowed (in_policy i)"
    and "effective_taint (in_taint i) \<longrightarrow> effective_taint (in_taint j)"
    and "\<forall>m \<in> set (in_matches i). \<exists>m' \<in> set (in_matches j). mseverity m \<le> mseverity m'"
  shows "dverdict (decidePreToolUse i) \<le> dverdict (decidePreToolUse j)"
proof (rule verdict_le_cases)
  have fires: "keystone_fires i \<Longrightarrow> keystone_fires j"
    using assms(1,3) by (auto simp: keystone_fires_def)
  have deny: "\<exists>m \<in> set (in_matches j). mseverity m = Deny"
    if "m \<in> set (in_matches i)" "mseverity m = Deny" for m
    using assms(4) that by (metis severity_ends(1))
  show "dverdict (decidePreToolUse i) = DenyV \<longrightarrow> dverdict (decidePreToolUse j) = DenyV"
    using assms(2) fires deny unfolding verdict_deny_iff by blast
  have adv: "mseverity m = Advisory"
    if "m \<in> set (in_matches i)" "\<forall>m \<in> set (in_matches j). mseverity m = Advisory" for m
    using assms(4) that by (metis severity_ends(2))
  show "dverdict (decidePreToolUse j) = AllowV \<longrightarrow> dverdict (decidePreToolUse i) = AllowV"
    using assms(2) fires adv unfolding verdict_allow_iff by blast
qed

text \<open>
  A write by a native write tool to a path that a persistence pattern matches is never
  allowed: it needs an approval, and in a tainted session it is denied.
\<close>

theorem persistence_write_held:
  assumes "ev_tool ev \<in> set CLAUDE_NATIVE_WRITE_TOOLS" and "path \<in> set (pathsToEvaluate ev)"
    and "matches_table glob home PERSISTENCE_PATTERNS path"
    and "set (classifyToolEvent glob home ev) \<subseteq> set (in_matches i)"
  shows "dverdict (decidePreToolUse i) \<noteq> AllowV
     \<and> (event_tainted (ev_taint_state ev) \<longrightarrow> dverdict (decidePreToolUse i) = DenyV)"
proof -
  have "classifyPersistence glob home ev \<noteq> None"
    unfolding classifyPersistence_iff using assms(1-3) by (auto simp: list_ex_iff)
  then obtain m where m: "classifyPersistence glob home ev = Some m" by blast
  then have "m \<in> set (in_matches i)" using assms(4) by (auto simp: classifyToolEvent_def)
  with classifyPersistence_severity [OF m] show ?thesis
    unfolding verdict_allow_iff verdict_deny_iff by (auto split: if_splits)
qed

lemma verdict_monotone_witness:
  "dverdict (decidePreToolUse \<lparr>in_policy = \<lparr>pd_allowed = True, pd_reason = None\<rparr>, in_matches = [],
      in_command = None, in_taint = Some (createSnapshot ''s'')\<rparr>)
   \<le> dverdict (decidePreToolUse \<lparr>in_policy = \<lparr>pd_allowed = True, pd_reason = None\<rparr>, in_matches = [],
      in_command = None, in_taint = None\<rparr>)"
  by (rule verdict_monotone) (simp_all add: effective_taint_def)

lemma persistence_write_held_witness:
  "dverdict (decidePreToolUse \<lparr>in_policy = \<lparr>pd_allowed = True, pd_reason = None\<rparr>,
      in_matches = classifyToolEvent (=) ''/home/u''
        \<lparr>ev_tool = ''Write'', ev_target_paths = [''/home/u/.bashrc''], ev_resolved_paths = [],
         ev_taint_state = Some sample_snapshot\<rparr>,
      in_command = None, in_taint = None\<rparr>) = DenyV"
proof -
  let ?ev = "\<lparr>ev_tool = ''Write'', ev_target_paths = [''/home/u/.bashrc''], ev_resolved_paths = [],
         ev_taint_state = Some sample_snapshot\<rparr>"
  have "ev_tool ?ev \<in> set CLAUDE_NATIVE_WRITE_TOOLS" "''/home/u/.bashrc'' \<in> set (pathsToEvaluate ?ev)"
    "matches_table (=) ''/home/u'' PERSISTENCE_PATTERNS ''/home/u/.bashrc''" by code_simp+
  moreover have "event_tainted (ev_taint_state ?ev)"
    by (simp add: event_tainted_def hasAnyTaint_iff sample_snapshot_def hasKind_def sample_source_def active_def)
  ultimately show ?thesis
    using persistence_write_held [of ?ev "''/home/u/.bashrc''" "(=)" "''/home/u''"] by simp
qed

end
