(* ===== verification/Sensitive.thy ===== *)
theory Sensitive
  imports Prelude
begin

text \<open>
  Sensitive paths, \<^verbatim>\<open>packages/core/src/risk/sensitive.ts\<close>: the glob list, glob matching with
  the third-party matcher as a parameter, and the expansion of a path into the candidates that
  policy and risk evaluate. The record \<open>path_env\<close> holds what the file reads from the system.
\<close>

definition SENSITIVE_GLOBS :: "string list" where
  "SENSITIVE_GLOBS =
    [''**/.env'', ''**/.env.*'', ''**/*secret*'', ''**/*credential*'', ''**/id_rsa'',
     ''**/id_ed25519'', ''**/*.pem'', ''**/*.key'', ''**/*.p12'', ''**/*.pfx'',
     ''**/*.keystore'', ''**/*apikey*'', ''**/*api_key*'', ''**/*token*'', ''**/.npmrc'',
     ''**/.pypirc'', ''**/.netrc'', ''**/.htpasswd'', ''**/.ssh/*'', ''**/.aws/credentials'',
     ''**/.gcloud/*.json'', ''**/.azure/*.json'', ''**/*.sqlite'', ''**/*.db'']"

record path_env =
  pe_match :: "string \<Rightarrow> string \<Rightarrow> bool"
  pe_realpath :: "string \<Rightarrow> string option"
  pe_process_cwd :: string

text \<open>\<open>picomatch.isMatch(normalized, pattern)\<close>, with backslashes read as slashes.\<close>

definition matchesGlob :: "path_env \<Rightarrow> string \<Rightarrow> string \<Rightarrow> bool" where
  "matchesGlob e filePath pattern =
    pe_match e (map (\<lambda>c. if c = CHR 0x5C then CHR ''/'' else c) filePath) pattern"

text \<open>\<open>path.posix.resolve(a, b)\<close>.\<close>

definition path_resolve :: "string \<Rightarrow> string \<Rightarrow> string \<Rightarrow> string" where
  "path_resolve process_cwd a b =
    (let full = (if is_absolute b then b
                 else if is_absolute a then a @ ''/'' @ b
                 else process_cwd @ ''/'' @ a @ ''/'' @ b)
     in ''/'' @ join ''/'' (norm_segments True [] (split_on (CHR ''/'') full)))"

definition expandPathCandidates :: "path_env \<Rightarrow> string \<Rightarrow> string option \<Rightarrow> string list" where
  "expandPathCandidates e raw cwd =
    (if raw = [] then []
     else
       (let absLike = (if is_absolute raw then raw
                       else case str_or cwd None of
                              Some c \<Rightarrow> path_resolve (pe_process_cwd e) c raw
                            | None \<Rightarrow> raw)
        in uniq ([raw, absLike] @ (case pe_realpath e absLike of None \<Rightarrow> [] | Some r \<Rightarrow> [r]))))"

section \<open>Facts\<close>

lemma raw_in_candidates: "raw \<noteq> [] \<Longrightarrow> raw \<in> set (expandPathCandidates e raw cwd)"
  by (simp add: expandPathCandidates_def Let_def)

lemma realpath_in_candidates:
  "raw \<noteq> [] \<Longrightarrow> is_absolute raw \<Longrightarrow> pe_realpath e raw = Some r
   \<Longrightarrow> r \<in> set (expandPathCandidates e raw cwd)"
  by (simp add: expandPathCandidates_def Let_def)

text \<open>What \<open>path.resolve\<close> returns has no empty, current or parent segments.\<close>

definition plain_segment :: "string \<Rightarrow> bool" where
  "plain_segment s \<longleftrightarrow> s \<noteq> [] \<and> s \<noteq> ''.'' \<and> s \<noteq> ''..''"

lemma norm_segments_root:
  "list_all plain_segment st \<Longrightarrow> list_all plain_segment (norm_segments True st ss)"
proof (induction ss arbitrary: st)
  case (Cons s ss)
  have tl: "list_all plain_segment (tl st)"
    using Cons.prems by (cases st) simp_all
  have push: "list_all plain_segment (norm_segments True (s # st) ss)" if "plain_segment s"
    using Cons.IH [of "s # st"] Cons.prems that by simp
  show ?case
    using Cons.IH [OF Cons.prems] Cons.IH [OF tl] push
    by (auto simp: plain_segment_def [of s])
qed (simp add: list_all_rev)

end
