(* ===== verification/RiskClassifier.thy ===== *)
theory RiskClassifier
  imports Sensitive
begin

text \<open>
  The risk classifier, \<^verbatim>\<open>packages/core/src/risk/classifier.ts\<close>. Actions are strings as in the
  event schema; the levels are ordered.
\<close>

datatype risk_level = RNone | RLow | RMedium | RHigh | RCritical

fun risk_index :: "risk_level \<Rightarrow> nat" where
  "risk_index RNone = 0"
| "risk_index RLow = 1"
| "risk_index RMedium = 2"
| "risk_index RHigh = 3"
| "risk_index RCritical = 4"

fun risk_name :: "risk_level \<Rightarrow> string" where
  "risk_name RNone = ''none''"
| "risk_name RLow = ''low''"
| "risk_name RMedium = ''medium''"
| "risk_name RHigh = ''high''"
| "risk_name RCritical = ''critical''"

instantiation risk_level :: linorder
begin

definition less_eq_risk_level :: "risk_level \<Rightarrow> risk_level \<Rightarrow> bool" where
  "a \<le> b \<longleftrightarrow> risk_index a \<le> risk_index b"

definition less_risk_level :: "risk_level \<Rightarrow> risk_level \<Rightarrow> bool" where
  "a < b \<longleftrightarrow> risk_index a < risk_index b"

instance
proof
  fix x y :: risk_level
  show "x \<le> y \<Longrightarrow> y \<le> x \<Longrightarrow> x = y"
    by (cases x; cases y) (simp_all add: less_eq_risk_level_def)
qed (auto simp: less_eq_risk_level_def less_risk_level_def)

end

text \<open>The target of an action; every field but the type may be absent.\<close>

record target =
  tg_type :: string
  tg_path :: "string option"
  tg_abs_path :: "string option"
  tg_command :: "string option"
  tg_url :: "string option"
  tg_tool_name :: "string option"

record risk =
  risk_of :: risk_level
  risk_flags :: "string list"

definition DENY_COMMAND_PREFIXES :: "string list" where
  "DENY_COMMAND_PREFIXES = [''rm -rf'', ''rm -r'', ''sudo '', ''curl '', ''wget '', ''ssh '', ''scp '',
     ''dd '', '':(){ '', ''chmod 777'', ''mkfs'', ''> /dev/'']"

definition HIGH_RISK_COMMAND_PREFIXES :: "string list" where
  "HIGH_RISK_COMMAND_PREFIXES = [''npm install'', ''npm i '', ''pip install'', ''brew install'',
     ''apt install'', ''apt-get install'', ''git rebase'', ''git reset'', ''git push --force'',
     ''git push -f'', ''docker run'']"

definition CONFIG_FILE_PATTERNS :: "string list" where
  "CONFIG_FILE_PATTERNS = [''package.json'', ''package-lock.json'', ''tsconfig.json'',
     ''Dockerfile'', ''docker-compose'', ''.github/workflows'', ''.gitlab-ci'', ''Makefile'',
     ''Cargo.toml'', ''go.mod'', ''pyproject.toml'', ''requirements.txt'']"

section \<open>Loopback targets\<close>

text \<open>
  \<open>/\bhttps?:\/\/(\[[^\]]+\]|[^\s\/:\)\?\#]+)/gi\<close> over a lower-cased command: the hosts the
  matches capture. A match starts at a word boundary, so after no word character; the search goes
  on after the capture.
\<close>

definition host_stop :: "char \<Rightarrow> bool" where
  "host_stop c \<longleftrightarrow> is_space c \<or> c \<in> {CHR ''/'', CHR '':'', CHR '')'', CHR ''?'', CHR ''#''}"

definition url_host :: "string \<Rightarrow> (string \<times> string) option" where
  "url_host s =
    (let bracket = (if starts_with s ''['' then
                      (let b = takeWhile (\<lambda>c. c \<noteq> CHR '']'') (tl s);
                           r = dropWhile (\<lambda>c. c \<noteq> CHR '']'') (tl s)
                       in if b \<noteq> [] \<and> r \<noteq> [] then Some (''['' @ b @ '']'', tl r) else None)
                    else None)
     in case bracket of
          Some m \<Rightarrow> Some m
        | None \<Rightarrow>
            (let h = takeWhile (\<lambda>c. \<not> host_stop c) s
             in if h = [] then None else Some (h, dropWhile (\<lambda>c. \<not> host_stop c) s)))"

definition url_match :: "string \<Rightarrow> (string \<times> string) option" where
  "url_match s =
    (if starts_with s ''http://'' then url_host (drop 7 s)
     else if starts_with s ''https://'' then url_host (drop 8 s)
     else None)"

text \<open>One capture from the head of the suffix, if any, and the suffix the scan goes on with.\<close>

definition host_step :: "bool \<Rightarrow> char \<Rightarrow> string \<Rightarrow> string option \<times> bool \<times> string" where
  "host_step after_word c cs =
    (case (if after_word then None else url_match (c # cs)) of
       None \<Rightarrow> (None, is_alnumu c, cs)
     | Some (h, r) \<Rightarrow> (Some h, is_alnumu (last h), r))"

lemma length_url_host: "url_host s = Some (h, r) \<Longrightarrow> length r \<le> length s"
  using length_dropWhile_le [of "\<lambda>c. \<not> host_stop c" s]
    length_dropWhile_le [of "\<lambda>c. c \<noteq> CHR '']''" "tl s"]
  by (auto simp: url_host_def Let_def split: if_splits option.splits)

lemma length_host_step [termination_simp]:
  "length (snd (snd (host_step w c cs))) < Suc (length cs)"
proof (cases "if w then None else url_match (c # cs)")
  case None
  then show ?thesis by (simp add: host_step_def)
next
  case (Some hr)
  obtain h r where hr: "hr = (h, r)" by (cases hr)
  have "length r \<le> length cs - 6"
    using Some hr length_url_host [of "drop 7 (c # cs)" h r] length_url_host [of "drop 8 (c # cs)" h r]
    by (auto simp: url_match_def split: if_splits)
  with Some hr show ?thesis by (simp add: host_step_def)
qed

fun url_hosts :: "bool \<Rightarrow> string \<Rightarrow> string list" where
  "url_hosts w [] = []"
| "url_hosts w (c # cs) =
    (let rest = url_hosts (fst (snd (host_step w c cs))) (snd (snd (host_step w c cs)))
     in case fst (host_step w c cs) of None \<Rightarrow> rest | Some h \<Rightarrow> h # rest)"

text \<open>User-info and brackets are stripped from a host.\<close>

definition after_at :: "string \<Rightarrow> string" where
  "after_at h = (let p = last (split_on (CHR ''@'') h) in if p = [] then h else p)"

definition strip_brackets :: "string \<Rightarrow> string" where
  "strip_brackets h =
    (let a = (if starts_with h ''['' then tl h else h)
     in if ends_with a '']'' then butlast a else a)"

definition isLoopback :: "string \<Rightarrow> bool" where
  "isLoopback h \<longleftrightarrow> h \<in> {''localhost'', ''127.0.0.1'', ''::1'', ''0:0:0:0:0:0:0:1''}"

text \<open>
  \<open>SAFE_LOOPBACK_HOST_RE\<close>: a loopback name between a start (the beginning, a blank, \<open>@\<close>, \<open>//\<close>) and
  a stop (\<open>:\<close>, a slash, a blank, \<open>?\<close>, \<open>#\<close>, the end).
\<close>

definition loopback_names :: "string list" where
  "loopback_names = [''localhost'', ''127.0.0.1'', ''[::1]'', ''[0:0:0:0:0:0:0:1]'']"

definition loopback_here :: "string \<Rightarrow> bool" where
  "loopback_here s \<longleftrightarrow>
    list_ex (\<lambda>n. starts_with s n \<and>
      (let r = drop (length n) s in
       r = [] \<or> is_space (hd r) \<or> hd r \<in> {CHR '':'', CHR ''/'', CHR ''?'', CHR ''#''}))
      loopback_names"

fun loopback_later :: "string \<Rightarrow> bool" where
  "loopback_later [] \<longleftrightarrow> False"
| "loopback_later (c # cs) \<longleftrightarrow>
     (is_space c \<or> c = CHR ''@'') \<and> loopback_here cs
     \<or> c = CHR ''/'' \<and> starts_with cs ''/'' \<and> loopback_here (tl cs)
     \<or> loopback_later cs"

definition SAFE_LOOPBACK_HOST_RE :: "string \<Rightarrow> bool" where
  "SAFE_LOOPBACK_HOST_RE s \<longleftrightarrow> loopback_here s \<or> loopback_later s"

definition targetsLoopbackOnly :: "string \<Rightarrow> bool" where
  "targetsLoopbackOnly cmd =
    (let hosts = map (\<lambda>h. strip_brackets (after_at (to_lower h))) (url_hosts False cmd)
     in if hosts \<noteq> [] then list_all isLoopback hosts else SAFE_LOOPBACK_HOST_RE cmd)"

section \<open>Classification\<close>

definition raiseLevel :: "risk_level \<Rightarrow> risk_level \<Rightarrow> risk_level" where
  "raiseLevel current candidate =
    (if risk_index candidate > risk_index current then candidate else current)"

type_synonym scoring = "risk_level \<times> string list"

definition raise_to :: "risk_level \<Rightarrow> scoring \<Rightarrow> scoring" where
  "raise_to l s = (raiseLevel (fst s) l, snd s)"

definition add_flag :: "string \<Rightarrow> scoring \<Rightarrow> scoring" where
  "add_flag f s = (fst s, snd s @ [f])"

text \<open>The file part: candidates of both paths, then the checks in the order of the code.\<close>

definition path_candidates :: "path_env \<Rightarrow> target \<Rightarrow> string list" where
  "path_candidates e t =
    uniq ((case str_or (tg_path t) None of None \<Rightarrow> [] | Some p \<Rightarrow> expandPathCandidates e p None)
          @ (case str_or (tg_abs_path t) None of
               None \<Rightarrow> [] | Some p \<Rightarrow> expandPathCandidates e p None))"

definition is_sensitive :: "path_env \<Rightarrow> string list \<Rightarrow> bool" where
  "is_sensitive e cs \<longleftrightarrow> list_ex (\<lambda>c. list_ex (matchesGlob e c) SENSITIVE_GLOBS) cs"

definition is_config :: "string list \<Rightarrow> bool" where
  "is_config cs \<longleftrightarrow> list_ex (\<lambda>c. list_ex (includes_str c) CONFIG_FILE_PATTERNS) cs"

definition file_risk :: "path_env \<Rightarrow> string \<Rightarrow> target \<Rightarrow> scoring \<Rightarrow> scoring" where
  "file_risk e action t s0 =
    (let cs = path_candidates e t;
         s1 = (if is_sensitive e cs then
                 raise_to (if action = ''file_read'' then RHigh else RCritical)
                   (add_flag ''sensitive_path'' s0)
               else s0);
         s2 = (if is_config cs then
                 (let s = add_flag ''config_file'' s1
                  in if action \<noteq> ''file_read'' then raise_to RHigh s else s)
               else s1);
         s3 = (if action \<in> {''file_write'', ''file_edit'', ''file_create''} then raise_to RMedium s2
               else s2);
         s4 = (if action = ''file_delete'' then raise_to RHigh (add_flag ''destructive'' s3) else s3);
         s5 = (if action = ''file_read'' \<and> fst s4 = RNone then (RLow, snd s4) else s4);
         s6 = (if action \<in> {''file_glob'', ''file_grep''} \<and> fst s5 = RNone then (RLow, snd s5)
               else s5)
     in s6)"

definition command_risk :: "string \<Rightarrow> scoring \<Rightarrow> scoring" where
  "command_risk command s0 =
    (let cmd = to_lower (trim command) in
     if list_ex (starts_with cmd) DENY_COMMAND_PREFIXES then
       (let s1 = add_flag ''dangerous_command'' s0 in
        if (starts_with cmd ''curl '' \<or> starts_with cmd ''wget '') \<and> targetsLoopbackOnly cmd
        then raise_to RMedium (add_flag ''loopback_target'' s1)
        else raise_to RCritical s1)
     else if list_ex (starts_with cmd) HIGH_RISK_COMMAND_PREFIXES then
       raise_to RHigh (add_flag ''install_or_modify_command'' s0)
     else raise_to RMedium s0)"

definition classifyRisk :: "path_env \<Rightarrow> string \<Rightarrow> target option \<Rightarrow> risk" where
  "classifyRisk e action tgt =
    (if starts_with action ''session_'' \<or> action = ''prompt_submit'' \<or> action = ''response_complete''
     then \<lparr>risk_of = RNone, risk_flags = []\<rparr>
     else
       (let s0 = (RNone, []);
            s1 = (case tgt of
                    None \<Rightarrow> s0
                  | Some t \<Rightarrow>
                      if truthy (tg_path t) \<or> truthy (tg_abs_path t)
                      then file_risk e action t s0 else s0);
            s2 = (case tgt of
                    None \<Rightarrow> s1
                  | Some t \<Rightarrow>
                      (case str_or (tg_command t) None of
                         None \<Rightarrow> s1 | Some c \<Rightarrow> command_risk c s1));
            s3 = (if action \<in> {''web_fetch'', ''web_search'', ''api_call''}
                  then raise_to RMedium (add_flag ''network_access'' s2) else s2);
            s4 = (if starts_with action ''mcp_'' then raise_to RMedium (add_flag ''mcp_tool'' s3)
                  else s3)
        in \<lparr>risk_of = fst s4, risk_flags = snd s4\<rparr>))"

section \<open>Facts\<close>

lemma raiseLevel_max [simp]: "raiseLevel a b = max a b"
  by (cases a; cases b) (simp_all add: raiseLevel_def max_def less_eq_risk_level_def)

lemma fst_scoring [simp]:
  "fst (raise_to l s) = max (fst s) l" "snd (raise_to l s) = snd s"
  "fst (add_flag f s) = fst s" "snd (add_flag f s) = snd s @ [f]"
  by (simp_all add: raise_to_def add_flag_def)

lemma RNone_least [simp]: "RNone \<le> l" "l \<le> RNone \<longleftrightarrow> l = RNone"
  by (cases l; simp add: less_eq_risk_level_def)+

lemma RCritical_greatest [simp]: "l \<le> RCritical"
  by (cases l) (simp_all add: less_eq_risk_level_def)

lemma keep_level: "l \<le> fst s \<Longrightarrow> l \<le> fst t \<Longrightarrow> l \<le> fst (if b then s else t)"
  by simp

lemma low_level: "l \<le> fst s \<Longrightarrow> l \<le> fst (if b \<and> fst s = RNone then (RLow, f) else s)"
  by (auto simp: less_eq_risk_level_def)

lemma file_risk_grows: "fst s \<le> fst (file_risk e a t s)"
  unfolding file_risk_def Let_def
  by (intro low_level keep_level) (simp_all add: le_max_iff_disj)

lemma command_risk_grows: "fst s \<le> fst (command_risk c s)"
  unfolding command_risk_def Let_def
  by (intro keep_level) (simp_all add: le_max_iff_disj)

lemma truthy_str_or: "truthy v \<longleftrightarrow> str_or v None \<noteq> None"
  by (cases v; cases "the v") (auto simp: truthy_def)

end
