(* ===== verification/PolicyEngine.thy ===== *)
theory PolicyEngine
  imports RiskClassifier
begin

text \<open>
  The rule-based policy, \<^verbatim>\<open>packages/core/src/policy/engine.ts\<close>. The URL parser and the regular
  expression engine of the platform are fields of \<open>policy_env\<close>, beside the path environment.
\<close>

section \<open>Data\<close>

datatype rule_action = AllowA | DenyA

record file_rule =
  fr_action :: rule_action
  fr_reason :: "string option"
  fr_pattern :: string

record command_rule =
  cr_action :: rule_action
  cr_reason :: "string option"
  cr_prefix :: "string option"
  cr_exact :: "string option"
  cr_regex :: "string option"

record network_rule =
  nr_action :: rule_action
  nr_reason :: "string option"
  nr_domain :: "string option"
  nr_url_prefix :: "string option"

record mcp_rule =
  mr_action :: rule_action
  mr_reason :: "string option"
  mr_server :: "string option"
  mr_tool :: "string option"

record 'r rule_set =
  rs_deny :: "'r list"
  rs_allow :: "'r list"
  rs_default :: rule_action

record policy =
  po_name :: string
  po_max_risk :: risk_level
  po_files :: "file_rule rule_set"
  po_commands :: "command_rule rule_set"
  po_network :: "network_rule rule_set"
  po_mcp :: "mcp_rule rule_set"
  po_trusted_paths :: "string list"

record rule_decision =
  rd_allowed :: bool
  rd_reason :: string
  rd_rule :: "string option"

text \<open>The parts of a parsed URL that the rules compare.\<close>

record url_parts =
  u_protocol :: string
  u_hostname :: string
  u_port :: string
  u_pathname :: string

text \<open>\<open>pv_regex p s\<close> is \<open>None\<close> where \<open>new RegExp(p)\<close> throws.\<close>

record policy_env =
  pv_paths :: path_env
  pv_url :: "string \<Rightarrow> url_parts option"
  pv_regex :: "string \<Rightarrow> string \<Rightarrow> bool option"

section \<open>Safe patterns\<close>

text \<open>From inside a character class to its closing bracket.\<close>

fun skip_class :: "string \<Rightarrow> string" where
  "skip_class [] = []"
| "skip_class (c # cs) =
     (if c = CHR '']'' then c # cs
      else if c = CHR 0x5C then skip_class (tl cs)
      else skip_class cs)"

lemma length_skip_class: "length (skip_class s) \<le> length s"
  by (induction s rule: skip_class.induct) auto

lemma length_tl_skip_class [termination_simp]:
  "length (tl (skip_class s)) < Suc (length s)" "length (skip_class s) - Suc 0 < Suc (length s)"
  using length_skip_class [of s] by simp_all

text \<open>
  The scan from an opening parenthesis: whether a quantifier was seen before the matching close,
  and the suffix after that close; \<open>None\<close> when it is never reached.
\<close>

fun group_scan :: "nat \<Rightarrow> bool \<Rightarrow> string \<Rightarrow> (bool \<times> string) option" where
  "group_scan depth q [] = None"
| "group_scan depth q (c # cs) =
     (if c = CHR 0x5C then group_scan depth q (tl cs)
      else if c = CHR ''['' then group_scan depth q (tl (skip_class cs))
      else if c = CHR ''('' then group_scan (Suc depth) q cs
      else if c = CHR '')'' then (if depth = 1 then Some (q, cs) else group_scan (depth - 1) q cs)
      else group_scan depth (q \<or> c = CHR ''+'' \<or> c = CHR ''*'') cs)"

definition quantified_group :: "string \<Rightarrow> bool" where
  "quantified_group s \<longleftrightarrow>
    (case group_scan 1 False s of
       Some (True, r) \<Rightarrow> r \<noteq> [] \<and> hd r \<in> {CHR ''+'', CHR ''*'', CHR ''?'', CHR 0x7B}
     | _ \<Rightarrow> False)"

fun hasNestedQuantifiers :: "string \<Rightarrow> bool" where
  "hasNestedQuantifiers [] \<longleftrightarrow> False"
| "hasNestedQuantifiers (c # cs) \<longleftrightarrow>
     (if c = CHR 0x5C then hasNestedQuantifiers (tl cs)
      else if c = CHR ''['' then hasNestedQuantifiers (tl (skip_class cs))
      else if c = CHR ''('' \<and> quantified_group cs then True
      else hasNestedQuantifiers cs)"

fun has_backreference :: "string \<Rightarrow> bool" where
  "has_backreference (c # d # cs) \<longleftrightarrow>
     c = CHR 0x5C \<and> in_range CHR ''1'' CHR ''9'' d \<or> has_backreference (d # cs)"
| "has_backreference _ \<longleftrightarrow> False"

definition has_lookbehind :: "string \<Rightarrow> bool" where
  "has_lookbehind s \<longleftrightarrow> includes_str s ''(?<='' \<or> includes_str s ''(?<!''"

definition MAX_POLICY_REGEX_LENGTH :: nat where
  "MAX_POLICY_REGEX_LENGTH = 256"

definition isSafePolicyRegex :: "policy_env \<Rightarrow> string \<Rightarrow> bool" where
  "isSafePolicyRegex e pattern \<longleftrightarrow>
    (if length pattern > MAX_POLICY_REGEX_LENGTH then False
     else if has_backreference pattern then False
     else if has_lookbehind pattern then False
     else if hasNestedQuantifiers pattern then False
     else pv_regex e pattern [] \<noteq> None)"

section \<open>Matching\<close>

text \<open>\<open>/[;&|<>$`(){}]|\\\n/\<close> on the text after a prefix.\<close>

definition shell_metachars :: "char list" where
  "shell_metachars = [CHR '';'', CHR ''&'', CHR ''|'', CHR ''<'', CHR ''>'', CHR ''$'', CHR 0x60,
     CHR ''('', CHR '')'', CHR 0x7B, CHR 0x7D]"

definition hasShellMetacharsAfter :: "string \<Rightarrow> nat \<Rightarrow> bool" where
  "hasShellMetacharsAfter command prefixLen \<longleftrightarrow>
    (let t = drop prefixLen command in
     list_ex (\<lambda>c. c \<in> set shell_metachars) t \<or> includes_str t [CHR 0x5C, newline])"

definition exact_or_regex :: "policy_env \<Rightarrow> string \<Rightarrow> command_rule \<Rightarrow> bool" where
  "exact_or_regex e command rule \<longleftrightarrow>
    (if truthy (cr_exact rule) \<and> cr_exact rule = Some (trim command) then True
     else
       (case str_or (cr_regex rule) None of
          None \<Rightarrow> False
        | Some p \<Rightarrow>
            if \<not> isSafePolicyRegex e p then False
            else (case pv_regex e p command of None \<Rightarrow> False | Some b \<Rightarrow> b)))"

definition matchesCommandRule :: "policy_env \<Rightarrow> string \<Rightarrow> command_rule \<Rightarrow> bool" where
  "matchesCommandRule e command rule \<longleftrightarrow>
    (case str_or (cr_prefix rule) None of
       None \<Rightarrow> exact_or_regex e command rule
     | Some p \<Rightarrow>
         if starts_with (to_lower command) (to_lower p)
         then \<not> (cr_action rule = AllowA \<and> hasShellMetacharsAfter command (length p))
         else exact_or_regex e command rule)"

definition matches_domain :: "policy_env \<Rightarrow> string \<Rightarrow> string \<Rightarrow> bool" where
  "matches_domain e url d \<longleftrightarrow>
    (case pv_url e url of
       None \<Rightarrow> False
     | Some u \<Rightarrow> u_hostname u = d \<or> ends_with (u_hostname u) (''.'' @ d))"

definition matches_url_prefix :: "policy_env \<Rightarrow> string \<Rightarrow> string \<Rightarrow> bool" where
  "matches_url_prefix e url pre \<longleftrightarrow>
    (case pv_url e url of
       None \<Rightarrow> False
     | Some t \<Rightarrow>
         (case pv_url e pre of
            None \<Rightarrow> False
          | Some a \<Rightarrow>
              if u_protocol t \<noteq> u_protocol a then False
              else if u_hostname t \<noteq> u_hostname a then False
              else if u_port t \<noteq> u_port a then False
              else
                (let want = u_pathname a; got = u_pathname t in
                 if \<not> starts_with got want then False
                 else if length got > length want \<and> \<not> ends_with want ''/''
                 then got ! length want = CHR ''/''
                 else True)))"

definition matchesNetworkRule :: "policy_env \<Rightarrow> string \<Rightarrow> network_rule \<Rightarrow> bool" where
  "matchesNetworkRule e url rule \<longleftrightarrow>
    (case str_or (nr_domain rule) None of
       Some d \<Rightarrow> matches_domain e url d
     | None \<Rightarrow>
         (case str_or (nr_url_prefix rule) None of
            Some p \<Rightarrow> matches_url_prefix e url p
          | None \<Rightarrow> False))"

text \<open>
  \<open>/^mcp__([^_][^]*?)__([^]+)$/\<close>: the shortest server that two underscores and some tool follow.
\<close>

fun split_server :: "string \<Rightarrow> string \<Rightarrow> (string \<times> string) option" where
  "split_server acc [] = None"
| "split_server acc (c # cs) =
     (if acc \<noteq> [] \<and> starts_with (c # cs) ''__'' \<and> length cs \<ge> 2 then Some (acc, tl cs)
      else if acc = [] \<and> c = CHR ''_'' then None
      else split_server (acc @ [c]) cs)"

definition parseMcpToolName :: "string \<Rightarrow> (string \<times> string) option" where
  "parseMcpToolName toolName =
    (if \<not> starts_with toolName ''mcp__'' then None
     else
       (case split_server [] (drop 5 toolName) of
          None \<Rightarrow> None
        | Some (server, tool) \<Rightarrow> if includes_str server ''__'' then None else Some (server, tool)))"

definition matchesMcpRule :: "string \<Rightarrow> mcp_rule \<Rightarrow> bool" where
  "matchesMcpRule toolName rule \<longleftrightarrow>
    (if truthy (mr_tool rule) \<and> mr_tool rule = Some toolName then True
     else
       (case str_or (mr_server rule) None of
          None \<Rightarrow> False
        | Some s \<Rightarrow>
            (case parseMcpToolName toolName of
               None \<Rightarrow> False
             | Some (server, tool) \<Rightarrow> server = s)))"

section \<open>Rule evaluation\<close>

definition mk_rule_decision :: "bool \<Rightarrow> string option \<Rightarrow> string \<Rightarrow> string \<Rightarrow> rule_decision" where
  "mk_rule_decision allowed reason fallback rule =
    \<lparr>rd_allowed = allowed,
     rd_reason = (case str_or reason None of Some r \<Rightarrow> r | None \<Rightarrow> fallback), rd_rule = Some rule\<rparr>"

text \<open>A rule's name: \<open>a || b || c\<close> printed, \<open>undefined\<close> where none is there.\<close>

definition print_opt :: "string option \<Rightarrow> string" where
  "print_opt v = (case v of Some s \<Rightarrow> s | None \<Rightarrow> ''undefined'')"

definition quoted :: "string \<Rightarrow> string" where
  "quoted s = CHR 0x22 # s @ [CHR 0x22]"

definition evaluateFileRules ::
  "policy_env \<Rightarrow> file_rule rule_set \<Rightarrow> string \<Rightarrow> rule_decision option" where
  "evaluateFileRules e rules p =
    (case find (\<lambda>r. matchesGlob (pv_paths e) p (fr_pattern r)) (rs_deny rules) of
       Some r \<Rightarrow> Some (mk_rule_decision False (fr_reason r)
         (''File '' @ quoted p @ '' matches deny pattern '' @ quoted (fr_pattern r))
         (''files.deny:'' @ fr_pattern r))
     | None \<Rightarrow>
         (case find (\<lambda>r. matchesGlob (pv_paths e) p (fr_pattern r)) (rs_allow rules) of
            Some r \<Rightarrow> Some (mk_rule_decision True (fr_reason r)
              (''File '' @ quoted p @ '' matches allow pattern '' @ quoted (fr_pattern r))
              (''files.allow:'' @ fr_pattern r))
          | None \<Rightarrow>
              if rs_default rules = DenyA
              then Some (mk_rule_decision False None
                     (''File '' @ quoted p @ '' not in allow list (default: deny)'')
                     ''files.default:deny'')
              else None))"

definition command_rule_name :: "command_rule \<Rightarrow> string" where
  "command_rule_name r = print_opt (str_or (cr_prefix r) (str_or (cr_exact r) (cr_regex r)))"

definition evaluateCommandRules ::
  "policy_env \<Rightarrow> command_rule rule_set \<Rightarrow> string \<Rightarrow> rule_decision option" where
  "evaluateCommandRules e rules command =
    (let cmd = trim command in
     case find (matchesCommandRule e cmd) (rs_deny rules) of
       Some r \<Rightarrow> Some (mk_rule_decision False (cr_reason r) ''Command denied by policy''
                          (''commands.deny:'' @ command_rule_name r))
     | None \<Rightarrow>
         (case find (matchesCommandRule e cmd) (rs_allow rules) of
            Some r \<Rightarrow> Some (mk_rule_decision True (cr_reason r) ''Command allowed by policy''
                               (''commands.allow:'' @ command_rule_name r))
          | None \<Rightarrow>
              if rs_default rules = DenyA
              then Some (mk_rule_decision False None
                     ''Command not in allow list (default: deny)'' ''commands.default:deny'')
              else None))"

definition network_rule_name :: "network_rule \<Rightarrow> string" where
  "network_rule_name r = print_opt (str_or (nr_domain r) (nr_url_prefix r))"

definition evaluateNetworkRules ::
  "policy_env \<Rightarrow> network_rule rule_set \<Rightarrow> string \<Rightarrow> rule_decision option" where
  "evaluateNetworkRules e rules url =
    (case find (matchesNetworkRule e url) (rs_deny rules) of
       Some r \<Rightarrow> Some (mk_rule_decision False (nr_reason r) ''Network access denied by policy''
                          (''network.deny:'' @ network_rule_name r))
     | None \<Rightarrow>
         (case find (matchesNetworkRule e url) (rs_allow rules) of
            Some r \<Rightarrow> Some (mk_rule_decision True (nr_reason r) ''Network access allowed by policy''
                               (''network.allow:'' @ network_rule_name r))
          | None \<Rightarrow>
              if rs_default rules = DenyA
              then Some (mk_rule_decision False None
                     ''Network access not in allow list (default: deny)'' ''network.default:deny'')
              else None))"

definition mcp_rule_name :: "mcp_rule \<Rightarrow> string" where
  "mcp_rule_name r = print_opt (str_or (mr_server r) (mr_tool r))"

definition evaluateMcpRules ::
  "mcp_rule rule_set \<Rightarrow> string \<Rightarrow> rule_decision option" where
  "evaluateMcpRules rules toolName =
    (case find (matchesMcpRule toolName) (rs_deny rules) of
       Some r \<Rightarrow> Some (mk_rule_decision False (mr_reason r) ''MCP tool denied by policy''
                          (''mcp.deny:'' @ mcp_rule_name r))
     | None \<Rightarrow>
         (case find (matchesMcpRule toolName) (rs_allow rules) of
            Some r \<Rightarrow> Some (mk_rule_decision True (mr_reason r) ''MCP tool allowed by policy''
                               (''mcp.allow:'' @ mcp_rule_name r))
          | None \<Rightarrow>
              if rs_default rules = DenyA
              then Some (mk_rule_decision False None
                     ''MCP tool not in allow list (default: deny)'' ''mcp.default:deny'')
              else None))"

section \<open>The decision\<close>

definition isFileAction :: "string \<Rightarrow> bool" where
  "isFileAction action \<longleftrightarrow> starts_with action ''file_''"

definition isCommandAction :: "string \<Rightarrow> bool" where
  "isCommandAction action \<longleftrightarrow> starts_with action ''command_''"

definition isNetworkAction :: "string \<Rightarrow> bool" where
  "isNetworkAction action \<longleftrightarrow> action \<in> {''web_fetch'', ''web_search'', ''api_call''}"

definition isMcpAction :: "string \<Rightarrow> bool" where
  "isMcpAction action \<longleftrightarrow> starts_with action ''mcp_''"

text \<open>\<open>RISK_ORDER.indexOf\<close>, \<open>-1\<close> for a level it does not list.\<close>

definition RISK_ORDER :: "string list" where
  "RISK_ORDER = [''none'', ''low'', ''medium'', ''high'', ''critical'']"

fun index_from :: "int \<Rightarrow> string list \<Rightarrow> string \<Rightarrow> int" where
  "index_from i [] x = - 1"
| "index_from i (y # ys) x = (if y = x then i else index_from (i + 1) ys x)"

definition risk_order_index :: "string \<Rightarrow> int" where
  "risk_order_index l = index_from 0 RISK_ORDER l"

record eval_input =
  ei_action :: string
  ei_risk_level :: string
  ei_target :: "target option"
  ei_cwd :: "string option"

definition raw_paths :: "target option \<Rightarrow> string list" where
  "raw_paths t =
    (case t of
       None \<Rightarrow> []
     | Some t' \<Rightarrow> filter (\<lambda>p. p \<noteq> []) (List.map_filter (\<lambda>v. v) [tg_path t', tg_abs_path t']))"

text \<open>The file step: a denial of any candidate, else the decision on the first path.\<close>

definition evaluate_file_step ::
  "policy_env \<Rightarrow> policy \<Rightarrow> eval_input \<Rightarrow> rule_decision option" where
  "evaluate_file_step e p i =
    (let raws = raw_paths (ei_target i);
         cands = uniq (concat (map (\<lambda>r. expandPathCandidates (pv_paths e) r (ei_cwd i)) raws))
     in if raws = [] then None
        else
          (case find (\<lambda>d. \<not> rd_allowed d)
                  (List.map_filter (evaluateFileRules e (po_files p)) cands) of
             Some d \<Rightarrow> Some d
           | None \<Rightarrow> evaluateFileRules e (po_files p) (hd raws)))"

definition first_some :: "'a option \<Rightarrow> 'a option \<Rightarrow> 'a option" where
  "first_some a b = (case a of Some x \<Rightarrow> Some x | None \<Rightarrow> b)"

definition target_field :: "eval_input \<Rightarrow> (target \<Rightarrow> string option) \<Rightarrow> string option" where
  "target_field i f = (case ei_target i of None \<Rightarrow> None | Some t \<Rightarrow> str_or (f t) None)"

definition evaluatePolicy :: "policy_env \<Rightarrow> policy \<Rightarrow> eval_input \<Rightarrow> rule_decision" where
  "evaluatePolicy e p i =
    (if risk_order_index (ei_risk_level i) > risk_order_index (risk_name (po_max_risk p)) then
       \<lparr>rd_allowed = False,
        rd_reason = ''Risk level '' @ quoted (ei_risk_level i) @ '' exceeds policy max ''
          @ quoted (risk_name (po_max_risk p)),
        rd_rule = Some (''max_risk:'' @ risk_name (po_max_risk p))\<rparr>
     else
       (case first_some (if isFileAction (ei_action i) then evaluate_file_step e p i else None)
            (first_some
               (case target_field i tg_command of
                  Some c \<Rightarrow> if isCommandAction (ei_action i)
                            then evaluateCommandRules e (po_commands p) c else None
                | None \<Rightarrow> None)
               (first_some
                  (case target_field i tg_url of
                     Some u \<Rightarrow> if isNetworkAction (ei_action i)
                               then evaluateNetworkRules e (po_network p) u else None
                   | None \<Rightarrow> None)
                  (case target_field i tg_tool_name of
                     Some t \<Rightarrow> if isMcpAction (ei_action i)
                               then evaluateMcpRules (po_mcp p) t else None
                   | None \<Rightarrow> None))) of
          Some d \<Rightarrow> d
        | None \<Rightarrow> \<lparr>rd_allowed = True, rd_reason = ''No policy rule matched'', rd_rule = None\<rparr>))"

section \<open>The contract of an evaluator\<close>

text \<open>
  The four evaluators promise the same thing: a deny rule that matches decides first, then an
  allow rule that matches, then the default. The laws are stated over the rules an evaluator
  consults for an input.
\<close>

locale rule_evaluator =
  fixes run :: "'r rule_set \<Rightarrow> 'i \<Rightarrow> rule_decision option"
    and matches :: "'i \<Rightarrow> 'r \<Rightarrow> bool"
  assumes denied: "find (matches x) (rs_deny rs) = Some r
      \<Longrightarrow> \<exists>d. run rs x = Some d \<and> \<not> rd_allowed d"
    and allowed: "find (matches x) (rs_deny rs) = None \<Longrightarrow> find (matches x) (rs_allow rs) = Some r
      \<Longrightarrow> \<exists>d. run rs x = Some d \<and> rd_allowed d"
    and unmatched: "find (matches x) (rs_deny rs) = None \<Longrightarrow> find (matches x) (rs_allow rs) = None
      \<Longrightarrow> (rs_default rs = DenyA \<and> (\<exists>d. run rs x = Some d \<and> \<not> rd_allowed d))
          \<or> (rs_default rs \<noteq> DenyA \<and> run rs x = None)"
begin

definition blocks :: "'r rule_set \<Rightarrow> 'i \<Rightarrow> bool" where
  "blocks rs x \<longleftrightarrow> (\<exists>d. run rs x = Some d \<and> \<not> rd_allowed d)"

definition permits :: "'r rule_set \<Rightarrow> 'i \<Rightarrow> bool" where
  "permits rs x \<longleftrightarrow> (\<exists>d. run rs x = Some d \<and> rd_allowed d)"

lemma find_exists: "(\<exists>r \<in> set rules. matches x r) \<longleftrightarrow> find (matches x) rules \<noteq> None"
  by (auto simp: find_None_iff)

lemma blocks_iff:
  "blocks rs x \<longleftrightarrow> (\<exists>r \<in> set (rs_deny rs). matches x r)
     \<or> (rs_default rs = DenyA \<and> (\<forall>r \<in> set (rs_allow rs). \<not> matches x r))"
proof -
  have allow: "(\<forall>r \<in> set (rs_allow rs). \<not> matches x r) \<longleftrightarrow> find (matches x) (rs_allow rs) = None"
    using find_exists [of "rs_allow rs"] by blast
  show ?thesis
    unfolding find_exists allow blocks_def
    using denied [of x rs] allowed [of x rs] unmatched [of x rs] by fastforce
qed

lemma permits_iff:
  "permits rs x \<longleftrightarrow> (\<forall>r \<in> set (rs_deny rs). \<not> matches x r) \<and> (\<exists>r \<in> set (rs_allow rs). matches x r)"
proof -
  have deny: "(\<forall>r \<in> set (rs_deny rs). \<not> matches x r) \<longleftrightarrow> find (matches x) (rs_deny rs) = None"
    using find_exists [of "rs_deny rs"] by blast
  show ?thesis
    unfolding find_exists deny permits_def
    using denied [of x rs] allowed [of x rs] unmatched [of x rs] by fastforce
qed

text \<open>Adding deny rules never turns a refusal into a permission.\<close>

lemma more_denies:
  "set (rs_deny rs) \<subseteq> set (rs_deny rs') \<Longrightarrow> rs_allow rs' = rs_allow rs
   \<Longrightarrow> rs_default rs' = rs_default rs \<Longrightarrow> blocks rs x \<Longrightarrow> blocks rs' x"
  by (auto simp: blocks_iff)

end

lemma rd_allowed_mk [simp]: "rd_allowed (mk_rule_decision b r f n) = b"
  by (simp add: mk_rule_decision_def)

interpretation file_rules:
  rule_evaluator "evaluateFileRules e" "\<lambda>p r. matchesGlob (pv_paths e) p (fr_pattern r)" for e
  by unfold_locales (auto simp: evaluateFileRules_def split: option.split)

interpretation command_rules:
  rule_evaluator "evaluateCommandRules e" "\<lambda>c r. matchesCommandRule e (trim c) r" for e
  by unfold_locales (auto simp: evaluateCommandRules_def Let_def split: option.split)

interpretation network_rules: rule_evaluator "evaluateNetworkRules e" "matchesNetworkRule e" for e
  by unfold_locales (auto simp: evaluateNetworkRules_def split: option.split)

interpretation mcp_rules: rule_evaluator evaluateMcpRules matchesMcpRule
  by unfold_locales (auto simp: evaluateMcpRules_def split: option.split)

end
