(* ===== verification/PolicyLoader.thy ===== *)
theory PolicyLoader
  imports PolicyEngine
begin

text \<open>
  Which policy applies, \<^verbatim>\<open>packages/core/src/policy/loader.ts\<close>, and the two built-in policies. The
  environment holds what the loader reads from the system: the platform's default path, the
  variables, the status of a path, and the parse of an existing file (third-party YAML with the
  schema of the third-party validator), \<open>None\<close> where it throws.
\<close>

record file_status =
  fs_uid :: nat
  fs_mode :: nat

record loader_env =
  le_default_path :: string
  le_override :: "string option"
  le_test_env :: bool
  le_home :: string
  le_stat :: "string \<Rightarrow> file_status option"
  le_exists :: "string \<Rightarrow> bool"
  le_parse :: "string \<Rightarrow> policy option"

text \<open>\<open>(mode & 0o022) !== 0\<close>: the write bit of the group or of the others is set.\<close>

definition isRootOwnedAndProtected :: "loader_env \<Rightarrow> string \<Rightarrow> bool" where
  "isRootOwnedAndProtected e path \<longleftrightarrow>
    (case le_stat e path of
       None \<Rightarrow> False
     | Some st \<Rightarrow>
         if fs_uid st \<noteq> 0 then False
         else if odd (fs_mode st div 16) \<or> odd (fs_mode st div 2) then False
         else True)"

definition getSystemPolicyPath :: "loader_env \<Rightarrow> string" where
  "getSystemPolicyPath e =
    (case str_or (le_override e) None of
       Some p \<Rightarrow> if le_test_env e then p else if isRootOwnedAndProtected e p then p
                else le_default_path e
     | None \<Rightarrow> le_default_path e)"

definition loadPolicyFromFile :: "loader_env \<Rightarrow> string \<Rightarrow> policy result" where
  "loadPolicyFromFile e path =
    (case le_parse e path of
       None \<Rightarrow> Inl (Thrown ''policy file does not parse'') | Some p \<Rightarrow> Inr p)"

definition open_rules :: "'r rule_set" where
  "open_rules = \<lparr>rs_deny = [], rs_allow = [], rs_default = AllowA\<rparr>"

definition DEFAULT_POLICY :: policy where
  "DEFAULT_POLICY =
    \<lparr>po_name = ''default'', po_max_risk = RCritical, po_files = open_rules,
     po_commands = open_rules, po_network = open_rules, po_mcp = open_rules,
     po_trusted_paths = []\<rparr>"

definition prefix_rule :: "rule_action \<Rightarrow> string \<times> string \<Rightarrow> command_rule" where
  "prefix_rule a pr =
    \<lparr>cr_action = a, cr_reason = Some (snd pr), cr_prefix = Some (fst pr), cr_exact = None,
     cr_regex = None\<rparr>"

definition STRICT_POLICY :: policy where
  "STRICT_POLICY =
    \<lparr>po_name = ''strict'', po_max_risk = RHigh,
     po_files = open_rules\<lparr>rs_deny := map (\<lambda>(p, r). \<lparr>fr_action = DenyA, fr_reason = Some r, fr_pattern = p\<rparr>)
       [(''**/.env'', ''Environment files contain secrets''),
        (''**/.env.*'', ''Environment files contain secrets''),
        (''**/*.key'', ''Private key files''), (''**/*.pem'', ''Certificate files''),
        (''**/.ssh/*'', ''SSH configuration''), (''**/.aws/credentials'', ''AWS credentials''),
        (''**/*secret*'', ''Files containing secrets'')]\<rparr>,
     po_commands =
       \<lparr>rs_deny = map (prefix_rule DenyA)
          [(''rm -rf'', ''Recursive force delete''), (''sudo'', ''Elevated privileges''),
           (''curl'', ''Network commands blocked in strict mode''),
           (''wget'', ''Network commands blocked in strict mode''),
           (''ssh'', ''Remote access blocked''), (''scp'', ''Remote copy blocked''),
           (''git push --force'', ''Force push blocked''), (''git push -f'', ''Force push blocked''),
           (''chmod 777'', ''Overly permissive file permissions'')],
        rs_allow = map (prefix_rule AllowA)
          [(''npm test'', ''Test execution''), (''npm run'', ''Script execution''),
           (''npx'', ''Package runner''), (''git status'', ''Git status check''),
           (''git diff'', ''Git diff''), (''git log'', ''Git log''), (''git add'', ''Git staging''),
           (''git commit'', ''Git commit''), (''ls'', ''Directory listing''), (''cat'', ''File reading'')],
        rs_default = AllowA\<rparr>,
     po_network = open_rules, po_mcp = open_rules, po_trusted_paths = []\<rparr>"

definition loadActivePolicy :: "loader_env \<Rightarrow> string option \<Rightarrow> (policy \<times> string) result" where
  "loadActivePolicy e cwd =
    (let systemPath = getSystemPolicyPath e;
         userPath = path_join [le_home e, ''.patchwork'', ''policy.yml''];
         load = (\<lambda>path source. bind_result (loadPolicyFromFile e path) (\<lambda>p. Inr (p, source)))
     in if le_exists e systemPath then load systemPath (''system:'' @ systemPath)
        else if le_exists e userPath then load userPath userPath
        else
          (case str_or cwd None of
             None \<Rightarrow> Inr (DEFAULT_POLICY, ''built-in'')
           | Some c \<Rightarrow>
               (let projectPath = path_join [c, ''.patchwork'', ''policy.yml''] in
                if le_exists e projectPath then load projectPath projectPath
                else Inr (DEFAULT_POLICY, ''built-in''))))"

section \<open>Facts\<close>

text \<open>The working directory, and so a repository, has a say only where no other policy exists.\<close>

lemma loadActivePolicy_project:
  "le_exists e (getSystemPolicyPath e) \<or> le_exists e (path_join [le_home e, ''.patchwork'', ''policy.yml''])
   \<Longrightarrow> loadActivePolicy e cwd = loadActivePolicy e cwd'"
  by (auto simp: loadActivePolicy_def Let_def)

text \<open>A variable that is not of the test environment never names an unprotected system policy.\<close>

lemma getSystemPolicyPath_safe:
  "\<not> le_test_env e \<Longrightarrow> getSystemPolicyPath e = le_default_path e
     \<or> isRootOwnedAndProtected e (getSystemPolicyPath e)"
  by (auto simp: getSystemPolicyPath_def split: option.split)

end
