(* ===== verification/Json.thy ===== *)
theory Json
  imports Prelude
begin

text \<open>
  JSON values and \<open>JSON.stringify\<close> on them. Objects are insertion-ordered lists of members with
  distinct names; numbers are integers, printed in decimal.
\<close>

datatype json =
    JNull
  | JBool bool
  | JNum int
  | JStr string
  | JArr "json list"
  | JObj "(string \<times> json) list"

text \<open>\<open>v[k]\<close> for a name that no object inherits: \<open>None\<close> is undefined.\<close>

fun json_get :: "json \<Rightarrow> string \<Rightarrow> json option" where
  "json_get (JObj ms) k = map_of ms k"
| "json_get _ k = None"

fun is_JObj :: "json \<Rightarrow> bool" where
  "is_JObj (JObj ms) \<longleftrightarrow> True"
| "is_JObj _ \<longleftrightarrow> False"

section \<open>Printing\<close>

definition hex_char :: "nat \<Rightarrow> char" where
  "hex_char n = (if n < 10 then char_of (48 + n) else char_of (87 + n))"

text \<open>The escapes of \<open>JSON.stringify\<close>; bytes from 0x20 up, other than quote and backslash, stay.\<close>

definition escape_char :: "char \<Rightarrow> string" where
  "escape_char c =
    (let n = (of_char c :: nat) in
     if c = CHR 0x22 then [CHR 0x5C, CHR 0x22]
     else if c = CHR 0x5C then [CHR 0x5C, CHR 0x5C]
     else if n \<ge> 32 then [c]
     else if n = 8 then [CHR 0x5C, CHR ''b'']
     else if n = 9 then [CHR 0x5C, CHR ''t'']
     else if n = 10 then [CHR 0x5C, CHR ''n'']
     else if n = 12 then [CHR 0x5C, CHR ''f'']
     else if n = 13 then [CHR 0x5C, CHR ''r'']
     else [CHR 0x5C, CHR ''u'', CHR ''0'', CHR ''0'', hex_char (n div 16), hex_char (n mod 16)])"

definition quote_json :: "string \<Rightarrow> string" where
  "quote_json s = CHR 0x22 # concat (map escape_char s) @ [CHR 0x22]"

fun digits_of :: "nat \<Rightarrow> string" where
  "digits_of n = (if n < 10 then [char_of (48 + n)]
     else digits_of (n div 10) @ [char_of (48 + n mod 10)])"

declare digits_of.simps [simp del]

definition print_int :: "int \<Rightarrow> string" where
  "print_int i = (if i < 0 then CHR ''-'' # digits_of (nat (- i)) else digits_of (nat i))"

text \<open>\<open>JSON.stringify(v)\<close> without indentation.\<close>

fun stringify :: "json \<Rightarrow> string" where
  "stringify JNull = ''null''"
| "stringify (JBool b) = (if b then ''true'' else ''false'')"
| "stringify (JNum i) = print_int i"
| "stringify (JStr s) = quote_json s"
| "stringify (JArr vs) = ''['' @ join '','' (map stringify vs) @ '']''"
| "stringify (JObj ms) =
     CHR 0x7B # join '','' (map (\<lambda>m. quote_json (fst m) @ '':'' @ stringify (snd m)) ms) @ [CHR 0x7D]"

section \<open>Unique reading\<close>

text \<open>
  A reader for printed values, the remaining text returned, that shows that printing loses
  nothing. It reads what \<open>stringify\<close> writes, not all of JSON.
\<close>

definition hex_val :: "char \<Rightarrow> nat" where
  "hex_val c = (let n = (of_char c :: nat) in if n < 58 then n - 48 else n - 87)"

definition read_escape :: "string \<Rightarrow> (char \<times> string) option" where
  "read_escape s =
    (case s of
       [] \<Rightarrow> None
     | x # r \<Rightarrow>
         if x = CHR 0x22 \<or> x = CHR 0x5C then Some (x, r)
         else if x = CHR ''b'' then Some (CHR 0x08, r)
         else if x = CHR ''t'' then Some (CHR 0x09, r)
         else if x = CHR ''n'' then Some (CHR 0x0A, r)
         else if x = CHR ''f'' then Some (CHR 0x0C, r)
         else if x = CHR ''r'' then Some (CHR 0x0D, r)
         else Some (char_of (16 * hex_val (r ! 2) + hex_val (r ! 3)), drop 4 r))"

fun read_str :: "nat \<Rightarrow> string \<Rightarrow> (string \<times> string) option" where
  "read_str 0 s = None"
| "read_str (Suc n) [] = None"
| "read_str (Suc n) (c # cs) =
     (if c = CHR 0x22 then Some ([], cs)
      else
        (case (if c = CHR 0x5C then read_escape cs else Some (c, cs)) of
           None \<Rightarrow> None
         | Some (d, r) \<Rightarrow>
             (case read_str n r of None \<Rightarrow> None | Some (ds, q) \<Rightarrow> Some (d # ds, q))))"

definition digit_val :: "char \<Rightarrow> nat" where
  "digit_val c = of_char c - 48"

definition read_nat :: "string \<Rightarrow> nat" where
  "read_nat s = foldl (\<lambda>n c. 10 * n + digit_val c) 0 s"

definition read_int :: "string \<Rightarrow> int \<times> string" where
  "read_int s =
    (if starts_with s ''-''
     then (- int (read_nat (takeWhile is_digit (tl s))), dropWhile is_digit (tl s))
     else (int (read_nat (takeWhile is_digit s)), dropWhile is_digit s))"

fun read_value :: "nat \<Rightarrow> string \<Rightarrow> (json \<times> string) option"
and read_elems :: "nat \<Rightarrow> string \<Rightarrow> (json list \<times> string) option"
and read_members :: "nat \<Rightarrow> string \<Rightarrow> ((string \<times> json) list \<times> string) option"
where
  "read_value 0 s = None"
| "read_value (Suc n) s =
    (case s of
       [] \<Rightarrow> None
     | c # cs \<Rightarrow>
         if c = CHR ''n'' then Some (JNull, drop 3 cs)
         else if c = CHR ''t'' then Some (JBool True, drop 3 cs)
         else if c = CHR ''f'' then Some (JBool False, drop 4 cs)
         else if c = CHR 0x22 then
           (case read_str n cs of None \<Rightarrow> None | Some (t, r) \<Rightarrow> Some (JStr t, r))
         else if c = CHR ''['' then
           (if starts_with cs '']'' then Some (JArr [], tl cs)
            else (case read_elems n cs of None \<Rightarrow> None | Some (vs, r) \<Rightarrow> Some (JArr vs, r)))
         else if c = CHR 0x7B then
           (if starts_with cs [CHR 0x7D] then Some (JObj [], tl cs)
            else (case read_members n cs of None \<Rightarrow> None | Some (ms, r) \<Rightarrow> Some (JObj ms, r)))
         else Some (JNum (fst (read_int s)), snd (read_int s)))"
| "read_elems 0 s = None"
| "read_elems (Suc n) s =
    (case read_value n s of
       None \<Rightarrow> None
     | Some (v, r) \<Rightarrow>
         if starts_with r '','' then
           (case read_elems n (tl r) of None \<Rightarrow> None | Some (vs, q) \<Rightarrow> Some (v # vs, q))
         else Some ([v], tl r))"
| "read_members 0 s = None"
| "read_members (Suc n) s =
    (case read_str n (tl s) of
       None \<Rightarrow> None
     | Some (k, r) \<Rightarrow>
         (case read_value n (tl r) of
            None \<Rightarrow> None
          | Some (v, q) \<Rightarrow>
              if starts_with q '','' then
                (case read_members n (tl q) of
                   None \<Rightarrow> None | Some (ms, t) \<Rightarrow> Some ((k, v) # ms, t))
              else Some ([(k, v)], tl q)))"

lemma hex_val_char: "n < 16 \<Longrightarrow> hex_val (hex_char n) = n"
  by (auto simp: hex_val_def hex_char_def Let_def)

lemma char_eqI: "(of_char c :: nat) = of_char d \<Longrightarrow> c = d"
  by (metis char_of_char)

lemma escape_char_cases:
  obtains "escape_char c = [c]" "c \<noteq> CHR 0x22" "c \<noteq> CHR 0x5C"
  | x where "escape_char c = CHR 0x5C # x" "\<And>r. read_escape (x @ r) = Some (c, r)"
proof -
  define n :: nat where "n = of_char c"
  have c: "c = char_of n" by (simp add: n_def)
  consider "c = CHR 0x22 \<or> c = CHR 0x5C" | "c \<noteq> CHR 0x22" "c \<noteq> CHR 0x5C" "32 \<le> n"
    | "c \<noteq> CHR 0x22" "c \<noteq> CHR 0x5C" "n \<in> {8, 9, 10, 12, 13}"
    | "c \<noteq> CHR 0x22" "c \<noteq> CHR 0x5C" "n < 32" "n \<notin> {8, 9, 10, 12, 13}"
    by fastforce
  then show thesis
  proof cases
    case 1
    then show ?thesis
      by (intro that(2) [of "[c]"]) (auto simp: escape_char_def read_escape_def Let_def)
  next
    case 2
    then show ?thesis by (intro that(1)) (auto simp: escape_char_def n_def Let_def)
  next
    case 3
    then have "c \<in> {CHR 0x08, CHR 0x09, CHR 0x0A, CHR 0x0C, CHR 0x0D}"
      by (auto simp: n_def intro: char_eqI)
    then have "\<exists>x. escape_char c = [CHR 0x5C, x] \<and> (\<forall>r. read_escape (x # r) = Some (c, r))"
      by (auto simp: escape_char_def read_escape_def Let_def)
    then show ?thesis using that(2) by fastforce
  next
    case 4
    have "n div 16 < 16" "n mod 16 < 16" using 4(3) by auto
    then have h: "16 * hex_val (hex_char (n div 16)) + hex_val (hex_char (n mod 16)) = n"
      by (simp add: hex_val_char)
    show ?thesis
      using 4 h
      by (intro that(2) [of "[CHR ''u'', CHR ''0'', CHR ''0'', hex_char (n div 16), hex_char (n mod 16)]"])
        (auto simp: escape_char_def n_def [symmetric] read_escape_def Let_def c)
  qed
qed

lemma read_str_quote:
  "length (concat (map escape_char t)) < n
   \<Longrightarrow> read_str n (concat (map escape_char t) @ CHR 0x22 # r) = Some (t, r)"
proof (induction t arbitrary: n)
  case Nil
  then obtain m where "n = Suc m" by (cases n) auto
  then show ?case by simp
next
  case (Cons c t)
  then obtain m where n: "n = Suc m" by (cases n) auto
  show ?case
    by (cases c rule: escape_char_cases) (use Cons n in auto)
qed

lemma read_str_quote_json:
  "length (quote_json t) \<le> n \<Longrightarrow> read_str n (tl (quote_json t) @ r) = Some (t, r)"
  by (simp add: quote_json_def read_str_quote)

lemma digits_of_digits: "\<forall>c \<in> set (digits_of n). is_digit c"
proof (induction n rule: digits_of.induct)
  case (1 n)
  have "is_digit (char_of (48 + n mod 10))"
    by (simp add: is_digit_def in_range_def)
  with 1 show ?case by (subst digits_of.simps) (auto simp: is_digit_def in_range_def)
qed

lemma digits_of_not_Nil [simp]: "digits_of n \<noteq> []"
  by (subst digits_of.simps) simp

lemma read_nat_snoc: "read_nat (s @ [c]) = 10 * read_nat s + digit_val c"
  by (simp add: read_nat_def)

lemma read_nat_digits [simp]: "read_nat (digits_of n) = n"
proof (induction n rule: digits_of.induct)
  case (1 n)
  show ?case
  proof (cases "n < 10")
    case True
    then show ?thesis by (subst digits_of.simps) (simp add: read_nat_def digit_val_def)
  next
    case False
    moreover have "digit_val (char_of (48 + n mod 10)) = n mod 10" by (simp add: digit_val_def)
    ultimately show ?thesis
      by (subst digits_of.simps) (simp add: read_nat_snoc 1)
  qed
qed

definition number_end :: "string \<Rightarrow> bool" where
  "number_end r \<longleftrightarrow> r = [] \<or> \<not> is_digit (hd r)"

lemma digits_split:
  assumes "\<forall>c \<in> set ds. is_digit c" "number_end r"
  shows "takeWhile is_digit (ds @ r) = ds" "dropWhile is_digit (ds @ r) = r"
  using assms by (induction ds) (auto simp: number_end_def hd_Cons_tl takeWhile_eq_Nil_iff dropWhile_eq_self_iff)

lemma digits_no_sign: "\<not> starts_with (digits_of n @ r) ''-''"
  using digits_of_digits [of n]
  by (cases "digits_of n") (auto simp: starts_with_def is_digit_def in_range_def)

lemma read_print_int: "number_end r \<Longrightarrow> read_int (print_int i @ r) = (i, r)"
  using digits_no_sign [of "nat i" r]
  by (cases "i < 0")
    (auto simp: read_int_def print_int_def starts_with_def digits_split [OF digits_of_digits])

lemma print_int_head: "\<exists>c cs. print_int i = c # cs \<and> (is_digit c \<or> c = CHR ''-'')"
proof (cases "i < 0")
  case True
  then show ?thesis by (simp add: print_int_def)
next
  case False
  then show ?thesis
    using digits_of_digits [of "nat i"]
    by (cases "digits_of (nat i)") (auto simp: print_int_def)
qed

text \<open>The first character of a printed value tells its kind.\<close>

lemma stringify_head: "\<exists>c cs. stringify v = c # cs \<and> c \<noteq> CHR '']''"
  using print_int_head [of "case v of JNum i \<Rightarrow> i | _ \<Rightarrow> 0"]
  by (cases v) (auto simp: quote_json_def is_digit_def in_range_def)

lemma stringify_length_pos: "0 < length (stringify v)"
  using stringify_head [of v] by auto

definition reads_back :: "nat \<Rightarrow> json \<Rightarrow> bool" where
  "reads_back n v \<longleftrightarrow>
     (\<forall>r. length (stringify v) < n \<longrightarrow> number_end r \<longrightarrow> read_value n (stringify v @ r) = Some (v, r))"

lemma read_elems_back:
  assumes "vs \<noteq> []" "\<forall>v \<in> set vs. \<forall>n. reads_back n v"
    and "length (join '','' (map stringify vs)) + 1 < n"
  shows "read_elems n (join '','' (map stringify vs) @ '']'' @ r) = Some (vs, r)"
  using assms
proof (induction vs arbitrary: n)
  case Nil
  then show ?case by simp
next
  case (Cons v vs)
  obtain m where n: "n = Suc m" using Cons.prems(3) by (cases n) auto
  have v: "\<And>q. number_end q \<Longrightarrow> length (stringify v) < m \<Longrightarrow> read_value m (stringify v @ q) = Some (v, q)"
    using Cons.prems(2) by (simp add: reads_back_def)
  show ?case
  proof (cases vs)
    case Nil
    have "read_value m (stringify v @ CHR '']'' # r) = Some (v, CHR '']'' # r)"
      using Cons.prems(3) n Nil by (intro v) (auto simp: number_end_def is_digit_def in_range_def)
    then show ?thesis by (simp add: n Nil starts_with_def)
  next
    case (Cons w ws)
    let ?q = "CHR '','' # join '','' (map stringify vs) @ CHR '']'' # r"
    have "read_value m (stringify v @ ?q) = Some (v, ?q)"
      using Cons.prems(3) n Cons by (intro v) (auto simp: number_end_def is_digit_def in_range_def)
    moreover have "read_elems m (join '','' (map stringify vs) @ '']'' @ r) = Some (vs, r)"
      using Cons.prems n Cons stringify_length_pos [of v] by (intro Cons.IH) auto
    ultimately show ?thesis by (simp add: n Cons starts_with_def)
  qed
qed

lemma read_members_back:
  assumes "ms \<noteq> []" "\<forall>m \<in> set ms. \<forall>n. reads_back n (snd m)"
    and "length (join '','' (map (\<lambda>m. quote_json (fst m) @ '':'' @ stringify (snd m)) ms)) + 1 < n"
  shows "read_members n
     (join '','' (map (\<lambda>m. quote_json (fst m) @ '':'' @ stringify (snd m)) ms) @ CHR 0x7D # r)
     = Some (ms, r)"
  using assms
proof (induction ms arbitrary: n)
  case Nil
  then show ?case by simp
next
  case (Cons p ms)
  obtain m where n: "n = Suc m" using Cons.prems(3) by (cases n) auto
  obtain k v where p: "p = (k, v)" by force
  have v: "\<And>q. number_end q \<Longrightarrow> length (stringify v) < m \<Longrightarrow> read_value m (stringify v @ q) = Some (v, q)"
    using Cons.prems(2) by (simp add: reads_back_def p)
  have k: "\<And>q. length (quote_json k) \<le> m \<Longrightarrow> read_str m (tl (quote_json k @ q)) = Some (k, q)"
    using read_str_quote_json [of k m] by (simp add: quote_json_def)
  show ?case
  proof (cases ms)
    case Nil
    have "read_value m (stringify v @ CHR 0x7D # r) = Some (v, CHR 0x7D # r)"
      using Cons.prems(3) n p Nil by (intro v) (auto simp: number_end_def is_digit_def in_range_def)
    moreover have "length (quote_json k) \<le> m" using Cons.prems(3) n p Nil by simp
    ultimately show ?thesis by (simp add: n p Nil starts_with_def k)
  next
    case (Cons w ws)
    let ?t = "join '','' (map (\<lambda>m. quote_json (fst m) @ '':'' @ stringify (snd m)) ms) @ CHR 0x7D # r"
    have "read_value m (stringify v @ CHR '','' # ?t) = Some (v, CHR '','' # ?t)"
      using Cons.prems(3) n p Cons by (intro v) (auto simp: number_end_def is_digit_def in_range_def)
    moreover have "read_members m ?t = Some (ms, r)"
      using Cons.prems n p Cons stringify_length_pos [of v] by (intro Cons.IH) auto
    moreover have "length (quote_json k) \<le> m" using Cons.prems(3) n p Cons by simp
    ultimately show ?thesis by (simp add: n p Cons starts_with_def k)
  qed
qed

lemma join_head:
  assumes "w \<noteq> []"
  shows "hd (join sep (w # ws)) = hd w" "join sep (w # ws) \<noteq> []"
  using assms by (cases ws; simp)+

lemma reads_back_all: "reads_back n v"
proof (induction v arbitrary: n)
  case JNull
  then show ?case by (cases n) (auto simp: reads_back_def)
next
  case (JBool b)
  then show ?case by (cases n) (auto simp: reads_back_def)
next
  case (JNum i)
  obtain c cs where c: "print_int i = c # cs" "is_digit c \<or> c = CHR ''-''"
    using print_int_head [of i] by blast
  then have h: "c \<notin> {CHR ''n'', CHR ''t'', CHR ''f'', CHR 0x22, CHR ''['', CHR 0x7B}"
    by (auto simp: is_digit_def in_range_def)
  have "read_value (Suc m) (print_int i @ r) = Some (JNum i, r)" if "number_end r" for m r
    using read_print_int [OF that, of i] h by (simp add: c(1))
  then show ?case by (cases n) (simp_all add: reads_back_def)
next
  case (JStr s)
  then show ?case
    using read_str_quote_json [of s] by (cases n) (auto simp: reads_back_def quote_json_def)
next
  case (JArr vs)
  show ?case
  proof (cases vs)
    case Nil
    then show ?thesis by (cases n) (auto simp: reads_back_def starts_with_def)
  next
    case (Cons w ws)
    let ?j = "join '','' (map stringify vs)"
    have h: "hd ?j \<noteq> CHR '']''" "?j \<noteq> []"
      using stringify_head [of w] join_head [of "stringify w" "'',''" "map stringify ws"] Cons by auto
    then have no: "\<And>q. \<not> starts_with (?j @ q) '']''" by (cases ?j) (auto simp: starts_with_def)
    show ?thesis
      unfolding reads_back_def
    proof (intro allI impI)
      fix r assume n: "length (stringify (JArr vs)) < n"
      then obtain m where m: "n = Suc m" by (cases n) auto
      have "read_elems m (?j @ '']'' @ r) = Some (vs, r)"
        using n m JArr.IH Cons by (intro read_elems_back) auto
      then show "read_value n (stringify (JArr vs) @ r) = Some (JArr vs, r)"
        using no by (simp add: m)
    qed
  qed
next
  case (JObj ms)
  show ?case
  proof (cases ms)
    case Nil
    then show ?thesis by (cases n) (auto simp: reads_back_def starts_with_def)
  next
    case (Cons w ws)
    let ?f = "\<lambda>m. quote_json (fst m) @ '':'' @ stringify (snd m)"
    let ?j = "join '','' (map ?f ms)"
    have h: "hd ?j = CHR 0x22" "?j \<noteq> []"
      using join_head [of "?f w" "'',''" "map ?f ws"] Cons by (auto simp: quote_json_def)
    then have no: "\<And>q. \<not> starts_with (?j @ q) [CHR 0x7D]" by (cases ?j) (auto simp: starts_with_def)
    show ?thesis
      unfolding reads_back_def
    proof (intro allI impI)
      fix r assume n: "length (stringify (JObj ms)) < n"
      then obtain m where m: "n = Suc m" by (cases n) auto
      have "read_members m (?j @ CHR 0x7D # r) = Some (ms, r)"
        using n m JObj.IH Cons by (intro read_members_back) (auto simp: snds.simps)
      then show "read_value n (stringify (JObj ms) @ r) = Some (JObj ms, r)"
        using no by (simp add: m)
    qed
  qed
qed

text \<open>Printing is injective, also where more text follows the value.\<close>

lemma stringify_inj:
  assumes "stringify v = stringify w"
  shows "v = w"
proof -
  define n where "n = Suc (length (stringify v))"
  have "length (stringify u) < n \<Longrightarrow> read_value n (stringify u @ []) = Some (u, [])" for u
    using reads_back_all [of n u] unfolding reads_back_def number_end_def by blast
  note this [of v] this [of w]
  then show ?thesis unfolding assms n_def by (simp only: append_Nil2 lessI option.inject prod.inject simp_thms)
qed

end
