(* ===== verification/ToolMapper.thy ===== *)
theory ToolMapper
  imports RiskClassifier Json
begin

text \<open>
  From a tool call to an action and its target,
  \<^verbatim>\<open>packages/agents/src/claude-code/mapper.ts\<close>. The tool's input is a JSON object.
\<close>

record mapped_action =
  ma_action :: string
  ma_target :: target
  ma_malformed :: "string option"

definition asString :: "json option \<Rightarrow> string option" where
  "asString v = (case v of Some (JStr s) \<Rightarrow> Some s | _ \<Rightarrow> None)"

fun js_typeof :: "json option \<Rightarrow> string" where
  "js_typeof None = ''undefined''"
| "js_typeof (Some (JBool b)) = ''boolean''"
| "js_typeof (Some (JNum i)) = ''number''"
| "js_typeof (Some (JStr s)) = ''string''"
| "js_typeof _ = ''object''"

definition badShape :: "string \<Rightarrow> json option \<Rightarrow> string" where
  "badShape field v =
    ''Claude Code tool input field '' @ [CHR 0x27] @ field @ [CHR 0x27]
      @ '' must be a string (got '' @ js_typeof v @ '')''"

text \<open>\<open>a ?? b\<close>.\<close>

definition nullish_or :: "json option \<Rightarrow> json option \<Rightarrow> json option" where
  "nullish_or a b = (case a of None \<Rightarrow> b | Some JNull \<Rightarrow> b | Some v \<Rightarrow> Some v)"

definition empty_target :: "string \<Rightarrow> target" where
  "empty_target ty =
    \<lparr>tg_type = ty, tg_path = None, tg_abs_path = None, tg_command = None, tg_url = None,
     tg_tool_name = None\<rparr>"

text \<open>A required string: the reason when it is missing.\<close>

definition required :: "string option \<Rightarrow> string \<Rightarrow> json option \<Rightarrow> string option" where
  "required s field v = (if s = None then Some (badShape field v) else None)"

definition map_file_tool :: "string \<Rightarrow> string \<Rightarrow> json \<Rightarrow> mapped_action" where
  "map_file_tool action field inp =
    (let fp = asString (json_get inp field) in
     \<lparr>ma_action = action, ma_target = (empty_target ''file'')\<lparr>tg_path := fp, tg_abs_path := fp\<rparr>,
      ma_malformed = required fp field (json_get inp field)\<rparr>)"

definition map_search_tool :: "string \<Rightarrow> string \<Rightarrow> string \<Rightarrow> json \<Rightarrow> mapped_action" where
  "map_search_tool action f g inp =
    (let path = str_or (asString (json_get inp f)) (asString (json_get inp g)) in
     \<lparr>ma_action = action, ma_target = (empty_target ''file'')\<lparr>tg_path := path\<rparr>,
      ma_malformed = required path (f @ ''|'' @ g) (nullish_or (json_get inp f) (json_get inp g))\<rparr>)"

definition map_url_tool :: "string \<Rightarrow> string \<Rightarrow> json \<Rightarrow> mapped_action" where
  "map_url_tool action field inp =
    (let url = asString (json_get inp field) in
     \<lparr>ma_action = action, ma_target = (empty_target ''url'')\<lparr>tg_url := url\<rparr>,
      ma_malformed = required url field (json_get inp field)\<rparr>)"

definition mapClaudeCodeTool :: "string \<Rightarrow> json \<Rightarrow> mapped_action" where
  "mapClaudeCodeTool toolName inp =
    (if toolName = ''Write'' then map_file_tool ''file_create'' ''file_path'' inp
     else if toolName = ''Edit'' then map_file_tool ''file_edit'' ''file_path'' inp
     else if toolName = ''Read'' then map_file_tool ''file_read'' ''file_path'' inp
     else if toolName = ''Bash'' then
       (let cmd = asString (json_get inp ''command'') in
        \<lparr>ma_action = ''command_execute'',
         ma_target = (empty_target ''command'')\<lparr>tg_command := cmd\<rparr>,
         ma_malformed = required cmd ''command'' (json_get inp ''command'')\<rparr>)
     else if toolName = ''Glob'' then map_search_tool ''file_glob'' ''pattern'' ''path'' inp
     else if toolName = ''Grep'' then map_search_tool ''file_grep'' ''path'' ''pattern'' inp
     else if toolName = ''WebFetch'' then map_url_tool ''web_fetch'' ''url'' inp
     else if toolName = ''WebSearch'' then map_url_tool ''web_search'' ''query'' inp
     else if toolName = ''Task'' then
       (let tool = asString (json_get inp ''subagent_type'') in
        \<lparr>ma_action = ''task_delegate'',
         ma_target = (empty_target ''prompt'')\<lparr>tg_tool_name := tool\<rparr>,
         ma_malformed = required tool ''subagent_type'' (json_get inp ''subagent_type'')\<rparr>)
     else if toolName = ''NotebookEdit'' then map_file_tool ''file_edit'' ''notebook_path'' inp
     else
       \<lparr>ma_action = ''mcp_tool_call'',
        ma_target = (empty_target ''mcp_tool'')\<lparr>tg_tool_name := Some toolName\<rparr>,
        ma_malformed = None\<rparr>)"

section \<open>Facts\<close>

lemma required_None_iff [simp]: "required s f v = None \<longleftrightarrow> s \<noteq> None"
  by (simp add: required_def)

lemmas mapper_defs =
  mapClaudeCodeTool_def map_file_tool_def map_search_tool_def map_url_tool_def Let_def
  empty_target_def

text \<open>
  A call that is not malformed has the field its rules are matched against, with the name of the
  field for each action.
\<close>

definition rule_subject :: "string \<Rightarrow> target \<Rightarrow> string option" where
  "rule_subject action t =
    (if starts_with action ''file_'' then tg_path t
     else if action = ''command_execute'' then tg_command t
     else if action = ''web_fetch'' \<or> action = ''web_search'' then tg_url t
     else tg_tool_name t)"

lemma well_formed_subject:
  "ma_malformed (mapClaudeCodeTool t inp) = None
   \<longleftrightarrow> rule_subject (ma_action (mapClaudeCodeTool t inp)) (ma_target (mapClaudeCodeTool t inp)) \<noteq> None"
  by (simp add: mapper_defs rule_subject_def starts_with_def)

lemma mapper_Bash [simp]:
  "ma_action (mapClaudeCodeTool ''Bash'' inp) = ''command_execute''"
  "tg_command (ma_target (mapClaudeCodeTool ''Bash'' inp)) = asString (json_get inp ''command'')"
  "tg_path (ma_target (mapClaudeCodeTool ''Bash'' inp)) = None"
  "tg_abs_path (ma_target (mapClaudeCodeTool ''Bash'' inp)) = None"
  "tg_url (ma_target (mapClaudeCodeTool ''Bash'' inp)) = None"
  "ma_malformed (mapClaudeCodeTool ''Bash'' inp) = None \<longleftrightarrow> asString (json_get inp ''command'') \<noteq> None"
  by (simp_all add: mapper_defs)

end
