(* ===== verification/PolicyProperties.thy ===== *)
theory PolicyProperties
  imports PolicyLoader ToolMapper
begin

text \<open>
  What the policy engine, the risk classifier, the tool mapper and the policy loader promise:
  when exactly a file access or a command is refused, what a network rule can match, which risk a
  sensitive path has, and whose policy is in force.
\<close>

section \<open>Files\<close>

text \<open>The paths that the file rules are consulted on.\<close>

definition evaluated_paths :: "policy_env \<Rightarrow> eval_input \<Rightarrow> string set" where
  "evaluated_paths e i =
    (\<Union>r \<in> set (raw_paths (ei_target i)). set (expandPathCandidates (pv_paths e) r (ei_cwd i)))"

definition over_risk :: "policy \<Rightarrow> eval_input \<Rightarrow> bool" where
  "over_risk p i \<longleftrightarrow>
    risk_order_index (ei_risk_level i) > risk_order_index (risk_name (po_max_risk p))"

lemma set_map_filter: "set (List.map_filter f xs) = {y. \<exists>x \<in> set xs. f x = Some y}"
  by (induction xs) (auto simp: List.map_filter_simps split: option.splits)

lemma starts_with_head: "starts_with s (c # p) \<Longrightarrow> \<exists>r. s = c # r"
  by (cases s) (auto simp: starts_with_def)

lemma action_families:
  "isFileAction a \<Longrightarrow> \<not> isCommandAction a \<and> \<not> isNetworkAction a \<and> \<not> isMcpAction a"
  "isCommandAction a \<Longrightarrow> \<not> isFileAction a \<and> \<not> isNetworkAction a \<and> \<not> isMcpAction a"
  by (auto simp: isFileAction_def isCommandAction_def isNetworkAction_def isMcpAction_def
      dest!: starts_with_head)

lemma find_refusal:
  "find (\<lambda>d. \<not> rd_allowed d) (List.map_filter (evaluateFileRules e rs) ps) = None
   \<longleftrightarrow> (\<forall>p \<in> set ps. \<not> file_rules.blocks e rs p)"
  by (auto simp: find_None_iff set_map_filter file_rules.blocks_def)

lemma raw_paths_evaluated: "r \<in> set (raw_paths (ei_target i)) \<Longrightarrow> r \<in> evaluated_paths e i"
  unfolding evaluated_paths_def
  by (rule UN_I [of r]) (auto simp: raw_paths_def intro!: raw_in_candidates split: option.splits)

lemma file_step_refuses:
  "(\<exists>d. evaluate_file_step e p i = Some d \<and> \<not> rd_allowed d)
   \<longleftrightarrow> (\<exists>q \<in> evaluated_paths e i. file_rules.blocks e (po_files p) q)"
proof -
  define cands where "cands =
    uniq (concat (map (\<lambda>r. expandPathCandidates (pv_paths e) r (ei_cwd i)) (raw_paths (ei_target i))))"
  have cands: "set cands = evaluated_paths e i"
    by (simp add: cands_def evaluated_paths_def)
  show ?thesis
  proof (cases "find (\<lambda>d. \<not> rd_allowed d) (List.map_filter (evaluateFileRules e (po_files p)) cands)")
    case None
    then have no: "\<not> file_rules.blocks e (po_files p) q" if "q \<in> evaluated_paths e i" for q
      using that by (simp add: find_refusal cands)
    have "rd_allowed d" if "raw_paths (ei_target i) \<noteq> []"
      "evaluateFileRules e (po_files p) (hd (raw_paths (ei_target i))) = Some d" for d
      using that no [OF raw_paths_evaluated [OF hd_in_set]] by (auto simp: file_rules.blocks_def)
    with None no show ?thesis
      by (auto simp: evaluate_file_step_def Let_def cands_def [symmetric])
  next
    case (Some d)
    then have "\<not> rd_allowed d" by (auto simp: find_Some_iff)
    moreover have "raw_paths (ei_target i) \<noteq> []"
      using Some by (auto simp: cands_def map_filter_def uniq_def)
    moreover have "\<exists>q \<in> evaluated_paths e i. file_rules.blocks e (po_files p) q"
      using Some find_refusal [of e "po_files p" cands] by (auto simp: cands)
    ultimately show ?thesis
      using Some by (auto simp: evaluate_file_step_def Let_def cands_def [symmetric])
  qed
qed

text \<open>
  What the code refuses, exactly: where the default is to deny, every spelling of a path has to
  match an allow pattern, not only the path as given.
\<close>

lemma file_refused_iff:
  assumes "isFileAction (ei_action i)"
  shows "\<not> rd_allowed (evaluatePolicy e p i) \<longleftrightarrow>
    over_risk p i
    \<or> (\<exists>q \<in> evaluated_paths e i.
         (\<exists>r \<in> set (rs_deny (po_files p)). matchesGlob (pv_paths e) q (fr_pattern r))
         \<or> (rs_default (po_files p) = DenyA
            \<and> (\<forall>r \<in> set (rs_allow (po_files p)). \<not> matchesGlob (pv_paths e) q (fr_pattern r))))"
  unfolding file_rules.blocks_iff [symmetric] file_step_refuses [symmetric]
  using action_families(1) [OF assms] assms
  by (auto simp: evaluatePolicy_def over_risk_def first_some_def split: option.splits)

text \<open>
  C27: a file deny rule is not evaded by another spelling: a file action that is allowed has a risk
  within the policy's maximum, no spelling of its paths (as given, made absolute, or with symbolic
  links resolved) that matches a deny pattern, and, where the default is to deny, a path as given
  that matches an allow pattern; and where the default is to allow, nothing else is refused.
\<close>

theorem file_deny_not_evaded:
  assumes "isFileAction (ei_action i)"
  shows "(rd_allowed (evaluatePolicy e p i) \<longrightarrow>
      \<not> over_risk p i
      \<and> (\<forall>q \<in> evaluated_paths e i. \<forall>r \<in> set (rs_deny (po_files p)). \<not> matchesGlob (pv_paths e) q (fr_pattern r))
      \<and> (rs_default (po_files p) = DenyA \<longrightarrow>
           (\<forall>q \<in> set (raw_paths (ei_target i)). \<exists>r \<in> set (rs_allow (po_files p)). matchesGlob (pv_paths e) q (fr_pattern r))))
    \<and> (rs_default (po_files p) = AllowA \<and> \<not> over_risk p i
      \<and> (\<forall>q \<in> evaluated_paths e i. \<forall>r \<in> set (rs_deny (po_files p)). \<not> matchesGlob (pv_paths e) q (fr_pattern r))
      \<longrightarrow> rd_allowed (evaluatePolicy e p i))"
  using file_refused_iff [OF assms, of e p] raw_paths_evaluated [of _ i e] by auto

text \<open>A system in which \<open>/w/link\<close> is a symbolic link to a private key.\<close>

definition sample_env :: policy_env where
  "sample_env =
    \<lparr>pv_paths = \<lparr>pe_match = (\<lambda>p g. p = g),
       pe_realpath = (\<lambda>p. if p = ''/w/link'' then Some ''/k.pem'' else None), pe_process_cwd = ''/w''\<rparr>,
     pv_url = (\<lambda>u. None), pv_regex = (\<lambda>p s. None)\<rparr>"

definition sample_policy :: policy where
  "sample_policy = DEFAULT_POLICY\<lparr>po_files := open_rules\<lparr>rs_deny :=
     [\<lparr>fr_action = DenyA, fr_reason = None, fr_pattern = ''/k.pem''\<rparr>]\<rparr>\<rparr>"

definition sample_read :: eval_input where
  "sample_read = \<lparr>ei_action = ''file_read'', ei_risk_level = ''low'',
     ei_target = Some ((empty_target ''file'')\<lparr>tg_path := Some ''/w/link''\<rparr>), ei_cwd = None\<rparr>"

definition sample_write :: eval_input where
  "sample_write = sample_read\<lparr>ei_action := ''file_write'',
     ei_target := Some ((empty_target ''file'')\<lparr>tg_path := Some ''/w/notes''\<rparr>)\<rparr>"

lemma file_deny_not_evaded_witness:
  "\<not> rd_allowed (evaluatePolicy sample_env sample_policy sample_read)
   \<and> rd_allowed (evaluatePolicy sample_env sample_policy sample_write)
   \<and> \<not> matchesGlob (pv_paths sample_env) ''/w/notes'' ''/k.pem''"
proof -
  have f: "isFileAction (ei_action sample_read)" "isFileAction (ei_action sample_write)" by code_simp+
  have q: "''/k.pem'' \<in> evaluated_paths sample_env sample_read" "''/w/notes'' \<in> evaluated_paths sample_env sample_write"
    unfolding evaluated_paths_def by code_simp+
  have deny: "rs_deny (po_files sample_policy) = [\<lparr>fr_action = DenyA, fr_reason = None, fr_pattern = ''/k.pem''\<rparr>]"
    by (simp add: sample_policy_def)
  have "matchesGlob (pv_paths sample_env) ''/k.pem'' ''/k.pem''" by (simp add: matchesGlob_def sample_env_def)
  then have "\<not> rd_allowed (evaluatePolicy sample_env sample_policy sample_read)"
    using file_deny_not_evaded [OF f(1), of sample_env sample_policy] q(1) deny by fastforce
  moreover have allowed: "rd_allowed (evaluatePolicy sample_env sample_policy sample_write)" by code_simp
  ultimately show ?thesis
    using file_deny_not_evaded [OF f(2), of sample_env sample_policy] q(2) deny by fastforce
qed

section \<open>Commands\<close>

text \<open>
  C28: a command action is refused exactly when its risk is over the maximum, or a deny rule matches
  the command, or no allow rule does where the default is to deny; deny rules win over allow rules.
\<close>

theorem command_refused_iff:
  assumes "isCommandAction (ei_action i)" and "target_field i tg_command = Some c"
  shows "\<not> rd_allowed (evaluatePolicy e p i) \<longleftrightarrow>
    over_risk p i
    \<or> (\<exists>r \<in> set (rs_deny (po_commands p)). matchesCommandRule e (trim c) r)
    \<or> (rs_default (po_commands p) = DenyA
       \<and> (\<forall>r \<in> set (rs_allow (po_commands p)). \<not> matchesCommandRule e (trim c) r))"
  unfolding command_rules.blocks_iff [symmetric] command_rules.blocks_def
  using action_families(2) [OF assms(1)] assms
  by (auto simp: evaluatePolicy_def over_risk_def first_some_def split: option.splits)

definition sample_command :: "string \<Rightarrow> eval_input" where
  "sample_command c = \<lparr>ei_action = ''command_execute'', ei_risk_level = ''medium'',
     ei_target = Some ((empty_target ''command'')\<lparr>tg_command := Some c\<rparr>), ei_cwd = None\<rparr>"

lemma command_refused_iff_witness:
  "\<not> rd_allowed (evaluatePolicy sample_env STRICT_POLICY (sample_command '' SUDO ls''))"
proof -
  have a: "isCommandAction (ei_action (sample_command '' SUDO ls''))"
    and t: "target_field (sample_command '' SUDO ls'') tg_command = Some '' SUDO ls''" by code_simp+
  have "list_ex (matchesCommandRule sample_env (trim '' SUDO ls'')) (rs_deny (po_commands STRICT_POLICY))"
    by code_simp
  then show ?thesis unfolding command_refused_iff [OF a t] by (auto simp: list_ex_iff)
qed

text \<open>
  An allow rule by prefix never admits a chained command: a command it matches has nothing
  after the prefix that the metacharacter scan finds.
\<close>

theorem allow_prefix_no_chaining:
  assumes "matchesCommandRule e c r" and "cr_action r = AllowA" and "cr_prefix r = Some pre"
    and "pre \<noteq> []" and "cr_exact r = None" and "cr_regex r = None"
  shows "starts_with (to_lower c) (to_lower pre) \<and> \<not> hasShellMetacharsAfter c (length pre)"
  using assms
  by (cases pre) (auto simp: matchesCommandRule_def exact_or_regex_def truthy_def split: if_splits)

lemma allow_prefix_no_chaining_witness:
  "matchesCommandRule sample_env ''git status -s'' (prefix_rule AllowA (''git status'', ''ok''))
   \<and> \<not> hasShellMetacharsAfter ''git status -s'' (length ''git status'')"
proof -
  have m: "matchesCommandRule sample_env ''git status -s'' (prefix_rule AllowA (''git status'', ''ok''))"
    by code_simp
  from allow_prefix_no_chaining [OF m, of "''git status''"] m show ?thesis
    by (simp add: prefix_rule_def)
qed

section \<open>Network\<close>

text \<open>
  A rule by URL prefix stays on its site: it matches only a URL of the same protocol, host and
  port whose path begins with the rule's path and continues, if at all, at a segment boundary.
\<close>

theorem url_prefix_same_site:
  assumes "matchesNetworkRule e url r" and "str_or (nr_domain r) None = None"
  shows "\<exists>pre t a rest. nr_url_prefix r = Some pre \<and> pv_url e url = Some t \<and> pv_url e pre = Some a
    \<and> u_protocol t = u_protocol a \<and> u_hostname t = u_hostname a \<and> u_port t = u_port a
    \<and> u_pathname t = u_pathname a @ rest
    \<and> (rest = [] \<or> ends_with (u_pathname a) ''/'' \<or> hd rest = CHR ''/'')"
proof -
  obtain pre where pre: "str_or (nr_url_prefix r) None = Some pre" and m: "matches_url_prefix e url pre"
    using assms by (auto simp: matchesNetworkRule_def split: option.splits)
  then have r: "nr_url_prefix r = Some pre" by (cases "nr_url_prefix r"; cases "the (nr_url_prefix r)") auto
  obtain t a where u: "pv_url e url = Some t" "pv_url e pre = Some a"
    and same: "u_protocol t = u_protocol a" "u_hostname t = u_hostname a" "u_port t = u_port a"
    and path: "starts_with (u_pathname t) (u_pathname a)"
      "length (u_pathname t) > length (u_pathname a) \<and> \<not> ends_with (u_pathname a) ''/''
       \<longrightarrow> u_pathname t ! length (u_pathname a) = CHR ''/''"
    using m by (auto simp: matches_url_prefix_def Let_def split: option.splits if_splits)
  obtain rest where "u_pathname t = u_pathname a @ rest"
    using path(1) by (metis append_take_drop_id starts_with_def)
  with path(2) have "\<exists>rest. u_pathname t = u_pathname a @ rest
      \<and> (rest = [] \<or> ends_with (u_pathname a) ''/'' \<or> hd rest = CHR ''/'')"
    by (cases rest) auto
  with r u same show ?thesis by blast
qed

text \<open>An environment whose parser knows three URLs of one host.\<close>

definition url_env :: policy_env where
  "url_env = sample_env\<lparr>pv_url := (\<lambda>u.
     if u = ''https://h/a'' then Some \<lparr>u_protocol = ''https:'', u_hostname = ''h'', u_port = [], u_pathname = ''/a''\<rparr>
     else if u = ''https://h/a/b'' then Some \<lparr>u_protocol = ''https:'', u_hostname = ''h'', u_port = [], u_pathname = ''/a/b''\<rparr>
     else if u = ''https://h/ab'' then Some \<lparr>u_protocol = ''https:'', u_hostname = ''h'', u_port = [], u_pathname = ''/ab''\<rparr>
     else None)\<rparr>"

definition url_rule :: network_rule where
  "url_rule = \<lparr>nr_action = AllowA, nr_reason = None, nr_domain = None, nr_url_prefix = Some ''https://h/a''\<rparr>"

lemma url_prefix_same_site_witness:
  "\<not> matchesNetworkRule url_env ''https://h/ab'' url_rule
   \<and> (\<exists>t. pv_url url_env ''https://h/a/b'' = Some t \<and> u_hostname t = ''h'')"
proof -
  have m: "matchesNetworkRule url_env ''https://h/a/b'' url_rule" by code_simp
  moreover have "\<not> matchesNetworkRule url_env ''https://h/ab'' url_rule" by code_simp
  moreover have "str_or (nr_domain url_rule) None = None" by (simp add: url_rule_def)
  ultimately show ?thesis
    using url_prefix_same_site [OF m] by (auto simp: url_rule_def url_env_def)
qed

section \<open>Risk\<close>

text \<open>
  Sensitive paths are never low risk: an access with some spelling of a path on the list of
  sensitive globs is classified at least high, and critical unless it only reads.
\<close>

theorem sensitive_is_high_risk:
  assumes "\<not> starts_with action ''session_''" and "action \<notin> {''prompt_submit'', ''response_complete''}"
    and "c \<in> set (path_candidates e t)" and "g \<in> set SENSITIVE_GLOBS" and "matchesGlob e c g"
  shows "risk_of (classifyRisk e action (Some t)) \<ge> (if action = ''file_read'' then RHigh else RCritical)"
proof -
  have sens: "is_sensitive e (path_candidates e t)"
    using assms(3-5) by (auto simp: is_sensitive_def list_ex_iff)
  have path: "truthy (tg_path t) \<or> truthy (tg_abs_path t)"
    using assms(3) by (auto simp: path_candidates_def truthy_str_or split: option.splits)
  have "fst (file_risk e action t (RNone, [])) \<ge> (if action = ''file_read'' then RHigh else RCritical)"
    unfolding file_risk_def Let_def if_P [OF sens]
    by (intro low_level keep_level) (simp_all add: le_max_iff_disj)
  moreover have "fst (file_risk e action t (RNone, [])) \<le> risk_of (classifyRisk e action (Some t))"
    using assms(1,2) path command_risk_grows
    by (auto simp: classifyRisk_def Let_def le_max_iff_disj split: option.splits)
  ultimately show ?thesis by (rule order_trans)
qed

lemma sensitive_is_high_risk_witness:
  "risk_of (classifyRisk \<lparr>pe_match = (\<lambda>p g. p = ''/w/.env'' \<and> g = ''**/.env''),
      pe_realpath = (\<lambda>p. None), pe_process_cwd = ''/w''\<rparr> ''file_edit''
      (Some ((empty_target ''file'')\<lparr>tg_path := Some ''/w/.env''\<rparr>))) = RCritical"
proof -
  let ?e = "\<lparr>pe_match = (\<lambda>p g. p = ''/w/.env'' \<and> g = ''**/.env''),
      pe_realpath = (\<lambda>p. None), pe_process_cwd = ''/w''\<rparr>"
  let ?t = "(empty_target ''file'')\<lparr>tg_path := Some ''/w/.env''\<rparr>"
  have "\<not> starts_with ''file_edit'' ''session_''" "''/w/.env'' \<in> set (path_candidates ?e ?t)"
    "''**/.env'' \<in> set SENSITIVE_GLOBS" "matchesGlob ?e ''/w/.env'' ''**/.env''" by code_simp+
  with sensitive_is_high_risk [of "''file_edit''" "''/w/.env''" ?e ?t "''**/.env''"]
  have "RCritical \<le> risk_of (classifyRisk ?e ''file_edit'' (Some ?t))" by simp
  then show ?thesis by (simp add: antisym)
qed

section \<open>Whose policy\<close>

text \<open>
  A repository cannot weaken the policy: where a system or a user policy exists, the policy in
  force is the same for every working directory, and a system path taken from the environment is
  one that root owns and nobody else can write, outside test runs.
\<close>

theorem project_policy_ignored:
  assumes "le_exists e (getSystemPolicyPath e)
      \<or> le_exists e (path_join [le_home e, ''.patchwork'', ''policy.yml''])"
    and "\<not> le_test_env e"
  shows "loadActivePolicy e cwd = loadActivePolicy e cwd'
     \<and> (getSystemPolicyPath e = le_default_path e \<or> isRootOwnedAndProtected e (getSystemPolicyPath e))"
  using loadActivePolicy_project [OF assms(1)] getSystemPolicyPath_safe [OF assms(2)] by blast

lemma project_policy_ignored_witness:
  "let e = \<lparr>le_default_path = ''/etc/p'', le_override = Some ''/tmp/p'', le_test_env = False,
      le_home = ''/h'', le_stat = (\<lambda>p. Some \<lparr>fs_uid = 1000, fs_mode = 420\<rparr>),
      le_exists = (\<lambda>p. p = ''/etc/p''), le_parse = (\<lambda>p. Some STRICT_POLICY)\<rparr>
   in loadActivePolicy e (Some ''/evil'') = loadActivePolicy e None
      \<and> getSystemPolicyPath e = ''/etc/p''"
proof -
  let ?e = "\<lparr>le_default_path = ''/etc/p'', le_override = Some ''/tmp/p'', le_test_env = False,
      le_home = ''/h'', le_stat = (\<lambda>p. Some \<lparr>fs_uid = 1000, fs_mode = 420\<rparr>),
      le_exists = (\<lambda>p. p = ''/etc/p''), le_parse = (\<lambda>p. Some STRICT_POLICY)\<rparr>"
  have "getSystemPolicyPath ?e = ''/etc/p''" by code_simp
  moreover have "loadActivePolicy ?e (Some ''/evil'') = loadActivePolicy ?e None"
    using project_policy_ignored [of ?e "Some ''/evil''" None] calculation by simp
  ultimately show ?thesis by simp
qed

section \<open>The mapper\<close>

text \<open>
  No rule is dodged by a malformed input: the mapper reports a tool call as well formed exactly
  when its target carries the subject that the rules for its action are consulted on.
\<close>

theorem mapped_subject_present:
  "ma_malformed (mapClaudeCodeTool t inp) = None
   \<longleftrightarrow> rule_subject (ma_action (mapClaudeCodeTool t inp)) (ma_target (mapClaudeCodeTool t inp)) \<noteq> None"
  by (rule well_formed_subject)

end
