(* ===== verification/HashChain.thy ===== *)
theory HashChain
  imports Json
begin

text \<open>
  The tamper-evident event chain, \<^verbatim>\<open>packages/core/src/hash/chain.ts\<close>. An event is a JSON value;
  \<open>sha\<close> is the hexadecimal digest of the standard library and \<open>schema\<close> the success of the event
  schema of the third-party validator. Names are compared by their bytes, which is the order of
  \<open>sort()\<close> on names of the basic plane.
\<close>

record hash_env =
  he_sha :: "string \<Rightarrow> string"
  he_schema :: "json \<Rightarrow> bool"

section \<open>Canonical text\<close>

definition put_member :: "string \<Rightarrow> string \<Rightarrow> string" where
  "put_member k v = quote_json k @ '':'' @ v"

fun canonicalize :: "json \<Rightarrow> string" where
  "canonicalize (JArr vs) = ''['' @ join '','' (map canonicalize vs) @ '']''"
| "canonicalize (JObj ms) =
     (let vs = map (\<lambda>m. (fst m, canonicalize (snd m))) ms in
      CHR 0x7B # join '','' (map (\<lambda>k. put_member k (the (map_of vs k))) (sort (map fst ms)))
        @ [CHR 0x7D])"
| "canonicalize v = stringify v"

fun json_remove :: "string \<Rightarrow> json \<Rightarrow> json" where
  "json_remove k (JObj ms) = JObj (filter (\<lambda>m. fst m \<noteq> k) ms)"
| "json_remove k v = v"

definition computeEventHash :: "hash_env \<Rightarrow> json \<Rightarrow> string" where
  "computeEventHash e event = ''sha256:'' @ he_sha e (canonicalize (json_remove ''event_hash'' event))"

section \<open>Verification of single events\<close>

text \<open>JavaScript truth of a member that may be undefined.\<close>

fun truthy_json :: "json option \<Rightarrow> bool" where
  "truthy_json None \<longleftrightarrow> False"
| "truthy_json (Some JNull) \<longleftrightarrow> False"
| "truthy_json (Some (JBool b)) \<longleftrightarrow> b"
| "truthy_json (Some (JNum i)) \<longleftrightarrow> i \<noteq> 0"
| "truthy_json (Some (JStr s)) \<longleftrightarrow> s \<noteq> []"
| "truthy_json (Some (JArr vs)) \<longleftrightarrow> True"
| "truthy_json (Some (JObj ms)) \<longleftrightarrow> True"

definition event_hash :: "json \<Rightarrow> json option" where
  "event_hash ev = json_get ev ''event_hash''"

definition hash_matches :: "hash_env \<Rightarrow> json \<Rightarrow> bool" where
  "hash_matches e ev \<longleftrightarrow> event_hash ev = Some (JStr (computeEventHash e ev))"

record verify_options =
  vo_strict :: bool
  vo_requireChainProtected :: bool

record event_integrity =
  ei_total :: nat
  ei_invalid_schema_count :: nat
  ei_unhashed_count :: nat
  ei_hash_mismatch_count :: nat
  ei_first_failure :: "nat option"
  ei_valid :: bool
  ei_legacy_only_log :: bool

definition ei_fail :: "nat \<Rightarrow> event_integrity \<Rightarrow> event_integrity" where
  "ei_fail i r =
    r\<lparr>ei_valid := False,
      ei_first_failure := (case ei_first_failure r of None \<Rightarrow> Some i | Some j \<Rightarrow> Some j)\<rparr>"

text \<open>The loop of \<open>verifyEventHashes\<close>, with its index, result and \<open>sawHashed\<close>.\<close>

fun hashes_loop ::
  "hash_env \<Rightarrow> verify_options \<Rightarrow> nat \<Rightarrow> event_integrity \<Rightarrow> bool \<Rightarrow> json list
   \<Rightarrow> event_integrity \<times> bool" where
  "hashes_loop e opts i r saw [] = (r, saw)"
| "hashes_loop e opts i r saw (ev # evs) =
     (if \<not> he_schema e ev then
        hashes_loop e opts (Suc i)
          (ei_fail i (r\<lparr>ei_invalid_schema_count := Suc (ei_invalid_schema_count r)\<rparr>)) saw evs
      else if \<not> truthy_json (event_hash ev) then
        (let r1 = r\<lparr>ei_unhashed_count := Suc (ei_unhashed_count r)\<rparr> in
         hashes_loop e opts (Suc i) (if vo_strict opts \<or> saw then ei_fail i r1 else r1) saw evs)
      else if \<not> hash_matches e ev then
        hashes_loop e opts (Suc i)
          (ei_fail i (r\<lparr>ei_hash_mismatch_count := Suc (ei_hash_mismatch_count r)\<rparr>)) True evs
      else hashes_loop e opts (Suc i) r True evs)"

definition verifyEventHashes :: "hash_env \<Rightarrow> verify_options \<Rightarrow> json list \<Rightarrow> event_integrity" where
  "verifyEventHashes e opts events =
    (let r0 = \<lparr>ei_total = length events, ei_invalid_schema_count = 0, ei_unhashed_count = 0,
               ei_hash_mismatch_count = 0, ei_first_failure = None, ei_valid = True,
               ei_legacy_only_log = False\<rparr>;
         p = hashes_loop e opts 0 r0 False events; r = fst p
     in if ei_total r > 0 \<and> \<not> snd p \<and> ei_invalid_schema_count r = 0 then
          (let r1 = r\<lparr>ei_legacy_only_log := True\<rparr> in
           if vo_requireChainProtected opts then ei_fail 0 r1 else r1)
        else r)"

section \<open>Verification of a chain\<close>

record chain_verification =
  cv_total_events :: nat
  cv_chained_events :: nat
  cv_legacy_events :: nat
  cv_invalid_schema_events :: nat
  cv_hash_mismatch_count :: nat
  cv_prev_link_mismatch_count :: nat
  cv_first_failure :: "nat option"
  cv_valid :: bool
  cv_anchor :: "json option"
  cv_legacy_only_log :: bool

text \<open>The local variables of the loop of \<open>verifyChain\<close>.\<close>

record chain_state =
  cs_result :: chain_verification
  cs_last :: json
  cs_saw :: bool

definition cv_fail :: "nat \<Rightarrow> chain_verification \<Rightarrow> chain_verification" where
  "cv_fail i r =
    r\<lparr>cv_valid := False,
      cv_first_failure := (case cv_first_failure r of None \<Rightarrow> Some i | Some j \<Rightarrow> Some j)\<rparr>"

definition prev_hash :: "json \<Rightarrow> json option" where
  "prev_hash ev = json_get ev ''prev_hash''"

definition or_null :: "json option \<Rightarrow> json" where
  "or_null v = (case v of None \<Rightarrow> JNull | Some w \<Rightarrow> w)"

text \<open>A chained event: its own hash, then its link to the one before, or the anchor.\<close>

definition check_hash :: "hash_env \<Rightarrow> nat \<Rightarrow> json \<Rightarrow> chain_verification \<Rightarrow> chain_verification" where
  "check_hash e i ev r =
    (if \<not> hash_matches e ev
     then cv_fail i (r\<lparr>cv_hash_mismatch_count := Suc (cv_hash_mismatch_count r)\<rparr>) else r)"

definition check_link :: "nat \<Rightarrow> json \<Rightarrow> json \<Rightarrow> bool \<Rightarrow> chain_verification \<Rightarrow> chain_verification" where
  "check_link i ev last_hash saw r =
    (if \<not> saw then r\<lparr>cv_anchor := Some (or_null (prev_hash ev))\<rparr>
     else if prev_hash ev \<noteq> Some last_hash
     then cv_fail i (r\<lparr>cv_prev_link_mismatch_count := Suc (cv_prev_link_mismatch_count r)\<rparr>)
     else r)"

definition chain_step :: "hash_env \<Rightarrow> verify_options \<Rightarrow> nat \<Rightarrow> json \<Rightarrow> chain_state \<Rightarrow> chain_state" where
  "chain_step e opts i ev st =
    (let r = cs_result st in
     if \<not> he_schema e ev then
       st\<lparr>cs_result := cv_fail i (r\<lparr>cv_invalid_schema_events := Suc (cv_invalid_schema_events r)\<rparr>)\<rparr>
     else if \<not> truthy_json (event_hash ev) then
       (let r1 = r\<lparr>cv_legacy_events := Suc (cv_legacy_events r)\<rparr> in
        st\<lparr>cs_result := (if vo_strict opts \<or> cs_saw st then cv_fail i r1 else r1)\<rparr>)
     else
       \<lparr>cs_result = check_link i ev (cs_last st) (cs_saw st)
          (check_hash e i ev (r\<lparr>cv_chained_events := Suc (cv_chained_events r)\<rparr>)),
        cs_last = or_null (event_hash ev), cs_saw = True\<rparr>)"

fun chain_loop ::
  "hash_env \<Rightarrow> verify_options \<Rightarrow> nat \<Rightarrow> json list \<Rightarrow> chain_state \<Rightarrow> chain_state" where
  "chain_loop e opts i [] st = st"
| "chain_loop e opts i (ev # evs) st = chain_loop e opts (Suc i) evs (chain_step e opts i ev st)"

definition chain_state0 :: "nat \<Rightarrow> chain_state" where
  "chain_state0 n =
    \<lparr>cs_result =
       \<lparr>cv_total_events = n, cv_chained_events = 0, cv_legacy_events = 0,
        cv_invalid_schema_events = 0, cv_hash_mismatch_count = 0, cv_prev_link_mismatch_count = 0,
        cv_first_failure = None, cv_valid = True, cv_anchor = None, cv_legacy_only_log = False\<rparr>,
     cs_last = JNull, cs_saw = False\<rparr>"

definition verifyChain :: "hash_env \<Rightarrow> verify_options \<Rightarrow> json list \<Rightarrow> chain_verification" where
  "verifyChain e opts events =
    (let r = cs_result (chain_loop e opts 0 events (chain_state0 (length events))) in
     if cv_total_events r > 0 \<and> cv_chained_events r = 0 \<and> cv_invalid_schema_events r = 0 then
       (let r1 = r\<lparr>cv_legacy_only_log := True\<rparr> in
        if vo_requireChainProtected opts then cv_fail 0 r1 else r1)
     else r)"

section \<open>What the canonical text determines\<close>

text \<open>
  The reference: the value with the members of every object sorted by name. Canonical texts agree
  exactly when these values do.
\<close>

fun key_sorted :: "json \<Rightarrow> json" where
  "key_sorted (JArr vs) = JArr (map key_sorted vs)"
| "key_sorted (JObj ms) =
     (let vs = map (\<lambda>m. (fst m, key_sorted (snd m))) ms in
      JObj (map (\<lambda>k. (k, the (map_of vs k))) (sort (map fst ms))))"
| "key_sorted v = v"

lemma map_of_map_snd: "map_of (map (\<lambda>m. (fst m, f (snd m))) ms) k = map_option f (map_of ms k)"
  by (induction ms) auto

lemma canonicalize_key_sorted: "canonicalize v = stringify (key_sorted v)"
proof (induction v)
  case (JArr vs)
  then have "map canonicalize vs = map stringify (map key_sorted vs)" by simp
  then show ?case by (simp only: canonicalize.simps key_sorted.simps stringify.simps)
next
  case (JObj ms)
  define cs where "cs = map (\<lambda>m. (fst m, canonicalize (snd m))) ms"
  define ks where "ks = map (\<lambda>m. (fst m, key_sorted (snd m))) ms"
  have "the (map_of cs k) = stringify (the (map_of ks k))" if "k \<in> set (map fst ms)" for k
  proof -
    have "map_of ms k \<noteq> None" using that by (simp add: map_of_eq_None_iff)
    then obtain v where v: "map_of ms k = Some v" by blast
    then have "(k, v) \<in> set ms" by (rule map_of_SomeD)
    then have "canonicalize v = stringify (key_sorted v)" using JObj by (auto simp: snds.simps)
    with v show ?thesis by (simp add: map_of_map_snd cs_def ks_def)
  qed
  then have "map (\<lambda>k. put_member k (the (map_of cs k))) (sort (map fst ms))
      = map (\<lambda>m. quote_json (fst m) @ '':'' @ stringify (snd m))
          (map (\<lambda>k. (k, the (map_of ks k))) (sort (map fst ms)))"
    by (simp add: put_member_def)
  then show ?case
    by (simp only: canonicalize.simps key_sorted.simps stringify.simps Let_def cs_def ks_def)
qed auto

lemma canonicalize_eq_iff: "canonicalize v = canonicalize w \<longleftrightarrow> key_sorted v = key_sorted w"
  using stringify_inj by (auto simp: canonicalize_key_sorted)

lemma json_get_key_sorted: "json_get (key_sorted v) k = map_option key_sorted (json_get v k)"
proof (cases v)
  case (JObj ms)
  define vs where "vs = map (\<lambda>m. (fst m, key_sorted (snd m))) ms"
  have "map_of (map (\<lambda>k. (k, the (map_of vs k))) ks) k
      = (if k \<in> set ks then Some (the (map_of vs k)) else None)" for ks
    by (induction ks) auto
  moreover have "k \<in> set (map fst ms) \<longleftrightarrow> map_of ms k \<noteq> None"
    by (simp add: map_of_eq_None_iff)
  ultimately show ?thesis
    using map_of_map_snd [of key_sorted ms k] by (auto simp: JObj Let_def vs_def [symmetric])
qed simp_all

section \<open>Facts on the loops\<close>

lemma ei_fail_sel [simp]:
  "ei_valid (ei_fail i r) = False" "ei_total (ei_fail i r) = ei_total r"
  "ei_invalid_schema_count (ei_fail i r) = ei_invalid_schema_count r"
  by (simp_all add: ei_fail_def)

lemma cv_fail_sel [simp]:
  "cv_valid (cv_fail i r) = False" "cv_total_events (cv_fail i r) = cv_total_events r"
  "cv_chained_events (cv_fail i r) = cv_chained_events r"
  "cv_invalid_schema_events (cv_fail i r) = cv_invalid_schema_events r"
  by (simp_all add: cv_fail_def)

lemma check_sel [simp]:
  "cv_valid (check_hash e i ev r) \<longleftrightarrow> cv_valid r \<and> hash_matches e ev"
  "cv_valid (check_link i ev l saw r) \<longleftrightarrow> cv_valid r \<and> (saw \<longrightarrow> prev_hash ev = Some l)"
  "cv_total_events (check_hash e i ev r) = cv_total_events r"
  "cv_total_events (check_link i ev l saw r) = cv_total_events r"
  "cv_chained_events (check_hash e i ev r) = cv_chained_events r"
  "cv_chained_events (check_link i ev l saw r) = cv_chained_events r"
  "cv_invalid_schema_events (check_hash e i ev r) = cv_invalid_schema_events r"
  "cv_invalid_schema_events (check_link i ev l saw r) = cv_invalid_schema_events r"
  by (simp_all add: check_hash_def check_link_def)

abbreviation is_chained :: "json \<Rightarrow> bool" where
  "is_chained ev \<equiv> truthy_json (event_hash ev)"

text \<open>
  The abstract reading of the loops: schema-valid events, legacy ones only before the first
  chained one and not in strict mode, chained ones with their own hash and, where \<open>linked\<close>, the
  link to the one before.
\<close>

fun rest_ok :: "hash_env \<Rightarrow> bool \<Rightarrow> bool \<Rightarrow> bool \<Rightarrow> json \<Rightarrow> json list \<Rightarrow> bool" where
  "rest_ok e strict linked saw l [] \<longleftrightarrow> True"
| "rest_ok e strict linked saw l (ev # evs) \<longleftrightarrow>
     he_schema e ev
     \<and> (if is_chained ev
        then hash_matches e ev \<and> (linked \<and> saw \<longrightarrow> prev_hash ev = Some l)
             \<and> rest_ok e strict linked True (or_null (event_hash ev)) evs
        else \<not> strict \<and> \<not> saw \<and> rest_ok e strict linked saw l evs)"

definition log_ok :: "hash_env \<Rightarrow> verify_options \<Rightarrow> bool \<Rightarrow> json list \<Rightarrow> bool" where
  "log_ok e opts linked evs \<longleftrightarrow>
     rest_ok e (vo_strict opts) linked False JNull evs
     \<and> (vo_requireChainProtected opts \<longrightarrow> evs = [] \<or> (\<exists>ev \<in> set evs. is_chained ev))"

lemma rest_ok_schema: "rest_ok e strict linked saw l evs \<Longrightarrow> ev \<in> set evs \<Longrightarrow> he_schema e ev"
  by (induction evs arbitrary: saw l) (auto split: if_splits)

lemma chain_loop_valid:
  "cv_valid (cs_result (chain_loop e opts i evs st)) \<longleftrightarrow>
     cv_valid (cs_result st) \<and> rest_ok e (vo_strict opts) True (cs_saw st) (cs_last st) evs"
proof (induction evs arbitrary: i st)
  case (Cons ev evs)
  show ?case by (auto simp: Cons chain_step_def Let_def)
qed simp

lemma chain_loop_counts:
  "cv_total_events (cs_result (chain_loop e opts i evs st)) = cv_total_events (cs_result st)
   \<and> cv_chained_events (cs_result (chain_loop e opts i evs st))
       = cv_chained_events (cs_result st) + length (filter (\<lambda>ev. he_schema e ev \<and> is_chained ev) evs)
   \<and> cv_invalid_schema_events (cs_result (chain_loop e opts i evs st))
       = cv_invalid_schema_events (cs_result st) + length (filter (\<lambda>ev. \<not> he_schema e ev) evs)"
proof (induction evs arbitrary: i st)
  case (Cons ev evs)
  show ?case by (auto simp: Cons chain_step_def Let_def)
qed simp

lemma verifyChain_valid_iff: "cv_valid (verifyChain e opts evs) \<longleftrightarrow> log_ok e opts True evs"
  using chain_loop_counts [of e opts 0 evs "chain_state0 (length evs)"]
    rest_ok_schema [of e "vo_strict opts" True False JNull evs]
  by (auto simp: verifyChain_def Let_def chain_loop_valid chain_state0_def filter_empty_conv
      log_ok_def simp del: chain_loop.simps)

lemma rest_ok_unlinked: "rest_ok e strict False saw l evs = rest_ok e strict False saw l' evs"
  by (induction evs arbitrary: saw l l') (simp, metis rest_ok.simps(2))

lemma hashes_loop_valid:
  "ei_valid (fst (hashes_loop e opts i r saw evs)) \<longleftrightarrow>
     ei_valid r \<and> rest_ok e (vo_strict opts) False saw l evs"
proof (induction evs arbitrary: i r saw l)
  case (Cons ev evs)
  show ?case
    using rest_ok_unlinked [of e "vo_strict opts" True "or_null (event_hash ev)" evs l]
    by (auto simp: Let_def Cons [where l = l])
qed simp

lemma hashes_loop_counts:
  "ei_total (fst (hashes_loop e opts i r saw evs)) = ei_total r
   \<and> (snd (hashes_loop e opts i r saw evs) \<longleftrightarrow> saw \<or> (\<exists>ev \<in> set evs. he_schema e ev \<and> is_chained ev))
   \<and> ei_invalid_schema_count (fst (hashes_loop e opts i r saw evs))
       = ei_invalid_schema_count r + length (filter (\<lambda>ev. \<not> he_schema e ev) evs)"
proof (induction evs arbitrary: i r saw)
  case (Cons ev evs)
  show ?case by (auto simp: Let_def Cons)
qed simp

lemma verifyEventHashes_valid_iff: "ei_valid (verifyEventHashes e opts evs) \<longleftrightarrow> log_ok e opts False evs"
proof -
  define r0 where "r0 = \<lparr>ei_total = length evs, ei_invalid_schema_count = 0, ei_unhashed_count = 0,
    ei_hash_mismatch_count = 0, ei_first_failure = None, ei_valid = True, ei_legacy_only_log = False\<rparr>"
  have sel: "ei_total r0 = length evs" "ei_valid r0" "ei_invalid_schema_count r0 = 0"
    by (simp_all add: r0_def)
  show ?thesis
    unfolding verifyEventHashes_def Let_def r0_def [symmetric]
    using hashes_loop_counts [of e opts 0 r0 False evs] hashes_loop_valid [of e opts 0 r0 False evs JNull]
      rest_ok_schema [of e "vo_strict opts" False False JNull evs]
    by (auto simp: log_ok_def sel filter_empty_conv simp del: hashes_loop.simps)
qed

text \<open>The links between successive chained events are what the chain adds.\<close>

fun links :: "json list \<Rightarrow> bool" where
  "links (a # b # evs) \<longleftrightarrow> prev_hash b = Some (or_null (event_hash a)) \<and> links (b # evs)"
| "links _ \<longleftrightarrow> True"

lemma rest_ok_links:
  "rest_ok e strict True saw l evs \<longleftrightarrow> rest_ok e strict False saw l evs
     \<and> links (filter is_chained evs)
     \<and> (saw \<and> filter is_chained evs \<noteq> [] \<longrightarrow> prev_hash (hd (filter is_chained evs)) = Some l)"
proof (induction evs arbitrary: saw l)
  case (Cons ev evs)
  show ?case
    using Cons [of True "or_null (event_hash ev)"] Cons [of saw l]
    by (cases "filter is_chained evs") auto
qed simp

lemma log_ok_links: "log_ok e opts True evs \<longleftrightarrow> log_ok e opts False evs \<and> links (filter is_chained evs)"
  by (auto simp: log_ok_def rest_ok_links [of e _ False])

section \<open>Tamper evidence\<close>

text \<open>What a hashed event says: its members but the hash, in sorted order, and the hash.\<close>

definition event_view :: "json \<Rightarrow> json \<times> json option" where
  "event_view ev = (key_sorted (json_remove ''event_hash'' ev), event_hash ev)"

definition hashed_text :: "json \<Rightarrow> string" where
  "hashed_text ev = canonicalize (json_remove ''event_hash'' ev)"

lemma map_of_filter_other: "j \<noteq> k \<Longrightarrow> map_of (filter (\<lambda>m. fst m \<noteq> k) ms) j = map_of ms j"
  by (induction ms) auto

lemma json_get_remove: "j \<noteq> k \<Longrightarrow> json_get (json_remove k ev) j = json_get ev j"
  by (cases ev) (simp_all add: map_of_filter_other)

lemma prev_hash_view: "prev_hash ev = Some p \<Longrightarrow> json_get (fst (event_view ev)) ''prev_hash'' = Some (key_sorted p)"
  by (simp add: event_view_def json_get_key_sorted prev_hash_def json_get_remove)

text \<open>
  Two logs of chained events that both verify, of the same length and with the same last hash, say
  the same event by event, unless two of their hashed texts collide.
\<close>

definition collision :: "hash_env \<Rightarrow> json list \<Rightarrow> bool" where
  "collision e evs \<longleftrightarrow> (\<exists>a \<in> set evs. \<exists>b \<in> set evs.
     hashed_text a \<noteq> hashed_text b \<and> he_sha e (hashed_text a) = he_sha e (hashed_text b))"

lemma rest_ok_strict:
  "rest_ok e True linked saw l evs \<Longrightarrow> ev \<in> set evs \<Longrightarrow> is_chained ev \<and> hash_matches e ev"
  by (induction evs arbitrary: saw l) (auto split: if_splits)

lemma same_hash_same_view:
  assumes "hash_matches e a" "hash_matches e b" "event_hash a = event_hash b"
    and "\<not> collision e evs" "a \<in> set evs" "b \<in> set evs"
  shows "event_view a = event_view b"
proof -
  have "he_sha e (hashed_text a) = he_sha e (hashed_text b)"
    using assms(1-3) by (auto simp: hash_matches_def computeEventHash_def hashed_text_def)
  then have "hashed_text a = hashed_text b" using assms(4-6) by (auto simp: collision_def)
  then show ?thesis using assms(3) by (simp add: event_view_def hashed_text_def canonicalize_eq_iff)
qed

lemma links_snoc: "links (evs @ [a, b]) \<longleftrightarrow> links (evs @ [a]) \<and> prev_hash b = Some (or_null (event_hash a))"
  by (induction evs rule: links.induct) auto

lemma same_tip_same_log:
  assumes "\<forall>ev \<in> set xs \<union> set ys. hash_matches e ev" "links xs" "links ys"
    and "length xs = length ys" "xs \<noteq> []" "event_hash (last xs) = event_hash (last ys)"
    and "\<not> collision e (xs @ ys)"
  shows "map event_view xs = map event_view ys"
  using assms
proof (induction xs arbitrary: ys rule: rev_induct)
  case (snoc x xs)
  obtain y ys' where ys: "ys = ys' @ [y]" using snoc.prems(4) by (cases ys rule: rev_cases) auto
  have xy: "event_view x = event_view y"
    using snoc.prems by (intro same_hash_same_view [of e x y "(xs @ [x]) @ ys"]) (auto simp: ys)
  show ?case
  proof (cases xs rule: rev_cases)
    case Nil
    then show ?thesis using xy snoc.prems(4) by (simp add: ys)
  next
    case (snoc zs z)
    obtain ws w where ys': "ys' = ws @ [w]"
      using snoc.prems(4) snoc by (cases ys' rule: rev_cases) (auto simp: ys)
    have px: "prev_hash x = Some (or_null (event_hash z))"
      and py: "prev_hash y = Some (or_null (event_hash w))" and l: "links xs" "links ys'"
      using snoc.prems(2,3) links_snoc [of zs z x] links_snoc [of ws w y] by (auto simp: snoc ys ys')
    have str: "\<exists>t. event_hash ev = Some (JStr t)" if "ev \<in> {z, w}" for ev
      using snoc.prems(1) that by (auto simp: hash_matches_def snoc ys ys')
    have "event_hash z = event_hash w"
      using prev_hash_view [OF px] prev_hash_view [OF py] xy str [of z] str [of w]
      by (auto simp: or_null_def)
    moreover have "\<not> collision e (xs @ ys')"
      using snoc.prems(7) by (auto simp: collision_def ys)
    ultimately have "map event_view xs = map event_view ys'"
      using snoc.prems(1,4) l snoc by (intro snoc.IH) (auto simp: ys ys')
    with xy show ?thesis by (simp add: ys)
  qed
qed simp

end
