(* ===== verification/Attestation.thy ===== *)
theory Attestation
  imports HashChain
begin

text \<open>
  Signed attestations and witness records: \<^verbatim>\<open>packages/core/src/hash/attestation.ts\<close>,
  \<^verbatim>\<open>content.ts\<close> and \<^verbatim>\<open>witness.ts\<close>. The digest and the keyed digest of the standard library are
  parameters; comparing in constant time is comparing.
\<close>

record sign_env =
  sg_sha :: "string \<Rightarrow> string"
  sg_hmac :: "string \<Rightarrow> string \<Rightarrow> string"

definition EXCLUDED_FIELDS :: "string list" where
  "EXCLUDED_FIELDS = [''signature'', ''payload_hash'', ''key_id'', ''signature_source'']"

section \<open>Objects built by assignment\<close>

text \<open>
  An object that receives its members by assignment enumerates array indices first, in numeric
  order, then the other names as they came; assigning to \<open>__proto__\<close> creates no member.
\<close>

definition is_index :: "string \<Rightarrow> bool" where
  "is_index k \<longleftrightarrow> k \<noteq> [] \<and> list_all is_digit k \<and> (k = ''0'' \<or> hd k \<noteq> CHR ''0'')
     \<and> read_nat k < 4294967295"

definition own_order :: "string list \<Rightarrow> string list" where
  "own_order ks =
    (let own = filter (\<lambda>k. k \<noteq> ''__proto__'') ks in
     sort_key read_nat (filter is_index own) @ filter (\<lambda>k. \<not> is_index k) own)"

definition assigned :: "(string \<times> json) list \<Rightarrow> string list \<Rightarrow> json" where
  "assigned vs ks = JObj (map (\<lambda>k. (k, the (map_of vs k))) (own_order ks))"

fun deepSortKeys :: "json \<Rightarrow> json" where
  "deepSortKeys (JArr vs) = JArr (map deepSortKeys vs)"
| "deepSortKeys (JObj ms) =
     assigned (map (\<lambda>m. (fst m, deepSortKeys (snd m))) ms) (sort (map fst ms))"
| "deepSortKeys v = v"

text \<open>The object that is signed.\<close>

definition attested :: "(string \<times> json) list \<Rightarrow> json" where
  "attested artifact =
    assigned (map (\<lambda>m. (fst m, deepSortKeys (snd m))) artifact)
      (sort (filter (\<lambda>k. k \<notin> set EXCLUDED_FIELDS) (map fst artifact)))"

definition buildAttestationPayload :: "(string \<times> json) list \<Rightarrow> string" where
  "buildAttestationPayload artifact = stringify (attested artifact)"

section \<open>Signatures\<close>

definition hashAttestationPayload :: "sign_env \<Rightarrow> string \<Rightarrow> string" where
  "hashAttestationPayload e payload = ''sha256:'' @ sg_sha e payload"

definition signAttestation :: "sign_env \<Rightarrow> string \<Rightarrow> string \<Rightarrow> string" where
  "signAttestation e payload key = ''hmac-sha256:'' @ sg_hmac e key payload"

definition verifyAttestation :: "sign_env \<Rightarrow> string \<Rightarrow> string \<Rightarrow> string \<Rightarrow> bool" where
  "verifyAttestation e payload signature key \<longleftrightarrow>
    (let expected = signAttestation e payload key in
     if length expected \<noteq> length signature then False else expected = signature)"

definition verifyAttestationArtifact ::
  "sign_env \<Rightarrow> (string \<times> json) list \<Rightarrow> string \<Rightarrow> string \<Rightarrow> bool" where
  "verifyAttestationArtifact e artifact signature key \<longleftrightarrow>
    (case map_of artifact ''payload_hash'' of
       Some (JStr storedHash) \<Rightarrow>
         (let payload = buildAttestationPayload artifact in
          if storedHash \<noteq> hashAttestationPayload e payload then False
          else verifyAttestation e payload signature key)
     | _ \<Rightarrow> False)"

definition hashContent :: "sign_env \<Rightarrow> string \<Rightarrow> string" where
  "hashContent e content = ''sha256:'' @ sg_sha e content"

definition hashFile :: "sign_env \<Rightarrow> (string \<Rightarrow> string option) \<Rightarrow> string \<Rightarrow> string option" where
  "hashFile e read filePath =
    (case read filePath of None \<Rightarrow> None | Some content \<Rightarrow> Some (hashContent e content))"

section \<open>Witnesses\<close>

record witness_record =
  wr_witnessed_at :: string
  wr_tip_hash :: string
  wr_chained_events :: int
  wr_seal_signature :: string
  wr_key_id :: "string option"
  wr_witness_url :: string
  wr_anchor_id :: string
  wr_receipt_hash :: "string option"

text \<open>The parameters: dates that \<open>Date.parse\<close> reads, and the message of a failed schema.\<close>

record witness_env =
  we_date :: "string \<Rightarrow> bool"
  we_schema :: "witness_record \<Rightarrow> string option"

definition buildWitnessPayload ::
  "string \<Rightarrow> int \<Rightarrow> string \<Rightarrow> string option \<Rightarrow> string \<Rightarrow> string" where
  "buildWitnessPayload tip_hash chained_events seal_signature key_id requested_at =
    stringify (JObj
      ([(''protocol'', JStr ''patchwork-witness-v1''), (''tip_hash'', JStr tip_hash),
        (''chained_events'', JNum chained_events), (''seal_signature'', JStr seal_signature)]
       @ (case key_id of None \<Rightarrow> [] | Some k \<Rightarrow> [(''key_id'', JStr k)])
       @ [(''requested_at'', JStr requested_at)]))"

text \<open>Control characters, those of two bytes included, become question marks.\<close>

fun strip_controls :: "string \<Rightarrow> string" where
  "strip_controls [] = []"
| "strip_controls (c # cs) =
     (if (of_char c :: nat) < 32 \<or> c = CHR 0x7F then CHR 0x3F # strip_controls cs
      else if c = CHR 0xC2 \<and> cs \<noteq> [] \<and> in_range CHR 0x80 CHR 0x9F (hd cs)
      then CHR 0x3F # strip_controls (tl cs)
      else c # strip_controls cs)"

definition json_string :: "json option \<Rightarrow> string option" where
  "json_string v = (case v of Some (JStr s) \<Rightarrow> Some s | _ \<Rightarrow> None)"

definition witness_time :: "witness_env \<Rightarrow> json \<Rightarrow> string option \<Rightarrow> string + string" where
  "witness_time e resp fallback =
    (case json_string (json_get resp ''witnessed_at'') of
       Some t \<Rightarrow>
         if \<not> we_date e t
         then Inl (''Invalid witnessed_at: '' @ quote_json (strip_controls t)
                   @ '' is not a valid ISO datetime'')
         else Inr t
     | None \<Rightarrow>
         (case fallback of
            Some f \<Rightarrow> Inr f
          | None \<Rightarrow> Inl ''Response missing witnessed_at and no fallback provided''))"

definition validateWitnessResponse ::
  "witness_env \<Rightarrow> json option \<Rightarrow> string \<Rightarrow> string \<Rightarrow> int \<Rightarrow> string \<Rightarrow> string option \<Rightarrow> string option
   \<Rightarrow> string + witness_record" where
  "validateWitnessResponse e raw witnessUrl tipHash chainedEvents sealSignature keyId fallback =
    (case raw of
       Some (JObj ms) \<Rightarrow>
         (case json_string (json_get (JObj ms) ''anchor_id'') of
            None \<Rightarrow> Inl ''Response missing required anchor_id''
          | Some anchor \<Rightarrow>
              if anchor = [] then Inl ''Response missing required anchor_id''
              else
                (case witness_time e (JObj ms) fallback of
                   Inl err \<Rightarrow> Inl err
                 | Inr t \<Rightarrow>
                     (let rec = \<lparr>wr_witnessed_at = t, wr_tip_hash = tipHash,
                        wr_chained_events = chainedEvents, wr_seal_signature = sealSignature,
                        wr_key_id = keyId, wr_witness_url = witnessUrl, wr_anchor_id = anchor,
                        wr_receipt_hash = json_string (json_get (JObj ms) ''receipt_hash'')\<rparr>
                      in case we_schema e rec of
                           Some msg \<Rightarrow> Inl (''Schema validation failed: '' @ msg)
                         | None \<Rightarrow> Inr rec)))
     | Some (JArr vs) \<Rightarrow> Inl ''Response missing required anchor_id''
     | _ \<Rightarrow> Inl ''Response is not a JSON object'')"

definition hashWitnessPayload :: "sign_env \<Rightarrow> string \<Rightarrow> string" where
  "hashWitnessPayload e payload = ''sha256:'' @ sg_sha e payload"

section \<open>Facts\<close>

lemma verifyAttestation_iff: "verifyAttestation e p s k \<longleftrightarrow> s = signAttestation e p k"
  by (auto simp: verifyAttestation_def Let_def)

lemma verifyArtifact_iff:
  "verifyAttestationArtifact e a s k \<longleftrightarrow>
     map_of a ''payload_hash'' = Some (JStr (hashAttestationPayload e (buildAttestationPayload a)))
     \<and> s = signAttestation e (buildAttestationPayload a) k"
  by (auto simp: verifyAttestationArtifact_def verifyAttestation_iff Let_def
      split: option.split json.split)

lemma payload_eq_iff:
  "buildAttestationPayload a = buildAttestationPayload b \<longleftrightarrow> attested a = attested b"
  using stringify_inj by (auto simp: buildAttestationPayload_def)

lemma set_own_order: "set (own_order ks) = set ks - {''__proto__''}"
  by (auto simp: own_order_def Let_def)

text \<open>
  The order of an artifact's members does not matter; nor does a member of the excluded fields or
  one named \<open>__proto__\<close>.
\<close>

lemma attested_only:
  "attested a = attested (filter (\<lambda>m. fst m \<noteq> ''__proto__'' \<and> fst m \<notin> set EXCLUDED_FIELDS) a)"
proof -
  define P where "P = (\<lambda>k. k \<noteq> ''__proto__'' \<and> k \<notin> set EXCLUDED_FIELDS)"
  define d where "d = (\<lambda>m :: string \<times> json. (fst m, deepSortKeys (snd m)))"
  have keys: "own_order (sort (filter (\<lambda>k. k \<notin> set EXCLUDED_FIELDS) ks))
      = own_order (sort (filter (\<lambda>k. k \<notin> set EXCLUDED_FIELDS) (filter P ks)))" for ks
    by (simp add: own_order_def Let_def filter_sort filter_filter P_def conj_commute conj_left_commute)
  have vals: "map_of (map d (filter (\<lambda>m. P (fst m)) a)) k = map_of (map d a) k" if "P k" for k
    using that by (induction a) (auto simp: d_def)
  have "filter P (map fst a) = map fst (filter (\<lambda>m. P (fst m)) a)" by (simp add: filter_map comp_def)
  then show ?thesis
    unfolding attested_def assigned_def d_def [symmetric] P_def [symmetric]
    using keys [of "map fst a"] vals
    by (auto simp: set_own_order P_def intro!: map_cong)
qed

end
