(* ===== verification/AuditEvents.thy ===== *)
theory AuditEvents
  imports ToolMapper Attestation
begin

text \<open>
  The audit event of a hook call: \<open>redactCommand\<close>, \<open>processTarget\<close>, \<open>buildIdempotencyKey\<close>,
  \<open>buildEvent\<close> and \<open>fireWebhookAlert\<close> of \<^verbatim>\<open>packages/agents/src/claude-code/adapter.ts\<close>. Clock and
  random identifiers are arguments.
\<close>

section \<open>Redaction\<close>

definition is_word :: "char \<Rightarrow> bool" where
  "is_word c \<longleftrightarrow> is_alnumu c"

text \<open>\<open>\S\<close>: what is not a blank (the blanks outside ASCII are not modelled).\<close>

definition solid_run :: "string \<Rightarrow> string" where
  "solid_run s = takeWhile (\<lambda>c. \<not> is_space c) s"

definition starts_with_nocase :: "string \<Rightarrow> string \<Rightarrow> bool" where
  "starts_with_nocase s p \<longleftrightarrow> starts_with (to_lower s) p"

text \<open>
  \<open>SECRET_FLAG_RE\<close> at the head of the text: the alternatives of the flag name in their order, with
  the optional separator, then \<open>=\<close> or a blank, then the value.
\<close>

definition secret_flag_names :: "string list" where
  "secret_flag_names =
    [''password'', ''token'', ''api-key'', ''api_key'', ''apikey'', ''secret'', ''auth-token'',
     ''auth_token'', ''authtoken'', ''access-token'', ''access_token'', ''accesstoken'',
     ''private-key'', ''private_key'', ''privatekey'']"

definition flag_prefix :: "string \<Rightarrow> string \<Rightarrow> bool" where
  "flag_prefix s name \<longleftrightarrow>
    starts_with_nocase s (''--'' @ name)
    \<and> (case drop (2 + length name) s of
         c # r \<Rightarrow> (c = CHR ''='' \<or> c = CHR '' '') \<and> solid_run r \<noteq> []
       | [] \<Rightarrow> False)"

definition secret_flag_at :: "string \<Rightarrow> (string \<times> string) option" where
  "secret_flag_at s =
    (case find (flag_prefix s) secret_flag_names of
       None \<Rightarrow> None
     | Some n \<Rightarrow>
         (let k = 3 + length n in
          Some (take k s, drop (length (solid_run (drop k s))) (drop k s))))"

text \<open>\<open>BEARER_RE\<close>: the text kept is everything before the value.\<close>

definition bearer_at :: "string \<Rightarrow> (string \<times> string) option" where
  "bearer_at s =
    (if \<not> starts_with_nocase s ''authorization:'' then None
     else
       (let r = dropWhile is_space (drop 14 s) in
        if \<not> starts_with_nocase r ''bearer'' then None
        else
          (let v = dropWhile is_space (drop 6 r) in
           if v = drop 6 r \<or> solid_run v = [] then None
           else Some (take (length s - length v) s, drop (length (solid_run v)) v))))"

text \<open>
  \<open>INLINE_SECRET_RE\<close>: the longest run of the class that ends at a word boundary, so without its
  trailing dashes, of 20 characters at least. The flag says whether a word character comes before.
\<close>

definition key_char :: "char \<Rightarrow> bool" where
  "key_char c \<longleftrightarrow> is_word c \<or> c = CHR ''-''"

definition inline_secret_at :: "bool \<Rightarrow> string \<Rightarrow> (string \<times> string) option" where
  "inline_secret_at after_word s =
    (if after_word \<or> \<not> starts_with s ''sk-'' then None
     else
       (let body = rev (dropWhile (\<lambda>c. c = CHR ''-'') (rev (takeWhile key_char (drop 3 s)))) in
        if length body < 20 then None else Some ([], drop (3 + length body) s)))"

text \<open>
  Replacement of all matches, left to right: a match gives the text that is kept and what follows
  the match. A match is never empty, so the text gets shorter.
\<close>

definition REDACTED :: string where
  "REDACTED = ''[REDACTED]''"

fun replace_all :: "nat \<Rightarrow> (bool \<Rightarrow> string \<Rightarrow> (string \<times> string) option) \<Rightarrow> bool \<Rightarrow> string \<Rightarrow> string" where
  "replace_all 0 m w s = s"
| "replace_all (Suc n) m w [] = []"
| "replace_all (Suc n) m w (c # cs) =
     (case m w (c # cs) of
        Some (kept, r) \<Rightarrow>
          kept @ REDACTED
          @ replace_all n m (is_word (last (take (length (c # cs) - length r) (c # cs)))) r
      | None \<Rightarrow> c # replace_all n m (is_word c) cs)"

definition redactCommand :: "string \<Rightarrow> string" where
  "redactCommand command =
    (let run = (\<lambda>m s. replace_all (length s) m False s)
     in run inline_secret_at (run (\<lambda>w. bearer_at) (run (\<lambda>w. secret_flag_at) command)))"

section \<open>Targets\<close>

text \<open>\<open>path.posix.relative\<close>, over the segments of the resolved paths.\<close>

definition segments_of :: "string \<Rightarrow> string \<Rightarrow> string list" where
  "segments_of process_cwd p =
    norm_segments True [] (split_on (CHR ''/'') (if is_absolute p then p else process_cwd @ ''/'' @ p))"

fun relative_segments :: "string list \<Rightarrow> string list \<Rightarrow> string list" where
  "relative_segments (a # as) (b # bs) =
     (if a = b then relative_segments as bs else map (\<lambda>x. ''..'') (a # as) @ b # bs)"
| "relative_segments as bs = map (\<lambda>x. ''..'') as @ bs"

definition path_relative :: "string \<Rightarrow> string \<Rightarrow> string \<Rightarrow> string" where
  "path_relative process_cwd from to =
    join ''/'' (relative_segments (segments_of process_cwd from) (segments_of process_cwd to))"

definition relativize :: "string \<Rightarrow> string \<Rightarrow> string option \<Rightarrow> string option" where
  "relativize process_cwd cwd p =
    (case p of
       None \<Rightarrow> None
     | Some path \<Rightarrow>
         if path \<noteq> [] \<and> is_absolute path then
           (let rel = path_relative process_cwd cwd path in
            if rel \<noteq> [] \<and> \<not> starts_with rel ''..'' then Some rel else Some path)
         else Some path)"

definition processTarget :: "string \<Rightarrow> bool \<Rightarrow> string \<Rightarrow> target option \<Rightarrow> target option" where
  "processTarget process_cwd capture_abs cwd tgt =
    map_option (\<lambda>t. t\<lparr>tg_path := relativize process_cwd cwd (tg_path t),
                      tg_abs_path := (if capture_abs then tg_abs_path t else None),
                      tg_command := (case tg_command t of
                        None \<Rightarrow> None | Some c \<Rightarrow> Some (if c = [] then c else redactCommand c))\<rparr>) tgt"

section \<open>Events\<close>

text \<open>The hook's input; an absent field is \<open>None\<close>.\<close>

record hook_input =
  hi_session_id :: string
  hi_cwd :: string
  hi_event_name :: string
  hi_tool_name :: "string option"
  hi_tool_input :: "json option"
  hi_tool_response :: "json option"
  hi_tool_use_id :: "string option"
  hi_prompt :: "string option"
  hi_subagent_type :: "string option"

datatype event_status = Completed | Denied | Failed

record event_content =
  ec_hash :: string
  ec_size_bytes :: "nat option"

record provenance =
  pv_hook_event :: string
  pv_tool_name :: string

record audit_event =
  ae_id :: string
  ae_session_id :: string
  ae_timestamp :: string
  ae_idempotency_key :: "string option"
  ae_action :: string
  ae_status :: event_status
  ae_target :: "target option"
  ae_project_root :: string
  ae_project_name :: string
  ae_risk :: risk
  ae_content :: "event_content option"
  ae_provenance :: "provenance option"

record partial_event =
  pe_action :: string
  pe_status :: "event_status option"
  pe_target :: "target option"
  pe_content :: "event_content option"
  pe_provenance :: "provenance option"

definition buildIdempotencyKey :: "hook_input \<Rightarrow> string \<Rightarrow> string option" where
  "buildIdempotencyKey inp action =
    (if hi_session_id inp = [] then None
     else
       (let hookEvent = hi_event_name inp in
        if hookEvent \<in> {''PostToolUse'', ''PostToolUseFailure'', ''PreToolUse''} then
          (case str_or (hi_tool_use_id inp) None of
             None \<Rightarrow> None
           | Some u \<Rightarrow> Some (join '':'' [hi_session_id inp, hookEvent, action, u]))
        else if hookEvent \<in> {''SessionStart'', ''SessionEnd''} then
          Some (join '':'' [hi_session_id inp, hookEvent, action])
        else None))"

text \<open>What an event takes from the process: configuration, clock and identifiers.\<close>

record event_env =
  ee_paths :: path_env
  ee_capture_abs_path :: bool
  ee_now_iso :: string
  ee_event_id :: string
  ee_new_session :: string

definition session_of :: "event_env \<Rightarrow> hook_input \<Rightarrow> string" where
  "session_of e inp = (if hi_session_id inp = [] then ee_new_session e else hi_session_id inp)"

definition buildEvent :: "event_env \<Rightarrow> hook_input \<Rightarrow> partial_event \<Rightarrow> audit_event" where
  "buildEvent e inp p =
    \<lparr>ae_id = ee_event_id e, ae_session_id = session_of e inp, ae_timestamp = ee_now_iso e,
     ae_idempotency_key = buildIdempotencyKey inp (pe_action p), ae_action = pe_action p,
     ae_status = (case pe_status p of None \<Rightarrow> Completed | Some s \<Rightarrow> s),
     ae_target = processTarget (pe_process_cwd (ee_paths e)) (ee_capture_abs_path e) (hi_cwd inp)
       (pe_target p),
     ae_project_root = hi_cwd inp,
     ae_project_name = (let n = last_segment (hi_cwd inp) in if n = [] then ''unknown'' else n),
     ae_risk = classifyRisk (ee_paths e) (pe_action p) (pe_target p),
     ae_content = pe_content p, ae_provenance = pe_provenance p\<rparr>"

text \<open>When a webhook is called, and the target line of its message.\<close>

fun status_name :: "event_status \<Rightarrow> string" where
  "status_name Completed = ''completed''"
| "status_name Denied = ''denied''"
| "status_name Failed = ''failed''"

definition webhook_target :: "audit_event \<Rightarrow> string" where
  "webhook_target ev =
    (let f = (\<lambda>g. case ae_target ev of None \<Rightarrow> None | Some t \<Rightarrow> g t);
         cut = map_option (take 80)
     in case str_or (f tg_path) (str_or (cut (f tg_command)) (str_or (cut (f tg_url))
               (str_or (f tg_tool_name) None))) of
          Some s \<Rightarrow> s | None \<Rightarrow> ''unknown'')"

definition alert_worthy :: "audit_event \<Rightarrow> bool" where
  "alert_worthy ev \<longleftrightarrow>
    risk_of (ae_risk ev) = RCritical \<or> risk_of (ae_risk ev) = RHigh \<or> ae_status ev = Denied"

section \<open>Facts\<close>

text \<open>Two tool calls with the same key are the same call: no part of the key has a colon.\<close>

lemma split_at_colon:
  assumes "a @ CHR '':'' # b = a' @ CHR '':'' # b'" "CHR '':'' \<notin> set a" "CHR '':'' \<notin> set a'"
  shows "a = a' \<and> b = b'"
proof -
  have "takeWhile (\<lambda>c. c \<noteq> CHR '':'') (x @ CHR '':'' # y) = x"
    "dropWhile (\<lambda>c. c \<noteq> CHR '':'') (x @ CHR '':'' # y) = CHR '':'' # y" if "CHR '':'' \<notin> set x" for x y
    using that by (induction x) auto
  from this [OF assms(2), of b] this [OF assms(3), of b'] show ?thesis
    unfolding assms(1) by (simp only: list.inject)
qed

text \<open>The stored target of a path under the working directory is relative.\<close>

lemma relative_segments_prefix: "relative_segments as (as @ bs) = bs"
  by (induction as) (cases bs; simp)+

lemma relative_segments_inverse:
  "relative_segments as bs = replicate (length as - n) ''..'' @ drop n bs
   \<and> take n as = take n bs \<and> n \<le> length as"
  if "n = length (takeWhile (\<lambda>p. fst p = snd p) (zip as bs))" for n
  using that
proof (induction as bs arbitrary: n rule: relative_segments.induct)
  case (1 a as b bs)
  show ?case
  proof (cases "a = b")
    case True
    then show ?thesis using 1 by simp
  next
    case False
    then show ?thesis using 1 by (simp add: map_replicate_const)
  qed
qed (auto simp: map_replicate_const)

lemma abs_path_not_stored:
  "ae_target (buildEvent e inp p) = Some t \<Longrightarrow> \<not> ee_capture_abs_path e \<Longrightarrow> tg_abs_path t = None"
  by (auto simp: buildEvent_def processTarget_def)

end
