(* ===== verification/EventSchema.thy ===== *)
theory EventSchema
  imports AuditEvents
begin

text \<open>
  The schema of an audit event, \<^verbatim>\<open>packages/core/src/schema/event.ts\<close>, as a parser of JSON values:
  an object schema reads its fields in their order, drops unknown members, fills in defaults and
  fails on the first kind of value a field does not take. What a date and time looks like is the
  third-party validator's and a parameter.
\<close>

section \<open>Schemas\<close>

type_synonym schema = "json \<Rightarrow> json option"

datatype field = Required schema | Optional schema | Default json schema

fun z_string :: schema where
  "z_string (JStr s) = Some (JStr s)"
| "z_string _ = None"

fun z_number :: schema where
  "z_number (JNum i) = Some (JNum i)"
| "z_number _ = None"

fun z_boolean :: schema where
  "z_boolean (JBool b) = Some (JBool b)"
| "z_boolean _ = None"

definition z_refine :: "(string \<Rightarrow> bool) \<Rightarrow> schema" where
  "z_refine ok v = (case v of JStr s \<Rightarrow> if ok s then Some v else None | _ \<Rightarrow> None)"

definition z_enum :: "string list \<Rightarrow> schema" where
  "z_enum names = z_refine (\<lambda>s. s \<in> set names)"

definition z_literal :: "int \<Rightarrow> schema" where
  "z_literal i v = (if v = JNum i then Some v else None)"

definition z_nullable :: "schema \<Rightarrow> schema" where
  "z_nullable f v = (if v = JNull then Some JNull else f v)"

fun z_string_array :: schema where
  "z_string_array (JArr vs) = (if list_all (\<lambda>v. z_string v \<noteq> None) vs then Some (JArr vs) else None)"
| "z_string_array _ = None"

text \<open>\<open>z.record(z.unknown())\<close>: any object, as it is.\<close>

fun z_record :: schema where
  "z_record (JObj ms) = Some (JObj ms)"
| "z_record _ = None"

text \<open>A field's result: failure, no member, or a member.\<close>

fun z_field :: "field \<Rightarrow> json option \<Rightarrow> json option option" where
  "z_field (Required f) None = None"
| "z_field (Required f) (Some v) = map_option Some (f v)"
| "z_field (Optional f) None = Some None"
| "z_field (Optional f) (Some v) = map_option Some (f v)"
| "z_field (Default d f) None = map_option Some (f d)"
| "z_field (Default d f) (Some v) = map_option Some (f v)"

definition add_member :: "string \<Rightarrow> json option \<Rightarrow> (string \<times> json) list \<Rightarrow> (string \<times> json) list" where
  "add_member k v ms = (case v of None \<Rightarrow> ms | Some x \<Rightarrow> (k, x) # ms)"

fun z_members :: "(string \<times> field) list \<Rightarrow> (string \<times> json) list \<Rightarrow> (string \<times> json) list option" where
  "z_members [] ms = Some []"
| "z_members ((k, f) # fs) ms =
     (case z_field f (map_of ms k) of
        None \<Rightarrow> None
      | Some v \<Rightarrow> map_option (add_member k v) (z_members fs ms))"

fun z_object :: "(string \<times> field) list \<Rightarrow> schema" where
  "z_object fs (JObj ms) = map_option JObj (z_members fs ms)"
| "z_object fs _ = None"

section \<open>The audit event\<close>

definition AllActions :: "string list" where
  "AllActions =
    [''file_read'', ''file_write'', ''file_create'', ''file_delete'', ''file_edit'', ''file_glob'',
     ''file_grep'', ''command_execute'', ''command_approve'', ''command_deny'', ''web_fetch'',
     ''web_search'', ''api_call'', ''session_start'', ''session_end'', ''prompt_submit'',
     ''response_complete'', ''subagent_start'', ''subagent_stop'', ''task_delegate'',
     ''mcp_tool_call'', ''mcp_tool_result'']"

definition RiskLevel :: schema where
  "RiskLevel = z_enum [''none'', ''low'', ''medium'', ''high'', ''critical'']"

definition AgentType :: schema where
  "AgentType = z_enum [''claude-code'', ''codex'', ''cursor'', ''copilot'', ''custom'']"

definition EventStatus :: schema where
  "EventStatus = z_enum [''pending'', ''completed'', ''denied'', ''failed'']"

definition TargetSchema :: schema where
  "TargetSchema = z_object
    [(''type'', Required (z_enum [''file'', ''command'', ''url'', ''mcp_tool'', ''prompt''])),
     (''path'', Optional z_string), (''abs_path'', Optional z_string),
     (''command'', Optional z_string), (''url'', Optional z_string),
     (''tool_name'', Optional z_string)]"

definition ProjectContextSchema :: schema where
  "ProjectContextSchema = z_object
    [(''root'', Required z_string), (''name'', Required z_string), (''git_ref'', Optional z_string)]"

definition RiskSchema :: schema where
  "RiskSchema = z_object
    [(''level'', Required RiskLevel), (''flags'', Default (JArr []) z_string_array),
     (''policy_match'', Optional z_string)]"

definition ContentSchema :: schema where
  "ContentSchema = z_object
    [(''hash'', Required z_string), (''summary'', Optional z_string),
     (''before_hash'', Optional z_string), (''size_bytes'', Optional z_number),
     (''redacted'', Default (JBool True) z_boolean)]"

definition ProvenanceSchema :: schema where
  "ProvenanceSchema = z_object
    [(''hook_event'', Required z_string), (''tool_name'', Optional z_string),
     (''raw_input'', Optional z_record), (''raw_output'', Optional z_record)]"

definition CURRENT_SCHEMA_VERSION :: int where
  "CURRENT_SCHEMA_VERSION = 1"

definition event_fields :: "(string \<Rightarrow> bool) \<Rightarrow> (string \<times> field) list" where
  "event_fields is_datetime =
    [(''schema_version'', Optional (z_literal 1)), (''id'', Required z_string),
     (''session_id'', Required z_string), (''timestamp'', Required (z_refine is_datetime)),
     (''idempotency_key'', Optional z_string), (''agent'', Required AgentType),
     (''agent_version'', Optional z_string), (''action'', Required (z_enum AllActions)),
     (''status'', Default (JStr ''completed'') EventStatus), (''duration_ms'', Optional z_number),
     (''target'', Optional TargetSchema), (''project'', Optional ProjectContextSchema),
     (''risk'', Required RiskSchema), (''content'', Optional ContentSchema),
     (''provenance'', Optional ProvenanceSchema), (''prev_hash'', Optional (z_nullable z_string)),
     (''event_hash'', Optional z_string)]"

definition AuditEventSchema :: "(string \<Rightarrow> bool) \<Rightarrow> schema" where
  "AuditEventSchema is_datetime = z_object (event_fields is_datetime)"

section \<open>The hooks' events as JSON\<close>

text \<open>Members that are undefined are not there.\<close>

fun members :: "(string \<times> json option) list \<Rightarrow> (string \<times> json) list" where
  "members [] = []"
| "members ((k, v) # kvs) = add_member k v (members kvs)"

definition opt_str :: "string option \<Rightarrow> json option" where
  "opt_str = map_option JStr"

definition target_json :: "target \<Rightarrow> json" where
  "target_json t = JObj (members
    [(''type'', Some (JStr (tg_type t))), (''path'', opt_str (tg_path t)),
     (''abs_path'', opt_str (tg_abs_path t)), (''command'', opt_str (tg_command t)),
     (''url'', opt_str (tg_url t)), (''tool_name'', opt_str (tg_tool_name t))])"

definition risk_json :: "risk \<Rightarrow> json" where
  "risk_json r = JObj [(''level'', JStr (risk_name (risk_of r))), (''flags'', JArr (map JStr (risk_flags r)))]"

definition content_json :: "event_content \<Rightarrow> json" where
  "content_json c = JObj (members
    [(''hash'', Some (JStr (ec_hash c))),
     (''size_bytes'', map_option (\<lambda>n. JNum (int n)) (ec_size_bytes c)), (''redacted'', Some (JBool True))])"

definition provenance_json :: "provenance \<Rightarrow> json" where
  "provenance_json p = JObj [(''hook_event'', JStr (pv_hook_event p)), (''tool_name'', JStr (pv_tool_name p))]"

definition event_json :: "audit_event \<Rightarrow> json" where
  "event_json ev = JObj (members
    [(''schema_version'', Some (JNum CURRENT_SCHEMA_VERSION)), (''id'', Some (JStr (ae_id ev))),
     (''session_id'', Some (JStr (ae_session_id ev))), (''timestamp'', Some (JStr (ae_timestamp ev))),
     (''idempotency_key'', opt_str (ae_idempotency_key ev)), (''agent'', Some (JStr ''claude-code'')),
     (''action'', Some (JStr (ae_action ev))), (''status'', Some (JStr (status_name (ae_status ev)))),
     (''target'', map_option target_json (ae_target ev)),
     (''project'', Some (JObj [(''root'', JStr (ae_project_root ev)), (''name'', JStr (ae_project_name ev))])),
     (''risk'', Some (risk_json (ae_risk ev))), (''content'', map_option content_json (ae_content ev)),
     (''provenance'', map_option provenance_json (ae_provenance ev))])"

section \<open>Normal forms\<close>

text \<open>
  Parsing yields a normal form, which parses to itself: the members of the schema only, in the
  order of the schema.
\<close>

definition stable :: "schema \<Rightarrow> bool" where
  "stable f \<longleftrightarrow> (\<forall>v w. f v = Some w \<longrightarrow> f w = Some w)"

fun field_schema :: "field \<Rightarrow> schema" where
  "field_schema (Required f) = f"
| "field_schema (Optional f) = f"
| "field_schema (Default d f) = f"

lemma map_of_add_member [simp]:
  "map_of (add_member k v ms) j = (if j = k \<and> v \<noteq> None then v else map_of ms j)"
  by (auto simp: add_member_def split: option.split)

lemma keys_add_member: "fst ` set (add_member k v ms) \<subseteq> insert k (fst ` set ms)"
  by (auto simp: add_member_def split: option.splits)

lemma z_members_keys: "z_members fs ms = Some ns \<Longrightarrow> fst ` set ns \<subseteq> fst ` set fs"
proof (induction fs ms arbitrary: ns rule: z_members.induct)
  case (2 k f fs ms)
  then obtain v ns' where "z_field f (map_of ms k) = Some v" and ns: "ns = add_member k v ns'"
    and "z_members fs ms = Some ns'"
    by (auto split: option.splits)
  then have "fst ` set ns' \<subseteq> fst ` set fs" using "2.IH" by blast
  with keys_add_member [of k v ns'] show ?case by (auto simp: ns)
qed simp

lemma z_members_cong:
  "(\<And>k. k \<in> fst ` set fs \<Longrightarrow> map_of ms k = map_of ns k) \<Longrightarrow> z_members fs ms = z_members fs ns"
  by (induction fs) (auto split: option.split)

lemma z_field_stable: "stable (field_schema f) \<Longrightarrow> z_field f x = Some v \<Longrightarrow> z_field f v = Some v"
  by (cases f; cases x) (auto simp: stable_def)

lemma z_members_stable:
  "z_members fs ms = Some ns \<Longrightarrow> distinct (map fst fs)
   \<Longrightarrow> \<forall>f \<in> snd ` set fs. stable (field_schema f) \<Longrightarrow> z_members fs ns = Some ns"
proof (induction fs ms arbitrary: ns rule: z_members.induct)
  case (2 k f fs ms)
  obtain v ns' where v: "z_field f (map_of ms k) = Some v" and ns': "z_members fs ms = Some ns'"
    and ns: "ns = add_member k v ns'"
    using "2.prems"(1) by (auto split: option.splits)
  have k: "k \<notin> fst ` set ns'" using z_members_keys [OF ns'] "2.prems"(2) by auto
  then have "map_of ns k = v" by (cases v) (auto simp: ns add_member_def map_of_eq_None_iff)
  moreover have "z_members fs ns = z_members fs ns'"
    using "2.prems"(2) by (intro z_members_cong) (auto simp: ns)
  moreover have "z_members fs ns' = Some ns'" using "2.IH" [OF v] ns' "2.prems"(2,3) by simp
  moreover have "z_field f v = Some v" using z_field_stable [OF _ v] "2.prems"(3) by simp
  ultimately show ?case by (simp add: ns)
qed simp

lemma stable_object:
  assumes "distinct (map fst fs)" "\<forall>f \<in> snd ` set fs. stable (field_schema f)"
  shows "stable (z_object fs)"
  unfolding stable_def
proof (intro allI impI)
  fix v w assume "z_object fs v = Some w"
  then obtain ms ns where "z_members fs ms = Some ns" "w = JObj ns" by (cases v) auto
  with z_members_stable [OF _ assms] show "z_object fs w = Some w" by simp
qed

lemma stable_basic [simp]:
  "stable z_string" "stable z_number" "stable z_boolean" "stable z_record" "stable z_string_array"
  "stable (z_literal i)" "stable (z_refine ok)" "stable (z_enum names)"
  by (auto simp: stable_def z_literal_def z_refine_def z_enum_def
      elim!: z_string.elims z_number.elims z_boolean.elims z_record.elims z_string_array.elims
      split: json.splits if_splits)

lemma stable_nullable [simp]: "stable f \<Longrightarrow> stable (z_nullable f)"
  by (auto simp: stable_def z_nullable_def)

lemma stable_parts [simp]:
  "stable RiskLevel" "stable AgentType" "stable EventStatus" "stable TargetSchema"
  "stable ProjectContextSchema" "stable RiskSchema" "stable ContentSchema" "stable ProvenanceSchema"
  by (simp_all add: RiskLevel_def AgentType_def EventStatus_def TargetSchema_def ProjectContextSchema_def
      RiskSchema_def ContentSchema_def ProvenanceSchema_def stable_object)

lemma AuditEventSchema_stable: "stable (AuditEventSchema is_datetime)"
  unfolding AuditEventSchema_def by (rule stable_object) (simp_all add: event_fields_def)

text \<open>What a parse keeps of the members of the schema.\<close>

lemma z_members_get:
  "z_members fs ms = Some ns \<Longrightarrow> distinct (map fst fs) \<Longrightarrow> (k, f) \<in> set fs
   \<Longrightarrow> z_field f (map_of ms k) = Some (map_of ns k)"
proof (induction fs ms arbitrary: ns rule: z_members.induct)
  case (2 j g fs ms)
  obtain v ns' where v: "z_field g (map_of ms j) = Some v" and ns': "z_members fs ms = Some ns'"
    and ns: "ns = add_member j v ns'"
    using "2.prems"(1) by (auto split: option.splits)
  show ?case
  proof (cases "k = j")
    case True
    then have "map_of ns' k = None"
      using z_members_keys [OF ns'] "2.prems"(2) by (auto simp: map_of_eq_None_iff)
    moreover have "f = g" using True "2.prems"(2,3) by (force simp: rev_image_eqI)
    ultimately show ?thesis using v True by (cases v) (simp_all add: ns add_member_def)
  next
    case False
    with "2.prems" have "(k, f) \<in> set fs" "distinct (map fst fs)" by auto
    with "2.IH" [OF v ns'] False show ?thesis by (simp add: ns)
  qed
qed simp

text \<open>The events of the hooks are normal forms.\<close>

lemma members_simps [simp]: "members ((k, Some v) # kvs) = (k, v) # members kvs" "members ((k, None) # kvs) = members kvs"
  by (simp_all add: add_member_def)

definition known_target :: "target \<Rightarrow> bool" where
  "known_target t \<longleftrightarrow> tg_type t \<in> {''file'', ''command'', ''url'', ''mcp_tool'', ''prompt''}"

lemma TargetSchema_json: "known_target t \<Longrightarrow> TargetSchema (target_json t) = Some (target_json t)"
  by (cases "tg_path t"; cases "tg_abs_path t"; cases "tg_command t"; cases "tg_url t"; cases "tg_tool_name t")
    (auto simp: TargetSchema_def target_json_def known_target_def z_enum_def z_refine_def opt_str_def
      add_member_def)

lemma RiskSchema_json: "RiskSchema (risk_json r) = Some (risk_json r)"
  by (cases "risk_of r") (simp_all add: RiskSchema_def risk_json_def RiskLevel_def z_enum_def
      z_refine_def add_member_def list_all_iff)

lemma ContentSchema_json: "ContentSchema (content_json c) = Some (content_json c)"
  by (cases "ec_size_bytes c") (simp_all add: ContentSchema_def content_json_def add_member_def)

lemma ProvenanceSchema_json: "ProvenanceSchema (provenance_json p) = Some (provenance_json p)"
  by (simp add: ProvenanceSchema_def provenance_json_def add_member_def)

lemma status_known: "EventStatus (JStr (status_name s)) = Some (JStr (status_name s))"
  by (cases s) (simp_all add: EventStatus_def z_enum_def z_refine_def)

lemma event_json_valid:
  assumes "is_datetime (ae_timestamp ev)" "ae_action ev \<in> set AllActions"
    and "\<And>t. ae_target ev = Some t \<Longrightarrow> known_target t"
  shows "AuditEventSchema is_datetime (event_json ev) = Some (event_json ev)"
  using assms
  by (cases "ae_idempotency_key ev"; cases "ae_target ev"; cases "ae_content ev"; cases "ae_provenance ev")
    (simp_all add: AuditEventSchema_def event_fields_def event_json_def add_member_def opt_str_def
      z_literal_def CURRENT_SCHEMA_VERSION_def z_refine_def z_enum_def AgentType_def status_known
      TargetSchema_json RiskSchema_json ContentSchema_json ProvenanceSchema_json ProjectContextSchema_def)

lemma mapped_known:
  "ma_action (mapClaudeCodeTool t inp) \<in> set AllActions" "known_target (ma_target (mapClaudeCodeTool t inp))"
  by (simp_all add: mapper_defs AllActions_def known_target_def)

lemma processTarget_known:
  "processTarget c a d tgt = Some t \<Longrightarrow> (\<And>t. tgt = Some t \<Longrightarrow> known_target t) \<Longrightarrow> known_target t"
  by (auto simp: processTarget_def known_target_def)

lemma buildEvent_valid:
  assumes "is_datetime (ee_now_iso e)" "pe_action p \<in> set AllActions"
    and "\<And>t. pe_target p = Some t \<Longrightarrow> known_target t"
  shows "AuditEventSchema is_datetime (event_json (buildEvent e inp p)) = Some (event_json (buildEvent e inp p))"
proof (rule event_json_valid)
  show "known_target t" if "ae_target (buildEvent e inp p) = Some t" for t
    using that processTarget_known [OF _ assms(3)] by (simp add: buildEvent_def)
qed (use assms in \<open>simp_all add: buildEvent_def\<close>)

end
