(* ===== verification/JsonlStore.thy ===== *)
theory JsonlStore
  imports EventSchema
begin

text \<open>
  The append-only audit log, \<^verbatim>\<open>packages/core/src/store/jsonl.ts\<close>. The state is the files (text and
  modification time by path) and, for each store object, its cache: the keys already logged and the
  hash of the last chained event, valid while the modification time is the one it was built at.
  Events are JSON values, members that are undefined left out. \<open>log_env\<close> holds the hash, the
  date format of the validator and \<open>JSON.parse\<close>; \<open>io_env\<close> holds which file operations succeed and
  the modification time a write leaves. File modes are not modelled; the lock is in
  \<open>JsonlLock\<close>, and \<open>append_locked\<close> is the body that runs under it.
\<close>

record log_env =
  lg_sha :: "string \<Rightarrow> string"
  lg_datetime :: "string \<Rightarrow> bool"
  lg_parse :: "string \<Rightarrow> json option"

record io_env =
  io_append :: bool
  io_rename :: "string \<Rightarrow> bool"
  io_unlink :: "string \<Rightarrow> bool"
  io_mtime :: int

type_synonym log_files = "string \<Rightarrow> (string \<times> int) option"

record jsonl_store =
  js_path :: string
  js_max_bytes :: nat
  js_max_files :: nat
  js_dedup :: "string list option"
  js_last :: "string option"
  js_mtime :: "int option"
  js_errors :: nat
  js_read_errors :: nat

definition event_schema :: "log_env \<Rightarrow> json \<Rightarrow> json option" where
  "event_schema e = AuditEventSchema (lg_datetime e)"

definition hash_env_of :: "log_env \<Rightarrow> hash_env" where
  "hash_env_of e = \<lparr>he_sha = lg_sha e, he_schema = (\<lambda>ev. event_schema e ev \<noteq> None)\<rparr>"

definition new_store :: "string \<Rightarrow> nat \<Rightarrow> nat \<Rightarrow> jsonl_store" where
  "new_store path maxBytes maxFiles =
    \<lparr>js_path = path, js_max_bytes = maxBytes, js_max_files = maxFiles, js_dedup = None,
     js_last = None, js_mtime = None, js_errors = 0, js_read_errors = 0\<rparr>"

section \<open>Reading\<close>

definition fileMtimeMs :: "jsonl_store \<Rightarrow> log_files \<Rightarrow> int option" where
  "fileMtimeMs s fs = map_option snd (fs (js_path s))"

definition content_lines :: "string \<Rightarrow> string list" where
  "content_lines content = filter (\<lambda>l. trim l \<noteq> []) (split_on newline content)"

definition parse_line :: "log_env \<Rightarrow> string \<Rightarrow> json option" where
  "parse_line e l = (case lg_parse e l of None \<Rightarrow> None | Some raw \<Rightarrow> event_schema e raw)"

fun parse_lines :: "log_env \<Rightarrow> string list \<Rightarrow> json list \<times> nat" where
  "parse_lines e [] = ([], 0)"
| "parse_lines e (l # ls) =
     (let r = parse_lines e ls
      in case parse_line e l of None \<Rightarrow> (fst r, Suc (snd r)) | Some ev \<Rightarrow> (ev # fst r, snd r))"

definition parseFile :: "log_env \<Rightarrow> jsonl_store \<Rightarrow> log_files \<Rightarrow> json list \<times> nat" where
  "parseFile e s fs =
    (case fs (js_path s) of
       None \<Rightarrow> ([], 0) | Some (content, mtime) \<Rightarrow> parse_lines e (content_lines content))"

definition readAll :: "log_env \<Rightarrow> jsonl_store \<Rightarrow> log_files \<Rightarrow> jsonl_store \<times> json list" where
  "readAll e s fs = (let r = parseFile e s fs in (s\<lparr>js_read_errors := snd r\<rparr>, fst r))"

definition readAllStrict :: "log_env \<Rightarrow> jsonl_store \<Rightarrow> log_files \<Rightarrow> jsonl_store \<times> json list result" where
  "readAllStrict e s fs =
    (let r = parseFile e s fs; s' = s\<lparr>js_read_errors := snd r\<rparr>
     in if snd r > 0 then (s', Inl (Thrown ''audit log has corrupt/invalid line(s)''))
        else (s', Inr (fst r)))"

text \<open>\<open>xs.slice(-n)\<close>: the last \<open>n\<close>, everything for 0.\<close>

definition slice_last :: "nat \<Rightarrow> 'a list \<Rightarrow> 'a list" where
  "slice_last n xs = (if n = 0 then xs else drop (length xs - n) xs)"

definition readRecent :: "log_env \<Rightarrow> jsonl_store \<Rightarrow> nat \<Rightarrow> log_files \<Rightarrow> jsonl_store \<times> json list" where
  "readRecent e s limit fs = (let r = readAll e s fs in (fst r, slice_last limit (snd r)))"

section \<open>Querying\<close>

record event_filter =
  ef_agent :: "string option"
  ef_action :: "string option"
  ef_minRisk :: "string option"
  ef_sessionId :: "string option"
  ef_since :: "string option"
  ef_targetGlob :: "string option"
  ef_projectName :: "string option"
  ef_limit :: nat

fun order_index :: "string list \<Rightarrow> string \<Rightarrow> int" where
  "order_index [] x = - 1"
| "order_index (y # ys) x =
     (if y = x then 0 else let i = order_index ys x in if i < 0 then i else i + 1)"

definition string_member :: "json \<Rightarrow> string \<Rightarrow> string option" where
  "string_member v k = asString (json_get v k)"

definition member_of :: "json \<Rightarrow> string \<Rightarrow> string \<Rightarrow> string option" where
  "member_of v outer k =
    (case json_get v outer of None \<Rightarrow> None | Some w \<Rightarrow> string_member w k)"

definition filter_by :: "string option \<Rightarrow> (string \<Rightarrow> json \<Rightarrow> bool) \<Rightarrow> json list \<Rightarrow> json list" where
  "filter_by opt keep evs =
    (case str_or opt None of None \<Rightarrow> evs | Some x \<Rightarrow> filter (keep x) evs)"

definition risk_at_least :: "string \<Rightarrow> json \<Rightarrow> bool" where
  "risk_at_least minRisk ev \<longleftrightarrow>
    (let order = [''none'', ''low'', ''medium'', ''high'', ''critical''] in
     (case member_of ev ''risk'' ''level'' of
        None \<Rightarrow> - 1 | Some l \<Rightarrow> order_index order l) \<ge> order_index order minRisk)"

definition target_includes :: "string \<Rightarrow> json \<Rightarrow> bool" where
  "target_includes pattern ev \<longleftrightarrow>
    includes_str
      (case str_or (member_of ev ''target'' ''path'') (str_or (member_of ev ''target'' ''abs_path'') None) of
         None \<Rightarrow> [] | Some p \<Rightarrow> p)
      (filter (\<lambda>c. c \<noteq> CHR ''*'') pattern)"

definition matching :: "event_filter \<Rightarrow> json list \<Rightarrow> json list" where
  "matching f evs =
    (let e1 = filter_by (ef_agent f) (\<lambda>a ev. string_member ev ''agent'' = Some a) evs;
         e2 = filter_by (ef_action f) (\<lambda>a ev. string_member ev ''action'' = Some a) e1;
         e3 = filter_by (ef_minRisk f) risk_at_least e2;
         e4 = filter_by (ef_sessionId f) (\<lambda>a ev. string_member ev ''session_id'' = Some a) e3;
         e5 = filter_by (ef_since f) (\<lambda>a ev. case string_member ev ''timestamp'' of None \<Rightarrow> False | Some t \<Rightarrow> a \<le> t) e4;
         e6 = filter_by (ef_targetGlob f) target_includes e5;
         e7 = filter_by (ef_projectName f) (\<lambda>a ev. member_of ev ''project'' ''name'' = Some a) e6
     in slice_last (ef_limit f) e7)"

definition query :: "log_env \<Rightarrow> jsonl_store \<Rightarrow> event_filter \<Rightarrow> log_files \<Rightarrow> jsonl_store \<times> json list" where
  "query e s f fs = (let r = readAll e s fs in (fst r, matching f (snd r)))"

section \<open>The index\<close>

fun first_hash :: "json list \<Rightarrow> string option" where
  "first_hash [] = None"
| "first_hash (ev # evs) =
     (case string_member ev ''event_hash'' of Some h \<Rightarrow> Some h | None \<Rightarrow> first_hash evs)"

definition getLastChainedHash :: "json list \<Rightarrow> string option" where
  "getLastChainedHash evs = first_hash (rev evs)"

definition key_of :: "json \<Rightarrow> string option" where
  "key_of ev = str_or (string_member ev ''idempotency_key'') None"

definition ensureIndex :: "log_env \<Rightarrow> jsonl_store \<Rightarrow> log_files \<Rightarrow> jsonl_store" where
  "ensureIndex e s fs =
    (let currentMtime = fileMtimeMs s fs in
     if js_dedup s \<noteq> None \<and> js_mtime s = currentMtime then s
     else
       (let r = parseFile e s fs in
        s\<lparr>js_errors := snd r, js_dedup := Some (uniq (List.map_filter key_of (fst r))),
          js_last := getLastChainedHash (fst r), js_mtime := currentMtime\<rparr>))"

section \<open>Rotation\<close>

text \<open>The path up to its last dot, and from there on.\<close>

definition split_ext :: "string \<Rightarrow> string \<times> string" where
  "split_ext p =
    (if CHR ''.'' \<notin> set p then (p, [])
     else (let ext = CHR ''.'' # rev (takeWhile (\<lambda>c. c \<noteq> CHR ''.'') (rev p))
           in (take (length p - length ext) p, ext)))"

definition rotated_name :: "string \<Rightarrow> nat \<Rightarrow> string" where
  "rotated_name base i = fst (split_ext base) @ ''.'' @ digits_of i @ snd (split_ext base)"

definition rename_file :: "io_env \<Rightarrow> string \<Rightarrow> string \<Rightarrow> log_files \<Rightarrow> log_files" where
  "rename_file io src dst fs =
    (case fs src of
       None \<Rightarrow> fs | Some f \<Rightarrow> if io_rename io src then (fs(src := None))(dst := Some f) else fs)"

definition unlink_file :: "io_env \<Rightarrow> string \<Rightarrow> log_files \<Rightarrow> log_files" where
  "unlink_file io p fs = (if io_unlink io p then fs(p := None) else fs)"

definition rotateFiles :: "io_env \<Rightarrow> jsonl_store \<Rightarrow> log_files \<Rightarrow> jsonl_store \<times> log_files" where
  "rotateFiles io s fs =
    (let base = js_path s; n = js_max_files s;
         fs1 = fold (\<lambda>i. unlink_file io (rotated_name base i)) [n..<n + 10] fs;
         fs2 = fold (\<lambda>i. rename_file io (rotated_name base i) (rotated_name base (i + 1)))
                 (rev [1..<n]) fs1;
         fs3 = rename_file io base (rotated_name base 1) fs2
     in (s\<lparr>js_dedup := None, js_last := None, js_mtime := None, js_errors := 0\<rparr>, fs3))"

section \<open>Appending\<close>

text \<open>\<open>{...event, prev_hash}\<close> with its hash.\<close>

definition put_json :: "string \<Rightarrow> json \<Rightarrow> json \<Rightarrow> json" where
  "put_json k v ev = (case ev of JObj ms \<Rightarrow> JObj (obj_set k v ms) | _ \<Rightarrow> ev)"

definition chained :: "log_env \<Rightarrow> string option \<Rightarrow> json \<Rightarrow> json" where
  "chained e last_hash event =
    (let c = put_json ''prev_hash'' (case last_hash of None \<Rightarrow> JNull | Some h \<Rightarrow> JStr h) event
     in put_json ''event_hash'' (JStr (computeEventHash (hash_env_of e) c)) c)"

definition log_line :: "json \<Rightarrow> string" where
  "log_line ev = stringify ev @ [newline]"

definition maybe_rotate ::
  "io_env \<Rightarrow> string \<Rightarrow> jsonl_store \<Rightarrow> log_files \<Rightarrow> jsonl_store \<times> log_files" where
  "maybe_rotate io line s fs =
    (case fs (js_path s) of
       None \<Rightarrow> (s, fs)
     | Some (content, mtime) \<Rightarrow>
         if js_max_bytes s > 0 \<and> length content + length line > js_max_bytes s
         then rotateFiles io s fs else (s, fs))"

definition append_line :: "io_env \<Rightarrow> string \<Rightarrow> string \<Rightarrow> log_files \<Rightarrow> log_files" where
  "append_line io path line fs =
    fs(path := Some ((case fs path of None \<Rightarrow> [] | Some (content, mtime) \<Rightarrow> content) @ line,
                     io_mtime io))"

text \<open>The cache after the write; \<open>dedupIndex\<close> is null when the write has rotated the files.\<close>

definition note_append :: "log_files \<Rightarrow> json \<Rightarrow> string \<Rightarrow> jsonl_store \<Rightarrow> jsonl_store \<times> unit result" where
  "note_append fs event h s =
    (let fin = (\<lambda>s'. (s'\<lparr>js_last := Some h, js_mtime := fileMtimeMs s' fs\<rparr>, Inr ()))
     in case key_of event of
          None \<Rightarrow> fin s
        | Some k \<Rightarrow>
            (case js_dedup s of
               None \<Rightarrow> (s, Inl (TypeError ''Cannot read properties of null (reading add)''))
             | Some ks \<Rightarrow> fin (s\<lparr>js_dedup := Some (if k \<in> set ks then ks else ks @ [k])\<rparr>)))"

definition append_locked ::
  "log_env \<Rightarrow> io_env \<Rightarrow> json \<Rightarrow> jsonl_store \<Rightarrow> log_files
   \<Rightarrow> jsonl_store \<times> log_files \<times> unit result" where
  "append_locked e io event s0 fs =
    (let s = ensureIndex e s0 fs in
     if js_errors s > 0 then
       (s, fs, Inl (Thrown ''Refusing to append to corrupted audit log''))
     else if (case key_of event of None \<Rightarrow> False | Some k \<Rightarrow> k \<in> set (the (js_dedup s))) then
       (s, fs, Inr ())
     else
       (let ev = chained e (js_last s) event; line = log_line ev;
            r = maybe_rotate io line s fs
        in if \<not> io_append io then (fst r, snd r, Inl (Thrown ''append failed''))
           else
             (let fs' = append_line io (js_path s) line (snd r);
                  n = note_append fs' event (the (string_member ev ''event_hash'')) (fst r)
              in (fst n, fs', snd n))))"

text \<open>The schema is checked before the lock is taken.\<close>

definition append_event_log ::
  "log_env \<Rightarrow> io_env \<Rightarrow> json \<Rightarrow> jsonl_store \<Rightarrow> log_files
   \<Rightarrow> jsonl_store \<times> log_files \<times> unit result" where
  "append_event_log e io event s fs =
    (if event_schema e event = None then (s, fs, Inl (Thrown ''Invalid event''))
     else append_locked e io event s fs)"

section \<open>Facts\<close>

lemma keys_obj_set: "fst ` set (obj_set k v ms) = insert k (fst ` set ms)"
  by (induction k v ms rule: obj_set.induct) auto

end
