(* ===== verification/JsonlChain.thy ===== *)
theory JsonlChain
  imports JsonlStore
begin

text \<open>
  What the log store promises: a file written by appends alone holds a chain that strict
  verification accepts, whatever stores of whatever processes wrote it, with every event once.
\<close>

section \<open>Printed lines\<close>

text \<open>
  Values that the reader of JSON gives back unchanged: no member name twice, and none that is an
  array index, whose members a parsed object lists first.
\<close>

fun plain_json :: "json \<Rightarrow> bool" where
  "plain_json (JArr vs) \<longleftrightarrow> list_all plain_json vs"
| "plain_json (JObj ms) \<longleftrightarrow> distinct (map fst ms) \<and> list_all (\<lambda>m. \<not> is_index (fst m) \<and> plain_json (snd m)) ms"
| "plain_json _ \<longleftrightarrow> True"

definition reads_own_lines :: "log_env \<Rightarrow> bool" where
  "reads_own_lines e \<longleftrightarrow> (\<forall>v. plain_json v \<longrightarrow> lg_parse e (stringify v) = Some v)"

lemma hex_char_not_newline: "n < 16 \<Longrightarrow> hex_char n \<noteq> newline"
proof
  assume "n < 16" "hex_char n = newline"
  then have "(of_char (hex_char n) :: nat) = 10" by simp
  with \<open>n < 16\<close> show False by (simp add: hex_char_def split: if_splits)
qed

lemma escape_no_newline: "newline \<notin> set (escape_char c)"
proof -
  have "(of_char c :: nat) div 16 < 16" by (simp add: less_mult_imp_div_less)
  then show ?thesis
    by (auto simp: escape_char_def Let_def hex_char_not_newline [symmetric] dest: arg_cong [of _ _ of_char])
qed

lemma quote_no_newline: "newline \<notin> set (quote_json s)"
  using escape_no_newline by (auto simp: quote_json_def)

lemma digits_no_newline: "newline \<notin> set (digits_of n)"
  using digits_of_digits [of n] by (auto simp: is_digit_def in_range_def)

lemma print_no_newline: "newline \<notin> set (print_int i)"
  using digits_no_newline by (simp add: print_int_def)

lemma set_join: "set (join sep ws) \<subseteq> set sep \<union> (\<Union>w \<in> set ws. set w)"
  by (induction sep ws rule: join.induct) auto

lemma stringify_no_newline: "newline \<notin> set (stringify v)"
proof (induction v)
  case (JArr vs)
  then show ?case using set_join [of "'',''" "map stringify vs"] by auto
next
  case (JObj ms)
  then show ?case
    using set_join [of "'',''" "map (\<lambda>m. quote_json (fst m) @ '':'' @ stringify (snd m)) ms"]
      quote_no_newline by fastforce
qed (simp_all add: print_no_newline quote_no_newline)

lemma split_on_line: "d \<notin> set l \<Longrightarrow> split_on d (l @ d # r) = l # split_on d r"
  by (induction l) auto

lemma split_lines: "split_on newline (concat (map log_line evs)) = map stringify evs @ [[]]"
  by (induction evs) (simp_all add: log_line_def split_on_line stringify_no_newline)

lemma trim_nonblank: "c \<in> set s \<Longrightarrow> \<not> is_space c \<Longrightarrow> trim s \<noteq> []"
proof -
  assume c: "c \<in> set s" "\<not> is_space c"
  then have "c \<in> set (dropWhile is_space s)" using set_dropWhileD takeWhile_dropWhile_id
    by (metis UnE set_append set_takeWhileD)
  then have "dropWhile is_space (rev (dropWhile is_space s)) \<noteq> []"
    using c(2) by (auto simp: dropWhile_eq_Nil_conv)
  then show ?thesis by (simp add: trim_def)
qed

lemma stringify_nonblank_head: "\<exists>c cs. stringify v = c # cs \<and> \<not> is_space c"
  using print_int_head [of "case v of JNum i \<Rightarrow> i | _ \<Rightarrow> 0"]
  by (cases v) (auto simp: quote_json_def is_digit_def is_space_def in_range_def)

lemma trim_stringify: "trim (stringify v) \<noteq> []"
  using stringify_nonblank_head [of v] by (metis list.set_intros(1) trim_nonblank)

lemma content_lines_log: "content_lines (concat (map log_line evs)) = map stringify evs"
  by (simp add: content_lines_def split_lines trim_stringify filter_id_conv) (simp add: trim_def)

section \<open>The schema on logged events\<close>

lemma schema_object: "event_schema e v = Some w \<Longrightarrow> \<exists>ms ns. v = JObj ms \<and> w = JObj ns
    \<and> z_members (event_fields (lg_datetime e)) ms = Some ns"
  by (cases v) (auto simp: event_schema_def AuditEventSchema_def)

lemma event_fields_distinct: "distinct (map fst (event_fields is_datetime))"
  by (simp add: event_fields_def)

lemma optional_string_kept:
  assumes "event_schema e v = Some w" "(k, Optional z_string) \<in> set (event_fields (lg_datetime e))"
  shows "json_get w k = json_get v k" "string_member w k = string_member v k"
proof -
  obtain ms ns where v: "v = JObj ms" "w = JObj ns"
    and m: "z_members (event_fields (lg_datetime e)) ms = Some ns"
    using schema_object [OF assms(1)] by blast
  have "z_field (Optional z_string) (map_of ms k) = Some (map_of ns k)"
    by (rule z_members_get [OF m event_fields_distinct assms(2)])
  then show "json_get w k = json_get v k"
    by (cases "map_of ms k") (auto simp: v elim!: z_string.elims)
  then show "string_member w k = string_member v k" by (simp add: string_member_def)
qed

lemma kept_members:
  assumes "event_schema e v = Some w"
  shows "string_member w ''event_hash'' = string_member v ''event_hash''" "key_of w = key_of v"
  using optional_string_kept(2) [OF assms, of "''event_hash''"]
    optional_string_kept(2) [OF assms, of "''idempotency_key''"]
  by (simp_all add: event_fields_def key_of_def)

lemma z_members_total:
  "z_members fs ms \<noteq> None \<longleftrightarrow> (\<forall>(k, f) \<in> set fs. z_field f (map_of ms k) \<noteq> None)"
  by (induction fs ms rule: z_members.induct) (auto split: option.split)

section \<open>The chained event\<close>

lemma map_of_put [simp]: "json_get (put_json k v (JObj ms)) j = (if j = k then Some v else map_of ms j)"
  by (simp add: put_json_def)

lemma filter_obj_set: "filter (\<lambda>m. fst m \<noteq> k) (obj_set k v ms) = filter (\<lambda>m. fst m \<noteq> k) ms"
  by (induction k v ms rule: obj_set.induct) simp_all

lemma distinct_obj_set: "distinct (map fst ms) \<Longrightarrow> distinct (map fst (obj_set k v ms))"
  by (induction k v ms rule: obj_set.induct) (auto simp: keys_obj_set)

lemma set_obj_set: "set (obj_set k v ms) \<subseteq> insert (k, v) (set ms)"
  by (induction k v ms rule: obj_set.induct) auto

lemma plain_put:
  "plain_json (JObj ms) \<Longrightarrow> \<not> is_index k \<Longrightarrow> plain_json v \<Longrightarrow> plain_json (put_json k v (JObj ms))"
  using set_obj_set [of k v ms] by (auto simp: put_json_def distinct_obj_set list_all_iff)

lemma schema_put:
  assumes "event_schema e (JObj ms) \<noteq> None"
    and "\<And>f. (k, f) \<in> set (event_fields (lg_datetime e)) \<Longrightarrow> z_field f (Some v) \<noteq> None"
  shows "event_schema e (put_json k v (JObj ms)) \<noteq> None"
  using assms z_members_total
  by (fastforce simp: event_schema_def AuditEventSchema_def put_json_def)

lemma chain_names: "\<not> is_index ''prev_hash''" "\<not> is_index ''event_hash''"
  by code_simp+

lemma chained_event:
  assumes "event_schema e ev \<noteq> None" "plain_json ev"
  shows "plain_json (chained e l ev)" "event_schema e (chained e l ev) \<noteq> None"
    "hash_matches (hash_env_of e) (chained e l ev)"
    "prev_hash (chained e l ev) = Some (case l of None \<Rightarrow> JNull | Some h \<Rightarrow> JStr h)"
    "key_of (chained e l ev) = key_of ev"
    "j \<notin> {''prev_hash'', ''event_hash''} \<Longrightarrow> json_get (chained e l ev) j = json_get ev j"
proof -
  obtain ms where ev: "ev = JObj ms" using assms(1) schema_object by blast
  define c where "c = put_json ''prev_hash'' (case l of None \<Rightarrow> JNull | Some h \<Rightarrow> JStr h) ev"
  obtain cs where c: "c = JObj cs" by (simp add: c_def ev put_json_def)
  have ch: "chained e l ev = put_json ''event_hash'' (JStr (computeEventHash (hash_env_of e) c)) c"
    by (simp add: chained_def c_def Let_def)
  have "plain_json c" unfolding c_def ev using assms(2)
    by (intro plain_put) (auto simp: ev chain_names split: option.split)
  then show "plain_json (chained e l ev)" unfolding ch c by (intro plain_put) (simp_all add: chain_names)
  have "event_schema e c \<noteq> None" unfolding c_def ev using assms(1) unfolding ev
    by (rule schema_put) (auto simp: event_fields_def z_nullable_def split: option.split)
  then show "event_schema e (chained e l ev) \<noteq> None" unfolding ch c
    by (rule schema_put) (auto simp: event_fields_def)
  have get: "json_get c j = (if j = ''prev_hash'' then Some (case l of None \<Rightarrow> JNull | Some h \<Rightarrow> JStr h) else json_get ev j)" for j
    by (simp add: c_def ev)
  have get': "json_get (chained e l ev) j = (if j = ''event_hash'' then Some (JStr (computeEventHash (hash_env_of e) c)) else json_get c j)" for j
    unfolding ch c by simp
  have "computeEventHash (hash_env_of e) (chained e l ev) = computeEventHash (hash_env_of e) c"
    unfolding ch c by (simp add: computeEventHash_def put_json_def filter_obj_set)
  then show "hash_matches (hash_env_of e) (chained e l ev)"
    by (simp add: hash_matches_def event_hash_def get')
  show "prev_hash (chained e l ev) = Some (case l of None \<Rightarrow> JNull | Some h \<Rightarrow> JStr h)"
    by (simp add: prev_hash_def get' get)
  show "key_of (chained e l ev) = key_of ev" by (simp add: key_of_def string_member_def get' get)
  show "json_get (chained e l ev) j = json_get ev j" if "j \<notin> {''prev_hash'', ''event_hash''}"
    using that by (simp add: get' get)
qed

section \<open>The log\<close>

definition tip :: "json list \<Rightarrow> string option" where
  "tip evs = (if evs = [] then None else string_member (last evs) ''event_hash'')"

definition logged_keys :: "json list \<Rightarrow> string set" where
  "logged_keys evs = set (List.map_filter key_of evs)"

definition logged :: "log_env \<Rightarrow> json \<Rightarrow> bool" where
  "logged e ev \<longleftrightarrow> plain_json ev \<and> event_schema e ev \<noteq> None \<and> hash_matches (hash_env_of e) ev"

text \<open>The file at \<open>p\<close> holds the lines of a chain of events.\<close>

definition log_inv :: "log_env \<Rightarrow> log_files \<Rightarrow> string \<Rightarrow> json list \<Rightarrow> bool" where
  "log_inv e fs p evs \<longleftrightarrow>
    (case fs p of None \<Rightarrow> evs = [] | Some (content, mtime) \<Rightarrow> content = concat (map log_line evs))
    \<and> list_all (logged e) evs \<and> links evs"

lemma logged_hash: "logged e ev \<Longrightarrow> event_hash ev = Some (JStr (computeEventHash (hash_env_of e) ev))"
  by (simp add: logged_def hash_matches_def)

lemma logged_tip: "logged e ev \<Longrightarrow> string_member ev ''event_hash'' = Some (computeEventHash (hash_env_of e) ev)"
  using logged_hash [of e ev] by (simp add: string_member_def event_hash_def asString_def)

lemma parse_logged:
  assumes "reads_own_lines e" "list_all (logged e) evs"
  shows "parse_lines e (map stringify evs) = (map (\<lambda>ev. the (event_schema e ev)) evs, 0)"
  using assms(2)
proof (induction evs)
  case (Cons ev evs)
  then obtain w where "event_schema e ev = Some w" by (auto simp: logged_def)
  moreover have "lg_parse e (stringify ev) = Some ev"
    using assms(1) Cons.prems by (simp add: reads_own_lines_def logged_def)
  ultimately show ?case using Cons by (simp add: parse_line_def Let_def)
qed simp

lemma parseFile_log:
  assumes "reads_own_lines e" "log_inv e fs (js_path s) evs"
  shows "parseFile e s fs = (map (\<lambda>ev. the (event_schema e ev)) evs, 0)"
proof (cases "fs (js_path s)")
  case None
  with assms(2) show ?thesis by (simp add: parseFile_def log_inv_def)
next
  case (Some f)
  then obtain m where "fs (js_path s) = Some (concat (map log_line evs), m)"
    using assms(2) by (cases f) (simp add: log_inv_def)
  with parse_logged [OF assms(1), of evs] assms(2) show ?thesis
    by (simp add: parseFile_def content_lines_log log_inv_def)
qed

lemma schema_hash:
  "logged e ev \<Longrightarrow> string_member (the (event_schema e ev)) ''event_hash'' = string_member ev ''event_hash''"
  by (auto simp: logged_def kept_members)

lemma last_hash_log:
  assumes "list_all (logged e) evs"
  shows "getLastChainedHash (map (\<lambda>ev. the (event_schema e ev)) evs) = tip evs"
proof (cases evs rule: rev_cases)
  case (snoc xs x)
  with assms have "logged e x" by simp
  with snoc show ?thesis
    by (simp add: getLastChainedHash_def tip_def schema_hash logged_tip)
qed (simp add: getLastChainedHash_def tip_def)

lemma keys_log:
  assumes "list_all (logged e) evs"
  shows "set (List.map_filter key_of (map (\<lambda>ev. the (event_schema e ev)) evs)) = logged_keys evs"
proof -
  have "key_of (the (event_schema e ev)) = key_of ev" if "ev \<in> set evs" for ev
    using assms that by (auto simp: list_all_iff logged_def kept_members)
  then have "map key_of (map (\<lambda>ev. the (event_schema e ev)) evs) = map key_of evs" by simp
  moreover have "List.map_filter key_of xs = map the (filter (\<lambda>x. x \<noteq> None) (map key_of xs))" for xs
    by (induction xs) (auto simp: List.map_filter_simps split: option.split)
  ultimately show ?thesis by (simp add: logged_keys_def)
qed

section \<open>The cache\<close>

definition right :: "jsonl_store \<Rightarrow> json list \<Rightarrow> bool" where
  "right s evs \<longleftrightarrow> js_errors s = 0 \<and> js_last s = tip evs
     \<and> (\<exists>ks. js_dedup s = Some ks \<and> set ks = logged_keys evs)"

text \<open>A cache may be out of date only where the modification time shows it.\<close>

definition cache_ok :: "jsonl_store \<Rightarrow> log_files \<Rightarrow> json list \<Rightarrow> bool" where
  "cache_ok s fs evs \<longleftrightarrow>
    (js_dedup s \<noteq> None \<and> js_mtime s = fileMtimeMs s fs \<longrightarrow> right s evs)"

lemma ensure_right:
  assumes "reads_own_lines e" "log_inv e fs (js_path s) evs" "cache_ok s fs evs"
  shows "right (ensureIndex e s fs) evs" "js_path (ensureIndex e s fs) = js_path s"
    "js_max_bytes (ensureIndex e s fs) = js_max_bytes s"
    "js_mtime (ensureIndex e s fs) = fileMtimeMs s fs"
proof -
  have "list_all (logged e) evs" using assms(2) by (simp add: log_inv_def)
  then show "right (ensureIndex e s fs) evs"
    using assms(3) parseFile_log [OF assms(1,2)]
    by (auto simp: ensureIndex_def Let_def cache_ok_def right_def last_hash_log keys_log)
qed (auto simp: ensureIndex_def Let_def)

lemma links_append_one:
  "links (evs @ [b]) \<longleftrightarrow> links evs \<and> (evs \<noteq> [] \<longrightarrow> prev_hash b = Some (or_null (event_hash (last evs))))"
proof (cases evs rule: rev_cases)
  case (snoc xs x)
  then show ?thesis using links_snoc [of xs x b] by simp
qed simp

lemma log_inv_append:
  assumes inv: "log_inv e fs p evs" and ok: "event_schema e event \<noteq> None" "plain_json event"
  shows "log_inv e (append_line io p (log_line (chained e (tip evs) event)) fs) p
           (evs @ [chained e (tip evs) event])"
proof -
  let ?c = "chained e (tip evs) event"
  note c = chained_event [OF ok, where l = "tip evs"]
  have "prev_hash ?c = Some (or_null (event_hash (last evs)))" if "evs \<noteq> []"
  proof -
    have l: "logged e (last evs)" using that inv by (simp add: log_inv_def list_all_iff)
    show ?thesis
      using that c(4) logged_tip [OF l] logged_hash [OF l] by (simp add: tip_def or_null_def)
  qed
  moreover have "logged e ?c" using c(1-3) by (simp add: logged_def)
  ultimately show ?thesis
    using inv by (auto simp: log_inv_def append_line_def links_append_one split: option.split)
qed

section \<open>Rotation\<close>

lemma rotated_name_differs: "rotated_name p i \<noteq> p"
proof
  assume eq: "rotated_name p i = p"
  have "length (fst (split_ext p)) + length (snd (split_ext p)) \<ge> length p"
    by (simp add: split_ext_def Let_def) arith
  moreover have "length (rotated_name p i) = length (fst (split_ext p)) + length (snd (split_ext p))
      + length (digits_of i) + 1"
    by (simp add: rotated_name_def)
  ultimately show False unfolding eq by simp
qed

lemma fold_untouched: "(\<And>i fs. f i fs p = fs p) \<Longrightarrow> fold f is fs p = fs p"
  by (induction "is" arbitrary: fs) simp_all

text \<open>A rotation moves the file away, or leaves it where the renaming fails.\<close>

lemma rotated:
  assumes "rotateFiles io s fs = (s', fs')"
  shows "s' = s\<lparr>js_dedup := None, js_last := None, js_mtime := None, js_errors := 0\<rparr>"
    and "fs' (js_path s) = None \<or> fs' (js_path s) = fs (js_path s)"
proof -
  let ?p = "js_path s"
  define fs1 where "fs1 = fold (\<lambda>i. unlink_file io (rotated_name ?p i)) [js_max_files s..<js_max_files s + 10] fs"
  define fs2 where "fs2 = fold (\<lambda>i. rename_file io (rotated_name ?p i) (rotated_name ?p (i + 1)))
    (rev [1..<js_max_files s]) fs1"
  have r: "s' = s\<lparr>js_dedup := None, js_last := None, js_mtime := None, js_errors := 0\<rparr>"
    "fs' = rename_file io ?p (rotated_name ?p 1) fs2"
    using assms by (simp_all add: rotateFiles_def Let_def fs1_def fs2_def)
  show "s' = s\<lparr>js_dedup := None, js_last := None, js_mtime := None, js_errors := 0\<rparr>" by (rule r(1))
  have names: "?p \<noteq> rotated_name ?p i" for i using rotated_name_differs [of ?p i] by simp
  have "fs1 ?p = fs ?p"
    unfolding fs1_def by (rule fold_untouched) (simp add: unlink_file_def names)
  moreover have "fs2 ?p = fs1 ?p"
    unfolding fs2_def by (rule fold_untouched) (simp add: rename_file_def names split: option.split)
  ultimately show "fs' ?p = None \<or> fs' ?p = fs ?p"
    unfolding r(2) by (auto simp: rename_file_def names split: option.split)
qed

section \<open>One append\<close>

text \<open>
  A store that has seen the log without a file knows no events, so its cache is right again when a
  rotation has moved the file away.
\<close>

definition absent_ok :: "jsonl_store \<Rightarrow> bool" where
  "absent_ok s \<longleftrightarrow> (js_dedup s \<noteq> None \<and> js_mtime s = None \<longrightarrow> right s [])"

definition store_ok :: "string \<Rightarrow> jsonl_store \<Rightarrow> log_files \<Rightarrow> json list \<Rightarrow> bool" where
  "store_ok p s fs evs \<longleftrightarrow> js_path s = p \<and> cache_ok s fs evs \<and> absent_ok s"

text \<open>What an append leaves at the path: the file as it was, a file it has written, or none.\<close>

definition file_after :: "io_env \<Rightarrow> string \<Rightarrow> log_files \<Rightarrow> json list \<Rightarrow> log_files \<Rightarrow> json list \<Rightarrow> bool" where
  "file_after io p fs evs fs' evs' \<longleftrightarrow>
    fs' p = fs p \<and> evs' = evs \<or> (\<exists>content. fs' p = Some (content, io_mtime io)) \<or> fs' p = None \<and> evs' = []"

definition keys_once :: "json list \<Rightarrow> bool" where
  "keys_once evs \<longleftrightarrow> distinct (List.map_filter key_of evs)"

lemma log_inv_cong: "fs' p = fs p \<Longrightarrow> log_inv e fs' p evs = log_inv e fs p evs"
  by (simp add: log_inv_def)

lemma keys_append:
  assumes "key_of c = key_of event"
  shows "logged_keys (evs @ [c]) = (case key_of event of None \<Rightarrow> {} | Some k \<Rightarrow> {k}) \<union> logged_keys evs"
    and "keys_once evs \<Longrightarrow> \<not> (\<exists>k. key_of event = Some k \<and> k \<in> logged_keys evs) \<Longrightarrow> keys_once (evs @ [c])"
    and "keys_once [c]"
  using assms by (auto simp: keys_once_def logged_keys_def List.map_filter_def split: option.split)

text \<open>
  The line is written to a file: behind the events that are there, or, where a rotation has moved
  them away, as the first one, which still names the hash of the last event before it.
\<close>

lemma written:
  assumes inv: "log_inv e fs p evs" "keys_once evs" and ok: "event_schema e event \<noteq> None" "plain_json event"
    and new: "\<not> (\<exists>k. key_of event = Some k \<and> k \<in> logged_keys evs)"
    and at: "fs1 p = None \<or> fs1 p = fs p"
  obtains evs' where "log_inv e (append_line io p (log_line (chained e (tip evs) event)) fs1) p evs'"
    "keys_once evs'" "fs1 p = fs p \<longrightarrow> evs' = evs @ [chained e (tip evs) event]"
proof (cases "fs1 p = fs p")
  case True
  have "log_inv e fs1 p evs" using inv(1) True by (simp add: log_inv_def)
  from log_inv_append [OF this ok] keys_append(2) [OF chained_event(5) [OF ok] inv(2) new] True
  show ?thesis by (intro that [of "evs @ [chained e (tip evs) event]"]) simp_all
next
  case False
  with at have "fs1 p = None" by simp
  moreover have "logged e (chained e (tip evs) event)"
    using chained_event [OF ok, where l = "tip evs"] by (simp add: logged_def)
  ultimately have "log_inv e (append_line io p (log_line (chained e (tip evs) event)) fs1) p
      [chained e (tip evs) event]"
    by (simp add: log_inv_def append_line_def)
  with keys_append(3) [OF chained_event(5) [OF ok]] False
  show ?thesis by (intro that [of "[chained e (tip evs) event]"]) simp_all
qed

text \<open>One append, by one store, with or without a rotation, successful or not.\<close>

lemma append_once:
  assumes env: "reads_own_lines e" and inv: "log_inv e fs p evs" "keys_once evs" and s: "store_ok p s fs evs"
    and plain: "plain_json event" and run: "append_event_log e io event s fs = (s', fs', r)"
  obtains evs' where "log_inv e fs' p evs'" "keys_once evs'" "store_ok p s' fs' evs'"
    "file_after io p fs evs fs' evs'"
proof (cases "event_schema e event = None")
  case True
  with run have "s' = s" "fs' = fs" by (auto simp: append_event_log_def)
  with inv s show thesis by (intro that [of evs]) (simp_all add: file_after_def)
next
  case schema: False
  define t where "t = ensureIndex e s fs"
  have sp: "js_path s = p" "cache_ok s fs evs" "absent_ok s" using s by (simp_all add: store_ok_def)
  note t = ensure_right [OF env _ sp(2), unfolded sp(1), OF inv(1), folded t_def]
  have path: "js_path t = p" using t(2) sp(1) by simp
  obtain ks where ks: "js_dedup t = Some ks" "set ks = logged_keys evs"
    and err: "js_errors t = 0" and last_h: "js_last t = tip evs"
    using t(1) by (auto simp: right_def)
  have mt: "js_mtime t = map_option snd (fs p)" using t(4) sp(1) by (simp add: fileMtimeMs_def)
  have tok: "store_ok p t fs evs"
  proof -
    have "evs = []" if "js_mtime t = None" using that inv(1) mt by (simp add: log_inv_def)
    with t(1) path show ?thesis by (auto simp: store_ok_def cache_ok_def absent_ok_def)
  qed
  let ?c = "chained e (tip evs) event"
  have logged: "logged e ?c" "key_of ?c = key_of event"
    using chained_event [OF schema plain, where l = "tip evs"] by (simp_all add: logged_def)
  have unrotated: "js_dedup x = None \<Longrightarrow> js_path x = p \<Longrightarrow> store_ok p x g es" for x g es
    by (simp add: store_ok_def cache_ok_def absent_ok_def)
  show thesis
  proof (cases "case key_of event of None \<Rightarrow> False | Some k \<Rightarrow> k \<in> set ks")
    case True
    then have "s' = t" "fs' = fs"
      using run schema err ks
      by (auto simp: append_event_log_def append_locked_def t_def [symmetric] Let_def split: option.splits)
    with inv tok show thesis by (intro that [of evs]) (simp_all add: file_after_def)
  next
    case fresh_key: False
    then have new: "\<not> (\<exists>k. key_of event = Some k \<and> k \<in> logged_keys evs)"
      by (auto simp: ks(2) [symmetric])
    obtain u fs1 where rot: "maybe_rotate io (log_line ?c) t fs = (u, fs1)"
      by (metis surj_pair)
    have u: "u = t \<and> fs1 = fs
        \<or> u = t\<lparr>js_dedup := None, js_last := None, js_mtime := None, js_errors := 0\<rparr>
          \<and> (fs1 p = None \<or> fs1 p = fs p)"
      using rot rotated [of io t fs] path by (auto simp: maybe_rotate_def split: option.splits if_splits)
    then have up: "js_path u = p" "fs1 p = None \<or> fs1 p = fs p" using path by auto
    have body: "append_event_log e io event s fs =
      (if \<not> io_append io then (u, fs1, Inl (Thrown ''append failed''))
       else (let fs2 = append_line io p (log_line ?c) fs1;
                 n = note_append fs2 event (computeEventHash (hash_env_of e) ?c) u
             in (fst n, fs2, snd n)))"
      using schema err ks(1) fresh_key last_h rot up(1) logged_tip [OF logged(1)]
      by (auto simp: append_event_log_def append_locked_def t_def [symmetric] Let_def path split: option.splits)
    show thesis
    proof (cases "io_append io")
      case False
      then have out: "s' = u" "fs' = fs1" using run body by auto
      from u show thesis
      proof
        assume "u = t \<and> fs1 = fs"
        with out inv tok show thesis by (intro that [of evs]) (simp_all add: file_after_def)
      next
        assume u': "u = t\<lparr>js_dedup := None, js_last := None, js_mtime := None, js_errors := 0\<rparr>
          \<and> (fs1 p = None \<or> fs1 p = fs p)"
        define es where "es = (if fs1 p = fs p then evs else [])"
        have "log_inv e fs1 p es" "keys_once es"
          using inv u' by (auto simp: es_def log_inv_def keys_once_def List.map_filter_def)
        with out u' path unrotated [of u] show thesis
          by (intro that [of es]) (auto simp: file_after_def es_def)
      qed
    next
      case True
      define fs2 where "fs2 = append_line io p (log_line ?c) fs1"
      have out: "s' = fst (note_append fs2 event (computeEventHash (hash_env_of e) ?c) u)" "fs' = fs2"
        using run body True by (auto simp: fs2_def [symmetric] Let_def)
      obtain evs' where evs': "log_inv e fs2 p evs'" "keys_once evs'"
        "fs1 p = fs p \<longrightarrow> evs' = evs @ [?c]"
        unfolding fs2_def by (rule written [where fs = fs and ?fs1.0 = fs1 and p = p and io = io, OF inv schema plain new up(2)])
      have at: "\<exists>content. fs2 p = Some (content, io_mtime io)" by (simp add: fs2_def append_line_def)
      have "store_ok p s' fs2 evs'"
      proof (cases "u = t \<and> fs1 = fs")
        case True
        have m: "fileMtimeMs x fs2 = Some (io_mtime io)" if "js_path x = p" for x
          using at that by (auto simp: fileMtimeMs_def)
        have "right s' (evs @ [?c])"
          using True err ks keys_append(1) [OF logged(2), of evs] logged_tip [OF logged(1)]
          by (auto simp: out(1) note_append_def Let_def right_def tip_def split: option.split)
        moreover have "js_path s' = p" "js_mtime s' = Some (io_mtime io)"
          using True path ks(1) m by (auto simp: out(1) note_append_def Let_def split: option.split)
        ultimately show ?thesis
          using evs'(3) True by (simp add: store_ok_def cache_ok_def absent_ok_def)
      next
        case False
        with u path have "js_dedup s' = None" "js_path s' = p"
          by (auto simp: out(1) note_append_def Let_def split: option.split)
        then show ?thesis by (rule unrotated)
      qed
      with evs' out(2) at show thesis by (intro that [of evs']) (simp_all add: file_after_def)
    qed
  qed
qed

section \<open>Several stores on one file\<close>

text \<open>
  The processes that share the file, each with its store object and its limits. A step opens a new
  store or runs one append, whole, since the lock excludes the others; the clock has moved on since
  the last write that any of the caches has seen.
\<close>

record cluster =
  cl_files :: log_files
  cl_stores :: "nat \<Rightarrow> jsonl_store"

definition clock_ahead :: "io_env \<Rightarrow> cluster \<Rightarrow> bool" where
  "clock_ahead io c \<longleftrightarrow> (\<forall>q m. js_mtime (cl_stores c q) = Some m \<longrightarrow> m < io_mtime io)"

inductive log_step :: "log_env \<Rightarrow> string \<Rightarrow> cluster \<Rightarrow> cluster \<Rightarrow> bool" for e p where
  open_store: "log_step e p c (c\<lparr>cl_stores := (cl_stores c)(q := new_store p b n)\<rparr>)"
| append: "plain_json event \<Longrightarrow> clock_ahead io c
    \<Longrightarrow> append_event_log e io event (cl_stores c q) (cl_files c) = (s', fs', r)
    \<Longrightarrow> log_step e p c \<lparr>cl_files = fs', cl_stores = (cl_stores c)(q := s')\<rparr>"

inductive log_run :: "log_env \<Rightarrow> string \<Rightarrow> cluster \<Rightarrow> cluster \<Rightarrow> bool" for e p where
  run_start: "log_run e p c c"
| run_step: "log_run e p c d \<Longrightarrow> log_step e p d d' \<Longrightarrow> log_run e p c d'"

lemma log_step_cases:
  assumes "log_step e p c d"
  obtains (opened) q b n where "d = c\<lparr>cl_stores := (cl_stores c)(q := new_store p b n)\<rparr>"
  | (appended) event io q s' fs' r where "plain_json event" "clock_ahead io c"
      "append_event_log e io event (cl_stores c q) (cl_files c) = (s', fs', r)"
      "d = \<lparr>cl_files = fs', cl_stores = (cl_stores c)(q := s')\<rparr>"
  using assms by cases blast+

text \<open>Before anything is logged.\<close>

definition fresh :: "string \<Rightarrow> cluster \<Rightarrow> bool" where
  "fresh p c \<longleftrightarrow> cl_files c p = None \<and> (\<forall>q. \<exists>b n. cl_stores c q = new_store p b n)"

definition cluster_inv :: "log_env \<Rightarrow> string \<Rightarrow> cluster \<Rightarrow> json list \<Rightarrow> bool" where
  "cluster_inv e p c evs \<longleftrightarrow> log_inv e (cl_files c) p evs \<and> keys_once evs
     \<and> (\<forall>q. store_ok p (cl_stores c q) (cl_files c) evs)"

lemma new_store_ok [simp]: "store_ok p (new_store p b n) fs evs"
  by (simp add: new_store_def store_ok_def cache_ok_def absent_ok_def)

lemma fresh_inv: "fresh p c \<Longrightarrow> cluster_inv e p c []"
  unfolding fresh_def cluster_inv_def log_inv_def keys_once_def
  by (simp add: List.map_filter_def) (metis new_store_ok)

text \<open>The other stores after an append: what changed shows in the modification time.\<close>

lemma store_ok_later:
  assumes "store_ok p s fs evs" "file_after io p fs evs fs' evs'"
    and "\<And>m. js_mtime s = Some m \<Longrightarrow> m < io_mtime io"
  shows "store_ok p s fs' evs'"
  using assms by (auto simp: store_ok_def file_after_def cache_ok_def absent_ok_def fileMtimeMs_def)

lemma log_step_inv:
  assumes env: "reads_own_lines e" and "log_step e p c d" "cluster_inv e p c evs"
  obtains evs' where "cluster_inv e p d evs'"
  using assms(2)
proof (cases rule: log_step_cases)
  case (opened q b n)
  with assms(3) have "cluster_inv e p d evs" by (simp add: cluster_inv_def)
  then show thesis by (rule that)
next
  case (appended event io q s' fs' r)
  have inv: "log_inv e (cl_files c) p evs" "keys_once evs" "store_ok p (cl_stores c i) (cl_files c) evs" for i
    using assms(3) by (simp_all add: cluster_inv_def)
  obtain evs' where evs': "log_inv e fs' p evs'" "keys_once evs'" "store_ok p s' fs' evs'"
    "file_after io p (cl_files c) evs fs' evs'"
    by (rule append_once [OF env inv appended(1,3)])
  have "store_ok p (cl_stores c i) fs' evs'" for i
    using store_ok_later [OF inv(3) evs'(4)] appended(2) by (auto simp: clock_ahead_def)
  with evs' appended(4) have "cluster_inv e p d evs'" by (simp add: cluster_inv_def)
  then show thesis by (rule that)
qed

lemma log_run_inv:
  assumes "reads_own_lines e" "log_run e p c d" "cluster_inv e p c evs"
  shows "\<exists>evs'. cluster_inv e p d evs'"
  using assms(2,3)
proof (induction rule: log_run.induct)
  case (run_step c d d')
  then show ?case using log_step_inv [OF assms(1) run_step.hyps(2)] by metis
qed blast

text \<open>A logged chain passes every mode of verification.\<close>

lemma logged_chained: "logged e ev \<Longrightarrow> is_chained ev"
  using logged_hash [of e ev] by (simp add: computeEventHash_def)

lemma rest_ok_logged:
  "list_all (logged e) evs \<Longrightarrow> rest_ok (hash_env_of e) strict False saw l evs"
proof (induction evs arbitrary: saw l)
  case (Cons ev evs)
  then show ?case
    using logged_chained [of e ev] by (simp add: logged_def hash_env_of_def)
qed simp

lemma log_inv_verifies:
  assumes "log_inv e fs p evs"
  shows "cv_valid (verifyChain (hash_env_of e) opts evs)"
proof -
  have all: "list_all (logged e) evs" "links evs" using assms by (simp_all add: log_inv_def)
  then have "filter is_chained evs = evs"
    by (auto simp: filter_id_conv list_all_iff logged_chained)
  moreover have "evs = [] \<or> (\<exists>ev \<in> set evs. is_chained ev)"
    using all(1) logged_chained by (cases evs) auto
  ultimately show ?thesis
    using all rest_ok_logged [OF all(1)]
    by (simp add: verifyChain_valid_iff log_ok_links) (simp add: log_ok_def)
qed

end
