(* ===== verification/JsonlLock.thy ===== *)
theory JsonlLock
  imports Prelude
begin

text \<open>
  The advisory lock of the log store, \<open>withLock\<close> and \<open>isLockStale\<close> of
  \<^verbatim>\<open>packages/core/src/store/jsonl.ts\<close>. The lock is a file that only one process can create. What
  the other processes do to it between two of our calls is an argument, indexed by the number of
  calls so far, as is the clock. Writing the metadata follows the creation at once.
\<close>

section \<open>State\<close>

record lock_meta =
  lm_pid :: nat
  lm_hostname :: string
  lm_token :: string
  lm_created_at_ms :: int

text \<open>The file: its metadata, where they can be read, and its modification time.\<close>

record lock_file =
  lk_meta :: "lock_meta option"
  lk_mtime :: int

record lock_env =
  lv_hostname :: string
  lv_alive :: "nat \<Rightarrow> bool"
  lv_clock :: "nat \<Rightarrow> int"
  lv_others :: "nat \<Rightarrow> lock_file option \<Rightarrow> lock_file option"
  lv_open_error :: "nat \<Rightarrow> js_error option"
  lv_meta_ok :: bool

definition LOCK_MAX_RETRIES :: nat where
  "LOCK_MAX_RETRIES = 50"

definition LOCK_STALE_THRESHOLD_MS :: int where
  "LOCK_STALE_THRESHOLD_MS = 5000"

definition LOCK_FUTURE_SKEW_MS :: int where
  "LOCK_FUTURE_SKEW_MS = 60000"

definition FINAL_RECLAIM_ATTEMPTS :: nat where
  "FINAL_RECLAIM_ATTEMPTS = 3"

section \<open>Staleness\<close>

definition isLockStale :: "lock_env \<Rightarrow> int \<Rightarrow> int \<Rightarrow> lock_file option \<Rightarrow> bool" where
  "isLockStale e now thresholdMs f \<longleftrightarrow>
    (case f of
       None \<Rightarrow> False
     | Some file \<Rightarrow>
         (case lk_meta file of
            None \<Rightarrow> now - lk_mtime file > thresholdMs
          | Some m \<Rightarrow>
              if lm_hostname m = lv_hostname e then \<not> lv_alive e (lm_pid m)
              else if lm_created_at_ms m > now + LOCK_FUTURE_SKEW_MS
              then now - lk_mtime file > thresholdMs
              else now - lm_created_at_ms m > thresholdMs))"

section \<open>Acquiring\<close>

text \<open>
  The retry loop: \<open>n\<close> attempts left, \<open>i\<close> calls made, the lock as we last left or saw it. The others
  may act before the creation, before the staleness check and before the removal.
\<close>

fun acquire_loop ::
  "lock_env \<Rightarrow> nat \<Rightarrow> nat \<Rightarrow> lock_file option \<Rightarrow> (bool \<times> nat \<times> lock_file option) result" where
  "acquire_loop e 0 i l = Inr (False, i, l)"
| "acquire_loop e (Suc n) i l =
     (case lv_open_error e i of
        Some x \<Rightarrow> Inl x
      | None \<Rightarrow>
          (case lv_others e i l of
             None \<Rightarrow> Inr (True, i + 1, Some \<lparr>lk_meta = None, lk_mtime = lv_clock e i\<rparr>)
           | Some f \<Rightarrow>
               (let l1 = lv_others e (i + 1) (Some f) in
                if isLockStale e (lv_clock e (i + 1)) LOCK_STALE_THRESHOLD_MS l1
                then (let l2 = lv_others e (i + 2) l1 in acquire_loop e n (i + 3) None)
                else acquire_loop e n (i + 2) l1)))"

text \<open>The bounded retries of the final reclaim: remove, then create.\<close>

fun reclaim_loop ::
  "lock_env \<Rightarrow> nat \<Rightarrow> nat \<Rightarrow> (bool \<times> nat \<times> lock_file option) result" where
  "reclaim_loop e 0 i = Inr (False, i, None)"
| "reclaim_loop e (Suc n) i =
     (case lv_open_error e i of
        Some x \<Rightarrow> Inl x
      | None \<Rightarrow>
          (case lv_others e i None of
             None \<Rightarrow> Inr (True, i + 1, Some \<lparr>lk_meta = None, lk_mtime = lv_clock e i\<rparr>)
           | Some f \<Rightarrow> reclaim_loop e n (i + 1)))"

definition acquire_lock :: "lock_env \<Rightarrow> lock_file option \<Rightarrow> (nat \<times> lock_file option) result" where
  "acquire_lock e l =
    bind_result (acquire_loop e LOCK_MAX_RETRIES 0 l) (\<lambda>(ok, i, l1).
      if ok then Inr (i, l1)
      else if isLockStale e (lv_clock e i) LOCK_STALE_THRESHOLD_MS (lv_others e i l1) then
        bind_result (reclaim_loop e FINAL_RECLAIM_ATTEMPTS (i + 1)) (\<lambda>(ok2, j, l2).
          if ok2 then Inr (j, l2)
          else Inl (Thrown ''Failed to acquire lock after final reclaim''))
      else Inl (Thrown ''Failed to acquire lock (lock held by active process)''))"

section \<open>The critical section\<close>

text \<open>
  Only the holder's own lock is removed at the end. Where no lock is acquired, the file is the
  matter of the others, and is given back as it was at the start.
\<close>

definition release_lock :: "nat \<Rightarrow> string \<Rightarrow> lock_file option \<Rightarrow> lock_file option" where
  "release_lock pid token l =
    (case l of
       None \<Rightarrow> None
     | Some f \<Rightarrow>
         (case lk_meta f of
            None \<Rightarrow> Some f
          | Some m \<Rightarrow> if lm_pid m = pid \<and> lm_token m = token then None else Some f))"

definition own_meta :: "lock_env \<Rightarrow> nat \<Rightarrow> string \<Rightarrow> nat \<Rightarrow> lock_meta" where
  "own_meta e pid token i =
    \<lparr>lm_pid = pid, lm_hostname = lv_hostname e, lm_token = token, lm_created_at_ms = lv_clock e i\<rparr>"

definition withLock ::
  "lock_env \<Rightarrow> nat \<Rightarrow> string \<Rightarrow> ('w \<Rightarrow> 'w \<times> 'a result) \<Rightarrow> lock_file option \<Rightarrow> 'w
   \<Rightarrow> lock_file option \<times> 'w \<times> 'a result" where
  "withLock e pid token fn l w =
    (case acquire_lock e l of
       Inl x \<Rightarrow> (l, w, Inl x)
     | Inr (i, l1) \<Rightarrow>
         (let l2 = (if lv_meta_ok e
                    then map_option (\<lambda>f. f\<lparr>lk_meta := Some (own_meta e pid token i)\<rparr>) l1 else l1);
              r = fn w
          in (release_lock pid token (lv_others e i l2), fst r, snd r)))"

section \<open>A holder is respected\<close>

text \<open>
  A lock that is in force: of a live process of this host; or of another host and at most five
  seconds old by the times it states; or without readable metadata and at most five seconds old by
  its modification time; at every reading of the clock that the call makes.
\<close>

definition in_force :: "lock_env \<Rightarrow> lock_file option \<Rightarrow> bool" where
  "in_force e l \<longleftrightarrow> (\<exists>f. l = Some f \<and>
    (case lk_meta f of
       None \<Rightarrow> \<forall>i. lv_clock e i - lk_mtime f \<le> 5000
     | Some m \<Rightarrow>
         if lm_hostname m = lv_hostname e then lv_alive e (lm_pid m)
         else \<forall>i. lm_created_at_ms m \<le> lv_clock e i + 60000 \<and> lv_clock e i - lm_created_at_ms m \<le> 5000))"

lemma in_force_not_stale: "in_force e l \<Longrightarrow> \<not> isLockStale e (lv_clock e i) LOCK_STALE_THRESHOLD_MS l"
  by (auto simp: in_force_def isLockStale_def LOCK_STALE_THRESHOLD_MS_def LOCK_FUTURE_SKEW_MS_def not_less
      split: option.splits if_splits)

lemma acquire_loop_held:
  assumes "\<And>i l. in_force e l \<Longrightarrow> in_force e (lv_others e i l)" "in_force e l"
  shows "(\<exists>x. acquire_loop e n i l = Inl x)
    \<or> (\<exists>j l'. acquire_loop e n i l = Inr (False, j, l') \<and> in_force e l')"
  using assms(2)
proof (induction n arbitrary: i l)
  case (Suc n)
  obtain f where f: "lv_others e i l = Some f"
    using assms(1) [OF Suc.prems, of i] by (auto simp: in_force_def)
  have h: "in_force e (lv_others e (i + 1) (Some f))"
    using assms(1) [OF assms(1) [OF Suc.prems, of i], of "i + 1"] by (simp add: f)
  from Suc.IH [OF h, of "i + 2"] in_force_not_stale [OF h, of "i + 1"] show ?case
    by (simp add: f Let_def split: option.split)
qed simp

lemma acquire_held:
  assumes "\<And>i l. in_force e l \<Longrightarrow> in_force e (lv_others e i l)" "in_force e l"
  shows "\<exists>x. acquire_lock e l = Inl x"
  using acquire_loop_held [OF assms, of LOCK_MAX_RETRIES 0] in_force_not_stale assms(1)
  by (auto simp: acquire_lock_def)

text \<open>Without interference a free lock is taken at once, a dead holder's at the second attempt.\<close>

lemma acquire_free:
  assumes "\<And>i l. lv_others e i l = l" "\<And>i. lv_open_error e i = None"
    and "l = None \<or> isLockStale e (lv_clock e 1) LOCK_STALE_THRESHOLD_MS l"
  shows "\<exists>i t. acquire_lock e l = Inr (i, Some \<lparr>lk_meta = None, lk_mtime = t\<rparr>)"
proof -
  obtain n where n: "LOCK_MAX_RETRIES = Suc (Suc n)"
    by (rule that [of 48]) (simp add: LOCK_MAX_RETRIES_def)
  show ?thesis
    using assms by (cases l) (auto simp: acquire_lock_def n)
qed

section \<open>A lock taken from a live holder\<close>

text \<open>
  Between the check that finds a dead holder's lock and the removal, another process may have
  removed it and created its own: the removal then takes the lock of this live process away, and
  both are inside.
\<close>

definition lock_of :: "nat \<Rightarrow> lock_file" where
  "lock_of pid =
    \<lparr>lk_meta = Some \<lparr>lm_pid = pid, lm_hostname = ''h'', lm_token = ''t'', lm_created_at_ms = 0\<rparr>, lk_mtime = 0\<rparr>"

definition race_env :: lock_env where
  "race_env = \<lparr>lv_hostname = ''h'', lv_alive = (\<lambda>p. p = 1), lv_clock = (\<lambda>i. 0),
     lv_others = (\<lambda>i l. if i = 2 then Some (lock_of 1) else l), lv_open_error = (\<lambda>i. None), lv_meta_ok = True\<rparr>"

lemma stale_race:
  "in_force race_env (lv_others race_env 2 (Some (lock_of 7)))
   \<and> acquire_lock race_env (Some (lock_of 7)) = Inr (4, Some \<lparr>lk_meta = None, lk_mtime = 0\<rparr>)"
proof -
  obtain n where n: "LOCK_MAX_RETRIES = Suc (Suc n)"
    by (rule that [of 48]) (simp add: LOCK_MAX_RETRIES_def)
  show ?thesis
    by (simp add: in_force_def race_env_def lock_of_def acquire_lock_def n isLockStale_def)
qed

text \<open>
  The metadata is written as well as may be: without it a lock is reclaimed by its age, although its
  holder is alive and still inside.
\<close>

lemma unwritten_metadata_reclaimed:
  "acquire_lock (race_env\<lparr>lv_others := \<lambda>i l. l, lv_clock := \<lambda>i. 5001\<rparr>) (Some \<lparr>lk_meta = None, lk_mtime = 0\<rparr>)
    = Inr (4, Some \<lparr>lk_meta = None, lk_mtime = 5001\<rparr>)"
proof -
  obtain n where n: "LOCK_MAX_RETRIES = Suc (Suc n)"
    by (rule that [of 48]) (simp add: LOCK_MAX_RETRIES_def)
  show ?thesis
    by (simp add: race_env_def acquire_lock_def n isLockStale_def LOCK_STALE_THRESHOLD_MS_def)
qed

end
