(* ===== verification/SealKeyring.thy ===== *)
theory SealKeyring
  imports Attestation
begin

text \<open>
  Seals of a chain tip and the keyring, \<^verbatim>\<open>packages/core/src/hash/seal.ts\<close>. A key is its bytes;
  random bytes are an argument; the keyring is its directory. File modes are not modelled.
\<close>

section \<open>The seal payload\<close>

definition is_hex :: "char \<Rightarrow> bool" where
  "is_hex c \<longleftrightarrow> is_digit c \<or> in_range CHR ''a'' CHR ''f'' c"

text \<open>\<open>/^sha256:[0-9a-f]{64}$/\<close>, \<open>/^[0-9a-f]{16,64}$/\<close>.\<close>

definition TIP_HASH_RE :: "string \<Rightarrow> bool" where
  "TIP_HASH_RE s \<longleftrightarrow> starts_with s ''sha256:'' \<and> length (drop 7 s) = 64 \<and> list_all is_hex (drop 7 s)"

definition KEY_ID_RE :: "string \<Rightarrow> bool" where
  "KEY_ID_RE s \<longleftrightarrow> 16 \<le> length s \<and> length s \<le> 64 \<and> list_all is_hex s"

text \<open>A shape: \<open>d\<close> stands for a digit, every other character for itself.\<close>

definition fits :: "string \<Rightarrow> string \<Rightarrow> bool" where
  "fits shape s \<longleftrightarrow> list_all2 (\<lambda>p c. if p = CHR ''d'' then is_digit c else c = p) shape s"

definition SEALED_AT_RE :: "string \<Rightarrow> bool" where
  "SEALED_AT_RE s \<longleftrightarrow>
    (let r = drop 19 s;
         frac = takeWhile is_digit (tl r);
         z = (if starts_with r ''.'' \<and> frac \<noteq> [] \<and> length frac \<le> 9
              then drop (Suc (length frac)) r else r)
     in fits ''dddd-dd-ddTdd:dd:dd'' (take 19 s)
        \<and> (z = ''Z'' \<or> fits ''+dd:dd'' z \<or> fits ''-dd:dd'' z))"

definition computeSealPayload :: "string \<Rightarrow> int \<Rightarrow> string \<Rightarrow> string result" where
  "computeSealPayload tipHash chainedEvents sealedAt =
    (if \<not> TIP_HASH_RE tipHash then Inl (Thrown ''computeSealPayload: tipHash must match'')
     else if chainedEvents < 0
     then Inl (Thrown ''computeSealPayload: chainedEvents must be a non-negative integer'')
     else if \<not> SEALED_AT_RE sealedAt
     then Inl (Thrown ''computeSealPayload: sealedAt must be RFC 3339'')
     else Inr (''patchwork-seal:v1:'' @ tipHash @ '':'' @ print_int chainedEvents @ '':'' @ sealedAt))"

definition signSeal :: "sign_env \<Rightarrow> string \<Rightarrow> string \<Rightarrow> string" where
  "signSeal e payload key = ''hmac-sha256:'' @ sg_hmac e key payload"

definition verifySeal :: "sign_env \<Rightarrow> string \<Rightarrow> string \<Rightarrow> string \<Rightarrow> bool" where
  "verifySeal e payload signature key \<longleftrightarrow>
    (let expected = signSeal e payload key in
     if length expected \<noteq> length signature then False else expected = signature)"

section \<open>The keyring\<close>

type_synonym files = "(string \<times> string) list"

text \<open>A single key file, made when it is missing.\<close>

definition ensureSealKey :: "string \<Rightarrow> string option \<Rightarrow> string option \<times> string" where
  "ensureSealKey random file =
    (case file of None \<Rightarrow> (Some random, random) | Some key \<Rightarrow> (Some key, key))"

definition readSealKey :: "string \<Rightarrow> string option \<Rightarrow> string result" where
  "readSealKey keyPath file =
    (case file of None \<Rightarrow> Inl (Thrown (''Seal key not found at '' @ keyPath)) | Some key \<Rightarrow> Inr key)"

definition deriveSealKeyId :: "sign_env \<Rightarrow> string \<Rightarrow> string" where
  "deriveSealKeyId e key = take 16 (sg_sha e key)"

definition key_file :: "string \<Rightarrow> string" where
  "key_file keyId = keyId @ ''.key''"

definition generateAndActivateKey ::
  "sign_env \<Rightarrow> string \<Rightarrow> files \<Rightarrow> files \<times> (string \<times> string)" where
  "generateAndActivateKey e random dir =
    (let keyId = deriveSealKeyId e random in
     (obj_set ''ACTIVE'' (keyId @ [newline]) (obj_set (key_file keyId) random dir),
      (keyId, random)))"

definition ensureKeyring ::
  "sign_env \<Rightarrow> string \<Rightarrow> files \<Rightarrow> files \<times> (string \<times> string) result" where
  "ensureKeyring e random dir =
    (case map_of dir ''ACTIVE'' of
       Some active \<Rightarrow>
         (let keyId = trim active in
          if \<not> KEY_ID_RE keyId then (dir, Inl (Thrown ''Active key id is malformed''))
          else (case map_of dir (key_file keyId) of
                  None \<Rightarrow> (dir, Inl (Thrown (''Active key '' @ keyId @ '' not found in keyring'')))
                | Some key \<Rightarrow> (dir, Inr (keyId, key))))
     | None \<Rightarrow>
         (let r = generateAndActivateKey e random dir in (fst r, Inr (snd r))))"

definition loadKeyById :: "files \<Rightarrow> string \<Rightarrow> string result" where
  "loadKeyById dir keyId =
    (if \<not> KEY_ID_RE keyId then Inl (Thrown ''loadKeyById: keyId must match'')
     else (case map_of dir (key_file keyId) of
             None \<Rightarrow> Inl (Thrown (''Key '' @ keyId @ '' not found in keyring''))
           | Some key \<Rightarrow> Inr key))"

definition rotateKey :: "sign_env \<Rightarrow> string \<Rightarrow> files \<Rightarrow> files \<times> (string \<times> string)" where
  "rotateKey e random dir = generateAndActivateKey e random dir"

section \<open>Facts\<close>

lemma verifySeal_iff: "verifySeal e p s k \<longleftrightarrow> s = signSeal e p k"
  by (auto simp: verifySeal_def Let_def)

lemma print_nat_inject:
  assumes "print_int i @ CHR '':'' # a = print_int j @ CHR '':'' # b"
  shows "i = j \<and> a = b"
proof -
  have e: "number_end (CHR '':'' # s)" for s
    by (simp add: number_end_def is_digit_def in_range_def)
  show ?thesis
    using read_print_int [OF e, of i a] read_print_int [OF e, of j b]
    unfolding assms by (simp only: prod.inject list.inject simp_thms)
qed

text \<open>The payload is unambiguous.\<close>

lemma seal_payload_inject:
  assumes "computeSealPayload t n s = Inr p" "computeSealPayload t' n' s' = Inr p"
  shows "t = t' \<and> n = n' \<and> s = s'"
proof -
  have len: "length t = 71" if "TIP_HASH_RE t" for t
    using that by (auto simp: TIP_HASH_RE_def starts_with_iff)
  have "t @ CHR '':'' # print_int n @ CHR '':'' # s = t' @ CHR '':'' # print_int n' @ CHR '':'' # s'"
    and l: "length t = length t'"
    using assms len [of t] len [of t'] by (auto simp: computeSealPayload_def split: if_splits)
  then have "t = t'" and r: "print_int n @ CHR '':'' # s = print_int n' @ CHR '':'' # s'"
    unfolding append_eq_append_conv [OF disjI1 [OF l]] by simp_all
  with print_nat_inject [OF r] show ?thesis by blast
qed

text \<open>
  A keyring: the active key, if any, is stored, and every stored key has the id of its content.
\<close>

definition hex_digest :: "sign_env \<Rightarrow> bool" where
  "hex_digest e \<longleftrightarrow> (\<forall>k. 16 \<le> length (sg_sha e k) \<and> list_all is_hex (sg_sha e k))"

definition keyring_ok :: "sign_env \<Rightarrow> files \<Rightarrow> bool" where
  "keyring_ok e dir \<longleftrightarrow>
    (\<forall>i key. map_of dir (key_file i) = Some key \<longrightarrow> i = deriveSealKeyId e key)
    \<and> (\<forall>a. map_of dir ''ACTIVE'' = Some a
         \<longrightarrow> KEY_ID_RE (trim a) \<and> map_of dir (key_file (trim a)) \<noteq> None)"

lemma key_id_hex: "hex_digest e \<Longrightarrow> KEY_ID_RE (deriveSealKeyId e k)"
  unfolding hex_digest_def deriveSealKeyId_def KEY_ID_RE_def
  by (auto simp: list_all_iff dest: in_set_takeD)

lemma hex_not_space: "is_hex c \<Longrightarrow> \<not> is_space c"
  by (auto simp: is_hex_def is_digit_def is_space_def in_range_def)

lemma trim_line:
  assumes "list_all is_hex s" "s \<noteq> []"
  shows "trim (s @ [newline]) = s"
proof -
  have h: "\<not> is_space (hd s)" "\<not> is_space (last s)"
    using assms hex_not_space by (auto simp: list_all_iff)
  have "is_space newline" by (simp add: is_space_def in_range_def)
  then have "dropWhile is_space (rev (s @ [newline])) = rev s"
    using h(2) by (simp add: dropWhile_eq_self_iff hd_rev)
  moreover have "dropWhile is_space (s @ [newline]) = s @ [newline]"
    using h(1) assms(2) by (simp add: dropWhile_eq_self_iff)
  ultimately show ?thesis by (simp add: trim_def)
qed

lemma key_file_inject [simp]: "key_file a = key_file b \<longleftrightarrow> a = b"
  by (simp add: key_file_def)

lemma key_file_ACTIVE [simp]: "key_file a \<noteq> ''ACTIVE''" "''ACTIVE'' \<noteq> key_file a"
  by (auto simp: key_file_def dest!: arg_cong [where f = last])

lemma generate_lookup:
  assumes "generateAndActivateKey e k dir = (dir', (i, key))"
  shows "i = deriveSealKeyId e k" "key = k"
    and "map_of dir' = (map_of dir)(key_file i \<mapsto> k, ''ACTIVE'' \<mapsto> i @ [newline])"
  using assms by (auto simp: generateAndActivateKey_def Let_def)

lemma active_trim: "hex_digest e \<Longrightarrow> trim (deriveSealKeyId e k @ [newline]) = deriveSealKeyId e k"
  using key_id_hex [of e k] by (intro trim_line) (auto simp: KEY_ID_RE_def)

lemma generate_keeps_ok:
  assumes "hex_digest e" "keyring_ok e dir" "generateAndActivateKey e k dir = (dir', (i, key))"
  shows "keyring_ok e dir'"
  using assms generate_lookup [OF assms(3)] key_id_hex [OF assms(1), of k] active_trim [OF assms(1), of k]
  by (auto simp: keyring_ok_def)

lemma ensure_after_rotate:
  assumes "hex_digest e" "rotateKey e k dir = (dir', (i, key))"
  shows "ensureKeyring e k' dir' = (dir', Inr (i, key))" "i = deriveSealKeyId e k" "key = k"
  using assms(2) generate_lookup [of e k dir dir' i key] key_id_hex [OF assms(1), of k]
    active_trim [OF assms(1), of k]
  by (auto simp: rotateKey_def ensureKeyring_def Let_def)

lemma ensure_loads:
  assumes "hex_digest e" "ensureKeyring e k dir = (dir', Inr (i, key))"
  shows "loadKeyById dir' i = Inr key"
proof (cases "map_of dir ''ACTIVE''")
  case None
  then have "generateAndActivateKey e k dir = (dir', (i, key))"
    using assms(2) by (auto simp: ensureKeyring_def Let_def prod_eq_iff)
  from generate_lookup [OF this] key_id_hex [OF assms(1), of k] show ?thesis
    by (simp add: loadKeyById_def)
next
  case (Some a)
  then show ?thesis
    using assms(2) by (auto simp: ensureKeyring_def loadKeyById_def Let_def split: if_splits option.splits)
qed

text \<open>Rotation keeps every key that was there.\<close>

lemma rotate_keeps_keys:
  assumes "keyring_ok e dir" "rotateKey e k dir = (dir', r)" "loadKeyById dir j = Inr key"
    and "deriveSealKeyId e k = deriveSealKeyId e key \<Longrightarrow> k = key"
  shows "loadKeyById dir' j = Inr key"
proof -
  obtain i y where r: "r = (i, y)" by force
  have "map_of dir (key_file j) = Some key" "KEY_ID_RE j"
    using assms(3) by (auto simp: loadKeyById_def split: if_splits option.splits)
  moreover have "j = deriveSealKeyId e key" using assms(1) calculation by (auto simp: keyring_ok_def)
  ultimately show ?thesis
    using generate_lookup [of e k dir dir' i y] assms(2,4) by (auto simp: rotateKey_def r loadKeyById_def)
qed

end
