(* ===== verification/Intoto.thy ===== *)
theory Intoto
  imports SealKeyring
begin

text \<open>
  Commit attestations and their in-toto form: the attestation of
  \<^verbatim>\<open>packages/core/src/schema/commit-attestation.ts\<close> as a record, and the statement and signed
  envelope of \<^verbatim>\<open>packages/core/src/attestation/intoto.ts\<close>. A string is its bytes, so a buffer and
  its text are one value. \<open>JSON.parse\<close> and the digest are parameters; signing and verifying are
  arguments, as in the code.
\<close>

section \<open>The attestation\<close>

record risk_summary =
  rs_critical :: nat
  rs_high :: nat
  rs_medium :: nat
  rs_low :: nat
  rs_none :: nat
  rs_denials :: nat
  rs_denials_high_risk_since_last_commit :: nat

record commit_attestation =
  ca_generated_at :: string
  ca_tool_version :: string
  ca_commit_sha :: string
  ca_branch :: string
  ca_project_root :: string
  ca_session_id :: string
  ca_session_events_count :: nat
  ca_session_events_since_last_commit :: nat
  ca_chain_tip_hash :: "string option"
  ca_chain_valid :: bool
  ca_chain_chained_events :: int
  ca_risk_summary :: risk_summary
  ca_policy_source :: string
  ca_pass :: bool
  ca_failure_reasons :: "string list"
  ca_payload_hash :: "string option"
  ca_signature :: "string option"
  ca_key_id :: "string option"
  ca_signature_source :: "string option"

definition risk_summary_json :: "risk_summary \<Rightarrow> json" where
  "risk_summary_json r = JObj
    [(''critical'', JNum (int (rs_critical r))), (''high'', JNum (int (rs_high r))),
     (''medium'', JNum (int (rs_medium r))), (''low'', JNum (int (rs_low r))),
     (''none'', JNum (int (rs_none r))), (''denials'', JNum (int (rs_denials r))),
     (''denials_high_risk_since_last_commit'', JNum (int (rs_denials_high_risk_since_last_commit r)))]"

definition nullable_str :: "string option \<Rightarrow> json" where
  "nullable_str v = (case v of None \<Rightarrow> JNull | Some s \<Rightarrow> JStr s)"

text \<open>The claims that the attestation and the predicate share, before and after the branch.\<close>

definition session_claims :: "commit_attestation \<Rightarrow> (string \<times> json) list" where
  "session_claims a =
    [(''project_root'', JStr (ca_project_root a)), (''session_id'', JStr (ca_session_id a)),
     (''session_events_count'', JNum (int (ca_session_events_count a))),
     (''session_events_since_last_commit'', JNum (int (ca_session_events_since_last_commit a))),
     (''chain_tip_hash'', nullable_str (ca_chain_tip_hash a)),
     (''chain_valid'', JBool (ca_chain_valid a)),
     (''chain_chained_events'', JNum (ca_chain_chained_events a)),
     (''risk_summary'', risk_summary_json (ca_risk_summary a)),
     (''policy_source'', JStr (ca_policy_source a)), (''pass'', JBool (ca_pass a)),
     (''failure_reasons'', JArr (map JStr (ca_failure_reasons a)))]"

definition signing_members :: "commit_attestation \<Rightarrow> (string \<times> json) list" where
  "signing_members a =
    concat (map (\<lambda>(k, v). case v of None \<Rightarrow> [] | Some s \<Rightarrow> [(k, JStr s)])
      [(''payload_hash'', ca_payload_hash a), (''signature'', ca_signature a),
       (''key_id'', ca_key_id a), (''signature_source'', ca_signature_source a)])"

definition attestation_members :: "commit_attestation \<Rightarrow> (string \<times> json) list" where
  "attestation_members a =
    [(''schema_version'', JNum 1), (''type'', JStr ''commit-attestation''),
     (''generated_at'', JStr (ca_generated_at a)), (''tool_version'', JStr (ca_tool_version a)),
     (''commit_sha'', JStr (ca_commit_sha a)), (''branch'', JStr (ca_branch a))]
    @ session_claims a @ signing_members a"

section \<open>The statement\<close>

definition IN_TOTO_STATEMENT_TYPE :: string where
  "IN_TOTO_STATEMENT_TYPE = ''https://in-toto.io/Statement/v1''"

definition PATCHWORK_PREDICATE_TYPE :: string where
  "PATCHWORK_PREDICATE_TYPE = ''https://patchwork-audit.dev/ai-agent-session/v1''"

definition DSSE_PAYLOAD_TYPE :: string where
  "DSSE_PAYLOAD_TYPE = ''application/vnd.in-toto+json''"

definition buildInTotoStatement :: "commit_attestation \<Rightarrow> json" where
  "buildInTotoStatement a = JObj
    [(''_type'', JStr IN_TOTO_STATEMENT_TYPE),
     (''subject'', JArr [JObj
        [(''name'', JStr (''git+'' @ ca_branch a @ '':'' @ ca_commit_sha a)),
         (''digest'', JObj [(''gitCommit'', JStr (ca_commit_sha a))])]]),
     (''predicateType'', JStr PATCHWORK_PREDICATE_TYPE),
     (''predicate'', JObj ([(''schema_version'', JNum 1), (''generated_at'', JStr (ca_generated_at a)),
        (''tool_version'', JStr (ca_tool_version a))] @ session_claims a))]"

text \<open>The sorted text; \<open>deepSort\<close> repeats \<open>deepSortKeys\<close> of the attestation module.\<close>

definition canonical_statement :: "json \<Rightarrow> string" where
  "canonical_statement v = stringify (deepSortKeys v)"

definition dssePAE :: "string \<Rightarrow> string \<Rightarrow> string" where
  "dssePAE payloadType payload =
    ''DSSEv1 '' @ print_int (int (length payloadType)) @ '' '' @ payloadType @ '' ''
      @ print_int (int (length payload)) @ '' '' @ payload"

section \<open>Base 64\<close>

definition b64_char :: "nat \<Rightarrow> char" where
  "b64_char n =
    (if n < 26 then char_of (65 + n) else if n < 52 then char_of (71 + n)
     else if n < 62 then char_of (n - 4) else if n = 62 then CHR ''+'' else CHR ''/'')"

definition b64_val :: "char \<Rightarrow> nat" where
  "b64_val c =
    (let n = of_char c in
     if is_upper c then n - 65 else if in_range CHR ''a'' CHR ''z'' c then n - 71
     else if is_digit c then n + 4 else if c = CHR ''+'' then 62 else 63)"

definition b64_letter :: "char \<Rightarrow> bool" where
  "b64_letter c \<longleftrightarrow> is_upper c \<or> in_range CHR ''a'' CHR ''z'' c \<or> is_digit c \<or> c = CHR ''+'' \<or> c = CHR ''/''"

text \<open>\<open>buffer.toString("base64")\<close>.\<close>

fun base64 :: "string \<Rightarrow> string" where
  "base64 [] = []"
| "base64 [a] =
     (let x = of_char a in [b64_char (x div 4), b64_char (x mod 4 * 16), CHR ''='', CHR ''='' ])"
| "base64 [a, b] =
     (let x = of_char a; y = of_char b in
      [b64_char (x div 4), b64_char (x mod 4 * 16 + y div 16), b64_char (y mod 16 * 4), CHR ''='' ])"
| "base64 (a # b # c # r) =
     (let x = of_char a; y = of_char b; z = of_char c in
      b64_char (x div 4) # b64_char (x mod 4 * 16 + y div 16) # b64_char (y mod 16 * 4 + z div 64)
      # b64_char (z mod 64) # base64 r)"

text \<open>
  \<open>Buffer.from(s, "base64")\<close> on letters alone: complete groups of four, then what two or three
  letters still determine; one letter determines nothing.
\<close>

definition byte :: "nat \<Rightarrow> char" where
  "byte n = char_of (n mod 256)"

fun decode_letters :: "nat list \<Rightarrow> string" where
  "decode_letters (w # x # y # z # r) =
     byte (w * 4 + x div 16) # byte (x * 16 + y div 4) # byte (y * 64 + z) # decode_letters r"
| "decode_letters [w, x, y] = [byte (w * 4 + x div 16), byte (x * 16 + y div 4)]"
| "decode_letters [w, x] = [byte (w * 4 + x div 16)]"
| "decode_letters _ = []"

definition base64_shape :: "string \<Rightarrow> bool" where
  "base64_shape s \<longleftrightarrow> dropWhile b64_letter s \<in> {[], ''='', ''==''}"

definition decodeCanonicalBase64Payload :: "string \<Rightarrow> string result" where
  "decodeCanonicalBase64Payload payload =
    (if \<not> base64_shape payload
     then Inl (Thrown ''DSSE payload is not canonical base64 (illegal characters)'')
     else
       (let decoded = decode_letters (map b64_val (takeWhile b64_letter payload)) in
        if base64 decoded \<noteq> payload
        then Inl (Thrown ''DSSE payload is not canonical base64 (non-roundtrip)'')
        else Inr decoded))"

section \<open>Envelopes\<close>

record dsse_signature =
  ds_keyid :: string
  ds_sig :: string

record dsse_envelope =
  de_payloadType :: string
  de_payload :: string
  de_signatures :: "dsse_signature list"

definition buildDsseEnvelope ::
  "json \<Rightarrow> (string \<Rightarrow> (string \<times> string) result) \<Rightarrow> dsse_envelope result" where
  "buildDsseEnvelope statement signFn =
    (let payloadBytes = canonical_statement statement; pae = dssePAE DSSE_PAYLOAD_TYPE payloadBytes
     in bind_result (signFn pae) (\<lambda>(keyid, sigBase64).
          Inr \<lparr>de_payloadType = DSSE_PAYLOAD_TYPE, de_payload = base64 payloadBytes,
               de_signatures = [\<lparr>ds_keyid = keyid, ds_sig = sigBase64\<rparr>]\<rparr>))"

text \<open>A verifier that throws on a signature passes on to the next.\<close>

fun any_verifies :: "(string \<Rightarrow> string \<Rightarrow> string \<Rightarrow> bool result) \<Rightarrow> string \<Rightarrow> dsse_signature list \<Rightarrow> bool" where
  "any_verifies verifyFn pae [] \<longleftrightarrow> False"
| "any_verifies verifyFn pae (s # ss) \<longleftrightarrow>
     (if verifyFn (ds_keyid s) pae (ds_sig s) = Inr True then True else any_verifies verifyFn pae ss)"

definition verifyDsseEnvelope ::
  "dsse_envelope \<Rightarrow> (string \<Rightarrow> string \<Rightarrow> string \<Rightarrow> bool result) \<Rightarrow> bool" where
  "verifyDsseEnvelope envelope verifyFn \<longleftrightarrow>
    (if de_signatures envelope = [] then False
     else
       (case decodeCanonicalBase64Payload (de_payload envelope) of
          Inl x \<Rightarrow> False
        | Inr payloadBytes \<Rightarrow>
            any_verifies verifyFn (dssePAE (de_payloadType envelope) payloadBytes)
              (de_signatures envelope)))"

definition decodeStatement :: "(string \<Rightarrow> json result) \<Rightarrow> dsse_envelope \<Rightarrow> json result" where
  "decodeStatement json_parse envelope =
    (if de_payloadType envelope \<noteq> DSSE_PAYLOAD_TYPE
     then Inl (Thrown (''unexpected DSSE payloadType: '' @ de_payloadType envelope
                @ '' (expected '' @ DSSE_PAYLOAD_TYPE @ '')''))
     else bind_result (decodeCanonicalBase64Payload (de_payload envelope)) json_parse)"

definition digestStatement :: "sign_env \<Rightarrow> dsse_envelope \<Rightarrow> string result" where
  "digestStatement e envelope =
    bind_result (decodeCanonicalBase64Payload (de_payload envelope)) (\<lambda>b.
      Inr (''sha256:'' @ sg_sha e b))"

section \<open>Facts\<close>

lemma b64_cases:
  assumes "n < 64"
  shows "b64_letter (b64_char n) \<and> b64_val (b64_char n) = n"
proof -
  consider "n < 26" | "26 \<le> n" "n < 52" | "52 \<le> n" "n < 62" | "n = 62" | "n = 63"
    using assms by linarith
  then show ?thesis
  proof cases
    case 1
    then have "is_upper (b64_char n)" "(of_char (b64_char n) :: nat) = 65 + n"
      by (simp_all add: is_upper_def in_range_def b64_char_def)
    then show ?thesis
      by (simp add: b64_letter_def b64_val_def)
  next
    case 2
    then have "\<not> is_upper (b64_char n)" "in_range CHR ''a'' CHR ''z'' (b64_char n)"
        "(of_char (b64_char n) :: nat) = 71 + n"
      by (simp_all add: is_upper_def in_range_def b64_char_def)
    then show ?thesis
      by (simp add: b64_letter_def b64_val_def)
  next
    case 3
    then have "48 \<le> n - 4" "n - 4 \<le> 57" by linarith+
    with 3 have "\<not> is_upper (b64_char n)" "\<not> in_range CHR ''a'' CHR ''z'' (b64_char n)"
        "is_digit (b64_char n)" "(of_char (b64_char n) :: nat) = n - 4"
      by (simp_all add: is_upper_def in_range_def is_digit_def b64_char_def)
    then show ?thesis
      using 3 by (simp add: b64_letter_def b64_val_def)
  next
    case 4
    then show ?thesis
      by (simp add: b64_letter_def b64_val_def b64_char_def) code_simp
  next
    case 5
    then show ?thesis
      by (simp add: b64_letter_def b64_val_def b64_char_def) code_simp
  qed
qed

lemma b64_val_char [simp]: "n < 64 \<Longrightarrow> b64_val (b64_char n) = n"
  by (simp add: b64_cases)

lemma b64_letter_char [simp]: "n < 64 \<Longrightarrow> b64_letter (b64_char n)"
  by (simp add: b64_cases)

lemma byte_of_char [simp]: "byte (of_char c) = c"
  by (simp add: byte_def)

lemma pad_not_letter: "\<not> b64_letter CHR ''=''"
  by code_simp

lemma of_char_less: "(of_char c :: nat) < 256"
  by simp

text \<open>The letters of an encoding, and what they decode to.\<close>

text \<open>Three bytes as four sextets, and back.\<close>

lemma sextets:
  fixes x y z :: nat
  assumes "x < 256" "y < 256" "z < 256"
  shows "x div 4 < 64"
    and "x mod 4 * 16 + y div 16 < 64"
    and "y mod 16 * 4 + z div 64 < 64"
    and "x div 4 * 4 + (x mod 4 * 16 + y div 16) div 16 = x"
    and "(x mod 4 * 16 + y div 16) * 16 + (y mod 16 * 4 + z div 64) div 4 = x mod 4 * 256 + y"
    and "(y mod 16 * 4 + z div 64) * 64 + z mod 64 = y mod 16 * 256 + z"
proof -
  have b: "x div 4 < 64" "y div 16 < 16" "z div 64 < 4" "x mod 4 < 4" "y mod 16 < 16"
    using assms by (simp_all add: less_mult_imp_div_less)
  show "x div 4 < 64" by (rule b)
  show "x mod 4 * 16 + y div 16 < 64" "y mod 16 * 4 + z div 64 < 64"
    using b by linarith+
  have "(x mod 4 * 16 + y div 16) div 16 = x mod 4"
    using b by (simp add: div_less)
  then show "x div 4 * 4 + (x mod 4 * 16 + y div 16) div 16 = x"
    by simp
  have "(y mod 16 * 4 + z div 64) div 4 = y mod 16"
    using b by (simp add: div_less)
  then show "(x mod 4 * 16 + y div 16) * 16 + (y mod 16 * 4 + z div 64) div 4 = x mod 4 * 256 + y"
    by (simp add: algebra_simps)
  show "(y mod 16 * 4 + z div 64) * 64 + z mod 64 = y mod 16 * 256 + z"
    by (simp add: algebra_simps)
qed

lemma byte_carry [simp]: "byte (k * 256 + of_char c) = c"
  by (simp add: byte_def)

lemma carry_byte [simp]: "byte (of_char c + 256 * k) = c"
  by (simp add: byte_def)

lemma base64_reads:
  "base64_shape (base64 s)
   \<and> decode_letters (map b64_val (takeWhile b64_letter (base64 s))) = s"
proof (induction s rule: base64.induct)
  case 1
  show ?case by (simp add: base64_shape_def)
next
  case (2 a)
  note S = sextets [OF of_char_less [of a] of_char_less [of "CHR 0x00"] of_char_less [of "CHR 0x00"]]
  show ?case using S(1,2,4)
    by (simp add: base64_shape_def Let_def pad_not_letter)
next
  case (3 a b)
  note S = sextets [OF of_char_less [of a] of_char_less [of b] of_char_less [of "CHR 0x00"]]
  show ?case using S(1,2,3,4,5)
    by (simp add: base64_shape_def Let_def pad_not_letter)
next
  case (4 a b c r)
  note S = sextets [OF of_char_less [of a] of_char_less [of b] of_char_less [of c]]
  show ?case using 4 S
    by (simp add: base64_shape_def Let_def)
qed

lemma decode_base64 [simp]: "decodeCanonicalBase64Payload (base64 s) = Inr s"
  by (simp add: decodeCanonicalBase64Payload_def base64_reads Let_def)

lemma decode_iff: "decodeCanonicalBase64Payload p = Inr s \<longleftrightarrow> p = base64 s"
  by (auto simp: decodeCanonicalBase64Payload_def Let_def split: if_splits)
     (simp_all add: base64_reads)

lemma base64_inject: "base64 s = base64 t \<longleftrightarrow> s = t"
  by (metis decode_base64 sum.inject(2))

text \<open>The pre-authentication encoding determines the type and the text.\<close>

lemma print_int_space:
  assumes "print_int i @ CHR '' '' # a = print_int j @ CHR '' '' # b"
  shows "i = j \<and> a = b"
proof -
  have e: "number_end (CHR '' '' # s)" for s
    by (simp add: number_end_def is_digit_def in_range_def)
  show ?thesis
    using read_print_int [OF e, of i a] read_print_int [OF e, of j b]
    unfolding assms by (simp only: prod.inject list.inject simp_thms)
qed

lemma dssePAE_inject: "dssePAE t p = dssePAE t' p' \<longleftrightarrow> t = t' \<and> p = p'"
proof
  assume "dssePAE t p = dssePAE t' p'"
  then have a: "print_int (int (length t)) @ CHR '' '' # (t @ '' '' @ print_int (int (length p)) @ '' '' @ p)
      = print_int (int (length t')) @ CHR '' '' # (t' @ '' '' @ print_int (int (length p')) @ '' '' @ p')"
    by (simp add: dssePAE_def)
  from print_int_space [OF a] have l: "length t = length t'"
    and r: "t @ '' '' @ print_int (int (length p)) @ '' '' @ p
      = t' @ '' '' @ print_int (int (length p')) @ '' '' @ p'" by simp_all
  from r have "t = t'"
    and s: "print_int (int (length p)) @ CHR '' '' # p = print_int (int (length p')) @ CHR '' '' # p'"
    unfolding append_eq_append_conv [OF disjI1 [OF l]] by simp_all
  with print_int_space [OF s] show "t = t' \<and> p = p'" by blast
qed simp

lemma any_verifies_iff:
  "any_verifies f pae ss \<longleftrightarrow> (\<exists>s \<in> set ss. f (ds_keyid s) pae (ds_sig s) = Inr True)"
  by (induction ss) auto

lemma verify_iff:
  "verifyDsseEnvelope env f \<longleftrightarrow>
     (\<exists>b. de_payload env = base64 b \<and>
        (\<exists>s \<in> set (de_signatures env). f (ds_keyid s) (dssePAE (de_payloadType env) b) (ds_sig s) = Inr True))"
proof (cases "decodeCanonicalBase64Payload (de_payload env)")
  case (Inl x)
  then have "de_payload env \<noteq> base64 b" for b by (metis decode_base64 Inl_Inr_False)
  with Inl show ?thesis by (simp add: verifyDsseEnvelope_def)
next
  case (Inr b)
  then have "de_payload env = base64 b" by (simp add: decode_iff)
  then show ?thesis by (auto simp: verifyDsseEnvelope_def any_verifies_iff base64_inject)
qed

text \<open>A verified payload was signed: if only \<open>signed\<close> texts verify, the envelope's is one of them.\<close>

lemma verified_payload_signed:
  assumes "verifyDsseEnvelope env f"
    and "\<And>k t p s. f k (dssePAE t p) s = Inr True \<Longrightarrow> signed t p"
  shows "\<exists>b. decodeCanonicalBase64Payload (de_payload env) = Inr b \<and> signed (de_payloadType env) b"
  using assms by (auto simp: verify_iff)

lemma built_envelope_verifies:
  assumes "buildDsseEnvelope st sign = Inr env"
    and "\<And>p k s. sign p = Inr (k, s) \<Longrightarrow> f k p s = Inr True"
  shows "verifyDsseEnvelope env f \<and> decodeStatement parse env = parse (canonical_statement st)"
  using assms
  by (auto simp: buildDsseEnvelope_def Let_def verify_iff decodeStatement_def bind_result_def
      split: sum.splits)

end
