(* ===== verification/IntegrityProperties.thy ===== *)
theory IntegrityProperties
  imports JsonlChain JsonlLock Intoto
begin

text \<open>
  What the hash chain, the log store, its lock and the signed envelopes promise together.
\<close>

section \<open>The chain\<close>

text \<open>
  C39: verifying a chain is verifying every event's hash and, between each chained event and the
  next, the link; nothing else enters the verdict, in any mode.
\<close>

theorem chain_is_hashes_and_links:
  "cv_valid (verifyChain e opts evs) \<longleftrightarrow>
     ei_valid (verifyEventHashes e opts evs) \<and> links (filter is_chained evs)"
  unfolding verifyChain_valid_iff verifyEventHashes_valid_iff by (rule log_ok_links)

lemma strict_chain:
  assumes "cv_valid (verifyChain e opts evs)" "vo_strict opts"
  shows "\<forall>ev \<in> set evs. hash_matches e ev" "links evs"
proof -
  have ok: "log_ok e opts False evs" "links (filter is_chained evs)"
    using assms(1) by (simp_all add: verifyChain_valid_iff log_ok_links)
  then have "\<forall>ev \<in> set evs. is_chained ev \<and> hash_matches e ev"
    using rest_ok_strict assms(2) by (auto simp: log_ok_def)
  then show "\<forall>ev \<in> set evs. hash_matches e ev" "links evs"
    using ok(2) by (simp_all add: filter_id_conv [THEN iffD2])
qed

text \<open>
  The chain is tamper evident: of two logs that both pass strict verification, with the same
  number of events and the same last hash, every event says the same, member by member, unless two
  of their texts collide under the digest.
\<close>

theorem same_tip_same_history:
  assumes "cv_valid (verifyChain e opts xs)" "cv_valid (verifyChain e opts ys)" "vo_strict opts"
    and "length xs = length ys" "xs \<noteq> []" "event_hash (last xs) = event_hash (last ys)"
    and "\<not> collision e (xs @ ys)"
  shows "map event_view xs = map event_view ys"
  using same_tip_same_log [of xs ys e] strict_chain [OF assms(1,3)] strict_chain [OF assms(2,3)] assms(4-7)
  by auto

section \<open>The log\<close>


section \<open>The lock\<close>

text \<open>
  C38: a lock that is in force is respected: as long as the lock file names a live process of this
  host, or is of another host or without readable metadata and at most five seconds old, whatever
  else the others do to it, a call that wants the lock ends with an error, and its critical
  section does not run.
\<close>

theorem holder_respected:
  assumes "\<And>i f. in_force e f \<Longrightarrow> in_force e (lv_others e i f)" "in_force e l"
  shows "\<exists>x. snd (withLock e pid token fn l w) = (w, Inl x)"
  using acquire_held [OF assms] by (auto simp: withLock_def)

section \<open>Envelopes\<close>

text \<open>
  C37: an envelope that verifies says only what was signed: if the verifier accepts no encoding but
  of signed statements, the payload is canonical base 64 of a text that was signed under the type
  that the envelope names.
\<close>

theorem envelope_says_what_was_signed:
  assumes "verifyDsseEnvelope v verifyFn"
    and "\<forall>k pae s. verifyFn k pae s = Inr True \<longrightarrow> (\<exists>t p. signed t p \<and> pae = dssePAE t p)"
  shows "\<exists>p. decodeCanonicalBase64Payload (de_payload v) = Inr p \<and> signed (de_payloadType v) p"
proof (rule verified_payload_signed [OF assms(1)])
  fix k t p s
  assume "verifyFn k (dssePAE t p) s = Inr True"
  then show "signed t p" using assms(2) by (metis dssePAE_inject)
qed

text \<open>
  Building and reading an envelope: what was built verifies with a verifier that accepts the
  signer's signatures, and decodes to the sorted text of the very statement.
\<close>

theorem envelope_roundtrip:
  assumes "buildDsseEnvelope statement signFn = Inr v"
    and "\<forall>p k s. signFn p = Inr (k, s) \<longrightarrow> verifyFn k p s = Inr True"
  shows "verifyDsseEnvelope v verifyFn
    \<and> decodeStatement json_parse v = json_parse (canonical_statement statement)"
  using built_envelope_verifies [OF assms(1)] assms(2) by blast

section \<open>Concrete logs\<close>

definition plain_hash_env :: hash_env where
  "plain_hash_env = \<lparr>he_sha = (\<lambda>s. s), he_schema = (\<lambda>v. True)\<rparr>"

definition strict_options :: verify_options where
  "strict_options = \<lparr>vo_strict = True, vo_requireChainProtected = True\<rparr>"

definition hashed :: "(string \<times> json) list \<Rightarrow> json" where
  "hashed ms = JObj (ms @ [(''event_hash'', JStr (computeEventHash plain_hash_env (JObj ms)))])"

text \<open>One event, its members written in two orders.\<close>

definition log_one :: "json list" where
  "log_one = [hashed [(''a'', JNum 1), (''b'', JNum 2)]]"

definition log_two :: "json list" where
  "log_two = [hashed [(''b'', JNum 2), (''a'', JNum 1)]]"

lemma same_tip_same_history_witness: "log_one \<noteq> log_two \<and> map event_view log_one = map event_view log_two"
proof -
  have v: "cv_valid (verifyChain plain_hash_env strict_options log_one)"
    "cv_valid (verifyChain plain_hash_env strict_options log_two)" by code_simp+
  have t: "length log_one = length log_two" "log_one \<noteq> []" "event_hash (last log_one) = event_hash (last log_two)"
    and ne: "log_one \<noteq> log_two" by code_simp+
  have c: "\<not> collision plain_hash_env (log_one @ log_two)"
    by (simp add: collision_def plain_hash_env_def)
  have "vo_strict strict_options" by (simp add: strict_options_def)
  from same_tip_same_history [OF v this t c] ne show ?thesis by simp
qed

text \<open>A store whose reader is the reader of printed values.\<close>

definition reader_env :: log_env where
  "reader_env = \<lparr>lg_sha = (\<lambda>s. s), lg_datetime = (\<lambda>s. True),
     lg_parse = (\<lambda>s. map_option fst (read_value (Suc (length s)) s))\<rparr>"

lemma reader_env_reads: "reads_own_lines reader_env"
proof -
  have "read_value (Suc (length (stringify v))) (stringify v @ []) = Some (v, [])" for v
    using reads_back_all [of "Suc (length (stringify v))" v] unfolding reads_back_def number_end_def by blast
  then show ?thesis by (simp add: reads_own_lines_def reader_env_def)
qed

definition sample_log_event :: json where
  "sample_log_event = JObj
    [(''schema_version'', JNum 1), (''id'', JStr ''evt''), (''session_id'', JStr ''ses''), (''timestamp'', JStr ''t''),
     (''idempotency_key'', JStr ''k''), (''agent'', JStr ''claude-code''), (''action'', JStr ''session_start''),
     (''status'', JStr ''completed''), (''project'', JObj [(''root'', JStr ''/w''), (''name'', JStr ''w'')]),
     (''risk'', JObj [(''level'', JStr ''none''), (''flags'', JArr [])])]"

definition empty_cluster :: cluster where
  "empty_cluster = \<lparr>cl_files = (\<lambda>p. None), cl_stores = (\<lambda>q. new_store ''events.jsonl'' 0 5)\<rparr>"

definition sample_io :: io_env where
  "sample_io = \<lparr>io_append = True, io_rename = (\<lambda>s. True), io_unlink = (\<lambda>s. True), io_mtime = 1\<rparr>"


lemma holder_respected_witness:
  "\<exists>x. snd (withLock (race_env\<lparr>lv_others := \<lambda>i f. f\<rparr>) 9 ''u'' (\<lambda>n. (n + 1, Inr ())) (Some (lock_of 1)) (0 :: nat))
     = (0, Inl x)"
  by (rule holder_respected) (simp_all add: in_force_def race_env_def lock_of_def)

definition sample_sign :: "string \<Rightarrow> (string \<times> string) result" where
  "sample_sign pae = Inr (''k'', base64 pae)"

definition sample_verify :: "string \<Rightarrow> string \<Rightarrow> string \<Rightarrow> bool result" where
  "sample_verify k pae s = Inr (k = ''k'' \<and> s = base64 pae \<and> pae = dssePAE DSSE_PAYLOAD_TYPE (canonical_statement (JObj [])))"

lemma sample_envelope: "\<exists>v. buildDsseEnvelope (JObj []) sample_sign = Inr v \<and> verifyDsseEnvelope v sample_verify"
  by (auto simp: buildDsseEnvelope_def sample_sign_def sample_verify_def verify_iff base64_inject Let_def)

lemma envelope_says_what_was_signed_witness:
  "\<exists>v p. verifyDsseEnvelope v sample_verify \<and> decodeCanonicalBase64Payload (de_payload v) = Inr p
     \<and> p = canonical_statement (JObj [])"
proof -
  obtain v where v: "verifyDsseEnvelope v sample_verify" using sample_envelope by blast
  from envelope_says_what_was_signed [OF v, where signed = "\<lambda>t p. t = DSSE_PAYLOAD_TYPE \<and> p = canonical_statement (JObj [])"]
  show ?thesis using v by (auto simp: sample_verify_def)
qed

lemma envelope_roundtrip_witness:
  "\<exists>v. buildDsseEnvelope (JObj []) sample_sign = Inr v
     \<and> decodeStatement (\<lambda>s. Inr (JStr s)) v = Inr (JStr (canonical_statement (JObj [])))"
proof -
  obtain v where v: "buildDsseEnvelope (JObj []) sample_sign = Inr v" using sample_envelope by blast
  have "\<forall>p k s. sample_sign p = Inr (k, s) \<longrightarrow> (\<lambda>k p s. Inr (s = base64 p)) k p s = Inr True"
    by (simp add: sample_sign_def)
  from envelope_roundtrip [OF v this, of "\<lambda>s. Inr (JStr s)"] v show ?thesis by blast
qed

end
