(* ===== verification/SigningProxy.thy ===== *)
theory SigningProxy
  imports SealKeyring
begin

text \<open>
  Signing through the relay daemon with the local keyring as fallback,
  \<^verbatim>\<open>packages/core/src/relay/signing-proxy.ts\<close>. A proxy environment says whether the socket exists,
  what the daemon answers (an exception is a connection that failed, timed out or was not JSON),
  and whether the relay is required. Not modelled: the warning of \<open>PATCHWORK_DEBUG\<close>.
\<close>

record sign_response =
  sr_ok :: bool
  sr_signature :: "string option"
  sr_key_id :: "string option"
  sr_signed_at :: "string option"
  sr_error :: "string option"

record verify_response =
  vr_ok :: bool
  vr_verified :: bool
  vr_reason :: "string option"

record proxy_env =
  px_sign :: sign_env
  px_socket_path :: string
  px_socket :: bool
  px_send_sign :: "string \<Rightarrow> string option \<Rightarrow> sign_response result"
  px_send_verify :: "string \<Rightarrow> string \<Rightarrow> string \<Rightarrow> verify_response result"
  px_require_env :: bool
  px_random :: string
  px_now :: string

datatype signer = Relay | Local

record signature_result =
  sg_signature :: string
  sg_key_id :: string
  sg_signed_at :: string
  sg_source :: signer

definition relay_unavailable :: "string \<Rightarrow> js_error" where
  "relay_unavailable reason = Thrown (''relay-required signing failed: '' @ reason)"

definition sign_locally ::
  "proxy_env \<Rightarrow> string \<Rightarrow> files \<Rightarrow> files \<times> signature_result result" where
  "sign_locally e payload dir =
    (let r = ensureKeyring (px_sign e) (px_random e) dir in
     (fst r, bind_result (snd r) (\<lambda>(keyId, key).
        Inr \<lparr>sg_signature = signSeal (px_sign e) payload key, sg_key_id = keyId,
             sg_signed_at = px_now e, sg_source = Local\<rparr>)))"

text \<open>The members of an answer that the code requires to be there and nonempty.\<close>

definition relay_signature :: "sign_response \<Rightarrow> signature_result option" where
  "relay_signature r =
    (case (str_or (sr_signature r) None, str_or (sr_key_id r) None, str_or (sr_signed_at r) None) of
       (Some s, Some k, Some t) \<Rightarrow>
         if sr_ok r
         then Some \<lparr>sg_signature = s, sg_key_id = k, sg_signed_at = t, sg_source = Relay\<rparr> else None
     | _ \<Rightarrow> None)"

definition requestSignature ::
  "proxy_env \<Rightarrow> string option \<Rightarrow> bool option \<Rightarrow> string \<Rightarrow> files \<Rightarrow> files \<times> signature_result result" where
  "requestSignature e keyId requireRelay payload dir =
    (let required = (case requireRelay of Some b \<Rightarrow> b | None \<Rightarrow> px_require_env e) in
     if px_socket e then
       (case px_send_sign e payload (str_or keyId None) of
          Inl x \<Rightarrow>
            if required then (dir, Inl (relay_unavailable (''relay error: '' @ error_text x)))
            else sign_locally e payload dir
        | Inr resp \<Rightarrow>
            (case relay_signature resp of
               Some s \<Rightarrow> (dir, Inr s)
             | None \<Rightarrow>
                 if required
                 then (dir, Inl (relay_unavailable (''relay refused: ''
                        @ (case sr_error resp of Some m \<Rightarrow> m | None \<Rightarrow> ''unknown error''))))
                 else sign_locally e payload dir))
     else if required then (dir, Inl (relay_unavailable (''relay socket not present at '' @ px_socket_path e)))
     else sign_locally e payload dir)"

section \<open>Verification\<close>

record verify_result =
  vf_verified :: bool
  vf_source :: signer
  vf_reason :: "string option"

definition no_key_available :: verify_result where
  "no_key_available = \<lparr>vf_verified = False, vf_source = Local, vf_reason = Some ''no_key_available''\<rparr>"

definition requestVerification ::
  "proxy_env \<Rightarrow> string \<Rightarrow> string \<Rightarrow> string \<Rightarrow> files \<Rightarrow> verify_result" where
  "requestVerification e payload signature keyId dir =
    (case loadKeyById dir keyId of
       Inr key \<Rightarrow>
         (let v = verifySeal (px_sign e) payload signature key in
          \<lparr>vf_verified = v, vf_source = Local,
           vf_reason = (if v then None else Some ''signature_mismatch'')\<rparr>)
     | Inl x \<Rightarrow>
         if px_socket e then
           (case px_send_verify e payload signature keyId of
              Inr resp \<Rightarrow>
                if vr_ok resp
                then \<lparr>vf_verified = vr_verified resp, vf_source = Relay,
                      vf_reason = str_or (vr_reason resp) None\<rparr>
                else no_key_available
            | Inl y \<Rightarrow> no_key_available)
         else no_key_available)"

section \<open>Facts\<close>

text \<open>A required relay signs, or nobody does: the keyring is not touched.\<close>

lemma required_relay_signs:
  assumes "requestSignature e keyId (Some True) payload dir = (dir', r)"
  shows "dir' = dir \<and> (\<forall>s. r = Inr s \<longrightarrow> sg_source s = Relay)"
  using assms
  by (auto simp: requestSignature_def relay_signature_def split: if_splits sum.splits option.splits)

text \<open>What is signed locally verifies locally, also with a later keyring that kept the key.\<close>

lemma local_signature:
  assumes "hex_digest (px_sign e)" "requestSignature e keyId required payload dir = (dir', Inr s)"
    and "sg_source s = Local"
  shows "\<exists>key. loadKeyById dir' (sg_key_id s) = Inr key \<and> sg_signature s = signSeal (px_sign e) payload key"
proof -
  have "sign_locally e payload dir = (dir', Inr s)"
    using assms(2,3)
    by (auto simp: requestSignature_def relay_signature_def Let_def split: if_splits sum.splits option.splits)
  then obtain key where k: "ensureKeyring (px_sign e) (px_random e) dir = (dir', Inr (sg_key_id s, key))"
    and s: "sg_signature s = signSeal (px_sign e) payload key"
    by (auto simp: sign_locally_def Let_def bind_result_eq_Inr prod_eq_iff)
  from ensure_loads [OF assms(1) k] s show ?thesis by blast
qed

lemma local_roundtrip:
  assumes "hex_digest (px_sign e)" "requestSignature e keyId required payload dir = (dir', Inr s)"
    and "sg_source s = Local"
  shows "requestVerification e payload (sg_signature s) (sg_key_id s) dir'
    = \<lparr>vf_verified = True, vf_source = Local, vf_reason = None\<rparr>"
  using local_signature [OF assms] by (auto simp: requestVerification_def verifySeal_iff)

end
