(* ===== verification/CommitDetector.thy ===== *)
theory CommitDetector
  imports Prelude
begin

text \<open>
  Recognition of \<open>git commit\<close> in a shell command and of the commit in its output,
  \<^verbatim>\<open>packages/agents/src/claude-code/git-commit-detector.ts\<close>. Each regular expression is written as
  the search it denotes; where a repeated class and what follows it are disjoint, the search takes
  the whole run.
\<close>

definition word_char :: "char \<Rightarrow> bool" where
  "word_char c \<longleftrightarrow> is_alnumu c"

text \<open>\<open>\b\<close> between a character before and the text after.\<close>

definition boundary :: "char option \<Rightarrow> string \<Rightarrow> bool" where
  "boundary before s \<longleftrightarrow>
    (case before of None \<Rightarrow> False | Some c \<Rightarrow> word_char c) \<noteq> (s \<noteq> [] \<and> word_char (hd s))"

text \<open>\<open>git\s+commit\b\<close> at the start of the text: what follows it.\<close>

definition git_commit_at :: "string \<Rightarrow> string option" where
  "git_commit_at s =
    (if \<not> starts_with s ''git'' then None
     else
       (let a = drop 3 s; b = dropWhile is_space a in
        if a = [] \<or> \<not> is_space (hd a) then None
        else if starts_with b ''commit'' \<and> boundary (Some CHR ''t'') (drop 6 b)
        then Some (drop 6 b) else None))"

text \<open>\<open>(?:[\w]+=\S+\s+)*git\s+commit\b\<close>: an assignment is skipped with the blanks after it.\<close>

definition after_assignment :: "string \<Rightarrow> string option" where
  "after_assignment s =
    (let name = takeWhile word_char s; r = drop (length name) s in
     if name = [] \<or> \<not> starts_with r ''='' then None
     else
       (let v = tl r; val = takeWhile (\<lambda>c. \<not> is_space c) v; r2 = drop (length val) v in
        if val = [] \<or> r2 = [] then None else Some (dropWhile is_space r2)))"

lemma after_assignment_shorter: "after_assignment s = Some r \<Longrightarrow> length r < length s"
proof -
  assume a: "after_assignment s = Some r"
  define n v val where "n = takeWhile word_char s" and "v = tl (drop (length n) s)"
    and "val = takeWhile (\<lambda>c. \<not> is_space c) v"
  have n: "n \<noteq> []" and val: "val \<noteq> []" and r: "r = dropWhile is_space (drop (length val) v)"
    using a by (auto simp: after_assignment_def Let_def n_def v_def val_def split: if_splits)
  have "s \<noteq> []" using n by (auto simp: n_def)
  then have "length v < length s" using n by (simp add: v_def)
  then show ?thesis using length_dropWhile_le [of is_space "drop (length val) v"] by (simp add: r)
qed

function commit_after_assignments :: "string \<Rightarrow> bool" where
  "commit_after_assignments s \<longleftrightarrow>
    git_commit_at s \<noteq> None
    \<or> (case after_assignment s of None \<Rightarrow> False | Some r \<Rightarrow> commit_after_assignments r)"
  by auto
termination by (relation "measure length") (auto dest: after_assignment_shorter)

declare commit_after_assignments.simps [simp del]

text \<open>The start of the text, or what follows an operator.\<close>

definition commit_here :: "string \<Rightarrow> bool" where
  "commit_here s \<longleftrightarrow> commit_after_assignments (dropWhile is_space s)"

fun commit_later :: "string \<Rightarrow> bool" where
  "commit_later [] \<longleftrightarrow> False"
| "commit_later (c # cs) \<longleftrightarrow>
     (starts_with (c # cs) ''&&'' \<and> commit_here (tl cs))
     \<or> (starts_with (c # cs) ''||'' \<and> commit_here (tl cs))
     \<or> (c = CHR '';'' \<and> commit_here cs)
     \<or> commit_later cs"

definition GIT_COMMIT_RE :: "string \<Rightarrow> bool" where
  "GIT_COMMIT_RE s \<longleftrightarrow> commit_here s \<or> commit_later s"

text \<open>Quoted strings become \<open>""\<close>; an opening quote without a closing one stays.\<close>

function strip_quoted :: "string \<Rightarrow> string" where
  "strip_quoted [] = []"
| "strip_quoted (c # cs) =
     (if (c = CHR 0x22 \<or> c = CHR 0x27) \<and> c \<in> set cs
      then CHR 0x22 # CHR 0x22 # strip_quoted (tl (dropWhile (\<lambda>x. x \<noteq> c) cs))
      else c # strip_quoted cs)"
  by pat_completeness auto
termination
proof (relation "measure length")
  fix c :: char and cs :: string
  show "(tl (dropWhile (\<lambda>x. x \<noteq> c) cs), c # cs) \<in> measure length"
    using length_dropWhile_le [of "\<lambda>x. x \<noteq> c" cs] by simp
qed simp_all

text \<open>\<open>#.*\<close> up to the end of the line.\<close>

definition line_end :: "char \<Rightarrow> bool" where
  "line_end c \<longleftrightarrow> c = newline \<or> c = CHR 0x0D"

function strip_comments :: "string \<Rightarrow> string" where
  "strip_comments [] = []"
| "strip_comments (c # cs) =
     (if c = CHR ''#'' then strip_comments (dropWhile (\<lambda>x. \<not> line_end x) cs)
      else c # strip_comments cs)"
  by pat_completeness auto
termination
proof (relation "measure length")
  fix c :: char and cs :: string
  show "(dropWhile (\<lambda>x. \<not> line_end x) cs, c # cs) \<in> measure length"
    using length_dropWhile_le [of "\<lambda>x. \<not> line_end x" cs] by (simp add: less_Suc_eq_le)
qed simp_all

definition isGitCommitCommand :: "string \<Rightarrow> bool" where
  "isGitCommitCommand command \<longleftrightarrow>
    command \<noteq> [] \<and> GIT_COMMIT_RE (strip_comments (strip_quoted command))"

section \<open>The output\<close>

definition is_lower_hex :: "char \<Rightarrow> bool" where
  "is_lower_hex c \<longleftrightarrow> is_digit c \<or> in_range CHR ''a'' CHR ''f'' c"

text \<open>\<open>([a-f0-9]{7,40})\]\<close> at the start.\<close>

definition sha_close :: "string \<Rightarrow> string option" where
  "sha_close s =
    (let h = takeWhile is_lower_hex s in
     if 7 \<le> length h \<and> length h \<le> 40 \<and> starts_with (drop (length h) s) '']'' then Some h else None)"

definition after_blanks :: "string \<Rightarrow> string option" where
  "after_blanks s = (if s \<noteq> [] \<and> is_space (hd s) then Some (dropWhile is_space s) else None)"

definition commit_tail :: "string \<Rightarrow> string option" where
  "commit_tail s =
    (case after_blanks s of
       None \<Rightarrow> None
     | Some a \<Rightarrow>
         if starts_with a ''(root-commit)'' then
           (case after_blanks (drop 13 a) of None \<Rightarrow> None | Some b \<Rightarrow> sha_close b)
         else sha_close a)"

text \<open>The branch is the shortest nonempty text of one line that a tail follows.\<close>

fun branch_scan :: "string \<Rightarrow> string \<Rightarrow> (string \<times> string) option" where
  "branch_scan acc [] = None"
| "branch_scan acc (c # cs) =
     (case (if acc = [] then None else commit_tail (c # cs)) of
        Some h \<Rightarrow> Some (acc, h)
      | None \<Rightarrow> if line_end c then None else branch_scan (acc @ [c]) cs)"

record commit_info =
  ci_sha :: string
  ci_branch :: string

fun COMMIT_OUTPUT_RE :: "string \<Rightarrow> (string \<times> string) option" where
  "COMMIT_OUTPUT_RE [] = None"
| "COMMIT_OUTPUT_RE (c # cs) =
     (case (if c = CHR ''['' then branch_scan [] cs else None) of
        Some m \<Rightarrow> Some m | None \<Rightarrow> COMMIT_OUTPUT_RE cs)"

definition extractCommitInfo :: "string \<Rightarrow> commit_info option" where
  "extractCommitInfo stdout =
    map_option (\<lambda>(b, h). \<lparr>ci_sha = h, ci_branch = b\<rparr>) (COMMIT_OUTPUT_RE stdout)"

section \<open>Flags\<close>

text \<open>\<open>\bgit\s+commit\b\<close> anywhere: what follows each occurrence.\<close>

fun commit_occurrences :: "char option \<Rightarrow> string \<Rightarrow> string list" where
  "commit_occurrences before [] = []"
| "commit_occurrences before (c # cs) =
     (case (if boundary before (c # cs) then git_commit_at (c # cs) else None) of
        None \<Rightarrow> [] | Some r \<Rightarrow> [r])
     @ commit_occurrences (Some c) cs"

definition usesNoVerify :: "string \<Rightarrow> bool" where
  "usesNoVerify command \<longleftrightarrow>
    list_ex (\<lambda>r. includes_str (takeWhile (\<lambda>c. c \<noteq> CHR '';'' \<and> c \<noteq> CHR ''|'' \<and> c \<noteq> CHR ''&'') r) ''--no-verify'')
      (commit_occurrences None command)"

section \<open>Facts\<close>

lemma takeWhile_lower_hex: "list_all is_lower_hex h \<Longrightarrow> takeWhile is_lower_hex (h @ CHR '']'' # r) = h"
  by (induction h) (auto simp: is_lower_hex_def is_digit_def in_range_def)

lemma hex_not_blank: "is_lower_hex c \<Longrightarrow> \<not> is_space c"
  by (auto simp: is_lower_hex_def is_digit_def is_space_def in_range_def)

lemma sha_close_hex:
  "list_all is_lower_hex h \<Longrightarrow> 7 \<le> length h \<Longrightarrow> length h \<le> 40 \<Longrightarrow> sha_close (h @ CHR '']'' # r) = Some h"
  by (simp add: sha_close_def takeWhile_lower_hex Let_def starts_with_def)

lemma commit_tail_hex:
  assumes "list_all is_lower_hex h" "7 \<le> length h" "length h \<le> 40"
  shows "commit_tail (CHR '' '' # h @ CHR '']'' # r) = Some h"
proof -
  obtain c cs where h: "h = c # cs" using assms(2) by (cases h) auto
  then have c: "\<not> is_space c" "c \<noteq> CHR ''(''"
    using assms(1) hex_not_blank by (auto simp: is_lower_hex_def is_digit_def in_range_def)
  then have "after_blanks (CHR '' '' # h @ CHR '']'' # r) = Some (h @ CHR '']'' # r)"
    by (simp add: after_blanks_def h is_space_def)
  then show ?thesis
    using c sha_close_hex [OF assms] by (simp add: commit_tail_def h starts_with_def)
qed

text \<open>What \<open>git\<close> prints for a commit on a branch without blanks is read back.\<close>

lemma branch_scan_word:
  assumes "\<forall>c \<in> set b. \<not> is_space c" "acc @ b \<noteq> []" and h: "list_all is_lower_hex h" "7 \<le> length h" "length h \<le> 40"
  shows "branch_scan acc (b @ CHR '' '' # h @ CHR '']'' # r) = Some (acc @ b, h)"
  using assms(1,2)
proof (induction b arbitrary: acc)
  case Nil
  then show ?case by (simp add: commit_tail_hex [OF h])
next
  case (Cons c b)
  then have "\<not> is_space c" by simp
  then have "commit_tail (c # b @ CHR '' '' # h @ CHR '']'' # r) = None" "\<not> line_end c"
    by (auto simp: commit_tail_def after_blanks_def line_end_def is_space_def in_range_def)
  with Cons.IH [of "acc @ [c]"] Cons.prems(1) show ?case by (cases "acc = []") simp_all
qed

lemma extract_printed:
  assumes "b \<noteq> []" "\<forall>c \<in> set b. \<not> is_space c" "list_all is_lower_hex h" "7 \<le> length h" "length h \<le> 40"
  shows "extractCommitInfo (CHR ''['' # b @ CHR '' '' # h @ CHR '']'' # r) = Some \<lparr>ci_sha = h, ci_branch = b\<rparr>"
  using branch_scan_word [OF assms(2), of "[]" h r] assms
  by (simp add: extractCommitInfo_def)

lemma extract_sha_length: "extractCommitInfo s = Some i \<Longrightarrow> length (ci_sha i) \<le> 40 \<and> 7 \<le> length (ci_sha i)"
proof -
  have tail: "commit_tail t = Some h \<Longrightarrow> length h \<le> 40 \<and> 7 \<le> length h" for t h
    by (auto simp: commit_tail_def sha_close_def Let_def split: option.splits if_splits)
  have scan: "branch_scan acc t = Some (b, h) \<Longrightarrow> length h \<le> 40 \<and> 7 \<le> length h" for acc t b h
    by (induction acc t rule: branch_scan.induct) (auto split: option.splits if_splits dest: tail)
  have "COMMIT_OUTPUT_RE t = Some (b, h) \<Longrightarrow> length h \<le> 40 \<and> 7 \<le> length h" for t b h
    by (induction t) (auto split: option.splits if_splits dest: scan)
  then show "extractCommitInfo s = Some i \<Longrightarrow> ?thesis"
    by (auto simp: extractCommitInfo_def)
qed

end
