(* ===== verification/CommitAttestor.thy ===== *)
theory CommitAttestor
  imports SigningProxy Intoto CommitDetector JsonlStore PolicyLoader
begin

text \<open>
  Attestations of commits, \<^verbatim>\<open>packages/agents/src/claude-code/commit-attestor.ts\<close>. The state is the
  directory of attestations with its index and failure log, the git notes written, and the local
  keyring. An attestor environment holds the clock, the tool's version and which writes and
  \<open>git notes\<close> calls succeed. The stack traces of the failure log and file modes are not modelled.
\<close>

record commit_env =
  cm_proxy :: proxy_env
  cm_log :: log_env
  cm_legacy_key :: "string option"
  cm_now :: string
  cm_version :: string
  cm_intoto :: bool
  cm_write_ok :: "string \<Rightarrow> bool"
  cm_note_ok :: "string \<Rightarrow> bool"

record attestation_failure =
  af_stage :: string
  af_commit_sha :: "string option"
  af_branch :: "string option"
  af_session_id :: string
  af_message :: string

record commit_store =
  cw_keyring :: files
  cw_files :: files
  cw_index :: string
  cw_failures :: "attestation_failure list"
  cw_notes :: "(string \<times> string \<times> string) list"

section \<open>Names of commits\<close>

definition any_hex :: "char \<Rightarrow> bool" where
  "any_hex c \<longleftrightarrow> is_hex c \<or> in_range CHR ''A'' CHR ''F'' c"

definition COMMIT_SHA_RE :: "string \<Rightarrow> bool" where
  "COMMIT_SHA_RE s \<longleftrightarrow> list_all any_hex s \<and> (length s = 40 \<or> length s = 64)"

definition assertCommitSha :: "string \<Rightarrow> unit result" where
  "assertCommitSha commitSha =
    (if COMMIT_SHA_RE commitSha then Inr ()
     else Inl (Thrown (''commit_sha must match /^[0-9a-f]{40,64}$/ (got ''
                 @ take 80 (quote_json commitSha) @ '')'')))"

section \<open>What a session did\<close>

definition event_level :: "json \<Rightarrow> string option" where
  "event_level ev = member_of ev ''risk'' ''level''"

definition event_denied :: "json \<Rightarrow> bool" where
  "event_denied ev \<longleftrightarrow> string_member ev ''status'' = Some ''denied''"

text \<open>The loop adds to six counters, each by a condition of its own.\<close>

definition computeRiskSummary :: "json list \<Rightarrow> risk_summary" where
  "computeRiskSummary events =
    (let count = (\<lambda>l. length (filter (\<lambda>ev. event_level ev = Some l) events)) in
     \<lparr>rs_critical = count ''critical'', rs_high = count ''high'', rs_medium = count ''medium'',
      rs_low = count ''low'', rs_none = count ''none'',
      rs_denials = length (filter event_denied events),
      rs_denials_high_risk_since_last_commit = 0\<rparr>)"

definition high_risk_denial :: "json \<Rightarrow> bool" where
  "high_risk_denial ev \<longleftrightarrow>
    event_denied ev \<and> (event_level ev = Some ''critical'' \<or> event_level ev = Some ''high'')"

definition countHighRiskDenials :: "json list \<Rightarrow> nat" where
  "countHighRiskDenials events = length (filter high_risk_denial events)"

definition commit_event :: "json \<Rightarrow> bool" where
  "commit_event ev \<longleftrightarrow>
    string_member ev ''action'' = Some ''command_execute''
    \<and> member_of ev ''provenance'' ''tool_name'' = Some ''Bash''
    \<and> (case member_of ev ''target'' ''command'' of
         None \<Rightarrow> False | Some c \<Rightarrow> commit_occurrences None c \<noteq> [])"

text \<open>The index of the last commit event, \<open>None\<close> for -1.\<close>

fun last_commit_below :: "json list \<Rightarrow> nat \<Rightarrow> nat option" where
  "last_commit_below events 0 = None"
| "last_commit_below events (Suc i) =
     (if commit_event (events ! i) then Some i else last_commit_below events i)"

definition findLastCommitEventIndex :: "json list \<Rightarrow> nat option" where
  "findLastCommitEventIndex events = last_commit_below events (length events)"

definition priorEvents :: "json list \<Rightarrow> json list" where
  "priorEvents sessionEvents = (if sessionEvents \<noteq> [] then butlast sessionEvents else sessionEvents)"

definition sinceLastCommitEvents :: "json list \<Rightarrow> json list" where
  "sinceLastCommitEvents sessionEvents =
    (let prior = priorEvents sessionEvents in
     case findLastCommitEventIndex prior of None \<Rightarrow> prior | Some i \<Rightarrow> drop (i + 1) prior)"

definition default_options :: verify_options where
  "default_options = \<lparr>vo_strict = False, vo_requireChainProtected = False\<rparr>"

definition chain_tip :: "json list \<Rightarrow> string option" where
  "chain_tip events =
    (if events = [] then None else str_or (string_member (last events) ''event_hash'') None)"

section \<open>The attestation\<close>

definition unsigned_attestation ::
  "commit_env \<Rightarrow> string \<Rightarrow> string \<Rightarrow> string \<Rightarrow> string \<Rightarrow> string \<Rightarrow> json list \<Rightarrow> commit_attestation" where
  "unsigned_attestation e commitSha branch sessionId projectRoot policySource events =
    (let chain = verifyEventHashes (hash_env_of (cm_log e)) default_options events;
         since = sinceLastCommitEvents events; denials = countHighRiskDenials since;
         reasons = (if ei_valid chain then [] else [''chain_integrity_failure''])
           @ (if denials > 0 then [''high_risk_denials_since_last_commit''] else [])
           @ (if events = [] then [''no_session_events''] else [])
     in \<lparr>ca_generated_at = cm_now e, ca_tool_version = cm_version e, ca_commit_sha = commitSha,
         ca_branch = branch, ca_project_root = projectRoot, ca_session_id = sessionId,
         ca_session_events_count = length events, ca_session_events_since_last_commit = length since,
         ca_chain_tip_hash = chain_tip events, ca_chain_valid = ei_valid chain,
         ca_chain_chained_events = int (ei_total chain) - int (ei_unhashed_count chain),
         ca_risk_summary = (computeRiskSummary events)
           \<lparr>rs_denials_high_risk_since_last_commit := denials\<rparr>,
         ca_policy_source = policySource, ca_pass = (reasons = []), ca_failure_reasons = reasons,
         ca_payload_hash = None, ca_signature = None, ca_key_id = None, ca_signature_source = None\<rparr>)"

definition source_name :: "signer \<Rightarrow> string" where
  "source_name s = (case s of Relay \<Rightarrow> ''relay'' | Local \<Rightarrow> ''local'')"

text \<open>The proxy's signature, else the legacy key's, else none.\<close>

definition sign_attestation ::
  "commit_env \<Rightarrow> commit_attestation \<Rightarrow> files \<Rightarrow> files \<times> commit_attestation" where
  "sign_attestation e a dir =
    (let payloadStr = buildAttestationPayload (attestation_members a); sg = px_sign (cm_proxy e);
         b = a\<lparr>ca_payload_hash := Some (hashAttestationPayload sg payloadStr)\<rparr>;
         r = requestSignature (cm_proxy e) None None payloadStr dir
     in (fst r,
         case snd r of
           Inr s \<Rightarrow> b\<lparr>ca_signature := Some (sg_signature s), ca_key_id := Some (sg_key_id s),
                      ca_signature_source := Some (source_name (sg_source s))\<rparr>
         | Inl x \<Rightarrow>
             (case readSealKey ''seal.key'' (cm_legacy_key e) of
                Inr key \<Rightarrow> b\<lparr>ca_signature := Some (signAttestation sg payloadStr key),
                             ca_signature_source := Some ''legacy''\<rparr>
              | Inl y \<Rightarrow> b\<lparr>ca_signature := Some ''unsigned''\<rparr>)))"

text \<open>The session's events are a parameter here: a store that throws gives none.\<close>

definition generateCommitAttestation ::
  "commit_env \<Rightarrow> loader_env \<Rightarrow> string \<Rightarrow> string \<Rightarrow> string \<Rightarrow> string \<Rightarrow> json list result \<Rightarrow> files
   \<Rightarrow> files \<times> commit_attestation result" where
  "generateCommitAttestation e ld commitSha branch sessionId projectRoot found dir =
    (let events = (case found of Inl x \<Rightarrow> [] | Inr evs \<Rightarrow> evs) in
     case loadActivePolicy ld (Some projectRoot) of
       Inl x \<Rightarrow> (dir, Inl x)
     | Inr (p, policySource) \<Rightarrow>
         (let r = sign_attestation e
                (unsigned_attestation e commitSha branch sessionId projectRoot policySource events) dir
          in (fst r, Inr (snd r))))"

section \<open>Writing it\<close>

text \<open>\<open>JSON.stringify(v, null, 2)\<close>, at an indentation.\<close>

definition json_break :: "nat \<Rightarrow> string" where
  "json_break n = newline # replicate n (CHR '' '')"

fun stringify_indented :: "nat \<Rightarrow> json \<Rightarrow> string" where
  "stringify_indented n (JArr vs) =
     (if vs = [] then ''[]''
      else ''['' @ json_break (n + 2)
        @ join ('','' @ json_break (n + 2)) (map (stringify_indented (n + 2)) vs) @ json_break n @ '']'')"
| "stringify_indented n (JObj ms) =
     (if ms = [] then [CHR 0x7B, CHR 0x7D]
      else CHR 0x7B # json_break (n + 2)
        @ join ('','' @ json_break (n + 2))
            (map (\<lambda>m. quote_json (fst m) @ '': '' @ stringify_indented (n + 2) (snd m)) ms)
        @ json_break n @ [CHR 0x7D])"
| "stringify_indented n v = stringify v"

definition put_file ::
  "commit_env \<Rightarrow> string \<Rightarrow> string \<Rightarrow> commit_store \<Rightarrow> commit_store \<times> unit result" where
  "put_file e name content w =
    (if cm_write_ok e name then (w\<lparr>cw_files := obj_set name content (cw_files w)\<rparr>, Inr ())
     else (w, Inl (Thrown (''EACCES: '' @ name))))"

definition index_line :: "commit_attestation \<Rightarrow> string" where
  "index_line a =
    stringify (JObj
      ([(''commit_sha'', JStr (ca_commit_sha a)), (''branch'', JStr (ca_branch a)),
        (''session_id'', JStr (ca_session_id a)), (''pass'', JBool (ca_pass a)),
        (''generated_at'', JStr (ca_generated_at a))]
       @ (case ca_payload_hash a of None \<Rightarrow> [] | Some h \<Rightarrow> [(''payload_hash'', JStr h)])))
    @ [newline]"

definition writeCommitAttestation ::
  "commit_env \<Rightarrow> commit_attestation \<Rightarrow> commit_store \<Rightarrow> commit_store \<times> unit result" where
  "writeCommitAttestation e a w =
    (case assertCommitSha (ca_commit_sha a) of
       Inl x \<Rightarrow> (w, Inl x)
     | Inr u \<Rightarrow>
         (let r = put_file e (ca_commit_sha a @ ''.json'')
                (stringify_indented 0 (JObj (attestation_members a)) @ [newline]) w
          in case snd r of
               Inl x \<Rightarrow> (fst r, Inl x)
             | Inr v \<Rightarrow>
                 if cm_write_ok e ''index.jsonl''
                 then ((fst r)\<lparr>cw_index := cw_index (fst r) @ index_line a\<rparr>, Inr ())
                 else (fst r, Inl (Thrown ''EACCES: index.jsonl''))))"

section \<open>Notes\<close>

definition num_text :: "nat \<Rightarrow> string" where
  "num_text n = print_int (int n)"

definition note_lines :: "commit_attestation \<Rightarrow> string list" where
  "note_lines a =
    (let r = ca_risk_summary a in
     [''Patchwork-Approved: '' @ (case ca_payload_hash a of None \<Rightarrow> ''undefined'' | Some h \<Rightarrow> h),
      ''Status: '' @ (if ca_pass a then ''PASS'' else ''FAIL''),
      ''Session: '' @ ca_session_id a,
      ''Chain: '' @ (if ca_chain_valid a then ''valid'' else ''INVALID'') @ '' (''
        @ print_int (ca_chain_chained_events a) @ '' events, tip: ''
        @ (case str_or (ca_chain_tip_hash a) None of None \<Rightarrow> ''none'' | Some h \<Rightarrow> h) @ '')'',
      ''Risk: '' @ num_text (rs_critical r) @ '' critical, '' @ num_text (rs_high r) @ '' high, ''
        @ num_text (rs_medium r) @ '' medium'',
      ''Denials: '' @ num_text (rs_denials r) @ '' total, ''
        @ num_text (rs_denials_high_risk_since_last_commit r) @ '' high-risk since last commit'',
      ''Policy: '' @ ca_policy_source a]
     @ (if ca_failure_reasons a \<noteq> [] then [''Failures: '' @ join '', '' (ca_failure_reasons a)] else []))"

text \<open>\<open>git notes --ref=... add -f\<close> replaces the note of that commit.\<close>

definition git_note ::
  "commit_env \<Rightarrow> string \<Rightarrow> string \<Rightarrow> string \<Rightarrow> commit_store \<Rightarrow> commit_store \<times> unit result" where
  "git_note e ref body sha w =
    (if cm_note_ok e ref
     then (w\<lparr>cw_notes := (ref, sha, body)
              # filter (\<lambda>n. \<not> (fst n = ref \<and> fst (snd n) = sha)) (cw_notes w)\<rparr>, Inr ())
     else (w, Inl (Thrown ''Command failed: git notes'')))"

definition addGitNote ::
  "commit_env \<Rightarrow> commit_attestation \<Rightarrow> commit_store \<Rightarrow> commit_store \<times> unit result" where
  "addGitNote e a w =
    (case assertCommitSha (ca_commit_sha a) of
       Inl x \<Rightarrow> (w, Inl x)
     | Inr u \<Rightarrow> git_note e ''patchwork'' (join [newline] (note_lines a)) (ca_commit_sha a) w)"

section \<open>Envelopes\<close>

text \<open>\<open>Buffer.from(hex, "hex")\<close> stops at the first pair that is not hexadecimal.\<close>

definition any_hex_val :: "char \<Rightarrow> nat" where
  "any_hex_val c =
    (let n = of_char c in if n < 58 then n - 48 else if n < 71 then n - 55 else n - 87)"

fun hex_bytes :: "string \<Rightarrow> string" where
  "hex_bytes (a # b # r) =
     (if any_hex a \<and> any_hex b then char_of (any_hex_val a * 16 + any_hex_val b) # hex_bytes r else [])"
| "hex_bytes r = []"

definition bare_hex :: "string \<Rightarrow> string" where
  "bare_hex s = (if starts_with s ''hmac-sha256:'' then drop 12 s else s)"

definition buildIntotoEnvelope ::
  "commit_env \<Rightarrow> commit_attestation \<Rightarrow> files \<Rightarrow> files \<times> dsse_envelope result" where
  "buildIntotoEnvelope e a dir =
    (let statement = buildInTotoStatement a;
         r = requestSignature (cm_proxy e) None None
               (dssePAE DSSE_PAYLOAD_TYPE (canonical_statement statement)) dir
     in (fst r,
         buildDsseEnvelope statement (\<lambda>pae. bind_result (snd r) (\<lambda>s.
           Inr (sg_key_id s, base64 (hex_bytes (bare_hex (sg_signature s))))))))"

definition envelope_json :: "dsse_envelope \<Rightarrow> json" where
  "envelope_json v = JObj
    [(''payloadType'', JStr (de_payloadType v)), (''payload'', JStr (de_payload v)),
     (''signatures'', JArr (map (\<lambda>s. JObj [(''keyid'', JStr (ds_keyid s)), (''sig'', JStr (ds_sig s))])
        (de_signatures v)))]"

definition writeIntotoEnvelope ::
  "commit_env \<Rightarrow> string \<Rightarrow> dsse_envelope \<Rightarrow> commit_store \<Rightarrow> commit_store \<times> unit result" where
  "writeIntotoEnvelope e commitSha v w =
    (case assertCommitSha commitSha of
       Inl x \<Rightarrow> (w, Inl x)
     | Inr u \<Rightarrow> put_file e (commitSha @ ''.intoto.json'')
                 (stringify_indented 0 (envelope_json v) @ [newline]) w)"

definition addIntotoGitNote ::
  "commit_env \<Rightarrow> string \<Rightarrow> dsse_envelope \<Rightarrow> commit_store \<Rightarrow> commit_store \<times> unit result" where
  "addIntotoGitNote e commitSha v w =
    (case assertCommitSha commitSha of
       Inl x \<Rightarrow> (w, Inl x)
     | Inr u \<Rightarrow> git_note e ''patchwork-intoto'' (stringify (envelope_json v)) commitSha w)"

text \<open>Reading: a malformed name throws, a missing or unreadable file is null.\<close>

definition read_attested_file ::
  "commit_env \<Rightarrow> string \<Rightarrow> string \<Rightarrow> commit_store \<Rightarrow> json option result" where
  "read_attested_file e suffix commitSha w =
    bind_result (assertCommitSha commitSha) (\<lambda>u.
      Inr (case map_of (cw_files w) (commitSha @ suffix) of
             None \<Rightarrow> None | Some text \<Rightarrow> lg_parse (cm_log e) text))"

definition readIntotoEnvelope :: "commit_env \<Rightarrow> string \<Rightarrow> commit_store \<Rightarrow> json option result" where
  "readIntotoEnvelope e = read_attested_file e ''.intoto.json''"

definition readCommitAttestation :: "commit_env \<Rightarrow> string \<Rightarrow> commit_store \<Rightarrow> json option result" where
  "readCommitAttestation e = read_attested_file e ''.json''"

section \<open>Failures\<close>

definition writeAttestationFailure ::
  "commit_env \<Rightarrow> string \<Rightarrow> commit_info option \<Rightarrow> string \<Rightarrow> js_error \<Rightarrow> commit_store \<Rightarrow> commit_store" where
  "writeAttestationFailure e stage info sessionId err w =
    (if cm_write_ok e ''_failures.jsonl''
     then w\<lparr>cw_failures := cw_failures w @
       [\<lparr>af_stage = stage, af_commit_sha = map_option ci_sha info, af_branch = map_option ci_branch info,
         af_session_id = sessionId, af_message = error_text err\<rparr>]\<rparr>
     else w)"

end
