(* ===== verification/CommitHook.thy ===== *)
theory CommitHook
  imports CommitAttestor AuditEvents
begin

text \<open>
  The last part of the hook after a tool, \<open>handlePostToolUse\<close> of
  \<^verbatim>\<open>packages/agents/src/claude-code/adapter.ts\<close>: recognising a commit and attesting it.
\<close>

section \<open>The session's events\<close>

text \<open>What the store holds after these events were appended to an empty log.\<close>

fun stored_from :: "log_env \<Rightarrow> string option \<Rightarrow> audit_event list \<Rightarrow> json list" where
  "stored_from e h [] = []"
| "stored_from e h (ev # evs) =
     (let j = chained e h (event_json ev) in j # stored_from e (string_member j ''event_hash'') evs)"

definition by_session :: "string \<Rightarrow> event_filter" where
  "by_session sid =
    \<lparr>ef_agent = None, ef_action = None, ef_minRisk = None, ef_sessionId = Some sid, ef_since = None,
     ef_targetGlob = None, ef_projectName = None, ef_limit = 0\<rparr>"

definition session_query :: "log_env \<Rightarrow> bool \<Rightarrow> string \<Rightarrow> audit_event list \<Rightarrow> json list result" where
  "session_query e readable sid evs =
    (if readable then Inr (matching (by_session sid) (stored_from e None evs))
     else Inl (Thrown ''store read failed''))"

section \<open>The step\<close>

text \<open>\<open>stdout || output || content || ""\<close>, where that is a string.\<close>

definition commit_stdout :: "json option \<Rightarrow> string option" where
  "commit_stdout r =
    (let f = (\<lambda>k. case r of None \<Rightarrow> None | Some v \<Rightarrow> json_get v k);
         pick = (if truthy_json (f ''stdout'') then f ''stdout''
                 else if truthy_json (f ''output'') then f ''output''
                 else if truthy_json (f ''content'') then f ''content'' else Some (JStr []))
     in asString pick)"

definition note_or_failure ::
  "commit_env \<Rightarrow> commit_info \<Rightarrow> string \<Rightarrow> commit_store \<times> unit result \<Rightarrow> commit_store" where
  "note_or_failure e info sid r =
    (case snd r of
       Inr u \<Rightarrow> fst r | Inl x \<Rightarrow> writeAttestationFailure e ''note'' (Some info) sid x (fst r))"

definition intoto_step ::
  "commit_env \<Rightarrow> commit_info \<Rightarrow> string \<Rightarrow> commit_attestation \<Rightarrow> commit_store \<Rightarrow> commit_store" where
  "intoto_step e info sid a w =
    (let b = buildIntotoEnvelope e a (cw_keyring w); w1 = w\<lparr>cw_keyring := fst b\<rparr> in
     case snd b of
       Inl x \<Rightarrow> writeAttestationFailure e ''generate'' (Some info) sid x w1
     | Inr v \<Rightarrow>
         (let r = writeIntotoEnvelope e (ci_sha info) v w1 in
          case snd r of
            Inl x \<Rightarrow> writeAttestationFailure e ''generate'' (Some info) sid x (fst r)
          | Inr u \<Rightarrow> note_or_failure e info sid (addIntotoGitNote e (ci_sha info) v (fst r))))"

definition feedback_text :: "commit_info \<Rightarrow> string \<Rightarrow> commit_attestation \<Rightarrow> string" where
  "feedback_text info command a =
    ''[Patchwork] Commit '' @ ci_sha info @ '' attested: '' @ (if ca_pass a then ''PASS'' else ''FAIL'')
    @ (if usesNoVerify command then '' (--no-verify detected)'' else [])
    @ '' ('' @ (case ca_payload_hash a of None \<Rightarrow> ''undefined'' | Some h \<Rightarrow> h) @ '')''"

definition attest_commit ::
  "commit_env \<Rightarrow> loader_env \<Rightarrow> hook_input \<Rightarrow> commit_info \<Rightarrow> string \<Rightarrow> json list result \<Rightarrow> commit_store
   \<Rightarrow> commit_store \<times> string option" where
  "attest_commit e ld inp info command found w =
    (let sid = hi_session_id inp;
         g = generateCommitAttestation e ld (ci_sha info) (ci_branch info) sid (hi_cwd inp) found (cw_keyring w);
         w1 = w\<lparr>cw_keyring := fst g\<rparr>;
         failed = (\<lambda>x v. (writeAttestationFailure e ''generate'' (Some info) sid x v, None))
     in case snd g of
          Inl x \<Rightarrow> failed x w1
        | Inr a \<Rightarrow>
            (let r = writeCommitAttestation e a w1 in
             case snd r of
               Inl x \<Rightarrow> failed x (fst r)
             | Inr u \<Rightarrow>
                 (let w2 = note_or_failure e info sid (addGitNote e a (fst r));
                      w3 = (if cm_intoto e then intoto_step e info sid a w2 else w2)
                  in (w3, Some (feedback_text info command a)))))"

definition commit_attestation_step ::
  "commit_env \<Rightarrow> loader_env \<Rightarrow> hook_input \<Rightarrow> string \<Rightarrow> json \<Rightarrow> event_status \<Rightarrow> json list result
   \<Rightarrow> commit_store \<Rightarrow> commit_store \<times> string option" where
  "commit_attestation_step e ld inp toolName toolInput st found w =
    (case asString (json_get toolInput ''command'') of
       None \<Rightarrow> (w, None)
     | Some command \<Rightarrow>
         if toolName = ''Bash'' \<and> st \<noteq> Failed \<and> isGitCommitCommand command then
           (case commit_stdout (hi_tool_response inp) of
              None \<Rightarrow> (w, None)
            | Some out \<Rightarrow>
                (case extractCommitInfo out of
                   Some info \<Rightarrow> attest_commit e ld inp info command found w
                 | None \<Rightarrow>
                     if out = [] then (w, None)
                     else (writeAttestationFailure e ''extract'' None (hi_session_id inp)
                             (Thrown (''extractCommitInfo returned null; stdout head: '' @ take 200 out)) w,
                           None)))
         else (w, None))"

end
