(* ===== verification/CommitProperties.thy ===== *)
theory CommitProperties
  imports CommitHook
begin

text \<open>
  Properties of commit attestations: when one passes, that its signature verifies, what it may
  write, which commits get one, and what a signed envelope says.
\<close>

section \<open>The window before a commit\<close>

lemma last_commit_None:
  "last_commit_below evs n = None \<longleftrightarrow> (\<forall>j < n. \<not> commit_event (evs ! j))"
  by (induction n) (auto simp: less_Suc_eq)

lemma last_commit_Some:
  "last_commit_below evs n = Some i
   \<longleftrightarrow> i < n \<and> commit_event (evs ! i) \<and> (\<forall>j. i < j \<and> j < n \<longrightarrow> \<not> commit_event (evs ! j))"
proof (induction n)
  case (Suc n)
  then show ?case
    by (auto simp: less_Suc_eq)
qed simp

lemma drop_all: "(\<exists>x \<in> set (drop n xs). P x) \<longleftrightarrow> (\<exists>i. n \<le> i \<and> i < length xs \<and> P (xs ! i))"
proof
  assume "\<exists>x \<in> set (drop n xs). P x"
  then obtain k where "k < length (drop n xs)" "P (drop n xs ! k)" by (metis in_set_conv_nth)
  then show "\<exists>i. n \<le> i \<and> i < length xs \<and> P (xs ! i)" by (intro exI [of _ "n + k"]) auto
next
  assume "\<exists>i. n \<le> i \<and> i < length xs \<and> P (xs ! i)"
  then obtain i where "n \<le> i" "i < length xs" "P (xs ! i)" by blast
  then show "\<exists>x \<in> set (drop n xs). P x"
    by (intro bexI [of _ "xs ! i"]) (auto simp: in_set_conv_nth intro!: exI [of _ "i - n"])
qed

lemma since_denials:
  "countHighRiskDenials (sinceLastCommitEvents evs) > 0 \<longleftrightarrow>
   (\<exists>i < length evs - 1. high_risk_denial (evs ! i)
      \<and> (\<forall>j. i \<le> j \<and> j < length evs - 1 \<longrightarrow> \<not> commit_event (evs ! j)))"
proof -
  define prior where "prior = priorEvents evs"
  have len: "length prior = length evs - 1" and nth: "i < length prior \<Longrightarrow> prior ! i = evs ! i" for i
    by (auto simp: prior_def priorEvents_def nth_butlast)
  have cnt: "countHighRiskDenials ds > 0 \<longleftrightarrow> (\<exists>d \<in> set ds. high_risk_denial d)" for ds
    by (auto simp: countHighRiskDenials_def filter_empty_conv)
  obtain n where n: "sinceLastCommitEvents evs = drop n prior"
      "\<And>j. n \<le> j \<Longrightarrow> j < length prior \<Longrightarrow> \<not> commit_event (evs ! j)"
      "\<And>i. i < n \<Longrightarrow> \<exists>j. i \<le> j \<and> j < length prior \<and> commit_event (evs ! j)"
  proof (cases "findLastCommitEventIndex prior")
    case None
    then have "\<forall>j < length prior. \<not> commit_event (evs ! j)"
      using nth by (auto simp: findLastCommitEventIndex_def last_commit_None)
    moreover have "sinceLastCommitEvents evs = drop 0 prior"
      using None by (simp add: sinceLastCommitEvents_def prior_def [symmetric])
    ultimately show ?thesis by (intro that [of 0]) auto
  next
    case (Some k)
    then have "k < length prior" "commit_event (evs ! k)"
        "\<And>j. k < j \<Longrightarrow> j < length prior \<Longrightarrow> \<not> commit_event (evs ! j)"
      using nth by (auto simp: findLastCommitEventIndex_def last_commit_Some)
    moreover have "sinceLastCommitEvents evs = drop (k + 1) prior"
      using Some by (simp add: sinceLastCommitEvents_def prior_def [symmetric])
    ultimately show ?thesis
      by (intro that [of "k + 1"]) (auto simp: less_Suc_eq_le Suc_le_eq)
  qed
  have "(\<exists>i. n \<le> i \<and> i < length prior \<and> high_risk_denial (prior ! i))
      \<longleftrightarrow> (\<exists>i < length prior. high_risk_denial (evs ! i)
            \<and> (\<forall>j. i \<le> j \<and> j < length prior \<longrightarrow> \<not> commit_event (evs ! j)))"
    using n(2,3) nth by (metis le_trans not_le_imp_less)
  then show ?thesis
    by (simp only: cnt n(1) drop_all len)
qed

text \<open>
  An event that is a commit: one the code takes for a commit, of a command that begins with
  \<^verbatim>\<open>git commit\<close> and that completed.
\<close>

definition ran_commit :: "json \<Rightarrow> bool" where
  "ran_commit ev \<longleftrightarrow>
    commit_event ev \<and> string_member ev ''status'' = Some ''completed''
    \<and> (case member_of ev ''target'' ''command'' of None \<Rightarrow> False | Some c \<Rightarrow> starts_with c ''git commit'')"

text \<open>
  C30: in a session in which every event that the code takes for a commit is a commit command that
  completed, an attestation passes exactly when there are events, every stored hash is the hash of
  its event, and every denial of a high or critical action is followed, before the commit at hand,
  by a commit.
\<close>

theorem attestation_passes_iff:
  assumes "generateCommitAttestation e ld sha branch sid root (Inr evs) dir = (dir', Inr a)"
    and "list_all (\<lambda>ev. commit_event ev \<longrightarrow> ran_commit ev) evs"
  shows "ca_pass a \<longleftrightarrow>
    evs \<noteq> [] \<and> ei_valid (verifyEventHashes (hash_env_of (cm_log e)) default_options evs)
    \<and> (\<forall>i < length evs - 1. high_risk_denial (evs ! i)
         \<longrightarrow> (\<exists>j. i < j \<and> j < length evs - 1 \<and> ran_commit (evs ! j)))"
proof -
  obtain src where "ca_pass a = ca_pass (unsigned_attestation e sha branch sid root src evs)"
    using assms(1)
    by (auto simp: generateCommitAttestation_def sign_attestation_def Let_def
        split: sum.splits prod.splits)
  moreover have "ran_commit (evs ! j) \<longleftrightarrow> commit_event (evs ! j)" if "j < length evs - 1" for j
    using assms(2) that by (auto simp: ran_commit_def list_all_length)
  moreover have "\<not> (high_risk_denial ev \<and> ran_commit ev)" for ev
    by (auto simp: high_risk_denial_def event_denied_def ran_commit_def)
  ultimately show ?thesis
    using since_denials [of evs] by (auto simp: unsigned_attestation_def Let_def) (metis le_neq_implies_less)+
qed

section \<open>Its signature\<close>

lemma excluded_extra:
  "buildAttestationPayload (attestation_members
     (a\<lparr>ca_payload_hash := h, ca_signature := s, ca_key_id := k, ca_signature_source := r\<rparr>))
   = buildAttestationPayload (attestation_members a)"
  unfolding payload_eq_iff
  by (subst (1 2) attested_only)
     (simp add: attestation_members_def session_claims_def signing_members_def EXCLUDED_FIELDS_def
       split: option.split)

lemma member_payload_hash:
  "ca_payload_hash a = Some h \<Longrightarrow> map_of (attestation_members a) ''payload_hash'' = Some (JStr h)"
  by (simp add: attestation_members_def session_claims_def signing_members_def)

text \<open>
  What the hook signed with the local keyring verifies: the key that the attestation names can
  be loaded from the keyring, and with it the whole artifact, signature fields included, verifies.
\<close>

theorem attestation_signature_verifies:
  assumes "hex_digest (px_sign (cm_proxy e))"
    and "generateCommitAttestation e ld sha branch sid root found dir = (dir', Inr a)"
    and "ca_signature_source a = Some ''local''"
  shows "\<exists>i key s. ca_key_id a = Some i \<and> ca_signature a = Some s \<and> loadKeyById dir' i = Inr key
    \<and> verifyAttestationArtifact (px_sign (cm_proxy e)) (attestation_members a) s key"
proof -
  obtain u where u: "sign_attestation e u dir = (dir', a)" "ca_signature_source u = None"
    using assms(2)
    by (auto simp: generateCommitAttestation_def Let_def prod_eq_iff unsigned_attestation_def
        split: sum.splits prod.splits)
  let ?p = "buildAttestationPayload (attestation_members u)"
  obtain q where q: "requestSignature (cm_proxy e) None None ?p dir = (dir', q)"
    using u by (cases "requestSignature (cm_proxy e) None None ?p dir")
      (auto simp: sign_attestation_def Let_def)
  obtain s where s: "q = Inr s" "sg_source s = Local"
    and a: "a = u\<lparr>ca_payload_hash := Some (hashAttestationPayload (px_sign (cm_proxy e)) ?p),
      ca_signature := Some (sg_signature s), ca_key_id := Some (sg_key_id s),
      ca_signature_source := Some ''local''\<rparr>"
    using u assms(3) q
    by (cases q) (auto simp: sign_attestation_def Let_def source_name_def split: sum.splits signer.splits)
  from local_signature [OF assms(1) q [unfolded s] s(2)] obtain key
    where "loadKeyById dir' (sg_key_id s) = Inr key" "sg_signature s = signSeal (px_sign (cm_proxy e)) ?p key"
    by blast
  then show ?thesis
    by (simp add: a verifyArtifact_iff excluded_extra member_payload_hash signSeal_def signAttestation_def)
qed

section \<open>What is written\<close>

text \<open>Files and notes are named after whole commit hashes.\<close>

definition safe_name :: "string \<Rightarrow> bool" where
  "safe_name f \<longleftrightarrow> (\<exists>sha. COMMIT_SHA_RE sha \<and> f \<in> {sha @ ''.json'', sha @ ''.intoto.json''})"

definition names_ok :: "commit_store \<Rightarrow> bool" where
  "names_ok w \<longleftrightarrow>
    fst ` set (cw_files w) \<subseteq> {f. safe_name f}
    \<and> (\<forall>n \<in> set (cw_notes w). COMMIT_SHA_RE (fst (snd n)))"

lemma names_ok_keyring [simp]: "names_ok (w\<lparr>cw_keyring := k\<rparr>) = names_ok w"
  by (simp add: names_ok_def)

lemma names_ok_failure [simp]: "names_ok (writeAttestationFailure e stage i sid x w) = names_ok w"
  by (simp add: names_ok_def writeAttestationFailure_def)

lemma names_ok_put:
  "names_ok w \<Longrightarrow> COMMIT_SHA_RE sha \<Longrightarrow> f \<in> {sha @ ''.json'', sha @ ''.intoto.json''}
   \<Longrightarrow> names_ok (fst (put_file e f c w))"
  unfolding put_file_def names_ok_def
  by (simp add: keys_obj_set) (auto simp: safe_name_def)

lemma names_ok_note:
  "names_ok w \<Longrightarrow> COMMIT_SHA_RE sha \<Longrightarrow> names_ok (fst (git_note e ref body sha w))"
  by (auto simp: names_ok_def git_note_def)

lemma assert_sha: "assertCommitSha sha = Inr u \<Longrightarrow> COMMIT_SHA_RE sha"
  by (simp add: assertCommitSha_def split: if_splits)

lemma names_ok_steps:
  assumes "names_ok w"
  shows names_ok_write: "names_ok (fst (writeCommitAttestation e a w))"
    and names_ok_add: "names_ok (fst (addGitNote e a w))"
    and names_ok_envelope: "names_ok (fst (writeIntotoEnvelope e sha v w))"
    and names_ok_intoto_note: "names_ok (fst (addIntotoGitNote e sha v w))"
proof -
  have idx: "names_ok (w'\<lparr>cw_index := x\<rparr>) = names_ok w'" for w' x
    by (simp add: names_ok_def)
  show "names_ok (fst (writeCommitAttestation e a w))"
    using assms names_ok_put [OF assms assert_sha, of "ca_commit_sha a" _ "ca_commit_sha a @ ''.json''" e]
    by (auto simp: writeCommitAttestation_def Let_def idx split: sum.split)
  show "names_ok (fst (addGitNote e a w))"
    using assms by (auto simp: addGitNote_def dest: assert_sha intro: names_ok_note split: sum.split)
  show "names_ok (fst (writeIntotoEnvelope e sha v w))"
    using assms by (auto simp: writeIntotoEnvelope_def dest: assert_sha intro: names_ok_put split: sum.split)
  show "names_ok (fst (addIntotoGitNote e sha v w))"
    using assms by (auto simp: addIntotoGitNote_def dest: assert_sha intro: names_ok_note split: sum.split)
qed

lemma names_ok_note_or_failure: "names_ok (fst r) \<Longrightarrow> names_ok (note_or_failure e i sid r)"
  by (simp add: note_or_failure_def split: sum.split)

lemma names_ok_intoto: "names_ok w \<Longrightarrow> names_ok (intoto_step e i sid a w)"
  unfolding intoto_step_def Let_def
  by (auto split: sum.split intro!: names_ok_note_or_failure names_ok_intoto_note)
    (metis names_ok_keyring names_ok_envelope fst_conv)+

lemma names_ok_attest: "names_ok w \<Longrightarrow> names_ok (fst (attest_commit e ld inp i c found w))"
  unfolding attest_commit_def Let_def
  by (auto split: sum.split intro!: names_ok_note_or_failure names_ok_intoto names_ok_add
      names_ok_write)

text \<open>
  Whatever a command printed, the step after a tool writes files and git notes only under names
  that are whole commit hashes, so nothing printed by a command becomes a path or an option.
\<close>

theorem attested_names_safe:
  assumes "names_ok w"
  shows "names_ok (fst (commit_attestation_step e ld inp toolName toolInput st found w))"
  using assms names_ok_attest
  by (auto simp: commit_attestation_step_def split: option.split)

text \<open>
  A commit that git reports by an abbreviated hash, its default, is not attested: there is no
  feedback, and no attestation, index entry or note is written.
\<close>

theorem abbreviated_commit_unattested:
  assumes "commit_stdout (hi_tool_response inp) = Some out" "extractCommitInfo out = Some i"
    and "length (ci_sha i) < 40"
    and "commit_attestation_step e ld inp toolName toolInput st found w = (w', feedback)"
  shows "feedback = None \<and> cw_files w' = cw_files w \<and> cw_index w' = cw_index w \<and> cw_notes w' = cw_notes w"
proof -
  obtain x where bad: "assertCommitSha (ci_sha i) = Inl x"
    using assms(3) by (auto simp: assertCommitSha_def COMMIT_SHA_RE_def)
  have "ca_commit_sha (snd (sign_attestation e u dir)) = ca_commit_sha u" for u dir
    by (simp add: sign_attestation_def Let_def split: sum.split)
  moreover have "ca_commit_sha (unsigned_attestation e sha b sid root src evs) = sha" for sha b sid root src evs
    by (simp add: unsigned_attestation_def Let_def)
  ultimately have sha: "ca_commit_sha a = sha"
    if "snd (generateCommitAttestation e ld sha b sid root q dir) = Inr a" for sha b sid root q dir a
    using that
    by (auto simp: generateCommitAttestation_def Let_def split: sum.splits)
  have refused: "writeCommitAttestation e a v = (v, Inl x)" if "ca_commit_sha a = ci_sha i" for a v
    using that bad by (simp add: writeCommitAttestation_def)
  have failure: "cw_files (writeAttestationFailure e st q sid y v) = cw_files v"
      "cw_index (writeAttestationFailure e st q sid y v) = cw_index v"
      "cw_notes (writeAttestationFailure e st q sid y v) = cw_notes v" for st q sid y v
    by (simp_all add: writeAttestationFailure_def)
  let ?g = "generateCommitAttestation e ld (ci_sha i) (ci_branch i) (hi_session_id inp) (hi_cwd inp)
    found (cw_keyring w)"
  have attest: "f = None \<and> cw_files v = cw_files w \<and> cw_index v = cw_index w \<and> cw_notes v = cw_notes w"
    if "attest_commit e ld inp i c found w = (v, f)" for c v f
  proof (cases "snd ?g")
    case (Inl y)
    then show ?thesis using that by (auto simp: attest_commit_def Let_def failure)
  next
    case (Inr a)
    with that refused [OF sha [OF Inr]] show ?thesis
      by (auto simp: attest_commit_def Let_def failure)
  qed
  show ?thesis
  proof (cases "attest_commit e ld inp i (the (asString (json_get toolInput ''command''))) found w")
    case (Pair v f)
    with attest [OF Pair] assms(1,2,4) show ?thesis
      by (auto simp: commit_attestation_step_def split: option.splits if_splits)
  qed
qed

section \<open>Concrete commits\<close>

text \<open>No policy file anywhere; no relay; a digest that is always the same.\<close>

definition bare_loader :: loader_env where
  "bare_loader = \<lparr>le_default_path = ''/etc/p.yml'', le_override = None, le_test_env = False,
     le_home = ''/h'', le_stat = (\<lambda>p. None), le_exists = (\<lambda>p. False), le_parse = (\<lambda>p. None)\<rparr>"

definition zero_sign :: sign_env where
  "zero_sign = \<lparr>sg_sha = (\<lambda>s. replicate 64 (CHR ''0'')), sg_hmac = (\<lambda>k s. ''ab'')\<rparr>"

definition sample_commit_env :: commit_env where
  "sample_commit_env =
    \<lparr>cm_proxy = \<lparr>px_sign = zero_sign, px_socket_path = ''relay.sock'', px_socket = False,
        px_send_sign = (\<lambda>p k. Inl RangeError), px_send_verify = (\<lambda>p s k. Inl RangeError),
        px_require_env = False, px_random = ''r'', px_now = ''t''\<rparr>,
     cm_log = \<lparr>lg_sha = (\<lambda>s. replicate 64 (CHR ''0'')), lg_datetime = (\<lambda>s. True), lg_parse = (\<lambda>s. None)\<rparr>,
     cm_legacy_key = None, cm_now = ''t'', cm_version = ''1'', cm_intoto = True,
     cm_write_ok = (\<lambda>f. True), cm_note_ok = (\<lambda>r. True)\<rparr>"

definition sample_commit_store :: commit_store where
  "sample_commit_store = \<lparr>cw_keyring = [], cw_files = [], cw_index = [], cw_failures = [], cw_notes = []\<rparr>"

definition sample_event :: "string \<Rightarrow> event_status \<Rightarrow> risk_level \<Rightarrow> audit_event" where
  "sample_event command st level =
    \<lparr>ae_id = ''e'', ae_session_id = ''s'', ae_timestamp = ''t'', ae_idempotency_key = None,
     ae_action = ''command_execute'', ae_status = st,
     ae_target = Some ((empty_target ''command'')\<lparr>tg_command := Some command\<rparr>),
     ae_project_root = ''/w'', ae_project_name = ''w'', ae_risk = \<lparr>risk_of = level, risk_flags = []\<rparr>,
     ae_content = None, ae_provenance = Some \<lparr>pv_hook_event = ''PostToolUse'', pv_tool_name = ''Bash''\<rparr>\<rparr>"

text \<open>A denial of a high action, and the commit at hand.\<close>

definition sample_session :: "json list" where
  "sample_session = stored_from (cm_log sample_commit_env) None
    [sample_event ''rm -rf /'' Denied RHigh, sample_event ''git commit'' Completed RLow]"

definition sample_sha :: string where
  "sample_sha = replicate 40 (CHR ''a'')"

definition sample_generated :: "files \<times> commit_attestation result" where
  "sample_generated = generateCommitAttestation sample_commit_env bare_loader sample_sha ''main'' ''s'' ''/w''
     (Inr sample_session) []"

lemma sample_generated_local:
  "case sample_generated of (dir, Inl x) \<Rightarrow> False | (dir, Inr a) \<Rightarrow> ca_signature_source a = Some ''local''"
  by code_simp

lemma sample_denied: "length sample_session = 2 \<and> high_risk_denial (sample_session ! 0) \<and> \<not> commit_event (sample_session ! 0)"
  by code_simp

lemma sample_result:
  obtains dir a where "generateCommitAttestation sample_commit_env bare_loader sample_sha ''main'' ''s'' ''/w''
     (Inr sample_session) [] = (dir, Inr a)" "ca_signature_source a = Some ''local''"
  using sample_generated_local by (auto simp: sample_generated_def split: prod.splits sum.splits)

lemma sample_commits: "list_all (\<lambda>ev. commit_event ev \<longrightarrow> ran_commit ev) sample_session"
  by code_simp

lemma attestation_passes_iff_witness:
  "\<exists>dir a. sample_generated = (dir, Inr a) \<and> \<not> ca_pass a"
proof -
  obtain dir a where g: "generateCommitAttestation sample_commit_env bare_loader sample_sha ''main'' ''s'' ''/w''
     (Inr sample_session) [] = (dir, Inr a)" by (rule sample_result)
  have "\<not> (\<exists>j. 0 < j \<and> j < length sample_session - 1 \<and> ran_commit (sample_session ! j))"
    using sample_denied by auto
  then have "\<not> ca_pass a"
    unfolding attestation_passes_iff [OF g sample_commits] using sample_denied by force
  with g show ?thesis by (simp add: sample_generated_def)
qed

lemma attestation_signature_verifies_witness:
  "\<exists>dir a i key s. sample_generated = (dir, Inr a) \<and> loadKeyById dir i = Inr key
     \<and> verifyAttestationArtifact zero_sign (attestation_members a) s key"
proof -
  obtain dir a where g: "generateCommitAttestation sample_commit_env bare_loader sample_sha ''main'' ''s'' ''/w''
     (Inr sample_session) [] = (dir, Inr a)" "ca_signature_source a = Some ''local''" by (rule sample_result)
  have "hex_digest (px_sign (cm_proxy sample_commit_env))"
    by (simp add: hex_digest_def sample_commit_env_def zero_sign_def list_all_iff is_hex_def is_digit_def in_range_def)
  from attestation_signature_verifies [OF this g] g(1) show ?thesis
    by (auto simp: sample_generated_def sample_commit_env_def)
qed

definition commit_call :: hook_input where
  "commit_call =
    \<lparr>hi_session_id = ''s'', hi_cwd = ''/w'', hi_event_name = ''PostToolUse'', hi_tool_name = Some ''Bash'',
     hi_tool_input = Some (JObj [(''command'', JStr ''git commit -m x'')]),
     hi_tool_response = Some (JObj [(''stdout'', JStr ''[main 1234567] x'')]), hi_tool_use_id = None,
     hi_prompt = None, hi_subagent_type = None\<rparr>"

lemma attested_names_safe_witness:
  "names_ok (fst (commit_attestation_step sample_commit_env bare_loader commit_call ''Bash''
     (JObj [(''command'', JStr ''git commit -m x'')]) Completed (Inr sample_session) sample_commit_store))"
  by (rule attested_names_safe) (simp add: names_ok_def sample_commit_store_def)

lemma abbreviated_commit_unattested_witness:
  "\<exists>w' feedback. commit_attestation_step sample_commit_env bare_loader commit_call ''Bash''
     (JObj [(''command'', JStr ''git commit -m x'')]) Completed (Inr sample_session) sample_commit_store = (w', feedback)
   \<and> feedback = None \<and> cw_files w' = []"
proof -
  obtain w' feedback where step: "commit_attestation_step sample_commit_env bare_loader commit_call ''Bash''
     (JObj [(''command'', JStr ''git commit -m x'')]) Completed (Inr sample_session) sample_commit_store = (w', feedback)"
    by force
  have out: "commit_stdout (hi_tool_response commit_call) = Some ''[main 1234567] x''"
    "extractCommitInfo ''[main 1234567] x'' = Some \<lparr>ci_sha = ''1234567'', ci_branch = ''main''\<rparr>"
    by code_simp+
  from abbreviated_commit_unattested [OF out _ step] step show ?thesis
    by (auto simp: sample_commit_store_def)
qed

end
