(* ===== verification/RelayConfig.thy ===== *)
theory RelayConfig
  imports JsonlStore SealKeyring
begin

text \<open>
  Settings of the relay daemon, \<^verbatim>\<open>packages/core/src/relay/config.ts\<close>, with the conversions of
  JavaScript that the relay applies to values it has not checked: the text of a value in a
  template, and the number a comparison reads. A relay environment holds the parameters:
  \<open>JSON.parse\<close>, the digests, \<open>Number\<close> and \<open>Date\<close> of a text, and the messages of the validator.
\<close>

record relay_env =
  re_log :: log_env
  re_sign :: sign_env
  re_number :: "string \<Rightarrow> int option"
  re_date :: "string \<Rightarrow> int option"
  re_issues :: "json \<Rightarrow> string"

definition relay_parse :: "relay_env \<Rightarrow> string \<Rightarrow> json option" where
  "relay_parse e = lg_parse (re_log e)"

section \<open>Conversions\<close>

lemma map_result_cong [fundef_cong]:
  assumes "xs = ys" and "\<And>x. x \<in> set ys \<Longrightarrow> f x = g x"
  shows "map_result f xs = map_result g ys"
  unfolding assms(1) using assms(2) by (induction ys) (auto intro!: bind_result_cong)

text \<open>
  \<open>String(v)\<close>. An object whose own \<open>toString\<close> is data has no primitive form, since its inherited
  \<open>valueOf\<close> gives the object back.
\<close>

fun js_string :: "json \<Rightarrow> string result" where
  "js_string JNull = Inr ''null''"
| "js_string (JBool b) = Inr (if b then ''true'' else ''false'')"
| "js_string (JNum i) = Inr (print_int i)"
| "js_string (JStr s) = Inr s"
| "js_string (JArr vs) =
     bind_result (map_result (\<lambda>v. if v = JNull then Inr [] else js_string v) vs) (\<lambda>ss. Inr (join '','' ss))"
| "js_string (JObj ms) =
     (if map_of ms ''toString'' = None then Inr ''[object Object]''
      else Inl (TypeError ''Cannot convert object to primitive value''))"

definition js_text :: "json option \<Rightarrow> string result" where
  "js_text v = (case v of None \<Rightarrow> Inr ''undefined'' | Some w \<Rightarrow> js_string w)"

text \<open>The number of a value in a comparison; \<open>None\<close> is NaN, which every comparison refuses.\<close>

definition js_number :: "relay_env \<Rightarrow> json \<Rightarrow> int option result" where
  "js_number e v =
    (case v of
       JNull \<Rightarrow> Inr (Some 0)
     | JBool b \<Rightarrow> Inr (Some (if b then 1 else 0))
     | JNum i \<Rightarrow> Inr (Some i)
     | JStr s \<Rightarrow> Inr (re_number e s)
     | _ \<Rightarrow> bind_result (js_string v) (\<lambda>s. Inr (re_number e s)))"

definition js_less :: "relay_env \<Rightarrow> json \<Rightarrow> int \<Rightarrow> bool result" where
  "js_less e v n =
    bind_result (js_number e v) (\<lambda>x. Inr (case x of None \<Rightarrow> False | Some i \<Rightarrow> i < n))"

section \<open>The settings\<close>

record auto_seal_config =
  ac_enabled :: json
  ac_interval_minutes :: json
  ac_min_events :: json

record witness_config =
  wc_enabled :: json
  wc_endpoints :: "json list"
  wc_quorum :: json

record relay_config =
  rc_auto_seal :: auto_seal_config
  rc_witness :: witness_config
  rc_socket_group :: "string option"

definition DEFAULT_RELAY_CONFIG :: relay_config where
  "DEFAULT_RELAY_CONFIG =
    \<lparr>rc_auto_seal = \<lparr>ac_enabled = JBool True, ac_interval_minutes = JNum 15, ac_min_events = JNum 1\<rparr>,
     rc_witness = \<lparr>wc_enabled = JBool False, wc_endpoints = [], wc_quorum = JNum 1\<rparr>,
     rc_socket_group = None\<rparr>"

text \<open>A member of a spread object, else the default; \<open>v || {}\<close> spreads nothing of other values.\<close>

definition spread :: "json option \<Rightarrow> string \<Rightarrow> json \<Rightarrow> json" where
  "spread v k d =
    (case (case v of None \<Rightarrow> None | Some w \<Rightarrow> json_get w k) of None \<Rightarrow> d | Some x \<Rightarrow> x)"

definition is_endpoint :: "json \<Rightarrow> bool" where
  "is_endpoint v \<longleftrightarrow> string_member v ''url'' \<noteq> None \<and> string_member v ''name'' \<noteq> None"

definition endpoints_of :: "json option \<Rightarrow> json list" where
  "endpoints_of witness =
    (case (case witness of None \<Rightarrow> None | Some w \<Rightarrow> json_get w ''endpoints'') of
       Some (JArr vs) \<Rightarrow> filter is_endpoint vs
     | _ \<Rightarrow> wc_endpoints (rc_witness DEFAULT_RELAY_CONFIG))"

text \<open>\<open>/^[A-Za-z_][A-Za-z0-9_-]{0,31}$/\<close>\<close>

definition GROUP_NAME_RE :: "string \<Rightarrow> bool" where
  "GROUP_NAME_RE s \<longleftrightarrow> s \<noteq> [] \<and> is_alphau (hd s) \<and> length s \<le> 32
     \<and> list_all (\<lambda>c. is_alnumu c \<or> c = CHR ''-'') (tl s)"

definition merged_config :: "json \<Rightarrow> relay_config" where
  "merged_config parsed =
    (let a = json_get parsed ''auto_seal''; w = json_get parsed ''witness'';
         d = DEFAULT_RELAY_CONFIG; da = rc_auto_seal d; dw = rc_witness d
     in \<lparr>rc_auto_seal =
           \<lparr>ac_enabled = spread a ''enabled'' (ac_enabled da),
            ac_interval_minutes = spread a ''interval_minutes'' (ac_interval_minutes da),
            ac_min_events = spread a ''min_events_between_seals'' (ac_min_events da)\<rparr>,
         rc_witness =
           \<lparr>wc_enabled = spread w ''enabled'' (wc_enabled dw), wc_endpoints = endpoints_of w,
            wc_quorum = spread w ''quorum'' (wc_quorum dw)\<rparr>,
         rc_socket_group =
           (case string_member parsed ''socket_group'' of
              Some g \<Rightarrow> if GROUP_NAME_RE g then Some g else None
            | None \<Rightarrow> None)\<rparr>)"

text \<open>A value below its least one becomes that one.\<close>

definition at_least :: "relay_env \<Rightarrow> int \<Rightarrow> json \<Rightarrow> json result" where
  "at_least e n v = bind_result (js_less e v n) (\<lambda>b. Inr (if b then JNum n else v))"

definition clamped :: "relay_env \<Rightarrow> relay_config \<Rightarrow> relay_config result" where
  "clamped e c =
    bind_result (at_least e 1 (ac_interval_minutes (rc_auto_seal c))) (\<lambda>i.
    bind_result (at_least e 0 (ac_min_events (rc_auto_seal c))) (\<lambda>m.
    bind_result (at_least e 1 (wc_quorum (rc_witness c))) (\<lambda>q.
      Inr (c\<lparr>rc_auto_seal := (rc_auto_seal c)\<lparr>ac_interval_minutes := i, ac_min_events := m\<rparr>,
             rc_witness := (rc_witness c)\<lparr>wc_quorum := q\<rparr>\<rparr>))))"

text \<open>The file's text, or none; reading a member of null throws, and every throw gives the default.\<close>

definition loadRelayConfig ::
  "relay_env \<Rightarrow> string \<Rightarrow> string option \<Rightarrow> relay_config \<times> string" where
  "loadRelayConfig e path file =
    (case file of
       None \<Rightarrow> (DEFAULT_RELAY_CONFIG, ''default'')
     | Some raw \<Rightarrow>
         (case (case relay_parse e raw of
                  None \<Rightarrow> Inl (Thrown ''SyntaxError'')
                | Some parsed \<Rightarrow>
                    if parsed = JNull then Inl (TypeError ''Cannot read properties of null'')
                    else clamped e (merged_config parsed)) of
            Inl x \<Rightarrow> (DEFAULT_RELAY_CONFIG, ''default (config parse error)'')
          | Inr c \<Rightarrow> (c, path)))"

section \<open>Facts\<close>

text \<open>A value of a loaded configuration is never a number below its bound.\<close>

definition not_below :: "relay_env \<Rightarrow> json \<Rightarrow> int \<Rightarrow> bool" where
  "not_below e v n \<longleftrightarrow> js_less e v n = Inr False"

lemma not_below_self: "not_below e (JNum n) n"
  by (simp add: not_below_def js_less_def js_number_def)

lemma at_least_ok: "at_least e n v = Inr w \<Longrightarrow> not_below e w n"
  by (auto simp: at_least_def not_below_self result_simps split: if_splits) (simp add: not_below_def)

lemma clamped_ok:
  assumes "clamped e c = Inr d"
  shows "not_below e (ac_interval_minutes (rc_auto_seal d)) 1"
    "not_below e (ac_min_events (rc_auto_seal d)) 0" "not_below e (wc_quorum (rc_witness d)) 1"
    "rc_socket_group d = rc_socket_group c" "wc_endpoints (rc_witness d) = wc_endpoints (rc_witness c)"
  using assms by (auto simp: clamped_def result_simps at_least_ok)

lemma default_ok:
  "not_below e (ac_interval_minutes (rc_auto_seal DEFAULT_RELAY_CONFIG)) 1"
  "not_below e (ac_min_events (rc_auto_seal DEFAULT_RELAY_CONFIG)) 0"
  "not_below e (wc_quorum (rc_witness DEFAULT_RELAY_CONFIG)) 1"
  by (simp_all add: DEFAULT_RELAY_CONFIG_def not_below_def js_less_def js_number_def)

lemma loaded_config:
  obtains "fst (loadRelayConfig e p f) = DEFAULT_RELAY_CONFIG"
  | v c where "clamped e (merged_config v) = Inr c" "loadRelayConfig e p f = (c, p)"
proof (cases "\<exists>v c. clamped e (merged_config v) = Inr c \<and> loadRelayConfig e p f = (c, p)")
  case False
  then have "fst (loadRelayConfig e p f) = DEFAULT_RELAY_CONFIG"
    by (auto simp: loadRelayConfig_def split: option.split sum.split) blast
  then show ?thesis by (rule that(1))
qed (blast intro: that(2))

lemma loaded_bounds:
  "not_below e (ac_interval_minutes (rc_auto_seal (fst (loadRelayConfig e p f)))) 1
   \<and> not_below e (ac_min_events (rc_auto_seal (fst (loadRelayConfig e p f)))) 0
   \<and> not_below e (wc_quorum (rc_witness (fst (loadRelayConfig e p f)))) 1"
  by (rule loaded_config [of e p f]) (simp_all add: default_ok clamped_ok)

text \<open>The group handed to \<open>chgrp\<close> is a name: it starts no option and holds nothing a shell reads.\<close>

lemma loaded_group:
  assumes "rc_socket_group (fst (loadRelayConfig e p f)) = Some g"
  shows "GROUP_NAME_RE g"
  using assms
  by (rule_tac loaded_config [of e p f])
    (auto simp: DEFAULT_RELAY_CONFIG_def clamped_ok(4) merged_config_def Let_def split: option.splits if_splits)

lemma group_not_option: "GROUP_NAME_RE g \<Longrightarrow> \<not> starts_with g ''-'' \<and> CHR '' '' \<notin> set g"
proof -
  assume g: "GROUP_NAME_RE g"
  then obtain c cs where "g = c # cs" by (cases g) (auto simp: GROUP_NAME_RE_def)
  moreover have "\<not> is_alphau CHR ''-''" "\<not> is_alphau CHR '' ''" "\<not> is_alnumu CHR '' ''" by code_simp+
  ultimately show ?thesis using g by (auto simp: GROUP_NAME_RE_def starts_with_def list_all_iff)
qed

lemma loaded_endpoints:
  "list_all is_endpoint (wc_endpoints (rc_witness (fst (loadRelayConfig e p f))))"
  by (rule loaded_config [of e p f])
    (auto simp: DEFAULT_RELAY_CONFIG_def clamped_ok(5) merged_config_def Let_def endpoints_of_def list_all_iff
      split: option.splits json.splits)

end
