(* ===== verification/RelaySeal.thy ===== *)
theory RelaySeal
  imports RelayConfig
begin

text \<open>
  Sealing the relay chain, \<^verbatim>\<open>packages/core/src/relay/auto-seal.ts\<close>. The files are the log of seals
  and the log of witness answers (their text, \<open>None\<close> when absent) and the root keyring. A seal
  environment holds what one cycle meets: the clock, fresh key bytes, whether the appends succeed,
  and the answer of each witness endpoint, in the order in which the answers arrive. Modes and
  owners of files are not modelled.
\<close>

record seal_record =
  sl_sealed_at :: string
  sl_tip_hash :: string
  sl_chained_events :: nat
  sl_signature :: string
  sl_key_id :: string

record endpoint_result =
  er_name :: string
  er_url :: string
  er_ok :: bool
  er_status :: "int option"
  er_error :: "string option"

record witness_result =
  wt_attempted :: nat
  wt_succeeded :: nat
  wt_failed :: nat
  wt_quorum_met :: bool
  wt_responses :: "endpoint_result list"

text \<open>
  The answer of \<open>fetch\<close>: a status and whether it is a success, or an exception. The order is the one
  in which the parallel requests finish, as positions of the configured endpoints.
\<close>

record seal_env =
  se_now :: string
  se_random :: string
  se_append_seal :: "string option"
  se_append_witness :: bool
  se_fetch :: "string \<Rightarrow> string \<Rightarrow> (int \<times> bool) result"
  se_order :: "nat list"

record seal_files =
  sf_seals :: "string option"
  sf_witnesses :: "string option"
  sf_keyring :: files

record seal_state =
  ss_chainTip :: "string option"
  ss_eventCount :: nat
  ss_lastSealEventCount :: "json option"

record auto_seal_result =
  as_sealed :: bool
  as_reason :: string
  as_seal :: "seal_record option"
  as_witness :: "witness_result option"

section \<open>When to seal\<close>

text \<open>\<open>state.eventCount - state.lastSealEventCount\<close>; \<open>None\<close> is NaN.\<close>

definition new_events :: "relay_env \<Rightarrow> seal_state \<Rightarrow> int option result" where
  "new_events e st =
    (case ss_lastSealEventCount st of
       None \<Rightarrow> Inr None
     | Some v \<Rightarrow> bind_result (js_number e v) (\<lambda>n. Inr (map_option (\<lambda>i. int (ss_eventCount st) - i) n)))"

definition has_tip :: "seal_state \<Rightarrow> bool" where
  "has_tip st \<longleftrightarrow> truthy (ss_chainTip st)"

definition shouldAutoSeal :: "relay_env \<Rightarrow> seal_state \<Rightarrow> auto_seal_config \<Rightarrow> bool result" where
  "shouldAutoSeal e st config =
    (if \<not> truthy_json (Some (ac_enabled config)) then Inr False
     else if \<not> has_tip st then Inr False
     else bind_result (new_events e st) (\<lambda>n.
       bind_result (js_number e (ac_min_events config)) (\<lambda>m.
         Inr (case (n, m) of (Some i, Some j) \<Rightarrow> i \<ge> j | _ \<Rightarrow> False))))"

section \<open>Sealing\<close>

definition seal_json :: "seal_record \<Rightarrow> json" where
  "seal_json s = JObj
    [(''sealed_at'', JStr (sl_sealed_at s)), (''tip_hash'', JStr (sl_tip_hash s)),
     (''chained_events'', JNum (int (sl_chained_events s))), (''signature'', JStr (sl_signature s)),
     (''key_id'', JStr (sl_key_id s))]"

definition append_text :: "string option \<Rightarrow> string \<Rightarrow> string option" where
  "append_text file line = Some ((case file of None \<Rightarrow> [] | Some t \<Rightarrow> t) @ line)"

text \<open>The keyring stays created when a later step throws.\<close>

definition performSeal ::
  "relay_env \<Rightarrow> seal_env \<Rightarrow> seal_state \<Rightarrow> seal_files \<Rightarrow> seal_files \<times> seal_record result" where
  "performSeal e se st fs =
    (if \<not> has_tip st then (fs, Inl (Thrown ''Cannot seal: no chain tip''))
     else
       (let tip = the (ss_chainTip st);
            r = ensureKeyring (re_sign e) (se_random se) (sf_keyring fs);
            fs1 = fs\<lparr>sf_keyring := fst r\<rparr>
        in case bind_result (snd r) (\<lambda>(keyId, key).
                bind_result (computeSealPayload tip (int (ss_eventCount st)) (se_now se)) (\<lambda>payload.
                  Inr \<lparr>sl_sealed_at = se_now se, sl_tip_hash = tip,
                       sl_chained_events = ss_eventCount st,
                       sl_signature = signSeal (re_sign e) payload key, sl_key_id = keyId\<rparr>)) of
             Inl x \<Rightarrow> (fs1, Inl x)
           | Inr seal \<Rightarrow>
               (case se_append_seal se of
                  Some m \<Rightarrow> (fs1, Inl (Thrown m))
                | None \<Rightarrow> (fs1\<lparr>sf_seals := append_text (sf_seals fs1) (log_line (seal_json seal))\<rparr>, Inr seal))))"

section \<open>Witnesses\<close>

text \<open>A header that cannot be built from the token throws inside \<open>fetch\<close>'s guard, as \<open>fetch\<close> does.\<close>

definition publishToEndpoint :: "seal_env \<Rightarrow> json \<Rightarrow> string \<Rightarrow> endpoint_result" where
  "publishToEndpoint se endpoint body =
    (let name = (case string_member endpoint ''name'' of Some n \<Rightarrow> n | None \<Rightarrow> []);
         url = (case string_member endpoint ''url'' of Some u \<Rightarrow> u | None \<Rightarrow> [])
     in case se_fetch se url body of
          Inr (status, ok) \<Rightarrow>
            if ok then \<lparr>er_name = name, er_url = url, er_ok = True, er_status = Some status, er_error = None\<rparr>
            else \<lparr>er_name = name, er_url = url, er_ok = False, er_status = Some status,
                  er_error = Some (''HTTP '' @ print_int status)\<rparr>
        | Inl x \<Rightarrow> \<lparr>er_name = name, er_url = url, er_ok = False, er_status = None,
                    er_error = Some (error_text x)\<rparr>)"

definition endpoint_result_json :: "endpoint_result \<Rightarrow> json" where
  "endpoint_result_json r = JObj
    (members [(''name'', Some (JStr (er_name r))), (''url'', Some (JStr (er_url r))),
      (''ok'', Some (JBool (er_ok r))), (''status'', map_option JNum (er_status r)),
      (''error'', opt_str (er_error r))])"

definition witness_line :: "string \<Rightarrow> seal_record \<Rightarrow> witness_result \<Rightarrow> string" where
  "witness_line anchoredAt seal w = log_line (JObj
    [(''timestamp'', JStr anchoredAt), (''seal_tip'', JStr (sl_tip_hash seal)),
     (''attempted'', JNum (int (wt_attempted w))), (''succeeded'', JNum (int (wt_succeeded w))),
     (''failed'', JNum (int (wt_failed w))), (''quorum_met'', JBool (wt_quorum_met w)),
     (''responses'', JArr (map endpoint_result_json (wt_responses w)))])"

definition anchor_body :: "seal_record \<Rightarrow> string \<Rightarrow> string" where
  "anchor_body seal anchoredAt = stringify (JObj
    [(''type'', JStr ''patchwork-seal-anchor''), (''version'', JNum 1), (''seal'', seal_json seal),
     (''relay_chain_tip'', JStr (sl_tip_hash seal)),
     (''relay_event_count'', JNum (int (sl_chained_events seal))), (''anchored_at'', JStr anchoredAt)])"

definition arrivals :: "nat list \<Rightarrow> 'a list \<Rightarrow> 'a list" where
  "arrivals order xs = map (\<lambda>i. xs ! i) (filter (\<lambda>i. i < length xs) order)"

text \<open>\<open>succeeded >= config.quorum\<close>.\<close>

definition quorum_met :: "relay_env \<Rightarrow> nat \<Rightarrow> json \<Rightarrow> bool result" where
  "quorum_met e n quorum =
    bind_result (js_number e quorum) (\<lambda>q. Inr (case q of None \<Rightarrow> False | Some i \<Rightarrow> int n \<ge> i))"

definition publishToWitnesses ::
  "relay_env \<Rightarrow> seal_env \<Rightarrow> seal_record \<Rightarrow> witness_config \<Rightarrow> seal_files
   \<Rightarrow> seal_files \<times> witness_result result" where
  "publishToWitnesses e se seal config fs =
    (if \<not> truthy_json (Some (wc_enabled config)) \<or> wc_endpoints config = [] then
       (fs, Inr \<lparr>wt_attempted = 0, wt_succeeded = 0, wt_failed = 0, wt_quorum_met = True,
                 wt_responses = []\<rparr>)
     else
       (let anchoredAt = se_now se;
            responses = arrivals (se_order se)
              (map (\<lambda>p. publishToEndpoint se p (anchor_body seal anchoredAt)) (wc_endpoints config));
            ok = length (filter er_ok responses); bad = length (filter (\<lambda>r. \<not> er_ok r) responses)
        in case quorum_met e ok (wc_quorum config) of
             Inl x \<Rightarrow> (fs, Inl x)
           | Inr q \<Rightarrow>
               (let w = \<lparr>wt_attempted = length (wc_endpoints config), wt_succeeded = ok,
                         wt_failed = bad, wt_quorum_met = q, wt_responses = responses\<rparr>
                in (if se_append_witness se
                    then fs\<lparr>sf_witnesses := append_text (sf_witnesses fs) (witness_line anchoredAt seal w)\<rparr>
                    else fs, Inr w))))"

section \<open>A cycle\<close>

definition not_sealed :: "string \<Rightarrow> auto_seal_result" where
  "not_sealed reason = \<lparr>as_sealed = False, as_reason = reason, as_seal = None, as_witness = None\<rparr>"

definition skip_reason :: "relay_env \<Rightarrow> seal_state \<Rightarrow> auto_seal_config \<Rightarrow> string result" where
  "skip_reason e st config =
    (if \<not> has_tip st then Inr ''No events to seal''
     else bind_result (new_events e st) (\<lambda>n.
       bind_result (js_string (ac_min_events config)) (\<lambda>m.
         Inr (''Only '' @ (case n of None \<Rightarrow> ''NaN'' | Some i \<Rightarrow> print_int i) @ '' new events (need '' @ m @ '')''))))"

definition performAutoSealCycle ::
  "relay_env \<Rightarrow> seal_env \<Rightarrow> seal_state \<Rightarrow> relay_config \<Rightarrow> seal_files
   \<Rightarrow> seal_files \<times> auto_seal_result result" where
  "performAutoSealCycle e se st config fs =
    (case shouldAutoSeal e st (rc_auto_seal config) of
       Inl x \<Rightarrow> (fs, Inl x)
     | Inr due \<Rightarrow>
         if \<not> due then (fs, bind_result (skip_reason e st (rc_auto_seal config)) (\<lambda>m. Inr (not_sealed m)))
         else
           (let r = performSeal e se st fs; w = rc_witness config in
            case snd r of
              Inl x \<Rightarrow> (fst r, Inr (not_sealed (''Seal failed: '' @ error_text x)))
            | Inr seal \<Rightarrow>
                if truthy_json (Some (wc_enabled w)) \<and> wc_endpoints w \<noteq> [] then
                  (let p = publishToWitnesses e se seal w (fst r) in
                   (fst p, Inr (case snd p of
                      Inl x \<Rightarrow> not_sealed (''Seal failed: '' @ error_text x)
                    | Inr q \<Rightarrow> \<lparr>as_sealed = True, as_reason = ''OK'', as_seal = Some seal, as_witness = Some q\<rparr>)))
                else (fst r, Inr \<lparr>as_sealed = True, as_reason = ''OK'', as_seal = Some seal, as_witness = None\<rparr>)))"

text \<open>The last line of the log of seals, read without a check of its shape.\<close>

definition readLastSeal :: "relay_env \<Rightarrow> string option \<Rightarrow> json option" where
  "readLastSeal e file =
    (case file of
       None \<Rightarrow> None
     | Some content \<Rightarrow>
         (let ls = content_lines content in
          if ls = [] then None
          else (case relay_parse e (last ls) of Some JNull \<Rightarrow> None | v \<Rightarrow> v)))"

end
