(* ===== verification/RelaySigning.thy ===== *)
theory RelaySigning
  imports RelayConfig Intoto
begin

text \<open>
  What the relay daemon signs and verifies for its clients: \<open>classifySignablePayload\<close> and what it
  calls, \<open>handleSign\<close> and \<open>handleVerify\<close> of \<^verbatim>\<open>packages/core/src/relay/daemon.ts\<close>. Requests and
  responses are JSON. The handlers run in a socket callback without a guard, so an exception they
  let through is one that ends the daemon. Texts are bytes, so the code's bounds on UTF-16 lengths
  are bounds on bytes here.
\<close>

section \<open>Payload shapes\<close>

definition SIGN_PAYLOAD_MAX_BYTES :: nat where
  "SIGN_PAYLOAD_MAX_BYTES = 16 * 1024"

definition DSSE_PAE_PREFIX :: string where
  "DSSE_PAE_PREFIX = ''DSSEv1 ''"

definition INTOTO_PAYLOAD_TYPE :: string where
  "INTOTO_PAYLOAD_TYPE = ''application/vnd.in-toto+json''"

definition PATCHWORK_AI_AGENT_PREDICATE_TYPE :: string where
  "PATCHWORK_AI_AGENT_PREDICATE_TYPE = ''https://patchwork-audit.dev/ai-agent-session/v1''"

definition ALLOWED_PREDICATE_TYPES :: "string list" where
  "ALLOWED_PREDICATE_TYPES = [''https://patchwork-audit.dev/ai-agent-session/v1'']"

definition PATCHWORK_PREDICATE_KEYS :: "string list" where
  "PATCHWORK_PREDICATE_KEYS =
    [''schema_version'', ''generated_at'', ''tool_version'', ''project_root'', ''session_id'',
     ''session_events_count'', ''session_events_since_last_commit'', ''chain_tip_hash'',
     ''chain_valid'', ''chain_chained_events'', ''risk_summary'', ''policy_source'', ''pass'',
     ''failure_reasons'']"

definition PATCHWORK_RISK_KEYS :: "string list" where
  "PATCHWORK_RISK_KEYS = [''critical'', ''high'', ''medium'', ''low'', ''none'', ''denials'']"

definition sha_length :: "string \<Rightarrow> bool" where
  "sha_length s \<longleftrightarrow> list_all is_hex s \<and> (length s = 40 \<or> length s = 64)"

definition GIT_SHA_RE :: "string \<Rightarrow> bool" where
  "GIT_SHA_RE s \<longleftrightarrow> sha_length s"

definition branch_char :: "char \<Rightarrow> bool" where
  "branch_char c \<longleftrightarrow> is_alnumu c \<or> c \<in> {CHR ''.'', CHR ''-'', CHR ''/''}"

text \<open>\<open>git+<branch>:<sha>\<close>; no character of a branch is a colon.\<close>

definition PATCHWORK_SUBJECT_NAME_RE :: "string \<Rightarrow> bool" where
  "PATCHWORK_SUBJECT_NAME_RE s \<longleftrightarrow> starts_with s ''git+'' \<and>
    (let r = drop 4 s; b = takeWhile branch_char r; h = dropWhile branch_char r in
     b \<noteq> [] \<and> length b \<le> 256 \<and> starts_with h '':'' \<and> sha_length (tl h))"

definition ALGO_RE :: "string \<Rightarrow> bool" where
  "ALGO_RE s \<longleftrightarrow> s \<noteq> [] \<and> length s \<le> 32 \<and> list_all (\<lambda>c. is_alnumu c \<or> c = CHR ''-'') s"

definition DIGEST_RE :: "string \<Rightarrow> bool" where
  "DIGEST_RE s \<longleftrightarrow> 32 \<le> length s \<and> length s \<le> 128 \<and> list_all (\<lambda>c. is_hex (lower_char c)) s"

section \<open>The predicate\<close>

fun isStr :: "nat \<Rightarrow> json option \<Rightarrow> bool" where
  "isStr m (Some (JStr s)) \<longleftrightarrow> s \<noteq> [] \<and> length s \<le> m"
| "isStr m _ \<longleftrightarrow> False"

definition isOptStr :: "nat \<Rightarrow> json option \<Rightarrow> bool" where
  "isOptStr m v \<longleftrightarrow> v = Some JNull \<or> isStr m v"

fun isNonNegInt :: "json option \<Rightarrow> bool" where
  "isNonNegInt (Some (JNum i)) \<longleftrightarrow> 0 \<le> i \<and> i \<le> 1000000000"
| "isNonNegInt _ \<longleftrightarrow> False"

fun isBool :: "json option \<Rightarrow> bool" where
  "isBool (Some (JBool b)) \<longleftrightarrow> True"
| "isBool _ \<longleftrightarrow> False"

fun object_keys :: "json \<Rightarrow> string list" where
  "object_keys (JObj ms) = map fst ms"
| "object_keys _ = []"

fun valid_risk_summary :: "json option \<Rightarrow> bool" where
  "valid_risk_summary (Some (JObj rs)) \<longleftrightarrow>
     list_all (\<lambda>k. k \<in> set PATCHWORK_RISK_KEYS) (map fst rs)
     \<and> list_all (\<lambda>k. isNonNegInt (map_of rs k)) PATCHWORK_RISK_KEYS"
| "valid_risk_summary _ \<longleftrightarrow> False"

fun valid_failure_reasons :: "json option \<Rightarrow> bool" where
  "valid_failure_reasons (Some (JArr vs)) \<longleftrightarrow> length vs \<le> 64 \<and> list_all (\<lambda>r. isStr 256 (Some r)) vs"
| "valid_failure_reasons _ \<longleftrightarrow> False"

definition validatePatchworkAiAgentPredicate :: "json \<Rightarrow> bool" where
  "validatePatchworkAiAgentPredicate p \<longleftrightarrow>
    list_all (\<lambda>k. k \<in> set PATCHWORK_PREDICATE_KEYS) (object_keys p)
    \<and> json_get p ''schema_version'' = Some (JNum 1)
    \<and> isStr 64 (json_get p ''generated_at'')
    \<and> isStr 64 (json_get p ''tool_version'')
    \<and> isStr 4096 (json_get p ''project_root'')
    \<and> isStr 256 (json_get p ''session_id'')
    \<and> isNonNegInt (json_get p ''session_events_count'')
    \<and> isNonNegInt (json_get p ''session_events_since_last_commit'')
    \<and> isOptStr 256 (json_get p ''chain_tip_hash'')
    \<and> isBool (json_get p ''chain_valid'')
    \<and> isNonNegInt (json_get p ''chain_chained_events'')
    \<and> isBool (json_get p ''pass'')
    \<and> isStr 4096 (json_get p ''policy_source'')
    \<and> valid_risk_summary (json_get p ''risk_summary'')
    \<and> valid_failure_reasons (json_get p ''failure_reasons'')"

section \<open>The pre-authentication encoding\<close>

definition read_decimal :: "string \<Rightarrow> (nat \<times> string) option" where
  "read_decimal rest =
    (let ds = takeWhile is_digit rest; r = dropWhile is_digit rest in
     if ds = [] \<or> r = [] \<or> hd r \<noteq> CHR '' '' then None
     else if read_nat ds > SIGN_PAYLOAD_MAX_BYTES then None
     else Some (read_nat ds, tl r))"

text \<open>The payload of an encoding whose lengths and type are right and that ends where it says.\<close>

definition pae_payload :: "string \<Rightarrow> string option" where
  "pae_payload data =
    (case read_decimal (drop (length DSSE_PAE_PREFIX) data) of
       None \<Rightarrow> None
     | Some (n, r) \<Rightarrow>
         if n + 1 > length r then None
         else if take n r \<noteq> INTOTO_PAYLOAD_TYPE then None
         else if r ! n \<noteq> CHR '' '' then None
         else
           (case read_decimal (drop (n + 1) r) of
              None \<Rightarrow> None
            | Some (m, p) \<Rightarrow> if m \<noteq> length p then None else Some p))"

fun valid_digest :: "json option \<Rightarrow> bool" where
  "valid_digest (Some (JObj ds)) \<longleftrightarrow>
     ds \<noteq> [] \<and> list_all (\<lambda>(algo, hex). ALGO_RE algo \<and> (case hex of JStr h \<Rightarrow> DIGEST_RE h | _ \<Rightarrow> False)) ds"
| "valid_digest _ \<longleftrightarrow> False"

definition valid_subject :: "json \<Rightarrow> bool" where
  "valid_subject v \<longleftrightarrow>
    is_JObj v \<and> (case json_get v ''name'' of Some (JStr s) \<Rightarrow> s \<noteq> [] | _ \<Rightarrow> False)
    \<and> valid_digest (json_get v ''digest'')"

text \<open>The first subject names the commit its digest binds.\<close>

definition subject_bound :: "json \<Rightarrow> bool" where
  "subject_bound v \<longleftrightarrow>
    (case (member_of v ''digest'' ''gitCommit'', string_member v ''name'') of
       (Some gitCommit, Some name) \<Rightarrow>
         PATCHWORK_SUBJECT_NAME_RE name \<and> GIT_SHA_RE gitCommit \<and> ends_with name ('':'' @ gitCommit)
     | _ \<Rightarrow> False)"

definition valid_statement :: "json \<Rightarrow> bool" where
  "valid_statement stmt \<longleftrightarrow>
    is_JObj stmt \<and> json_get stmt ''_type'' = Some (JStr ''https://in-toto.io/Statement/v1'')
    \<and> (case (json_get stmt ''subject'', json_get stmt ''predicateType'', json_get stmt ''predicate'') of
         (Some (JArr (s # ss)), Some (JStr t), Some p) \<Rightarrow>
           list_all valid_subject (s # ss) \<and> t \<noteq> [] \<and> t \<in> set ALLOWED_PREDICATE_TYPES \<and> is_JObj p
           \<and> (t = PATCHWORK_AI_AGENT_PREDICATE_TYPE \<longrightarrow>
                validatePatchworkAiAgentPredicate p \<and> subject_bound s)
       | _ \<Rightarrow> False)"

definition validateDssePae :: "relay_env \<Rightarrow> string \<Rightarrow> bool" where
  "validateDssePae e data \<longleftrightarrow>
    (case pae_payload data of
       None \<Rightarrow> False
     | Some p \<Rightarrow> (case relay_parse e p of None \<Rightarrow> False | Some stmt \<Rightarrow> valid_statement stmt))"

datatype payload_kind = CommitAttestationPayload | DssePaePayload

definition classifySignablePayload :: "relay_env \<Rightarrow> string \<Rightarrow> payload_kind option" where
  "classifySignablePayload e data =
    (if starts_with data DSSE_PAE_PREFIX then
       (if validateDssePae e data then Some DssePaePayload else None)
     else if starts_with data [CHR 0x7B] then
       (case relay_parse e data of
          None \<Rightarrow> None
        | Some obj \<Rightarrow>
            if \<not> is_JObj obj then None
            else if json_get obj ''type'' \<noteq> Some (JStr ''commit-attestation'') then None
            else if json_get obj ''schema_version'' \<noteq> Some (JNum 1) then None
            else Some CommitAttestationPayload)
     else None)"

section \<open>Requests\<close>

definition refused :: "string \<Rightarrow> json" where
  "refused s = JObj [(''ok'', JBool False), (''error'', JStr s)]"

text \<open>A method of a value that is not a string.\<close>

definition not_a_function :: "string \<Rightarrow> js_error" where
  "not_a_function m = TypeError (m @ '' is not a function'')"

text \<open>\<open>payload?.k\<close> of a payload that may be undefined or null.\<close>

definition payload_member :: "json option \<Rightarrow> string \<Rightarrow> json option" where
  "payload_member payload k = (case payload of None \<Rightarrow> None | Some p \<Rightarrow> json_get p k)"

text \<open>\<open>data.length > SIGN_PAYLOAD_MAX_BYTES\<close> for whatever \<open>data\<close> is.\<close>

definition too_long :: "relay_env \<Rightarrow> json \<Rightarrow> bool result" where
  "too_long e data =
    (case data of
       JStr s \<Rightarrow> Inr (length s > SIGN_PAYLOAD_MAX_BYTES)
     | JArr vs \<Rightarrow> Inr (length vs > SIGN_PAYLOAD_MAX_BYTES)
     | JObj ms \<Rightarrow>
         (case map_of ms ''length'' of
            None \<Rightarrow> Inr False
          | Some v \<Rightarrow>
              bind_result (js_number e v) (\<lambda>n.
                Inr (case n of None \<Rightarrow> False | Some i \<Rightarrow> i > int SIGN_PAYLOAD_MAX_BYTES)))
     | _ \<Rightarrow> Inr False)"

text \<open>The key a request names, converted by the pattern that tests it, or the active one.\<close>

definition request_key ::
  "relay_env \<Rightarrow> string \<Rightarrow> json option \<Rightarrow> files \<Rightarrow> files \<times> (json \<times> string) result" where
  "request_key e random key_id dir =
    (if truthy_json key_id then
       (dir, bind_result (js_text key_id) (\<lambda>k.
               bind_result (loadKeyById dir k) (\<lambda>key. Inr (the key_id, key))))
     else
       (let r = ensureKeyring (re_sign e) random dir in
        (fst r, bind_result (snd r) (\<lambda>(k, key). Inr (JStr k, key)))))"

definition sign_text ::
  "relay_env \<Rightarrow> string \<Rightarrow> string \<Rightarrow> string \<Rightarrow> json option \<Rightarrow> files \<Rightarrow> files \<times> json" where
  "sign_text e now random s key_id dir =
    (let r = request_key e random key_id dir in
     (fst r, case snd r of
        Inl x \<Rightarrow> refused (''Sign failed: '' @ error_text x)
      | Inr (k, key) \<Rightarrow>
          JObj [(''ok'', JBool True), (''signature'', JStr (signSeal (re_sign e) s key)),
            (''key_id'', k), (''signed_at'', JStr now)]))"

definition handleSign ::
  "relay_env \<Rightarrow> string \<Rightarrow> string \<Rightarrow> json option \<Rightarrow> files \<Rightarrow> files \<times> json result" where
  "handleSign e now random payload dir =
    (let data = payload_member payload ''data'' in
     if \<not> truthy_json data then (dir, Inr (refused ''Missing sign payload.data''))
     else
       (case too_long e (the data) of
          Inl x \<Rightarrow> (dir, Inl x)
        | Inr long \<Rightarrow>
            if long then (dir, Inr (refused ''sign payload exceeds 16384 bytes''))
            else
              (case the data of
                 JStr s \<Rightarrow>
                   if classifySignablePayload e s = None
                   then (dir, Inr (refused (''sign payload must be a commit-attestation JSON or DSSE PAE ''
                          @ em_dash @ '' seals and arbitrary text are refused'')))
                   else
                     (let r = sign_text e now random s (payload_member payload ''key_id'') dir
                      in (fst r, Inr (snd r)))
               | _ \<Rightarrow> (dir, Inl (not_a_function ''data.startsWith'')))))"

text \<open>An element of an array as a byte of a buffer.\<close>

definition buffer_byte :: "relay_env \<Rightarrow> json option \<Rightarrow> char result" where
  "buffer_byte e v =
    (case v of
       None \<Rightarrow> Inr (CHR 0x00)
     | Some w \<Rightarrow>
         bind_result (js_number e w) (\<lambda>n.
           Inr (case n of None \<Rightarrow> CHR 0x00 | Some i \<Rightarrow> char_of (nat (i mod 256)))))"

text \<open>
  \<open>verifySeal\<close> on a signature that is any value: what is not a string has a length to compare only
  as an array or an object, and its elements are then read as bytes.
\<close>

definition verify_any :: "relay_env \<Rightarrow> string \<Rightarrow> json \<Rightarrow> string \<Rightarrow> bool result" where
  "verify_any e data signature key =
    (let expected = signSeal (re_sign e) data key in
     case signature of
       JStr s \<Rightarrow> Inr (verifySeal (re_sign e) data s key)
     | JArr vs \<Rightarrow>
         if length expected \<noteq> length vs then Inr False
         else bind_result (map_result (\<lambda>v. buffer_byte e (Some v)) vs) (\<lambda>b. Inr (b = expected))
     | JObj ms \<Rightarrow>
         if map_of ms ''length'' \<noteq> Some (JNum (int (length expected))) then Inr False
         else if truthy_json (map_of ms ''valueOf'') then Inl (not_a_function ''value.valueOf'')
         else bind_result (map_result (\<lambda>i. buffer_byte e (map_of ms (digits_of i))) [0..<length expected])
                (\<lambda>b. Inr (b = expected))
     | _ \<Rightarrow> Inr False)"

definition handleVerify :: "relay_env \<Rightarrow> json option \<Rightarrow> files \<Rightarrow> json result" where
  "handleVerify e payload dir =
    (let data = payload_member payload ''data''; signature = payload_member payload ''signature'';
         key_id = payload_member payload ''key_id''
     in if \<not> truthy_json data \<or> \<not> truthy_json signature \<or> \<not> truthy_json key_id
        then Inr (refused ''Missing verify payload fields (data, signature, key_id)'')
        else
          (case bind_result (js_text key_id) (loadKeyById dir) of
             Inl x \<Rightarrow> Inr (JObj [(''ok'', JBool True), (''verified'', JBool False),
                              (''reason'', JStr ''unknown_key'')])
           | Inr key \<Rightarrow>
               (case data of
                  Some (JStr s) \<Rightarrow>
                    bind_result (verify_any e s (the signature) key) (\<lambda>v.
                      Inr (JObj ([(''ok'', JBool True), (''verified'', JBool v)]
                             @ (if v then [] else [(''reason'', JStr ''signature_mismatch'')]))))
                | _ \<Rightarrow> Inl (TypeError ''The data argument must be of type string''))))"

end
