(* ===== verification/RelayDaemon.thy ===== *)
theory RelayDaemon
  imports RelaySeal RelaySigning
begin

text \<open>
  The relay daemon, \<^verbatim>\<open>packages/core/src/relay/daemon.ts\<close>: recovery from its files, the messages of
  its socket, heartbeats, and the cycle that seals its chain. The state is the daemon's and its
  files (the text of the relay log, the seals, the keyring). A \<open>moment\<close> holds what one operation
  meets: the clock, whether the log's path is a symbolic link, why a write fails, fresh key bytes.
  A cycle that awaits its witnesses is one that has begun and not finished, so that messages fall
  between. Not modelled: the daemon's own text log, the PID file, modes and owners of files.
\<close>

record moment =
  mo_iso :: string
  mo_ms :: int
  mo_link :: bool
  mo_write :: "string option"
  mo_random :: string

record relay_daemon =
  rd_eventCount :: nat
  rd_chainTip :: "string option"
  rd_startedAt :: int
  rd_lastHeartbeat :: "int option"
  rd_lastSealEventCount :: "json option"
  rd_lastSealAt :: "int option"
  rd_totalSeals :: nat
  rd_config :: "relay_config option"
  rd_cycle :: "auto_seal_result result option"

record relay_files =
  rf_log :: "string option"
  rf_seal :: seal_files

type_synonym relay_sys = "relay_daemon \<times> relay_files"

definition MAX_MESSAGE_SIZE :: nat where
  "MAX_MESSAGE_SIZE = 65536"

definition RELAY_PROTOCOL_VERSION :: int where
  "RELAY_PROTOCOL_VERSION = 1"

section \<open>Recovery\<close>

text \<open>One line of the log: corrupt lines and heartbeats are skipped, null too, as reading it throws.\<close>

definition recover_line :: "relay_env \<Rightarrow> string \<Rightarrow> nat \<times> string option \<Rightarrow> nat \<times> string option" where
  "recover_line e line st =
    (case relay_parse e line of
       None \<Rightarrow> st
     | Some parsed \<Rightarrow>
         if parsed = JNull then st
         else if json_get parsed ''type'' = Some (JStr ''heartbeat'') then st
         else (Suc (fst st),
               case string_member parsed ''_relay_hash'' of Some h \<Rightarrow> Some h | None \<Rightarrow> snd st))"

definition recover_log :: "relay_env \<Rightarrow> string option \<Rightarrow> nat \<times> string option" where
  "recover_log e file =
    (case file of
       None \<Rightarrow> (0, None)
     | Some content \<Rightarrow> fold (recover_line e) (content_lines content) (0, None))"

definition new_daemon :: "int \<Rightarrow> relay_daemon" where
  "new_daemon now =
    \<lparr>rd_eventCount = 0, rd_chainTip = None, rd_startedAt = now, rd_lastHeartbeat = None,
     rd_lastSealEventCount = Some (JNum 0), rd_lastSealAt = None, rd_totalSeals = 0,
     rd_config = None, rd_cycle = None\<rparr>"

text \<open>A file that cannot be read leaves what an absent one leaves.\<close>

definition init :: "relay_env \<Rightarrow> relay_files \<Rightarrow> relay_daemon \<Rightarrow> relay_daemon" where
  "init e fs d =
    (let r = recover_log e (rf_log fs) in
     d\<lparr>rd_eventCount := fst r, rd_chainTip := snd r,
       rd_totalSeals := (case sf_seals (rf_seal fs) of
                           None \<Rightarrow> rd_totalSeals d | Some t \<Rightarrow> length (content_lines t))\<rparr>)"

section \<open>Heartbeats\<close>

definition heartbeat_record :: "moment \<Rightarrow> relay_daemon \<Rightarrow> json" where
  "heartbeat_record mo d = JObj
    [(''type'', JStr ''heartbeat''), (''timestamp'', JStr (mo_iso mo)),
     (''relay_chain_tip'', nullable_str (rd_chainTip d)),
     (''relay_event_count'', JNum (int (rd_eventCount d))),
     (''uptime_ms'', JNum (mo_ms mo - rd_startedAt d))]"

definition writeHeartbeat :: "moment \<Rightarrow> relay_sys \<Rightarrow> relay_sys" where
  "writeHeartbeat mo s =
    (let (d, fs) = s in
     if mo_write mo = None
     then (d\<lparr>rd_lastHeartbeat := Some (mo_ms mo)\<rparr>,
           fs\<lparr>rf_log := append_text (rf_log fs) (log_line (heartbeat_record mo d))\<rparr>)
     else (d, fs))"

section \<open>Events\<close>

definition relay_event :: "log_env \<Rightarrow> moment \<Rightarrow> string option \<Rightarrow> json \<Rightarrow> json" where
  "relay_event le mo tip payload =
    put_json ''_relay''
      (JObj [(''received_at'', JStr (mo_iso mo)), (''relay_prev_hash'', nullable_str tip)]) payload"

definition relay_hash :: "log_env \<Rightarrow> moment \<Rightarrow> string option \<Rightarrow> json \<Rightarrow> string" where
  "relay_hash le mo tip payload = computeEventHash (hash_env_of le) (relay_event le mo tip payload)"

definition stored_event :: "log_env \<Rightarrow> moment \<Rightarrow> string option \<Rightarrow> json \<Rightarrow> json" where
  "stored_event le mo tip payload =
    put_json ''_relay_hash'' (JStr (relay_hash le mo tip payload)) (relay_event le mo tip payload)"

definition accepted :: "string \<Rightarrow> json" where
  "accepted h = JObj [(''ok'', JBool True), (''relay_hash'', JStr h)]"

definition processEvent :: "relay_env \<Rightarrow> moment \<Rightarrow> json option \<Rightarrow> relay_sys \<Rightarrow> relay_sys \<times> json" where
  "processEvent e mo payload s =
    (let (d, fs) = s; le = re_log e; p = the payload in
     if \<not> truthy_json payload then (s, refused ''Missing event payload'')
     else if event_schema le p = None
     then (s, refused (''Schema validation failed: '' @ re_issues e p))
     else if truthy_json (event_hash p) \<and> \<not> hash_matches (hash_env_of le) p
     then (s, refused (''Event hash mismatch '' @ em_dash @ '' possible tampering''))
     else if rf_log fs \<noteq> None \<and> mo_link mo then (s, refused ''relay log path is a symlink'')
     else
       (case mo_write mo of
          Some m \<Rightarrow> (s, refused (''Write failed: '' @ m))
        | None \<Rightarrow>
            (let h = relay_hash le mo (rd_chainTip d) p;
                 line = log_line (stored_event le mo (rd_chainTip d) p)
             in ((d\<lparr>rd_chainTip := Some h, rd_eventCount := Suc (rd_eventCount d)\<rparr>,
                  fs\<lparr>rf_log := append_text (rf_log fs) line\<rparr>), accepted h))))"

section \<open>Queries\<close>

definition config_flag :: "relay_daemon \<Rightarrow> (relay_config \<Rightarrow> json) \<Rightarrow> json" where
  "config_flag d f = (case rd_config d of None \<Rightarrow> JBool False | Some c \<Rightarrow> (if f c = JNull then JBool False else f c))"

definition getSealStatus :: "relay_env \<Rightarrow> relay_sys \<Rightarrow> json" where
  "getSealStatus e s =
    (let (d, fs) = s;
         m = (\<lambda>k. or_null (case readLastSeal e (sf_seals (rf_seal fs)) of
                                  None \<Rightarrow> None | Some v \<Rightarrow> json_get v k))
     in JObj [(''ok'', JBool True), (''last_seal_at'', m ''sealed_at''),
          (''last_seal_tip'', m ''tip_hash''), (''last_seal_events'', m ''chained_events''),
          (''seals_total'', JNum (int (rd_totalSeals d))),
          (''auto_seal_enabled'', config_flag d (\<lambda>c. ac_enabled (rc_auto_seal c))),
          (''witness_enabled'', config_flag d (\<lambda>c. wc_enabled (rc_witness c))),
          (''witness_quorum_met'', JNull)])"

text \<open>A member whose value is undefined is left out by \<open>JSON.stringify\<close>.\<close>

definition getChainState :: "moment \<Rightarrow> relay_daemon \<Rightarrow> json" where
  "getChainState mo d = JObj (members
    [(''ok'', Some (JBool True)), (''chain_tip'', Some (nullable_str (rd_chainTip d))),
     (''event_count'', Some (JNum (int (rd_eventCount d)))),
     (''last_seal_event_count'', rd_lastSealEventCount d),
     (''last_heartbeat'', Some (case rd_lastHeartbeat d of None \<Rightarrow> JNull | Some t \<Rightarrow> JNum t)),
     (''uptime_ms'', Some (JNum (mo_ms mo - rd_startedAt d))),
     (''auto_seal_interval_minutes'',
        Some (case rd_config d of
                None \<Rightarrow> JNum 0
              | Some c \<Rightarrow> (let v = ac_interval_minutes (rc_auto_seal c) in if v = JNull then JNum 0 else v)))])"

section \<open>Messages\<close>

definition on_keyring :: "(files \<Rightarrow> files \<times> 'a) \<Rightarrow> relay_files \<Rightarrow> relay_files \<times> 'a" where
  "on_keyring f fs =
    (let r = f (sf_keyring (rf_seal fs)) in
     (fs\<lparr>rf_seal := (rf_seal fs)\<lparr>sf_keyring := fst r\<rparr>\<rparr>, snd r))"

definition unsupported :: "string \<Rightarrow> json option \<Rightarrow> json result" where
  "unsupported what v = bind_result (js_text v) (\<lambda>t. Inr (refused (what @ t)))"

text \<open>An exception leaves the socket's callback and with it the daemon.\<close>

definition processMessage :: "relay_env \<Rightarrow> moment \<Rightarrow> string \<Rightarrow> relay_sys \<Rightarrow> relay_sys \<times> json result" where
  "processMessage e mo raw s =
    (case relay_parse e raw of
       None \<Rightarrow> (s, Inr (refused ''Invalid JSON''))
     | Some msg \<Rightarrow>
         (let kind = json_get msg ''type''; payload = json_get msg ''payload'' in
          if msg = JNull
          then (s, Inl (TypeError ''Cannot read properties of null (reading protocol_version)''))
          else if json_get msg ''protocol_version'' \<noteq> Some (JNum RELAY_PROTOCOL_VERSION)
          then (s, unsupported ''Unsupported protocol version: '' (json_get msg ''protocol_version''))
          else if kind = Some (JStr ''ping'')
          then (s, Inr (JObj (members [(''ok'', Some (JBool True)), (''relay_hash'', opt_str (rd_chainTip (fst s)))])))
          else if kind = Some (JStr ''event'')
          then (let r = processEvent e mo payload s in (fst r, Inr (snd r)))
          else if kind = Some (JStr ''seal_status'') then (s, Inr (getSealStatus e s))
          else if kind = Some (JStr ''get_chain_state'') then (s, Inr (getChainState mo (fst s)))
          else if kind = Some (JStr ''sign'')
          then (let r = on_keyring (handleSign e (mo_iso mo) (mo_random mo) payload) (snd s)
                in ((fst s, fst r), snd r))
          else if kind = Some (JStr ''verify'')
          then (s, handleVerify e payload (sf_keyring (rf_seal (snd s))))
          else (s, unsupported ''Unknown message type: '' kind)))"

section \<open>Connections\<close>

record connection =
  cn_buffer :: string
  cn_open :: bool

text \<open>
  The complete lines of a buffer, answered in order at the moments of a clock. The result is the
  answers written and the exception that ended the daemon, if any.
\<close>

fun serve_lines ::
  "relay_env \<Rightarrow> (nat \<Rightarrow> moment) \<Rightarrow> nat \<Rightarrow> string list \<Rightarrow> relay_sys
   \<Rightarrow> relay_sys \<times> string list \<times> js_error option" where
  "serve_lines e clock n [] s = (s, [], None)"
| "serve_lines e clock n (line # ls) s =
     (if trim line = [] then serve_lines e clock n ls s
      else
        (case processMessage e (clock n) line s of
           (s', Inl x) \<Rightarrow> (s', [], Some x)
         | (s', Inr r) \<Rightarrow>
             (let t = serve_lines e clock (Suc n) ls s'
              in (fst t, (stringify r @ [newline]) # fst (snd t), snd (snd t)))))"

text \<open>The listener of \<open>data\<close>: the lines before the last newline, the rest stays buffered.\<close>

definition on_data ::
  "relay_env \<Rightarrow> (nat \<Rightarrow> moment) \<Rightarrow> string \<Rightarrow> connection \<Rightarrow> relay_sys
   \<Rightarrow> (connection \<times> relay_sys) \<times> string list \<times> js_error option" where
  "on_data e clock chunk c s =
    (let buffer = cn_buffer c @ chunk in
     if length buffer > MAX_MESSAGE_SIZE then
       ((\<lparr>cn_buffer = buffer, cn_open = False\<rparr>, s),
        [stringify (refused ''Message too large'') @ [newline]], None)
     else
       (let ls = split_on newline buffer; t = serve_lines e clock 0 (butlast ls) s
        in ((c\<lparr>cn_buffer := last ls\<rparr>, fst t), snd t)))"

section \<open>Sealing cycles\<close>

definition seal_state_of :: "relay_daemon \<Rightarrow> seal_state" where
  "seal_state_of d =
    \<lparr>ss_chainTip = rd_chainTip d, ss_eventCount = rd_eventCount d,
     ss_lastSealEventCount = rd_lastSealEventCount d\<rparr>"

text \<open>
  \<open>runAutoSealCycle\<close> up to its await, and what follows it. The seal is in its file when the first
  half ends; the line of the witnesses, which nothing here reads, is written with it.
\<close>

definition begin_cycle :: "relay_env \<Rightarrow> seal_env \<Rightarrow> relay_sys \<Rightarrow> relay_sys" where
  "begin_cycle e se s =
    (let (d, fs) = s in
     case rd_config d of
       None \<Rightarrow> s
     | Some c \<Rightarrow>
         if rd_cycle d \<noteq> None then s
         else
           (let r = performAutoSealCycle e se (seal_state_of d) c (rf_seal fs)
            in (d\<lparr>rd_cycle := Some (snd r)\<rparr>, fs\<lparr>rf_seal := fst r\<rparr>)))"

definition finish_cycle :: "relay_env \<Rightarrow> relay_sys \<Rightarrow> relay_sys" where
  "finish_cycle e s =
    (let (d, fs) = s; d' = d\<lparr>rd_cycle := None\<rparr> in
     case rd_cycle d of
       Some (Inr r) \<Rightarrow>
         (case as_seal r of
            Some seal \<Rightarrow>
              if as_sealed r
              then (d'\<lparr>rd_lastSealEventCount := Some (JNum (int (sl_chained_events seal))),
                       rd_lastSealAt := re_date e (sl_sealed_at seal),
                       rd_totalSeals := Suc (rd_totalSeals d)\<rparr>, fs)
              else (d', fs)
          | None \<Rightarrow> (d', fs))
     | _ \<Rightarrow> (d', fs))"

section \<open>Start and stop\<close>

definition date_ms :: "relay_env \<Rightarrow> json option \<Rightarrow> int option result" where
  "date_ms e v =
    (case v of
       None \<Rightarrow> Inr None
     | Some (JStr s) \<Rightarrow> Inr (re_date e s)
     | Some (JArr vs) \<Rightarrow> bind_result (js_string (JArr vs)) (\<lambda>s. Inr (re_date e s))
     | Some (JObj ms) \<Rightarrow> bind_result (js_string (JObj ms)) (\<lambda>s. Inr (re_date e s))
     | Some w \<Rightarrow> js_number e w)"

definition recover_seal :: "relay_env \<Rightarrow> relay_files \<Rightarrow> relay_daemon \<Rightarrow> relay_daemon result" where
  "recover_seal e fs d =
    (let v = readLastSeal e (sf_seals (rf_seal fs)) in
     if \<not> truthy_json v then Inr d
     else bind_result (date_ms e (json_get (the v) ''sealed_at'')) (\<lambda>t.
       Inr (d\<lparr>rd_lastSealEventCount := json_get (the v) ''chained_events'', rd_lastSealAt := t\<rparr>)))"

record relay_options =
  ro_socket :: string
  ro_config_path :: string
  ro_config_file :: "string option"
  ro_stale_socket_removed :: bool

text \<open>What starting does outside its state: the arguments of \<open>chgrp\<close>, and whether sealing is timed.\<close>

record relay_started =
  st_sys :: relay_sys
  st_chgrp :: "string list option"
  st_auto_seal :: bool

definition start :: "relay_env \<Rightarrow> relay_options \<Rightarrow> moment \<Rightarrow> relay_files \<Rightarrow> relay_started result" where
  "start e opts mo fs =
    (let d = init e fs (new_daemon (mo_ms mo));
         c = fst (loadRelayConfig e (ro_config_path opts) (ro_config_file opts))
     in if \<not> ro_stale_socket_removed opts
        then Inl (Thrown (''Cannot remove stale socket at '' @ ro_socket opts))
        else bind_result (recover_seal e fs (d\<lparr>rd_config := Some c\<rparr>)) (\<lambda>d'.
          Inr \<lparr>st_sys = writeHeartbeat mo (d', fs),
               st_chgrp = (case rc_socket_group c of None \<Rightarrow> None | Some g \<Rightarrow> Some [g, ro_socket opts]),
               st_auto_seal = truthy_json (Some (ac_enabled (rc_auto_seal c)))\<rparr>))"

definition stop :: "moment \<Rightarrow> relay_sys \<Rightarrow> relay_sys" where
  "stop mo s = writeHeartbeat mo s"

end
