(* ===== verification/RelayTrust.thy ===== *)
theory RelayTrust
  imports RelaySigning JsonlChain CommitAttestor
begin

text \<open>
  What a signature of the relay says: which payloads it signs, which it never signs, and that what
  it signed it verifies, also through the client's proxy.
\<close>

section \<open>Encodings\<close>

lemma space_ends_number [simp]: "number_end (CHR '' '' # r)"
  by (simp add: number_end_def is_digit_def in_range_def)

lemma read_decimal_print:
  "read_decimal (print_int (int n) @ CHR '' '' # r)
    = (if n > SIGN_PAYLOAD_MAX_BYTES then None else Some (n, r))"
  by (simp add: read_decimal_def print_int_def Let_def digits_split [OF digits_of_digits])

lemma pae_payload_built:
  "pae_payload (dssePAE DSSE_PAYLOAD_TYPE p)
    = (if length p > SIGN_PAYLOAD_MAX_BYTES then None else Some p)"
proof -
  let ?r = "DSSE_PAYLOAD_TYPE @ CHR '' '' # print_int (int (length p)) @ CHR '' '' # p"
  have d: "drop (length DSSE_PAE_PREFIX) (dssePAE DSSE_PAYLOAD_TYPE p)
      = print_int (int (length DSSE_PAYLOAD_TYPE)) @ CHR '' '' # ?r"
    by (simp add: dssePAE_def DSSE_PAE_PREFIX_def)
  have n: "length DSSE_PAYLOAD_TYPE = 28" "28 \<le> SIGN_PAYLOAD_MAX_BYTES"
    "INTOTO_PAYLOAD_TYPE = DSSE_PAYLOAD_TYPE"
    by (simp_all add: DSSE_PAYLOAD_TYPE_def INTOTO_PAYLOAD_TYPE_def SIGN_PAYLOAD_MAX_BYTES_def)
  have t: "take 28 ?r = DSSE_PAYLOAD_TYPE" "?r ! 28 = CHR '' ''"
    "drop 29 ?r = print_int (int (length p)) @ CHR '' '' # p"
    using n(1) by (simp_all add: nth_append)
  show ?thesis
    unfolding pae_payload_def d read_decimal_print n(1) using n t
    by (simp add: read_decimal_print del: take_append drop_append)
qed

text \<open>
  A payload accepted as an encoding is one, up to leading zeros of the lengths: it names the in-toto
  type and carries nothing but the statement.
\<close>

lemma read_decimal_shape:
  assumes "read_decimal s = Some (n, r)"
  obtains ds where "s = ds @ CHR '' '' # r" "list_all is_digit ds" "ds \<noteq> []" "read_nat ds = n"
proof -
  have e: "s = takeWhile is_digit s @ dropWhile is_digit s" by simp
  from assms have "takeWhile is_digit s \<noteq> []" "read_nat (takeWhile is_digit s) = n"
    and h: "dropWhile is_digit s \<noteq> []" "hd (dropWhile is_digit s) = CHR '' ''" "tl (dropWhile is_digit s) = r"
    by (simp_all add: read_decimal_def Let_def split: if_splits)
  moreover have c: "dropWhile is_digit s = CHR '' '' # r" using h by (metis list.collapse)
  moreover have "list_all is_digit (takeWhile is_digit s)" by (auto simp: list_all_iff dest: set_takeWhileD)
  ultimately show thesis using e by (intro that [of "takeWhile is_digit s"]) simp_all
qed

lemma pae_payload_shape:
  assumes "pae_payload data = Some p" "starts_with data DSSE_PAE_PREFIX"
  obtains l m where "data = DSSE_PAE_PREFIX @ l @ '' '' @ INTOTO_PAYLOAD_TYPE @ '' '' @ m @ '' '' @ p"
    "list_all is_digit l" "list_all is_digit m" "read_nat l = length INTOTO_PAYLOAD_TYPE"
    "read_nat m = length p"
proof -
  from assms(1) obtain n r m where d: "read_decimal (drop (length DSSE_PAE_PREFIX) data) = Some (n, r)"
    and l: "n + 1 \<le> length r" and t: "take n r = INTOTO_PAYLOAD_TYPE" and c: "r ! n = CHR '' ''"
    and d2: "read_decimal (drop (n + 1) r) = Some (length p, p)"
    by (auto simp: pae_payload_def split: option.splits if_splits)
  have r: "r = INTOTO_PAYLOAD_TYPE @ CHR '' '' # drop (n + 1) r"
    using l t c id_take_nth_drop [of n r] by simp
  have n: "n = length INTOTO_PAYLOAD_TYPE" using t l by (metis length_take min.absorb2 Suc_eq_plus1 Suc_leD)
  from assms(2) have data: "data = DSSE_PAE_PREFIX @ drop (length DSSE_PAE_PREFIX) data"
    by (simp add: starts_with_def) (metis append_take_drop_id)
  obtain ds where ds: "drop (length DSSE_PAE_PREFIX) data = ds @ CHR '' '' # r" "list_all is_digit ds" "read_nat ds = n"
    using d by (rule read_decimal_shape)
  obtain es where es: "drop (n + 1) r = es @ CHR '' '' # p" "list_all is_digit es" "read_nat es = length p"
    using d2 by (rule read_decimal_shape)
  have "data = DSSE_PAE_PREFIX @ ds @ '' '' @ INTOTO_PAYLOAD_TYPE @ '' '' @ es @ '' '' @ p"
    using data ds(1) r es(1) by simp
  then show thesis using that ds(2,3) es(2,3) n by metis
qed

section \<open>Sorted values\<close>

lemma get_assigned:
  "k \<noteq> ''__proto__'' \<Longrightarrow> k \<in> set ks \<Longrightarrow> json_get (assigned vs ks) k = Some (the (map_of vs k))"
  "k \<notin> set ks \<Longrightarrow> json_get (assigned vs ks) k = None"
  by (auto simp: assigned_def set_own_order map_of_map_restrict restrict_map_def map_of_eq_None_iff)

lemma get_sorted:
  assumes "k \<noteq> ''__proto__''"
  shows "json_get (deepSortKeys (JObj ms)) k = map_option deepSortKeys (map_of ms k)"
proof (cases "map_of ms k")
  case None
  then have "k \<notin> fst ` set ms" by (simp add: map_of_eq_None_iff)
  with None show ?thesis by (simp add: get_assigned(2))
next
  case (Some v)
  then have "k \<in> fst ` set ms" by (force dest: map_of_SomeD)
  then have "k \<in> set (sort (map fst ms))" by simp
  from get_assigned(1) [OF assms this, of "map (\<lambda>m. (fst m, deepSortKeys (snd m))) ms"]
  show ?thesis unfolding deepSortKeys.simps map_of_map_snd Some by simp
qed

lemma own_order_plain:
  assumes "distinct ks" "\<forall>k \<in> set ks. \<not> is_index k"
  shows "distinct (own_order ks)" "\<forall>k \<in> set (own_order ks). \<not> is_index k"
proof -
  have f: "filter is_index (filter (\<lambda>k. k \<noteq> ''__proto__'') ks) = []"
    unfolding filter_empty_conv using assms(2) by (metis filter_is_subset subsetD)
  have "distinct (filter (\<lambda>k. \<not> is_index k) (filter (\<lambda>k. k \<noteq> ''__proto__'') ks))"
    by (intro distinct_filter assms(1))
  then show "distinct (own_order ks)" unfolding own_order_def Let_def f by simp
  show "\<forall>k \<in> set (own_order ks). \<not> is_index k" using assms(2) by (simp add: set_own_order)
qed

lemma plain_assigned:
  assumes "distinct ks" "set ks \<subseteq> fst ` set vs" "\<forall>(k, v) \<in> set vs. \<not> is_index k \<and> plain_json v"
  shows "plain_json (assigned vs ks)"
proof -
  have i: "\<forall>k \<in> set ks. \<not> is_index k" using assms(2,3) by fastforce
  have "plain_json (the (map_of vs k))" if "k \<in> set (own_order ks)" for k
  proof -
    have "k \<in> fst ` set vs" using that assms(2) by (auto simp: set_own_order)
    then obtain v where "map_of vs k = Some v" by (metis map_of_eq_None_iff not_Some_eq)
    with assms(3) show ?thesis by (auto dest: map_of_SomeD)
  qed
  with own_order_plain [OF assms(1) i] show ?thesis
    by (auto simp: assigned_def list_all_iff comp_def)
qed

lemma plain_sorted: "plain_json v \<Longrightarrow> plain_json (deepSortKeys v)"
proof (induction v)
  case (JArr vs)
  then show ?case by (auto simp: list_all_iff)
next
  case (JObj ms)
  have "plain_json (deepSortKeys w)" if "(k, w) \<in> set ms" for k w
    using JObj.IH [of "(k, w)" w] JObj.prems that by (auto simp: list_all_iff)
  then show ?case
    using JObj.prems unfolding deepSortKeys.simps
    by (intro plain_assigned) (auto simp: list_all_iff image_image)
qed simp_all

section \<open>What is signed\<close>

definition seal_prefix :: string where
  "seal_prefix = ''patchwork-seal:v1:''"

lemma seal_payload_prefix: "computeSealPayload t n s = Inr p \<Longrightarrow> starts_with p seal_prefix"
  by (auto simp: computeSealPayload_def seal_prefix_def starts_with_def split: if_splits)

lemma seals_not_classified: "starts_with p seal_prefix \<Longrightarrow> classifySignablePayload e p = None"
  by (auto simp: classifySignablePayload_def seal_prefix_def starts_with_iff DSSE_PAE_PREFIX_def)

lemma truthy_the: "truthy_json v \<Longrightarrow> v = Some (the v)"
  by (cases v) auto

lemma request_key_loads:
  assumes "hex_digest (re_sign e)" "request_key e random kid dir = (dir', Inr (k, key))"
  shows "truthy_json (Some k) \<and> bind_result (js_text (Some k)) (loadKeyById dir') = Inr key"
proof (cases "truthy_json kid")
  case True
  with assms(2) show ?thesis
    using truthy_the [OF True] by (auto simp: request_key_def result_simps)
next
  case False
  with assms(2) obtain i where i: "ensureKeyring (re_sign e) random dir = (dir', Inr (i, key))" "k = JStr i"
    by (auto simp: request_key_def Let_def result_simps prod_eq_iff)
  from ensure_loads [OF assms(1) i(1)] have l: "loadKeyById dir' i = Inr key" .
  then have "i \<noteq> []" by (auto simp: loadKeyById_def KEY_ID_RE_def)
  with l i(2) show ?thesis by (cases i) (simp_all add: js_text_def)
qed

lemma handleSign_ok:
  assumes "handleSign e now random payload dir = (dir', Inr resp)"
    and "json_get resp ''ok'' = Some (JBool True)"
  obtains s k key where "payload_member payload ''data'' = Some (JStr s)" "s \<noteq> []"
    "classifySignablePayload e s \<noteq> None" "length s \<le> SIGN_PAYLOAD_MAX_BYTES"
    "request_key e random (payload_member payload ''key_id'') dir = (dir', Inr (k, key))"
    "resp = JObj [(''ok'', JBool True), (''signature'', JStr (signSeal (re_sign e) s key)),
       (''key_id'', k), (''signed_at'', JStr now)]"
proof -
  let ?d = "payload_member payload ''data''"
  have n: "\<And>m. json_get (refused m) ''ok'' \<noteq> Some (JBool True)" by (simp add: refused_def)
  have t: "truthy_json ?d"
  proof (rule ccontr)
    assume "\<not> truthy_json ?d"
    with assms n show False by (simp add: handleSign_def Let_def) blast
  qed
  have l: "too_long e (the ?d) = Inr False"
    using assms n t by (auto simp: handleSign_def Let_def split: sum.splits if_splits)
  obtain s where s: "the ?d = JStr s"
    using assms t l by (cases "the ?d") (auto simp: handleSign_def Let_def)
  have c: "classifySignablePayload e s \<noteq> None"
  proof
    assume "classifySignablePayload e s = None"
    with assms n t l s show False by (simp add: handleSign_def Let_def) blast
  qed
  have run: "sign_text e now random s (payload_member payload ''key_id'') dir = (dir', resp)"
    using assms(1) t l s c by (cases "classifySignablePayload e s") (simp_all add: handleSign_def Let_def prod_eq_iff)
  define r where "r = request_key e random (payload_member payload ''key_id'') dir"
  have "\<nexists>x. snd r = Inl x" using run assms(2) n by (auto simp: sign_text_def Let_def r_def)
  then obtain k key where "snd r = Inr (k, key)" by (cases "snd r") auto
  moreover have "?d = Some (JStr s)" using truthy_the [OF t] s by simp
  moreover have "s \<noteq> []" using t calculation(2) by auto
  ultimately show thesis
    using run s l c
    by (intro that [of s k key]) (auto simp: r_def sign_text_def Let_def too_long_def prod_eq_iff)
qed

lemma handleSign_shape:
  assumes "handleSign e now random payload dir = (dir', Inr resp)"
  shows "(\<exists>m. resp = refused m) \<or> json_get resp ''ok'' = Some (JBool True)"
proof (cases "\<exists>s. resp = snd (sign_text e now random s (payload_member payload ''key_id'') dir)")
  case True
  then show ?thesis by (auto simp: sign_text_def Let_def split: sum.split)
next
  case False
  let ?d = "payload_member payload ''data''"
  show ?thesis
  proof (cases "truthy_json ?d \<and> too_long e (the ?d) = Inr False \<and> (\<exists>s. the ?d = JStr s)")
    case True
    then show ?thesis using False assms by (auto simp: handleSign_def Let_def split: if_splits)
  next
    case no: False
    then show ?thesis using assms
      by (auto simp: handleSign_def Let_def split: if_splits sum.splits json.splits)
  qed
qed

text \<open>The daemon verifies what it signed.\<close>

lemma sign_then_verify:
  assumes "hex_digest (re_sign e)" "handleSign e now random payload dir = (dir', Inr resp)"
    and "json_get resp ''ok'' = Some (JBool True)"
    and "payload_member payload2 ''data'' = payload_member payload ''data''"
      "payload_member payload2 ''signature'' = json_get resp ''signature''"
      "payload_member payload2 ''key_id'' = json_get resp ''key_id''"
  shows "handleVerify e payload2 dir' = Inr (JObj [(''ok'', JBool True), (''verified'', JBool True)])"
proof -
  obtain s k key where s: "payload_member payload ''data'' = Some (JStr s)" "s \<noteq> []"
    and r: "request_key e random (payload_member payload ''key_id'') dir = (dir', Inr (k, key))"
    and resp: "resp = JObj [(''ok'', JBool True), (''signature'', JStr (signSeal (re_sign e) s key)),
       (''key_id'', k), (''signed_at'', JStr now)]"
    using assms(2,3) by (rule handleSign_ok)
  have v: "verify_any e s (JStr (signSeal (re_sign e) s key)) key = Inr True"
    by (simp add: verify_any_def Let_def verifySeal_iff)
  have n: "signSeal (re_sign e) s key \<noteq> []" by (simp add: signSeal_def)
  show ?thesis
    using request_key_loads [OF assms(1) r] s n v
    by (cases s) (simp_all add: handleVerify_def Let_def assms(4-6) resp)
qed

section \<open>The payloads of Patchwork\<close>

lemma name_not_index: "k \<noteq> [] \<Longrightarrow> \<not> is_digit (hd k) \<Longrightarrow> \<not> is_index k"
  by (cases k) (auto simp: is_index_def)

lemma letter_not_digit: "is_alphau c \<Longrightarrow> \<not> is_digit c"
  by (auto simp: is_alphau_def is_upper_def is_digit_def in_range_def)

lemma plain_object:
  "plain_json (JObj ms) \<longleftrightarrow> distinct (map fst ms) \<and> (\<forall>(k, v) \<in> set ms. \<not> is_index k \<and> plain_json v)"
  by (auto simp: list_all_iff)

lemmas member_names = name_not_index is_digit_def in_range_def

lemma plain_claims:
  "distinct (map fst (session_claims a))" "\<forall>(k, v) \<in> set (session_claims a). \<not> is_index k \<and> plain_json v"
  by (simp_all add: session_claims_def member_names risk_summary_json_def nullable_str_def list_all_iff
      split: option.split)

lemma plain_statement: "plain_json (buildInTotoStatement a)"
  by (simp add: buildInTotoStatement_def member_names session_claims_def risk_summary_json_def
      nullable_str_def list_all_iff split: option.split)

lemma parse_sorted:
  "reads_own_lines (re_log e) \<Longrightarrow> plain_json v \<Longrightarrow> relay_parse e (stringify v) = Some v"
  by (simp add: relay_parse_def reads_own_lines_def)

text \<open>
  The risk summary of an attestation always counts its denials since the last commit, a name the
  relay's closed list for the predicate does not have: no statement built here is ever signed.
\<close>

lemma risk_summary_refused: "\<not> valid_risk_summary (Some (deepSortKeys (risk_summary_json r)))"
proof -
  let ?k = "''denials_high_risk_since_last_commit''"
  obtain ms v where ms: "risk_summary_json r = JObj ms" "map_of ms ?k = Some v"
    by (simp add: risk_summary_json_def)
  obtain rs where rs: "deepSortKeys (risk_summary_json r) = JObj rs"
    by (simp add: risk_summary_json_def assigned_def)
  have "json_get (JObj rs) ?k = map_option deepSortKeys (map_of ms ?k)"
    using get_sorted [of ?k ms] rs ms(1) by (simp del: deepSortKeys.simps)
  then have "map_of rs ?k \<noteq> None" by (simp add: ms(2))
  then have "?k \<in> fst ` set rs" by (simp add: map_of_eq_None_iff)
  moreover have "?k \<notin> set PATCHWORK_RISK_KEYS" by (simp add: PATCHWORK_RISK_KEYS_def)
  ultimately show ?thesis unfolding rs by (force simp: list_all_iff)
qed

lemma statement_invalid: "\<not> valid_statement (deepSortKeys (buildInTotoStatement a))"
proof -
  let ?p = "JObj ([(''schema_version'', JNum 1), (''generated_at'', JStr (ca_generated_at a)),
        (''tool_version'', JStr (ca_tool_version a))] @ session_claims a)"
  have st: "json_get (deepSortKeys (buildInTotoStatement a)) ''predicateType'' = Some (JStr PATCHWORK_PREDICATE_TYPE)"
    "json_get (deepSortKeys (buildInTotoStatement a)) ''predicate'' = Some (deepSortKeys ?p)"
    by (simp_all add: buildInTotoStatement_def get_sorted del: deepSortKeys.simps(2))
  have "json_get (deepSortKeys ?p) ''risk_summary'' = Some (deepSortKeys (risk_summary_json (ca_risk_summary a)))"
    by (simp add: get_sorted session_claims_def del: deepSortKeys.simps(2))
  then have "\<not> validatePatchworkAiAgentPredicate (deepSortKeys ?p)"
    using risk_summary_refused by (simp add: validatePatchworkAiAgentPredicate_def del: deepSortKeys.simps)
  then show ?thesis
    by (auto simp: valid_statement_def st PATCHWORK_PREDICATE_TYPE_def PATCHWORK_AI_AGENT_PREDICATE_TYPE_def
        simp del: deepSortKeys.simps split: option.splits json.splits list.splits)
qed

lemma statement_not_signable:
  assumes "reads_own_lines (re_log e)"
  shows "classifySignablePayload e
    (dssePAE DSSE_PAYLOAD_TYPE (canonical_statement (buildInTotoStatement a))) = None"
proof -
  let ?s = "deepSortKeys (buildInTotoStatement a)"
  have p: "relay_parse e (stringify ?s) = Some ?s"
    by (intro parse_sorted assms plain_sorted plain_statement)
  have "\<not> validateDssePae e (dssePAE DSSE_PAYLOAD_TYPE (stringify ?s))"
    using statement_invalid [of a] by (simp add: validateDssePae_def pae_payload_built p del: deepSortKeys.simps)
  moreover have "starts_with (dssePAE DSSE_PAYLOAD_TYPE q) DSSE_PAE_PREFIX" for q
    by (simp add: dssePAE_def DSSE_PAE_PREFIX_def starts_with_def)
  ultimately show ?thesis
    by (simp add: classifySignablePayload_def canonical_statement_def del: deepSortKeys.simps)
qed

text \<open>The attestation itself is a payload it signs.\<close>

lemma attestation_plain:
  "distinct (map fst (attestation_members a))"
  "\<forall>(k, v) \<in> set (attestation_members a). \<not> is_index k \<and> plain_json v"
  using plain_claims [of a]
  by (auto simp: attestation_members_def signing_members_def member_names session_claims_def split: option.splits)

lemma attestation_signable:
  assumes "reads_own_lines (re_log e)"
  shows "classifySignablePayload e (buildAttestationPayload (attestation_members a)) = Some CommitAttestationPayload"
proof -
  let ?ms = "attestation_members a"
  let ?vs = "map (\<lambda>m. (fst m, deepSortKeys (snd m))) ?ms"
  let ?ks = "sort (filter (\<lambda>k. k \<notin> set EXCLUDED_FIELDS) (map fst ?ms))"
  have v: "attested ?ms = assigned ?vs ?ks" by (simp add: attested_def)
  have "plain_json (assigned ?vs ?ks)"
  proof (rule plain_assigned)
    show "distinct ?ks" using attestation_plain(1) [of a] by simp
    show "set ?ks \<subseteq> fst ` set ?vs" by (auto simp: image_image)
    show "\<forall>(k, w) \<in> set ?vs. \<not> is_index k \<and> plain_json w"
      using attestation_plain(2) [of a] plain_sorted by fastforce
  qed
  then have p: "relay_parse e (buildAttestationPayload ?ms) = Some (assigned ?vs ?ks)"
    using parse_sorted [OF assms] by (simp add: buildAttestationPayload_def v)
  have k: "''type'' \<in> set ?ks" "''schema_version'' \<in> set ?ks"
    unfolding set_sort by (simp_all add: attestation_members_def EXCLUDED_FIELDS_def)
  have m: "map_of ?vs ''type'' = Some (JStr ''commit-attestation'')" "map_of ?vs ''schema_version'' = Some (JNum 1)"
    by (simp_all add: attestation_members_def)
  have "json_get (assigned ?vs ?ks) ''type'' = Some (JStr ''commit-attestation'')"
    "json_get (assigned ?vs ?ks) ''schema_version'' = Some (JNum 1)"
    using get_assigned(1) [OF _ k(1)] get_assigned(1) [OF _ k(2)] m by simp_all
  moreover have "is_JObj (assigned ?vs ?ks)" by (simp add: assigned_def)
  moreover have "starts_with (buildAttestationPayload ?ms) [CHR 0x7B]"
    by (simp add: buildAttestationPayload_def v assigned_def starts_with_def)
  moreover have "\<not> starts_with (buildAttestationPayload ?ms) DSSE_PAE_PREFIX"
    by (simp add: buildAttestationPayload_def v assigned_def starts_with_def DSSE_PAE_PREFIX_def)
  ultimately show ?thesis by (simp add: classifySignablePayload_def p)
qed

end
