(* ===== verification/RelayChain.thy ===== *)
theory RelayChain
  imports RelayDaemon RelayTrust
begin

text \<open>
  What the relay's files hold, whatever messages, heartbeats, sealing cycles and restarts come in
  whatever order: the log is a hash chain that only grows, the state is the one its recovery would
  find, and every seal commits to a prefix of the chain.
\<close>

section \<open>Steps\<close>

text \<open>
  A payload whose stored form is read back as an event: it does not call itself a heartbeat, and
  the member that the relay adds is not there already.
\<close>

definition honest :: "relay_env \<Rightarrow> string \<Rightarrow> bool" where
  "honest e raw \<longleftrightarrow>
    (case relay_parse e raw of
       None \<Rightarrow> True
     | Some msg \<Rightarrow>
         (case json_get msg ''payload'' of
            None \<Rightarrow> True
          | Some p \<Rightarrow> plain_json p \<and> json_get p ''type'' \<noteq> Some (JStr ''heartbeat'')
                      \<and> json_get p ''_relay_hash'' = None))"

inductive relay_step :: "relay_env \<Rightarrow> (string \<Rightarrow> bool) \<Rightarrow> relay_sys \<Rightarrow> relay_sys \<Rightarrow> bool" for e P where
  message: "P raw \<Longrightarrow> relay_step e P s (fst (processMessage e mo raw s))"
| beat: "relay_step e P s (writeHeartbeat mo s)"
| cycle_begins: "relay_step e P s (begin_cycle e se s)"
| cycle_ends: "relay_step e P s (finish_cycle e s)"
| restart: "start e opts mo (snd s) = Inr st \<Longrightarrow> relay_step e P s (st_sys st)"

definition relay_initial :: "files \<Rightarrow> int \<Rightarrow> relay_sys" where
  "relay_initial keyring now =
    (new_daemon now,
     \<lparr>rf_log = None, rf_seal = \<lparr>sf_seals = None, sf_witnesses = None, sf_keyring = keyring\<rparr>\<rparr>)"

section \<open>The invariant\<close>

definition is_beat :: "json \<Rightarrow> bool" where
  "is_beat v \<longleftrightarrow> json_get v ''type'' = Some (JStr ''heartbeat'')"

definition relay_events :: "json list \<Rightarrow> json list" where
  "relay_events ls = filter (\<lambda>v. \<not> is_beat v) ls"

definition relay_tip :: "json list \<Rightarrow> string option" where
  "relay_tip evs = (if evs = [] then None else string_member (last evs) ''_relay_hash'')"

text \<open>An event of the log: its hash is that of the rest of it, which names the hash before.\<close>

definition relay_linked :: "relay_env \<Rightarrow> string option \<Rightarrow> json \<Rightarrow> bool" where
  "relay_linked e prev v \<longleftrightarrow>
    string_member v ''_relay_hash''
      = Some (computeEventHash (hash_env_of (re_log e)) (json_remove ''_relay_hash'' v))
    \<and> (case json_get v ''_relay'' of
         None \<Rightarrow> False | Some r \<Rightarrow> json_get r ''relay_prev_hash'' = Some (nullable_str prev))"

fun relay_chain :: "relay_env \<Rightarrow> string option \<Rightarrow> json list \<Rightarrow> bool" where
  "relay_chain e prev [] \<longleftrightarrow> True"
| "relay_chain e prev (v # vs) \<longleftrightarrow>
     relay_linked e prev v \<and> relay_chain e (string_member v ''_relay_hash'') vs"

definition log_text :: "json list \<Rightarrow> string option" where
  "log_text vs = (if vs = [] then None else Some (concat (map log_line vs)))"

definition entry_ok :: "json \<Rightarrow> bool" where
  "entry_ok v \<longleftrightarrow> plain_json v \<and> is_JObj v"

text \<open>A seal commits to the first events of the log, as many as it says, under a key of the ring.\<close>

definition seal_covers :: "relay_env \<Rightarrow> files \<Rightarrow> json list \<Rightarrow> seal_record \<Rightarrow> bool" where
  "seal_covers e ring evs s \<longleftrightarrow>
    0 < sl_chained_events s \<and> sl_chained_events s \<le> length evs
    \<and> relay_tip (take (sl_chained_events s) evs) = Some (sl_tip_hash s)
    \<and> (\<exists>key p. loadKeyById ring (sl_key_id s) = Inr key
         \<and> computeSealPayload (sl_tip_hash s) (int (sl_chained_events s)) (sl_sealed_at s) = Inr p
         \<and> sl_signature s = signSeal (re_sign e) p key)"

definition sealed_mark :: "seal_record list \<Rightarrow> json option \<Rightarrow> bool" where
  "sealed_mark ss v \<longleftrightarrow>
    v = Some (JNum 0) \<or> (\<exists>s \<in> set ss. v = Some (JNum (int (sl_chained_events s))))"

definition pending_ok :: "seal_record list \<Rightarrow> auto_seal_result result option \<Rightarrow> bool" where
  "pending_ok ss c \<longleftrightarrow> (\<forall>r s. c = Some (Inr r) \<longrightarrow> as_seal r = Some s \<longrightarrow> s \<in> set ss)"

definition relay_inv :: "relay_env \<Rightarrow> json list \<Rightarrow> seal_record list \<Rightarrow> relay_sys \<Rightarrow> bool" where
  "relay_inv e ls ss s \<longleftrightarrow>
    rf_log (snd s) = log_text ls \<and> list_all entry_ok ls
    \<and> relay_chain e None (relay_events ls)
    \<and> rd_eventCount (fst s) = length (relay_events ls) \<and> rd_chainTip (fst s) = relay_tip (relay_events ls)
    \<and> sf_seals (rf_seal (snd s)) = log_text (map seal_json ss)
    \<and> list_all (seal_covers e (sf_keyring (rf_seal (snd s))) (relay_events ls)) ss
    \<and> (ss \<noteq> [] \<longrightarrow> map_of (sf_keyring (rf_seal (snd s))) ''ACTIVE'' \<noteq> None)
    \<and> sealed_mark ss (rd_lastSealEventCount (fst s)) \<and> pending_ok ss (rd_cycle (fst s))"

section \<open>Reading the log back\<close>

lemma append_log_text: "append_text (log_text ls) (log_line v) = log_text (ls @ [v])"
  by (simp add: append_text_def log_text_def)

lemma relay_events_append [simp]:
  "relay_events (ls @ [v]) = (if is_beat v then relay_events ls else relay_events ls @ [v])"
  by (simp add: relay_events_def)

lemma relay_chain_append:
  "relay_chain e prev (vs @ [v]) \<longleftrightarrow>
     relay_chain e prev vs \<and> relay_linked e (if vs = [] then prev else relay_tip vs) v"
  by (induction vs arbitrary: prev) (auto simp: relay_tip_def)

lemma relay_tip_append [simp]: "relay_tip (vs @ [v]) = string_member v ''_relay_hash''"
  by (simp add: relay_tip_def)

lemma linked_hash: "relay_linked e prev v \<Longrightarrow> string_member v ''_relay_hash'' \<noteq> None"
  by (simp add: relay_linked_def)

lemma recovered:
  assumes "reads_own_lines (re_log e)" "list_all entry_ok ls" "relay_chain e None (relay_events ls)"
  shows "recover_log e (log_text ls) = (length (relay_events ls), relay_tip (relay_events ls))"
proof -
  have "fold (recover_line e) (map stringify ls) (0, None)
      = (length (relay_events ls), relay_tip (relay_events ls))"
    using assms(2,3)
  proof (induction ls rule: rev_induct)
    case Nil
    show ?case by (simp add: relay_events_def relay_tip_def)
  next
    case (snoc v ls)
    have p: "relay_parse e (stringify v) = Some v" "v \<noteq> JNull"
      using assms(1) snoc.prems(1) by (auto simp: entry_ok_def relay_parse_def reads_own_lines_def)
    have "relay_chain e None (relay_events ls)"
      using snoc.prems(2) by (simp add: relay_chain_append split: if_splits)
    with snoc have ih: "fold (recover_line e) (map stringify ls) (0, None)
        = (length (relay_events ls), relay_tip (relay_events ls))" by simp
    show ?case
    proof (cases "is_beat v")
      case True
      then have "recover_line e (stringify v) st = st" for st by (simp add: recover_line_def p is_beat_def)
      with True show ?thesis by (simp add: ih)
    next
      case False
      then obtain h where "string_member v ''_relay_hash'' = Some h"
        using snoc.prems(2) linked_hash by (fastforce simp: relay_chain_append)
      with False have "recover_line e (stringify v) st = (Suc (fst st), Some h)" for st
        by (simp add: recover_line_def p is_beat_def)
      with False \<open>string_member v _ = _\<close> show ?thesis by (simp add: ih)
    qed
  qed
  then show ?thesis
    by (simp add: recover_log_def log_text_def content_lines_log relay_events_def relay_tip_def)
qed

section \<open>One step\<close>

lemma inherited_is_index: "\<not> is_index ''_relay''" "\<not> is_index ''_relay_hash''" "\<not> is_index ''received_at''"
    "\<not> is_index ''relay_prev_hash''"
  by (simp_all add: member_names)

text \<open>The event that is stored.\<close>

lemma stored_event_facts:
  assumes "event_schema le p \<noteq> None" "plain_json p" "json_get p ''_relay_hash'' = None"
    and "json_get p ''type'' \<noteq> Some (JStr ''heartbeat'')" "le = re_log e"
  shows "entry_ok (stored_event le mo prev p)" "\<not> is_beat (stored_event le mo prev p)"
    "relay_linked e prev (stored_event le mo prev p)"
    "string_member (stored_event le mo prev p) ''_relay_hash'' = Some (relay_hash le mo prev p)"
proof -
  obtain ms where p: "p = JObj ms" using assms(1) schema_object by blast
  let ?r = "JObj [(''received_at'', JStr (mo_iso mo)), (''relay_prev_hash'', nullable_str prev)]"
  define rs where "rs = obj_set ''_relay'' ?r ms"
  have ev: "relay_event le mo prev p = JObj rs" by (simp add: relay_event_def p rs_def put_json_def)
  have st: "stored_event le mo prev p = put_json ''_relay_hash'' (JStr (relay_hash le mo prev p)) (JObj rs)"
    by (simp add: stored_event_def ev)
  have g: "json_get (stored_event le mo prev p) k
      = (if k = ''_relay_hash'' then Some (JStr (relay_hash le mo prev p))
         else if k = ''_relay'' then Some ?r else map_of ms k)" for k
    by (simp add: st rs_def)
  have "plain_json ?r" by (simp add: inherited_is_index nullable_str_def split: option.split)
  then have "plain_json (JObj rs)"
    using plain_put [of ms "''_relay''" ?r] assms(2) by (simp add: p rs_def put_json_def inherited_is_index)
  then have "plain_json (stored_event le mo prev p)"
    unfolding st by (intro plain_put) (simp_all add: inherited_is_index)
  moreover have "is_JObj (stored_event le mo prev p)" by (simp add: st put_json_def)
  ultimately show "entry_ok (stored_event le mo prev p)" by (simp add: entry_ok_def)
  show "\<not> is_beat (stored_event le mo prev p)" unfolding is_beat_def g using assms(4) by (simp add: p)
  show h: "string_member (stored_event le mo prev p) ''_relay_hash'' = Some (relay_hash le mo prev p)"
    by (simp add: string_member_def g asString_def)
  have "''_relay_hash'' \<notin> fst ` set rs"
    using assms(3) by (simp add: p rs_def keys_obj_set map_of_eq_None_iff)
  then have "json_remove ''_relay_hash'' (stored_event le mo prev p) = JObj rs"
    by (force simp: st put_json_def filter_obj_set filter_id_conv)
  then show "relay_linked e prev (stored_event le mo prev p)"
    unfolding relay_linked_def h by (simp add: g relay_hash_def ev assms(5) [symmetric])
qed

lemma processMessage_cases:
  obtains (same) "fst (processMessage e mo raw s) = s"
  | (event) msg where "relay_parse e raw = Some msg"
      "fst (processMessage e mo raw s) = fst (processEvent e mo (json_get msg ''payload'') s)"
  | (sign) payload where "fst (processMessage e mo raw s)
      = (fst s, fst (on_keyring (handleSign e (mo_iso mo) (mo_random mo) payload) (snd s)))"
proof (cases "relay_parse e raw")
  case None
  then show thesis by (intro same) (simp add: processMessage_def)
next
  case (Some msg)
  have "fst (processMessage e mo raw s) = s
    \<or> fst (processMessage e mo raw s) = fst (processEvent e mo (json_get msg ''payload'') s)
    \<or> fst (processMessage e mo raw s)
        = (fst s, fst (on_keyring (handleSign e (mo_iso mo) (mo_random mo) (json_get msg ''payload'')) (snd s)))"
    unfolding processMessage_def Some option.case Let_def by (simp split: if_split)
  then show thesis using same event [OF Some] sign by metis
qed

text \<open>An event message leaves everything, or adds one event.\<close>

lemma processEvent_cases:
  obtains (refusal) "fst (processEvent e mo payload s) = s"
      "json_get (snd (processEvent e mo payload s)) ''ok'' = Some (JBool False)"
  | (stored) p where "payload = Some p" "event_schema (re_log e) p \<noteq> None"
      "truthy_json (event_hash p) \<longrightarrow> hash_matches (hash_env_of (re_log e)) p"
      "fst (processEvent e mo payload s) =
         ((fst s)\<lparr>rd_chainTip := Some (relay_hash (re_log e) mo (rd_chainTip (fst s)) p),
                  rd_eventCount := Suc (rd_eventCount (fst s))\<rparr>,
          (snd s)\<lparr>rf_log := append_text (rf_log (snd s))
                    (log_line (stored_event (re_log e) mo (rd_chainTip (fst s)) p))\<rparr>)"
      "snd (processEvent e mo payload s) = accepted (relay_hash (re_log e) mo (rd_chainTip (fst s)) p)"
proof -
  obtain d fs where s: "s = (d, fs)" by (cases s)
  have n: "json_get (refused m) ''ok'' = Some (JBool False)" for m by (simp add: refused_def)
  consider "\<not> truthy_json payload" | "truthy_json payload" by blast
  then show thesis
  proof cases
    case 1
    then show thesis by (intro refusal) (simp_all add: processEvent_def s n)
  next
    case 2
    then obtain p where p: "payload = Some p" by (cases payload) auto
    let ?bad = "event_schema (re_log e) p = None
      \<or> truthy_json (event_hash p) \<and> \<not> hash_matches (hash_env_of (re_log e)) p
      \<or> rf_log fs \<noteq> None \<and> mo_link mo \<or> mo_write mo \<noteq> None"
    show thesis
    proof (cases ?bad)
      case True
      with 2 show thesis by (intro refusal) (auto simp: processEvent_def s p n Let_def split: option.split)
    next
      case False
      with 2 show thesis by (intro stored [OF p]) (auto simp: processEvent_def s p Let_def)
    qed
  qed
qed

lemma ensure_active: "map_of dir ''ACTIVE'' \<noteq> None \<Longrightarrow> fst (ensureKeyring e k dir) = dir"
  by (auto simp: ensureKeyring_def Let_def split: option.split)

lemma handleSign_dir:
  assumes "map_of dir ''ACTIVE'' \<noteq> None"
  shows "fst (handleSign e now random payload dir) = dir"
proof -
  have "fst (request_key e random k dir) = dir" for k
    using ensure_active [OF assms] by (simp add: request_key_def Let_def)
  then show ?thesis
    by (simp add: handleSign_def sign_text_def Let_def split: sum.split json.split)
qed

section \<open>Preservation\<close>

lemma seal_covers_more:
  "seal_covers e ring evs s \<Longrightarrow> seal_covers e ring (evs @ later) s"
  by (auto simp: seal_covers_def)

lemma inv_event:
  assumes inv: "relay_inv e ls ss s" and ok: "event_schema (re_log e) p \<noteq> None" "plain_json p"
    "json_get p ''_relay_hash'' = None" "json_get p ''type'' \<noteq> Some (JStr ''heartbeat'')"
  shows "relay_inv e (ls @ [stored_event (re_log e) mo (rd_chainTip (fst s)) p]) ss
    ((fst s)\<lparr>rd_chainTip := Some (relay_hash (re_log e) mo (rd_chainTip (fst s)) p),
             rd_eventCount := Suc (rd_eventCount (fst s))\<rparr>,
     (snd s)\<lparr>rf_log := append_text (rf_log (snd s))
               (log_line (stored_event (re_log e) mo (rd_chainTip (fst s)) p))\<rparr>)"
proof -
  define v where "v = stored_event (re_log e) mo (rd_chainTip (fst s)) p"
  note f = stored_event_facts [OF ok(1-4) refl, where mo = mo and prev = "rd_chainTip (fst s)", folded v_def]
  have "relay_chain e None (relay_events ls @ [v])"
    using inv f(3) by (auto simp: relay_chain_append relay_inv_def relay_tip_def)
  then show ?thesis
    using inv f(1,2,4) unfolding v_def [symmetric]
    by (auto simp: relay_inv_def append_log_text list_all_iff intro: seal_covers_more)
qed

lemma inv_beat:
  assumes "relay_inv e ls ss s"
  shows "\<exists>ls'. relay_inv e ls' ss (writeHeartbeat mo s)"
proof (cases "mo_write mo")
  case (Some m)
  with assms show ?thesis by (cases s) (auto simp: writeHeartbeat_def)
next
  case None
  obtain d fs where s: "s = (d, fs)" by (cases s)
  let ?v = "heartbeat_record mo d"
  have "is_beat ?v" "entry_ok ?v"
    by (simp_all add: heartbeat_record_def is_beat_def entry_ok_def member_names nullable_str_def split: option.split)
  with assms None show ?thesis
    by (intro exI [of _ "ls @ [?v]"]) (simp add: s writeHeartbeat_def relay_inv_def append_log_text)
qed

lemma inv_sign:
  assumes inv: "relay_inv e ls ss s" and h: "hex_digest (re_sign e)"
  shows "relay_inv e ls ss (fst s, fst (on_keyring (handleSign e now random payload) (snd s)))"
proof (cases "ss = []")
  case True
  with inv show ?thesis by (simp add: relay_inv_def on_keyring_def Let_def)
next
  case False
  with inv have "map_of (sf_keyring (rf_seal (snd s))) ''ACTIVE'' \<noteq> None" by (simp add: relay_inv_def)
  from handleSign_dir [OF this] inv show ?thesis by (simp add: relay_inv_def on_keyring_def Let_def)
qed

text \<open>A seal is written, or only the keyring may have been made.\<close>

lemma performSeal_cases:
  assumes "hex_digest (re_sign e)"
  obtains (none) "sf_seals (fst (performSeal e se st fs)) = sf_seals fs"
      "sf_keyring (fst (performSeal e se st fs))
         \<in> {sf_keyring fs, fst (ensureKeyring (re_sign e) (se_random se) (sf_keyring fs))}"
      "\<exists>x. snd (performSeal e se st fs) = Inl x"
  | (sealed) seal key p where "snd (performSeal e se st fs) = Inr seal"
      "ss_chainTip st = Some (sl_tip_hash seal)" "sl_chained_events seal = ss_eventCount st"
      "loadKeyById (sf_keyring (fst (performSeal e se st fs))) (sl_key_id seal) = Inr key"
      "computeSealPayload (sl_tip_hash seal) (int (sl_chained_events seal)) (sl_sealed_at seal) = Inr p"
      "sl_signature seal = signSeal (re_sign e) p key"
      "sf_seals (fst (performSeal e se st fs)) = append_text (sf_seals fs) (log_line (seal_json seal))"
      "sf_keyring (fst (performSeal e se st fs)) = fst (ensureKeyring (re_sign e) (se_random se) (sf_keyring fs))"
proof -
  let ?tip = "the (ss_chainTip st)"
  let ?r = "ensureKeyring (re_sign e) (se_random se) (sf_keyring fs)"
  let ?p = "computeSealPayload ?tip (int (ss_eventCount st)) (se_now se)"
  show thesis
  proof (cases "has_tip st \<and> (\<exists>i k p. snd ?r = Inr (i, k) \<and> ?p = Inr p) \<and> se_append_seal se = None")
    case False
    then show thesis
      by (intro none) (auto simp: performSeal_def Let_def bind_result_def split: sum.splits option.splits)
  next
    case True
    then obtain i k p where r: "snd ?r = Inr (i, k)" and p: "?p = Inr p" and w: "se_append_seal se = None"
      and t: "ss_chainTip st = Some ?tip" by (auto simp: has_tip_def truthy_def)
    have l: "loadKeyById (fst ?r) i = Inr k"
      using ensure_loads [OF assms, of "se_random se" "sf_keyring fs" "fst ?r" i k] r by (metis prod.collapse)
    show thesis
      using True r p w t l by (intro sealed) (auto simp: performSeal_def Let_def)
  qed
qed

text \<open>The cycle writes the seals that sealing writes, and reports no other.\<close>

lemma cycle_files:
  "sf_seals (fst (publishToWitnesses e se seal c fs)) = sf_seals fs"
  "sf_keyring (fst (publishToWitnesses e se seal c fs)) = sf_keyring fs"
  by (simp_all add: publishToWitnesses_def Let_def split: sum.split)

lemma cycle_cases:
  obtains (idle) "fst (performAutoSealCycle e se st c fs) = fs"
      "\<forall>r. snd (performAutoSealCycle e se st c fs) = Inr r \<longrightarrow> as_seal r = None"
  | (tried) "sf_seals (fst (performAutoSealCycle e se st c fs)) = sf_seals (fst (performSeal e se st fs))"
      "sf_keyring (fst (performAutoSealCycle e se st c fs)) = sf_keyring (fst (performSeal e se st fs))"
      "\<forall>r s. snd (performAutoSealCycle e se st c fs) = Inr r \<longrightarrow> as_seal r = Some s
         \<longrightarrow> snd (performSeal e se st fs) = Inr s"
proof (cases "shouldAutoSeal e st (rc_auto_seal c) = Inr True")
  case False
  then show thesis
    by (intro idle)
      (auto simp: performAutoSealCycle_def not_sealed_def result_simps split: sum.split if_split)
next
  case True
  show thesis
  proof (cases "snd (performSeal e se st fs)")
    case (Inl x)
    with True show thesis
      by (intro tried) (simp_all add: performAutoSealCycle_def Let_def not_sealed_def)
  next
    case (Inr seal)
    with True show thesis
      by (intro tried)
        (auto simp: performAutoSealCycle_def Let_def not_sealed_def cycle_files split: sum.splits if_splits)
  qed
qed

lemma pending_none [simp]: "pending_ok ss None"
  by (simp add: pending_ok_def)

lemma mark_more: "sealed_mark ss v \<Longrightarrow> sealed_mark (ss @ [s]) v"
  by (auto simp: sealed_mark_def)

lemma pending_more: "pending_ok ss c \<Longrightarrow> pending_ok (ss @ [s]) c"
  by (auto simp: pending_ok_def)

lemma generate_active: "map_of (fst (generateAndActivateKey e k dir)) ''ACTIVE'' \<noteq> None"
  by (simp add: generateAndActivateKey_def Let_def)

lemma ensured_active: "map_of (fst (ensureKeyring e k dir)) ''ACTIVE'' \<noteq> None"
  using generate_active [of e k dir] by (auto simp: ensureKeyring_def Let_def split: option.splits)

lemma tip_nonempty:
  "relay_chain e None evs \<Longrightarrow> relay_tip evs = Some t \<Longrightarrow> evs \<noteq> []"
  by (auto simp: relay_tip_def)

lemma inv_begin:
  assumes inv: "relay_inv e ls ss s" and h: "hex_digest (re_sign e)"
  shows "\<exists>ss'. relay_inv e ls ss' (begin_cycle e se s)"
proof -
  obtain d fs where s: "s = (d, fs)" by (cases s)
  show ?thesis
  proof (cases "rd_config d = None \<or> rd_cycle d \<noteq> None")
    case True
    then show ?thesis using inv s by (auto simp: begin_cycle_def split: option.split)
  next
    case False
    then obtain c where c: "rd_config d = Some c" "rd_cycle d = None" by auto
    let ?r = "performAutoSealCycle e se (seal_state_of d) c (rf_seal fs)"
    have b: "begin_cycle e se s = (d\<lparr>rd_cycle := Some (snd ?r)\<rparr>, fs\<lparr>rf_seal := fst ?r\<rparr>)"
      using c by (simp add: s begin_cycle_def Let_def)
    note I = inv [unfolded s relay_inv_def, simplified]
    show ?thesis
    proof (rule cycle_cases [of e se "seal_state_of d" c "rf_seal fs"])
      assume "fst ?r = rf_seal fs" "\<forall>r. snd ?r = Inr r \<longrightarrow> as_seal r = None"
      then show ?thesis using I by (intro exI [of _ ss]) (simp add: b relay_inv_def pending_ok_def)
    next
      let ?p = "performSeal e se (seal_state_of d) (rf_seal fs)"
      assume f: "sf_seals (fst ?r) = sf_seals (fst ?p)" "sf_keyring (fst ?r) = sf_keyring (fst ?p)"
        and p: "\<forall>r s. snd ?r = Inr r \<longrightarrow> as_seal r = Some s \<longrightarrow> snd ?p = Inr s"
      have keep: "sf_keyring (fst ?p) = sf_keyring (rf_seal fs)"
        if "ss \<noteq> []" "sf_keyring (fst ?p) \<in> {sf_keyring (rf_seal fs), fst (ensureKeyring (re_sign e) (se_random se) (sf_keyring (rf_seal fs)))}"
        using that I ensure_active by auto
      show ?thesis
      proof (rule performSeal_cases [OF h, of se "seal_state_of d" "rf_seal fs"])
        assume n: "sf_seals (fst ?p) = sf_seals (rf_seal fs)"
          "sf_keyring (fst ?p) \<in> {sf_keyring (rf_seal fs), fst (ensureKeyring (re_sign e) (se_random se) (sf_keyring (rf_seal fs)))}"
          "\<exists>x. snd ?p = Inl x"
        have "list_all (seal_covers e (sf_keyring (fst ?p)) (relay_events ls)) ss"
          using I keep [OF _ n(2)] by (cases "ss = []") simp_all
        moreover have "ss \<noteq> [] \<longrightarrow> map_of (sf_keyring (fst ?p)) ''ACTIVE'' \<noteq> None"
          using I keep [OF _ n(2)] by auto
        ultimately show ?thesis
          using I n p by (intro exI [of _ ss]) (auto simp: b relay_inv_def f pending_ok_def)
      next
        fix seal key q
        assume q: "snd ?p = Inr seal" "ss_chainTip (seal_state_of d) = Some (sl_tip_hash seal)"
          "sl_chained_events seal = ss_eventCount (seal_state_of d)"
          "loadKeyById (sf_keyring (fst ?p)) (sl_key_id seal) = Inr key"
          "computeSealPayload (sl_tip_hash seal) (int (sl_chained_events seal)) (sl_sealed_at seal) = Inr q"
          "sl_signature seal = signSeal (re_sign e) q key"
          "sf_seals (fst ?p) = append_text (sf_seals (rf_seal fs)) (log_line (seal_json seal))"
          "sf_keyring (fst ?p) = fst (ensureKeyring (re_sign e) (se_random se) (sf_keyring (rf_seal fs)))"
        have t: "relay_tip (relay_events ls) = Some (sl_tip_hash seal)" "sl_chained_events seal = length (relay_events ls)"
          using q(2,3) I by (simp_all add: seal_state_of_def)
        then have "seal_covers e (sf_keyring (fst ?p)) (relay_events ls) seal"
          using q(4-6) by (auto simp: seal_covers_def relay_tip_def)
        moreover have "list_all (seal_covers e (sf_keyring (fst ?p)) (relay_events ls)) ss"
          using I keep q(8) by (cases "ss = []") simp_all
        moreover have "map_of (sf_keyring (fst ?p)) ''ACTIVE'' \<noteq> None" unfolding q(8) by (rule ensured_active)
        moreover have "sf_seals (fst ?p) = log_text (map seal_json (ss @ [seal]))"
          using I by (simp add: q(7) append_log_text)
        moreover have "pending_ok (ss @ [seal]) (Some (snd ?r))" using p q(1) by (auto simp: pending_ok_def)
        ultimately show ?thesis
          using I by (intro exI [of _ "ss @ [seal]"]) (simp add: b relay_inv_def f mark_more)
      qed
    qed
  qed
qed

lemma inv_finish:
  assumes "relay_inv e ls ss s"
  shows "relay_inv e ls ss (finish_cycle e s)"
proof -
  obtain d fs where s: "s = (d, fs)" by (cases s)
  have "sealed_mark ss (Some (JNum (int (sl_chained_events seal))))"
    if "rd_cycle d = Some (Inr r)" "as_seal r = Some seal" for r seal
    using assms that by (auto simp: s relay_inv_def pending_ok_def sealed_mark_def)
  then show ?thesis
    using assms by (auto simp: s finish_cycle_def relay_inv_def Let_def split: option.split sum.split)
qed

text \<open>A restart finds the state it lost.\<close>

lemma seal_json_plain: "plain_json (seal_json s)"
  by (simp add: seal_json_def member_names)

lemma last_seal_read:
  assumes "reads_own_lines (re_log e)"
  shows "readLastSeal e (log_text (map seal_json ss)) = (if ss = [] then None else Some (seal_json (last ss)))"
proof (cases ss rule: rev_cases)
  case Nil
  then show ?thesis by (simp add: readLastSeal_def log_text_def)
next
  case (snoc xs x)
  have "relay_parse e (stringify (seal_json x)) = Some (seal_json x)"
    by (rule parse_sorted [OF assms seal_json_plain])
  moreover have "content_lines (concat (map log_line (map seal_json ss))) = map stringify (map seal_json ss)"
    by (rule content_lines_log)
  ultimately show ?thesis
    using snoc by (simp add: readLastSeal_def log_text_def Let_def comp_def seal_json_def)
qed

lemma inv_restart:
  assumes inv: "relay_inv e ls ss s" and r: "reads_own_lines (re_log e)" and st: "start e opts mo (snd s) = Inr st"
  shows "\<exists>ls'. relay_inv e ls' ss (st_sys st)"
proof -
  obtain d fs where s: "s = (d, fs)" by (cases s)
  note I = inv [unfolded s relay_inv_def, simplified]
  let ?d = "(init e fs (new_daemon (mo_ms mo)))\<lparr>rd_config := Some (fst (loadRelayConfig e (ro_config_path opts) (ro_config_file opts)))\<rparr>"
  obtain d' where d': "recover_seal e fs ?d = Inr d'" "st_sys st = writeHeartbeat mo (d', fs)"
    using st by (auto simp: s start_def Let_def result_simps split: if_splits)
  have rec: "recover_log e (rf_log fs) = (length (relay_events ls), relay_tip (relay_events ls))"
    using I recovered [OF r] by simp
  have d0: "rd_eventCount ?d = length (relay_events ls)" "rd_chainTip ?d = relay_tip (relay_events ls)"
    "rd_cycle ?d = None" "rd_lastSealEventCount ?d = Some (JNum 0)"
    by (simp_all add: init_def new_daemon_def rec Let_def)
  have "rd_eventCount d' = rd_eventCount ?d \<and> rd_chainTip d' = rd_chainTip ?d \<and> rd_cycle d' = rd_cycle ?d
      \<and> sealed_mark ss (rd_lastSealEventCount d')"
  proof (cases "ss = []")
    case True
    with d' I d0 show ?thesis
      by (simp add: recover_seal_def last_seal_read [OF r] sealed_mark_def del: list.map)
  next
    case False
    have "json_get (seal_json (last ss)) ''chained_events'' = Some (JNum (int (sl_chained_events (last ss))))"
      "json_get (seal_json (last ss)) ''sealed_at'' = Some (JStr (sl_sealed_at (last ss)))"
      "truthy_json (Some (seal_json (last ss)))"
      by (simp_all add: seal_json_def)
    with False d' I show ?thesis
      by (auto simp: recover_seal_def last_seal_read [OF r] sealed_mark_def date_ms_def)
  qed
  then have "relay_inv e ls ss (d', fs)" using I d0 by (simp add: relay_inv_def)
  then show ?thesis unfolding d'(2) by (rule inv_beat)
qed

section \<open>Reachable states\<close>

lemma relay_step_inv:
  assumes "relay_step e (honest e) s t" "relay_inv e ls ss s"
    and r: "reads_own_lines (re_log e)" and h: "hex_digest (re_sign e)"
  shows "\<exists>ls' ss'. relay_inv e ls' ss' t"
  using assms(1,2)
proof cases
  case (message raw mo)
  show ?thesis
  proof (rule processMessage_cases [of e mo raw s])
    assume "fst (processMessage e mo raw s) = s"
    with message assms(2) show ?thesis by auto
  next
    fix msg assume m: "relay_parse e raw = Some msg"
      "fst (processMessage e mo raw s) = fst (processEvent e mo (json_get msg ''payload'') s)"
    show ?thesis
    proof (rule processEvent_cases [of e mo "json_get msg ''payload''" s], goal_cases)
      case 1
      with m message assms(2) show ?case by auto
    next
      case (2 p)
      with message(2) m have "plain_json p" "json_get p ''_relay_hash'' = None"
        "json_get p ''type'' \<noteq> Some (JStr ''heartbeat'')" by (simp_all add: honest_def)
      with inv_event [OF assms(2) 2(2)] show ?case unfolding message(1) m(2) 2(4) by blast
    qed
  next
    fix payload assume "fst (processMessage e mo raw s)
      = (fst s, fst (on_keyring (handleSign e (mo_iso mo) (mo_random mo) payload) (snd s)))"
    with inv_sign [OF assms(2) h] show ?thesis unfolding message(1) by metis
  qed
next
  case (beat mo)
  with inv_beat [OF assms(2)] show ?thesis by metis
next
  case (cycle_begins se)
  with inv_begin [OF assms(2) h] show ?thesis by metis
next
  case cycle_ends
  with inv_finish [OF assms(2)] show ?thesis by metis
next
  case (restart opts mo st)
  with inv_restart [OF assms(2) r] show ?thesis by metis
qed

lemma relay_initial_inv: "relay_inv e [] [] (relay_initial ring now)"
  by (simp add: relay_inv_def relay_initial_def new_daemon_def log_text_def relay_events_def relay_tip_def
      sealed_mark_def)

lemma relay_reachable_inv:
  assumes "(relay_step e (honest e))\<^sup>*\<^sup>* (relay_initial ring now) s"
    and "reads_own_lines (re_log e)" "hex_digest (re_sign e)"
  shows "\<exists>ls ss. relay_inv e ls ss s"
  using assms(1)
proof (induction rule: rtranclp_induct)
  case base
  show ?case using relay_initial_inv by blast
next
  case (step s t)
  with relay_step_inv [OF step(2) _ assms(2,3)] show ?case by blast
qed

section \<open>The log only grows\<close>

definition file_text :: "string option \<Rightarrow> string" where
  "file_text f = (case f of None \<Rightarrow> [] | Some t \<Rightarrow> t)"

lemma file_text_append [simp]: "file_text (append_text f t) = file_text f @ t"
  by (simp add: file_text_def append_text_def split: option.split)

definition relay_log_grows :: "relay_sys \<Rightarrow> relay_sys \<Rightarrow> bool" where
  "relay_log_grows s t \<longleftrightarrow> (\<exists>later. file_text (rf_log (snd t)) = file_text (rf_log (snd s)) @ later)"

lemma relay_log_grows_same: "rf_log (snd t) = rf_log (snd s) \<Longrightarrow> relay_log_grows s t"
  by (simp add: relay_log_grows_def)

lemma relay_log_grows_trans: "relay_log_grows s t \<Longrightarrow> relay_log_grows t u \<Longrightarrow> relay_log_grows s u"
  by (auto simp: relay_log_grows_def)

lemma relay_log_grows_beat: "relay_log_grows (d, fs) (writeHeartbeat mo (d', fs))"
  by (simp add: relay_log_grows_def writeHeartbeat_def)

lemma relay_log_grows_step:
  assumes "relay_step e P s t"
  shows "relay_log_grows s t"
  using assms
proof cases
  case (message raw mo)
  then show ?thesis
  proof (cases rule: processMessage_cases [of e mo raw s])
    case (event msg)
    then show ?thesis using message
      by (cases rule: processEvent_cases [of e mo "json_get msg ''payload''" s]) (simp_all add: relay_log_grows_def)
  qed (simp_all add: relay_log_grows_same on_keyring_def Let_def)
next
  case (beat mo)
  then show ?thesis using relay_log_grows_beat [of "fst s" "snd s" mo "fst s"] by simp
next
  case (cycle_begins se)
  then show ?thesis
    by (cases s) (auto intro!: relay_log_grows_same simp: begin_cycle_def Let_def split: option.split)
next
  case cycle_ends
  then show ?thesis
    by (cases s) (auto intro!: relay_log_grows_same simp: finish_cycle_def Let_def split: option.split sum.split)
next
  case (restart opts mo st)
  then show ?thesis
    using relay_log_grows_beat [of "fst s" "snd s" mo]
    by (auto simp: start_def Let_def result_simps split: if_splits)
qed

section \<open>Chunks\<close>

text \<open>Lines served in two groups are the lines served at once, as long as the clock goes on.\<close>

fun messages :: "string list \<Rightarrow> nat" where
  "messages [] = 0"
| "messages (l # ls) = (if trim l = [] then messages ls else Suc (messages ls))"

lemma serve_lines_append:
  "serve_lines e clock n (ls @ ks) s =
    (let (s', out, x) = serve_lines e clock n ls s in
     case x of
       Some err \<Rightarrow> (s', out, x)
     | None \<Rightarrow> (let (s'', out', x') = serve_lines e clock (n + messages ls) ks s' in (s'', out @ out', x')))"
proof (induction ls arbitrary: n s)
  case Nil
  show ?case by (simp add: Let_def split: prod.split)
next
  case (Cons l ls)
  show ?case
  proof (cases "trim l = []")
    case True
    obtain s' out x where r: "serve_lines e clock n ls s = (s', out, x)" by (metis prod_cases3)
    with True Cons.IH [of n s] show ?thesis by (cases x) auto
  next
    case False
    obtain s' r where p: "processMessage e (clock n) l s = (s', r)" by (metis surj_pair)
    show ?thesis
    proof (cases r)
      case (Inl x)
      with False p show ?thesis by simp
    next
      case (Inr v)
      obtain t out x where r: "serve_lines e clock (Suc n) ls s' = (t, out, x)" by (metis prod_cases3)
      with Inr False p Cons.IH [of "Suc n" s'] show ?thesis by (cases x) (auto simp: Let_def split: prod.splits)
    qed
  qed
qed

lemma split_on_not_Nil [simp]: "split_on d s \<noteq> []"
  by (induction s) (auto split: list.split)

lemma split_on_append:
  "split_on d (a @ b) = butlast (split_on d a) @ split_on d (last (split_on d a) @ b)"
proof (induction a)
  case (Cons c cs)
  then show ?case by (cases "split_on d cs") (auto simp: split_on_not_Nil)
qed simp

lemma length_last_split: "length (last (split_on d s)) \<le> length s"
proof (induction s)
  case (Cons c cs)
  then show ?case by (cases "split_on d cs") auto
qed simp

lemma serve_lines_shift:
  "serve_lines e (\<lambda>i. clock (m + i)) n ls s = serve_lines e clock (m + n) ls s"
  by (induction ls arbitrary: n s) (simp_all split: prod.split sum.split)

definition complete_lines :: "connection \<Rightarrow> string \<Rightarrow> nat" where
  "complete_lines c chunk = messages (butlast (split_on newline (cn_buffer c @ chunk)))"

lemma chunks_join:
  assumes "length (cn_buffer c @ a @ b) \<le> MAX_MESSAGE_SIZE"
    and "on_data e clock a c s = ((c', s'), out, None)"
  shows "on_data e clock (a @ b) c s =
    (let r = on_data e (\<lambda>i. clock (complete_lines c a + i)) b c' s'
     in (fst r, out @ fst (snd r), snd (snd r)))"
proof -
  let ?l = "split_on newline (cn_buffer c @ a)"
  have sp: "split_on newline (cn_buffer c @ a @ b) = butlast ?l @ split_on newline (last ?l @ b)"
    using split_on_append [of newline "cn_buffer c @ a" b] by simp
  have "length (cn_buffer c @ a) \<le> MAX_MESSAGE_SIZE" using assms(1) by simp
  then have one: "c' = c\<lparr>cn_buffer := last ?l\<rparr>" "serve_lines e clock 0 (butlast ?l) s = (s', out, None)"
    using assms(2) by (auto simp: on_data_def Let_def prod_eq_iff)
  have len: "length (last ?l @ b) \<le> MAX_MESSAGE_SIZE"
    using length_last_split [of newline "cn_buffer c @ a"] assms(1) by simp
  obtain t out2 x where two: "serve_lines e clock (messages (butlast ?l)) (butlast (split_on newline (last ?l @ b))) s'
      = (t, out2, x)" by (metis prod_cases3)
  have bl: "butlast (split_on newline (cn_buffer c @ a @ b)) = butlast ?l @ butlast (split_on newline (last ?l @ b))"
    "last (split_on newline (cn_buffer c @ a @ b)) = last (split_on newline (last ?l @ b))"
    unfolding sp by (simp_all add: butlast_append)
  show ?thesis
    using assms(1) len one two bl
    by (simp add: on_data_def Let_def serve_lines_append serve_lines_shift [where n = 0, simplified] complete_lines_def)
qed

end
