(* ===== verification/RelayClient.thy ===== *)
theory RelayClient
  imports RelayChain
begin

text \<open>
  The clients of the relay daemon: delivery of events with the divergence marker
  (\<^verbatim>\<open>packages/core/src/relay/client.ts\<close>), the assessment of the relay's health
  (\<^verbatim>\<open>relay/health.ts\<close>), and the signing proxy's requests as lines the daemon answers
  (\<^verbatim>\<open>relay/signing-proxy.ts\<close>). A delivery is the sequence of what its socket and timers report.
\<close>

section \<open>The divergence marker\<close>

record divergence_marker =
  dm_failure_count :: int
  dm_first_failure_at :: string
  dm_last_failure_at :: string
  dm_last_error :: string
  dm_last_relay_hash :: "json option"

definition marker_json :: "divergence_marker \<Rightarrow> json" where
  "marker_json m = JObj (members
    [(''schema_version'', Some (JNum 1)), (''failure_count'', Some (JNum (dm_failure_count m))),
     (''first_failure_at'', Some (JStr (dm_first_failure_at m))),
     (''last_failure_at'', Some (JStr (dm_last_failure_at m))),
     (''last_error'', Some (JStr (dm_last_error m))), (''last_relay_hash'', dm_last_relay_hash m)])"

definition marker_of :: "json \<Rightarrow> divergence_marker option" where
  "marker_of parsed =
    (case (json_get parsed ''failure_count'', string_member parsed ''first_failure_at'',
           string_member parsed ''last_failure_at'', string_member parsed ''last_error'') of
       (Some (JNum n), Some f, Some l, Some m) \<Rightarrow>
         if json_get parsed ''schema_version'' = Some (JNum 1)
         then Some \<lparr>dm_failure_count = n, dm_first_failure_at = f, dm_last_failure_at = l,
                    dm_last_error = m, dm_last_relay_hash = json_get parsed ''last_relay_hash''\<rparr>
         else None
     | _ \<Rightarrow> None)"

definition readRelayDivergenceMarker :: "relay_env \<Rightarrow> string option \<Rightarrow> divergence_marker option" where
  "readRelayDivergenceMarker e file =
    (case file of
       None \<Rightarrow> None
     | Some content \<Rightarrow>
         (case relay_parse e content of None \<Rightarrow> None | Some parsed \<Rightarrow> marker_of parsed))"

definition marker_text :: "divergence_marker \<Rightarrow> string" where
  "marker_text m = stringify_indented 0 (marker_json m) @ [newline]"

text \<open>A clock and whether the marker can be written.\<close>

record client_env =
  ce_now :: string
  ce_write_ok :: bool

definition next_marker :: "string \<Rightarrow> string \<Rightarrow> divergence_marker option \<Rightarrow> divergence_marker" where
  "next_marker now message existing =
    (case existing of
       None \<Rightarrow> \<lparr>dm_failure_count = 1, dm_first_failure_at = now, dm_last_failure_at = now,
               dm_last_error = message, dm_last_relay_hash = None\<rparr>
     | Some m \<Rightarrow> \<lparr>dm_failure_count = dm_failure_count m + 1,
                 dm_first_failure_at = dm_first_failure_at m, dm_last_failure_at = now,
                 dm_last_error = message, dm_last_relay_hash = dm_last_relay_hash m\<rparr>)"

definition recordRelayDivergence ::
  "relay_env \<Rightarrow> client_env \<Rightarrow> string \<Rightarrow> string option \<Rightarrow> string option" where
  "recordRelayDivergence e c message file =
    (let m = next_marker (ce_now c) message (readRelayDivergenceMarker e file)
     in if ce_write_ok c then Some (marker_text m) else file)"

section \<open>Delivery\<close>

datatype socket_report =
    ConnectThrows string
  | TimedOut
  | Written
  | Reply string
  | SocketError string

record delivery =
  dl_timer :: bool
  dl_settled :: bool
  dl_reading :: bool
  dl_marker :: "string option"

definition event_message :: "string \<Rightarrow> json \<Rightarrow> string" where
  "event_message now event = log_line (JObj
    [(''protocol_version'', JNum RELAY_PROTOCOL_VERSION), (''type'', JStr ''event''),
     (''timestamp'', JStr now), (''payload'', event)])"

definition record_failure :: "relay_env \<Rightarrow> client_env \<Rightarrow> string \<Rightarrow> delivery \<Rightarrow> delivery" where
  "record_failure e c reason d = d\<lparr>dl_marker := recordRelayDivergence e c reason (dl_marker d)\<rparr>"

definition fail_once :: "relay_env \<Rightarrow> client_env \<Rightarrow> string \<Rightarrow> delivery \<Rightarrow> delivery" where
  "fail_once e c reason d =
    (if dl_settled d then d else record_failure e c reason (d\<lparr>dl_settled := True\<rparr>))"

text \<open>The answer, read once; what does not parse, null, and an error without text are ignored.\<close>

definition read_reply :: "relay_env \<Rightarrow> client_env \<Rightarrow> string \<Rightarrow> delivery \<Rightarrow> delivery" where
  "read_reply e c chunk d =
    (if \<not> dl_reading d then d
     else
       (let d' = d\<lparr>dl_reading := False\<rparr> in
        case relay_parse e (trim chunk) of
          None \<Rightarrow> d'
        | Some resp \<Rightarrow>
            if resp = JNull \<or> truthy_json (json_get resp ''ok'') then d'
            else (case js_text (json_get resp ''error'') of
                    Inl x \<Rightarrow> d' | Inr t \<Rightarrow> record_failure e c (''Relay rejected: '' @ t) d')))"

fun sendToRelay_report :: "relay_env \<Rightarrow> client_env \<Rightarrow> socket_report \<Rightarrow> delivery \<Rightarrow> delivery" where
  "sendToRelay_report e c TimedOut d =
     (if dl_timer d then fail_once e c ''Relay connection timed out'' (d\<lparr>dl_timer := False\<rparr>) else d)"
| "sendToRelay_report e c Written d = d\<lparr>dl_timer := False, dl_settled := True, dl_reading := True\<rparr>"
| "sendToRelay_report e c (Reply chunk) d = read_reply e c chunk d"
| "sendToRelay_report e c (SocketError m) d = fail_once e c (''Socket error: '' @ m) (d\<lparr>dl_timer := False\<rparr>)"
| "sendToRelay_report e c (ConnectThrows m) d =
     fail_once e c (''Connection failed: '' @ m) (d\<lparr>dl_timer := False\<rparr>)"

fun sendToRelayAsync_report :: "relay_env \<Rightarrow> client_env \<Rightarrow> socket_report \<Rightarrow> delivery \<Rightarrow> delivery" where
  "sendToRelayAsync_report e c TimedOut d =
     (if dl_timer d then record_failure e c ''Relay connection timed out'' (d\<lparr>dl_timer := False\<rparr>) else d)"
| "sendToRelayAsync_report e c Written d = d\<lparr>dl_timer := False, dl_reading := True\<rparr>"
| "sendToRelayAsync_report e c (Reply chunk) d = read_reply e c chunk d"
| "sendToRelayAsync_report e c (SocketError m) d =
     record_failure e c (''Socket error: '' @ m) (d\<lparr>dl_timer := False\<rparr>)"
| "sendToRelayAsync_report e c (ConnectThrows m) d = d"

definition sendToRelay ::
  "relay_env \<Rightarrow> client_env \<Rightarrow> bool \<Rightarrow> socket_report list \<Rightarrow> string option \<Rightarrow> string option" where
  "sendToRelay e c socket reports marker =
    (if \<not> socket then marker
     else dl_marker (fold (sendToRelay_report e c) reports
            \<lparr>dl_timer = True, dl_settled = False, dl_reading = False, dl_marker = marker\<rparr>))"

definition sendToRelayAsync ::
  "relay_env \<Rightarrow> client_env \<Rightarrow> bool \<Rightarrow> socket_report list \<Rightarrow> string option \<Rightarrow> string option" where
  "sendToRelayAsync e c socket reports marker =
    (if \<not> socket then marker
     else dl_marker (fold (sendToRelayAsync_report e c) reports
            \<lparr>dl_timer = True, dl_settled = False, dl_reading = False, dl_marker = marker\<rparr>))"

text \<open>The first report that settles a ping; \<open>None\<close> is null.\<close>

fun pingRelay :: "relay_env \<Rightarrow> bool \<Rightarrow> socket_report list \<Rightarrow> json option" where
  "pingRelay e socket [] = None"
| "pingRelay e socket (r # rs) =
     (if \<not> socket then None
      else (case r of
              Reply chunk \<Rightarrow> relay_parse e (trim chunk)
            | Written \<Rightarrow> pingRelay e socket rs
            | _ \<Rightarrow> None))"

section \<open>Health\<close>

definition DEFAULT_MAX_SILENCE_MS :: int where
  "DEFAULT_MAX_SILENCE_MS = 5 * 60000"

definition DEFAULT_DIVERGENCE_WINDOW_MS :: int where
  "DEFAULT_DIVERGENCE_WINDOW_MS = 60 * 60000"

datatype health_status = Pass | Stale | Fail

record health_scan =
  hs_events :: nat
  hs_heartbeats :: nat
  hs_corrupt :: nat
  hs_newest :: "int option"
  hs_last_at :: "string option"

record health_report =
  hr_status :: health_status
  hr_scan :: health_scan
  hr_silence :: "int option"
  hr_failures :: int
  hr_divergence_age :: "int option"
  hr_reasons :: "string list"
  hr_notes :: "string list"

definition count_heartbeat :: "relay_env \<Rightarrow> json \<Rightarrow> health_scan \<Rightarrow> health_scan" where
  "count_heartbeat e v st =
    (let st1 = st\<lparr>hs_heartbeats := Suc (hs_heartbeats st)\<rparr> in
     case string_member v ''timestamp'' of
       None \<Rightarrow> st1
     | Some ts \<Rightarrow>
         (case re_date e ts of
            None \<Rightarrow> st1
          | Some t \<Rightarrow>
              if (case hs_newest st of None \<Rightarrow> True | Some n \<Rightarrow> t > n)
              then st1\<lparr>hs_newest := Some t, hs_last_at := Some ts\<rparr> else st1))"

text \<open>A line that is null is not guarded: reading its type throws.\<close>

fun scan_lines :: "relay_env \<Rightarrow> string list \<Rightarrow> health_scan \<Rightarrow> health_scan result" where
  "scan_lines e [] st = Inr st"
| "scan_lines e (l # ls) st =
     (case relay_parse e l of
        None \<Rightarrow> scan_lines e ls (st\<lparr>hs_corrupt := Suc (hs_corrupt st)\<rparr>)
      | Some v \<Rightarrow>
          if v = JNull then Inl (TypeError ''Cannot read properties of null (reading type)'')
          else if json_get v ''type'' = Some (JStr ''heartbeat'') then scan_lines e ls (count_heartbeat e v st)
          else scan_lines e ls (st\<lparr>hs_events := Suc (hs_events st)\<rparr>))"

text \<open>\<open>Math.round(ms / unit)\<close>.\<close>

definition rounded :: "int \<Rightarrow> int \<Rightarrow> int" where
  "rounded ms u = (2 * ms + u) div (2 * u)"

definition formatAge :: "int \<Rightarrow> string" where
  "formatAge ms =
    (if ms < 60000 then print_int (rounded ms 1000) @ ''s''
     else if ms < 3600000 then print_int (rounded ms 60000) @ ''m''
     else if ms < 86400000 then print_int (rounded ms 3600000) @ ''h''
     else print_int (rounded ms 86400000) @ ''d'')"

definition deliveries :: "int \<Rightarrow> string" where
  "deliveries n = print_int n @ '' failed deliver'' @ (if n = 1 then ''y'' else ''ies'')"

definition corrupt_reasons :: "nat \<Rightarrow> string list" where
  "corrupt_reasons n =
    (if n > 0 then [print_int (int n) @ '' unparseable line'' @ (if n = 1 then [] else ''s'') @ '' in the relay log'']
     else [])"

definition silence_reasons :: "int \<Rightarrow> int option \<Rightarrow> health_scan \<Rightarrow> string list" where
  "silence_reasons maxSilence silence sc =
    (if hs_events sc = 0 \<and> hs_heartbeats sc = 0
     then [''relay log is empty '' @ em_dash @ '' the relay has received nothing'']
     else (case silence of
             None \<Rightarrow> [''no heartbeat with a usable timestamp '' @ em_dash @ '' cannot establish liveness'']
           | Some ms \<Rightarrow>
               if ms > maxSilence
               then [''no heartbeat for '' @ print_int (rounded ms 60000) @ ''m (threshold ''
                     @ print_int (rounded maxSilence 60000) @ ''m) '' @ em_dash @ '' the daemon is not writing'']
               else []))"

text \<open>The reasons and the notes about failed deliveries.\<close>

definition divergence_reasons ::
  "int \<Rightarrow> int \<Rightarrow> int option \<Rightarrow> int \<Rightarrow> int option \<Rightarrow> string list \<times> string list" where
  "divergence_reasons maxSilence window silence failures age =
    (if failures \<le> 0 then ([], [])
     else
       (case age of
          None \<Rightarrow> ([], [deliveries failures @ '' recorded, with no usable timestamp '' @ em_dash @ '' age unknown''])
        | Some a \<Rightarrow>
            if a > window
            then ([], [deliveries failures @ '' recorded, most recently '' @ formatAge a @ '' ago '' @ em_dash
                    @ '' historical, not current. Those events are missing from the relay copy, but nothing is failing now.''])
            else if (case silence of None \<Rightarrow> False | Some ms \<Rightarrow> ms \<le> maxSilence)
            then ([deliveries failures @ '', most recently '' @ formatAge a @ '' ago, while the daemon is alive ''
                    @ em_dash @ '' the relay was reachable and still did not take the event''], [])
            else ([deliveries failures @ '', most recently '' @ formatAge a @ '' ago '' @ em_dash
                    @ '' hooks cannot reach the relay, so recent events are missing''], [])))"

definition divergence_age :: "relay_env \<Rightarrow> int \<Rightarrow> divergence_marker option \<Rightarrow> int option" where
  "divergence_age e now divergence =
    (case divergence of
       None \<Rightarrow> None
     | Some m \<Rightarrow> map_option (\<lambda>t. now - t) (re_date e (dm_last_failure_at m)))"

definition assessRelayHealth ::
  "relay_env \<Rightarrow> string \<Rightarrow> divergence_marker option \<Rightarrow> int \<Rightarrow> int \<Rightarrow> int \<Rightarrow> health_report result" where
  "assessRelayHealth e logContent divergence now maxSilence window =
    bind_result (scan_lines e (content_lines logContent)
        \<lparr>hs_events = 0, hs_heartbeats = 0, hs_corrupt = 0, hs_newest = None, hs_last_at = None\<rparr>) (\<lambda>sc.
      (let failures = (case divergence of None \<Rightarrow> 0 | Some m \<Rightarrow> dm_failure_count m);
           age = divergence_age e now divergence;
           silence = map_option (\<lambda>t. now - t) (hs_newest sc);
           corrupt = corrupt_reasons (hs_corrupt sc);
           stale = silence_reasons maxSilence silence sc
             @ fst (divergence_reasons maxSilence window silence failures age)
       in Inr \<lparr>hr_status = (if corrupt \<noteq> [] then Fail else if stale \<noteq> [] then Stale else Pass),
               hr_scan = sc, hr_silence = silence, hr_failures = failures, hr_divergence_age = age,
               hr_reasons = corrupt @ stale,
               hr_notes = snd (divergence_reasons maxSilence window silence failures age)\<rparr>))"

definition relayHealthExitCode :: "health_report \<Rightarrow> nat" where
  "relayHealthExitCode r = (case hr_status r of Fail \<Rightarrow> 1 | Stale \<Rightarrow> 2 | Pass \<Rightarrow> 0)"

section \<open>Requests of the signing proxy\<close>

definition sign_message :: "string \<Rightarrow> string \<Rightarrow> string option \<Rightarrow> json" where
  "sign_message now data keyId = JObj
    [(''protocol_version'', JNum RELAY_PROTOCOL_VERSION), (''type'', JStr ''sign''),
     (''timestamp'', JStr now),
     (''payload'', JObj (members [(''data'', Some (JStr data)), (''key_id'', opt_str (str_or keyId None))]))]"

definition verify_message :: "string \<Rightarrow> string \<Rightarrow> string \<Rightarrow> string \<Rightarrow> json" where
  "verify_message now data signature keyId = JObj
    [(''protocol_version'', JNum RELAY_PROTOCOL_VERSION), (''type'', JStr ''verify''),
     (''timestamp'', JStr now),
     (''payload'', JObj [(''data'', JStr data), (''signature'', JStr signature), (''key_id'', JStr keyId)])]"

text \<open>
  One request on a connection of its own: a line out, a line back. A daemon that an exception ended
  does not answer.
\<close>

definition sendRelayRequest :: "relay_env \<Rightarrow> moment \<Rightarrow> json \<Rightarrow> relay_sys \<Rightarrow> relay_sys \<times> json result" where
  "sendRelayRequest e mo msg s =
    (let r = processMessage e mo (stringify msg) s in
     (fst r, case snd r of
        Inl x \<Rightarrow> Inl (Thrown ''Relay request timed out'')
      | Inr resp \<Rightarrow>
          (case relay_parse e (trim (stringify resp @ [newline])) of
             None \<Rightarrow> Inl (Thrown ''Invalid relay response'') | Some v \<Rightarrow> Inr v)))"

definition sign_response_of :: "json \<Rightarrow> sign_response" where
  "sign_response_of v =
    \<lparr>sr_ok = truthy_json (json_get v ''ok''), sr_signature = string_member v ''signature'',
     sr_key_id = string_member v ''key_id'', sr_signed_at = string_member v ''signed_at'',
     sr_error = string_member v ''error''\<rparr>"

definition verify_response_of :: "json \<Rightarrow> verify_response" where
  "verify_response_of v =
    \<lparr>vr_ok = truthy_json (json_get v ''ok''),
     vr_verified = (json_get v ''verified'' = Some (JBool True)),
     vr_reason = string_member v ''reason''\<rparr>"

definition sendSignRequest ::
  "relay_env \<Rightarrow> moment \<Rightarrow> string \<Rightarrow> string \<Rightarrow> string option \<Rightarrow> relay_sys \<Rightarrow> relay_sys \<times> sign_response result" where
  "sendSignRequest e mo now data keyId s =
    (let r = sendRelayRequest e mo (sign_message now data keyId) s
     in (fst r, bind_result (snd r) (\<lambda>v. Inr (sign_response_of v))))"

definition sendVerifyRequest ::
  "relay_env \<Rightarrow> moment \<Rightarrow> string \<Rightarrow> string \<Rightarrow> string \<Rightarrow> string \<Rightarrow> relay_sys \<Rightarrow> verify_response result" where
  "sendVerifyRequest e mo now data signature keyId s =
    bind_result (snd (sendRelayRequest e mo (verify_message now data signature keyId) s))
      (\<lambda>v. Inr (verify_response_of v))"

section \<open>Facts\<close>

lemma trim_object: "trim (stringify (JObj ms) @ [newline]) = stringify (JObj ms)"
proof -
  have "\<not> is_space CHR 0x7B" "\<not> is_space CHR 0x7D" "is_space newline" by code_simp+
  then show ?thesis by (simp add: trim_def)
qed

lemma send_plain:
  assumes "reads_own_lines (re_log e)"
    and "processMessage e mo (stringify msg) s = (t, Inr resp)" "resp = JObj rs" "plain_json resp"
  shows "sendRelayRequest e mo msg s = (t, Inr resp)"
proof -
  have "relay_parse e (trim (stringify resp @ [newline])) = Some resp"
    unfolding assms(3) trim_object using parse_sorted [OF assms(1,4)] by (simp only: assms(3))
  then show ?thesis by (simp add: sendRelayRequest_def assms(2) Let_def)
qed

lemma sign_message_plain: "plain_json (sign_message now data keyId)"
  by (cases "str_or keyId None") (simp_all add: sign_message_def member_names opt_str_def add_member_def)

lemma verify_message_plain: "plain_json (verify_message now data signature keyId)"
  by (simp add: verify_message_def member_names)

text \<open>A signature that comes from the relay is the answer of its handler, which then verifies.\<close>

lemma sign_request_handled:
  assumes "reads_own_lines (re_log e)"
  shows "processMessage e mo (stringify (sign_message now data keyId)) s =
    (let r = on_keyring (handleSign e (mo_iso mo) (mo_random mo)
               (json_get (sign_message now data keyId) ''payload'')) (snd s)
     in ((fst s, fst r), snd r))"
  by (simp add: processMessage_def parse_sorted [OF assms sign_message_plain])
    (simp add: sign_message_def Let_def)

lemma verify_request_handled:
  assumes "reads_own_lines (re_log e)"
  shows "processMessage e mo (stringify (verify_message now data signature keyId)) s =
    (s, handleVerify e (json_get (verify_message now data signature keyId) ''payload'') (sf_keyring (rf_seal (snd s))))"
  by (simp add: processMessage_def parse_sorted [OF assms verify_message_plain])
    (simp add: verify_message_def Let_def)

lemma relay_signature_verifies:
  assumes r: "reads_own_lines (re_log e)" and h: "hex_digest (re_sign e)"
    and sent: "sendSignRequest e mo now data keyId s = (t, Inr resp)" and ok: "relay_signature resp = Some sig"
  shows "sendVerifyRequest e mo2 now2 data (sg_signature sig) (sg_key_id sig) t
    = Inr \<lparr>vr_ok = True, vr_verified = True, vr_reason = None\<rparr>"
proof -
  let ?pay = "json_get (sign_message now data keyId) ''payload''"
  obtain v where v: "sendRelayRequest e mo (sign_message now data keyId) s = (t, Inr v)"
    and resp: "resp = sign_response_of v"
    using sent by (auto simp: sendSignRequest_def Let_def result_simps prod_eq_iff)
  obtain a where a: "snd (processMessage e mo (stringify (sign_message now data keyId)) s) = Inr a"
    and t: "t = fst (processMessage e mo (stringify (sign_message now data keyId)) s)"
    and va: "relay_parse e (trim (stringify a @ [newline])) = Some v"
    using v by (auto simp: sendRelayRequest_def Let_def split: sum.splits option.splits)
  obtain dir' where hs: "handleSign e (mo_iso mo) (mo_random mo) ?pay (sf_keyring (rf_seal (snd s))) = (dir', Inr a)"
    and dir': "sf_keyring (rf_seal (snd t)) = dir'"
    using a t unfolding sign_request_handled [OF r] by (simp add: on_keyring_def Let_def prod_eq_iff)
  have kid: "payload_member ?pay ''key_id'' = map_option JStr (str_or keyId None)"
    by (cases "str_or keyId None") (simp_all add: sign_message_def payload_member_def opt_str_def)
  have dat: "payload_member ?pay ''data'' = Some (JStr data)"
    by (cases "str_or keyId None") (simp_all add: sign_message_def payload_member_def opt_str_def)
  have "(\<exists>m. a = refused m) \<or> json_get a ''ok'' = Some (JBool True)"
    using hs by (rule handleSign_shape)
  then have yes: "json_get a ''ok'' = Some (JBool True)"
  proof
    assume "\<exists>m. a = refused m"
    then obtain m where m: "a = JObj [(''ok'', JBool False), (''error'', JStr m)]" by (auto simp: refused_def)
    have "v = a" using va parse_sorted [OF r, of a] unfolding m trim_object by (simp add: member_names)
    then have "\<not> sr_ok resp" by (simp add: resp sign_response_of_def m)
    with ok show ?thesis by (auto simp: relay_signature_def split: option.splits)
  qed
  obtain d k key where d: "payload_member ?pay ''data'' = Some (JStr d)"
    and rk: "request_key e (mo_random mo) (payload_member ?pay ''key_id'') (sf_keyring (rf_seal (snd s))) = (dir', Inr (k, key))"
    and a': "a = JObj [(''ok'', JBool True), (''signature'', JStr (signSeal (re_sign e) d key)),
       (''key_id'', k), (''signed_at'', JStr (mo_iso mo))]"
    using hs yes by (rule handleSign_ok)
  obtain i where i: "k = JStr i"
    using rk unfolding kid
    by (cases "str_or keyId None") (auto simp: request_key_def Let_def result_simps prod_eq_iff split: if_splits)
  have va': "v = a" using va parse_sorted [OF r, of a] unfolding a' i trim_object by (simp add: member_names)
  have sig: "sg_signature sig = signSeal (re_sign e) d key" "sg_key_id sig = i"
    using ok by (auto simp: resp sign_response_of_def va' a' i string_member_def asString_def relay_signature_def
        split: option.splits elim!: str_or.elims)
  let ?vpay = "json_get (verify_message now2 data (sg_signature sig) (sg_key_id sig)) ''payload''"
  let ?yes = "JObj [(''ok'', JBool True), (''verified'', JBool True)]"
  have "handleVerify e ?vpay dir' = Inr ?yes"
    by (rule sign_then_verify [OF h hs yes])
      (simp_all only: dat, simp_all add: verify_message_def payload_member_def a' i sig)
  then have "processMessage e mo2 (stringify (verify_message now2 data (sg_signature sig) (sg_key_id sig))) t
      = (t, Inr ?yes)"
    unfolding verify_request_handled [OF r] dir' by simp
  from send_plain [OF r this refl] show ?thesis
    by (simp add: sendVerifyRequest_def verify_response_of_def member_names string_member_def asString_def)
qed

section \<open>Health of a log\<close>

lemma scan_newest:
  assumes "scan_lines e ls st = Inr sc" "hs_newest st \<noteq> None \<longrightarrow> hs_heartbeats st > 0"
  shows "hs_newest sc \<noteq> None \<longrightarrow> hs_heartbeats sc > 0"
  using assms
proof (induction ls arbitrary: st)
  case (Cons l ls)
  have "hs_newest (count_heartbeat e v st) \<noteq> None \<longrightarrow> hs_heartbeats (count_heartbeat e v st) > 0" for v
    by (simp add: count_heartbeat_def Let_def split: option.split)
  with Cons show ?case by (auto split: option.splits if_splits)
qed simp

lemma health_pass_iff:
  assumes "assessRelayHealth e content divergence now maxSilence window = Inr r"
  shows "hr_status r = Pass \<longleftrightarrow>
    hs_corrupt (hr_scan r) = 0
    \<and> (\<exists>t. hs_newest (hr_scan r) = Some t \<and> now - t \<le> maxSilence)
    \<and> (case divergence of
         None \<Rightarrow> True
       | Some m \<Rightarrow> dm_failure_count m \<le> 0
           \<or> (case re_date e (dm_last_failure_at m) of None \<Rightarrow> True | Some t \<Rightarrow> now - t > window))"
proof -
  obtain sc where sc: "scan_lines e (content_lines content)
      \<lparr>hs_events = 0, hs_heartbeats = 0, hs_corrupt = 0, hs_newest = None, hs_last_at = None\<rparr> = Inr sc"
    and r: "hr_scan r = sc"
    using assms by (auto simp: assessRelayHealth_def Let_def result_simps)
  have n: "hs_newest sc \<noteq> None \<longrightarrow> hs_heartbeats sc > 0" by (rule scan_newest [OF sc]) simp
  have s: "silence_reasons maxSilence (map_option (\<lambda>t. now - t) (hs_newest sc)) sc = []
      \<longleftrightarrow> (\<exists>t. hs_newest sc = Some t \<and> now - t \<le> maxSilence)"
    using n by (cases "hs_newest sc") (auto simp: silence_reasons_def)
  have c: "corrupt_reasons (hs_corrupt sc) = [] \<longleftrightarrow> hs_corrupt sc = 0" by (simp add: corrupt_reasons_def)
  show ?thesis
    using assms s c unfolding r
    by (auto simp: assessRelayHealth_def Let_def sc divergence_reasons_def divergence_age_def
        split: option.splits if_splits)
qed

text \<open>A daemon's own log scans without a corrupt line, and counts the daemon's events.\<close>

lemma scan_own_lines:
  assumes "reads_own_lines (re_log e)" "list_all entry_ok ls"
  shows "\<exists>sc. scan_lines e (map stringify ls) st = Inr sc \<and> hs_corrupt sc = hs_corrupt st
    \<and> hs_events sc = hs_events st + length (relay_events ls)"
  using assms(2)
proof (induction ls arbitrary: st)
  case Nil
  show ?case by (simp add: relay_events_def)
next
  case (Cons v ls)
  have p: "relay_parse e (stringify v) = Some v" "v \<noteq> JNull"
    using assms(1) Cons.prems by (auto simp: entry_ok_def relay_parse_def reads_own_lines_def)
  have c: "hs_corrupt (count_heartbeat e v st) = hs_corrupt st" "hs_events (count_heartbeat e v st) = hs_events st"
    by (simp_all add: count_heartbeat_def Let_def split: option.split)
  show ?case
  proof (cases "is_beat v")
    case True
    then show ?thesis using Cons.IH [of "count_heartbeat e v st"] Cons.prems p c
      by (simp add: is_beat_def relay_events_def)
  next
    case False
    then show ?thesis using Cons.IH [of "st\<lparr>hs_events := Suc (hs_events st)\<rparr>"] Cons.prems p
      by (simp add: is_beat_def relay_events_def)
  qed
qed

lemma health_of_own_log:
  assumes "relay_inv e ls ss s" "reads_own_lines (re_log e)"
  shows "\<exists>r. assessRelayHealth e (file_text (rf_log (snd s))) divergence now maxSilence window = Inr r
    \<and> hr_status r \<noteq> Fail \<and> hs_events (hr_scan r) = rd_eventCount (fst s)"
proof -
  have c: "content_lines (file_text (rf_log (snd s))) = map stringify ls"
    using assms(1) content_lines_log [of ls]
    by (auto simp: relay_inv_def log_text_def file_text_def content_lines_def trim_def)
  have l: "list_all entry_ok ls" "rd_eventCount (fst s) = length (relay_events ls)"
    using assms(1) by (simp_all add: relay_inv_def)
  from scan_own_lines [OF assms(2) l(1)]
  obtain sc where "scan_lines e (map stringify ls)
      \<lparr>hs_events = 0, hs_heartbeats = 0, hs_corrupt = 0, hs_newest = None, hs_last_at = None\<rparr> = Inr sc"
    "hs_corrupt sc = 0" "hs_events sc = length (relay_events ls)"
    by (metis (no_types, lifting) add_0 health_scan.select_convs(1,3))
  then show ?thesis
    by (simp add: assessRelayHealth_def c Let_def corrupt_reasons_def l(2))
qed

end
