(* ===== verification/RelayProperties.thy ===== *)
theory RelayProperties
  imports RelayClient IntegrityProperties CommitProperties
begin

text \<open>
  Properties of the relay daemon and its clients, with a concrete daemon that shows they apply.
\<close>

section \<open>The chain and its seals\<close>

text \<open>
  C9: in every state the daemon can reach, by messages of honest clients, heartbeats, sealing cycles
  and restarts in any order, its log is a hash chain, and a daemon that starts on its files finds
  the event count and the chain tip that the running one holds. A client is honest when no payload
  it sends calls itself a heartbeat, brings a member _relay_hash, or has a member twice or a member
  named by a number; a payload that calls itself a heartbeat is outside the claim, and is indeed
  lost by a restart.
\<close>

theorem relay_log_is_chain:
  assumes "reads_own_lines (re_log e)" "hex_digest (re_sign e)"
    and "(relay_step e (honest e))\<^sup>*\<^sup>* (relay_initial ring now) s"
  shows "\<exists>ls. rf_log (snd s) = log_text ls \<and> relay_chain e None (relay_events ls)
    \<and> recover_log e (rf_log (snd s)) = (rd_eventCount (fst s), rd_chainTip (fst s))"
proof -
  from relay_reachable_inv [OF assms(3,1,2)] obtain ls ss where "relay_inv e ls ss s" by blast
  then show ?thesis using recovered [OF assms(1)] by (auto simp: relay_inv_def)
qed

text \<open>
  C10: every seal in the log of seals is signed by a key of the ring and commits to the first events
  of the relay log, as many as it says; and the number of events the daemon takes to be sealed is
  one that a seal in the file covers, also when events arrive while a cycle awaits its witnesses. The
  clients are honest in the sense above.
\<close>

theorem seals_cover_prefix:
  assumes "reads_own_lines (re_log e)" "hex_digest (re_sign e)"
    and "(relay_step e (honest e))\<^sup>*\<^sup>* (relay_initial ring now) s"
  shows "\<exists>ls ss. rf_log (snd s) = log_text ls \<and> sf_seals (rf_seal (snd s)) = log_text (map seal_json ss)
    \<and> (\<forall>seal \<in> set ss. seal_covers e (sf_keyring (rf_seal (snd s))) (relay_events ls) seal)
    \<and> sealed_mark ss (rd_lastSealEventCount (fst s))"
proof -
  from relay_reachable_inv [OF assms(3,1,2)] obtain ls ss where "relay_inv e ls ss s" by blast
  then show ?thesis by (intro exI [of _ ls] exI [of _ ss]) (simp add: relay_inv_def list_all_iff)
qed

text \<open>
  No step of the daemon, whatever a client sends, removes or changes a byte of the relay log.
\<close>

theorem relay_log_only_grows:
  assumes "(relay_step e (\<lambda>raw. True))\<^sup>*\<^sup>* s t"
  shows "\<exists>later. file_text (rf_log (snd t)) = file_text (rf_log (snd s)) @ later"
  using assms
proof (induction rule: rtranclp_induct)
  case (step t u)
  with relay_log_grows_step [OF step(2)] show ?case by (auto simp: relay_log_grows_def)
qed simp

text \<open>An event that calls itself a heartbeat is accepted, and no restart finds it.\<close>

lemma self_styled_heartbeat_lost:
  assumes "reads_own_lines (re_log e)" "rf_log (snd s) = log_text ls" "list_all entry_ok ls"
    and "event_schema (re_log e) p \<noteq> None" "plain_json p" "json_get p ''type'' = Some (JStr ''heartbeat'')"
    and "snd (processEvent e mo (Some p) s) = accepted h"
  shows "recover_log e (rf_log (snd (fst (processEvent e mo (Some p) s)))) = recover_log e (rf_log (snd s))"
proof -
  let ?v = "stored_event (re_log e) mo (rd_chainTip (fst s)) p"
  obtain ms where ms: "p = JObj ms" using assms(4) schema_object by blast
  have "rf_log (snd (fst (processEvent e mo (Some p) s))) = log_text (ls @ [?v])"
    using assms(7)
    by (cases rule: processEvent_cases [of e mo "Some p" s])
      (auto simp: assms(2) append_log_text accepted_def)
  moreover have "plain_json ?v" "json_get ?v ''type'' = Some (JStr ''heartbeat'')"
  proof -
    have "plain_json (relay_event (re_log e) mo (rd_chainTip (fst s)) p)"
      unfolding relay_event_def ms using assms(5) unfolding ms
      by (intro plain_put) (auto simp: member_names nullable_str_def split: option.split)
    then show "plain_json ?v"
      unfolding stored_event_def relay_event_def ms put_json_def json.case
      using plain_put by (fastforce simp: put_json_def member_names)
    show "json_get ?v ''type'' = Some (JStr ''heartbeat'')"
      using assms(6) by (simp add: stored_event_def relay_event_def ms put_json_def)
  qed
  moreover have "relay_parse e (stringify ?v) = Some ?v"
    using calculation(2) by (rule parse_sorted [OF assms(1)])
  moreover have "?v \<noteq> JNull" by (simp add: stored_event_def relay_event_def ms put_json_def)
  ultimately have "recover_line e (stringify ?v) st = st" for st by (simp add: recover_line_def)
  moreover have "content_lines (concat (map log_line (ls @ [?v]))) = map stringify ls @ [stringify ?v]"
    using content_lines_log [of "ls @ [?v]"] by simp
  ultimately show ?thesis
    using \<open>rf_log _ = log_text (ls @ [?v])\<close> content_lines_log [of ls]
    by (simp add: assms(2) recover_log_def log_text_def)
qed

text \<open>Requests that end the daemon.\<close>

lemma null_message_throws:
  "relay_parse e raw = Some JNull \<Longrightarrow> \<exists>x. processMessage e mo raw s = (s, Inl x)"
  by (simp add: processMessage_def Let_def)

lemma number_to_sign_throws:
  "json_get p ''data'' = Some (JNum 1) \<Longrightarrow> \<exists>x. snd (handleSign e now random (Some p) dir) = Inl x"
  by (simp add: handleSign_def payload_member_def too_long_def)

section \<open>Signatures\<close>

text \<open>
  C11: what the daemon signs for a client is a text of at most 16384 bytes that is either a JSON
  object which says it is a commit attestation, or the encoding, with exact lengths, of an in-toto
  statement that passes the closed schema. A seal's payload it never signs.
\<close>

theorem relay_signs_only:
  assumes "handleSign e now random payload dir = (dir', Inr resp)"
    and "json_get resp ''ok'' = Some (JBool True)"
  shows "\<exists>s. payload_member payload ''data'' = Some (JStr s) \<and> length s \<le> 16384
    \<and> \<not> starts_with s seal_prefix
    \<and> ((\<exists>ms. relay_parse e s = Some (JObj ms) \<and> map_of ms ''type'' = Some (JStr ''commit-attestation'')
            \<and> map_of ms ''schema_version'' = Some (JNum 1))
       \<or> (\<exists>l m p st. s = ''DSSEv1 '' @ l @ '' '' @ INTOTO_PAYLOAD_TYPE @ '' '' @ m @ '' '' @ p
            \<and> list_all is_digit (l @ m) \<and> read_nat l = length INTOTO_PAYLOAD_TYPE \<and> read_nat m = length p
            \<and> relay_parse e p = Some st \<and> valid_statement st))"
proof -
  obtain s k key where s: "payload_member payload ''data'' = Some (JStr s)"
    and c: "classifySignablePayload e s \<noteq> None" and l: "length s \<le> SIGN_PAYLOAD_MAX_BYTES"
    using assms by (rule handleSign_ok)
  have seal: "\<not> starts_with s seal_prefix" using c seals_not_classified [of s e] by auto
  show ?thesis
  proof (cases "starts_with s DSSE_PAE_PREFIX")
    case True
    with c have "validateDssePae e s" by (auto simp: classifySignablePayload_def split: if_splits)
    then obtain p st where p: "pae_payload s = Some p" "relay_parse e p = Some st" "valid_statement st"
      by (auto simp: validateDssePae_def split: option.splits)
    obtain n m where "s = DSSE_PAE_PREFIX @ n @ '' '' @ INTOTO_PAYLOAD_TYPE @ '' '' @ m @ '' '' @ p"
      "list_all is_digit n" "list_all is_digit m" "read_nat n = length INTOTO_PAYLOAD_TYPE" "read_nat m = length p"
      using p(1) True by (rule pae_payload_shape)
    then show ?thesis
      using s l seal p by (intro exI [of _ s] conjI disjI2 exI [of _ n] exI [of _ m] exI [of _ p] exI [of _ st])
        (simp_all add: SIGN_PAYLOAD_MAX_BYTES_def DSSE_PAE_PREFIX_def)
  next
    case False
    with c obtain ms where "relay_parse e s = Some (JObj ms)"
      "map_of ms ''type'' = Some (JStr ''commit-attestation'')" "map_of ms ''schema_version'' = Some (JNum 1)"
      by (auto simp: classifySignablePayload_def split: if_splits option.splits elim!: is_JObj.elims)
    then show ?thesis using s l seal by (auto simp: SIGN_PAYLOAD_MAX_BYTES_def)
  qed
qed

text \<open>The proxy of a client whose relay is the daemon in a given state.\<close>

definition signing_daemon :: "relay_env \<Rightarrow> moment \<Rightarrow> string \<Rightarrow> relay_sys \<Rightarrow> proxy_env \<Rightarrow> proxy_env" where
  "signing_daemon e mo now s px =
    px\<lparr>px_socket := True, px_send_sign := (\<lambda>data keyId. snd (sendSignRequest e mo now data keyId s))\<rparr>"

definition verifying_daemon :: "relay_env \<Rightarrow> moment \<Rightarrow> string \<Rightarrow> relay_sys \<Rightarrow> proxy_env \<Rightarrow> proxy_env" where
  "verifying_daemon e mo now s px =
    px\<lparr>px_socket := True,
       px_send_verify := (\<lambda>data signature keyId. sendVerifyRequest e mo now data signature keyId s)\<rparr>"

text \<open>
  A signature that the client's proxy reports as the relay's verifies, through the proxy and
  the daemon that made it, for a client whose own keyring does not have the key.
\<close>

theorem relay_signature_roundtrip:
  assumes "reads_own_lines (re_log e)" "hex_digest (re_sign e)"
    and "requestSignature (signing_daemon e mo now s px) keyId must data dir = (dir', Inr sig)"
    and "sg_source sig = Relay" "loadKeyById dir' (sg_key_id sig) = Inl x"
  shows "requestVerification
      (verifying_daemon e mo2 now2 (fst (sendSignRequest e mo now data (str_or keyId None) s)) px)
      data (sg_signature sig) (sg_key_id sig) dir'
    = \<lparr>vf_verified = True, vf_source = Relay, vf_reason = None\<rparr>"
proof -
  let ?r = "sendSignRequest e mo now data (str_or keyId None) s"
  obtain resp where resp: "snd ?r = Inr resp" "relay_signature resp = Some sig"
    using assms(3,4)
    by (auto simp: requestSignature_def signing_daemon_def sign_locally_def Let_def result_simps prod_eq_iff
        split: sum.splits option.splits if_splits)
  have "?r = (fst ?r, Inr resp)" using resp(1) by (simp add: prod_eq_iff)
  from relay_signature_verifies [OF assms(1,2) this resp(2), of mo2 now2] show ?thesis
    by (simp add: requestVerification_def verifying_daemon_def assms(5))
qed

text \<open>
  Of the two forms of a commit attestation the daemon signs the JSON form and refuses the
  in-toto form, whatever the attestation says: the statement's risk summary always has the member
  that counts the high-risk denials, which the daemon's closed schema leaves out.
\<close>

theorem only_bespoke_attestations_signed:
  assumes "reads_own_lines (re_log e)"
  shows "classifySignablePayload e (buildAttestationPayload (attestation_members a)) = Some CommitAttestationPayload
    \<and> classifySignablePayload e (dssePAE DSSE_PAYLOAD_TYPE (canonical_statement (buildInTotoStatement a))) = None"
  using attestation_signable [OF assms] statement_not_signable [OF assms] by blast

section \<open>Connections, settings, health\<close>

text \<open>
  How the bytes of a connection are cut into chunks makes no difference to the answers and the
  state, as long as the buffer stays within its limit.
\<close>

theorem chunking_irrelevant:
  assumes "length (cn_buffer c @ a @ b) \<le> MAX_MESSAGE_SIZE"
    and "on_data e clock a c s = ((c', s'), out, None)"
  shows "on_data e clock (a @ b) c s =
    (let r = on_data e (\<lambda>i. clock (complete_lines c a + i)) b c' s'
     in (fst r, out @ fst (snd r), snd (snd r)))"
  by (rule chunks_join [OF assms])

text \<open>
  Whatever a configuration file holds, no loaded bound is a number below its least value, every
  witness endpoint has a URL and a name, and the group given to chgrp is a plain name.
\<close>

theorem relay_config_bounds:
  "case fst (loadRelayConfig e path content) of c \<Rightarrow>
     not_below e (ac_interval_minutes (rc_auto_seal c)) 1 \<and> not_below e (ac_min_events (rc_auto_seal c)) 0
     \<and> not_below e (wc_quorum (rc_witness c)) 1 \<and> list_all is_endpoint (wc_endpoints (rc_witness c))
     \<and> pred_option (\<lambda>g. GROUP_NAME_RE g \<and> \<not> starts_with g ''-'' \<and> CHR '' '' \<notin> set g) (rc_socket_group c)"
  using loaded_bounds [of e path content] loaded_endpoints [of e path content]
    loaded_group [of e path content] group_not_option
  by (cases "rc_socket_group (fst (loadRelayConfig e path content))") simp_all

text \<open>
  The health of a daemon's own log is never a failure, counts the daemon's events, and is a pass
  exactly when a heartbeat is recent and no delivery has failed within the window.
\<close>

theorem own_log_health:
  assumes "reads_own_lines (re_log e)" "hex_digest (re_sign e)"
    and "(relay_step e (honest e))\<^sup>*\<^sup>* (relay_initial ring now) s"
  shows "\<exists>r. assessRelayHealth e (file_text (rf_log (snd s))) divergence t maxSilence window = Inr r
    \<and> hr_status r \<noteq> Fail \<and> hs_events (hr_scan r) = rd_eventCount (fst s)
    \<and> (hr_status r = Pass \<longleftrightarrow>
         (\<exists>b. hs_newest (hr_scan r) = Some b \<and> t - b \<le> maxSilence)
         \<and> (case divergence of
              None \<Rightarrow> True
            | Some m \<Rightarrow> dm_failure_count m \<le> 0
                \<or> (case re_date e (dm_last_failure_at m) of None \<Rightarrow> True | Some f \<Rightarrow> t - f > window)))"
proof -
  from relay_reachable_inv [OF assms(3,1,2)] obtain ls ss where "relay_inv e ls ss s" by blast
  from health_of_own_log [OF this assms(1)]
  obtain r where r: "assessRelayHealth e (file_text (rf_log (snd s))) divergence t maxSilence window = Inr r"
    "hr_status r \<noteq> Fail" "hs_events (hr_scan r) = rd_eventCount (fst s)" by blast
  have "hs_corrupt (hr_scan r) = 0"
    using r(1,2) by (auto simp: assessRelayHealth_def Let_def result_simps corrupt_reasons_def split: if_splits)
  with r health_pass_iff [OF r(1)] show ?thesis by auto
qed

section \<open>A concrete daemon\<close>

definition relay_sample :: relay_env where
  "relay_sample =
    \<lparr>re_log = reader_env\<lparr>lg_sha := (\<lambda>s. replicate 64 (CHR ''0''))\<rparr>, re_sign = zero_sign,
     re_number = (\<lambda>s. None), re_date = (\<lambda>s. Some 0), re_issues = (\<lambda>v. [])\<rparr>"

definition sample_moment :: moment where
  "sample_moment =
    \<lparr>mo_iso = ''2026-01-01T00:00:00Z'', mo_ms = 0, mo_link = False, mo_write = None, mo_random = ''key''\<rparr>"

definition sample_options :: relay_options where
  "sample_options =
    \<lparr>ro_socket = ''relay.sock'', ro_config_path = ''c'', ro_config_file = None, ro_stale_socket_removed = True\<rparr>"

definition sample_cycle :: seal_env where
  "sample_cycle =
    \<lparr>se_now = ''2026-01-01T00:00:00Z'', se_random = ''key'', se_append_seal = None,
     se_append_witness = True, se_fetch = (\<lambda>u b. Inl RangeError), se_order = []\<rparr>"

definition event_request :: json where
  "event_request = JObj
    [(''protocol_version'', JNum 1), (''type'', JStr ''event''), (''timestamp'', JStr ''t''),
     (''payload'', sample_log_event)]"

definition started_sample :: relay_sys where
  "started_sample =
    (case start relay_sample sample_options sample_moment (snd (relay_initial [] 0)) of
       Inr st \<Rightarrow> st_sys st | Inl x \<Rightarrow> relay_initial [] 0)"

definition event_sample :: relay_sys where
  "event_sample = fst (processMessage relay_sample sample_moment (stringify event_request) started_sample)"

definition sealed_sample :: relay_sys where
  "sealed_sample = finish_cycle relay_sample (begin_cycle relay_sample sample_cycle event_sample)"

lemma sample_reads: "reads_own_lines (re_log relay_sample)"
  using reader_env_reads by (simp add: reads_own_lines_def relay_sample_def reader_env_def)

lemma sample_hex: "hex_digest (re_sign relay_sample)"
  by (simp add: hex_digest_def relay_sample_def zero_sign_def list_all_iff is_hex_def is_digit_def in_range_def)

lemma event_request_plain: "plain_json event_request"
  by code_simp

lemma event_request_honest: "honest relay_sample (stringify event_request)"
proof -
  have "plain_json sample_log_event" "json_get sample_log_event ''type'' = None"
    "json_get sample_log_event ''_relay_hash'' = None" by code_simp+
  then show ?thesis
    by (simp add: honest_def parse_sorted [OF sample_reads event_request_plain])
      (simp add: event_request_def)
qed

lemma started_sample_start:
  "start relay_sample sample_options sample_moment (snd (relay_initial [] 0))
    = Inr \<lparr>st_sys = started_sample, st_chgrp = None, st_auto_seal = True\<rparr>"
  by code_simp

lemma sample_reached:
  assumes "P (stringify event_request)"
  shows "(relay_step relay_sample P)\<^sup>*\<^sup>* (relay_initial [] 0) sealed_sample"
proof -
  have "relay_step relay_sample P (relay_initial [] 0) started_sample"
    using relay_step.restart [OF started_sample_start, of P] by simp
  moreover have "relay_step relay_sample P started_sample event_sample"
    unfolding event_sample_def by (rule relay_step.message) (rule assms)
  moreover have "relay_step relay_sample P event_sample (begin_cycle relay_sample sample_cycle event_sample)"
    by (rule relay_step.cycle_begins)
  moreover have "relay_step relay_sample P (begin_cycle relay_sample sample_cycle event_sample) sealed_sample"
    unfolding sealed_sample_def by (rule relay_step.cycle_ends)
  ultimately show ?thesis by (meson converse_rtranclp_into_rtranclp rtranclp.rtrancl_refl)
qed

lemma honest_reached:
  "(relay_step relay_sample (honest relay_sample))\<^sup>*\<^sup>* (relay_initial [] 0) sealed_sample"
  by (rule sample_reached [of "honest relay_sample", OF event_request_honest])

lemma started_fields:
  "rd_eventCount (fst started_sample) = 0" "rd_chainTip (fst started_sample) = None"
  "rd_cycle (fst started_sample) = None" "rd_lastSealEventCount (fst started_sample) = Some (JNum 0)"
  "rd_config (fst started_sample) = Some DEFAULT_RELAY_CONFIG"
  "rf_seal (snd started_sample) = \<lparr>sf_seals = None, sf_witnesses = None, sf_keyring = []\<rparr>"
  by code_simp+

definition zero_tip :: string where
  "zero_tip = ''sha256:'' @ replicate 64 (CHR ''0'')"

lemma event_fields_after:
  "rd_eventCount (fst event_sample) = 1" "rd_chainTip (fst event_sample) = Some zero_tip"
  "rd_cycle (fst event_sample) = None" "rd_lastSealEventCount (fst event_sample) = Some (JNum 0)"
  "rd_config (fst event_sample) = Some DEFAULT_RELAY_CONFIG"
  "rf_seal (snd event_sample) = \<lparr>sf_seals = None, sf_witnesses = None, sf_keyring = []\<rparr>"
proof -
  have "event_schema (re_log relay_sample) sample_log_event \<noteq> None" by code_simp
  then obtain w where v: "event_schema (re_log relay_sample) sample_log_event = Some w" by auto
  have v': "truthy_json (Some sample_log_event)" "event_hash sample_log_event = None" by code_simp+
  have m: "json_get event_request ''protocol_version'' = Some (JNum 1)" "event_request \<noteq> JNull"
    "json_get event_request ''type'' = Some (JStr ''event'')"
    "json_get event_request ''payload'' = Some sample_log_event"
    by (simp_all add: event_request_def)
  have h: "relay_hash (re_log relay_sample) mo t p = zero_tip" for mo t p
    by (simp add: relay_hash_def computeEventHash_def zero_tip_def relay_sample_def hash_env_of_def)
  obtain d fs where s: "started_sample = (d, fs)" by (cases started_sample)
  have E: "event_sample = (d\<lparr>rd_chainTip := Some zero_tip, rd_eventCount := Suc (rd_eventCount d)\<rparr>,
      fs\<lparr>rf_log := append_text (rf_log fs) (log_line (stored_event (re_log relay_sample) sample_moment (rd_chainTip d) sample_log_event))\<rparr>)"
    using v v' by (simp add: event_sample_def processMessage_def parse_sorted [OF sample_reads event_request_plain] m
        RELAY_PROTOCOL_VERSION_def processEvent_def s h sample_moment_def Let_def)
  show "rd_eventCount (fst event_sample) = 1" "rd_chainTip (fst event_sample) = Some zero_tip"
    "rd_cycle (fst event_sample) = None" "rd_lastSealEventCount (fst event_sample) = Some (JNum 0)"
    "rd_config (fst event_sample) = Some DEFAULT_RELAY_CONFIG"
    "rf_seal (snd event_sample) = \<lparr>sf_seals = None, sf_witnesses = None, sf_keyring = []\<rparr>"
    unfolding E using started_fields by (simp_all add: s)
qed

lemma sample_sealed:
  "case performAutoSealCycle relay_sample sample_cycle
      \<lparr>ss_chainTip = Some zero_tip, ss_eventCount = 1, ss_lastSealEventCount = Some (JNum 0)\<rparr> DEFAULT_RELAY_CONFIG
      \<lparr>sf_seals = None, sf_witnesses = None, sf_keyring = []\<rparr> of
     (f, Inr r) \<Rightarrow> as_sealed r \<and> map_option sl_chained_events (as_seal r) = Some 1
   | (f, Inl x) \<Rightarrow> False"
  by code_simp

lemma sample_counts: "rd_eventCount (fst sealed_sample) = 1"
    "rd_lastSealEventCount (fst sealed_sample) = Some (JNum 1)"
proof -
  obtain d fs where s: "event_sample = (d, fs)" by (cases event_sample)
  note f = event_fields_after [unfolded s fst_conv snd_conv]
  obtain g r seal where "performAutoSealCycle relay_sample sample_cycle (seal_state_of d) DEFAULT_RELAY_CONFIG (rf_seal fs)
      = (g, Inr r)" "as_sealed r" "as_seal r = Some seal" "sl_chained_events seal = 1"
    using sample_sealed by (auto simp: seal_state_of_def f split: prod.splits sum.splits)
  then show "rd_eventCount (fst sealed_sample) = 1" "rd_lastSealEventCount (fst sealed_sample) = Some (JNum 1)"
    by (simp_all add: sealed_sample_def begin_cycle_def finish_cycle_def s f Let_def)
qed

lemma relay_log_is_chain_witness:
  "\<exists>ls. rf_log (snd sealed_sample) = log_text ls \<and> relay_chain relay_sample None (relay_events ls)
    \<and> recover_log relay_sample (rf_log (snd sealed_sample)) = (1, rd_chainTip (fst sealed_sample))"
  using relay_log_is_chain [OF sample_reads sample_hex honest_reached]
  by (simp add: sample_counts)

lemma seals_cover_prefix_witness:
  "\<exists>ls seal. sl_chained_events seal = 1
    \<and> seal_covers relay_sample (sf_keyring (rf_seal (snd sealed_sample))) (relay_events ls) seal"
proof -
  from seals_cover_prefix [OF sample_reads sample_hex honest_reached]
  obtain ls ss where c: "\<forall>seal \<in> set ss. seal_covers relay_sample (sf_keyring (rf_seal (snd sealed_sample))) (relay_events ls) seal"
    and "sealed_mark ss (rd_lastSealEventCount (fst sealed_sample))" by blast
  then obtain seal where "seal \<in> set ss" "sl_chained_events seal = 1"
    by (auto simp: sealed_mark_def sample_counts)
  with c show ?thesis by blast
qed

lemma relay_log_only_grows_witness:
  "\<exists>later. file_text (rf_log (snd sealed_sample)) = file_text (rf_log (snd (relay_initial [] 0))) @ later"
  by (rule relay_log_only_grows [OF sample_reached]) simp

definition attestation_text :: string where
  "attestation_text = stringify (JObj [(''schema_version'', JNum 1), (''type'', JStr ''commit-attestation'')])"

definition sign_payload :: json where
  "sign_payload = JObj [(''data'', JStr attestation_text)]"

lemma relay_signs_only_witness:
  "\<exists>s. payload_member (Some sign_payload) ''data'' = Some (JStr s) \<and> \<not> starts_with s seal_prefix"
proof -
  have "case snd (handleSign relay_sample ''t'' ''key'' (Some sign_payload) []) of
      Inr r \<Rightarrow> json_get r ''ok'' = Some (JBool True) | Inl x \<Rightarrow> False" by code_simp
  then obtain dir r where "handleSign relay_sample ''t'' ''key'' (Some sign_payload) [] = (dir, Inr r)"
    "json_get r ''ok'' = Some (JBool True)" by (auto simp: prod_eq_iff split: sum.splits)
  from relay_signs_only [OF this] show ?thesis by blast
qed

definition sample_proxy :: proxy_env where
  "sample_proxy = cm_proxy sample_commit_env"

lemma relay_signature_roundtrip_witness:
  "\<exists>(sig :: signature_result) dir. vf_verified (requestVerification
      (verifying_daemon relay_sample sample_moment ''t''
        (fst (sendSignRequest relay_sample sample_moment ''t'' attestation_text (str_or None None) (relay_initial [] 0)))
        sample_proxy)
      attestation_text (sg_signature sig) (sg_key_id sig) dir)"
proof -
  have "case requestSignature (signing_daemon relay_sample sample_moment ''t'' (relay_initial [] 0) sample_proxy)
      None None attestation_text [] of
        (dir, Inr sig) \<Rightarrow> sg_source sig = Relay \<and> (case loadKeyById dir (sg_key_id sig) of Inl x \<Rightarrow> True | Inr k \<Rightarrow> False)
      | (dir, Inl x) \<Rightarrow> False" by code_simp
  then obtain dir sig x where
    "requestSignature (signing_daemon relay_sample sample_moment ''t'' (relay_initial [] 0) sample_proxy)
       None None attestation_text [] = (dir, Inr sig)" "sg_source sig = Relay"
    "loadKeyById dir (sg_key_id sig) = Inl x" by (auto split: prod.splits sum.splits)
  note v = relay_signature_roundtrip [OF sample_reads sample_hex this, of sample_moment "''t''"]
  show ?thesis by (rule exI [of _ sig], rule exI [of _ dir]) (simp only: v verify_result.simps)
qed

lemma only_bespoke_attestations_signed_witness:
  "\<forall>a. classifySignablePayload relay_sample (buildAttestationPayload (attestation_members a)) \<noteq> None
    \<and> classifySignablePayload relay_sample
        (dssePAE DSSE_PAYLOAD_TYPE (canonical_statement (buildInTotoStatement a))) = None"
  using only_bespoke_attestations_signed [OF sample_reads] by simp

definition empty_connection :: connection where
  "empty_connection = \<lparr>cn_buffer = [], cn_open = True\<rparr>"

lemma chunking_irrelevant_witness:
  "snd (snd (on_data relay_sample (\<lambda>i. sample_moment) (''{}'' @ [newline, CHR ''4''] @ ''2'' @ [newline])
     empty_connection started_sample)) = None"
proof -
  let ?a = "''{}'' @ [newline, CHR ''4'']"
  have p: "relay_parse relay_sample ''{}'' = Some (JObj [])" "relay_parse relay_sample ''42'' = Some (JNum 42)"
    "trim ''{}'' \<noteq> []" "trim ''42'' \<noteq> []" by code_simp+
  obtain r where m: "processMessage relay_sample mo ''{}'' s = (s, Inr r)"
    "processMessage relay_sample mo ''42'' s = (s, Inr r)" for mo s
    by (auto simp: processMessage_def p unsupported_def js_text_def Let_def)
  have one: "on_data relay_sample (\<lambda>i. sample_moment) ?a empty_connection started_sample
      = ((\<lparr>cn_buffer = ''4'', cn_open = True\<rparr>, started_sample), [stringify r @ [newline]], None)"
    by (simp add: on_data_def empty_connection_def MAX_MESSAGE_SIZE_def Let_def p m)
  have "length (cn_buffer empty_connection @ ?a @ ''2'' @ [newline]) \<le> MAX_MESSAGE_SIZE"
    by (simp add: empty_connection_def MAX_MESSAGE_SIZE_def)
  from chunking_irrelevant [OF this one] show ?thesis
    by (simp add: Let_def on_data_def [of relay_sample _ "[CHR ''2'', newline]"] MAX_MESSAGE_SIZE_def p m)
qed

lemma own_log_health_witness:
  "\<exists>r. assessRelayHealth relay_sample (file_text (rf_log (snd sealed_sample))) None 0 1 1 = Inr r
    \<and> hr_status r \<noteq> Fail \<and> hs_events (hr_scan r) = 1"
  using own_log_health [OF sample_reads sample_hex honest_reached,
      of None 0 1 1] by (auto simp: sample_counts)

end
