(* ===== verification/UrlCanonical.thy ===== *)
theory UrlCanonical
  imports PolicyEngine Json
begin

text \<open>
  The decision on a URL, \<^verbatim>\<open>packages/core/src/url/canonicalize.ts\<close>: a text is parsed and normalised
  or rejected, and what was normalised is looked up in an allowlist. The constructor \<open>URL\<close> is a
  parameter, \<open>None\<close> where it throws; the port it reports is a run of digits or empty.
\<close>

record web_url = url_parts +
  u_username :: string
  u_password :: string

definition ALLOWED_SCHEMES :: "string list" where
  "ALLOWED_SCHEMES = [''http'', ''https'']"

definition SCHEME_BANLIST :: "string list" where
  "SCHEME_BANLIST =
    [''data'', ''file'', ''javascript'', ''gopher'', ''ftp'', ''ftps'', ''ws'', ''wss'', ''blob'',
     ''mailto'', ''chrome'', ''chrome-extension'', ''about'', ''view-source'']"

datatype reject_reason =
    InvalidUrl
  | SchemeNotAllowed
  | SchemeBanlisted
  | UserinfoPresent
  | EmptyHost
  | HostPercentEncoded
  | NonAsciiHost

fun reject_name :: "reject_reason \<Rightarrow> string" where
  "reject_name InvalidUrl = ''invalid_url''"
| "reject_name SchemeNotAllowed = ''scheme_not_allowed''"
| "reject_name SchemeBanlisted = ''scheme_banlisted''"
| "reject_name UserinfoPresent = ''userinfo_present''"
| "reject_name EmptyHost = ''empty_host''"
| "reject_name HostPercentEncoded = ''host_percent_encoded''"
| "reject_name NonAsciiHost = ''non_ascii_host''"

record canonical_flags =
  cf_ip_literal :: bool
  cf_ipv4_literal :: bool
  cf_ipv6_literal :: bool
  cf_loopback :: bool
  cf_private :: bool
  cf_link_local :: bool
  cf_idn :: bool
  cf_userinfo :: bool

record canonical_url =
  cu_scheme :: string
  cu_host :: string
  cu_port :: "nat option"
  cu_path :: string
  cu_canonical :: string
  cu_raw_input :: string
  cu_flags :: canonical_flags

record canonical_reject =
  cr_reason :: reject_reason
  cr_raw_input :: string
  cr_detail :: "string option"

section \<open>Addresses\<close>

definition IPV4_REGEX :: "string \<Rightarrow> bool" where
  "IPV4_REGEX s \<longleftrightarrow>
    (let ps = split_on (CHR ''.'') s in
     length ps = 4 \<and> list_all (\<lambda>p. 1 \<le> length p \<and> length p \<le> 3 \<and> list_all is_digit p) ps)"

definition bracket_char :: "char \<Rightarrow> bool" where
  "bracket_char c \<longleftrightarrow>
    is_digit c \<or> in_range CHR ''a'' CHR ''f'' (lower_char c) \<or> c = CHR '':'' \<or> c = CHR ''.''"

definition IPV6_BRACKET_REGEX :: "string \<Rightarrow> bool" where
  "IPV6_BRACKET_REGEX s \<longleftrightarrow>
    length s > 2 \<and> hd s = CHR ''['' \<and> last s = CHR '']'' \<and> list_all bracket_char (butlast (tl s))"

text \<open>\<open>host.split(".").map(Number)\<close> of a dotted quad.\<close>

definition quad :: "string \<Rightarrow> nat list" where
  "quad host = map read_nat (split_on (CHR ''.'') host)"

definition isIpv4 :: "string \<Rightarrow> bool" where
  "isIpv4 host \<longleftrightarrow> IPV4_REGEX host \<and> list_all (\<lambda>n. n \<le> 255) (quad host)"

definition isIpv6 :: "string \<Rightarrow> bool" where
  "isIpv6 host \<longleftrightarrow> IPV6_BRACKET_REGEX host"

definition isLoopbackIpv4 :: "string \<Rightarrow> bool" where
  "isLoopbackIpv4 host \<longleftrightarrow> host = ''127.0.0.1'' \<or> starts_with host ''127.''"

definition isPrivateIpv4 :: "string \<Rightarrow> bool" where
  "isPrivateIpv4 host \<longleftrightarrow> isIpv4 host \<and>
    (let a = quad host ! 0; b = quad host ! 1 in
     a = 10 \<or> (a = 172 \<and> 16 \<le> b \<and> b \<le> 31) \<or> (a = 192 \<and> b = 168))"

definition isLinkLocalIpv4 :: "string \<Rightarrow> bool" where
  "isLinkLocalIpv4 host \<longleftrightarrow> isIpv4 host \<and> quad host ! 0 = 169 \<and> quad host ! 1 = 254"

definition without_brackets :: "string \<Rightarrow> string" where
  "without_brackets host =
    (let h = (if starts_with host ''['' then tl host else host) in
     to_lower (if ends_with h '']'' then butlast h else h))"

definition isLoopbackIpv6 :: "string \<Rightarrow> bool" where
  "isLoopbackIpv6 host \<longleftrightarrow> without_brackets host = ''::1''"

definition isLinkLocalIpv6 :: "string \<Rightarrow> bool" where
  "isLinkLocalIpv6 host \<longleftrightarrow>
    starts_with (without_brackets host) ''fe80:'' \<or> without_brackets host = ''fe80::1''"

definition computeFlags :: "string \<Rightarrow> web_url \<Rightarrow> canonical_flags" where
  "computeFlags host url =
    (let ipv4 = isIpv4 host; ipv6 = isIpv6 host in
     \<lparr>cf_ip_literal = ipv4 \<or> ipv6, cf_ipv4_literal = ipv4, cf_ipv6_literal = ipv6,
      cf_loopback = (host = ''localhost'' \<or> (ipv4 \<and> isLoopbackIpv4 host) \<or> (ipv6 \<and> isLoopbackIpv6 host)),
      cf_private = (ipv4 \<and> isPrivateIpv4 host),
      cf_link_local = ((ipv4 \<and> isLinkLocalIpv4 host) \<or> (ipv6 \<and> isLinkLocalIpv6 host)),
      cf_idn = (host \<noteq> u_hostname url \<or> includes_str host ''xn--''),
      cf_userinfo = (u_username url \<noteq> [] \<or> u_password url \<noteq> [])\<rparr>)"

section \<open>Normalisation\<close>

definition parsePort :: "string \<Rightarrow> string \<Rightarrow> nat option" where
  "parsePort rawPort scheme =
    (if rawPort = [] \<or> \<not> list_all is_digit rawPort then None
     else
       (let n = read_nat rawPort in
        if n = 0 \<or> n > 65535 then None
        else if (scheme = ''http'' \<and> n = 80) \<or> (scheme = ''https'' \<and> n = 443) then None
        else Some n))"

definition port_text :: "nat option \<Rightarrow> string" where
  "port_text p = (case p of None \<Rightarrow> [] | Some n \<Rightarrow> CHR '':'' # digits_of n)"

definition scheme_of :: "web_url \<Rightarrow> string" where
  "scheme_of url =
    (let p = u_protocol url in to_lower (if ends_with p '':'' then butlast p else p))"

definition non_ascii :: "string \<Rightarrow> bool" where
  "non_ascii s \<longleftrightarrow> list_ex (\<lambda>c. (of_char c :: nat) > 127) s"

definition reject :: "string \<Rightarrow> reject_reason \<Rightarrow> string option \<Rightarrow> canonical_reject + canonical_url" where
  "reject input r detail = Inl \<lparr>cr_reason = r, cr_raw_input = input, cr_detail = detail\<rparr>"

definition normalized :: "string \<Rightarrow> string \<Rightarrow> web_url \<Rightarrow> canonical_url" where
  "normalized input scheme url =
    (let host = to_lower (u_hostname url);
         fl = computeFlags host url;
         port = parsePort (u_port url) scheme;
         path = (if u_pathname url = [] then ''/'' else u_pathname url)
     in \<lparr>cu_scheme = scheme, cu_host = host, cu_port = port, cu_path = path,
         cu_canonical = scheme @ ''://'' @ host @ port_text port @ path, cu_raw_input = input,
         cu_flags = (if \<not> cf_idn fl \<and> non_ascii input then fl\<lparr>cf_idn := True\<rparr> else fl)\<rparr>)"

definition canonicalizeUrl ::
  "(string \<Rightarrow> web_url option) \<Rightarrow> string \<Rightarrow> canonical_reject + canonical_url" where
  "canonicalizeUrl parse input =
    (if input = [] then reject input InvalidUrl (Some ''empty input'')
     else
       (case parse input of
          None \<Rightarrow> reject input InvalidUrl (Some ''URL constructor threw'')
        | Some url \<Rightarrow>
            (let scheme = scheme_of url in
             if scheme \<in> set SCHEME_BANLIST then reject input SchemeBanlisted (Some scheme)
             else if scheme \<notin> set ALLOWED_SCHEMES then reject input SchemeNotAllowed (Some scheme)
             else if u_username url \<noteq> [] \<or> u_password url \<noteq> [] then reject input UserinfoPresent None
             else if u_hostname url = [] then reject input EmptyHost None
             else if includes_str (u_hostname url) ''%'' then reject input HostPercentEncoded None
             else Inr (normalized input scheme url))))"

section \<open>The allowlist\<close>

record allow_options =
  ao_ip_literal :: bool
  ao_loopback :: bool
  ao_private :: bool
  ao_idn :: bool

record allow_decision =
  ad_allow :: bool
  ad_reason :: string
  ad_matched :: "string option"

text \<open>Host and port of an entry; the part after the last colon is a port if it is a number.\<close>

definition entry_parts :: "string \<Rightarrow> string \<times> nat option" where
  "entry_parts norm =
    (let tail = rev (takeWhile (\<lambda>c. c \<noteq> CHR '':'') (rev norm)) in
     if CHR '':'' \<in> set norm \<and> tail \<noteq> [] \<and> list_all is_digit tail
     then (take (length norm - length tail - 1) norm, Some (read_nat tail))
     else (norm, None))"

definition matchEntry :: "canonical_url \<Rightarrow> string \<Rightarrow> bool" where
  "matchEntry canonical pattern =
    (let norm = trim (to_lower pattern); (host, port) = entry_parts norm in
     if norm = [] then False
     else if port \<noteq> None \<and> cu_port canonical \<noteq> None \<and> port \<noteq> cu_port canonical then False
     else if starts_with host ''*.'' then
       (let suffix = drop 2 host in
        cu_host canonical = suffix \<or> ends_with (cu_host canonical) (CHR ''.'' # suffix))
     else cu_host canonical = host)"

definition not_allowed :: "string \<Rightarrow> allow_decision" where
  "not_allowed r = \<lparr>ad_allow = False, ad_reason = r, ad_matched = None\<rparr>"

definition evaluateAllowlist :: "canonical_url \<Rightarrow> string list \<Rightarrow> allow_options \<Rightarrow> allow_decision" where
  "evaluateAllowlist canonical allowlist opts =
    (let fl = cu_flags canonical in
     if cf_idn fl \<and> \<not> ao_idn opts then not_allowed ''idn_not_allowed''
     else if cf_link_local fl then not_allowed ''link_local_denied''
     else if cf_loopback fl \<and> \<not> ao_loopback opts then not_allowed ''loopback_not_allowed''
     else if cf_private fl \<and> \<not> ao_private opts then not_allowed ''private_not_allowed''
     else if cf_ip_literal fl \<and> \<not> ao_ip_literal opts then not_allowed ''ip_literal_not_allowed''
     else
       (case find (matchEntry canonical) allowlist of
          Some entry \<Rightarrow> \<lparr>ad_allow = True, ad_reason = ''allowlist_match'', ad_matched = Some entry\<rparr>
        | None \<Rightarrow> not_allowed ''not_on_allowlist''))"

record url_decision =
  ud_decision :: allow_decision
  ud_canonical :: "canonical_url option"
  ud_reject :: "canonical_reject option"

definition decideUrlPolicy ::
  "(string \<Rightarrow> web_url option) \<Rightarrow> string \<Rightarrow> string list \<Rightarrow> allow_options \<Rightarrow> url_decision" where
  "decideUrlPolicy parse input allowlist opts =
    (case canonicalizeUrl parse input of
       Inl r \<Rightarrow> \<lparr>ud_decision = not_allowed (reject_name (cr_reason r)), ud_canonical = None, ud_reject = Some r\<rparr>
     | Inr c \<Rightarrow> \<lparr>ud_decision = evaluateAllowlist c allowlist opts, ud_canonical = Some c, ud_reject = None\<rparr>)"

end
