(* ===== verification/UrlProperties.thy ===== *)
theory UrlProperties
  imports UrlCanonical JsonlChain
begin

text \<open>
  Properties of the decision on URLs: which addresses the allowlist can admit at all, and that the
  decision is one of the canonical text.
\<close>

lemma canonicalized:
  assumes "canonicalizeUrl parse input = Inr c"
  obtains u where "parse input = Some u" "scheme_of u = ''http'' \<or> scheme_of u = ''https''"
    "u_username u = []" "u_password u = []" "u_hostname u \<noteq> []"
    "c = normalized input (scheme_of u) u"
  using assms
  by (auto simp: canonicalizeUrl_def reject_def Let_def ALLOWED_SCHEMES_def split: if_splits option.splits)

lemma decided_allow:
  assumes "ad_allow (ud_decision (decideUrlPolicy parse input allowlist opts))"
  obtains c where "canonicalizeUrl parse input = Inr c" "ad_allow (evaluateAllowlist c allowlist opts)"
  using assms by (auto simp: decideUrlPolicy_def not_allowed_def split: sum.splits)

lemma evaluate_allow:
  "ad_allow (evaluateAllowlist c allowlist opts) \<longleftrightarrow>
     (cf_idn (cu_flags c) \<longrightarrow> ao_idn opts) \<and> \<not> cf_link_local (cu_flags c)
     \<and> (cf_loopback (cu_flags c) \<longrightarrow> ao_loopback opts) \<and> (cf_private (cu_flags c) \<longrightarrow> ao_private opts)
     \<and> (cf_ip_literal (cu_flags c) \<longrightarrow> ao_ip_literal opts) \<and> list_ex (matchEntry c) allowlist"
  by (auto simp: evaluateAllowlist_def not_allowed_def Let_def list_ex_iff find_None_iff find_Some_iff
      split: option.splits dest: nth_mem)

section \<open>Numeric addresses\<close>

definition dotted :: "nat list \<Rightarrow> string" where
  "dotted ns = join ''.'' (map digits_of ns)"

lemma digit_plain: "is_digit c \<Longrightarrow> lower_char c = c \<and> c \<noteq> CHR ''.'' \<and> c \<noteq> CHR '':'' \<and> c \<noteq> CHR ''/''"
  by (auto simp: is_digit_def in_range_def lower_char_def is_upper_def)

lemma digits_plain: "c \<in> set (digits_of n) \<Longrightarrow> lower_char c = c \<and> c \<noteq> CHR ''.'' \<and> c \<noteq> CHR '':'' \<and> c \<noteq> CHR ''/''"
  using digits_of_digits digit_plain by blast

lemma lower_digits [simp]: "map lower_char (digits_of n) = digits_of n"
  by (rule map_idI) (simp add: digits_plain)

lemma split_no_sep: "d \<notin> set w \<Longrightarrow> split_on d w = [w]"
  by (induction w) auto

lemma split_dotted:
  "split_on (CHR ''.'') (dotted [a, b, c, d]) = map digits_of [a, b, c, d]"
proof -
  have "CHR ''.'' \<notin> set (digits_of n)" for n using digits_plain by blast
  then show ?thesis by (simp add: dotted_def split_on_line split_no_sep)
qed

lemma quad_dotted: "quad (dotted [a, b, c, d]) = [a, b, c, d]"
  by (simp add: quad_def split_dotted)

lemma lower_dotted: "to_lower (dotted [a, b, c, d]) = dotted [a, b, c, d]"
  by (simp add: to_lower_def dotted_def lower_char_def is_upper_def in_range_def)

lemma short_digits: "n < 1000 \<Longrightarrow> length (digits_of n) \<le> 3"
  by (subst digits_of.simps, subst digits_of.simps, subst digits_of.simps) auto

lemma dotted_ipv4:
  assumes "a \<le> 255" "b \<le> 255" "c \<le> 255" "d \<le> 255"
  shows "isIpv4 (dotted [a, b, c, d])"
  using assms digits_of_digits
  by (auto simp: isIpv4_def IPV4_REGEX_def quad_dotted split_dotted Let_def short_digits list_all_iff
      Suc_le_eq)

lemma dotted_127: "starts_with (dotted [127, b, c, d]) ''127.''"
proof -
  have "digits_of 127 = ''127''" by code_simp
  then show ?thesis by (simp add: dotted_def starts_with_def)
qed

lemma last_digit: "is_digit (last (digits_of n))"
  by (metis digits_of_digits digits_of_not_Nil last_in_set)

lemma dotted_not_ipv6: "\<not> isIpv6 (dotted [a, b, c, d])"
proof -
  have "last (dotted [a, b, c, d]) = last (digits_of d)" by (simp add: dotted_def)
  with last_digit [of d] show ?thesis
    by (auto simp: isIpv6_def IPV6_BRACKET_REGEX_def is_digit_def in_range_def)
qed

text \<open>
  C35: a URL whose host is a numeric address in dotted form is let through only if numeric addresses
  are opted in and the address is not link-local (169.254), is no loopback address unless those
  are opted in, and no private one unless those are; and then some entry of the allowlist matches.
  Hosts in the notations of IPv6 are outside the claim.
\<close>

theorem numeric_host_guarded:
  assumes "ad_allow (ud_decision (decideUrlPolicy parse input allowlist opts))"
    and "parse input = Some u" "u_hostname u = dotted [a, b, c, d]"
    and "a \<le> 255" "b \<le> 255" "c \<le> 255" "d \<le> 255"
  shows "ao_ip_literal opts \<and> \<not> (a = 169 \<and> b = 254) \<and> (a = 127 \<longrightarrow> ao_loopback opts)
    \<and> (a = 10 \<or> a = 172 \<and> 16 \<le> b \<and> b \<le> 31 \<or> a = 192 \<and> b = 168 \<longrightarrow> ao_private opts)
    \<and> (\<exists>entry \<in> set allowlist. \<exists>v. canonicalizeUrl parse input = Inr v \<and> matchEntry v entry)"
proof -
  obtain v where v: "canonicalizeUrl parse input = Inr v" "ad_allow (evaluateAllowlist v allowlist opts)"
    using assms(1) by (rule decided_allow)
  then obtain w where "parse input = Some w" "v = normalized input (scheme_of w) w"
    by (meson canonicalized)
  with assms(2) have n: "v = normalized input (scheme_of u) u" by simp
  note q = dotted_ipv4 [OF assms(4-7)]
  have fl: "cf_ip_literal (cu_flags v)" "cf_link_local (cu_flags v) \<longleftrightarrow> a = 169 \<and> b = 254"
    "a = 127 \<Longrightarrow> cf_loopback (cu_flags v)"
    "cf_private (cu_flags v) \<longleftrightarrow> a = 10 \<or> a = 172 \<and> 16 \<le> b \<and> b \<le> 31 \<or> a = 192 \<and> b = 168"
    using q dotted_127
    by (auto simp: n normalized_def Let_def computeFlags_def assms(3) lower_dotted isPrivateIpv4_def
        isLinkLocalIpv4_def quad_dotted isLoopbackIpv4_def dotted_not_ipv6)
  then show ?thesis using v by (auto simp: evaluate_allow list_ex_iff)
qed

section \<open>One decision per canonical text\<close>

text \<open>What the constructor documents of a host and a path of a web URL.\<close>

definition host_text :: "string \<Rightarrow> bool" where
  "host_text h \<longleftrightarrow> CHR ''/'' \<notin> set h \<and> (CHR '':'' \<in> set h \<longrightarrow> last h = CHR '']'')"

definition documented_url :: "web_url \<Rightarrow> bool" where
  "documented_url u \<longleftrightarrow> host_text (u_hostname u) \<and> starts_with (u_pathname u) ''/''"

lemma lower_char_of: "is_upper c \<Longrightarrow> (of_char (lower_char c) :: nat) = of_char c + 32"
  by (simp add: lower_char_def is_upper_def in_range_def)

lemma lower_char_iff:
  assumes "\<not> in_range CHR ''A'' CHR ''Z'' d" "\<not> in_range CHR ''a'' CHR ''z'' d"
  shows "lower_char c = d \<longleftrightarrow> c = d"
proof (cases "is_upper c")
  case True
  then have "lower_char c \<noteq> d"
    using assms lower_char_of [OF True] by (auto simp: in_range_def is_upper_def)
  with True assms show ?thesis by (auto simp: is_upper_def)
qed (simp add: lower_char_def)

lemma lower_plain [simp]:
  "lower_char c = CHR ''/'' \<longleftrightarrow> c = CHR ''/''" "lower_char c = CHR '':'' \<longleftrightarrow> c = CHR '':''"
  "lower_char c = CHR '']'' \<longleftrightarrow> c = CHR '']''"
  "CHR ''/'' = lower_char c \<longleftrightarrow> c = CHR ''/''" "CHR '':'' = lower_char c \<longleftrightarrow> c = CHR '':''"
  using lower_char_iff [of "CHR ''/''" c] lower_char_iff [of "CHR '':''" c] lower_char_iff [of "CHR '']''" c]
  by (auto simp: in_range_def)

lemma lower_host: "host_text h \<Longrightarrow> host_text (to_lower h)"
proof -
  have [simp]: "lower_char CHR ''/'' = CHR ''/''" "lower_char CHR '':'' = CHR '':''" by code_simp+
  show "host_text h \<Longrightarrow> host_text (to_lower h)"
    by (cases "h = []") (auto simp: host_text_def to_lower_def last_map)
qed

lemma port_text_cases:
  obtains "p = None" "port_text p = []" | n where "p = Some n" "port_text p = CHR '':'' # digits_of n"
  by (cases p) (auto simp: port_text_def)

lemma no_slash_port: "CHR ''/'' \<notin> set (port_text p)"
  using digits_plain by (cases p rule: port_text_cases) auto

lemma last_colon_unique:
  assumes "a @ CHR '':'' # x = b @ CHR '':'' # y" "CHR '':'' \<notin> set x" "CHR '':'' \<notin> set y"
  shows "a = b \<and> x = y"
  using assms by (simp add: append_eq_Cons_conv append_eq_append_conv2) (auto simp: Cons_eq_append_conv)

lemma host_port_unique:
  assumes "h @ port_text p = k @ port_text q" "host_text h" "host_text k"
  shows "h = k \<and> p = q"
proof -
  have colon: "CHR '':'' \<notin> set (digits_of n)" for n using digits_plain by blast
  have tail: False if "g = f @ CHR '':'' # digits_of n" "host_text g" for f g n
  proof -
    have "is_digit (last g)" using that(1) last_digit by simp
    moreover have "last g = CHR '']''" using that by (auto simp: host_text_def)
    ultimately show False by (simp add: is_digit_def in_range_def)
  qed
  show ?thesis
  proof (cases p rule: port_text_cases)
    case 1
    show ?thesis
    proof (cases q rule: port_text_cases)
      case 1
      with \<open>p = None\<close> \<open>port_text p = []\<close> assms(1) show ?thesis by simp
    next
      case (2 n)
      with \<open>port_text p = []\<close> assms(1) have "h = k @ CHR '':'' # digits_of n" by simp
      then show ?thesis using tail assms(2) by blast
    qed
  next
    case (2 n)
    note p = this
    show ?thesis
    proof (cases q rule: port_text_cases)
      case 1
      with p assms(1) have "k = h @ CHR '':'' # digits_of n" by simp
      then show ?thesis using tail assms(3) by blast
    next
      case (2 m)
      then have "h = k \<and> digits_of n = digits_of m"
        using last_colon_unique p assms(1) colon by metis
      then show ?thesis using p 2 read_nat_digits by metis
    qed
  qed
qed

lemma before_slash: "CHR ''/'' \<notin> set a \<Longrightarrow> takeWhile (\<lambda>c. c \<noteq> CHR ''/'') (a @ CHR ''/'' # r) = a"
  by (simp add: takeWhile_append)

lemma canonical_unique:
  assumes "s @ ''://'' @ h @ port_text p @ CHR ''/'' # x = t @ ''://'' @ k @ port_text q @ CHR ''/'' # y"
    and "s = ''http'' \<or> s = ''https''" "t = ''http'' \<or> t = ''https''" "host_text h" "host_text k"
  shows "s = t \<and> h = k \<and> p = q \<and> x = y"
proof -
  have st: "s = t" using assms(1-3) by auto
  then have e: "(h @ port_text p) @ CHR ''/'' # x = (k @ port_text q) @ CHR ''/'' # y" using assms(1) by simp
  have slash: "CHR ''/'' \<notin> set (h @ port_text p)" "CHR ''/'' \<notin> set (k @ port_text q)"
    using assms(4,5) no_slash_port by (auto simp: host_text_def)
  have hp: "h @ port_text p = k @ port_text q"
    using arg_cong [OF e, of "takeWhile (\<lambda>c. c \<noteq> CHR ''/'')"] unfolding before_slash [OF slash(1)] before_slash [OF slash(2)] .
  then show ?thesis using st e host_port_unique [OF hp assms(4,5)] by auto
qed

lemma plain_flags:
  assumes "\<not> cf_idn (cu_flags (normalized i s u))"
  shows "cu_flags (normalized i s u) = computeFlags (to_lower (u_hostname u)) u
    \<and> u_hostname u = to_lower (u_hostname u)"
proof -
  have e: "cu_flags (normalized i s u) = computeFlags (to_lower (u_hostname u)) u"
    using assms by (simp add: normalized_def Let_def split: if_splits)
  with assms have "\<not> cf_idn (computeFlags (to_lower (u_hostname u)) u)" by simp
  then have "to_lower (u_hostname u) = u_hostname u" by (simp add: computeFlags_def Let_def)
  with e show ?thesis by simp
qed

lemma flags_cong:
  "u_hostname u = u_hostname v \<Longrightarrow> u_username u = u_username v \<Longrightarrow> u_password u = u_password v
   \<Longrightarrow> computeFlags h u = computeFlags h v"
  by (simp only: computeFlags_def)

lemma decision_cong:
  assumes "cu_host c = cu_host d" "cu_port c = cu_port d" "cu_flags c = cu_flags d"
  shows "evaluateAllowlist c allowlist opts = evaluateAllowlist d allowlist opts"
proof -
  have "matchEntry c = matchEntry d" using assms by (intro ext) (simp only: matchEntry_def)
  then show ?thesis by (simp only: evaluateAllowlist_def assms(3))
qed

text \<open>
  Two texts with the same canonical form, neither of them with characters outside ASCII or an
  upper case or encoded host, get the same decision under every allowlist and every choice of
  options, however differently they were spelled.
\<close>

theorem canonical_text_decides:
  assumes "canonicalizeUrl parse i = Inr c" "canonicalizeUrl parse j = Inr d" "cu_canonical c = cu_canonical d"
    and "\<And>t u. parse t = Some u \<Longrightarrow> documented_url u"
    and "\<not> cf_idn (cu_flags c)" "\<not> cf_idn (cu_flags d)"
  shows "ud_decision (decideUrlPolicy parse i allowlist opts) = ud_decision (decideUrlPolicy parse j allowlist opts)"
proof -
  obtain u where u: "parse i = Some u" "scheme_of u = ''http'' \<or> scheme_of u = ''https''"
    "u_username u = []" "u_password u = []" "c = normalized i (scheme_of u) u"
    using assms(1) by (rule canonicalized)
  obtain v where v: "parse j = Some v" "scheme_of v = ''http'' \<or> scheme_of v = ''https''"
    "u_username v = []" "u_password v = []" "d = normalized j (scheme_of v) v"
    using assms(2) by (rule canonicalized)
  have doc: "host_text (to_lower (u_hostname w)) \<and> (\<exists>x. u_pathname w = CHR ''/'' # x)" if "parse t = Some w" for t w
    using assms(4) [OF that] lower_host by (auto simp: documented_url_def starts_with_iff)
  from doc [OF u(1)] doc [OF v(1)] obtain x y where
    hosts: "host_text (to_lower (u_hostname u))" "host_text (to_lower (u_hostname v))"
    and paths: "u_pathname u = CHR ''/'' # x" "u_pathname v = CHR ''/'' # y" by blast
  have "scheme_of u @ ''://'' @ to_lower (u_hostname u) @ port_text (parsePort (u_port u) (scheme_of u)) @ CHR ''/'' # x
      = scheme_of v @ ''://'' @ to_lower (u_hostname v) @ port_text (parsePort (u_port v) (scheme_of v)) @ CHR ''/'' # y"
    using assms(3) paths by (simp add: u(5) v(5) normalized_def Let_def)
  note eq = canonical_unique [OF this u(2) v(2) hosts]
  have "cu_flags c = cu_flags d"
    using plain_flags [OF assms(5) [unfolded u(5)]] plain_flags [OF assms(6) [unfolded v(5)]]
      flags_cong [of u v "to_lower (u_hostname u)"] eq u(3-5) v(3-5) by simp
  moreover have "cu_host c = cu_host d" "cu_port c = cu_port d"
    using eq by (auto simp: u(5) v(5) normalized_def Let_def)
  ultimately show ?thesis
    using assms(1,2) by (simp add: decideUrlPolicy_def decision_cong [of c d])
qed

section \<open>Spellings the flags do not cover\<close>

text \<open>The link-local address 169.254.169.254 mapped into IPv6, and a loopback name with its dot.\<close>

lemma mapped_address_unflagged:
  "computeFlags ''[::ffff:a9fe:a9fe]'' \<lparr>u_protocol = ''http:'', u_hostname = ''[::ffff:a9fe:a9fe]'', u_port = [],
      u_pathname = ''/'', u_username = [], u_password = []\<rparr>
    = \<lparr>cf_ip_literal = True, cf_ipv4_literal = False, cf_ipv6_literal = True, cf_loopback = False,
       cf_private = False, cf_link_local = False, cf_idn = False, cf_userinfo = False\<rparr>"
  by (simp add: computeFlags_def isIpv4_def isIpv6_def IPV4_REGEX_def IPV6_BRACKET_REGEX_def bracket_char_def
      is_digit_def in_range_def lower_char_def is_upper_def isLoopbackIpv6_def isLinkLocalIpv6_def
      without_brackets_def to_lower_def ends_with_def starts_with_def list_all_iff)

lemma dotted_localhost_unflagged:
  "\<not> cf_loopback (computeFlags ''localhost.'' u)"
  by (simp add: computeFlags_def isIpv4_def isIpv6_def IPV4_REGEX_def IPV6_BRACKET_REGEX_def)

text \<open>An entry with a port other than the default one admits the default port.\<close>

lemma entry_port_not_enforced:
  assumes "cu_host c = ''example.com''" "cu_port c = None"
  shows "matchEntry c ''example.com:8443''"
proof -
  have "trim (to_lower ''example.com:8443'') = ''example.com:8443''" by code_simp
  moreover have "entry_parts ''example.com:8443'' = (''example.com'', Some 8443)"
    by (simp add: entry_parts_def is_digit_def in_range_def read_nat_def digit_val_def)
  ultimately show ?thesis using assms by (simp add: matchEntry_def starts_with_def)
qed

section \<open>Witnesses\<close>

definition sample_url :: web_url where
  "sample_url = \<lparr>u_protocol = ''http:'', u_hostname = ''10.0.0.7'', u_port = [], u_pathname = ''/'',
     u_username = [], u_password = []\<rparr>"

definition url_sample_options :: allow_options where
  "url_sample_options = \<lparr>ao_ip_literal = True, ao_loopback = False, ao_private = True, ao_idn = False\<rparr>"

lemma numeric_host_guarded_witness:
  "\<exists>entry \<in> set [''10.0.0.7'']. \<exists>v. canonicalizeUrl (\<lambda>s. Some sample_url) ''http://10.0.0.7/'' = Inr v
    \<and> matchEntry v entry"
proof -
  have a: "ad_allow (ud_decision (decideUrlPolicy (\<lambda>s. Some sample_url) ''http://10.0.0.7/''
      [''10.0.0.7''] url_sample_options))" by code_simp
  have h: "u_hostname sample_url = dotted [10, 0, 0, 7]" by code_simp
  from numeric_host_guarded [OF a refl h] show ?thesis by simp
qed

lemma canonical_text_decides_witness:
  "ud_decision (decideUrlPolicy (\<lambda>s. Some sample_url) ''http://10.0.0.7:80'' [''10.0.0.7''] url_sample_options)
    = ud_decision (decideUrlPolicy (\<lambda>s. Some sample_url) ''HTTP://10.0.0.7/'' [''10.0.0.7''] url_sample_options)"
proof -
  let ?n = "\<lambda>i. normalized i ''http'' sample_url"
  have c: "canonicalizeUrl (\<lambda>s. Some sample_url) ''http://10.0.0.7:80'' = Inr (?n ''http://10.0.0.7:80'')"
    "canonicalizeUrl (\<lambda>s. Some sample_url) ''HTTP://10.0.0.7/'' = Inr (?n ''HTTP://10.0.0.7/'')"
    "\<not> cf_idn (cu_flags (?n ''http://10.0.0.7:80''))" "\<not> cf_idn (cu_flags (?n ''HTTP://10.0.0.7/''))"
    "documented_url sample_url" by code_simp+
  have "cu_canonical (?n i) = cu_canonical (?n j)" for i j by (simp add: normalized_def Let_def)
  from canonical_text_decides [OF c(1,2) this _ c(3,4)] c(5) show ?thesis by simp
qed

end
