(* ===== verification/GitConfig.thy ===== *)
theory GitConfig
  imports Prelude
begin

text \<open>
  The reader of git configuration, \<^verbatim>\<open>packages/core/src/git/parse-config.ts\<close>. Sections are plain
  objects: a name that every object inherits is found where no section was stored. A key among
  these names raises a TypeError; a section among them is an object of the JavaScript runtime, and
  the model stops where the code writes to it.
\<close>

datatype git_stop = KeyThrows string | WritesGlobal string

type_synonym git_section = "(string \<times> string list) list"
type_synonym git_sections = "(string \<times> git_section) list"

section \<open>Lexical level\<close>

abbreviation backslash :: char where
  "backslash \<equiv> CHR 0x5C"

abbreviation dquote :: char where
  "dquote \<equiv> CHR 0x22"

definition escape_of :: "char \<Rightarrow> char" where
  "escape_of c = (if c = CHR ''n'' then newline else if c = CHR ''t'' then tab else c)"

fun unescapeQuoted :: "string \<Rightarrow> string" where
  "unescapeQuoted [] = []"
| "unescapeQuoted [c] = [c]"
| "unescapeQuoted (c # d # ds) =
     (if c = backslash then escape_of d # unescapeQuoted ds else c # unescapeQuoted (d # ds))"

fun value_chars :: "bool \<Rightarrow> string \<Rightarrow> string" where
  "value_chars inQuote [] = []"
| "value_chars inQuote [c] =
     (if c = dquote \<or> (\<not> inQuote \<and> c \<in> {CHR ''#'', CHR '';''}) then [] else [c])"
| "value_chars inQuote (c # d # ds) =
     (if c = dquote then value_chars (\<not> inQuote) (d # ds)
      else if \<not> inQuote \<and> c \<in> {CHR ''#'', CHR '';''} then []
      else if c = backslash then (if d = newline then [] else [escape_of d]) @ value_chars inQuote ds
      else c # value_chars inQuote (d # ds))"

definition parseValue :: "string \<Rightarrow> string" where
  "parseValue rawValue = trim (value_chars False rawValue)"

text \<open>\<open>text.replace(/\\\n/g, " ")\<close>.\<close>

fun join_continued :: "string \<Rightarrow> string" where
  "join_continued [] = []"
| "join_continued [c] = [c]"
| "join_continued (c # d # ds) =
     (if c = backslash \<and> d = newline then CHR '' '' # join_continued ds else c # join_continued (d # ds))"

section \<open>Headers\<close>

definition ascii_letter :: "char \<Rightarrow> bool" where
  "ascii_letter c \<longleftrightarrow> in_range CHR ''a'' CHR ''z'' c \<or> is_upper c"

definition name_char :: "char \<Rightarrow> bool" where
  "name_char c \<longleftrightarrow> ascii_letter c \<or> is_digit c \<or> c = CHR ''-''"

text \<open>\<open>\[\s*([A-Za-z][A-Za-z0-9-]*)\<close>: the name and what follows it.\<close>

definition header_name :: "string \<Rightarrow> (string \<times> string) option" where
  "header_name line =
    (if \<not> starts_with line ''['' then None
     else
       (let r = dropWhile is_space (tl line) in
        if r = [] \<or> \<not> ascii_letter (hd r) then None
        else Some (takeWhile name_char r, dropWhile name_char r)))"

definition closes :: "string \<Rightarrow> bool" where
  "closes r \<longleftrightarrow> starts_with (dropWhile is_space r) '']''"

text \<open>
  \<open>((?:[^"\\]|\\.)*)"\<close>: up to the first quote that is not escaped. A full stop does not match a
  line terminator.
\<close>

fun quoted_body :: "string \<Rightarrow> (string \<times> string) option" where
  "quoted_body [] = None"
| "quoted_body (c # cs) =
     (if c = dquote then Some ([], cs)
      else if c = backslash then
        (case cs of
           [] \<Rightarrow> None
         | d # ds \<Rightarrow>
             if d = newline \<or> d = CHR 0x0D then None
             else (case quoted_body ds of None \<Rightarrow> None | Some (b, r) \<Rightarrow> Some (c # d # b, r)))
      else (case quoted_body cs of None \<Rightarrow> None | Some (b, r) \<Rightarrow> Some (c # b, r)))"

text \<open>The subsection of the first form: \<open>None\<close> no match, \<open>Some None\<close> no subsection.\<close>

definition SECTION_HEADER_RE :: "string \<Rightarrow> (string \<times> string option) option" where
  "SECTION_HEADER_RE line =
    (case header_name line of
       None \<Rightarrow> None
     | Some (name, r) \<Rightarrow>
         (let q = dropWhile is_space r;
              sub = (if q \<noteq> r \<and> starts_with q [dquote] then quoted_body (tl q) else None)
          in case sub of
               Some (b, r') \<Rightarrow> if closes r' then Some (name, Some b) else None
             | None \<Rightarrow> if closes r then Some (name, None) else None))"

definition SIMPLE_SECTION_HEADER_RE :: "string \<Rightarrow> (string \<times> string option) option" where
  "SIMPLE_SECTION_HEADER_RE line =
    (case header_name line of
       None \<Rightarrow> None
     | Some (name, r) \<Rightarrow>
         (let b = takeWhile (\<lambda>c. c \<noteq> CHR '']'') (tl r) in
          if starts_with r ''.'' \<and> b \<noteq> [] \<and> CHR '']'' \<in> set (tl r) then Some (name, Some b)
          else if closes r then Some (name, None) else None))"

definition section_header :: "string \<Rightarrow> string option" where
  "section_header line =
    (case SECTION_HEADER_RE line of
       Some (name, Some sub) \<Rightarrow> Some (to_lower name @ ''.'' @ unescapeQuoted sub)
     | Some (name, None) \<Rightarrow> Some (to_lower name)
     | None \<Rightarrow>
         (case SIMPLE_SECTION_HEADER_RE line of
            Some (name, Some sub) \<Rightarrow> Some (to_lower name @ ''.'' @ sub)
          | Some (name, None) \<Rightarrow> Some (to_lower name)
          | None \<Rightarrow> None))"

section \<open>Sections\<close>

definition open_section :: "string \<Rightarrow> git_sections \<Rightarrow> git_sections" where
  "open_section s secs =
    (if map_of secs s \<noteq> None \<or> s \<in> set inherited_names then secs else obj_set s [] secs)"

definition values_at :: "git_section \<Rightarrow> string \<Rightarrow> string list" where
  "values_at sec key = (case map_of sec key of None \<Rightarrow> [] | Some vs \<Rightarrow> vs)"

text \<open>\<open>if (!sections[s][key]) sections[s][key] = []; sections[s][key].push(v)\<close>.\<close>

definition push_value :: "string \<Rightarrow> string \<Rightarrow> string \<Rightarrow> git_sections \<Rightarrow> git_stop + git_sections" where
  "push_value s key v secs =
    (case map_of secs s of
       None \<Rightarrow> Inl (WritesGlobal s)
     | Some sec \<Rightarrow>
         if map_of sec key = None \<and> key \<in> set inherited_names then Inl (KeyThrows key)
         else Inr (obj_set s (obj_set key (values_at sec key @ [v]) sec) secs))"

record git_state =
  gs_sections :: git_sections
  gs_current :: "string option"

definition key_line :: "string \<Rightarrow> string \<times> string" where
  "key_line line =
    (if CHR ''='' \<notin> set line then (to_lower line, ''true'')
     else (to_lower (trim (takeWhile (\<lambda>c. c \<noteq> CHR ''='') line)),
           parseValue (tl (dropWhile (\<lambda>c. c \<noteq> CHR ''='') line))))"

definition config_line :: "string \<Rightarrow> git_state \<Rightarrow> git_stop + git_state" where
  "config_line rawLine st =
    (let line = trim rawLine in
     if line = [] \<or> starts_with line ''#'' \<or> starts_with line '';'' then Inr st
     else if starts_with line ''['' then
       (case section_header line of
          None \<Rightarrow> Inr st
        | Some s \<Rightarrow> Inr \<lparr>gs_sections = open_section s (gs_sections st), gs_current = Some s\<rparr>)
     else
       (case gs_current st of
          None \<Rightarrow> Inr st
        | Some s \<Rightarrow>
            (case push_value s (fst (key_line line)) (snd (key_line line)) (gs_sections st) of
               Inl x \<Rightarrow> Inl x
             | Inr secs \<Rightarrow> Inr (st\<lparr>gs_sections := secs\<rparr>))))"

fun config_lines :: "string list \<Rightarrow> git_state \<Rightarrow> git_stop + git_state" where
  "config_lines [] st = Inr st"
| "config_lines (l # ls) st =
     (case config_line l st of Inl x \<Rightarrow> Inl x | Inr st' \<Rightarrow> config_lines ls st')"

definition parseGitConfig :: "string \<Rightarrow> git_stop + git_sections" where
  "parseGitConfig text =
    (case config_lines (split_on newline (join_continued text)) \<lparr>gs_sections = [], gs_current = None\<rparr> of
       Inl x \<Rightarrow> Inl x
     | Inr st \<Rightarrow> Inr (gs_sections st))"

section \<open>Layers\<close>

definition overlay_section :: "string \<times> git_section \<Rightarrow> git_sections \<Rightarrow> git_sections" where
  "overlay_section kv out =
    (let s = fst kv; sec = (case map_of out s of None \<Rightarrow> [] | Some m \<Rightarrow> m)
     in obj_set s (fold (\<lambda>(k, vs). obj_set k vs) (snd kv) sec) out)"

definition mergeGitConfig :: "git_sections \<Rightarrow> git_sections \<Rightarrow> git_sections" where
  "mergeGitConfig base overlay = fold overlay_section overlay base"

text \<open>The path up to its last dot and what follows.\<close>

definition last_dot :: "string \<Rightarrow> (string \<times> string) option" where
  "last_dot path =
    (if CHR ''.'' \<notin> set path then None
     else
       (let key = rev (takeWhile (\<lambda>c. c \<noteq> CHR ''.'') (rev path))
        in Some (take (length path - length key - 1) path, key)))"

definition flat_entry :: "string \<times> string \<Rightarrow> git_sections \<Rightarrow> git_stop + git_sections" where
  "flat_entry kv secs =
    (case last_dot (fst kv) of
       None \<Rightarrow> Inr secs
     | Some (path, key) \<Rightarrow>
         push_value (to_lower path) (to_lower key) (snd kv) (open_section (to_lower path) secs))"

fun configFromFlat :: "(string \<times> string) list \<Rightarrow> git_sections \<Rightarrow> git_stop + git_sections" where
  "configFromFlat [] secs = Inr secs"
| "configFromFlat (kv # kvs) secs =
     (case flat_entry kv secs of Inl x \<Rightarrow> Inl x | Inr secs' \<Rightarrow> configFromFlat kvs secs')"

end
