(* ===== verification/GitRemote.thy ===== *)
theory GitRemote
  imports GitConfig
begin

text \<open>
  The resolver of git remotes, \<^verbatim>\<open>packages/core/src/git/resolve-remote.ts\<close>: the arguments of a git
  command and the configuration changes made before it in the same line, and the addresses the
  command will reach under them. Objects used as maps are lists of members in insertion order.
\<close>

type_synonym flat_map = "(string \<times> string) list"

section \<open>Arguments of git\<close>

record parsed_git_argv =
  pg_verb :: string
  pg_remoteArg :: "string option"
  pg_cFlags :: flat_map

text \<open>Assigning a text to \<open>__proto__\<close> has no effect.\<close>

definition assign_member :: "string \<Rightarrow> string \<Rightarrow> flat_map \<Rightarrow> flat_map" where
  "assign_member k v m = (if k = ''__proto__'' then m else obj_set k v m)"

definition is_git :: "string \<Rightarrow> bool" where
  "is_git head \<longleftrightarrow> last_segment (to_lower head) = ''git''"

text \<open>One \<open>-c\<close> pair; without an equals sign, or with an empty key, it is dropped.\<close>

definition add_pair :: "string \<Rightarrow> flat_map \<Rightarrow> flat_map" where
  "add_pair pair m =
    (let k = takeWhile (\<lambda>c. c \<noteq> CHR ''='') pair in
     if CHR ''='' \<in> set pair \<and> k \<noteq> [] then assign_member k (drop (Suc (length k)) pair) m else m)"

text \<open>The flags before the verb: every other flag is taken to have no argument.\<close>

fun git_flags :: "string list \<Rightarrow> flat_map \<Rightarrow> flat_map \<times> string list" where
  "git_flags [] m = (m, [])"
| "git_flags [tok] m = (if starts_with tok ''-'' then (m, []) else (m, [tok]))"
| "git_flags (tok # a # as) m =
     (if tok = ''-c'' then git_flags as (add_pair a m)
      else if starts_with tok ''-'' then git_flags (a # as) m
      else (m, tok # a # as))"

definition positional :: "string list \<Rightarrow> string option" where
  "positional as = find (\<lambda>t. \<not> starts_with t ''-'') as"

definition parseGitArgv :: "string list \<Rightarrow> parsed_git_argv option" where
  "parseGitArgv argv =
    (case argv of
       [] \<Rightarrow> None
     | head # as \<Rightarrow>
         if \<not> is_git head then None
         else
           (case git_flags as [] of
              (m, []) \<Rightarrow> None
            | (m, verb # rest) \<Rightarrow>
                Some \<lparr>pg_verb = to_lower verb, pg_remoteArg = positional rest, pg_cFlags = m\<rparr>))"

text \<open>The changes one command of a line makes; members are read with an index that may be past the end.\<close>

definition mutation_of :: "string list \<Rightarrow> flat_map \<Rightarrow> flat_map" where
  "mutation_of argv out =
    (case argv of
       head # a # as \<Rightarrow>
         if \<not> is_git head then out
         else
           (case snd (git_flags (a # as) []) of
              [] \<Rightarrow> out
            | sub1 # rest \<Rightarrow>
                if to_lower sub1 = ''remote'' \<and> rest \<noteq> [] \<and> to_lower (hd rest) = ''add'' then
                  (case tl rest of
                     name # url # _ \<Rightarrow>
                       if name \<noteq> [] \<and> url \<noteq> []
                       then assign_member (''remote.'' @ to_lower name @ ''.url'') url out else out
                   | _ \<Rightarrow> out)
                else if to_lower sub1 = ''config'' then
                  (case rest of
                     key # v # _ \<Rightarrow>
                       if key \<noteq> [] \<and> v \<noteq> [] then assign_member (to_lower key) v out else out
                   | _ \<Rightarrow> out)
                else out)
     | _ \<Rightarrow> out)"

definition extractMutationsFromArgv :: "string list list \<Rightarrow> flat_map" where
  "extractMutationsFromArgv argvList = fold mutation_of argvList []"

section \<open>Rewrites\<close>

datatype rewrite_mode = FetchMode | PushMode

record applied_rewrite =
  rw_from :: string
  rw_to :: string
  rw_rule :: string
  rw_mode :: rewrite_mode

text \<open>A candidate: the prefix replaced, the section's prefix that replaces it, and the key.\<close>

type_synonym candidate = "string \<times> string \<times> string"

definition section_candidates :: "rewrite_mode \<Rightarrow> string \<times> git_section \<Rightarrow> candidate list" where
  "section_candidates mode kv =
    (if \<not> starts_with (fst kv) ''url.'' then []
     else
       map (\<lambda>s. (s, drop 4 (fst kv), ''insteadOf'')) (values_at (snd kv) ''insteadof'')
       @ (if mode = PushMode
          then map (\<lambda>s. (s, drop 4 (fst kv), ''pushInsteadOf'')) (values_at (snd kv) ''pushinsteadof'')
          else []))"

definition better :: "string \<Rightarrow> candidate \<Rightarrow> candidate \<Rightarrow> candidate" where
  "better url c best =
    (if starts_with url (fst c) \<and> length (fst c) > length (fst best) then c else best)"

definition best_candidate :: "string \<Rightarrow> git_sections \<Rightarrow> rewrite_mode \<Rightarrow> candidate" where
  "best_candidate url config mode =
    fold (better url) (concat (map (section_candidates mode) config)) ([], [], [])"

definition applyInsteadOfRewrites ::
  "string \<Rightarrow> git_sections \<Rightarrow> rewrite_mode \<Rightarrow> string \<times> applied_rewrite option" where
  "applyInsteadOfRewrites url config mode =
    (case best_candidate url config mode of
       (bestPrefix, bestSection, bestKey) \<Rightarrow>
         if bestPrefix = [] then (url, None)
         else
           (let rewritten = bestSection @ drop (length bestPrefix) url in
            (rewritten,
             Some \<lparr>rw_from = url, rw_to = rewritten,
                   rw_rule = ''url.'' @ bestSection @ ''.'' @ bestKey @ ''='' @ bestPrefix, rw_mode = mode\<rparr>)))"

section \<open>Resolution\<close>

datatype resolve_source =
    ArgvUrl
  | RemoteName
  | RemoteAddedInCommand
  | CFlagOverride
  | DefaultOrigin
  | Unresolved

record resolve_input =
  ri_verb :: string
  ri_remoteArg :: "string option"
  ri_cFlags :: "flat_map option"
  ri_mutations :: "flat_map option"

record resolve_result =
  rr_urls :: "string list"
  rr_push_urls :: "string list option"
  rr_resolved :: bool
  rr_source :: resolve_source
  rr_reason :: "string option"
  rr_rewrites :: "applied_rewrite list"

definition NETWORK_VERBS :: "string list" where
  "NETWORK_VERBS = [''push'', ''fetch'', ''pull'', ''clone'', ''ls-remote'', ''archive'', ''submodule'']"

definition ACCEPTS_DIRECT_URL :: "string list" where
  "ACCEPTS_DIRECT_URL = [''push'', ''fetch'', ''pull'', ''clone'', ''ls-remote'']"

definition URL_LIKE :: "string \<Rightarrow> bool" where
  "URL_LIKE s \<longleftrightarrow>
    list_ex (starts_with (to_lower s))
      [''http://'', ''https://'', ''git@'', ''git+'', ''git://'', ''ssh://'', ''file://'']"

definition scp_char :: "char \<Rightarrow> bool" where
  "scp_char c \<longleftrightarrow> is_alnumu c \<or> c = CHR ''.'' \<or> c = CHR ''-''"

definition SCP_LIKE :: "string \<Rightarrow> bool" where
  "SCP_LIKE s \<longleftrightarrow>
    (let r = dropWhile scp_char s; h = tl r in
     takeWhile scp_char s \<noteq> [] \<and> starts_with r ''@'' \<and> takeWhile scp_char h \<noteq> []
     \<and> starts_with (dropWhile scp_char h) '':'')"

definition looksLikeUrl :: "string \<Rightarrow> bool" where
  "looksLikeUrl s \<longleftrightarrow> URL_LIKE s \<or> SCP_LIKE s"

text \<open>The first values of \<open>url\<close> and \<open>pushurl\<close>; \<open>None\<close> where neither is set.\<close>

definition first_value :: "git_section \<Rightarrow> string \<Rightarrow> string option" where
  "first_value sec key = (case values_at sec key of [] \<Rightarrow> None | v # _ \<Rightarrow> Some v)"

definition lookupRemote :: "string \<Rightarrow> git_sections \<Rightarrow> (string option \<times> string option) option" where
  "lookupRemote name config =
    (case map_of config (''remote.'' @ to_lower name) of
       None \<Rightarrow> None
     | Some sec \<Rightarrow>
         (let url = first_value sec ''url''; pushurl = first_value sec ''pushurl'' in
          if url = None \<and> pushurl = None then None else Some (url, pushurl)))"

definition overlay :: "flat_map option \<Rightarrow> git_sections \<Rightarrow> git_stop + git_sections" where
  "overlay flat cfg =
    (case flat of
       None \<Rightarrow> Inr cfg
     | Some m \<Rightarrow>
         if m = [] then Inr cfg
         else (case configFromFlat m [] of Inl x \<Rightarrow> Inl x | Inr o' \<Rightarrow> Inr (mergeGitConfig cfg o')))"

definition buildEffectiveConfig ::
  "git_sections \<Rightarrow> flat_map option \<Rightarrow> flat_map option \<Rightarrow> git_stop + git_sections" where
  "buildEffectiveConfig base mutations cFlags =
    (case overlay mutations base of Inl x \<Rightarrow> Inl x | Inr cfg \<Rightarrow> overlay cFlags cfg)"

definition rewrite_all ::
  "git_sections \<Rightarrow> rewrite_mode \<Rightarrow> string list \<Rightarrow> string list \<times> applied_rewrite list" where
  "rewrite_all config mode us =
    (let rs = map (\<lambda>u. applyInsteadOfRewrites u config mode) us
     in (map fst rs, concat (map (\<lambda>r. case snd r of None \<Rightarrow> [] | Some w \<Rightarrow> [w]) rs)))"

definition finalize ::
  "git_sections \<Rightarrow> string \<Rightarrow> string list \<Rightarrow> string list option \<Rightarrow> resolve_source \<Rightarrow> resolve_result" where
  "finalize config verb urlsRaw pushUrlsRaw source =
    (let f = rewrite_all config (if verb = ''push'' then PushMode else FetchMode) urlsRaw;
         p = map_option (rewrite_all config PushMode) pushUrlsRaw
     in \<lparr>rr_urls = fst f, rr_push_urls = map_option fst p, rr_resolved = True, rr_source = source,
         rr_reason = None, rr_rewrites = snd f @ (case p of None \<Rightarrow> [] | Some q \<Rightarrow> snd q)\<rparr>)"

definition no_urls :: "bool \<Rightarrow> string \<Rightarrow> resolve_result" where
  "no_urls resolved reason =
    \<lparr>rr_urls = [], rr_push_urls = None, rr_resolved = resolved, rr_source = Unresolved,
     rr_reason = Some reason, rr_rewrites = []\<rparr>"

text \<open>An empty text is falsy.\<close>

definition nonempty :: "string option \<Rightarrow> string list" where
  "nonempty v = (case v of None \<Rightarrow> [] | Some s \<Rightarrow> (if s = [] then [] else [s]))"

definition mentions :: "string \<Rightarrow> flat_map option \<Rightarrow> bool" where
  "mentions arg flat \<longleftrightarrow>
    (case flat of
       None \<Rightarrow> False
     | Some m \<Rightarrow> list_ex (\<lambda>kv. starts_with (to_lower (fst kv)) (''remote.'' @ to_lower arg @ ''.'')) m)"

definition named_source :: "resolve_input \<Rightarrow> string \<Rightarrow> resolve_source" where
  "named_source input arg =
    (if mentions arg (ri_cFlags input) then CFlagOverride
     else if mentions arg (ri_mutations input) then RemoteAddedInCommand
     else RemoteName)"

definition resolve_named ::
  "resolve_input \<Rightarrow> string \<Rightarrow> git_sections \<Rightarrow> string \<Rightarrow> string option \<times> string option \<Rightarrow> resolve_result" where
  "resolve_named input verb config arg remote =
    (let fetchUrls = nonempty (fst remote); pushUrls = nonempty (snd remote) in
     if fetchUrls = [] \<and> pushUrls = []
     then no_urls False (''remote '' @ [dquote] @ arg @ [dquote] @ '' has no url or pushurl configured'')
     else finalize config verb fetchUrls (if pushUrls = [] then None else Some pushUrls)
            (named_source input arg))"

definition resolve_origin :: "string \<Rightarrow> git_sections \<Rightarrow> resolve_result option" where
  "resolve_origin verb config =
    (case lookupRemote ''origin'' config of
       None \<Rightarrow> None
     | Some (url, pushurl) \<Rightarrow>
         if nonempty url = [] then None
         else Some (finalize config verb (nonempty url)
                      (if nonempty pushurl = [] then None else Some (nonempty pushurl)) DefaultOrigin))"

definition unresolved :: "string option \<Rightarrow> resolve_result" where
  "unresolved arg =
    (if nonempty arg = [] then no_urls False ''no remote argument and no origin configured''
     else no_urls False (''cannot resolve remote argument '' @ [dquote] @ the arg @ [dquote]))"

definition resolve_in :: "resolve_input \<Rightarrow> string \<Rightarrow> git_sections \<Rightarrow> resolve_result" where
  "resolve_in input verb config =
    (case ri_remoteArg input of
       Some arg \<Rightarrow>
         if arg \<noteq> [] \<and> looksLikeUrl arg \<and> verb \<in> set ACCEPTS_DIRECT_URL
         then finalize config verb [arg] None ArgvUrl
         else if \<not> looksLikeUrl arg then
           (case lookupRemote arg config of
              Some remote \<Rightarrow> resolve_named input verb config arg remote
            | None \<Rightarrow> unresolved (Some arg))
         else unresolved (Some arg)
     | None \<Rightarrow>
         if verb \<in> {''push'', ''fetch'', ''pull''} then
           (case resolve_origin verb config of Some r \<Rightarrow> r | None \<Rightarrow> unresolved None)
         else unresolved None)"

definition resolveGitRemote :: "resolve_input \<Rightarrow> git_sections \<Rightarrow> git_stop + resolve_result" where
  "resolveGitRemote input base =
    (let verb = to_lower (ri_verb input) in
     if verb \<notin> set NETWORK_VERBS then Inr (no_urls True ''non-network verb'')
     else
       (case buildEffectiveConfig base (ri_mutations input) (ri_cFlags input) of
          Inl x \<Rightarrow> Inl x
        | Inr config \<Rightarrow> Inr (resolve_in input verb config)))"

end
