(* ===== verification/GitProperties.thy ===== *)
theory GitProperties
  imports GitRemote JsonlChain
begin

text \<open>
  Properties of the configuration reader and the remote resolver: what is printed in the format of
  git is read back, rewrites take the longest prefix, and the ways to point a push elsewhere within
  one line are seen. The last section holds the inputs on which git and the resolver differ.
\<close>

section \<open>A printer for configurations\<close>

definition escape_text :: "string \<Rightarrow> string" where
  "escape_text s = concat (map (\<lambda>c.
     if c = dquote \<or> c = backslash then [backslash, c]
     else if c = newline then [backslash, CHR ''n'']
     else if c = tab then [backslash, CHR ''t''] else [c]) s)"

definition header_line :: "string \<times> string option \<Rightarrow> string" where
  "header_line h =
    (case snd h of
       None \<Rightarrow> ''['' @ fst h @ '']''
     | Some sub \<Rightarrow> ''['' @ fst h @ '' '' @ [dquote] @ escape_text sub @ [dquote] @ '']'')"

definition value_line :: "string \<Rightarrow> string \<Rightarrow> string" where
  "value_line key v = tab # key @ '' = '' @ [dquote] @ escape_text v @ [dquote]"

definition section_key :: "string \<times> string option \<Rightarrow> string" where
  "section_key h = (case snd h of None \<Rightarrow> fst h | Some sub \<Rightarrow> fst h @ ''.'' @ sub)"

type_synonym printed_section = "(string \<times> string option) \<times> git_section"

definition section_lines :: "printed_section \<Rightarrow> string list" where
  "section_lines s = header_line (fst s) # concat (map (\<lambda>(k, vs). map (value_line k) vs) (snd s))"

definition print_config :: "printed_section list \<Rightarrow> string" where
  "print_config ss = concat (map (\<lambda>l. l @ [newline]) (concat (map section_lines ss)))"

text \<open>Names and keys as git writes them, values without blanks at their ends.\<close>

definition plain_name :: "string \<Rightarrow> bool" where
  "plain_name n \<longleftrightarrow> n \<noteq> [] \<and> ascii_letter (hd n) \<and> list_all name_char n \<and> to_lower n = n"

definition plain_section :: "printed_section \<Rightarrow> bool" where
  "plain_section s \<longleftrightarrow>
    plain_name (fst (fst s)) \<and> section_key (fst s) \<notin> set inherited_names
    \<and> distinct (map fst (snd s))
    \<and> (\<forall>(k, vs) \<in> set (snd s). plain_name k \<and> k \<notin> set inherited_names \<and> vs \<noteq> []
         \<and> list_all (\<lambda>v. trim v = v) vs)"

definition plain_config :: "printed_section list \<Rightarrow> bool" where
  "plain_config ss \<longleftrightarrow> list_all plain_section ss \<and> distinct (map (\<lambda>s. section_key (fst s)) ss)"

definition sections_of :: "printed_section list \<Rightarrow> git_sections" where
  "sections_of ss = map (\<lambda>s. (section_key (fst s), snd s)) ss"

section \<open>Escapes\<close>

lemma escape_text_simps [simp]:
  "escape_text [] = []"
  "escape_text (c # cs) =
    (if c = dquote \<or> c = backslash then [backslash, c]
     else if c = newline then [backslash, CHR ''n'']
     else if c = tab then [backslash, CHR ''t''] else [c]) @ escape_text cs"
  by (simp_all add: escape_text_def)

lemma newline_escape: "newline \<notin> set (escape_text s)"
  by (induction s) auto

lemma escape_of_simps [simp]:
  "escape_of dquote = dquote" "escape_of backslash = backslash" "escape_of (CHR ''n'') = newline"
  "escape_of (CHR ''t'') = tab"
  by (simp_all add: escape_of_def)

lemma unescape_escape [simp]: "unescapeQuoted (escape_text s) = s"
proof (induction s)
  case (Cons c cs)
  show ?case
  proof (cases "escape_text cs")
    case Nil
    with Cons have "cs = []" by (cases cs) auto
    then show ?thesis by simp
  next
    case (Cons d ds)
    with Cons.IH show ?thesis by auto
  qed
qed simp

lemma quoted_escape [simp]:
  "quoted_body (escape_text s @ dquote # r) = Some (escape_text s, r)"
  by (induction s) auto

lemma value_escape: "value_chars True (escape_text s @ [dquote]) = s"
proof (induction s)
  case (Cons c cs)
  obtain d ds where t: "escape_text cs @ [dquote] = d # ds" by (cases "escape_text cs @ [dquote]") auto
  show ?case using Cons.IH by (auto simp: t)
qed simp

lemma join_escape: "join_continued (escape_text s @ dquote # r) = escape_text s @ join_continued (dquote # r)"
proof (induction s)
  case (Cons c cs)
  obtain d ds where t: "escape_text cs @ dquote # r = d # ds" by (cases "escape_text cs @ dquote # r") auto
  have "d \<noteq> newline" using t newline_escape [of cs] by (cases "escape_text cs") auto
  with Cons.IH show ?case by (auto simp: t)
qed simp

lemma join_plain:
  "backslash \<notin> set a \<Longrightarrow> join_continued (a @ r) = a @ join_continued r"
proof (induction a)
  case (Cons c cs)
  then show ?case by (cases "cs @ r") (auto simp: append_eq_Cons_conv)
qed simp

lemma name_chars:
  "name_char c \<Longrightarrow> c \<notin> {backslash, newline, CHR ''='', dquote, CHR '']'', CHR '' '', tab, CHR ''['', CHR ''#'', CHR '';'', CHR ''.''}
     \<and> \<not> is_space c"
  by (auto simp: name_char_def ascii_letter_def is_upper_def is_digit_def is_space_def in_range_def)

section \<open>Lines\<close>

lemma trim_ends: "s \<noteq> [] \<Longrightarrow> \<not> is_space (hd s) \<Longrightarrow> \<not> is_space (last s) \<Longrightarrow> trim s = s"
proof -
  assume s: "s \<noteq> []" "\<not> is_space (hd s)" "\<not> is_space (last s)"
  then have "dropWhile is_space s = s" by (cases s) auto
  moreover have "dropWhile is_space (rev s) = rev s" using s by (cases s rule: rev_cases) auto
  ultimately show ?thesis by (simp add: trim_def)
qed

lemma take_name: "list_all name_char n \<Longrightarrow> \<not> name_char c \<Longrightarrow> takeWhile name_char (n @ c # r) = n"
  "list_all name_char n \<Longrightarrow> \<not> name_char c \<Longrightarrow> dropWhile name_char (n @ c # r) = c # r"
  by (auto simp: takeWhile_append list_all_iff dropWhile_append)

lemma header_name_plain:
  assumes "plain_name n" "\<not> name_char c"
  shows "header_name (CHR ''['' # n @ c # r) = Some (n, c # r)"
proof -
  obtain a as where n: "n = a # as" using assms(1) by (cases n) (auto simp: plain_name_def)
  have a: "ascii_letter a" "\<not> is_space a" using assms(1) name_chars [of a]
    by (auto simp: plain_name_def n name_char_def)
  have "takeWhile name_char (a # as @ c # r) = a # as" "dropWhile name_char (a # as @ c # r) = c # r"
    using take_name [of n c r] assms by (simp_all add: plain_name_def n)
  then show ?thesis using a by (simp add: header_name_def n starts_with_def Let_def del: takeWhile.simps dropWhile.simps)
      (simp add: a)
qed

lemma header_parsed:
  assumes "plain_name (fst h)"
  shows "section_header (header_line h) = Some (section_key h)"
proof (cases "snd h")
  case None
  have c: "\<not> name_char (CHR '']'')" using name_chars [of "CHR '']''"] by blast
  have "header_name (header_line h) = Some (fst h, '']'')"
    using header_name_plain [OF assms c, of "[]"] by (simp add: header_line_def None)
  moreover have "to_lower (fst h) = fst h" using assms by (simp add: plain_name_def)
  ultimately show ?thesis
    by (simp add: section_header_def SECTION_HEADER_RE_def closes_def is_space_def in_range_def
        starts_with_def section_key_def None)
next
  case (Some sub)
  have c: "\<not> name_char (CHR '' '')" using name_chars [of "CHR '' ''"] by blast
  have "header_name (header_line h) = Some (fst h, '' '' @ dquote # escape_text sub @ [dquote, CHR '']''])"
    using header_name_plain [OF assms c, of "dquote # escape_text sub @ [dquote, CHR '']'']"]
    by (simp add: header_line_def Some)
  moreover have "to_lower (fst h) = fst h" using assms by (simp add: plain_name_def)
  moreover have "\<not> is_space dquote" "is_space (CHR '' '')" "\<not> is_space (CHR '']'')"
    by (simp_all add: is_space_def in_range_def)
  ultimately show ?thesis
    by (simp add: section_header_def SECTION_HEADER_RE_def closes_def starts_with_def section_key_def Some)
qed

lemma trim_header: "trim (header_line h) = header_line h"
  by (rule trim_ends) (auto simp: header_line_def is_space_def in_range_def split: option.split)

lemma trim_value: "plain_name k \<Longrightarrow> trim (value_line k v) = tl (value_line k v)"
proof -
  assume k: "plain_name k"
  then have "\<not> is_space (hd k)" "k \<noteq> []" using name_chars [of "hd k"] by (auto simp: plain_name_def list_all_iff)
  then have "trim (k @ '' = '' @ [dquote] @ escape_text v @ [dquote]) = k @ '' = '' @ [dquote] @ escape_text v @ [dquote]"
    by (intro trim_ends) (auto simp: is_space_def in_range_def)
  moreover have "trim (tab # w) = trim w" for w by (simp add: trim_def is_space_def in_range_def)
  ultimately show ?thesis by (simp add: value_line_def)
qed

lemma key_line_parsed:
  assumes "plain_name k" "trim v = v"
  shows "key_line (tl (value_line k v)) = (k, v)"
proof -
  let ?r = "CHR '' '' # dquote # escape_text v @ [dquote]"
  have k: "list_all name_char k" "k \<noteq> []" "to_lower k = k" using assms by (simp_all add: plain_name_def)
  have eq: "CHR ''='' \<notin> set (k @ '' '')" using k(1) name_chars by (auto simp: list_all_iff)
  have l: "tl (value_line k v) = (k @ '' '') @ CHR ''='' # ?r" by (simp add: value_line_def)
  have t: "takeWhile (\<lambda>c. c \<noteq> CHR ''='') (tl (value_line k v)) = k @ '' ''"
    "dropWhile (\<lambda>c. c \<noteq> CHR ''='') (tl (value_line k v)) = CHR ''='' # ?r"
    using eq unfolding l by (simp_all add: takeWhile_append dropWhile_append)
  have "trim (k @ '' '') = trim k"
  proof -
    have "dropWhile is_space (k @ '' '') = k @ '' ''" "dropWhile is_space k = k"
      using k(1,2) name_chars [of "hd k"] by (cases k; auto simp: list_all_iff)+
    then show ?thesis by (simp add: trim_def is_space_def in_range_def)
  qed
  moreover have "trim k = k" using k name_chars by (intro trim_ends) (auto simp: list_all_iff)
  moreover have "parseValue ?r = v"
  proof -
    have "value_chars False ?r = CHR '' '' # value_chars True (escape_text v @ [dquote])"
      by (cases "escape_text v @ [dquote]") auto
    also have "\<dots> = CHR '' '' # v" by (simp add: value_escape)
    finally show ?thesis using assms(2) by (simp add: parseValue_def trim_def is_space_def)
  qed
  moreover have "CHR ''='' \<in> set (tl (value_line k v))" by (simp add: l)
  ultimately show ?thesis using k(3) unfolding key_line_def t by simp
qed

section \<open>Reading back\<close>

lemma obj_set_new: "k \<notin> fst ` set ps \<Longrightarrow> obj_set k v ps = ps @ [(k, v)]"
  by (induction ps) auto

lemma obj_set_last: "k \<notin> fst ` set ps \<Longrightarrow> obj_set k v (ps @ [(k, w)]) = ps @ [(k, v)]"
  by (induction ps) auto

lemma map_of_last: "k \<notin> fst ` set ps \<Longrightarrow> map_of (ps @ [(k, w)]) k = Some w"
  by (simp add: map_of_eq_None_iff [THEN iffD2] map_add_Some_iff)

lemma config_header:
  assumes "plain_name (fst h)"
  shows "config_line (header_line h) \<lparr>gs_sections = secs, gs_current = cur\<rparr>
    = Inr \<lparr>gs_sections = open_section (section_key h) secs, gs_current = Some (section_key h)\<rparr>"
proof -
  have "starts_with (header_line h) ''[''" "header_line h \<noteq> []" "\<not> starts_with (header_line h) ''#''"
    "\<not> starts_with (header_line h) '';''"
    by (auto simp: header_line_def starts_with_def split: option.split)
  then show ?thesis by (simp add: config_line_def trim_header header_parsed [OF assms])
qed

lemma config_value:
  assumes "plain_name k" "k \<notin> set inherited_names" "trim v = v" "map_of secs s = Some sec"
  shows "config_line (value_line k v) \<lparr>gs_sections = secs, gs_current = Some s\<rparr>
    = Inr \<lparr>gs_sections = obj_set s (obj_set k (values_at sec k @ [v]) sec) secs, gs_current = Some s\<rparr>"
proof -
  obtain a as where k: "k = a # as" "name_char a" using assms(1) by (cases k) (auto simp: plain_name_def)
  have "\<not> starts_with (tl (value_line k v)) ''[''" "\<not> starts_with (tl (value_line k v)) ''#''"
    "\<not> starts_with (tl (value_line k v)) '';''" "tl (value_line k v) \<noteq> []"
    using k name_chars [of a] by (auto simp: value_line_def starts_with_def)
  then show ?thesis
    using assms(2,4) by (simp add: config_line_def trim_value [OF assms(1)] key_line_parsed [OF assms(1,3)] push_value_def)
qed

lemma config_values:
  assumes "plain_name k" "k \<notin> set inherited_names" "s \<notin> fst ` set pre" "k \<notin> fst ` set sec"
    and "list_all (\<lambda>v. trim v = v) vs"
  shows "config_lines (map (value_line k) vs) \<lparr>gs_sections = pre @ [(s, sec @ [(k, ws)])], gs_current = Some s\<rparr>
    = Inr \<lparr>gs_sections = pre @ [(s, sec @ [(k, ws @ vs)])], gs_current = Some s\<rparr>"
  using assms(5)
proof (induction vs arbitrary: ws)
  case (Cons v vs)
  then have v: "trim v = v" by simp
  have "config_line (value_line k v) \<lparr>gs_sections = pre @ [(s, sec @ [(k, ws)])], gs_current = Some s\<rparr>
      = Inr \<lparr>gs_sections = pre @ [(s, sec @ [(k, ws @ [v])])], gs_current = Some s\<rparr>"
    using config_value [OF assms(1,2) v map_of_last [OF assms(3)]]
    by (simp only: values_at_def map_of_last [OF assms(4)] option.case obj_set_last [OF assms(4)] obj_set_last [OF assms(3)])
  with Cons show ?case by simp
qed simp

lemma config_first:
  assumes "plain_name k" "k \<notin> set inherited_names" "s \<notin> fst ` set pre" "k \<notin> fst ` set sec" "trim v = v"
  shows "config_line (value_line k v) \<lparr>gs_sections = pre @ [(s, sec)], gs_current = Some s\<rparr>
    = Inr \<lparr>gs_sections = pre @ [(s, sec @ [(k, [v])])], gs_current = Some s\<rparr>"
proof -
  have "values_at sec k = []" using assms(4) by (simp add: values_at_def map_of_eq_None_iff [THEN iffD2])
  with config_value [OF assms(1,2,5) map_of_last [OF assms(3)]] show ?thesis
    by (simp only: append_Nil obj_set_new [OF assms(4)] obj_set_last [OF assms(3)])
qed

lemma config_lines_append:
  "config_lines (as @ bs) st = (case config_lines as st of Inl x \<Rightarrow> Inl x | Inr st' \<Rightarrow> config_lines bs st')"
  by (induction as st rule: config_lines.induct) (auto split: sum.split)

lemma config_keys:
  assumes "s \<notin> fst ` set pre" "distinct (map fst (sec @ kvs))"
    and "\<forall>(k, vs) \<in> set kvs. plain_name k \<and> k \<notin> set inherited_names \<and> vs \<noteq> [] \<and> list_all (\<lambda>v. trim v = v) vs"
  shows "config_lines (concat (map (\<lambda>(k, vs). map (value_line k) vs) kvs))
      \<lparr>gs_sections = pre @ [(s, sec)], gs_current = Some s\<rparr>
    = Inr \<lparr>gs_sections = pre @ [(s, sec @ kvs)], gs_current = Some s\<rparr>"
  using assms(2,3)
proof (induction kvs arbitrary: sec)
  case (Cons kv kvs)
  obtain k v vs where kv: "kv = (k, v # vs)" using Cons.prems(2) by (cases kv; cases "snd kv") auto
  have k: "plain_name k" "k \<notin> set inherited_names" "k \<notin> fst ` set sec" "trim v = v" "list_all (\<lambda>v. trim v = v) vs"
    using Cons.prems by (auto simp: kv)
  have "config_lines (map (value_line k) (v # vs)) \<lparr>gs_sections = pre @ [(s, sec)], gs_current = Some s\<rparr>
      = Inr \<lparr>gs_sections = pre @ [(s, sec @ [(k, v # vs)])], gs_current = Some s\<rparr>"
    using config_first [OF k(1,2) assms(1) k(3,4)] config_values [OF k(1,2) assms(1) k(3,5), of "[v]"] by simp
  moreover have "distinct (map fst ((sec @ [kv]) @ kvs))" using Cons.prems(1) by simp
  note Cons.IH [OF this]
  moreover have "concat (map (\<lambda>(k, vs). map (value_line k) vs) (kv # kvs))
      = map (value_line k) (v # vs) @ concat (map (\<lambda>(k, vs). map (value_line k) vs) kvs)" by (simp add: kv)
  ultimately show ?case using Cons.prems(2)
    by (simp only: config_lines_append sum.case) (simp add: kv)
qed simp

lemma config_section:
  assumes "plain_section p" "section_key (fst p) \<notin> fst ` set pre"
  shows "config_lines (section_lines p) \<lparr>gs_sections = pre, gs_current = cur\<rparr>
    = Inr \<lparr>gs_sections = pre @ [(section_key (fst p), snd p)], gs_current = Some (section_key (fst p))\<rparr>"
proof -
  have "open_section (section_key (fst p)) pre = pre @ [(section_key (fst p), [])]"
    using assms by (simp add: open_section_def plain_section_def obj_set_new map_of_eq_None_iff [THEN iffD2])
  then show ?thesis
    using assms config_keys [OF assms(2), of "[]" "snd p"]
    by (simp add: section_lines_def plain_section_def config_header)
qed

lemma config_sections:
  assumes "list_all plain_section ps" "distinct (map fst (pre @ sections_of ps))"
  shows "\<exists>cur'. config_lines (concat (map section_lines ps)) \<lparr>gs_sections = pre, gs_current = cur\<rparr>
    = Inr \<lparr>gs_sections = pre @ sections_of ps, gs_current = cur'\<rparr>"
  using assms
proof (induction ps arbitrary: pre cur)
  case (Cons p ps)
  then have "section_key (fst p) \<notin> fst ` set pre" "plain_section p" by (auto simp: sections_of_def)
  note one = config_section [OF this(2,1)]
  have "distinct (map fst ((pre @ [(section_key (fst p), snd p)]) @ sections_of ps))"
    using Cons.prems(2) by (simp add: sections_of_def)
  from Cons.IH [OF _ this] Cons.prems(1) one show ?case by (simp add: config_lines_append sections_of_def)
qed (simp add: sections_of_def)

lemma name_no_backslash: "plain_name n \<Longrightarrow> backslash \<notin> set n \<and> newline \<notin> set n"
  using name_chars by (auto simp: plain_name_def list_all_iff)

lemma joined_header:
  assumes "plain_name (fst h)"
  shows "join_continued (header_line h @ newline # r) = header_line h @ newline # join_continued r"
proof (cases "snd h")
  case None
  have "backslash \<notin> set (header_line h @ [newline])"
    using name_no_backslash [OF assms] by (simp add: header_line_def None)
  from join_plain [OF this, of r] show ?thesis by simp
next
  case (Some sub)
  have a: "backslash \<notin> set (''['' @ fst h @ '' '' @ [dquote])" "backslash \<notin> set (dquote # '']'' @ [newline])"
    using name_no_backslash [OF assms] by simp_all
  show ?thesis
    using join_plain [OF a(1), of "escape_text sub @ dquote # '']'' @ newline # r"]
      join_escape [of sub "'']'' @ newline # r"] join_plain [OF a(2), of r]
    by (simp add: header_line_def Some del: join_continued.simps)
qed

lemma joined_value:
  assumes "plain_name k"
  shows "join_continued (value_line k v @ newline # r) = value_line k v @ newline # join_continued r"
proof -
  have a: "backslash \<notin> set (tab # k @ '' = '' @ [dquote])" "backslash \<notin> set (dquote # [newline])"
    using name_no_backslash [OF assms] by simp_all
  show ?thesis
    using join_plain [OF a(1), of "escape_text v @ dquote # newline # r"]
      join_escape [of v "newline # r"] join_plain [OF a(2), of r]
    by (simp add: value_line_def del: join_continued.simps)
qed

definition printed_line :: "string \<Rightarrow> bool" where
  "printed_line l \<longleftrightarrow> newline \<notin> set l \<and> (\<forall>r. join_continued (l @ newline # r) = l @ newline # join_continued r)"

lemma printed_header: "plain_name (fst h) \<Longrightarrow> printed_line (header_line h)"
  using joined_header newline_escape name_no_backslash
  by (auto simp: printed_line_def header_line_def split: option.split)

lemma printed_value: "plain_name k \<Longrightarrow> printed_line (value_line k v)"
  using joined_value newline_escape name_no_backslash by (simp add: printed_line_def) (simp add: value_line_def)

lemma printed_lines:
  assumes "plain_section p" shows "list_all printed_line (section_lines p)"
proof -
  have "printed_line l" if "(k, vs) \<in> set (snd p)" "l \<in> value_line k ` set vs" for k vs l
    using assms that printed_value by (auto simp: plain_section_def)
  then show ?thesis
    using assms printed_header [of "fst p"] by (auto simp: section_lines_def plain_section_def list_all_iff)
qed

lemma joined_text:
  assumes "list_all printed_line ls"
  shows "join_continued (concat (map (\<lambda>l. l @ [newline]) ls)) = concat (map (\<lambda>l. l @ [newline]) ls)
    \<and> split_on newline (concat (map (\<lambda>l. l @ [newline]) ls)) = ls @ [[]]"
  using assms by (induction ls) (auto simp: printed_line_def split_on_line)


section \<open>Rewrites\<close>

definition rewrite_candidates :: "git_sections \<Rightarrow> rewrite_mode \<Rightarrow> candidate list" where
  "rewrite_candidates config mode = concat (map (section_candidates mode) config)"

lemma fold_better:
  "fold (better url) cs b = c \<Longrightarrow>
    (c = b \<or> c \<in> set cs \<and> starts_with url (fst c) \<and> fst c \<noteq> []) \<and> length (fst b) \<le> length (fst c)
    \<and> (\<forall>d \<in> set cs. starts_with url (fst d) \<longrightarrow> length (fst d) \<le> length (fst c))"
proof (induction cs arbitrary: b)
  case (Cons a cs)
  from Cons.IH [of "better url a b"] Cons.prems show ?case
    by (auto simp: better_def split: if_splits)
qed simp

text \<open>
  A rewrite replaces the longest prefix that any rule of the configuration offers for the
  address (rules for pushes only count for pushes), and an address is left alone only if no rule
  offers one.
\<close>

theorem rewrite_longest:
  "case applyInsteadOfRewrites url config mode of
     (to, None) \<Rightarrow> to = url \<and> (\<forall>c \<in> set (rewrite_candidates config mode). starts_with url (fst c) \<longrightarrow> fst c = [])
   | (to, Some w) \<Rightarrow> rw_from w = url \<and> rw_to w = to \<and>
       (\<exists>(short, prefix, key) \<in> set (rewrite_candidates config mode).
          short \<noteq> [] \<and> starts_with url short \<and> to = prefix @ drop (length short) url
          \<and> (\<forall>c \<in> set (rewrite_candidates config mode). starts_with url (fst c) \<longrightarrow> length (fst c) \<le> length short))"
proof -
  obtain short prefix key where b: "best_candidate url config mode = (short, prefix, key)"
    by (cases "best_candidate url config mode")
  then have "fold (better url) (rewrite_candidates config mode) ([], [], []) = (short, prefix, key)"
    by (simp add: best_candidate_def rewrite_candidates_def)
  note f = fold_better [OF this]
  show ?thesis
  proof (cases "short = []")
    case True
    with f show ?thesis by (simp add: applyInsteadOfRewrites_def b)
  next
    case False
    with f have "(short, prefix, key) \<in> set (rewrite_candidates config mode)" "starts_with url short" by auto
    with False f show ?thesis
      by (auto simp: applyInsteadOfRewrites_def b Let_def intro!: bexI [of _ "(short, prefix, key)"])
  qed
qed

section \<open>Remotes set in the same line\<close>

lemma dotted_not_inherited: "CHR ''.'' \<in> set s \<Longrightarrow> s \<notin> set inherited_names"
  by (auto simp: inherited_names_def)

lemma last_dot_append: "CHR ''.'' \<notin> set key \<Longrightarrow> last_dot (path @ CHR ''.'' # key) = Some (path, key)"
proof -
  assume k: "CHR ''.'' \<notin> set key"
  then have "takeWhile (\<lambda>c. c \<noteq> CHR ''.'') (rev (path @ CHR ''.'' # key)) = rev key"
    by (simp add: takeWhile_append)
  then show ?thesis by (simp add: last_dot_def)
qed

definition url_layer :: "string \<Rightarrow> string \<Rightarrow> git_sections" where
  "url_layer name url = [(''remote.'' @ to_lower name, [(''url'', [url])])]"

lemma flat_url:
  assumes "to_lower path = ''remote.'' @ to_lower name"
  shows "configFromFlat [(path @ ''.url'', url)] [] = Inr (url_layer name url)"
proof -
  have d: "last_dot (path @ ''.url'') = Some (path, ''url'')" using last_dot_append [of "''url''" path] by simp
  have "''remote.'' @ to_lower name \<notin> set inherited_names" by (rule dotted_not_inherited) simp
  moreover have "to_lower ''url'' = ''url''" "''url'' \<notin> set inherited_names" by code_simp+
  ultimately show ?thesis
    by (simp add: flat_entry_def d assms open_section_def push_value_def values_at_def url_layer_def)
qed

lemma merged_url:
  "\<exists>sec. map_of (mergeGitConfig cfg (url_layer name url)) (''remote.'' @ to_lower name) = Some sec
     \<and> first_value sec ''url'' = Some url"
  by (simp add: mergeGitConfig_def url_layer_def overlay_section_def Let_def first_value_def values_at_def)

lemma lookup_merged:
  "\<exists>pushurl. lookupRemote name (mergeGitConfig cfg (url_layer name url)) = Some (Some url, pushurl)"
proof -
  obtain sec where "map_of (mergeGitConfig cfg (url_layer name url)) (''remote.'' @ to_lower name) = Some sec"
    "first_value sec ''url'' = Some url" using merged_url by blast
  then show ?thesis by (simp add: lookupRemote_def Let_def)
qed

lemma resolve_merged:
  assumes "ri_remoteArg input = Some name" "\<not> looksLikeUrl name" "url \<noteq> []"
  shows "let r = resolve_in input ''push'' (mergeGitConfig cfg (url_layer name url)) in
    rr_resolved r \<and> rr_source r = named_source input name
    \<and> rr_urls r = [fst (applyInsteadOfRewrites url (mergeGitConfig cfg (url_layer name url)) PushMode)]"
proof -
  obtain pushurl where l: "lookupRemote name (mergeGitConfig cfg (url_layer name url)) = Some (Some url, pushurl)"
    using lookup_merged by blast
  show ?thesis
    by (simp add: resolve_in_def assms l resolve_named_def nonempty_def Let_def finalize_def rewrite_all_def)
qed

definition remote_path :: "string \<Rightarrow> string" where
  "remote_path name = ''remote.'' @ name @ ''.url''"

lemma lower_append: "to_lower (a @ b) = to_lower a @ to_lower b"
  by (simp add: to_lower_def)

lemma flat_remote:
  assumes "to_lower n = to_lower name"
  shows "overlay (Some [(remote_path n, url)]) base = Inr (mergeGitConfig base (url_layer name url))"
proof -
  have "to_lower ''remote.'' = ''remote.''" by code_simp
  then have "configFromFlat [((''remote.'' @ n) @ ''.url'', url)] [] = Inr (url_layer name url)"
    using assms by (intro flat_url) (simp only: lower_append)
  then show ?thesis by (simp only: overlay_def remote_path_def option.case append_assoc sum.case) simp
qed

lemma mentions_remote:
  assumes "to_lower n = to_lower name"
  shows "mentions name (Some [(remote_path n, url)])"
proof -
  have "to_lower (remote_path n) = (''remote.'' @ to_lower name @ ''.'') @ ''url''"
    using assms by (simp add: remote_path_def to_lower_def) (simp add: lower_char_def is_upper_def in_range_def)
  then show ?thesis by (simp only: mentions_def option.case list_ex_iff fst_conv) (simp add: starts_with_def)
qed

text \<open>A name that git takes as the name of a remote on its command line.\<close>

definition remote_word :: "string \<Rightarrow> bool" where
  "remote_word n \<longleftrightarrow> n \<noteq> [] \<and> \<not> starts_with n ''-'' \<and> \<not> looksLikeUrl n \<and> CHR ''='' \<notin> set n"

lemma push_argv:
  assumes "is_git git" "remote_word name"
  shows "parseGitArgv [git, ''push'', name] = Some \<lparr>pg_verb = ''push'', pg_remoteArg = Some name, pg_cFlags = []\<rparr>"
    and "parseGitArgv [git, ''-c'', ''remote.'' @ name @ ''.url='' @ url, ''push'', name]
      = Some \<lparr>pg_verb = ''push'', pg_remoteArg = Some name, pg_cFlags = [(remote_path name, url)]\<rparr>"
proof -
  have p: "to_lower ''push'' = ''push''" by code_simp
  show "parseGitArgv [git, ''push'', name] = Some \<lparr>pg_verb = ''push'', pg_remoteArg = Some name, pg_cFlags = []\<rparr>"
    using assms by (simp add: parseGitArgv_def positional_def remote_word_def p) (simp add: starts_with_def)
  have "takeWhile (\<lambda>c. c \<noteq> CHR ''='') (''remote.'' @ name @ ''.url='' @ url) = ''remote.'' @ name @ ''.url''"
    using assms(2) by (simp add: remote_word_def takeWhile_append)
  then have "add_pair (''remote.'' @ name @ ''.url='' @ url) [] = [(remote_path name, url)]"
    by (simp add: add_pair_def assign_member_def remote_path_def)
  then show "parseGitArgv [git, ''-c'', ''remote.'' @ name @ ''.url='' @ url, ''push'', name]
      = Some \<lparr>pg_verb = ''push'', pg_remoteArg = Some name, pg_cFlags = [(remote_path name, url)]\<rparr>"
    using assms by (simp add: parseGitArgv_def positional_def remote_word_def p) (simp add: starts_with_def)
qed

definition resolve_argv ::
  "string list list \<Rightarrow> string list \<Rightarrow> git_sections \<Rightarrow> (git_stop + resolve_result) option" where
  "resolve_argv before argv base =
    map_option (\<lambda>p. resolveGitRemote
      \<lparr>ri_verb = pg_verb p, ri_remoteArg = pg_remoteArg p, ri_cFlags = Some (pg_cFlags p),
       ri_mutations = Some (extractMutationsFromArgv before)\<rparr> base) (parseGitArgv argv)"

lemma added_remote:
  assumes "is_git git" "name \<noteq> []" "url \<noteq> []"
  shows "extractMutationsFromArgv [[git, ''remote'', ''add'', name, url]] = [(remote_path (to_lower name), url)]"
proof -
  have "to_lower ''remote'' = ''remote''" "to_lower ''add'' = ''add''" by code_simp+
  then show ?thesis
    using assms by (simp add: extractMutationsFromArgv_def mutation_of_def assign_member_def remote_path_def)
      (simp add: starts_with_def)
qed

lemma lower_twice: "to_lower (to_lower s) = to_lower s"
proof -
  have "lower_char (lower_char c) = lower_char c" for c
    by (auto simp: lower_char_def is_upper_def in_range_def)
  then show ?thesis by (simp add: to_lower_def)
qed

lemma push_resolved:
  assumes "remote_word name" "url \<noteq> []"
    and "buildEffectiveConfig base muts flags = Inr (mergeGitConfig base (url_layer name url))"
    and "input = \<lparr>ri_verb = ''push'', ri_remoteArg = Some name, ri_cFlags = flags, ri_mutations = muts\<rparr>"
  shows "\<exists>r. resolveGitRemote input base = Inr r \<and> rr_resolved r \<and> rr_source r = named_source input name
    \<and> rr_urls r = [fst (applyInsteadOfRewrites url (mergeGitConfig base (url_layer name url)) PushMode)]"
proof -
  have "to_lower ''push'' = ''push''" by code_simp
  then show ?thesis
    using resolve_merged [of input name url base] assms by (simp add: resolveGitRemote_def NETWORK_VERBS_def remote_word_def Let_def)
qed

text \<open>
  A push to a remote whose address was set by a flag of the same command, or added by a command
  before it in the same line, is resolved to that address, rewritten by the rules in force, and to
  no other fetch address, in these two forms of the command.
\<close>

theorem redirected_push_seen:
  assumes "is_git git" "remote_word name" "url \<noteq> []"
  shows "\<exists>r. (if by_flag
        then resolve_argv [] [git, ''-c'', ''remote.'' @ name @ ''.url='' @ url, ''push'', name] base
        else resolve_argv [[git, ''remote'', ''add'', name, url]] [git, ''push'', name] base) = Some (Inr r)
    \<and> rr_resolved r
    \<and> rr_source r = (if by_flag then CFlagOverride else RemoteAddedInCommand)
    \<and> rr_urls r = [fst (applyInsteadOfRewrites url (mergeGitConfig base (url_layer name url)) PushMode)]"
proof -
  have name: "name \<noteq> []" using assms(2) by (simp add: remote_word_def)
  have flag: "buildEffectiveConfig base (Some []) (Some [(remote_path name, url)]) = Inr (mergeGitConfig base (url_layer name url))"
    using flat_remote [of name name url base] by (simp add: buildEffectiveConfig_def) (simp add: overlay_def)
  have added: "buildEffectiveConfig base (Some [(remote_path (to_lower name), url)]) (Some []) = Inr (mergeGitConfig base (url_layer name url))"
    using flat_remote [OF lower_twice, of name url base] by (simp add: buildEffectiveConfig_def) (simp add: overlay_def)
  show ?thesis
  proof (cases by_flag)
    case True
    then show ?thesis
      using push_resolved [OF assms(2,3) flag refl] mentions_remote [of name name url]
      by (simp only: resolve_argv_def push_argv [OF assms(1,2)] option.map extractMutationsFromArgv_def
          fold.simps id_apply if_True parsed_git_argv.simps) (auto simp: named_source_def)
  next
    case False
    then show ?thesis
      using push_resolved [OF assms(2,3) added refl] mentions_remote [OF lower_twice, of name url]
      by (simp only: resolve_argv_def push_argv [OF assms(1,2)] option.map added_remote [OF assms(1) name assms(3)]
          if_False parsed_git_argv.simps) (auto simp: named_source_def mentions_def)
  qed
qed

section \<open>Where git and the resolver differ\<close>

text \<open>The argument of \<open>-C\<close> is taken for the verb, and the push is passed as no network command.\<close>

lemma directory_flag_hides_push:
  "resolve_argv [] [''git'', ''-C'', ''/tmp'', ''push'', ''https://evil.example/''] base
    = Some (Inr (no_urls True ''non-network verb''))"
  by code_simp

text \<open>A remote whose name has an upper case letter is never found.\<close>

lemma capital_remote_lost:
  "lookupRemote ''Origin'' (sections_of [((''remote'', Some ''Origin''), [(''url'', [''https://a.example/'']) ])]) = None"
  by code_simp

text \<open>Git pushes to every address of a remote; only the first is reported.\<close>

lemma second_address_unseen:
  "lookupRemote ''origin'' (sections_of [((''remote'', Some ''origin''), [(''url'', [''https://a.example/'', ''https://evil.example/'']) ])])
    = Some (Some ''https://a.example/'', None)"
  by code_simp

text \<open>A key that every object inherits throws, and a header that is no header keeps the last section open.\<close>

lemma inherited_key_throws:
  "parseGitConfig (''[core]'' @ [newline] @ ''constructor = 1'') = Inl (KeyThrows ''constructor'')"
  by code_simp

lemma prototype_section_written:
  "configFromFlat [(''__proto__.pushurl'', ''https://evil.example/'')] [] = Inl (WritesGlobal ''__proto__'')"
  by code_simp

lemma bad_header_ignored:
  "parseGitConfig (''[core]'' @ [newline] @ ''[remote origin]'' @ [newline] @ ''url = x'')
    = Inr [(''core'', [(''url'', [''x''])])]"
  by code_simp

section \<open>Witnesses\<close>

definition sample_config :: "printed_section list" where
  "sample_config =
    [((''core'', None), [(''bare'', [''false''])]),
     ((''remote'', Some ''origin''), [(''url'', [''https://a.example/x'', ''a#b''])])]"


lemma rewrite_longest_witness:
  "case applyInsteadOfRewrites ''gh:x'' [(''url.https://github.com/'', [(''insteadof'', [''gh:''])])] PushMode of
     (to, None) \<Rightarrow> False | (to, Some w) \<Rightarrow> rw_from w = ''gh:x'' \<and> rw_to w = to"
proof -
  have "snd (applyInsteadOfRewrites ''gh:x'' [(''url.https://github.com/'', [(''insteadof'', [''gh:''])])] PushMode) \<noteq> None"
    by code_simp
  with rewrite_longest [of "''gh:x''" "[(''url.https://github.com/'', [(''insteadof'', [''gh:''])])]" PushMode]
  show ?thesis by (auto split: prod.splits option.splits)
qed

lemma redirected_push_seen_witness:
  "\<exists>r. resolve_argv [] [''git'', ''-c'', ''remote.o.url=evil'', ''push'', ''o''] [] = Some (Inr r)
    \<and> rr_source r = CFlagOverride"
proof -
  have "is_git ''git''" "remote_word ''o''" by code_simp+
  from redirected_push_seen [OF this, of "''evil''" True "[]"] show ?thesis by auto
qed

end
