(* ===== verification/VerifyChecks.thy ===== *)
theory VerifyChecks
  imports RelayDaemon
begin

text \<open>
  The checks that the verification engine of \<^verbatim>\<open>patchwork verify\<close> composes,
  \<^verbatim>\<open>packages/cli/src/verify-engine.ts\<close>, up to the attestation, with the remote check of
  \<^verbatim>\<open>packages/cli/src/remote-witness.ts\<close>: the latest seal, the witness records and the anchors at
  their witnesses. Files are a map from paths to contents; the clock, the network and the environment
  variable with the token are parameters. File modes are not modelled.
\<close>

record verify_env =
  ve_base :: relay_env
  ve_now :: int
  ve_fetch :: "string \<Rightarrow> int option \<Rightarrow> string option \<Rightarrow> (nat \<times> json) result"
  ve_variable :: "string \<Rightarrow> string option"
  ve_events_path :: string
  ve_seal_key_path :: string
  ve_keyring_dir :: string
  ve_seals_path :: string
  ve_witnesses_path :: string
  ve_attestation_path :: string

record verify_files =
  vf_read :: "string \<Rightarrow> string option"
  vf_keyring :: "string \<Rightarrow> files"

record engine_options =
  vp_file :: "string option"
  vp_sealFile :: "string option"
  vp_keyFile :: "string option"
  vp_keyringDir :: "string option"
  vp_witnessFile :: "string option"
  vp_sealCheck :: "bool option"
  vp_requireSeal :: bool
  vp_maxSealAgeSeconds :: "string option"
  vp_strictSealFile :: bool
  vp_witnessCheck :: "bool option"
  vp_requireWitness :: bool
  vp_maxWitnessAgeSeconds :: "string option"
  vp_strictWitnessFile :: bool
  vp_strict :: bool
  vp_allowInvalid :: bool
  vp_attestationFile :: "string option"
  vp_attestationCheck :: "bool option"
  vp_requireAttestation :: bool
  vp_requireSignedAttestation :: bool
  vp_maxAttestationAgeSeconds :: "string option"
  vp_strictAttestationFile :: bool
  vp_requireAttestationBinding :: bool
  vp_requireRemoteWitnessProof :: bool
  vp_remoteWitnessQuorum :: "string option"
  vp_remoteWitnessTimeoutMs :: "string option"
  vp_noRemoteWitnessCheck :: bool
  vp_tokenEnv :: "string option"

section \<open>Results\<close>

text \<open>An age in seconds; \<open>None\<close> is NaN, the age of a date that is none.\<close>

type_synonym age = "int option"

record seal_check =
  sc_checked :: bool
  sc_present :: bool
  sc_valid :: bool
  sc_tip_match :: bool
  sc_tip_hash :: "json option"
  sc_age :: "age option"
  sc_corrupt_lines :: nat
  sc_failure :: "string option"
  sc_events_since :: "nat option"

record witness_check =
  wk_checked :: bool
  wk_present :: bool
  wk_matching :: nat
  wk_valid :: nat
  wk_age :: "int option"
  wk_corrupt_lines :: nat
  wk_failure :: "string option"

record proof_result =
  wp_url :: string
  wp_anchor_id :: string
  wp_verified :: bool
  wp_error :: "string option"

record remote_check =
  rk_checked :: bool
  rk_results :: "proof_result list"
  rk_verified :: nat
  rk_quorum_met :: bool
  rk_failure :: "string option"

record attestation_check =
  at_checked :: bool
  at_present :: bool
  at_valid :: bool
  at_signed :: bool
  at_signature_valid :: bool
  at_hash_valid :: bool
  at_age :: "int option"
  at_failure :: "string option"
  at_matches :: bool
  at_match_failure :: "string option"

record verify_report =
  vr_pass :: bool
  vr_error :: "string option"
  vr_tip :: "string option"
  vr_chain :: chain_verification
  vr_seal :: seal_check
  vr_witness :: witness_check
  vr_remote :: remote_check
  vr_attestation :: attestation_check
  vr_paths :: "string list"

definition no_seal_check :: seal_check where
  "no_seal_check =
    \<lparr>sc_checked = False, sc_present = False, sc_valid = False, sc_tip_match = False, sc_tip_hash = None,
     sc_age = None, sc_corrupt_lines = 0, sc_failure = None, sc_events_since = None\<rparr>"

definition no_witness_check :: witness_check where
  "no_witness_check =
    \<lparr>wk_checked = False, wk_present = False, wk_matching = 0, wk_valid = 0, wk_age = None,
     wk_corrupt_lines = 0, wk_failure = None\<rparr>"

definition emptyRemoteWitnessResult :: remote_check where
  "emptyRemoteWitnessResult =
    \<lparr>rk_checked = False, rk_results = [], rk_verified = 0, rk_quorum_met = False, rk_failure = None\<rparr>"

definition emptyAttestationResult :: attestation_check where
  "emptyAttestationResult =
    \<lparr>at_checked = False, at_present = False, at_valid = False, at_signed = False,
     at_signature_valid = False, at_hash_valid = False, at_age = None, at_failure = None,
     at_matches = False, at_match_failure = None\<rparr>"

definition no_chain :: chain_verification where
  "no_chain = cs_result (chain_state0 0)"

definition emptyResult :: "bool \<Rightarrow> string \<Rightarrow> string list \<Rightarrow> verify_report" where
  "emptyResult pass err paths =
    \<lparr>vr_pass = pass, vr_error = Some err, vr_tip = None, vr_chain = no_chain, vr_seal = no_seal_check,
     vr_witness = no_witness_check, vr_remote = emptyRemoteWitnessResult,
     vr_attestation = emptyAttestationResult, vr_paths = paths\<rparr>"

section \<open>Ages\<close>

datatype age_param = NoAge | InvalidAge | MaxAge nat

definition parsePositiveIntAge :: "string option \<Rightarrow> age_param" where
  "parsePositiveIntAge raw =
    (case raw of
       None \<Rightarrow> NoAge
     | Some str \<Rightarrow>
         if str = [] \<or> \<not> list_all is_digit str then InvalidAge
         else (let n = read_nat str in
               if n = 0 \<or> n > 9007199254740991 then InvalidAge else MaxAge n))"

text \<open>\<open>Math.round((now - t) / 1000)\<close>.\<close>

definition age_seconds :: "verify_env \<Rightarrow> int \<Rightarrow> int" where
  "age_seconds e t = (2 * (ve_now e - t) + 1000) div 2000"

definition exceeds :: "int \<Rightarrow> age_param \<Rightarrow> bool" where
  "exceeds s m \<longleftrightarrow> (case m of MaxAge n \<Rightarrow> s > int n | _ \<Rightarrow> False)"

definition max_text :: "age_param \<Rightarrow> string" where
  "max_text m = (case m of MaxAge n \<Rightarrow> digits_of n | _ \<Rightarrow> ''null'')"

definition too_old :: "string \<Rightarrow> int \<Rightarrow> age_param \<Rightarrow> string" where
  "too_old what s m =
    what @ '' too old: '' @ print_int s @ ''s exceeds max '' @ max_text m @ ''s''"

text \<open>\<open>opts.path || DEFAULT\<close>.\<close>

definition path_or :: "string option \<Rightarrow> string \<Rightarrow> string" where
  "path_or p d = (case str_or p None of None \<Rightarrow> d | Some q \<Rightarrow> q)"

section \<open>Seals\<close>

definition is_seal_record :: "json \<Rightarrow> bool" where
  "is_seal_record v \<longleftrightarrow>
    truthy_json (json_get v ''sealed_at'') \<and> truthy_json (json_get v ''tip_hash'')
    \<and> (case json_get v ''chained_events'' of Some (JNum n) \<Rightarrow> True | _ \<Rightarrow> False)
    \<and> truthy_json (json_get v ''signature'')"

text \<open>The lines from the last one on; null is not guarded.\<close>

fun seal_scan :: "relay_env \<Rightarrow> string list \<Rightarrow> nat \<Rightarrow> (json option \<times> nat) result" where
  "seal_scan e [] corrupt = Inr (None, corrupt)"
| "seal_scan e (l # ls) corrupt =
     (case relay_parse e l of
        None \<Rightarrow> seal_scan e ls (Suc corrupt)
      | Some v \<Rightarrow>
          if v = JNull then Inl (TypeError ''Cannot read properties of null (reading sealed_at)'')
          else if is_seal_record v then Inr (Some v, corrupt)
          else seal_scan e ls (Suc corrupt))"

definition findLatestValidSeal :: "relay_env \<Rightarrow> string list \<Rightarrow> (json option \<times> nat) result" where
  "findLatestValidSeal e sealLines = seal_scan e (rev sealLines) 0"

definition keyring_key :: "files \<Rightarrow> json option \<Rightarrow> string option" where
  "keyring_key dir key_id =
    (if \<not> truthy_json key_id then None
     else (case bind_result (js_text key_id) (loadKeyById dir) of Inl x \<Rightarrow> None | Inr key \<Rightarrow> Some key))"

definition seal_failed :: "nat \<Rightarrow> string \<Rightarrow> seal_check" where
  "seal_failed corrupt reason =
    no_seal_check\<lparr>sc_checked := True, sc_present := True, sc_corrupt_lines := corrupt, sc_failure := Some reason\<rparr>"

text \<open>The index of the sealed tip among the chained events, and their number.\<close>

fun tip_scan :: "json option \<Rightarrow> json list \<Rightarrow> nat option \<Rightarrow> nat \<Rightarrow> (nat option \<times> nat) result" where
  "tip_scan tip [] found seen = Inr (found, seen)"
| "tip_scan tip (ev # evs) found seen =
     (if ev = JNull then Inl (TypeError ''Cannot read properties of null (reading event_hash)'')
      else
        (case string_member ev ''event_hash'' of
           None \<Rightarrow> tip_scan tip evs found seen
         | Some h \<Rightarrow>
             tip_scan tip evs (if found = None \<and> tip = Some (JStr h) then Some seen else found) (Suc seen)))"

text \<open>\<open>computeSealPayload\<close> on members that may be of any type: its patterns and its template convert them.\<close>

definition seal_payload_of :: "json \<Rightarrow> string result" where
  "seal_payload_of seal =
    bind_result (js_text (json_get seal ''tip_hash'')) (\<lambda>tip.
    bind_result (js_text (json_get seal ''sealed_at'')) (\<lambda>at.
      (case json_get seal ''chained_events'' of
         Some (JNum n) \<Rightarrow> computeSealPayload tip n at
       | _ \<Rightarrow> Inl (Thrown ''computeSealPayload: chainedEvents must be a non-negative integer''))))"

definition seal_key :: "verify_env \<Rightarrow> verify_files \<Rightarrow> engine_options \<Rightarrow> json \<Rightarrow> (string + string) result" where
  "seal_key e fs opts seal =
    (let keyPath = path_or (vp_keyFile opts) (ve_seal_key_path e); key_id = json_get seal ''key_id'' in
     case keyring_key (vf_keyring fs (path_or (vp_keyringDir opts) (ve_keyring_dir e))) key_id of
       Some key \<Rightarrow> Inr (Inr key)
     | None \<Rightarrow>
         (case vf_read fs keyPath of
            Some key \<Rightarrow> Inr (Inr key)
          | None \<Rightarrow>
              if truthy_json key_id then
                bind_result (js_text key_id) (\<lambda>k.
                  Inr (Inl (''Key '' @ k @ '' not found in keyring and no legacy key at '' @ keyPath)))
              else Inr (Inl (''Seal file exists but key not found at '' @ keyPath))))"

definition sealed_age :: "verify_env \<Rightarrow> json \<Rightarrow> age result" where
  "sealed_age e seal =
    bind_result (date_ms (ve_base e) (json_get seal ''sealed_at'')) (\<lambda>t.
      Inr (map_option (age_seconds e) t))"

definition seal_verdict ::
  "verify_env \<Rightarrow> json list \<Rightarrow> age_param \<Rightarrow> json \<Rightarrow> nat \<Rightarrow> seal_check result" where
  "seal_verdict e events maxAge seal corrupt =
    (let tip = json_get seal ''tip_hash'' in
     bind_result (tip_scan tip events None 0) (\<lambda>(found, seen).
     bind_result (sealed_age e seal) (\<lambda>age.
       (let r = no_seal_check\<lparr>sc_checked := True, sc_present := True, sc_valid := True, sc_tip_hash := tip,
                  sc_age := Some age, sc_corrupt_lines := corrupt\<rparr>
        in case found of
             None \<Rightarrow>
               (case tip of
                  Some (JStr h) \<Rightarrow>
                    Inr (r\<lparr>sc_failure := Some (''Sealed tip not found in chain: sealed='' @ take 20 h
                             @ ''... (chain truncated or rewritten)'')\<rparr>)
                | Some (JArr vs) \<Rightarrow>
                    bind_result (js_string (JArr (take 20 vs))) (\<lambda>t.
                      Inr (r\<lparr>sc_failure := Some (''Sealed tip not found in chain: sealed='' @ t
                               @ ''... (chain truncated or rewritten)'')\<rparr>))
                | _ \<Rightarrow> Inl (not_a_function ''latestSeal.tip_hash.slice''))
           | Some i \<Rightarrow>
               (let r1 = r\<lparr>sc_tip_match := True, sc_events_since := Some (seen - i - 1)\<rparr> in
                case age of
                  Some s \<Rightarrow> Inr (if exceeds s maxAge then r1\<lparr>sc_failure := Some (too_old ''Seal'' s maxAge)\<rparr> else r1)
                | None \<Rightarrow> Inr r1)))))"

definition runSealCheck ::
  "verify_env \<Rightarrow> verify_files \<Rightarrow> engine_options \<Rightarrow> json list \<Rightarrow> age_param \<Rightarrow> seal_check result" where
  "runSealCheck e fs opts events maxAge =
    (if vp_sealCheck opts = Some False then Inr no_seal_check
     else
       (case vf_read fs (path_or (vp_sealFile opts) (ve_seals_path e)) of
          None \<Rightarrow>
            Inr (no_seal_check\<lparr>sc_checked := True,
                   sc_failure := (if vp_requireSeal opts \<or> maxAge \<noteq> NoAge
                                  then Some ''No seal file found (required by policy)'' else None)\<rparr>)
        | Some content \<Rightarrow>
            if content_lines content = [] then Inr (seal_failed 0 ''Seal file is empty'')
            else
              bind_result (findLatestValidSeal (ve_base e) (content_lines content)) (\<lambda>(latest, corrupt).
                if vp_strictSealFile opts \<and> corrupt > 0
                then Inr (seal_failed corrupt (digits_of corrupt @ '' corrupt seal line(s) detected (--strict-seal-file)''))
                else
                  (case latest of
                     None \<Rightarrow> Inr (seal_failed corrupt ''No valid seal record found in seal file'')
                   | Some seal \<Rightarrow>
                       bind_result (seal_key e fs opts seal) (\<lambda>k.
                         (case k of
                            Inl reason \<Rightarrow> Inr (seal_failed corrupt reason)
                          | Inr key \<Rightarrow>
                              bind_result (seal_payload_of seal) (\<lambda>payload.
                              bind_result (verify_any (ve_base e) payload (the (json_get seal ''signature'')) key) (\<lambda>ok.
                                if \<not> ok
                                then Inr (seal_failed corrupt ''Seal signature is invalid (key mismatch or tampered seal)'')
                                else seal_verdict e events maxAge seal corrupt)))))))) "

section \<open>Witnesses\<close>

fun z_count :: schema where
  "z_count (JNum i) = (if 0 \<le> i then Some (JNum i) else None)"
| "z_count _ = None"

definition WitnessRecordSchema :: "(string \<Rightarrow> bool) \<Rightarrow> schema" where
  "WitnessRecordSchema is_datetime = z_object
    [(''schema_version'', Required (z_literal 1)), (''witnessed_at'', Required (z_refine is_datetime)),
     (''tip_hash'', Required z_string), (''chained_events'', Required z_count),
     (''seal_signature'', Required z_string), (''key_id'', Optional z_string),
     (''witness_url'', Required z_string), (''anchor_id'', Required z_string),
     (''receipt_hash'', Optional z_string)]"

definition read_witness :: "relay_env \<Rightarrow> string \<Rightarrow> json option" where
  "read_witness e line =
    (case relay_parse e line of
       None \<Rightarrow> None | Some v \<Rightarrow> WitnessRecordSchema (lg_datetime (re_log e)) v)"

text \<open>The records that are well formed, and the number of lines that are not.\<close>

definition witness_records :: "relay_env \<Rightarrow> string list \<Rightarrow> json list \<times> nat" where
  "witness_records e lines =
    (List.map_filter (read_witness e) lines, length (filter (\<lambda>l. read_witness e l = None) lines))"

definition tip_records :: "string option \<Rightarrow> json list \<Rightarrow> json list" where
  "tip_records currentTip records =
    (if truthy currentTip then filter (\<lambda>r. string_member r ''tip_hash'' = currentTip) records else [])"

definition latest_time :: "relay_env \<Rightarrow> json list \<Rightarrow> int" where
  "latest_time e records = fold (\<lambda>r t.
     case string_member r ''witnessed_at'' of
       None \<Rightarrow> t
     | Some s \<Rightarrow> (case re_date e s of None \<Rightarrow> t | Some u \<Rightarrow> (if u > t then u else t))) records 0"

definition witness_verdict ::
  "verify_env \<Rightarrow> engine_options \<Rightarrow> string option \<Rightarrow> age_param \<Rightarrow> json list \<Rightarrow> nat \<Rightarrow> witness_check" where
  "witness_verdict e opts currentTip maxAge valid corrupt =
    (let matching = tip_records currentTip valid;
         age = (if matching = [] then None else Some (age_seconds e (latest_time (ve_base e) matching)));
         r = no_witness_check\<lparr>wk_checked := True, wk_present := True, wk_valid := length valid,
               wk_age := age, wk_corrupt_lines := corrupt\<rparr>
     in if vp_requireWitness opts \<and> matching = []
        then r\<lparr>wk_failure := Some ''No witness record matches current chain tip (required by --require-witness)''\<rparr>
        else if matching \<noteq> [] \<and> exceeds (the age) maxAge
        then r\<lparr>wk_matching := length matching, wk_failure := Some (too_old ''Witness'' (the age) maxAge)\<rparr>
        else if maxAge \<noteq> NoAge \<and> matching = []
        then r\<lparr>wk_failure := Some ''No witness record matches current chain tip (required by --max-witness-age-seconds)''\<rparr>
        else r\<lparr>wk_matching := length matching\<rparr>)"

definition runWitnessCheck ::
  "verify_env \<Rightarrow> verify_files \<Rightarrow> engine_options \<Rightarrow> string option \<Rightarrow> age_param \<Rightarrow> witness_check" where
  "runWitnessCheck e fs opts currentTip maxAge =
    (let needed = vp_requireWitness opts \<or> maxAge \<noteq> NoAge in
     if vp_witnessCheck opts = Some False then no_witness_check
     else
       (case vf_read fs (path_or (vp_witnessFile opts) (ve_witnesses_path e)) of
          None \<Rightarrow>
            no_witness_check\<lparr>wk_checked := True,
              wk_failure := (if needed then Some ''No witness file found (required by policy)'' else None)\<rparr>
        | Some content \<Rightarrow>
            if content_lines content = [] then
              no_witness_check\<lparr>wk_checked := True, wk_present := True,
                wk_failure := (if needed then Some ''Witness file is empty (required by policy)'' else None)\<rparr>
            else
              (let (valid, corrupt) = witness_records (ve_base e) (content_lines content) in
               if vp_strictWitnessFile opts \<and> corrupt > 0 then
                 no_witness_check\<lparr>wk_checked := True, wk_present := True, wk_valid := length valid,
                   wk_corrupt_lines := corrupt,
                   wk_failure := Some (digits_of corrupt @ '' corrupt witness line(s) detected (--strict-witness-file)'')\<rparr>
               else witness_verdict e opts currentTip maxAge valid corrupt)))"

section \<open>Anchors at the witnesses\<close>

definition strip_slashes :: "string \<Rightarrow> string" where
  "strip_slashes s = rev (dropWhile (\<lambda>c. c = CHR ''/'') (rev s))"

definition proof_of ::
  "verify_env \<Rightarrow> int option \<Rightarrow> string option \<Rightarrow> string \<times> string \<Rightarrow> proof_result" where
  "proof_of e timeoutMs token record =
    (let url = strip_slashes (fst record) @ ''/anchors/'' @ snd record;
         r = \<lparr>wp_url = url, wp_anchor_id = snd record, wp_verified = False, wp_error = None\<rparr>
     in case ve_fetch e url timeoutMs token of
          Inl x \<Rightarrow> r\<lparr>wp_error := Some (error_text x)\<rparr>
        | Inr (status, body) \<Rightarrow>
            if status \<noteq> 200 then r\<lparr>wp_error := Some (''HTTP '' @ digits_of status)\<rparr>
            else if json_get body ''anchor_id'' = Some (JStr (snd record)) then r\<lparr>wp_verified := True\<rparr>
            else r\<lparr>wp_error := Some ''Response body does not contain matching anchor_id''\<rparr>)"

text \<open>A number in a template; \<open>None\<close> is NaN, which no count reaches.\<close>

definition number_text :: "int option \<Rightarrow> string" where
  "number_text n = (case n of None \<Rightarrow> ''NaN'' | Some i \<Rightarrow> print_int i)"

definition checkRemoteWitnesses ::
  "verify_env \<Rightarrow> (string \<times> string) list \<Rightarrow> int option \<Rightarrow> int option \<Rightarrow> string option \<Rightarrow> remote_check" where
  "checkRemoteWitnesses e records quorum timeoutMs token =
    (if records = [] then
       emptyRemoteWitnessResult\<lparr>rk_checked := True,
         rk_failure := Some (''No witness records with witness_url and anchor_id available for remote verification (quorum: ''
                             @ number_text quorum @ '')'')\<rparr>
     else
       (let rs = map (proof_of e timeoutMs token) records;
            n = length (filter wp_verified rs);
            met = (case quorum of None \<Rightarrow> False | Some q \<Rightarrow> int n \<ge> q)
        in \<lparr>rk_checked = True, rk_results = rs, rk_verified = n, rk_quorum_met = met,
            rk_failure =
              (if met then None
               else Some (''Remote witness quorum not met: '' @ digits_of n @ ''/'' @ digits_of (length records)
                          @ '' verified (need '' @ number_text quorum @ '')''))\<rparr>))"

text \<open>The anchor of a record that has one and is of the current tip, if there is a tip.\<close>

definition remote_anchor :: "string option \<Rightarrow> json \<Rightarrow> (string \<times> string) option" where
  "remote_anchor currentTip r =
    (case (string_member r ''witness_url'', string_member r ''anchor_id'') of
       (Some url, Some anchor) \<Rightarrow>
         if url \<noteq> [] \<and> anchor \<noteq> [] \<and> (\<not> truthy currentTip \<or> string_member r ''tip_hash'' = currentTip)
         then Some (url, anchor) else None
     | _ \<Rightarrow> None)"

definition runRemoteWitnessCheck ::
  "verify_env \<Rightarrow> verify_files \<Rightarrow> engine_options \<Rightarrow> string option \<Rightarrow> remote_check" where
  "runRemoteWitnessCheck e fs opts currentTip =
    (let quorum = (case vp_remoteWitnessQuorum opts of None \<Rightarrow> Some 1 | Some s \<Rightarrow> re_number (ve_base e) s);
         timeoutMs = (case vp_remoteWitnessTimeoutMs opts of None \<Rightarrow> Some 5000 | Some s \<Rightarrow> re_number (ve_base e) s);
         token = (case str_or (vp_tokenEnv opts) None of None \<Rightarrow> None | Some v \<Rightarrow> ve_variable e v)
     in case vf_read fs (path_or (vp_witnessFile opts) (ve_witnesses_path e)) of
          None \<Rightarrow> emptyRemoteWitnessResult\<lparr>rk_checked := True,
                    rk_failure := Some ''No witness file found for remote verification''\<rparr>
        | Some content \<Rightarrow>
            checkRemoteWitnesses e
              (List.map_filter (remote_anchor currentTip) (fst (witness_records (ve_base e) (content_lines content))))
              quorum timeoutMs token)"

end
