(* ===== verification/VerifyEngine.thy ===== *)
theory VerifyEngine
  imports VerifyChecks
begin

text \<open>
  The rest of \<^verbatim>\<open>packages/cli/src/verify-engine.ts\<close>: the attestation, bound to what the other checks
  found, and the verification as a whole.
\<close>

section \<open>The attestation\<close>

record current_state =
  cu_tip :: "string option"
  cu_chained :: nat
  cu_seal_tip :: "json option"
  cu_seal_checked :: bool
  cu_witness_tip :: "string option"
  cu_witness_checked :: bool

definition REQUIRED_ATTESTATION_FIELDS :: "string list" where
  "REQUIRED_ATTESTATION_FIELDS =
    [''schema_version'', ''generated_at'', ''tool_version'', ''pass'', ''payload_hash'', ''signature'']"

definition attestation_failed :: "string \<Rightarrow> attestation_check" where
  "attestation_failed reason =
    emptyAttestationResult\<lparr>at_checked := True, at_present := True, at_failure := Some reason\<rparr>"

text \<open>\<open>field in artifact\<close>, for an artifact that may be any value.\<close>

definition missing_field :: "json \<Rightarrow> string option result" where
  "missing_field artifact =
    (case artifact of
       JObj ms \<Rightarrow> Inr (find (\<lambda>k. map_of ms k = None) REQUIRED_ATTESTATION_FIELDS)
     | JArr vs \<Rightarrow> Inr (Some (hd REQUIRED_ATTESTATION_FIELDS))
     | _ \<Rightarrow> Inl (TypeError ''Cannot use in operator to search for schema_version''))"

definition attestation_key ::
  "verify_env \<Rightarrow> verify_files \<Rightarrow> engine_options \<Rightarrow> (string \<times> json) list \<Rightarrow> string option" where
  "attestation_key e fs opts artifact =
    (let dir = vf_keyring fs (path_or (vp_keyringDir opts) (ve_keyring_dir e));
         named = (case map_of artifact ''key_id'' of
                    Some (JStr k) \<Rightarrow> (if k = [] then None else (case loadKeyById dir k of Inl x \<Rightarrow> None | Inr key \<Rightarrow> Some key))
                  | _ \<Rightarrow> None)
     in case named of
          Some key \<Rightarrow> Some key
        | None \<Rightarrow> vf_read fs (path_or (vp_keyFile opts) (ve_seal_key_path e)))"

definition claims_signature :: "string \<Rightarrow> bool" where
  "claims_signature sig \<longleftrightarrow> sig \<noteq> ''unsigned'' \<and> starts_with sig ''hmac-sha256:''"

text \<open>A state value: null, a text, or the array that a seal may hold in place of one.\<close>

definition same_value :: "json option \<Rightarrow> json option \<Rightarrow> bool" where
  "same_value v st \<longleftrightarrow>
    (case st of None \<Rightarrow> v = Some JNull | Some (JStr h) \<Rightarrow> v = Some (JStr h) | Some w \<Rightarrow> False)"

definition expected_text :: "json option \<Rightarrow> string result" where
  "expected_text st =
    (case st of
       None \<Rightarrow> Inr ''null''
     | Some (JStr h) \<Rightarrow> Inr (take 20 h)
     | Some (JArr vs) \<Rightarrow> js_string (JArr (take 20 vs))
     | Some w \<Rightarrow> Inl (not_a_function ''slice''))"

definition got_text :: "json option \<Rightarrow> string result" where
  "got_text v =
    (if v = Some JNull then Inr ''null'' else bind_result (js_text v) (\<lambda>t. Inr (take 20 t)))"

definition tip_mismatch :: "string \<Rightarrow> json option \<Rightarrow> json option \<Rightarrow> string list result" where
  "tip_mismatch name v st =
    (if same_value v st then Inr []
     else
       bind_result (expected_text st) (\<lambda>x.
       bind_result (got_text v) (\<lambda>g.
         Inr [name @ '': expected='' @ x @ ''... got='' @ g @ ''...''])))"

definition count_mismatch :: "json option \<Rightarrow> nat \<Rightarrow> string list result" where
  "count_mismatch v n =
    (if v = Some (JNum (int n)) then Inr []
     else bind_result (js_text v) (\<lambda>g.
       Inr [''chain_chained_events: expected='' @ digits_of n @ '' got='' @ g]))"

definition mismatches :: "(string \<times> json) list \<Rightarrow> current_state \<Rightarrow> string list result" where
  "mismatches artifact st =
    bind_result (tip_mismatch ''chain_tip_hash'' (map_of artifact ''chain_tip_hash'') (map_option JStr (cu_tip st))) (\<lambda>a.
    bind_result (count_mismatch (map_of artifact ''chain_chained_events'') (cu_chained st)) (\<lambda>b.
    bind_result (if cu_seal_checked st
                 then tip_mismatch ''seal_tip_hash'' (map_of artifact ''seal_tip_hash'') (cu_seal_tip st) else Inr []) (\<lambda>c.
    bind_result (if cu_witness_checked st
                 then tip_mismatch ''witness_latest_matching_tip_hash''
                        (map_of artifact ''witness_latest_matching_tip_hash'') (map_option JStr (cu_witness_tip st))
                 else Inr []) (\<lambda>d.
      Inr (a @ b @ c @ d)))))"

text \<open>The comparison with the current state, once the artifact itself has been accepted.\<close>

definition binding_check ::
  "engine_options \<Rightarrow> (string \<times> json) list \<Rightarrow> current_state \<Rightarrow> attestation_check \<Rightarrow> attestation_check result" where
  "binding_check opts artifact st r =
    (if map_of artifact ''chain_tip_hash'' = None then
       (if vp_requireAttestationBinding opts \<or> vp_strictAttestationFile opts then
          Inr (r\<lparr>at_failure := Some (''Attestation missing binding fields (required by ''
                    @ (if vp_requireAttestationBinding opts then ''--require-attestation-binding)'' else ''--strict-attestation-file)'')),
                 at_match_failure := Some ''No binding fields present''\<rparr>)
        else Inr (r\<lparr>at_matches := True\<rparr>))
     else
       bind_result (mismatches artifact st) (\<lambda>ms.
         Inr (if ms = [] then r\<lparr>at_matches := True\<rparr>
              else (let reason = ''Attestation does not match current state: '' @ join ''; '' ms
                    in r\<lparr>at_failure := Some reason, at_match_failure := Some reason\<rparr>))))"

definition attestation_verdict ::
  "engine_options \<Rightarrow> age_param \<Rightarrow> (string \<times> json) list \<Rightarrow> current_state \<Rightarrow> bool \<Rightarrow> bool \<Rightarrow> int option
   \<Rightarrow> attestation_check result" where
  "attestation_verdict opts maxAge artifact st isSigned sigValid age =
    (let r = emptyAttestationResult\<lparr>at_checked := True, at_present := True, at_valid := True,
               at_signed := isSigned, at_signature_valid := isSigned \<and> sigValid, at_hash_valid := True, at_age := age\<rparr>
     in if isSigned \<and> \<not> sigValid
        then Inr (r\<lparr>at_valid := False,
               at_failure := Some ''Attestation signature is invalid (key mismatch or tampered)''\<rparr>)
        else if vp_requireSignedAttestation opts \<and> \<not> isSigned
        then Inr (r\<lparr>at_failure := Some ''Attestation is unsigned (required by --require-signed-attestation)''\<rparr>)
        else if vp_strictAttestationFile opts \<and> map_of artifact ''pass'' \<noteq> Some (JBool True)
        then Inr (r\<lparr>at_failure := Some ''Attestation artifact reports pass=false (--strict-attestation-file requires pass=true)''\<rparr>)
        else if maxAge \<noteq> NoAge \<and> age \<noteq> None \<and> exceeds (the age) maxAge
        then Inr (r\<lparr>at_failure := Some (too_old ''Attestation'' (the age) maxAge)\<rparr>)
        else if maxAge \<noteq> NoAge \<and> age = None
        then Inr (r\<lparr>at_valid := False,
               at_failure := Some ''Attestation has invalid generated_at timestamp (cannot check age)''\<rparr>)
        else binding_check opts artifact st r)"

definition check_artifact ::
  "verify_env \<Rightarrow> verify_files \<Rightarrow> engine_options \<Rightarrow> age_param \<Rightarrow> current_state \<Rightarrow> (string \<times> json) list
   \<Rightarrow> attestation_check result" where
  "check_artifact e fs opts maxAge st artifact =
    (let sign = re_sign (ve_base e); payload = buildAttestationPayload artifact in
     if map_of artifact ''payload_hash'' \<noteq> Some (JStr (hashAttestationPayload sign payload))
     then Inr (attestation_failed ''Attestation payload_hash mismatch (artifact may be tampered)'')
     else
       bind_result (js_text (map_of artifact ''signature'')) (\<lambda>sig.
       bind_result (js_text (map_of artifact ''generated_at'')) (\<lambda>generatedAt.
         (let isSigned = claims_signature sig;
              sigValid = (case attestation_key e fs opts artifact of
                            None \<Rightarrow> False | Some key \<Rightarrow> verifyAttestation sign payload sig key)
          in attestation_verdict opts maxAge artifact st isSigned sigValid
               (map_option (age_seconds e) (re_date (ve_base e) generatedAt))))))"

definition runAttestationCheck ::
  "verify_env \<Rightarrow> verify_files \<Rightarrow> engine_options \<Rightarrow> age_param \<Rightarrow> current_state \<Rightarrow> attestation_check result" where
  "runAttestationCheck e fs opts maxAge st =
    (if vp_attestationCheck opts = Some False then Inr emptyAttestationResult
     else if \<not> vp_requireAttestation opts \<and> \<not> vp_requireSignedAttestation opts \<and> maxAge = NoAge
             \<and> \<not> vp_strictAttestationFile opts \<and> \<not> vp_requireAttestationBinding opts
             \<and> \<not> truthy (vp_attestationFile opts)
     then Inr emptyAttestationResult
     else
       (case vf_read fs (path_or (vp_attestationFile opts) (ve_attestation_path e)) of
          None \<Rightarrow>
            Inr (emptyAttestationResult\<lparr>at_checked := True,
                   at_failure := (if vp_requireAttestation opts \<or> vp_requireSignedAttestation opts \<or> maxAge \<noteq> NoAge
                                  then Some ''No attestation file found (required by policy)'' else None)\<rparr>)
        | Some content \<Rightarrow>
            (case relay_parse (ve_base e) content of
               None \<Rightarrow> Inr (attestation_failed ''Attestation file is not valid JSON'')
             | Some v \<Rightarrow>
                 bind_result (missing_field v) (\<lambda>m.
                   (case (m, v) of
                      (None, JObj artifact) \<Rightarrow> check_artifact e fs opts maxAge st artifact
                    | _ \<Rightarrow> Inr (attestation_failed (''Attestation missing required field: '' @ the m)))))))"

section \<open>The whole verification\<close>

text \<open>The last event hash that is a text, from the end of the log.\<close>

fun find_tip :: "json list \<Rightarrow> string option result" where
  "find_tip [] = Inr None"
| "find_tip (ev # evs) =
     (if ev = JNull then Inl (TypeError ''Cannot read properties of null (reading event_hash)'')
      else (case string_member ev ''event_hash'' of Some h \<Rightarrow> Inr (Some h) | None \<Rightarrow> find_tip evs))"

definition invalid_age :: "string \<Rightarrow> string option \<Rightarrow> string" where
  "invalid_age flag raw =
    ''Invalid --'' @ flag @ '': '' @ [CHR 0x22] @ (case raw of None \<Rightarrow> ''undefined'' | Some t \<Rightarrow> t) @ [CHR 0x22]
      @ ''. Must be a positive integer (> 0).''"

definition log_passes :: "engine_options \<Rightarrow> chain_verification \<Rightarrow> bool" where
  "log_passes opts c \<longleftrightarrow>
    cv_hash_mismatch_count c = 0 \<and> cv_prev_link_mismatch_count c = 0
    \<and> (vp_allowInvalid opts \<or> cv_invalid_schema_events c = 0)
    \<and> (vp_strict opts \<longrightarrow> cv_legacy_events c = 0)"

definition verified_chain :: "verify_env \<Rightarrow> string \<Rightarrow> json list \<times> chain_verification" where
  "verified_chain e content =
    (let lines = content_lines content; base = ve_base e;
         events = List.map_filter (relay_parse base) lines;
         errors = length (filter (\<lambda>l. relay_parse base l = None) lines);
         c = verifyChain (hash_env_of (re_log base)) \<lparr>vo_strict = False, vo_requireChainProtected = False\<rparr> events
     in (events, c\<lparr>cv_invalid_schema_events := cv_invalid_schema_events c + errors\<rparr>))"

definition state_of :: "string option \<Rightarrow> chain_verification \<Rightarrow> seal_check \<Rightarrow> witness_check \<Rightarrow> current_state" where
  "state_of tip c seal witness =
    \<lparr>cu_tip = tip, cu_chained = cv_chained_events c, cu_seal_tip = sc_tip_hash seal,
     cu_seal_checked = sc_checked seal,
     cu_witness_tip = (if wk_matching witness > 0 then tip else None),
     cu_witness_checked = wk_checked witness\<rparr>"

definition verify_log ::
  "verify_env \<Rightarrow> verify_files \<Rightarrow> engine_options \<Rightarrow> age_param \<Rightarrow> age_param \<Rightarrow> age_param \<Rightarrow> string list \<Rightarrow> string
   \<Rightarrow> verify_report result" where
  "verify_log e fs opts maxSeal maxWitness maxAttestation paths content =
    (let (events, c) = verified_chain e content in
     bind_result (runSealCheck e fs opts events maxSeal) (\<lambda>seal.
     bind_result (find_tip (rev events)) (\<lambda>tip.
       (let witness = runWitnessCheck e fs opts tip maxWitness;
            remote = (if \<not> vp_noRemoteWitnessCheck opts \<and> vp_requireRemoteWitnessProof opts
                      then runRemoteWitnessCheck e fs opts tip else emptyRemoteWitnessResult)
        in bind_result (runAttestationCheck e fs opts maxAttestation (state_of tip c seal witness)) (\<lambda>attestation.
             Inr \<lparr>vr_pass = (log_passes opts c
                     \<and> \<not> (sc_checked seal \<and> sc_failure seal \<noteq> None)
                     \<and> \<not> (wk_checked witness \<and> wk_failure witness \<noteq> None)
                     \<and> \<not> (rk_checked remote \<and> rk_failure remote \<noteq> None)
                     \<and> \<not> (at_checked attestation \<and> at_failure attestation \<noteq> None)),
                  vr_error = None, vr_tip = tip, vr_chain = c, vr_seal = seal, vr_witness = witness,
                  vr_remote = remote, vr_attestation = attestation, vr_paths = paths\<rparr>)))))"

definition runVerification :: "verify_env \<Rightarrow> verify_files \<Rightarrow> engine_options \<Rightarrow> verify_report result" where
  "runVerification e fs opts =
    (let events = path_or (vp_file opts) (ve_events_path e);
         paths = [events, path_or (vp_sealFile opts) (ve_seals_path e),
                  path_or (vp_witnessFile opts) (ve_witnesses_path e)];
         maxSeal = parsePositiveIntAge (vp_maxSealAgeSeconds opts);
         maxWitness = parsePositiveIntAge (vp_maxWitnessAgeSeconds opts);
         maxAttestation = parsePositiveIntAge (vp_maxAttestationAgeSeconds opts)
     in if maxSeal = InvalidAge
        then Inr (emptyResult False (invalid_age ''max-seal-age-seconds'' (vp_maxSealAgeSeconds opts)) paths)
        else if maxWitness = InvalidAge
        then Inr (emptyResult False (invalid_age ''max-witness-age-seconds'' (vp_maxWitnessAgeSeconds opts)) paths)
        else if maxAttestation = InvalidAge
        then Inr (emptyResult False (invalid_age ''max-attestation-age-seconds'' (vp_maxAttestationAgeSeconds opts)) paths)
        else
          (case vf_read fs events of
             None \<Rightarrow> Inr (emptyResult False ''No audit log found'' paths)
           | Some content \<Rightarrow> verify_log e fs opts maxSeal maxWitness maxAttestation paths content))"

end
