(* ===== verification/VerifyConfig.thy ===== *)
theory VerifyConfig
  imports VerifyEngine
begin

text \<open>
  What \<^verbatim>\<open>patchwork verify\<close> and \<^verbatim>\<open>attest\<close> enforce: the configuration file, the profile and the
  flags, \<^verbatim>\<open>packages/cli/src/config.ts\<close>, and the action of \<^verbatim>\<open>packages/cli/src/commands/verify.ts\<close>.
  The reader of YAML and the issues that the validator words are third-party and parameters; which
  values the validator takes is modelled. Numbers are integers. The text printed is not modelled.
\<close>

section \<open>The configuration file\<close>

text \<open>A file: absent, unreadable, or its text. An issue is of a key that is not known, or another.\<close>

datatype config_issue = UnrecognizedKeys "string list" "string list" | OtherIssue "string list" string

record config_env =
  cf_file :: "string \<Rightarrow> string option option"
  cf_yaml :: "string \<Rightarrow> json option"
  cf_issues :: "json \<Rightarrow> config_issue list"
  cf_home :: string

record config_error =
  ce_path :: string
  ce_message :: string

type_synonym config_errors = "config_error list option"

record loaded_config =
  lc_config :: json
  lc_source :: string
  lc_validation :: config_errors

fun z_positive :: schema where
  "z_positive (JNum i) = (if 0 < i then Some (JNum i) else None)"
| "z_positive _ = None"

definition verify_section_fields :: "(string \<times> field) list" where
  "verify_section_fields =
    [(''profile'', Optional z_string),
     (''max_seal_age_seconds'', Optional z_positive), (''max_witness_age_seconds'', Optional z_positive),
     (''max_attestation_age_seconds'', Optional z_positive), (''remote_witness_quorum'', Optional z_positive),
     (''remote_witness_timeout_ms'', Optional z_positive),
     (''require_seal'', Optional z_boolean), (''require_witness'', Optional z_boolean),
     (''require_signed_attestation'', Optional z_boolean), (''require_attestation_binding'', Optional z_boolean),
     (''require_remote_witness_proof'', Optional z_boolean), (''strict_attestation_file'', Optional z_boolean),
     (''token_env'', Optional z_string)]"

definition PatchworkConfigSchemaBase :: schema where
  "PatchworkConfigSchemaBase = z_object [(''verify'', Optional (z_object verify_section_fields))]"

text \<open>\<open>.strict()\<close>: a member that is no field fails.\<close>

definition z_strict :: "(string \<times> field) list \<Rightarrow> schema" where
  "z_strict fs v =
    (case v of
       JObj ms \<Rightarrow> if list_all (\<lambda>m. fst m \<in> set (map fst fs)) ms then z_object fs v else None
     | _ \<Rightarrow> None)"

definition PatchworkConfigSchemaStrict :: schema where
  "PatchworkConfigSchemaStrict = z_strict [(''verify'', Optional (z_strict verify_section_fields))]"

definition formatZodErrors :: "config_issue list \<Rightarrow> config_error list" where
  "formatZodErrors issues = concat (map (\<lambda>i.
     case i of
       UnrecognizedKeys p keys \<Rightarrow>
         map (\<lambda>k. \<lparr>ce_path = join ''.'' (p @ [k]), ce_message = ''Unrecognized key''\<rparr>) keys
     | OtherIssue p m \<Rightarrow> [\<lparr>ce_path = join ''.'' p, ce_message = m\<rparr>]) issues)"

definition config_fault :: "string \<Rightarrow> config_errors" where
  "config_fault m = Some [\<lparr>ce_path = [], ce_message = m\<rparr>]"

definition is_object :: "json \<Rightarrow> bool" where
  "is_object v \<longleftrightarrow> (case v of JObj ms \<Rightarrow> True | JArr vs \<Rightarrow> True | _ \<Rightarrow> False)"

definition parseConfigFile :: "config_env \<Rightarrow> string option \<Rightarrow> json \<times> config_errors" where
  "parseConfigFile e content =
    (case Option.bind content (cf_yaml e) of
       None \<Rightarrow> (JObj [], config_fault ''Failed to parse YAML'')
     | Some raw \<Rightarrow>
         if \<not> is_object raw then (JObj [], config_fault ''Config file is not a YAML object'')
         else
           ((case PatchworkConfigSchemaBase raw of None \<Rightarrow> JObj [] | Some c \<Rightarrow> c),
            (if PatchworkConfigSchemaStrict raw \<noteq> None then None else Some (formatZodErrors (cf_issues e raw)))))"

definition loadConfig :: "config_env \<Rightarrow> string option \<Rightarrow> loaded_config" where
  "loadConfig e cwd =
    (let loaded = (\<lambda>path content. (let (c, v) = parseConfigFile e content in
                    \<lparr>lc_config = c, lc_source = path, lc_validation = v\<rparr>));
         userPath = path_join [cf_home e, ''.patchwork'', ''config.yml''];
         user = (case cf_file e userPath of
                   Some content \<Rightarrow> loaded userPath content
                 | None \<Rightarrow> \<lparr>lc_config = JObj [], lc_source = ''none'', lc_validation = None\<rparr>)
     in case str_or cwd None of
          None \<Rightarrow> user
        | Some d \<Rightarrow>
            (let projectPath = path_join [d, ''.patchwork'', ''config.yml''] in
             case cf_file e projectPath of
               Some content \<Rightarrow> loaded projectPath content
             | None \<Rightarrow> user))"

section \<open>What applies\<close>

record verify_defaults =
  vd_requireSeal :: bool
  vd_requireWitness :: bool
  vd_requireRemoteWitnessProof :: bool
  vd_requireSignedAttestation :: bool
  vd_requireAttestationBinding :: bool
  vd_strictAttestationFile :: bool
  vd_maxSealAgeSeconds :: "string option"
  vd_maxWitnessAgeSeconds :: "string option"
  vd_maxAttestationAgeSeconds :: "string option"
  vd_remoteWitnessQuorum :: "string option"
  vd_remoteWitnessTimeoutMs :: "string option"
  vd_tokenEnv :: "string option"

record resolved_policy =
  rp_defaults :: verify_defaults
  rp_profile :: string
  rp_source :: string
  rp_validation :: config_errors

text \<open>The flags of the two commands; a \<open>--no-...-check\<close> makes its check \<open>False\<close>.\<close>

record verify_flags =
  fl_file :: "string option"
  fl_sealFile :: "string option"
  fl_keyFile :: "string option"
  fl_keyringDir :: "string option"
  fl_witnessFile :: "string option"
  fl_attestationFile :: "string option"
  fl_strict :: bool
  fl_allowInvalid :: bool
  fl_strictSealFile :: bool
  fl_strictWitnessFile :: bool
  fl_sealCheck :: bool
  fl_witnessCheck :: bool
  fl_remoteWitnessCheck :: bool
  fl_attestationCheck :: bool
  fl_requireSeal :: bool
  fl_requireWitness :: bool
  fl_requireRemoteWitnessProof :: bool
  fl_requireAttestation :: bool
  fl_requireSignedAttestation :: bool
  fl_requireAttestationBinding :: bool
  fl_strictAttestationFile :: bool
  fl_maxSealAgeSeconds :: "string option"
  fl_maxWitnessAgeSeconds :: "string option"
  fl_maxAttestationAgeSeconds :: "string option"
  fl_remoteWitnessQuorum :: "string option"
  fl_remoteWitnessTimeoutMs :: "string option"
  fl_tokenEnv :: "string option"
  fl_profile :: "string option"
  fl_showEffectivePolicy :: bool

definition BASE_DEFAULTS :: verify_defaults where
  "BASE_DEFAULTS =
    \<lparr>vd_requireSeal = False, vd_requireWitness = False, vd_requireRemoteWitnessProof = False,
     vd_requireSignedAttestation = False, vd_requireAttestationBinding = False,
     vd_strictAttestationFile = False, vd_maxSealAgeSeconds = None, vd_maxWitnessAgeSeconds = None,
     vd_maxAttestationAgeSeconds = None, vd_remoteWitnessQuorum = None,
     vd_remoteWitnessTimeoutMs = None, vd_tokenEnv = None\<rparr>"

text \<open>
  \<open>Object.assign(result, PROFILES[name] || PROFILES.baseline)\<close>: a name that an object inherits finds
  a function or the prototype, which has nothing to assign.
\<close>

definition apply_profile :: "string \<Rightarrow> verify_defaults \<Rightarrow> verify_defaults" where
  "apply_profile name d =
    (if name = ''strict'' then
       d\<lparr>vd_requireSeal := True, vd_requireWitness := True, vd_requireRemoteWitnessProof := True,
         vd_requireSignedAttestation := True, vd_requireAttestationBinding := True,
         vd_strictAttestationFile := True\<rparr>
     else d)"

definition set_bool :: "json \<Rightarrow> string \<Rightarrow> bool \<Rightarrow> bool" where
  "set_bool vc k b = (case json_get vc k of Some (JBool x) \<Rightarrow> x | _ \<Rightarrow> b)"

definition set_number :: "json \<Rightarrow> string \<Rightarrow> string option \<Rightarrow> string option" where
  "set_number vc k s = (case json_get vc k of Some (JNum i) \<Rightarrow> Some (print_int i) | _ \<Rightarrow> s)"

definition apply_config :: "json \<Rightarrow> verify_defaults \<Rightarrow> verify_defaults" where
  "apply_config vc d =
    \<lparr>vd_requireSeal = set_bool vc ''require_seal'' (vd_requireSeal d),
     vd_requireWitness = set_bool vc ''require_witness'' (vd_requireWitness d),
     vd_requireRemoteWitnessProof = set_bool vc ''require_remote_witness_proof'' (vd_requireRemoteWitnessProof d),
     vd_requireSignedAttestation = set_bool vc ''require_signed_attestation'' (vd_requireSignedAttestation d),
     vd_requireAttestationBinding = set_bool vc ''require_attestation_binding'' (vd_requireAttestationBinding d),
     vd_strictAttestationFile = set_bool vc ''strict_attestation_file'' (vd_strictAttestationFile d),
     vd_maxSealAgeSeconds = set_number vc ''max_seal_age_seconds'' (vd_maxSealAgeSeconds d),
     vd_maxWitnessAgeSeconds = set_number vc ''max_witness_age_seconds'' (vd_maxWitnessAgeSeconds d),
     vd_maxAttestationAgeSeconds = set_number vc ''max_attestation_age_seconds'' (vd_maxAttestationAgeSeconds d),
     vd_remoteWitnessQuorum = set_number vc ''remote_witness_quorum'' (vd_remoteWitnessQuorum d),
     vd_remoteWitnessTimeoutMs = set_number vc ''remote_witness_timeout_ms'' (vd_remoteWitnessTimeoutMs d),
     vd_tokenEnv = (case string_member vc ''token_env'' of None \<Rightarrow> vd_tokenEnv d | Some t \<Rightarrow> Some t)\<rparr>"

definition given :: "string option \<Rightarrow> string option \<Rightarrow> string option" where
  "given f d = (case f of None \<Rightarrow> d | Some t \<Rightarrow> Some t)"

definition apply_flags :: "verify_flags \<Rightarrow> verify_defaults \<Rightarrow> verify_defaults" where
  "apply_flags f d =
    \<lparr>vd_requireSeal = (fl_requireSeal f \<or> vd_requireSeal d),
     vd_requireWitness = (fl_requireWitness f \<or> vd_requireWitness d),
     vd_requireRemoteWitnessProof = (fl_requireRemoteWitnessProof f \<or> vd_requireRemoteWitnessProof d),
     vd_requireSignedAttestation = (fl_requireSignedAttestation f \<or> vd_requireSignedAttestation d),
     vd_requireAttestationBinding = (fl_requireAttestationBinding f \<or> vd_requireAttestationBinding d),
     vd_strictAttestationFile = (fl_strictAttestationFile f \<or> vd_strictAttestationFile d),
     vd_maxSealAgeSeconds = given (fl_maxSealAgeSeconds f) (vd_maxSealAgeSeconds d),
     vd_maxWitnessAgeSeconds = given (fl_maxWitnessAgeSeconds f) (vd_maxWitnessAgeSeconds d),
     vd_maxAttestationAgeSeconds = given (fl_maxAttestationAgeSeconds f) (vd_maxAttestationAgeSeconds d),
     vd_remoteWitnessQuorum = given (fl_remoteWitnessQuorum f) (vd_remoteWitnessQuorum d),
     vd_remoteWitnessTimeoutMs = given (fl_remoteWitnessTimeoutMs f) (vd_remoteWitnessTimeoutMs d),
     vd_tokenEnv = given (fl_tokenEnv f) (vd_tokenEnv d)\<rparr>"

definition apply_disabled :: "verify_flags \<Rightarrow> verify_defaults \<Rightarrow> verify_defaults" where
  "apply_disabled f d =
    (let d1 = (if fl_sealCheck f then d else d\<lparr>vd_requireSeal := False\<rparr>);
         d2 = (if fl_witnessCheck f then d1 else d1\<lparr>vd_requireWitness := False\<rparr>);
         d3 = (if fl_remoteWitnessCheck f then d2 else d2\<lparr>vd_requireRemoteWitnessProof := False\<rparr>)
     in if fl_attestationCheck f then d3
        else d3\<lparr>vd_requireSignedAttestation := False, vd_requireAttestationBinding := False,
               vd_strictAttestationFile := False\<rparr>)"

definition resolveVerifyDefaults :: "verify_flags \<Rightarrow> loaded_config \<Rightarrow> resolved_policy" where
  "resolveVerifyDefaults f cfg =
    (let vc = json_get (lc_config cfg) ''verify'';
         in_config = (case vc of None \<Rightarrow> None | Some v \<Rightarrow> string_member v ''profile'');
         name = path_or (fl_profile f) (path_or in_config ''baseline'');
         d1 = apply_profile name BASE_DEFAULTS;
         d2 = (case vc of None \<Rightarrow> d1 | Some v \<Rightarrow> apply_config v d1)
     in \<lparr>rp_defaults = apply_disabled f (apply_flags f d2), rp_profile = name, rp_source = lc_source cfg,
         rp_validation = lc_validation cfg\<rparr>)"

section \<open>The command\<close>

definition verify_engine_options :: "verify_flags \<Rightarrow> verify_defaults \<Rightarrow> engine_options" where
  "verify_engine_options f d =
    \<lparr>vp_file = fl_file f, vp_sealFile = fl_sealFile f, vp_keyFile = fl_keyFile f,
     vp_keyringDir = fl_keyringDir f, vp_witnessFile = fl_witnessFile f,
     vp_sealCheck = Some (fl_sealCheck f), vp_requireSeal = vd_requireSeal d,
     vp_maxSealAgeSeconds = vd_maxSealAgeSeconds d, vp_strictSealFile = fl_strictSealFile f,
     vp_witnessCheck = Some (fl_witnessCheck f), vp_requireWitness = vd_requireWitness d,
     vp_maxWitnessAgeSeconds = vd_maxWitnessAgeSeconds d, vp_strictWitnessFile = fl_strictWitnessFile f,
     vp_strict = fl_strict f, vp_allowInvalid = fl_allowInvalid f,
     vp_attestationFile = fl_attestationFile f, vp_attestationCheck = Some (fl_attestationCheck f),
     vp_requireAttestation = fl_requireAttestation f,
     vp_requireSignedAttestation = vd_requireSignedAttestation d,
     vp_maxAttestationAgeSeconds = vd_maxAttestationAgeSeconds d,
     vp_strictAttestationFile = vd_strictAttestationFile d,
     vp_requireAttestationBinding = vd_requireAttestationBinding d,
     vp_requireRemoteWitnessProof = vd_requireRemoteWitnessProof d,
     vp_remoteWitnessQuorum = vd_remoteWitnessQuorum d,
     vp_remoteWitnessTimeoutMs = vd_remoteWitnessTimeoutMs d,
     vp_noRemoteWitnessCheck = (\<not> fl_remoteWitnessCheck f), vp_tokenEnv = vd_tokenEnv d\<rparr>"

definition error_line :: "config_error \<Rightarrow> string" where
  "error_line c = (if ce_path c = [] then ce_message c else ce_path c @ '': '' @ ce_message c)"

definition formatConfigValidationError :: "config_error list \<Rightarrow> string" where
  "formatConfigValidationError errors =
    ''Config validation failed (profile: strict):'' @ [newline]
      @ join [newline] (map (\<lambda>c. ''  '' @ error_line c) errors)"

text \<open>What the command did; a warning of the configuration goes to the error stream first.\<close>

datatype verify_outcome =
  PolicyShown resolved_policy
| ConfigRejected string
| VerifyStopped string
| Reported "string option" verify_report

definition verifyCommand ::
  "verify_env \<Rightarrow> verify_files \<Rightarrow> config_env \<Rightarrow> string \<Rightarrow> verify_flags \<Rightarrow> verify_outcome result" where
  "verifyCommand e fs ce cwd f =
    (let policy = resolveVerifyDefaults f (loadConfig ce (Some cwd)) in
     if fl_showEffectivePolicy f then Inr (PolicyShown policy)
     else
       (case (rp_validation policy, rp_profile policy = ''strict'') of
          (Some errors, True) \<Rightarrow> Inr (ConfigRejected (formatConfigValidationError errors))
        | (validation, _) \<Rightarrow>
            (let warning = map_option (\<lambda>es. ''Config warning: '' @ join ''; '' (map error_line es)) validation in
             bind_result (runVerification e fs (verify_engine_options f (rp_defaults policy))) (\<lambda>r.
               Inr (case str_or (vr_error r) None of
                      Some m \<Rightarrow> VerifyStopped m
                    | None \<Rightarrow> Reported warning r)))))"

text \<open>The exit code; an exception that nothing catches ends the process with 1.\<close>

definition exit_code :: "verify_outcome result \<Rightarrow> nat" where
  "exit_code out =
    (case out of
       Inl x \<Rightarrow> 1
     | Inr (PolicyShown p) \<Rightarrow> 0
     | Inr (ConfigRejected m) \<Rightarrow> 1
     | Inr (VerifyStopped m) \<Rightarrow> 1
     | Inr (Reported w r) \<Rightarrow> (if vr_pass r then 0 else 1))"

end
