(* ===== verification/JsonPretty.thy ===== *)
theory JsonPretty
  imports Json
begin

text \<open>
  \<open>JSON.stringify(v, null, 2)\<close>, the indented print of the files meant to be read by people.
\<close>

definition indented :: "nat \<Rightarrow> string" where
  "indented n = newline # replicate n (CHR '' '')"

fun pretty :: "nat \<Rightarrow> json \<Rightarrow> string" where
  "pretty n (JArr []) = ''[]''"
| "pretty n (JArr vs) =
     ''['' @ indented (n + 2) @ join ('','' @ indented (n + 2)) (map (pretty (n + 2)) vs) @ indented n @ '']''"
| "pretty n (JObj []) = ''{}''"
| "pretty n (JObj ms) =
     ''{'' @ indented (n + 2)
       @ join ('','' @ indented (n + 2)) (map (\<lambda>m. quote_json (fst m) @ '': '' @ pretty (n + 2) (snd m)) ms)
       @ indented n @ ''}''"
| "pretty n v = stringify v"

end
