(* ===== verification/SealCommand.thy ===== *)
theory SealCommand
  imports VerifyConfig JsonlLock JsonPretty
begin

text \<open>
  The commands that write what the verification reads: \<^verbatim>\<open>patchwork seal\<close> and \<^verbatim>\<open>seal rotate-key\<close>
  with their lock, \<^verbatim>\<open>packages/cli/src/commands/seal.ts\<close>, and \<^verbatim>\<open>patchwork attest\<close>,
  \<^verbatim>\<open>packages/cli/src/commands/attest.ts\<close>. The clock and fresh key bytes are parameters, as are
  whether an append succeeds, the names in a directory and the directory of a path; modes of files and the text printed are not modelled.
\<close>

record command_env =
  cm_iso :: string
  cm_random :: string
  cm_append_error :: "string option"
  cm_listing :: "string \<Rightarrow> string list"
  cm_dirname :: "string \<Rightarrow> string"
  cm_tool_version :: string

record command_flags =
  cg_out :: "string option"
  cg_history :: bool
  cg_maxHistoryFiles :: "string option"

section \<open>The lock of the seal file\<close>

definition SEAL_LOCK_MAX_RETRIES :: nat where
  "SEAL_LOCK_MAX_RETRIES = 20"

definition SEAL_LOCK_STALE_THRESHOLD_MS :: int where
  "SEAL_LOCK_STALE_THRESHOLD_MS = 5000"

definition isStaleByMtime :: "int \<Rightarrow> lock_file option \<Rightarrow> bool" where
  "isStaleByMtime now f \<longleftrightarrow>
    (case f of None \<Rightarrow> True | Some file \<Rightarrow> now - lk_mtime file > SEAL_LOCK_STALE_THRESHOLD_MS)"

definition isSealLockStale :: "lock_env \<Rightarrow> int \<Rightarrow> lock_file option \<Rightarrow> bool" where
  "isSealLockStale e now f \<longleftrightarrow>
    (case Option.bind f lk_meta of
       None \<Rightarrow> isStaleByMtime now f
     | Some m \<Rightarrow>
         if lm_created_at_ms m > now + 60000 then isStaleByMtime now f
         else if lm_hostname m = lv_hostname e \<and> \<not> lv_alive e (lm_pid m) then True
         else now - lm_created_at_ms m > SEAL_LOCK_STALE_THRESHOLD_MS)"

definition seal_meta :: "lock_env \<Rightarrow> nat \<Rightarrow> nat \<Rightarrow> lock_meta" where
  "seal_meta e pid i =
    \<lparr>lm_pid = pid, lm_hostname = lv_hostname e, lm_token = [], lm_created_at_ms = lv_clock e i\<rparr>"

definition contention :: js_error where
  "contention = Thrown ''Seal lock contention: could not acquire the lock''"

text \<open>
  The attempts left, the calls made so far, the lock as it was last left or seen. The loop may end
  without the lock: after a removal it goes on to the next attempt, also when there is none.
\<close>

fun seal_acquire ::
  "lock_env \<Rightarrow> nat \<Rightarrow> nat \<Rightarrow> nat \<Rightarrow> lock_file option \<Rightarrow> lock_file option \<times> (bool \<times> nat) result" where
  "seal_acquire e pid 0 i l = (l, Inr (False, i))"
| "seal_acquire e pid (Suc n) i l =
     (case lv_open_error e i of
        Some x \<Rightarrow> (l, Inl x)
      | None \<Rightarrow>
          (case lv_others e i l of
             None \<Rightarrow>
               if lv_meta_ok e
               then (Some \<lparr>lk_meta = Some (seal_meta e pid i), lk_mtime = lv_clock e i\<rparr>, Inr (True, i + 1))
               else (Some \<lparr>lk_meta = None, lk_mtime = lv_clock e i\<rparr>, Inl (Thrown ''write''))
           | Some f \<Rightarrow>
               (let l1 = lv_others e (i + 1) (Some f);
                    stale = isSealLockStale e (lv_clock e (i + 1)) l1;
                    l2 = (if stale then lv_others e (i + 2) l1 else l1);
                    j = (if stale then i + 3 else i + 2)
                in if stale \<and> l2 \<noteq> None then seal_acquire e pid n j None
                   else if n = 0 then (l2, Inl contention)
                   else seal_acquire e pid n j l2)))"

text \<open>The lock file is removed at the end, whoever made it.\<close>

definition withSealLock ::
  "lock_env \<Rightarrow> nat \<Rightarrow> ('w \<Rightarrow> 'w \<times> 'a result) \<Rightarrow> lock_file option \<Rightarrow> 'w
   \<Rightarrow> lock_file option \<times> 'w \<times> 'a result" where
  "withSealLock e pid fn l w =
    (case seal_acquire e pid (Suc SEAL_LOCK_MAX_RETRIES) 0 l of
       (l1, Inl x) \<Rightarrow> (l1, w, Inl x)
     | (l1, Inr (held, i)) \<Rightarrow> (let r = fn w in (None, fst r, snd r)))"

section \<open>Sealing\<close>

text \<open>The key and its name: a single file, or the active key of the keyring, made when missing.\<close>

definition seal_command_key ::
  "verify_env \<Rightarrow> command_env \<Rightarrow> verify_flags \<Rightarrow> verify_files
   \<Rightarrow> verify_files \<times> (string \<times> string option) result" where
  "seal_command_key e cm f fs =
    (case str_or (fl_keyFile f) None of
       Some path \<Rightarrow>
         (let r = ensureSealKey (cm_random cm) (vf_read fs path) in
          (fs\<lparr>vf_read := (vf_read fs)(path := fst r)\<rparr>, Inr (snd r, None)))
     | None \<Rightarrow>
         (let dir = path_or (fl_keyringDir f) (ve_keyring_dir e);
              r = ensureKeyring (re_sign (ve_base e)) (cm_random cm) (vf_keyring fs dir)
          in (fs\<lparr>vf_keyring := (vf_keyring fs)(dir := fst r)\<rparr>,
              bind_result (snd r) (\<lambda>(keyId, key). Inr (key, Some keyId)))))"

definition new_seal :: "string \<Rightarrow> string \<Rightarrow> nat \<Rightarrow> string \<Rightarrow> string option \<Rightarrow> json" where
  "new_seal sealedAt tipHash n signature keyId = JObj
    ([(''sealed_at'', JStr sealedAt), (''tip_hash'', JStr tipHash), (''chained_events'', JNum (int n)),
      (''signature'', JStr signature)]
     @ (case str_or keyId None of None \<Rightarrow> [] | Some k \<Rightarrow> [(''key_id'', JStr k)]))"

definition append_seal :: "command_env \<Rightarrow> string \<Rightarrow> json \<Rightarrow> verify_files \<Rightarrow> verify_files \<times> json option result" where
  "append_seal cm path seal fs =
    (case cm_append_error cm of
       Some m \<Rightarrow> (fs, Inl (Thrown m))
     | None \<Rightarrow>
         (fs\<lparr>vf_read := (vf_read fs)(path := append_text (vf_read fs path) (log_line seal))\<rparr>, Inr (Some seal)))"

text \<open>\<open>ensureSealFile\<close>: an empty file when there is none.\<close>

definition ensureSealFile :: "string \<Rightarrow> verify_files \<Rightarrow> verify_files" where
  "ensureSealFile path fs =
    (case vf_read fs path of
       None \<Rightarrow> fs\<lparr>vf_read := (vf_read fs)(path := Some [])\<rparr> | Some t \<Rightarrow> fs)"

text \<open>The seal that was appended; \<open>None\<close> when the command refused and set the exit code to 1.\<close>

definition sealCommand ::
  "verify_env \<Rightarrow> command_env \<Rightarrow> lock_env \<Rightarrow> nat \<Rightarrow> verify_flags \<Rightarrow> lock_file option \<Rightarrow> verify_files
   \<Rightarrow> lock_file option \<times> verify_files \<times> json option result" where
  "sealCommand e cm lock pid f l fs =
    (let sealPath = path_or (fl_sealFile f) (ve_seals_path e) in
     case vf_read fs (path_or (fl_file f) (ve_events_path e)) of
       None \<Rightarrow> (l, fs, Inr None)
     | Some content \<Rightarrow>
         (let (events, c) = verified_chain e content in
          if \<not> fl_allowInvalid f \<and> cv_invalid_schema_events c > 0 then (l, fs, Inr None)
          else if cv_chained_events c = 0 then (l, fs, Inr None)
          else
            (case find_tip (rev events) of
               Inl x \<Rightarrow> (l, fs, Inl x)
             | Inr tip \<Rightarrow>
                 (case str_or tip None of
                    None \<Rightarrow> (l, fs, Inr None)
                  | Some tipHash \<Rightarrow>
                      (let (fs1, key) = seal_command_key e cm f fs in
                       case bind_result key (\<lambda>(k, keyId).
                              bind_result (computeSealPayload tipHash (int (cv_chained_events c)) (cm_iso cm)) (\<lambda>payload.
                                Inr (new_seal (cm_iso cm) tipHash (cv_chained_events c)
                                       (signSeal (re_sign (ve_base e)) payload k) keyId))) of
                         Inl x \<Rightarrow> (l, fs1, Inl x)
                       | Inr seal \<Rightarrow>
                           withSealLock lock pid (append_seal cm sealPath seal) l (ensureSealFile sealPath fs1))))))"

definition rotateKeyCommand :: "verify_env \<Rightarrow> command_env \<Rightarrow> verify_flags \<Rightarrow> verify_files \<Rightarrow> verify_files \<times> string" where
  "rotateKeyCommand e cm f fs =
    (let dir = path_or (fl_keyringDir f) (ve_keyring_dir e);
         r = rotateKey (re_sign (ve_base e)) (cm_random cm) (vf_keyring fs dir)
     in (fs\<lparr>vf_keyring := (vf_keyring fs)(dir := fst r)\<rparr>, fst (snd r)))"

section \<open>Attesting\<close>

definition json_count :: "nat \<Rightarrow> json" where
  "json_count n = JNum (int n)"

definition json_number :: "int option \<Rightarrow> json" where
  "json_number n = (case n of None \<Rightarrow> JNull | Some i \<Rightarrow> JNum i)"

definition json_or_null :: "json option \<Rightarrow> json" where
  "json_or_null v = (case v of None \<Rightarrow> JNull | Some w \<Rightarrow> w)"

definition chain_members :: "chain_verification \<Rightarrow> json" where
  "chain_members c = JObj
    [(''total_events'', json_count (cv_total_events c)), (''chained_events'', json_count (cv_chained_events c)),
     (''legacy_events'', json_count (cv_legacy_events c)),
     (''invalid_schema_events'', json_count (cv_invalid_schema_events c)),
     (''hash_mismatch_count'', json_count (cv_hash_mismatch_count c)),
     (''prev_link_mismatch_count'', json_count (cv_prev_link_mismatch_count c)),
     (''first_failure_index'', json_number (map_option int (cv_first_failure c)))]"

text \<open>An age that is NaN is printed as null; the last member is there once the signature was valid.\<close>

definition seal_members :: "seal_check \<Rightarrow> json" where
  "seal_members s = JObj
    ([(''seal_checked'', JBool (sc_checked s)), (''seal_present'', JBool (sc_present s)),
      (''seal_valid'', JBool (sc_valid s)), (''seal_tip_match'', JBool (sc_tip_match s)),
      (''seal_tip_hash'', json_or_null (sc_tip_hash s)),
      (''seal_age_seconds'', json_number (Option.bind (sc_age s) id)),
      (''seal_corrupt_lines'', json_count (sc_corrupt_lines s)),
      (''seal_failure_reason'', nullable_str (sc_failure s))]
     @ (if sc_valid s then [(''events_since_seal'', json_number (map_option int (sc_events_since s)))] else []))"

definition witness_members :: "witness_check \<Rightarrow> json" where
  "witness_members w = JObj
    [(''witness_checked'', JBool (wk_checked w)), (''witness_present'', JBool (wk_present w)),
     (''witness_matching_tip_count'', json_count (wk_matching w)),
     (''witness_valid_count'', json_count (wk_valid w)),
     (''witness_latest_age_seconds'', json_number (wk_age w)),
     (''witness_corrupt_lines'', json_count (wk_corrupt_lines w)),
     (''witness_failure_reason'', nullable_str (wk_failure w))]"

definition path_members :: "string list \<Rightarrow> json" where
  "path_members ps = JObj (zip [''events'', ''seals'', ''witnesses''] (map JStr ps))"

text \<open>The artifact before it is signed.\<close>

definition artifact_members :: "command_env \<Rightarrow> verify_report \<Rightarrow> (string \<times> json) list" where
  "artifact_members cm r =
    [(''schema_version'', JNum 1), (''generated_at'', JStr (cm_iso cm)),
     (''tool_version'', JStr (cm_tool_version cm)), (''pass'', JBool (vr_pass r)),
     (''input_paths'', path_members (vr_paths r)), (''chain'', chain_members (vr_chain r)),
     (''seal'', seal_members (vr_seal r)), (''witness'', witness_members (vr_witness r)),
     (''error'', nullable_str (vr_error r)), (''chain_tip_hash'', nullable_str (vr_tip r)),
     (''chain_chained_events'', json_count (cv_chained_events (vr_chain r))),
     (''seal_tip_hash'', json_or_null (sc_tip_hash (vr_seal r))),
     (''witness_latest_matching_tip_hash'', (if wk_matching (vr_witness r) > 0 then nullable_str (vr_tip r) else JNull))]"

definition signed_artifact ::
  "sign_env \<Rightarrow> (string \<times> json) list \<Rightarrow> (string option \<times> string) option \<Rightarrow> (string \<times> json) list" where
  "signed_artifact sg a key =
    (let payload = buildAttestationPayload a;
         a1 = a @ [(''payload_hash'', JStr (hashAttestationPayload sg payload))]
     in case key of
          None \<Rightarrow> a1 @ [(''signature'', JStr ''unsigned'')]
        | Some (keyId, k) \<Rightarrow>
            a1 @ [(''signature'', JStr (signAttestation sg payload k))]
              @ (case keyId of None \<Rightarrow> [] | Some i \<Rightarrow> [(''key_id'', JStr i)]))"

text \<open>The keyring's active key, or the single key file, or none.\<close>

definition attest_key ::
  "verify_env \<Rightarrow> command_env \<Rightarrow> verify_flags \<Rightarrow> verify_files \<Rightarrow> verify_files \<times> (string option \<times> string) option" where
  "attest_key e cm f fs =
    (let dir = path_or (fl_keyringDir f) (ve_keyring_dir e);
         r = ensureKeyring (re_sign (ve_base e)) (cm_random cm) (vf_keyring fs dir);
         fs1 = fs\<lparr>vf_keyring := (vf_keyring fs)(dir := fst r)\<rparr>
     in case snd r of
          Inr (keyId, key) \<Rightarrow> (fs1, Some (Some keyId, key))
        | Inl x \<Rightarrow> (fs1, map_option (\<lambda>k. (None, k)) (vf_read fs1 (path_or (fl_keyFile f) (ve_seal_key_path e)))))"

definition attest_options :: "verify_flags \<Rightarrow> verify_defaults \<Rightarrow> engine_options" where
  "attest_options f d =
    \<lparr>vp_file = fl_file f, vp_sealFile = fl_sealFile f, vp_keyFile = fl_keyFile f,
     vp_keyringDir = fl_keyringDir f, vp_witnessFile = fl_witnessFile f,
     vp_sealCheck = None, vp_requireSeal = vd_requireSeal d,
     vp_maxSealAgeSeconds = vd_maxSealAgeSeconds d, vp_strictSealFile = False,
     vp_witnessCheck = None, vp_requireWitness = vd_requireWitness d,
     vp_maxWitnessAgeSeconds = vd_maxWitnessAgeSeconds d, vp_strictWitnessFile = False,
     vp_strict = False, vp_allowInvalid = False, vp_attestationFile = None, vp_attestationCheck = None,
     vp_requireAttestation = False, vp_requireSignedAttestation = False, vp_maxAttestationAgeSeconds = None,
     vp_strictAttestationFile = False, vp_requireAttestationBinding = False,
     vp_requireRemoteWitnessProof = False, vp_remoteWitnessQuorum = None, vp_remoteWitnessTimeoutMs = None,
     vp_noRemoteWitnessCheck = False, vp_tokenEnv = None\<rparr>"

text \<open>The history: a copy under the time with its colons and dots replaced, then the oldest copies go.\<close>

definition history_name :: "string \<Rightarrow> string" where
  "history_name generatedAt =
    ''attestation-'' @ map (\<lambda>c. if c = CHR '':'' \<or> c = CHR ''.'' then CHR ''-'' else c) generatedAt @ ''.json''"

definition pruned :: "string list \<Rightarrow> nat \<Rightarrow> string list" where
  "pruned names maxFiles =
    (let files = sort (filter (\<lambda>f. starts_with f ''attestation-'' \<and> ends_with f ''.json'') names)
     in take (length files - maxFiles) files)"

datatype attest_outcome = BadHistoryLimit | AttestPolicyShown resolved_policy | AttestRejected string
  | Attested "string option" "(string \<times> json) list" bool

definition history_limit :: "verify_env \<Rightarrow> command_flags \<Rightarrow> nat option option" where
  "history_limit e g =
    (case cg_maxHistoryFiles g of
       None \<Rightarrow> Some None
     | Some s \<Rightarrow> (case re_number (ve_base e) s of
                    Some n \<Rightarrow> if n > 0 then Some (Some (nat n)) else None
                  | None \<Rightarrow> None))"

definition write_history ::
  "verify_env \<Rightarrow> command_env \<Rightarrow> command_flags \<Rightarrow> nat option \<Rightarrow> string \<Rightarrow> verify_files \<Rightarrow> verify_files" where
  "write_history e cm g limit content fs =
    (if \<not> cg_history g then fs
     else
       (let dir = cm_dirname cm (path_or (cg_out g) (ve_attestation_path e));
            name = history_name (cm_iso cm);
            fs1 = fs\<lparr>vf_read := (vf_read fs)(path_join [dir, name] \<mapsto> content)\<rparr>
        in case limit of
             None \<Rightarrow> fs1
           | Some n \<Rightarrow>
               fold (\<lambda>f fs. fs\<lparr>vf_read := (vf_read fs)(path_join [dir, f] := None)\<rparr>)
                 (pruned (remdups (name # cm_listing cm dir)) n) fs1))"

text \<open>The files after the command: the artifact, its copy in the history, and a keyring made when missing.\<close>

definition attestCommand ::
  "verify_env \<Rightarrow> command_env \<Rightarrow> config_env \<Rightarrow> string \<Rightarrow> verify_flags \<Rightarrow> command_flags \<Rightarrow> verify_files
   \<Rightarrow> verify_files \<times> attest_outcome result" where
  "attestCommand e cm ce cwd f g fs =
    (case history_limit e g of
       None \<Rightarrow> (fs, Inr BadHistoryLimit)
     | Some limit \<Rightarrow>
       (let policy = resolveVerifyDefaults f (loadConfig ce (Some cwd)) in
        if fl_showEffectivePolicy f then (fs, Inr (AttestPolicyShown policy))
        else
          (case (rp_validation policy, rp_profile policy = ''strict'') of
             (Some errors, True) \<Rightarrow> (fs, Inr (AttestRejected (formatConfigValidationError errors)))
           | (validation, _) \<Rightarrow>
               (case runVerification e fs (attest_options f (rp_defaults policy)) of
                  Inl x \<Rightarrow> (fs, Inl x)
                | Inr r \<Rightarrow>
                    (let (fs1, key) = attest_key e cm f fs;
                         a = signed_artifact (re_sign (ve_base e)) (artifact_members cm r) key;
                         out = path_or (cg_out g) (ve_attestation_path e);
                         content = pretty 0 (JObj a) @ [newline];
                         warning = map_option (\<lambda>es. ''Config warning: '' @ join ''; '' (map error_line es)) validation
                     in (write_history e cm g limit content (fs1\<lparr>vf_read := (vf_read fs1)(out \<mapsto> content)\<rparr>),
                         Inr (Attested warning a (vr_pass r))))))))"

end
