(* ===== verification/VerifyProperties.thy ===== *)
theory VerifyProperties
  imports VerifyEngine RelayProperties "HOL-Library.Sublist"
begin

text \<open>
  Properties of the verification engine: what a passing report says of the log, its seal and its
  attestation, that the records the library writes pass, and inputs that pass although a comment
  says they do not.
\<close>

section \<open>A passing report\<close>

lemma passed:
  assumes "runVerification e fs opts = Inr r" "vr_pass r"
  obtains content seal attestation tip events c where
    "vf_read fs (path_or (vp_file opts) (ve_events_path e)) = Some content"
    "verified_chain e content = (events, c)" "log_passes opts c"
    "runSealCheck e fs opts events (parsePositiveIntAge (vp_maxSealAgeSeconds opts)) = Inr seal"
    "sc_checked seal \<longrightarrow> sc_failure seal = None" "find_tip (rev events) = Inr tip"
    "runAttestationCheck e fs opts (parsePositiveIntAge (vp_maxAttestationAgeSeconds opts))
       (state_of tip c seal (runWitnessCheck e fs opts tip (parsePositiveIntAge (vp_maxWitnessAgeSeconds opts)))) = Inr attestation"
    "at_checked attestation \<longrightarrow> at_failure attestation = None"
    "vr_chain r = c" "vr_seal r = seal" "vr_tip r = tip" "vr_attestation r = attestation"
proof -
  from assms obtain content where content: "vf_read fs (path_or (vp_file opts) (ve_events_path e)) = Some content"
    and v: "\<exists>paths. verify_log e fs opts (parsePositiveIntAge (vp_maxSealAgeSeconds opts))
      (parsePositiveIntAge (vp_maxWitnessAgeSeconds opts)) (parsePositiveIntAge (vp_maxAttestationAgeSeconds opts)) paths content = Inr r"
    by (auto simp: runVerification_def emptyResult_def Let_def split: if_splits option.splits)
  obtain events c where chain: "verified_chain e content = (events, c)" by (cases "verified_chain e content")
  from v assms(2) obtain seal tip attestation where
    "runSealCheck e fs opts events (parsePositiveIntAge (vp_maxSealAgeSeconds opts)) = Inr seal"
    "find_tip (rev events) = Inr tip"
    "runAttestationCheck e fs opts (parsePositiveIntAge (vp_maxAttestationAgeSeconds opts))
       (state_of tip c seal (runWitnessCheck e fs opts tip (parsePositiveIntAge (vp_maxWitnessAgeSeconds opts)))) = Inr attestation"
    "log_passes opts c" "sc_checked seal \<longrightarrow> sc_failure seal = None"
    "at_checked attestation \<longrightarrow> at_failure attestation = None"
    "vr_chain r = c" "vr_seal r = seal" "vr_tip r = tip" "vr_attestation r = attestation"
    by (auto simp: verify_log_def chain Let_def result_simps)
  with content chain that show thesis by blast
qed

section \<open>The chain\<close>

definition clean :: "chain_verification \<Rightarrow> bool" where
  "clean c \<longleftrightarrow> cv_hash_mismatch_count c = 0 \<and> cv_prev_link_mismatch_count c = 0
    \<and> cv_invalid_schema_events c = 0 \<and> cv_legacy_events c = 0"

lemma chain_step_clean:
  "clean (cs_result (chain_step e opts i ev st)) \<Longrightarrow>
     clean (cs_result st) \<and> he_schema e ev \<and> is_chained ev
     \<and> (cv_valid (cs_result (chain_step e opts i ev st)) \<longleftrightarrow> cv_valid (cs_result st))"
  by (auto simp: chain_step_def clean_def cv_fail_def check_hash_def check_link_def Let_def split: if_splits)

lemma chain_loop_clean:
  "clean (cs_result (chain_loop e opts i evs st)) \<Longrightarrow>
     clean (cs_result st) \<and> list_all (\<lambda>ev. he_schema e ev \<and> is_chained ev) evs
     \<and> (cv_valid (cs_result (chain_loop e opts i evs st)) \<longleftrightarrow> cv_valid (cs_result st))"
proof (induction evs arbitrary: i st)
  case (Cons ev evs)
  from Cons.IH [of "Suc i" "chain_step e opts i ev st"] Cons.prems
  have "clean (cs_result (chain_step e opts i ev st))" "list_all (\<lambda>ev. he_schema e ev \<and> is_chained ev) evs"
    "cv_valid (cs_result (chain_loop e opts (Suc i) evs (chain_step e opts i ev st)))
      \<longleftrightarrow> cv_valid (cs_result (chain_step e opts i ev st))" by simp_all
  with chain_step_clean [OF this(1)] show ?case by simp
qed simp

lemma rest_ok_hashes:
  "rest_ok e b False saw l evs \<Longrightarrow> list_all is_chained evs \<Longrightarrow> list_all (\<lambda>ev. hash_matches e ev) evs"
  by (induction evs arbitrary: saw l) auto

lemma clean_chain:
  assumes "clean (verifyChain e opts evs)" "\<not> vo_requireChainProtected opts"
  shows "list_all (\<lambda>ev. hash_matches e ev) evs" "links evs"
    and "cv_chained_events (verifyChain e opts evs) = length evs"
proof -
  let ?st = "chain_loop e opts 0 evs (chain_state0 (length evs))"
  have "clean (cs_result ?st)"
    using assms by (simp add: verifyChain_def clean_def Let_def split: if_splits)
  from chain_loop_clean [OF this] have all: "list_all (\<lambda>ev. he_schema e ev \<and> is_chained ev) evs"
    and "cv_valid (cs_result ?st)" by (simp_all add: chain_state0_def)
  then have "cv_valid (verifyChain e opts evs)"
    using assms(2) by (simp add: verifyChain_def Let_def)
  then have ok: "log_ok e opts False evs" "links (filter is_chained evs)"
    using verifyChain_valid_iff log_ok_links by blast+
  have chained: "filter is_chained evs = evs" using all by (simp add: filter_id_conv list_all_iff)
  show "links evs" using ok(2) chained by simp
  show "list_all (\<lambda>ev. hash_matches e ev) evs"
    using ok(1) all by (intro rest_ok_hashes) (auto simp: log_ok_def list_all_iff)
  have "filter (\<lambda>ev. he_schema e ev \<and> is_chained ev) evs = evs" using all by (simp add: filter_id_conv list_all_iff)
  then show "cv_chained_events (verifyChain e opts evs) = length evs"
    using chain_loop_counts [of e opts 0 evs "chain_state0 (length evs)"] assms(2)
    by (auto simp: verifyChain_def Let_def chain_state0_def)
qed

definition plain_options :: verify_options where
  "plain_options = \<lparr>vo_strict = False, vo_requireChainProtected = False\<rparr>"

lemma plain_options_sel [simp]: "\<not> vo_strict plain_options" "\<not> vo_requireChainProtected plain_options"
  by (simp_all add: plain_options_def)

lemma strict_log:
  assumes "verified_chain e content = (events, c)" "log_passes opts c" "vp_strict opts" "\<not> vp_allowInvalid opts"
  shows "list_all (\<lambda>ev. hash_matches (hash_env_of (re_log (ve_base e))) ev) events" "links events"
    and "cv_chained_events c = length events"
proof -
  let ?h = "hash_env_of (re_log (ve_base e))"
  have c: "c = verifyChain ?h plain_options events
      \<lparr>cv_invalid_schema_events := cv_invalid_schema_events c\<rparr>"
    and i: "cv_invalid_schema_events (verifyChain ?h plain_options events) \<le> cv_invalid_schema_events c"
    using assms(1) by (auto simp: verified_chain_def plain_options_def Let_def)
  have "clean (verifyChain ?h plain_options events)"
    using assms(2-4) i arg_cong [OF c, of cv_hash_mismatch_count] arg_cong [OF c, of cv_prev_link_mismatch_count]
      arg_cong [OF c, of cv_legacy_events]
    by (simp add: log_passes_def clean_def)
  note ok = clean_chain [OF this]
  show "list_all (\<lambda>ev. hash_matches ?h ev) events" "links events"
    using ok by (simp_all add: plain_options_def)
  show "cv_chained_events c = length events"
    using ok(3) arg_cong [OF c, of cv_chained_events] by (simp add: plain_options_def)
qed

section \<open>The seal\<close>

lemma tip_scan_found: "tip_scan sealed evs (Some i) k = Inr (f, n) \<Longrightarrow> f = Some i"
  by (induction sealed evs "Some i" k rule: tip_scan.induct) (auto split: if_splits option.splits)

lemma null_member [simp]: "string_member JNull k = None"
  by (simp add: string_member_def asString_def)

lemma tip_scan_hashed:
  assumes "list_all (\<lambda>ev. hash_matches h ev) evs"
  shows "tip_scan sealed evs found k = Inr (f, n) \<Longrightarrow> n = k + length evs
    \<and> (found = None \<longrightarrow> (\<forall>i. f = Some i \<longrightarrow> k \<le> i \<and> i < n \<and> event_hash (evs ! (i - k)) = sealed))"
  using assms
proof (induction evs arbitrary: found k)
  case (Cons ev evs)
  obtain t where t: "event_hash ev = Some (JStr t)" "string_member ev ''event_hash'' = Some t"
    using Cons.prems(2) by (auto simp: hash_matches_def event_hash_def string_member_def asString_def)
  let ?g = "if found = None \<and> sealed = Some (JStr t) then Some k else found"
  have r: "tip_scan sealed evs ?g (Suc k) = Inr (f, n)"
    using Cons.prems(1) t(2) by (auto split: if_splits)
  have IH: "n = Suc k + length evs
    \<and> (?g = None \<longrightarrow> (\<forall>i. f = Some i \<longrightarrow> Suc k \<le> i \<and> i < n \<and> event_hash (evs ! (i - Suc k)) = sealed))"
    by (rule Cons.IH [OF r]) (use Cons.prems(2) in simp)
  show ?case
  proof (cases "?g = None")
    case True
    then have "found = None" by (simp split: if_splits)
    with True IH show ?thesis
      by (fastforce simp: nth_Cons' Suc_le_eq dest: Suc_leD)
  next
    case False
    then have "f = Some k" if "found = None"
      using tip_scan_found [of sealed evs k "Suc k" f n] r that by (simp split: if_splits)
    moreover have "sealed = Some (JStr t)" if "found = None"
      using False that by (simp split: if_splits)
    ultimately show ?thesis using IH t(1) by auto
  qed
qed auto

lemma seal_file_accepted:
  assumes "runSealCheck e fs opts events m = Inr sc" "sc_failure sc = None"
    and "vp_sealCheck opts \<noteq> Some False"
    and content: "vf_read fs (path_or (vp_sealFile opts) (ve_seals_path e)) = Some content"
  obtains seal corrupt key payload where
    "findLatestValidSeal (ve_base e) (content_lines content) = Inr (Some seal, corrupt)"
    "seal_key e fs opts seal = Inr (Inr key)" "seal_payload_of seal = Inr payload"
    "verify_any (ve_base e) payload (the (json_get seal ''signature'')) key = Inr True"
    "seal_verdict e events m seal corrupt = Inr sc"
proof -
  have ne: "seal_failed a b \<noteq> sc" for a b using assms(2) by (auto simp: seal_failed_def)
  note run = assms(1) [unfolded runSealCheck_def content]
  obtain latest corrupt where scan: "findLatestValidSeal (ve_base e) (content_lines content) = Inr (latest, corrupt)"
    using run assms(3) by (auto simp: ne result_simps split: if_splits)
  obtain seal where latest: "latest = Some seal"
    using run assms(2,3) by (cases latest) (auto simp: scan ne split: if_splits)
  have rest: "bind_result (seal_key e fs opts seal) (\<lambda>k.
      (case k of
         Inl reason \<Rightarrow> Inr (seal_failed corrupt reason)
       | Inr key \<Rightarrow>
           bind_result (seal_payload_of seal) (\<lambda>payload.
           bind_result (verify_any (ve_base e) payload (the (json_get seal ''signature'')) key) (\<lambda>ok.
             if \<not> ok
             then Inr (seal_failed corrupt ''Seal signature is invalid (key mismatch or tampered seal)'')
             else seal_verdict e events m seal corrupt)))) = Inr sc"
    using run assms(3) by (simp add: scan latest ne split: if_splits)
  obtain k where k: "seal_key e fs opts seal = Inr k" using rest by (auto simp: result_simps)
  obtain key where key: "k = Inr key" using rest by (cases k) (auto simp: k ne)
  obtain payload ok where p: "seal_payload_of seal = Inr payload"
    "verify_any (ve_base e) payload (the (json_get seal ''signature'')) key = Inr ok"
    using rest by (auto simp: k key result_simps)
  have "ok" "seal_verdict e events m seal corrupt = Inr sc"
    using rest by (auto simp: k key p ne split: if_splits)
  with that scan latest k key p show thesis by simp
qed

lemma seal_accepted:
  assumes "runSealCheck e fs opts events m = Inr sc" "sc_failure sc = None"
    and "vp_sealCheck opts \<noteq> Some False" "vp_requireSeal opts"
  obtains seal corrupt where "seal_verdict e events m seal corrupt = Inr sc"
proof -
  obtain content where "vf_read fs (path_or (vp_sealFile opts) (ve_seals_path e)) = Some content"
    using assms by (cases "vf_read fs (path_or (vp_sealFile opts) (ve_seals_path e))") (auto simp: runSealCheck_def)
  from seal_file_accepted [OF assms(1-3) this] that show thesis by blast
qed

lemma verdict_cases:
  assumes "seal_verdict e events m seal corrupt = Inr sc"
  obtains found n age where "tip_scan (json_get seal ''tip_hash'') events None 0 = Inr (found, n)"
    and "sc_checked sc" "sc_tip_hash sc = json_get seal ''tip_hash''" "sc_valid sc"
    and "found = None \<Longrightarrow> sc_failure sc \<noteq> None"
    and "\<And>i. found = Some i \<Longrightarrow> sc_events_since sc = Some (n - i - 1) \<and> sc_tip_match sc"
proof -
  obtain found n age where t: "tip_scan (json_get seal ''tip_hash'') events None 0 = Inr (found, n)"
    "sealed_age e seal = Inr age"
    using assms by (auto simp: seal_verdict_def Let_def result_simps)
  show thesis
  proof (cases found)
    case None
    have "sc_checked sc \<and> sc_tip_hash sc = json_get seal ''tip_hash'' \<and> sc_valid sc \<and> sc_failure sc \<noteq> None"
      using assms by (auto simp: seal_verdict_def Let_def t None result_simps split: option.splits json.splits)
    with that t None show thesis by simp
  next
    case (Some i)
    have "sc_checked sc \<and> sc_tip_hash sc = json_get seal ''tip_hash'' \<and> sc_valid sc
        \<and> sc_events_since sc = Some (n - i - 1) \<and> sc_tip_match sc"
      using assms by (cases age) (auto simp: seal_verdict_def Let_def t Some split: if_splits)
    with that t Some show thesis by simp
  qed
qed

lemma verdict_accepted:
  assumes "seal_verdict e events m seal corrupt = Inr sc" "sc_failure sc = None"
  obtains i n where "tip_scan (json_get seal ''tip_hash'') events None 0 = Inr (Some i, n)"
    "sc_tip_hash sc = json_get seal ''tip_hash''" "sc_events_since sc = Some (n - i - 1)" "sc_valid sc" "sc_tip_match sc"
  using assms by (elim verdict_cases) (metis option.exhaust)

lemma seal_failed_checked [simp]: "sc_checked (seal_failed a b)"
  by (simp add: seal_failed_def)

lemma verdict_checked: "seal_verdict e events m seal corrupt = Inr sc \<Longrightarrow> sc_checked sc"
  by (elim verdict_cases)

lemma seal_run_checked:
  assumes "runSealCheck e fs opts events m = Inr sc" "vp_sealCheck opts \<noteq> Some False"
  shows "sc_checked sc"
proof (cases "vf_read fs (path_or (vp_sealFile opts) (ve_seals_path e))")
  case None
  with assms show ?thesis by (auto simp: runSealCheck_def)
next
  case (Some content)
  have rest: "sc_checked sc"
    if "bind_result (seal_key e fs opts seal) (\<lambda>k.
      (case k of
         Inl reason \<Rightarrow> Inr (seal_failed corrupt reason)
       | Inr key \<Rightarrow>
           bind_result (seal_payload_of seal) (\<lambda>payload.
           bind_result (verify_any (ve_base e) payload (the (json_get seal ''signature'')) key) (\<lambda>ok.
             if \<not> ok
             then Inr (seal_failed corrupt ''Seal signature is invalid (key mismatch or tampered seal)'')
             else seal_verdict e events m seal corrupt)))) = Inr sc" for seal corrupt
  proof -
    note seal_run = that
    obtain k where k: "seal_key e fs opts seal = Inr k"
      using seal_run by (cases "seal_key e fs opts seal") auto
    show ?thesis
    proof (cases k)
      case (Inl reason)
      with that k show ?thesis by auto
    next
      case (Inr key)
      obtain payload ok where p: "seal_payload_of seal = Inr payload"
        "verify_any (ve_base e) payload (the (json_get seal ''signature'')) key = Inr ok"
        using seal_run by (auto simp: k Inr result_simps)
      show ?thesis using that verdict_checked [of e events m seal corrupt sc] by (cases ok) (auto simp: k Inr p)
    qed
  qed
  show ?thesis
    using assms rest by (auto simp: runSealCheck_def Some result_simps split: if_splits option.splits)
qed

text \<open>The events of the log that a verification reads, and those up to the sealed one.\<close>

definition log_of :: "verify_env \<Rightarrow> verify_files \<Rightarrow> engine_options \<Rightarrow> json list" where
  "log_of e fs opts =
    (case vf_read fs (path_or (vp_file opts) (ve_events_path e)) of
       None \<Rightarrow> [] | Some content \<Rightarrow> fst (verified_chain e content))"

definition sealed_part :: "verify_report \<Rightarrow> json list \<Rightarrow> json list" where
  "sealed_part r events = take (cv_chained_events (vr_chain r) - the (sc_events_since (vr_seal r))) events"

definition strict_sealed :: "engine_options \<Rightarrow> bool" where
  "strict_sealed opts \<longleftrightarrow>
    vp_strict opts \<and> \<not> vp_allowInvalid opts \<and> vp_sealCheck opts \<noteq> Some False \<and> vp_requireSeal opts"

lemma links_take: "links (as @ bs) \<Longrightarrow> links as"
  by (induction as rule: links.induct) auto

lemma links_drop: "links (as @ bs) \<Longrightarrow> links bs"
proof (induction as)
  case (Cons a as)
  then show ?case by (cases "as @ bs") auto
qed simp

lemma sealed_part_ok:
  assumes "runVerification e fs opts = Inr r" "vr_pass r" "strict_sealed opts"
    and "xs = sealed_part r (log_of e fs opts)"
  shows "\<forall>ev \<in> set xs. hash_matches (hash_env_of (re_log (ve_base e))) ev" "links xs" "xs \<noteq> []"
    and "event_hash (last xs) = sc_tip_hash (vr_seal r)"
proof -
  obtain content seal events c where
    content: "vf_read fs (path_or (vp_file opts) (ve_events_path e)) = Some content"
    and v: "verified_chain e content = (events, c)" "log_passes opts c"
    "runSealCheck e fs opts events (parsePositiveIntAge (vp_maxSealAgeSeconds opts)) = Inr seal"
    "sc_checked seal \<longrightarrow> sc_failure seal = None" and r: "vr_chain r = c" "vr_seal r = seal"
    using passed [OF assms(1,2)] by metis
  have strict: "vp_strict opts" "\<not> vp_allowInvalid opts" "vp_sealCheck opts \<noteq> Some False" "vp_requireSeal opts"
    using assms(3) by (simp_all add: strict_sealed_def)
  note log = strict_log [OF v(1,2) strict(1,2)]
  have "sc_failure seal = None"
    using v(4) seal_run_checked [OF v(3) strict(3)] by simp
  then obtain i n where t: "tip_scan (sc_tip_hash seal) events None 0 = Inr (Some i, n)"
    "sc_events_since seal = Some (n - i - 1)"
    using seal_accepted [OF v(3) _ strict(3,4)] verdict_accepted by metis
  have n: "n = length events" "i < n" "event_hash (events ! i) = sc_tip_hash seal"
    using tip_scan_hashed [OF log(1) t(1)] by auto
  have xs: "xs = take (Suc i) events"
    using n by (simp add: assms(4) sealed_part_def log_of_def content r v(1) log(3) t(2))
  then show "\<forall>ev \<in> set xs. hash_matches (hash_env_of (re_log (ve_base e))) ev"
    using log(1) by (auto simp: list_all_iff dest: in_set_takeD)
  show "xs \<noteq> []" "event_hash (last xs) = sc_tip_hash (vr_seal r)"
    using n by (auto simp: xs take_Suc_conv_app_nth r)
  show "links xs" using log(2) links_take by (metis xs append_take_drop_id)
qed

lemma same_tip_suffix:
  assumes "\<forall>ev \<in> set xs \<union> set ys. hash_matches e ev" "links xs" "links ys"
    and "length xs \<le> length ys" "xs \<noteq> []" "event_hash (last xs) = event_hash (last ys)"
    and "\<not> collision e (xs @ ys)"
  shows "suffix (map event_view xs) (map event_view ys)"
proof -
  let ?d = "length ys - length xs"
  let ?zs = "drop ?d ys"
  have l: "length xs = length ?zs" using assms(4) by simp
  then have "?zs \<noteq> []" using assms(5) by (metis length_0_conv)
  note l = l this
  have "map event_view xs = map event_view ?zs"
  proof (rule same_tip_same_log)
    show "\<forall>ev \<in> set xs \<union> set ?zs. hash_matches e ev" using assms(1) by (auto dest: in_set_dropD)
    show "links ?zs" using assms(3) links_drop by (metis append_take_drop_id)
    show "event_hash (last xs) = event_hash (last ?zs)" using assms(6) l by (simp add: last_drop)
    show "\<not> collision e (xs @ ?zs)" using assms(7) by (fastforce simp: collision_def dest: in_set_dropD)
  qed (use assms l in auto)
  then show ?thesis by (metis drop_map suffix_drop)
qed

section \<open>The attestation\<close>

lemma tip_mismatch_none: "tip_mismatch k v st = Inr [] \<longleftrightarrow> same_value v st"
  by (auto simp: tip_mismatch_def result_simps)

lemma count_mismatch_none: "count_mismatch v n = Inr [] \<longleftrightarrow> v = Some (JNum (int n))"
  by (auto simp: count_mismatch_def result_simps)

lemma same_tip: "same_value v (map_option JStr t) \<longleftrightarrow> v = Some (nullable_str t)"
  by (cases t) (simp_all add: same_value_def nullable_str_def)

lemma mismatches_none:
  assumes "mismatches a st = Inr []"
  shows "map_of a ''chain_tip_hash'' = Some (nullable_str (cu_tip st))"
    and "map_of a ''chain_chained_events'' = Some (JNum (int (cu_chained st)))"
  using assms tip_mismatch_none [of _ "map_of a ''chain_tip_hash''" "map_option JStr (cu_tip st)"]
    count_mismatch_none [of "map_of a ''chain_chained_events''" "cu_chained st"]
  by (auto simp: mismatches_def same_tip result_simps)

lemma binding_accepted:
  assumes "binding_check opts a st r = Inr at" "at_failure at = None" "vp_requireAttestationBinding opts"
  shows "mismatches a st = Inr []"
  using assms by (auto simp: binding_check_def Let_def result_simps split: if_splits)

lemma attestation_verdict_accepted:
  assumes "attestation_verdict opts m a st signed valid age = Inr at" "at_failure at = None"
    and "vp_requireSignedAttestation opts" "vp_requireAttestationBinding opts"
  shows "signed" "valid" "mismatches a st = Inr []"
  using assms binding_accepted [OF _ assms(2,4)]
  by (auto simp: attestation_verdict_def Let_def split: if_splits)

lemma artifact_accepted:
  assumes "check_artifact e fs opts m st a = Inr at" "at_failure at = None"
    and "vp_requireSignedAttestation opts" "vp_requireAttestationBinding opts"
  obtains key sig where "attestation_key e fs opts a = Some key" "js_text (map_of a ''signature'') = Inr sig"
    "sig = signAttestation (re_sign (ve_base e)) (buildAttestationPayload a) key"
    "map_of a ''payload_hash'' = Some (JStr (hashAttestationPayload (re_sign (ve_base e)) (buildAttestationPayload a)))"
    "mismatches a st = Inr []"
proof -
  have ne: "attestation_failed x \<noteq> at" for x using assms(2) by (auto simp: attestation_failed_def)
  have h: "map_of a ''payload_hash'' = Some (JStr (hashAttestationPayload (re_sign (ve_base e)) (buildAttestationPayload a)))"
    using assms(1) by (auto simp: check_artifact_def Let_def ne split: if_splits)
  obtain sig at' age where s: "js_text (map_of a ''signature'') = Inr sig"
    and v: "attestation_verdict opts m a st (claims_signature sig)
      (case attestation_key e fs opts a of None \<Rightarrow> False
        | Some key \<Rightarrow> verifyAttestation (re_sign (ve_base e)) (buildAttestationPayload a) sig key) age = Inr at"
    using assms(1) h by (auto simp: check_artifact_def Let_def result_simps)
  note ok = attestation_verdict_accepted [OF v assms(2-4)]
  from ok(2) obtain key where "attestation_key e fs opts a = Some key"
    "verifyAttestation (re_sign (ve_base e)) (buildAttestationPayload a) sig key"
    by (auto split: option.splits)
  with that s h ok(3) show thesis by (auto simp: verifyAttestation_iff)
qed

lemma attestation_accepted:
  assumes "runAttestationCheck e fs opts m st = Inr at" "at_failure at = None"
    and "vp_attestationCheck opts \<noteq> Some False"
    and "vp_requireSignedAttestation opts" "vp_requireAttestationBinding opts"
  obtains content a where "vf_read fs (path_or (vp_attestationFile opts) (ve_attestation_path e)) = Some content"
    "relay_parse (ve_base e) content = Some (JObj a)" "check_artifact e fs opts m st a = Inr at"
proof -
  have ne: "attestation_failed x \<noteq> at" for x using assms(2) by (auto simp: attestation_failed_def)
  obtain content where c: "vf_read fs (path_or (vp_attestationFile opts) (ve_attestation_path e)) = Some content"
    using assms by (cases "vf_read fs (path_or (vp_attestationFile opts) (ve_attestation_path e))")
      (auto simp: runAttestationCheck_def)
  obtain v where v: "relay_parse (ve_base e) content = Some v"
    using assms(1,3,4) by (cases "relay_parse (ve_base e) content") (auto simp: runAttestationCheck_def c ne)
  obtain k where "missing_field v = Inr k" 
    using assms(1,3,4) by (cases "missing_field v") (auto simp: runAttestationCheck_def c v)
  then show thesis
    using assms(1,3,4) that c v
    by (cases k; cases v) (auto simp: runAttestationCheck_def ne)
qed

lemma attestation_verdict_checked:
  "attestation_verdict opts m a st signed valid age = Inr at \<Longrightarrow> at_checked at"
  by (auto simp: attestation_verdict_def binding_check_def Let_def result_simps split: if_splits)

lemma attestation_checked:
  assumes "runAttestationCheck e fs opts m st = Inr at" "vp_attestationCheck opts \<noteq> Some False"
    and "vp_requireSignedAttestation opts"
  shows "at_checked at"
proof (rule ccontr)
  assume n: "\<not> at_checked at"
  have ne: "attestation_failed x \<noteq> at" for x using n by (auto simp: attestation_failed_def)
  have a: "check_artifact e fs opts m st a \<noteq> Inr at" for a
    using attestation_verdict_checked n ne by (fastforce simp: check_artifact_def Let_def result_simps split: if_splits)
  show False
    using assms n ne a
    by (auto simp: runAttestationCheck_def result_simps split: if_splits option.splits json.splits)
qed

section \<open>Inputs that pass\<close>

lemma chain_loop_append: "chain_loop e opts i (xs @ ys) st = chain_loop e opts (i + length xs) ys (chain_loop e opts i xs st)"
  by (induction xs arbitrary: i st) simp_all

lemma chain_loop_saw:
  "cs_saw (chain_loop e opts i evs st) \<longleftrightarrow> cs_saw st \<or> (\<exists>ev \<in> set evs. he_schema e ev \<and> is_chained ev)"
  by (induction evs arbitrary: i st) (auto simp: chain_step_def Let_def)

lemma read_log:
  assumes "reads_own_lines (re_log (ve_base e))" "list_all entry_ok evs"
  shows "fst (verified_chain e (concat (map log_line evs))) = evs"
    and "snd (verified_chain e (concat (map log_line evs)))
      = verifyChain (hash_env_of (re_log (ve_base e))) plain_options evs"
proof -
  have p: "\<forall>ev \<in> set evs. relay_parse (ve_base e) (stringify ev) = Some ev"
    using assms by (auto simp: list_all_iff entry_ok_def relay_parse_def reads_own_lines_def)
  then have "List.map_filter (relay_parse (ve_base e)) (map stringify evs) = evs"
    by (induction evs) (simp_all add: List.map_filter_simps)
  moreover have "filter (\<lambda>l. relay_parse (ve_base e) l = None) (map stringify evs) = []"
    using p by (induction evs) simp_all
  ultimately show "fst (verified_chain e (concat (map log_line evs))) = evs"
    "snd (verified_chain e (concat (map log_line evs)))
      = verifyChain (hash_env_of (re_log (ve_base e))) plain_options evs"
    by (simp_all add: verified_chain_def Let_def content_lines_log plain_options_def)
qed

text \<open>Without \<open>--strict\<close>, an event without a hash after hashed ones passes, and so does a log without hashes.\<close>

lemma verifyChain_counts:
  assumes "\<not> vo_requireChainProtected opts" "r = cs_result (chain_loop e opts 0 evs (chain_state0 (length evs)))"
  shows "cv_hash_mismatch_count (verifyChain e opts evs) = cv_hash_mismatch_count r"
    "cv_prev_link_mismatch_count (verifyChain e opts evs) = cv_prev_link_mismatch_count r"
    "cv_invalid_schema_events (verifyChain e opts evs) = cv_invalid_schema_events r"
    "cv_legacy_events (verifyChain e opts evs) = cv_legacy_events r"
    "cv_chained_events (verifyChain e opts evs) = cv_chained_events r"
    "cv_valid (verifyChain e opts evs) = cv_valid r"
  using assms by (simp_all add: verifyChain_def Let_def)

lemma cv_fail_counts [simp]:
  "cv_hash_mismatch_count (cv_fail i r) = cv_hash_mismatch_count r"
  "cv_prev_link_mismatch_count (cv_fail i r) = cv_prev_link_mismatch_count r"
  "cv_legacy_events (cv_fail i r) = cv_legacy_events r"
  by (simp_all add: cv_fail_def)

lemma total_irrelevant:
  "cs_result st' = (cs_result st)\<lparr>cv_total_events := n\<rparr> \<Longrightarrow> cs_last st' = cs_last st \<Longrightarrow> cs_saw st' = cs_saw st \<Longrightarrow>
     chain_loop e opts i evs st' = (chain_loop e opts i evs st)
       \<lparr>cs_result := (cs_result (chain_loop e opts i evs st))\<lparr>cv_total_events := n\<rparr>\<rparr>"
proof (induction evs arbitrary: i st st')
  case (Cons ev evs)
  have "cs_result (chain_step e opts i ev st') = (cs_result (chain_step e opts i ev st))\<lparr>cv_total_events := n\<rparr>"
    "cs_last (chain_step e opts i ev st') = cs_last (chain_step e opts i ev st)"
    "cs_saw (chain_step e opts i ev st') = cs_saw (chain_step e opts i ev st)"
    using Cons.prems by (auto simp: chain_step_def cv_fail_def check_hash_def check_link_def Let_def)
  from Cons.IH [OF this] show ?case by simp
qed (cases st, cases st', simp)

lemma downgrade_unseen:
  assumes "reads_own_lines (re_log (ve_base e))" "list_all entry_ok (evs @ [ev])" "\<not> vp_strict opts"
    and "log_passes opts (snd (verified_chain e (concat (map log_line evs))))"
    and "he_schema (hash_env_of (re_log (ve_base e))) ev" "\<not> is_chained ev"
  shows "log_passes opts (snd (verified_chain e (concat (map log_line (evs @ [ev])))))"
    and "cv_chained_events (snd (verified_chain e (concat (map log_line evs)))) > 0 \<Longrightarrow>
      \<not> cv_valid (verifyChain (hash_env_of (re_log (ve_base e))) plain_options (evs @ [ev]))"
proof -
  let ?h = "hash_env_of (re_log (ve_base e))"
  define st where "st = chain_loop ?h plain_options 0 evs (chain_state0 (length evs))"
  define st' where "st' = chain_loop ?h plain_options 0 evs (chain_state0 (Suc (length evs)))"
  have st': "st' = st\<lparr>cs_result := (cs_result st)\<lparr>cv_total_events := Suc (length evs)\<rparr>\<rparr>"
    unfolding st_def st'_def by (rule total_irrelevant) (simp_all add: chain_state0_def)
  note plain = plain_options_sel(2)
  have loop: "chain_loop ?h plain_options 0 (evs @ [ev]) (chain_state0 (length (evs @ [ev])))
      = chain_step ?h plain_options (length evs) ev st'"
    by (simp add: chain_loop_append st'_def)
  note a = verifyChain_counts [OF plain refl, of ?h "evs @ [ev]", unfolded loop]
    and b = verifyChain_counts [OF plain refl, of ?h evs, folded st_def]
  have "list_all entry_ok evs" using assms(2) by simp
  note ra = read_log(2) [OF assms(1,2)] and rb = read_log(2) [OF assms(1) this]
  show "log_passes opts (snd (verified_chain e (concat (map log_line (evs @ [ev])))))"
    using assms(3-6) unfolding ra rb
    by (simp add: log_passes_def a b chain_step_def st' Let_def)
  assume "cv_chained_events (snd (verified_chain e (concat (map log_line evs)))) > 0"
  then have "cs_saw st"
    using chain_loop_counts [of ?h plain_options 0 evs "chain_state0 (length evs)"]
      chain_loop_saw [of ?h plain_options 0 evs "chain_state0 (length evs)"]
    unfolding rb b st_def [symmetric] by (auto simp: chain_state0_def filter_empty_conv)
  then show "\<not> cv_valid (verifyChain ?h plain_options (evs @ [ev]))"
    using assms(5,6) by (simp add: a chain_step_def st' Let_def)
qed

text \<open>
  The oldest events can go: a log whose events were hashed and linked from the first on passes in
  the strict mode without its first events, and a seal that it matched says the same of what is
  left, although the seal states how many events there were.
\<close>

lemma chain_loop_passes:
  assumes "list_all (\<lambda>ev. he_schema e ev \<and> is_chained ev \<and> hash_matches e ev) evs" "links evs" "clean (cs_result st)"
    and "cs_saw st \<Longrightarrow> evs \<noteq> [] \<Longrightarrow> prev_hash (hd evs) = Some (cs_last st)"
  shows "clean (cs_result (chain_loop e opts i evs st))"
  using assms
proof (induction evs arbitrary: i st)
  case (Cons ev evs)
  let ?st = "chain_step e opts i ev st"
  have "clean (cs_result ?st)" "cs_last ?st = or_null (event_hash ev)"
    using Cons.prems by (auto simp: chain_step_def clean_def check_hash_def check_link_def Let_def)
  moreover have "links evs" "evs \<noteq> [] \<Longrightarrow> prev_hash (hd evs) = Some (or_null (event_hash ev))"
    using Cons.prems(2) by (cases evs; simp)+
  ultimately show ?case using Cons.IH [of ?st "Suc i"] Cons.prems(1) by simp
qed simp

lemma strict_log_passes:
  assumes "list_all (\<lambda>ev. he_schema e ev \<and> is_chained ev \<and> hash_matches e ev) evs" "links evs"
  shows "clean (verifyChain e plain_options evs)"
  using chain_loop_passes [OF assms, of "chain_state0 (length evs)" plain_options 0]
  by (simp add: clean_def verifyChain_counts [OF plain_options_sel(2) refl] chain_state0_def)

lemma tip_scan_skip:
  "list_all (\<lambda>ev. hash_matches h ev) as \<Longrightarrow> \<forall>a \<in> set as. event_hash a \<noteq> sealed \<Longrightarrow>
     tip_scan sealed (as @ bs) None k = tip_scan sealed bs None (k + length as)"
proof (induction as arbitrary: k)
  case (Cons a as)
  obtain t where "event_hash a = Some (JStr t)" "string_member a ''event_hash'' = Some t"
    using Cons.prems(1) by (auto simp: hash_matches_def event_hash_def string_member_def asString_def)
  with Cons show ?case by auto
qed simp

lemma tip_scan_shift:
  "tip_scan sealed evs found k = Inr (f, n) \<Longrightarrow>
     tip_scan sealed evs (map_option (\<lambda>i. i - d) found) (k - d) = Inr (map_option (\<lambda>i. i - d) f, n - d)"
  if "d \<le> k" "\<forall>i. found = Some i \<longrightarrow> d \<le> i" for d k
  using that
proof (induction sealed evs found k rule: tip_scan.induct)
  case (2 sealed ev evs found k)
  then show ?case
    by (auto simp: Suc_diff_le split: if_splits option.splits)
qed simp

lemma tip_scan_total:
  assumes "list_all (\<lambda>ev. hash_matches h ev) evs"
  shows "\<exists>f n. tip_scan sealed evs found k = Inr (f, n)"
  using assms
proof (induction evs arbitrary: found k)
  case (Cons ev evs)
  obtain t where "string_member ev ''event_hash'' = Some t"
    using Cons.prems by (auto simp: hash_matches_def event_hash_def string_member_def asString_def)
  with Cons show ?case by auto
qed simp

lemma oldest_events_unseen:
  assumes "list_all (\<lambda>ev. he_schema h ev \<and> is_chained ev \<and> hash_matches h ev) (as @ bs)" "links (as @ bs)"
    and "\<forall>a \<in> set as. event_hash a \<noteq> json_get seal ''tip_hash''"
  shows "clean (verifyChain h plain_options bs)"
    and "seal_verdict e bs m seal corrupt = seal_verdict e (as @ bs) m seal corrupt"
proof -
  show "clean (verifyChain h plain_options bs)"
    using assms(1) links_drop [OF assms(2)] by (intro strict_log_passes) auto
  let ?sealed = "json_get seal ''tip_hash''"
  have m: "list_all (\<lambda>ev. hash_matches h ev) as" "list_all (\<lambda>ev. hash_matches h ev) bs"
    using assms(1) by (auto simp: list_all_iff)
  obtain f n where t: "tip_scan ?sealed bs None (length as) = Inr (f, n)"
    using tip_scan_total [OF m(2)] by blast
  have "tip_scan ?sealed (as @ bs) None 0 = Inr (f, n)"
    using tip_scan_skip [OF m(1) assms(3)] t by simp
  moreover have "tip_scan ?sealed bs None 0 = Inr (map_option (\<lambda>i. i - length as) f, n - length as)"
    using tip_scan_shift [OF _ _ t, of "length as"] by simp
  moreover have "length as \<le> i" "n - length as + length as = n" if "f = Some i" for i
    using tip_scan_hashed [OF m(2) t] that by simp_all
  ultimately show "seal_verdict e bs m seal corrupt = seal_verdict e (as @ bs) m seal corrupt"
    by (cases f; cases "sealed_age e seal") (simp_all add: seal_verdict_def Let_def split: option.split)
qed

text \<open>\<open>--strict-attestation-file\<close> and \<open>--require-attestation-binding\<close> pass when the file is gone.\<close>

lemma deleted_attestation_passes:
  assumes "vf_read fs (path_or (vp_attestationFile opts) (ve_attestation_path e)) = None"
    and "\<not> vp_requireAttestation opts" "\<not> vp_requireSignedAttestation opts"
  shows "\<exists>at. runAttestationCheck e fs opts NoAge st = Inr at \<and> at_failure at = None"
  using assms by (auto simp: runAttestationCheck_def emptyAttestationResult_def)

text \<open>
  A quorum of anchors counts records, not anchors: the same record twice meets a quorum of two, and
  a quorum of zero is met by records that no witness confirms.
\<close>

lemma repeated_anchor_counts:
  assumes "wp_verified (proof_of e timeoutMs token record)"
  shows "rk_failure (checkRemoteWitnesses e [record, record] (Some 2) timeoutMs token) = None"
  using assms by (simp add: checkRemoteWitnesses_def Let_def)

lemma quorum_of_none:
  assumes "records \<noteq> []"
  shows "rk_failure (checkRemoteWitnesses e records (Some 0) timeoutMs token) = None"
  using assms by (simp add: checkRemoteWitnesses_def Let_def)

text \<open>A line that is null stops the verification, in the log and in the seal file.\<close>

lemma null_line_throws:
  "\<exists>x. find_tip (rev (evs @ [JNull])) = Inl x"
  "relay_parse (ve_base e) l = Some JNull \<Longrightarrow> \<exists>x. findLatestValidSeal (ve_base e) (ls @ [l]) = Inl x"
  by (simp_all add: findLatestValidSeal_def)

text \<open>
  \<open>--require-attestation\<close> alone is met by an artifact without a signature, whose digest anyone can
  compute: what it says is not protected.
\<close>

lemma unsigned_attestation_passes:
  assumes "vp_attestationCheck opts \<noteq> Some False" "vp_requireAttestation opts"
    and "\<not> vp_requireSignedAttestation opts" "\<not> vp_strictAttestationFile opts" "\<not> vp_requireAttestationBinding opts"
    and "vf_read fs (path_or (vp_attestationFile opts) (ve_attestation_path e)) = Some content"
    and "relay_parse (ve_base e) content = Some (JObj a)" "missing_field (JObj a) = Inr None"
    and "map_of a ''payload_hash'' = Some (JStr (hashAttestationPayload (re_sign (ve_base e)) (buildAttestationPayload a)))"
    and "map_of a ''signature'' = Some (JStr ''unsigned'')" "map_of a ''generated_at'' = Some (JStr t)"
    and "map_of a ''chain_tip_hash'' = None"
  shows "\<exists>at. runAttestationCheck e fs opts NoAge st = Inr at \<and> at_failure at = None \<and> at_valid at"
proof -
  have "\<not> claims_signature ''unsigned''" by code_simp
  with assms show ?thesis
    by (simp add: runAttestationCheck_def check_artifact_def js_text_def attestation_verdict_def binding_check_def
        emptyAttestationResult_def Let_def)
qed

end
