(* ===== verification/CommandLemmas.thy ===== *)
theory CommandLemmas
  imports SealCommand VerifyProperties
begin

text \<open>
  What the commands promise together: what the strict profile enforces, that the verification
  accepts the seal and the attestation that the commands write, and inputs on which they do less.
\<close>

section \<open>What the flags reach\<close>

text \<open>A configuration section that switches off none of what the strict profile requires.\<close>

definition strict_settings :: "string list" where
  "strict_settings =
    [''require_seal'', ''require_witness'', ''require_remote_witness_proof'', ''require_signed_attestation'',
     ''require_attestation_binding'', ''strict_attestation_file'']"

definition keeps_strict :: "json option \<Rightarrow> bool" where
  "keeps_strict vc \<longleftrightarrow> (case vc of None \<Rightarrow> True | Some v \<Rightarrow> list_all (\<lambda>k. set_bool v k True) strict_settings)"

lemma strict_resolved:
  assumes "fl_profile f = Some ''strict''" "keeps_strict (json_get (lc_config cfg) ''verify'')"
    and "fl_sealCheck f" "fl_witnessCheck f" "fl_remoteWitnessCheck f" "fl_attestationCheck f"
  shows "rp_profile (resolveVerifyDefaults f cfg) = ''strict''"
    and "rp_validation (resolveVerifyDefaults f cfg) = lc_validation cfg"
    and "d = rp_defaults (resolveVerifyDefaults f cfg) \<Longrightarrow>
      vd_requireSeal d \<and> vd_requireWitness d \<and> vd_requireRemoteWitnessProof d
      \<and> vd_requireSignedAttestation d \<and> vd_requireAttestationBinding d \<and> vd_strictAttestationFile d"
proof -
  have n: "path_or (fl_profile f) x = ''strict''" for x
    by (simp add: assms(1) path_or_def)
  show "rp_profile (resolveVerifyDefaults f cfg) = ''strict''"
    "rp_validation (resolveVerifyDefaults f cfg) = lc_validation cfg"
    by (simp_all add: resolveVerifyDefaults_def n Let_def)
  show "vd_requireSeal d \<and> vd_requireWitness d \<and> vd_requireRemoteWitnessProof d
      \<and> vd_requireSignedAttestation d \<and> vd_requireAttestationBinding d \<and> vd_strictAttestationFile d"
    if "d = rp_defaults (resolveVerifyDefaults f cfg)"
    using that assms(2-6)
    by (cases "json_get (lc_config cfg) ''verify''")
      (auto simp: resolveVerifyDefaults_def n Let_def apply_profile_def apply_config_def apply_flags_def
         apply_disabled_def keeps_strict_def strict_settings_def)
qed

lemma exited_zero:
  assumes "exit_code (verifyCommand e fs ce cwd f) = 0" "\<not> fl_showEffectivePolicy f"
    and "rp_profile (resolveVerifyDefaults f (loadConfig ce (Some cwd))) = ''strict''"
  obtains w r where "verifyCommand e fs ce cwd f = Inr (Reported w r)" "vr_pass r"
    "rp_validation (resolveVerifyDefaults f (loadConfig ce (Some cwd))) = None"
    "runVerification e fs (verify_engine_options f (rp_defaults (resolveVerifyDefaults f (loadConfig ce (Some cwd))))) = Inr r"
proof -
  let ?p = "resolveVerifyDefaults f (loadConfig ce (Some cwd))"
  have v: "rp_validation ?p = None"
    using assms by (cases "rp_validation ?p") (simp_all add: verifyCommand_def exit_code_def Let_def)
  obtain r where r: "runVerification e fs (verify_engine_options f (rp_defaults ?p)) = Inr r"
    using assms v by (cases "runVerification e fs (verify_engine_options f (rp_defaults ?p))")
      (simp_all add: verifyCommand_def exit_code_def Let_def)
  have "verifyCommand e fs ce cwd f = Inr (Reported None r) \<and> vr_pass r"
    using assms v r by (cases "str_or (vr_error r) None")
      (auto simp: verifyCommand_def exit_code_def Let_def split: if_splits)
  with that v r show thesis by blast
qed

section \<open>What the checks accept\<close>

lemma witness_accepted:
  assumes "wk_checked w \<longrightarrow> wk_failure w = None" "w = runWitnessCheck e fs opts t m"
    and "vp_requireWitness opts" "vp_witnessCheck opts \<noteq> Some False"
  shows "wk_matching w > 0"
proof -
  obtain content where c: "vf_read fs (path_or (vp_witnessFile opts) (ve_witnesses_path e)) = Some content"
    "content_lines content \<noteq> []"
    using assms by (cases "vf_read fs (path_or (vp_witnessFile opts) (ve_witnesses_path e))")
      (auto simp: runWitnessCheck_def Let_def split: if_splits)
  obtain valid corrupt where v: "witness_records (ve_base e) (content_lines content) = (valid, corrupt)" by fastforce
  have "w = witness_verdict e opts t m valid corrupt"
    using assms c by (auto simp: runWitnessCheck_def Let_def v split: if_splits)
  with assms(1,3) show ?thesis
    by (auto simp: witness_verdict_def Let_def split: if_splits)
qed

lemma remote_accepted:
  assumes "rk_failure (runRemoteWitnessCheck e fs opts t) = None"
  shows "rk_quorum_met (runRemoteWitnessCheck e fs opts t)"
  using assms
  by (auto simp: runRemoteWitnessCheck_def checkRemoteWitnesses_def Let_def split: option.splits if_splits)

lemma remote_checked: "rk_checked (runRemoteWitnessCheck e fs opts t)"
  by (auto simp: runRemoteWitnessCheck_def checkRemoteWitnesses_def Let_def split: option.splits)

lemma binding_matches:
  assumes "binding_check opts a st r = Inr at" "at_failure at = None" "vp_requireAttestationBinding opts"
  shows "at_matches at \<and> at_signed at = at_signed r \<and> at_signature_valid at = at_signature_valid r"
  using assms by (auto simp: binding_check_def Let_def result_simps split: if_splits)

lemma verdict_matches:
  assumes "attestation_verdict opts m a st signed valid age = Inr at" "at_failure at = None"
    and "vp_requireSignedAttestation opts" "vp_requireAttestationBinding opts"
  shows "at_matches at \<and> at_signed at \<and> at_signature_valid at"
  using assms binding_matches [OF _ assms(2,4)]
  by (fastforce simp: attestation_verdict_def Let_def split: if_splits)

lemma artifact_matches:
  assumes "check_artifact e fs opts m st a = Inr at" "at_failure at = None"
    and "vp_requireSignedAttestation opts" "vp_requireAttestationBinding opts"
  shows "at_matches at \<and> at_signed at \<and> at_signature_valid at"
proof -
  have "attestation_failed x \<noteq> at" for x using assms(2) by (auto simp: attestation_failed_def)
  with assms(1) verdict_matches [OF _ assms(2-4)] show ?thesis
    by (fastforce simp: check_artifact_def Let_def result_simps split: if_splits)
qed

lemma passed_parts:
  assumes "runVerification e fs opts = Inr r" "vr_pass r"
  obtains tip where
    "vr_witness r = runWitnessCheck e fs opts tip (parsePositiveIntAge (vp_maxWitnessAgeSeconds opts))"
    "wk_checked (vr_witness r) \<longrightarrow> wk_failure (vr_witness r) = None"
    "\<not> vp_noRemoteWitnessCheck opts \<and> vp_requireRemoteWitnessProof opts \<longrightarrow>
       vr_remote r = runRemoteWitnessCheck e fs opts tip"
    "rk_checked (vr_remote r) \<longrightarrow> rk_failure (vr_remote r) = None"
proof -
  obtain content where "vf_read fs (path_or (vp_file opts) (ve_events_path e)) = Some content"
    and v: "\<exists>paths. verify_log e fs opts (parsePositiveIntAge (vp_maxSealAgeSeconds opts))
      (parsePositiveIntAge (vp_maxWitnessAgeSeconds opts)) (parsePositiveIntAge (vp_maxAttestationAgeSeconds opts)) paths content = Inr r"
    using assms by (auto simp: runVerification_def emptyResult_def Let_def split: if_splits option.splits)
  obtain events c where "verified_chain e content = (events, c)" by fastforce
  with v assms(2) that show thesis
    by (auto simp: verify_log_def Let_def result_simps)
qed

section \<open>A seal that the command writes\<close>

lemma split_on_at: "split_on d (a @ d # b) = split_on d a @ split_on d b"
proof (induction a)
  case (Cons c a)
  then show ?case by (cases "split_on d a") auto
qed simp

text \<open>A file whose last line is complete.\<close>

definition ends_line :: "string \<Rightarrow> bool" where
  "ends_line s \<longleftrightarrow> s = [] \<or> last s = newline"

lemma lines_after:
  assumes "ends_line old"
  shows "content_lines (old @ log_line v) = content_lines old @ [stringify v]"
proof -
  have l: "content_lines (log_line v) = [stringify v]"
    using content_lines_log [of "[v]"] by simp
  show ?thesis
  proof (cases "old = []")
    case True
    then show ?thesis by (simp add: l) (simp add: content_lines_def trim_def)
  next
    case False
    with assms obtain a where a: "old = a @ [newline]"
      by (metis append_butlast_last_id ends_line_def)
    have "content_lines (a @ newline # b) = content_lines a @ content_lines b" for b
      by (simp add: content_lines_def split_on_at)
    moreover have "content_lines [] = []" by (simp add: content_lines_def trim_def)
    ultimately show ?thesis using l by (simp add: a)
  qed
qed

lemma str_or_some: "str_or v None = Some t \<Longrightarrow> v = Some t \<and> t \<noteq> []"
  by (cases "(v, None :: string option)" rule: str_or.cases) auto

lemma find_tip_member:
  "find_tip evs = Inr (Some t) \<Longrightarrow> \<exists>ev \<in> set evs. string_member ev ''event_hash'' = Some t"
  by (induction evs) (auto split: if_splits option.splits)

lemma tip_scan_finds:
  assumes "JNull \<notin> set evs" "found \<noteq> None \<or> (\<exists>ev \<in> set evs. string_member ev ''event_hash'' = Some t)"
  shows "\<exists>i n. tip_scan (Some (JStr t)) evs found k = Inr (Some i, n)"
  using assms
proof (induction evs arbitrary: found k)
  case (Cons ev evs)
  show ?case
  proof (cases "string_member ev ''event_hash''")
    case None
    with Cons show ?thesis by auto
  next
    case (Some h)
    let ?g = "if found = None \<and> h = t then Some k else found"
    have "\<exists>i n. tip_scan (Some (JStr t)) evs ?g (Suc k) = Inr (Some i, n)"
      using Cons.prems Some by (intro Cons.IH) auto
    with Some Cons.prems show ?thesis by auto
  qed
qed auto

lemma seal_payload_new:
  "seal_payload_of (new_seal at th n sig keyId) = computeSealPayload th (int n) at"
  by (simp add: seal_payload_of_def new_seal_def js_text_def)

lemma payload_shapes:
  assumes "computeSealPayload th n at = Inr p"
  shows "th \<noteq> []" "at \<noteq> []"
  using assms by (auto simp: computeSealPayload_def TIP_HASH_RE_def SEALED_AT_RE_def fits_def split: if_splits)

lemma new_seal_plain: "plain_json (new_seal at th n sig keyId)"
  by (cases keyId rule: option.exhaust; simp add: new_seal_def member_names split: option.split)

text \<open>What the command did when it sealed.\<close>

lemma sealed:
  assumes "sealCommand e cm lock pid f l fs = (l', fs', Inr (Some seal))"
  obtains content events c tip fs1 key keyId payload old where
    "vf_read fs (path_or (fl_file f) (ve_events_path e)) = Some content"
    "verified_chain e content = (events, c)" "find_tip (rev events) = Inr (Some tip)"
    "seal_command_key e cm f fs = (fs1, Inr (key, keyId))"
    "computeSealPayload tip (int (cv_chained_events c)) (cm_iso cm) = Inr payload"
    "seal = new_seal (cm_iso cm) tip (cv_chained_events c) (signSeal (re_sign (ve_base e)) payload key) keyId"
    "old = (case vf_read fs1 (path_or (fl_sealFile f) (ve_seals_path e)) of None \<Rightarrow> [] | Some t \<Rightarrow> t)"
    "vf_read fs' = (vf_read fs1)(path_or (fl_sealFile f) (ve_seals_path e) \<mapsto> old @ log_line seal)"
    "vf_keyring fs' = vf_keyring fs1"
proof -
  let ?sp = "path_or (fl_sealFile f) (ve_seals_path e)"
  obtain content where content: "vf_read fs (path_or (fl_file f) (ve_events_path e)) = Some content"
    using assms by (auto simp: sealCommand_def Let_def split: option.splits)
  obtain events c where chain: "verified_chain e content = (events, c)" by fastforce
  obtain t tip where t: "find_tip (rev events) = Inr t" "str_or t None = Some tip"
    using assms by (auto simp: sealCommand_def Let_def content chain split: if_splits sum.splits option.splits)
  then have t': "t = Some tip" using str_or_some by blast
  obtain fs1 k where k: "seal_command_key e cm f fs = (fs1, k)" by fastforce
  have step: "(case bind_result k (\<lambda>(k, keyId).
          bind_result (computeSealPayload tip (int (cv_chained_events c)) (cm_iso cm)) (\<lambda>payload.
            Inr (new_seal (cm_iso cm) tip (cv_chained_events c) (signSeal (re_sign (ve_base e)) payload k) keyId))) of
        Inl x \<Rightarrow> (l, fs1, Inl x)
      | Inr seal \<Rightarrow> withSealLock lock pid (append_seal cm ?sp seal) l (ensureSealFile ?sp fs1)) = (l', fs', Inr (Some seal))"
    using assms by (auto simp: sealCommand_def Let_def content chain t k split: if_splits)
  obtain key keyId payload where p: "k = Inr (key, keyId)"
    "computeSealPayload tip (int (cv_chained_events c)) (cm_iso cm) = Inr payload"
    using step by (cases k; cases "computeSealPayload tip (int (cv_chained_events c)) (cm_iso cm)") auto
  let ?seal = "new_seal (cm_iso cm) tip (cv_chained_events c) (signSeal (re_sign (ve_base e)) payload key) keyId"
  have w: "append_seal cm ?sp ?seal (ensureSealFile ?sp fs1) = (fs', Inr (Some seal))"
    using step by (auto simp: p withSealLock_def Let_def split: sum.splits prod.splits)
  then have "seal = ?seal"
    "vf_read fs' = (vf_read fs1)(?sp \<mapsto> (case vf_read fs1 ?sp of None \<Rightarrow> [] | Some t \<Rightarrow> t) @ log_line seal)"
    "vf_keyring fs' = vf_keyring fs1"
    by (auto simp: append_seal_def ensureSealFile_def append_text_def split: option.splits)
  with that content chain t t' k p show thesis by blast
qed


lemma key_found:
  assumes "seal_command_key e cm f fs = (fs1, Inr (key, keyId))" "hex_digest (re_sign (ve_base e))"
  obtains "keyId = None" "vf_read fs1 (path_or (fl_keyFile f) (ve_seal_key_path e)) = Some key" "truthy (fl_keyFile f)"
  | k where "keyId = Some k" "k \<noteq> []"
    "loadKeyById (vf_keyring fs1 (path_or (fl_keyringDir f) (ve_keyring_dir e))) k = Inr key"
proof (cases "str_or (fl_keyFile f) None")
  case (Some path)
  have p: "path_or (fl_keyFile f) x = path" for x by (simp add: path_or_def Some)
  have "truthy (fl_keyFile f)" using Some by (simp add: truthy_str_or)
  moreover have "keyId = None" "vf_read fs1 path = Some key"
    using assms(1) by (auto simp: seal_command_key_def Some ensureSealKey_def Let_def split: option.splits)
  ultimately show thesis using that(1) by (simp add: p)
next
  case None
  let ?dir = "path_or (fl_keyringDir f) (ve_keyring_dir e)"
  let ?r = "ensureKeyring (re_sign (ve_base e)) (cm_random cm) (vf_keyring fs ?dir)"
  obtain k where r: "snd ?r = Inr (k, key)" "keyId = Some k" and fs1: "vf_keyring fs1 ?dir = fst ?r"
    using assms(1) by (auto simp: seal_command_key_def None Let_def result_simps)
  have l: "loadKeyById (fst ?r) k = Inr key"
    using ensure_loads [OF assms(2), of "cm_random cm" "vf_keyring fs ?dir" "fst ?r" k key] r(1)
    by (metis prod.collapse)
  then have "k \<noteq> []" by (auto simp: loadKeyById_def KEY_ID_RE_def split: if_splits)
  with that(2) l r fs1 show thesis by simp
qed

text \<open>The seal in force: its line is the last, its key is there, its signature and its date are good.\<close>

lemma seal_passes:
  assumes "vf_read fs (path_or (vp_sealFile opts) (ve_seals_path e)) = Some (old @ log_line seal)" "ends_line old"
    and "reads_own_lines (re_log (ve_base e))"
    and "seal = new_seal at th n (signSeal (re_sign (ve_base e)) payload key) keyId"
    and "computeSealPayload th (int n) at = Inr payload" "seal_key e fs opts seal = Inr (Inr key)"
    and "JNull \<notin> set events" "\<exists>ev \<in> set events. string_member ev ''event_hash'' = Some th"
    and "\<forall>t. re_date (ve_base e) at = Some t \<longrightarrow> \<not> exceeds (age_seconds e t) m" "vp_sealCheck opts \<noteq> Some False"
  shows "\<exists>sc. runSealCheck e fs opts events m = Inr sc \<and> sc_valid sc \<and> sc_tip_match sc \<and> sc_failure sc = None"
proof -
  have lines: "content_lines (old @ log_line seal) = content_lines old @ [stringify seal]"
    by (rule lines_after [OF assms(2)])
  have parse: "relay_parse (ve_base e) (stringify seal) = Some seal"
    using assms(3) new_seal_plain assms(4) by (auto simp: reads_own_lines_def relay_parse_def)
  have get: "json_get seal ''sealed_at'' = Some (JStr at)" "json_get seal ''tip_hash'' = Some (JStr th)"
    "json_get seal ''chained_events'' = Some (JNum (int n))"
    "json_get seal ''signature'' = Some (JStr (signSeal (re_sign (ve_base e)) payload key))" "seal \<noteq> JNull"
    by (simp_all add: assms(4) new_seal_def)
  have "signSeal (re_sign (ve_base e)) payload key \<noteq> []" by (simp add: signSeal_def)
  then have "is_seal_record seal"
    using payload_shapes [OF assms(5)] by (simp add: is_seal_record_def get)
  then have scan: "findLatestValidSeal (ve_base e) (content_lines old @ [stringify seal]) = Inr (Some seal, 0)"
    by (simp add: findLatestValidSeal_def parse get(5))
  have verify: "verify_any (ve_base e) payload (JStr (signSeal (re_sign (ve_base e)) payload key)) key = Inr True"
    by (simp add: verify_any_def verifySeal_iff Let_def)
  have payload: "seal_payload_of seal = Inr payload"
    by (simp add: assms(4,5) seal_payload_new)
  have run: "runSealCheck e fs opts events m = seal_verdict e events m seal 0"
    using assms(1,10) by (simp add: runSealCheck_def lines scan assms(6) payload get(4) verify)
  obtain i k where t: "tip_scan (Some (JStr th)) events None 0 = Inr (Some i, k)"
    using tip_scan_finds [OF assms(7)] assms(8) by blast
  have age: "sealed_age e seal = Inr (map_option (age_seconds e) (re_date (ve_base e) at))"
    by (simp add: sealed_age_def get date_ms_def)
  show ?thesis unfolding run
    using assms(9) by (cases "re_date (ve_base e) at")
      (simp_all add: seal_verdict_def get t age no_seal_check_def Let_def)
qed

section \<open>An attestation that the command writes\<close>

lemma tip_scan_text: "tip_scan sealed evs None k = Inr (Some i, n) \<Longrightarrow> \<exists>h. sealed = Some (JStr h)"
  by (induction sealed evs "None :: nat option" k rule: tip_scan.induct)
    (auto split: if_splits option.splits)

lemma seal_tip_text:
  assumes "runSealCheck e fs opts events m = Inr sc" "sc_failure sc = None" "vp_sealCheck opts \<noteq> Some False"
  shows "sc_tip_hash sc = None \<or> (\<exists>h. sc_tip_hash sc = Some (JStr h))"
proof (cases "vf_read fs (path_or (vp_sealFile opts) (ve_seals_path e))")
  case None
  with assms show ?thesis by (auto simp: runSealCheck_def no_seal_check_def)
next
  case (Some content)
  obtain seal corrupt where "seal_verdict e events m seal corrupt = Inr sc"
    by (rule seal_file_accepted [OF assms(1-3) Some])
  then show ?thesis using assms(2) tip_scan_text verdict_accepted by metis
qed

lemma signed_payload:
  "buildAttestationPayload (signed_artifact sg (artifact_members cm r) key) = buildAttestationPayload (artifact_members cm r)"
  unfolding payload_eq_iff
  by (subst (1 2) attested_only)
    (simp add: signed_artifact_def artifact_members_def EXCLUDED_FIELDS_def Let_def split: option.split)

lemma signed_members:
  assumes "a = signed_artifact sg (artifact_members cm r) (Some (Some i, k))"
  shows "map_of a ''payload_hash'' = Some (JStr (hashAttestationPayload sg (buildAttestationPayload (artifact_members cm r))))"
    and "map_of a ''signature'' = Some (JStr (signAttestation sg (buildAttestationPayload (artifact_members cm r)) k))"
    and "map_of a ''key_id'' = Some (JStr i)" "map_of a ''generated_at'' = Some (JStr (cm_iso cm))"
    and "map_of a ''chain_tip_hash'' = Some (nullable_str (vr_tip r))"
    and "map_of a ''chain_chained_events'' = Some (JNum (int (cv_chained_events (vr_chain r))))"
    and "map_of a ''seal_tip_hash'' = Some (json_or_null (sc_tip_hash (vr_seal r)))"
    and "map_of a ''witness_latest_matching_tip_hash''
      = Some (if wk_matching (vr_witness r) > 0 then nullable_str (vr_tip r) else JNull)"
    and "missing_field (JObj a) = Inr None" "map_of a ''pass'' = Some (JBool (vr_pass r))"
  by (simp_all add: assms signed_artifact_def artifact_members_def Let_def missing_field_def
      REQUIRED_ATTESTATION_FIELDS_def json_count_def)

text \<open>Bound to the state it was made of, it matches.\<close>

lemma own_mismatches:
  assumes "a = signed_artifact sg (artifact_members cm r) (Some (Some i, k))"
    and "sc_tip_hash (vr_seal r) = None \<or> (\<exists>h. sc_tip_hash (vr_seal r) = Some (JStr h))"
  shows "mismatches a (state_of (vr_tip r) (vr_chain r) (vr_seal r) (vr_witness r)) = Inr []"
proof -
  note m = signed_members [OF assms(1)]
  have t: "tip_mismatch n (Some (nullable_str t)) (map_option JStr t) = Inr []" for n t
    by (simp only: tip_mismatch_none same_tip)
  have s: "tip_mismatch n (Some (json_or_null (sc_tip_hash (vr_seal r)))) (sc_tip_hash (vr_seal r)) = Inr []" for n
    using assms(2) by (auto simp: tip_mismatch_none same_value_def json_or_null_def)
  have w: "tip_mismatch n (Some (if wk_matching (vr_witness r) > 0 then nullable_str (vr_tip r) else JNull))
      (map_option JStr (if wk_matching (vr_witness r) > 0 then vr_tip r else None)) = Inr []" for n
    using t [of n "vr_tip r"] t [of n None] by (simp add: nullable_str_def)
  show ?thesis
    by (simp add: mismatches_def m state_of_def t s w count_mismatch_none [THEN iffD2])
qed

lemma own_attestation_passes:
  assumes "a = signed_artifact (re_sign (ve_base e)) (artifact_members cm r) (Some (Some i, k))"
    and "sc_tip_hash (vr_seal r) = None \<or> (\<exists>h. sc_tip_hash (vr_seal r) = Some (JStr h))"
    and "vf_read fs (path_or (vp_attestationFile opts) (ve_attestation_path e)) = Some content"
    and "relay_parse (ve_base e) content = Some (JObj a)"
    and "loadKeyById (vf_keyring fs (path_or (vp_keyringDir opts) (ve_keyring_dir e))) i = Inr k" "i \<noteq> []"
    and "vp_attestationCheck opts \<noteq> Some False" "vp_requireSignedAttestation opts" "vr_pass r"
  shows "\<exists>at. runAttestationCheck e fs opts NoAge (state_of (vr_tip r) (vr_chain r) (vr_seal r) (vr_witness r)) = Inr at
    \<and> at_failure at = None \<and> at_signed at \<and> at_signature_valid at \<and> at_matches at"
proof -
  note m = signed_members [OF assms(1)]
  have p: "buildAttestationPayload a = buildAttestationPayload (artifact_members cm r)"
    by (simp add: assms(1) signed_payload)
  have key: "attestation_key e fs opts a = Some k"
    using assms(5,6) by (simp add: attestation_key_def m(3))
  have sig: "claims_signature (signAttestation sg x k)" for sg x
    by (simp add: claims_signature_def signAttestation_def starts_with_iff)
  have run: "runAttestationCheck e fs opts NoAge st = check_artifact e fs opts NoAge st a" for st
    using assms(7,8) by (simp add: runAttestationCheck_def assms(3,4) m(9))
  show ?thesis unfolding run
    using assms(8,9) own_mismatches [OF assms(1,2)]
    by (simp add: check_artifact_def p m(1-8,10) key sig js_text_def verifyAttestation_iff attestation_verdict_def
        binding_check_def emptyAttestationResult_def Let_def)
qed


text \<open>A verification that reads the same files and has the same options but for the attestation.\<close>

lemma same_checks:
  assumes "\<forall>p \<in> {path_or (vp_sealFile opts) (ve_seals_path e), path_or (vp_keyFile opts) (ve_seal_key_path e),
        path_or (vp_witnessFile opts) (ve_witnesses_path e)}. vf_read fs' p = vf_read fs p"
    and "vf_keyring fs' = vf_keyring fs"
    and "opts' = opts\<lparr>vp_attestationFile := x, vp_requireSignedAttestation := b, vp_requireAttestationBinding := b'\<rparr>"
  shows "runSealCheck e fs' opts' events m = runSealCheck e fs opts events m"
    and "runWitnessCheck e fs' opts' t m = runWitnessCheck e fs opts t m"
proof -
  have "seal_key e fs' opts' seal = seal_key e fs opts seal" for seal
    using assms by (simp add: seal_key_def Let_def cong: option.case_cong)
  with assms show "runSealCheck e fs' opts' events m = runSealCheck e fs opts events m"
    by (simp add: runSealCheck_def cong: option.case_cong if_cong)
  show "runWitnessCheck e fs' opts' t m = runWitnessCheck e fs opts t m"
    using assms by (simp add: runWitnessCheck_def witness_verdict_def Let_def cong: option.case_cong if_cong)
qed

definition binding_required :: "string option \<Rightarrow> engine_options \<Rightarrow> engine_options" where
  "binding_required out opts = opts\<lparr>vp_attestationFile := out, vp_requireSignedAttestation := True,
     vp_requireAttestationBinding := True\<rparr>"

lemma verified_again:
  assumes run: "runVerification e fs opts = Inr r" "vr_pass r"
    and opts: "vp_sealCheck opts = None" "vp_attestationCheck opts = None"
      "\<not> vp_requireRemoteWitnessProof opts" "vp_maxAttestationAgeSeconds opts = None"
    and files: "\<forall>p \<in> {path_or (vp_file opts) (ve_events_path e), path_or (vp_sealFile opts) (ve_seals_path e),
        path_or (vp_keyFile opts) (ve_seal_key_path e), path_or (vp_witnessFile opts) (ve_witnesses_path e)}.
        vf_read fs' p = vf_read fs p" "vf_keyring fs' = vf_keyring fs"
    and a: "a = signed_artifact (re_sign (ve_base e)) (artifact_members cm r) (Some (Some i, k))"
      "vf_read fs' (path_or out (ve_attestation_path e)) = Some text" "relay_parse (ve_base e) text = Some (JObj a)"
      "loadKeyById (vf_keyring fs (path_or (vp_keyringDir opts) (ve_keyring_dir e))) i = Inr k" "i \<noteq> []"
  shows "\<exists>r'. runVerification e fs' (binding_required out opts) = Inr r' \<and> vr_pass r'
    \<and> at_signed (vr_attestation r') \<and> at_signature_valid (vr_attestation r') \<and> at_matches (vr_attestation r')"
proof -
  let ?opts = "binding_required out opts"
  obtain content where content: "vf_read fs (path_or (vp_file opts) (ve_events_path e)) = Some content"
    and ages: "parsePositiveIntAge (vp_maxSealAgeSeconds opts) \<noteq> InvalidAge"
      "parsePositiveIntAge (vp_maxWitnessAgeSeconds opts) \<noteq> InvalidAge"
    and v: "\<exists>paths. verify_log e fs opts (parsePositiveIntAge (vp_maxSealAgeSeconds opts))
      (parsePositiveIntAge (vp_maxWitnessAgeSeconds opts)) (parsePositiveIntAge (vp_maxAttestationAgeSeconds opts)) paths content = Inr r"
    using run by (auto simp: runVerification_def emptyResult_def Let_def split: if_splits option.splits)
  obtain events c where chain: "verified_chain e content = (events, c)" by fastforce
  from v run(2) obtain seal t w where s: "runSealCheck e fs opts events (parsePositiveIntAge (vp_maxSealAgeSeconds opts)) = Inr seal"
    and t: "find_tip (rev events) = Inr t"
    and w: "w = runWitnessCheck e fs opts t (parsePositiveIntAge (vp_maxWitnessAgeSeconds opts))"
    and pass: "log_passes opts c" "sc_checked seal \<longrightarrow> sc_failure seal = None" "wk_checked w \<longrightarrow> wk_failure w = None"
    and r: "vr_chain r = c" "vr_seal r = seal" "vr_tip r = t" "vr_witness r = w"
    by (auto simp: verify_log_def chain Let_def result_simps)
  have "sc_failure seal = None" using pass(2) seal_run_checked [OF s] opts(1) by simp
  then have tip_text: "sc_tip_hash (vr_seal r) = None \<or> (\<exists>h. sc_tip_hash (vr_seal r) = Some (JStr h))"
    using seal_tip_text [OF s] opts(1) r by simp
  have "\<exists>at. runAttestationCheck e fs' ?opts NoAge (state_of (vr_tip r) (vr_chain r) (vr_seal r) (vr_witness r)) = Inr at
    \<and> at_failure at = None \<and> at_signed at \<and> at_signature_valid at \<and> at_matches at"
    by (rule own_attestation_passes [OF a(1) tip_text _ a(3) _ a(5)])
      (use opts a files run(2) in \<open>simp_all add: binding_required_def\<close>)
  then obtain at where at: "runAttestationCheck e fs' ?opts NoAge (state_of t c seal w) = Inr at"
    "at_failure at = None" "at_signed at" "at_signature_valid at" "at_matches at"
    by (auto simp: r)
  have f3: "\<forall>p \<in> {path_or (vp_sealFile opts) (ve_seals_path e), path_or (vp_keyFile opts) (ve_seal_key_path e),
      path_or (vp_witnessFile opts) (ve_witnesses_path e)}. vf_read fs' p = vf_read fs p" using files(1) by simp
  note same = same_checks [OF f3 files(2) binding_required_def]
  have log: "log_passes ?opts c" using pass(1) by (simp add: log_passes_def binding_required_def)
  have sel: "vp_file ?opts = vp_file opts" "vp_maxSealAgeSeconds ?opts = vp_maxSealAgeSeconds opts"
    "vp_maxWitnessAgeSeconds ?opts = vp_maxWitnessAgeSeconds opts" "vp_maxAttestationAgeSeconds ?opts = None"
    "\<not> vp_requireRemoteWitnessProof ?opts"
    using opts by (simp_all add: binding_required_def)
  have read: "vf_read fs' (path_or (vp_file opts) (ve_events_path e)) = Some content" using files(1) content by simp
  have no_age: "parsePositiveIntAge None = NoAge" by (simp add: parsePositiveIntAge_def)
  show ?thesis
    using log pass(2,3) at(2-5) ages
    by (simp add: runVerification_def verify_log_def Let_def sel read chain same s t no_age w [symmetric] at(1)
        emptyRemoteWitnessResult_def)
qed

section \<open>Where the commands do less\<close>

text \<open>
  A configuration whose types are wrong anywhere is dropped as a whole, its profile with it: a strict
  project with a threshold in quotes is verified like one without a configuration.
\<close>

definition mistyped_config :: json where
  "mistyped_config = JObj [(''verify'', JObj [(''profile'', JStr ''strict''), (''max_seal_age_seconds'', JStr ''300'')])]"

lemma mistyped_config_drops_profile:
  assumes "cf_file ce (path_join [cwd, ''.patchwork'', ''config.yml'']) = Some (Some content)"
    and "cf_yaml ce content = Some mistyped_config" "cwd \<noteq> []"
    and "fl_profile f = None" "\<not> fl_showEffectivePolicy f"
  shows "rp_profile (resolveVerifyDefaults f (loadConfig ce (Some cwd))) = ''baseline''"
    and "verifyCommand e fs ce cwd f \<noteq> Inr (ConfigRejected m)"
proof -
  have p: "PatchworkConfigSchemaBase mistyped_config = None" "is_object mistyped_config"
    by code_simp+
  have "str_or (Some cwd) None = Some cwd" using assms(3) by (cases cwd) simp_all
  then have c: "lc_config (loadConfig ce (Some cwd)) = JObj []"
    using assms(1,2) by (simp add: loadConfig_def parseConfigFile_def p Let_def)
  have "path_or None d = d" for d by (simp add: path_or_def)
  then show b: "rp_profile (resolveVerifyDefaults f (loadConfig ce (Some cwd))) = ''baseline''"
    by (simp add: resolveVerifyDefaults_def Let_def c assms(4))
  show "verifyCommand e fs ce cwd f \<noteq> Inr (ConfigRejected m)"
    using assms(5) by (auto simp: verifyCommand_def b Let_def result_simps split: option.splits)
qed

text \<open>A profile name that is none is the baseline, under the name that was given.\<close>

lemma misspelt_profile_is_baseline:
  assumes "fl_profile f = Some ''Strict''" "json_get (lc_config cfg) ''verify'' = None"
  shows "rp_profile (resolveVerifyDefaults f cfg) = ''Strict''"
    and "vd_requireSeal (rp_defaults (resolveVerifyDefaults f cfg)) \<longleftrightarrow> fl_requireSeal f \<and> fl_sealCheck f"
  using assms
  by (simp_all add: resolveVerifyDefaults_def path_or_def Let_def apply_profile_def apply_flags_def
      apply_disabled_def BASE_DEFAULTS_def)

text \<open>The attestation does not depend on what the policy requires of remote witnesses.\<close>

lemma attest_drops_remote:
  "attest_options f (d\<lparr>vd_requireRemoteWitnessProof := b\<rparr>) = attest_options f d"
  by (simp add: attest_options_def)

text \<open>
  The lock of the seal file: when every attempt finds a stale file and removes it, the loop ends
  without the lock and the critical section runs all the same.
\<close>

lemma stale_every_time:
  assumes "\<And>i. lv_open_error e i = None" "\<And>i l. lv_others e i l = Some f"
    and "\<And>i. isSealLockStale e (lv_clock e i) (Some f)"
  shows "\<exists>j l1. seal_acquire e pid n i l = (l1, Inr (False, j))"
  using assms by (induction n arbitrary: i l) (auto simp: Let_def)

lemma unlocked_critical_section:
  assumes "\<And>i. lv_open_error e i = None" "\<And>i l. lv_others e i l = Some f"
    and "\<And>i. isSealLockStale e (lv_clock e i) (Some f)"
  shows "withSealLock e pid fn l w = (None, fst (fn w), snd (fn w))"
proof -
  obtain j l1 where "seal_acquire e pid (Suc SEAL_LOCK_MAX_RETRIES) 0 l = (l1, Inr (False, j))"
    using stale_every_time [OF assms] by blast
  then show ?thesis by (simp add: withSealLock_def Let_def del: seal_acquire.simps)
qed

end
