(* ===== verification/CommandProperties.thy ===== *)
theory CommandProperties
  imports CommandLemmas
begin

text \<open>
  What the verification engine and the commands that feed it promise together: what a passing report
  says of the log and of the attestation, what the strict profile enforces, and that the verification
  accepts the seal and the attestation that the commands write.
\<close>

section \<open>A passing report\<close>

text \<open>
  C13: a sealed history cannot be rewritten: when two strict verifications that require a seal pass,
  at whatever times and with whatever files, keys and other options, and their seals name the same tip, then up to that
  tip the two logs say the same, event by event from the tip back, as far as the shorter one goes,
  unless two event texts collide under the digest.
\<close>

theorem sealed_history_kept:
  assumes "runVerification e fs opts = Inr r" "vr_pass r" "strict_sealed opts"
    and "runVerification e' fs' opts' = Inr r'" "vr_pass r'" "strict_sealed opts'"
    and "ve_base e' = ve_base e" "sc_tip_hash (vr_seal r') = sc_tip_hash (vr_seal r)"
    and "xs = sealed_part r (log_of e fs opts)" "ys = sealed_part r' (log_of e' fs' opts')"
    and "\<not> collision (hash_env_of (re_log (ve_base e))) (xs @ ys)"
  shows "xs \<noteq> [] \<and> ys \<noteq> []
    \<and> (suffix (map event_view xs) (map event_view ys) \<or> suffix (map event_view ys) (map event_view xs))"
proof -
  note x = sealed_part_ok [OF assms(1-3,9)] and y = sealed_part_ok [OF assms(4-6,10)]
  have c: "\<not> collision (hash_env_of (re_log (ve_base e))) (ys @ xs)"
    using assms(11) by (auto simp: collision_def)
  show ?thesis
    using x y assms(7,8,11) c
      same_tip_suffix [of xs ys "hash_env_of (re_log (ve_base e))"] same_tip_suffix [of ys xs "hash_env_of (re_log (ve_base e))"]
    by (cases "length xs \<le> length ys") auto
qed

text \<open>
  C14: a passing attestation is genuine: when a verification that requires a signed and bound
  attestation passes, the file holds a JSON object whose digest is that of what it says, whose
  signature is the keyed digest of what it says under the key that the keyring or the key file
  holds, and whose tip and number of events are those of the log that was read.
\<close>

theorem passing_attestation_genuine:
  assumes "runVerification e fs opts = Inr r" "vr_pass r" "vp_attestationCheck opts \<noteq> Some False"
    and "vp_requireSignedAttestation opts" "vp_requireAttestationBinding opts"
  shows "\<exists>content a key. vf_read fs (path_or (vp_attestationFile opts) (ve_attestation_path e)) = Some content
    \<and> relay_parse (ve_base e) content = Some (JObj a) \<and> attestation_key e fs opts a = Some key
    \<and> js_text (map_of a ''signature'') = Inr (signAttestation (re_sign (ve_base e)) (buildAttestationPayload a) key)
    \<and> map_of a ''payload_hash'' = Some (JStr (hashAttestationPayload (re_sign (ve_base e)) (buildAttestationPayload a)))
    \<and> map_of a ''chain_tip_hash'' = Some (nullable_str (vr_tip r))
    \<and> map_of a ''chain_chained_events'' = Some (JNum (int (cv_chained_events (vr_chain r))))"
proof -
  obtain seal tip c m at where at: "runAttestationCheck e fs opts m
      (state_of tip c seal (runWitnessCheck e fs opts tip (parsePositiveIntAge (vp_maxWitnessAgeSeconds opts)))) = Inr at"
    (is "runAttestationCheck e fs opts m ?st = _")
    "at_checked at \<longrightarrow> at_failure at = None" and r: "vr_chain r = c" "vr_tip r = tip"
    using passed [OF assms(1,2)] by metis
  have "at_failure at = None" using at attestation_checked [OF at(1) assms(3,4)] by simp
  note ok = attestation_accepted [OF at(1) this assms(3-5)] artifact_accepted [OF _ this assms(4,5)]
  obtain content a where a: "vf_read fs (path_or (vp_attestationFile opts) (ve_attestation_path e)) = Some content"
    "relay_parse (ve_base e) content = Some (JObj a)" "check_artifact e fs opts m ?st a = Inr at"
    by (rule ok(1))
  obtain key sig where k: "attestation_key e fs opts a = Some key" "js_text (map_of a ''signature'') = Inr sig"
    "sig = signAttestation (re_sign (ve_base e)) (buildAttestationPayload a) key"
    "map_of a ''payload_hash'' = Some (JStr (hashAttestationPayload (re_sign (ve_base e)) (buildAttestationPayload a)))"
    "mismatches a ?st = Inr []"
    by (rule ok(2) [OF a(3)])
  show ?thesis using a(1,2) k(1-4) mismatches_none [OF k(5)] by (simp add: r state_of_def)
qed

section \<open>The commands\<close>

text \<open>
  C12: the strict profile is enforced: when patchwork verify with the profile strict exits with 0 (and is
  not asked for its effective policy only), no check is switched off by a flag and the configuration
  file switches no setting of the profile off, then the
  configuration was valid and the report it printed has a valid seal whose tip is in the log, a
  witness record of the current tip, a quorum of remote anchors, and an attestation that is signed
  with a valid signature and matches the current state.
\<close>

theorem strict_profile_enforced:
  assumes "exit_code (verifyCommand e fs ce cwd f) = 0" "\<not> fl_showEffectivePolicy f"
    and "fl_profile f = Some ''strict''" "keeps_strict (json_get (lc_config (loadConfig ce (Some cwd))) ''verify'')"
    and "fl_sealCheck f" "fl_witnessCheck f" "fl_remoteWitnessCheck f" "fl_attestationCheck f"
  shows "lc_validation (loadConfig ce (Some cwd)) = None
    \<and> (\<exists>w r. verifyCommand e fs ce cwd f = Inr (Reported w r) \<and> sc_valid (vr_seal r) \<and> sc_tip_match (vr_seal r)
         \<and> wk_matching (vr_witness r) > 0 \<and> rk_quorum_met (vr_remote r)
         \<and> at_signed (vr_attestation r) \<and> at_signature_valid (vr_attestation r) \<and> at_matches (vr_attestation r))"
proof -
  note s = strict_resolved [OF assms(3-8)]
  let ?opts = "verify_engine_options f (rp_defaults (resolveVerifyDefaults f (loadConfig ce (Some cwd))))"
  obtain w r where cmd: "verifyCommand e fs ce cwd f = Inr (Reported w r)" and pass: "vr_pass r"
    and v: "lc_validation (loadConfig ce (Some cwd)) = None" and run: "runVerification e fs ?opts = Inr r"
    using exited_zero [OF assms(1,2) s(1)] s(2) by metis
  have o: "vp_requireSeal ?opts" "vp_requireWitness ?opts" "vp_requireRemoteWitnessProof ?opts"
    "vp_requireSignedAttestation ?opts" "vp_requireAttestationBinding ?opts" "\<not> vp_noRemoteWitnessCheck ?opts"
    "vp_sealCheck ?opts \<noteq> Some False" "vp_witnessCheck ?opts \<noteq> Some False" "vp_attestationCheck ?opts \<noteq> Some False"
    using s(3) [OF refl] assms(5-8) by (simp_all add: verify_engine_options_def)
  obtain content tip events c m st where seal: "runSealCheck e fs ?opts events m = Inr (vr_seal r)"
    "sc_checked (vr_seal r) \<longrightarrow> sc_failure (vr_seal r) = None"
    using passed [OF run pass] by metis
  obtain m' st where at: "runAttestationCheck e fs ?opts m' st = Inr (vr_attestation r)"
    "at_checked (vr_attestation r) \<longrightarrow> at_failure (vr_attestation r) = None"
    using passed [OF run pass] by metis
  have sf: "sc_failure (vr_seal r) = None"
    using seal(2) seal_run_checked [OF seal(1) o(7)] by simp
  have "sc_valid (vr_seal r)" "sc_tip_match (vr_seal r)"
    using seal_accepted [OF seal(1) sf o(7,1)] verdict_accepted [OF _ sf] by metis+
  moreover have "wk_matching (vr_witness r) > 0" "rk_quorum_met (vr_remote r)"
  proof -
    obtain t where p: "vr_witness r = runWitnessCheck e fs ?opts t (parsePositiveIntAge (vp_maxWitnessAgeSeconds ?opts))"
      "wk_checked (vr_witness r) \<longrightarrow> wk_failure (vr_witness r) = None"
      "vr_remote r = runRemoteWitnessCheck e fs ?opts t" "rk_checked (vr_remote r) \<longrightarrow> rk_failure (vr_remote r) = None"
      using passed_parts [OF run pass] o(3,6) by metis
    show "wk_matching (vr_witness r) > 0" by (rule witness_accepted [OF p(2,1) o(2,8)])
    show "rk_quorum_met (vr_remote r)" using remote_accepted remote_checked p(3,4) by metis
  qed
  moreover have "at_failure (vr_attestation r) = None"
    using at(2) attestation_checked [OF at(1) o(9,4)] by simp
  then have "at_matches (vr_attestation r) \<and> at_signed (vr_attestation r) \<and> at_signature_valid (vr_attestation r)"
    using attestation_accepted [OF at(1) _ o(9,4,5)] artifact_matches [OF _ _ o(4,5)] by metis
  ultimately show ?thesis using cmd v by blast
qed

text \<open>
  C15: a seal is accepted: after patchwork seal has written one, a verification with the same
  files accepts it, in the strict mode of the seal file too, as long as it is not too old and the
  log still holds the events that were sealed, whatever was appended since.
\<close>

theorem sealed_log_passes:
  assumes "sealCommand e cm lock pid f l fs = (l', fs', Inr (Some seal))"
    and "reads_own_lines (re_log (ve_base e))" "hex_digest (re_sign (ve_base e))"
    and "ends_line (case vf_read fs (path_or (fl_sealFile f) (ve_seals_path e)) of None \<Rightarrow> [] | Some t \<Rightarrow> t)"
    and "path_or (fl_keyFile f) (ve_seal_key_path e) \<noteq> path_or (fl_sealFile f) (ve_seals_path e)"
    and "vp_sealFile opts = fl_sealFile f" "vp_keyFile opts = fl_keyFile f" "vp_keyringDir opts = fl_keyringDir f"
    and "events = log_of e fs (verify_engine_options f BASE_DEFAULTS) @ later" "JNull \<notin> set events"
    and "\<forall>t. re_date (ve_base e) (cm_iso cm) = Some t \<longrightarrow> \<not> exceeds (age_seconds (e\<lparr>ve_now := now\<rparr>) t) m"
    and "vp_sealCheck opts \<noteq> Some False"
  shows "\<exists>sc. runSealCheck (e\<lparr>ve_now := now\<rparr>) fs' opts events m = Inr sc
    \<and> sc_valid sc \<and> sc_tip_match sc \<and> sc_failure sc = None"
proof -
  let ?sp = "path_or (fl_sealFile f) (ve_seals_path e)" and ?kp = "path_or (fl_keyFile f) (ve_seal_key_path e)"
  obtain content evs c th fs1 key keyId payload old where s:
    "vf_read fs (path_or (fl_file f) (ve_events_path e)) = Some content"
    "verified_chain e content = (evs, c)" "find_tip (rev evs) = Inr (Some th)"
    "seal_command_key e cm f fs = (fs1, Inr (key, keyId))"
    "computeSealPayload th (int (cv_chained_events c)) (cm_iso cm) = Inr payload"
    "seal = new_seal (cm_iso cm) th (cv_chained_events c) (signSeal (re_sign (ve_base e)) payload key) keyId"
    "old = (case vf_read fs1 ?sp of None \<Rightarrow> [] | Some t \<Rightarrow> t)"
    "vf_read fs' = (vf_read fs1)(?sp \<mapsto> old @ log_line seal)" "vf_keyring fs' = vf_keyring fs1"
    by (rule sealed [OF assms(1)])
  have "vf_read fs1 ?sp = vf_read fs ?sp"
    using s(4) assms(5) by (auto simp: seal_command_key_def Let_def path_or_def split: option.splits)
  then have old: "ends_line old" using assms(4) s(7) by simp
  have evs: "\<exists>ev \<in> set events. string_member ev ''event_hash'' = Some th"
    using find_tip_member [OF s(3)] assms(9)
    by (auto simp: log_of_def verify_engine_options_def s(1,2))
  have key: "seal_key (e\<lparr>ve_now := now\<rparr>) fs' opts seal = Inr (Inr key)"
    using s(4) assms(3)
  proof (cases rule: key_found)
    case 1
    then show ?thesis
      using assms(5,7) s(8) by (simp add: seal_key_def Let_def s(6) new_seal_def keyring_key_def)
  next
    case (2 k)
    then have "str_or (Some k) None = Some k" by (cases k) simp_all
    with 2 show ?thesis
      by (simp add: seal_key_def Let_def s(6,9) new_seal_def keyring_key_def js_text_def assms(8))
  qed
  have seal: "seal = new_seal (cm_iso cm) th (cv_chained_events c)
      (signSeal (re_sign (ve_base (e\<lparr>ve_now := now\<rparr>))) payload key) keyId"
    by (simp add: s(6))
  show ?thesis
    by (rule seal_passes [OF _ old _ seal s(5) key assms(10) evs]) (use assms s(8) in simp_all)
qed


section \<open>A concrete audit directory\<close>

definition vs_event :: json where
  "vs_event = put_json ''event_hash'' (JStr zero_tip) (put_json ''prev_hash'' JNull sample_log_event)"

definition vs_env :: "(string \<times> json) list \<Rightarrow> verify_env" where
  "vs_env texts =
    \<lparr>ve_base = relay_sample\<lparr>re_log := (re_log relay_sample)\<lparr>lg_parse := (\<lambda>s.
        case map_of texts s of Some v \<Rightarrow> Some v | None \<Rightarrow> lg_parse reader_env s)\<rparr>\<rparr>,
     ve_now = 5000, ve_fetch = (\<lambda>u t k. Inr (200, JObj [(''anchor_id'', JStr ''a1'')])),
     ve_variable = (\<lambda>v. None), ve_events_path = ''E'', ve_seal_key_path = ''SK'', ve_keyring_dir = ''KR'',
     ve_seals_path = ''S'', ve_witnesses_path = ''W'', ve_attestation_path = ''A''\<rparr>"

definition vs_witness :: json where
  "vs_witness = JObj
    [(''schema_version'', JNum 1), (''witnessed_at'', JStr ''t''), (''tip_hash'', JStr zero_tip),
     (''chained_events'', JNum 1), (''seal_signature'', JStr ''s''), (''witness_url'', JStr ''http://w/''),
     (''anchor_id'', JStr ''a1'')]"

definition vs_files :: verify_files where
  "vs_files = \<lparr>vf_read = [''E'' \<mapsto> log_line vs_event, ''W'' \<mapsto> log_line vs_witness], vf_keyring = (\<lambda>d. [])\<rparr>"

definition vs_flags :: verify_flags where
  "vs_flags =
    \<lparr>fl_file = None, fl_sealFile = None, fl_keyFile = None, fl_keyringDir = None, fl_witnessFile = None,
     fl_attestationFile = None, fl_strict = True, fl_allowInvalid = False, fl_strictSealFile = True,
     fl_strictWitnessFile = True, fl_sealCheck = True, fl_witnessCheck = True, fl_remoteWitnessCheck = True,
     fl_attestationCheck = True, fl_requireSeal = False, fl_requireWitness = False,
     fl_requireRemoteWitnessProof = False, fl_requireAttestation = False, fl_requireSignedAttestation = False,
     fl_requireAttestationBinding = False, fl_strictAttestationFile = False, fl_maxSealAgeSeconds = None,
     fl_maxWitnessAgeSeconds = None, fl_maxAttestationAgeSeconds = None, fl_remoteWitnessQuorum = None,
     fl_remoteWitnessTimeoutMs = None, fl_tokenEnv = None, fl_profile = Some ''strict'',
     fl_showEffectivePolicy = False\<rparr>"

definition vs_command :: command_env where
  "vs_command =
    \<lparr>cm_iso = ''2026-01-01T00:00:00Z'', cm_random = ''key'', cm_append_error = None, cm_listing = (\<lambda>d. []),
     cm_dirname = (\<lambda>p. ''d''), cm_tool_version = ''1''\<rparr>"

definition vs_lock :: lock_env where
  "vs_lock = \<lparr>lv_hostname = ''h'', lv_alive = (\<lambda>p. True), lv_clock = (\<lambda>i. 0), lv_others = (\<lambda>i l. l),
     lv_open_error = (\<lambda>i. None), lv_meta_ok = True\<rparr>"

definition vs_config :: config_env where
  "vs_config = \<lparr>cf_file = (\<lambda>p. None), cf_yaml = (\<lambda>s. None), cf_issues = (\<lambda>v. []), cf_home = ''/h''\<rparr>"

definition vs_seal :: json where
  "vs_seal = new_seal ''2026-01-01T00:00:00Z'' zero_tip 1 ''hmac-sha256:ab'' (Some ''0000000000000000'')"

definition vs_sealed_files :: verify_files where
  "vs_sealed_files =
    \<lparr>vf_read = [''E'' \<mapsto> log_line vs_event, ''W'' \<mapsto> log_line vs_witness, ''S'' \<mapsto> log_line vs_seal],
     vf_keyring = (\<lambda>d. [])(''KR'' := [(''0000000000000000.key'', ''key''), (''ACTIVE'', ''0000000000000000'' @ [newline])])\<rparr>"

definition vs_report :: verify_report where
  "vs_report =
    \<lparr>vr_pass = True, vr_error = None, vr_tip = Some zero_tip,
     vr_chain = \<lparr>cv_total_events = 1, cv_chained_events = 1, cv_legacy_events = 0, cv_invalid_schema_events = 0,
       cv_hash_mismatch_count = 0, cv_prev_link_mismatch_count = 0, cv_first_failure = None, cv_valid = True,
       cv_anchor = Some JNull, cv_legacy_only_log = False\<rparr>,
     vr_seal = \<lparr>sc_checked = True, sc_present = True, sc_valid = True, sc_tip_match = True,
       sc_tip_hash = Some (JStr zero_tip), sc_age = Some (Some 5), sc_corrupt_lines = 0, sc_failure = None,
       sc_events_since = Some 0\<rparr>,
     vr_witness = \<lparr>wk_checked = True, wk_present = True, wk_matching = 1, wk_valid = 1, wk_age = Some 5,
       wk_corrupt_lines = 0, wk_failure = None\<rparr>,
     vr_remote = emptyRemoteWitnessResult, vr_attestation = emptyAttestationResult,
     vr_paths = [''E'', ''S'', ''W'']\<rparr>"

definition vs_artifact :: "(string \<times> json) list" where
  "vs_artifact = signed_artifact zero_sign (artifact_members vs_command vs_report) (Some (Some ''0000000000000000'', ''key''))"

definition vs_text :: string where
  "vs_text = pretty 0 (JObj vs_artifact) @ [newline]"

definition vs_final :: verify_env where
  "vs_final = vs_env [(''A'' @ [newline], JObj vs_artifact)]"

definition vs_final_files :: verify_files where
  "vs_final_files = vs_sealed_files\<lparr>vf_read := (vf_read vs_sealed_files)(''A'' \<mapsto> ''A'' @ [newline])\<rparr>"

definition vs_defaults :: verify_defaults where
  "vs_defaults = apply_profile ''strict'' BASE_DEFAULTS"

definition vs_texts :: "(string \<times> json) list \<Rightarrow> bool" where
  "vs_texts ts \<longleftrightarrow> (\<forall>t \<in> set ts. newline \<in> set (fst t))"

lemma vs_reads: "vs_texts ts \<Longrightarrow> reads_own_lines (re_log (ve_base (vs_env ts)))"
proof -
  assume "vs_texts ts"
  then have "map_of ts (stringify v) = None" for v
    using stringify_no_newline [of v] by (auto simp: vs_texts_def map_of_eq_None_iff)
  then show ?thesis
    using reader_env_reads by (simp add: reads_own_lines_def vs_env_def)
qed

lemma vs_hash_env: "hash_env_of (re_log (ve_base (vs_env ts))) = hash_env_of (re_log relay_sample)"
  by (simp add: vs_env_def hash_env_of_def event_schema_def fun_eq_iff)

lemma vs_plain: "plain_json vs_event" "plain_json vs_witness" "plain_json vs_seal" "is_JObj vs_event"
  by code_simp+

lemma vs_chain:
  assumes "vs_texts ts"
  shows "verified_chain (vs_env ts) (log_line vs_event) = ([vs_event], vr_chain vs_report)"
proof -
  have "verifyChain (hash_env_of (re_log relay_sample)) plain_options [vs_event] = vr_chain vs_report"
    by code_simp
  moreover have "list_all entry_ok [vs_event]" using vs_plain by (simp add: entry_ok_def)
  ultimately show ?thesis
    using read_log [OF vs_reads [OF assms], of "[vs_event]"] by (simp add: prod_eq_iff vs_hash_env)
qed

lemma vs_lines: "content_lines (log_line v) = [stringify v]"
  using content_lines_log [of "[v]"] by simp

lemma vs_parse: "vs_texts ts \<Longrightarrow> plain_json v \<Longrightarrow> relay_parse (ve_base (vs_env ts)) (stringify v) = Some v"
  using vs_reads by (auto simp: reads_own_lines_def relay_parse_def)

lemma vs_tip: "find_tip [vs_event] = Inr (Some zero_tip)"
  by code_simp

lemma vs_paths [simp]:
  "ve_now (vs_env ts) = 5000" "ve_events_path (vs_env ts) = ''E''" "ve_seal_key_path (vs_env ts) = ''SK''"
  "ve_keyring_dir (vs_env ts) = ''KR''" "ve_seals_path (vs_env ts) = ''S''" "ve_witnesses_path (vs_env ts) = ''W''"
  "ve_attestation_path (vs_env ts) = ''A''" "re_sign (ve_base (vs_env ts)) = zero_sign"
  "re_date (ve_base (vs_env ts)) s = Some 0" "lg_datetime (re_log (ve_base (vs_env ts))) = lg_datetime reader_env"
  by (simp_all add: vs_env_def relay_sample_def)

lemma vs_seal_check:
  assumes "vs_texts ts" "path_or (vp_sealFile opts) ''S'' = ''S''" "path_or (vp_keyFile opts) ''SK'' = ''SK''"
    "path_or (vp_keyringDir opts) ''KR'' = ''KR''" "vp_sealCheck opts \<noteq> Some False"
    "vf_read fs ''S'' = Some (log_line vs_seal)" "vf_keyring fs = vf_keyring vs_sealed_files"
  shows "runSealCheck (vs_env ts) fs opts [vs_event] NoAge = Inr (vr_seal vs_report)"
proof -
  have "is_seal_record vs_seal" "vs_seal \<noteq> JNull" by code_simp+
  then have scan: "findLatestValidSeal (ve_base (vs_env ts)) [stringify vs_seal] = Inr (Some vs_seal, 0)"
    by (simp add: findLatestValidSeal_def vs_parse [OF assms(1) vs_plain(3)])
  have "keyring_key (vf_keyring vs_sealed_files ''KR'') (json_get vs_seal ''key_id'') = Some ''key''" by code_simp
  then have key: "seal_key (vs_env ts) fs opts vs_seal = Inr (Inr ''key'')"
    using assms by (simp add: seal_key_def Let_def)
  have "case seal_payload_of vs_seal of Inr p \<Rightarrow> True | Inl x \<Rightarrow> False" by code_simp
  then obtain payload where payload: "seal_payload_of vs_seal = Inr payload" by (auto split: sum.splits)
  have "json_get vs_seal ''signature'' = Some (JStr (signSeal zero_sign payload ''key''))"
    by (simp add: vs_seal_def new_seal_def signSeal_def zero_sign_def)
  then have verify: "verify_any (ve_base (vs_env ts)) payload (the (json_get vs_seal ''signature'')) ''key'' = Inr True"
    by (simp add: verify_any_def verifySeal_iff Let_def)
  have scan2: "tip_scan (json_get vs_seal ''tip_hash'') [vs_event] None 0 = Inr (Some 0, 1)" by code_simp
  have tip: "json_get vs_seal ''tip_hash'' = Some (JStr zero_tip)" "json_get vs_seal ''sealed_at'' = Some (JStr ''2026-01-01T00:00:00Z'')"
    by (simp_all add: vs_seal_def new_seal_def)
  have age: "sealed_age (vs_env ts) vs_seal = Inr (Some 5)"
    by (simp add: sealed_age_def tip(2) date_ms_def age_seconds_def)
  have "seal_verdict (vs_env ts) [vs_event] NoAge vs_seal 0 = Inr (vr_seal vs_report)"
    using scan2 by (simp add: seal_verdict_def Let_def age exceeds_def tip(1) vs_report_def no_seal_check_def)
  then show ?thesis
    using assms by (simp add: runSealCheck_def vs_lines scan key payload verify)
qed

lemma vs_witness_check:
  assumes "vs_texts ts" "path_or (vp_witnessFile opts) ''W'' = ''W''" "vp_witnessCheck opts \<noteq> Some False"
    "vf_read fs ''W'' = Some (log_line vs_witness)"
  shows "runWitnessCheck (vs_env ts) fs opts (Some zero_tip) NoAge = vr_witness vs_report"
    and "content_lines (log_line vs_witness) = [stringify vs_witness]"
    and "witness_records (ve_base (vs_env ts)) [stringify vs_witness] = ([vs_witness], 0)"
proof -
  have "WitnessRecordSchema (lg_datetime reader_env) vs_witness = Some vs_witness" by code_simp
  then have read: "read_witness (ve_base (vs_env ts)) (stringify vs_witness) = Some vs_witness"
    by (simp add: read_witness_def vs_parse [OF assms(1) vs_plain(2)])
  then show rec: "witness_records (ve_base (vs_env ts)) [stringify vs_witness] = ([vs_witness], 0)"
    by (simp add: witness_records_def List.map_filter_simps)
  show l: "content_lines (log_line vs_witness) = [stringify vs_witness]" by (rule vs_lines)
  have "tip_records (Some zero_tip) [vs_witness] = [vs_witness]" by code_simp
  moreover have "latest_time (ve_base (vs_env ts)) [vs_witness] = 0" by (simp add: latest_time_def split: option.split)
  ultimately have "witness_verdict (vs_env ts) opts (Some zero_tip) NoAge [vs_witness] 0 = vr_witness vs_report"
    by (simp add: witness_verdict_def Let_def age_seconds_def exceeds_def no_witness_check_def vs_report_def)
  then show "runWitnessCheck (vs_env ts) fs opts (Some zero_tip) NoAge = vr_witness vs_report"
    using assms by (simp add: runWitnessCheck_def l rec Let_def)
qed

lemma vs_verified:
  assumes "vs_texts ts"
  shows "runVerification (vs_env ts) vs_sealed_files (attest_options vs_flags vs_defaults) = Inr vs_report"
proof -
  let ?opts = "attest_options vs_flags vs_defaults"
  have paths: "path_or None d = d" for d by (simp add: path_or_def)
  have sel: "vp_file ?opts = None" "vp_sealFile ?opts = None" "vp_keyFile ?opts = None" "vp_keyringDir ?opts = None"
    "vp_witnessFile ?opts = None" "vp_maxSealAgeSeconds ?opts = None" "vp_maxWitnessAgeSeconds ?opts = None"
    "vp_maxAttestationAgeSeconds ?opts = None" "vp_sealCheck ?opts = None" "vp_witnessCheck ?opts = None"
    "\<not> vp_requireRemoteWitnessProof ?opts"
    by (simp_all add: attest_options_def vs_flags_def vs_defaults_def apply_profile_def BASE_DEFAULTS_def)
  have read: "vf_read vs_sealed_files ''E'' = Some (log_line vs_event)"
    "vf_read vs_sealed_files ''S'' = Some (log_line vs_seal)" "vf_read vs_sealed_files ''W'' = Some (log_line vs_witness)"
    by (simp_all add: vs_sealed_files_def)
  have seal: "runSealCheck (vs_env ts) vs_sealed_files ?opts [vs_event] NoAge = Inr (vr_seal vs_report)"
    by (rule vs_seal_check [OF assms]) (simp_all add: sel paths read)
  have witness: "runWitnessCheck (vs_env ts) vs_sealed_files ?opts (Some zero_tip) NoAge = vr_witness vs_report"
    by (rule vs_witness_check(1) [OF assms]) (simp_all add: sel paths read)
  have at: "runAttestationCheck (vs_env ts) vs_sealed_files ?opts NoAge st = Inr emptyAttestationResult" for st
    by (simp add: runAttestationCheck_def attest_options_def truthy_def)
  have age: "parsePositiveIntAge None = NoAge" by (simp add: parsePositiveIntAge_def)
  have pass: "log_passes ?opts (vr_chain vs_report)" by code_simp
  show ?thesis
    by (simp add: runVerification_def verify_log_def Let_def sel paths age read vs_chain [OF assms] seal witness at vs_tip
        del: find_tip.simps)
      (use pass in \<open>simp add: vs_report_def emptyAttestationResult_def emptyRemoteWitnessResult_def\<close>)
qed

lemma vs_policy:
  "rp_defaults (resolveVerifyDefaults vs_flags (loadConfig vs_config (Some ''/w''))) = vs_defaults"
  "rp_validation (resolveVerifyDefaults vs_flags (loadConfig vs_config (Some ''/w''))) = None"
  by code_simp+

lemma vs_attests:
  assumes "vs_texts ts"
  shows "attestCommand (vs_env ts) vs_command vs_config ''/w'' vs_flags
     \<lparr>cg_out = None, cg_history = False, cg_maxHistoryFiles = None\<rparr> vs_sealed_files
    = (vs_sealed_files\<lparr>vf_read := (vf_read vs_sealed_files)(''A'' \<mapsto> vs_text)\<rparr>, Inr (Attested None vs_artifact True))"
proof -
  have key: "attest_key (vs_env ts) vs_command vs_flags vs_sealed_files
      = (vs_sealed_files, Some (Some ''0000000000000000'', ''key''))"
  proof -
    have "ensureKeyring zero_sign (cm_random vs_command) (vf_keyring vs_sealed_files ''KR'')
        = (vf_keyring vs_sealed_files ''KR'', Inr (''0000000000000000'', ''key''))" by code_simp
    then show ?thesis by (simp add: attest_key_def vs_flags_def path_or_def Let_def)
  qed
  have "history_limit (vs_env ts) \<lparr>cg_out = None, cg_history = False, cg_maxHistoryFiles = None\<rparr> = Some None"
    by (simp add: history_limit_def)
  moreover have "\<not> fl_showEffectivePolicy vs_flags" by (simp add: vs_flags_def)
  moreover have "vr_pass vs_report" by (simp add: vs_report_def)
  ultimately show ?thesis
    by (simp add: attestCommand_def Let_def vs_policy vs_verified [OF assms] key write_history_def vs_artifact_def vs_text_def path_or_def)
qed

lemma vs_seals:
  assumes "vs_texts ts"
  shows "\<exists>l fs. sealCommand (vs_env ts) vs_command vs_lock 1 vs_flags None vs_files = (l, fs, Inr (Some vs_seal))"
proof -
  have read: "vf_read vs_files ''E'' = Some (log_line vs_event)" by (simp add: vs_files_def)
  have chain: "cv_invalid_schema_events (vr_chain vs_report) = 0" "cv_chained_events (vr_chain vs_report) = 1"
    by (simp_all add: vs_report_def)
  obtain fs1 where key: "seal_command_key (vs_env ts) vs_command vs_flags vs_files
      = (fs1, Inr (''key'', Some ''0000000000000000''))"
  proof -
    have "snd (ensureKeyring zero_sign (cm_random vs_command) (vf_keyring vs_files ''KR'')) = Inr (''0000000000000000'', ''key'')"
      by code_simp
    with that show thesis by (simp add: seal_command_key_def vs_flags_def path_or_def Let_def)
  qed
  have "case computeSealPayload zero_tip 1 (cm_iso vs_command) of Inr p \<Rightarrow> True | Inl x \<Rightarrow> False" by code_simp
  then obtain payload where payload: "computeSealPayload zero_tip 1 (cm_iso vs_command) = Inr payload"
    by (auto split: sum.splits)
  have seal: "new_seal (cm_iso vs_command) zero_tip 1 (signSeal zero_sign payload ''key'') (Some ''0000000000000000'') = vs_seal"
    by (simp add: vs_seal_def vs_command_def signSeal_def zero_sign_def)
  have lock: "\<exists>l. seal_acquire vs_lock 1 (Suc n) 0 None = (l, Inr (True, 1))" for n
    by (simp add: vs_lock_def)
  obtain l where l: "seal_acquire vs_lock 1 (Suc SEAL_LOCK_MAX_RETRIES) 0 None = (l, Inr (True, 1))"
    using lock by blast
  have append: "append_seal vs_command path vs_seal w = (fst (append_seal vs_command path vs_seal w), Inr (Some vs_seal))"
    for path w by (simp add: append_seal_def vs_command_def)
  have tip: "str_or (Some zero_tip) None = Some zero_tip" by (simp add: zero_tip_def)
  have paths: "path_or (fl_file vs_flags) d = d" "path_or (fl_sealFile vs_flags) d = d" for d
    by (simp_all add: vs_flags_def path_or_def)
  have lock_write: "withSealLock vs_lock 1 (append_seal vs_command p vs_seal) None w
      = (None, fst (append_seal vs_command p vs_seal w), Inr (Some vs_seal))" for p w
    using append [of p w] by (simp add: withSealLock_def l Let_def prod_eq_iff del: seal_acquire.simps One_nat_def)
  show ?thesis
    by (simp add: sealCommand_def Let_def paths read vs_chain [OF assms] chain vs_tip tip key payload seal lock_write
        del: find_tip.simps One_nat_def)
qed

definition vs_strict :: engine_options where
  "vs_strict = verify_engine_options vs_flags vs_defaults"

lemma vs_final_texts: "vs_texts [(''A'' @ [newline], v)]" "vs_texts [(vs_text, v)]" "vs_texts []"
  by (simp_all add: vs_texts_def vs_text_def)

lemma vs_hex: "hex_digest zero_sign"
  using sample_hex by (simp add: relay_sample_def)

lemma vs_strict_run:
  obtains r where "runVerification vs_final vs_final_files vs_strict = Inr r" "vr_pass r" "vr_error r = None"
    "vr_chain r = vr_chain vs_report" "vr_seal r = vr_seal vs_report"
proof -
  define ts where "ts = [(''A'' @ [newline], JObj vs_artifact)]"
  have ts: "vs_texts ts" unfolding ts_def by (rule vs_final_texts)
  have vs_final_def: "vs_final = vs_env ts" by (simp add: vs_final_def ts_def)
  have paths: "path_or None d = d" for d by (simp add: path_or_def)
  have sel: "vp_file vs_strict = None" "vp_sealFile vs_strict = None" "vp_keyFile vs_strict = None" "vp_keyringDir vs_strict = None"
    "vp_witnessFile vs_strict = None" "vp_maxSealAgeSeconds vs_strict = None" "vp_maxWitnessAgeSeconds vs_strict = None"
    "vp_maxAttestationAgeSeconds vs_strict = None" "vp_sealCheck vs_strict = Some True" "vp_witnessCheck vs_strict = Some True"
    "vp_attestationCheck vs_strict = Some True" "vp_requireRemoteWitnessProof vs_strict" "\<not> vp_noRemoteWitnessCheck vs_strict"
    "vp_requireSignedAttestation vs_strict" "vp_attestationFile vs_strict = None" "vp_remoteWitnessQuorum vs_strict = None"
    "vp_remoteWitnessTimeoutMs vs_strict = None" "vp_tokenEnv vs_strict = None"
    by (simp_all add: vs_strict_def verify_engine_options_def vs_flags_def vs_defaults_def apply_profile_def BASE_DEFAULTS_def)
  have read: "vf_read vs_final_files ''E'' = Some (log_line vs_event)" "vf_read vs_final_files ''A'' = Some (''A'' @ [newline])"
    "vf_read vs_final_files ''S'' = Some (log_line vs_seal)" "vf_read vs_final_files ''W'' = Some (log_line vs_witness)"
    "vf_keyring vs_final_files = vf_keyring vs_sealed_files"
    by (simp_all add: vs_final_files_def vs_sealed_files_def)
  have seal: "runSealCheck vs_final vs_final_files vs_strict [vs_event] NoAge = Inr (vr_seal vs_report)"
    unfolding vs_final_def by (rule vs_seal_check [OF ts]) (simp_all add: sel paths read)
  have witness: "runWitnessCheck vs_final vs_final_files vs_strict (Some zero_tip) NoAge = vr_witness vs_report"
    unfolding vs_final_def by (rule vs_witness_check(1) [OF ts]) (simp_all add: sel paths read)
  have anchor: "remote_anchor (Some zero_tip) vs_witness = Some (''http://w/'', ''a1'')" by code_simp
  have records: "witness_records (ve_base (vs_env ts)) [stringify vs_witness] = ([vs_witness], 0)"
    by (rule vs_witness_check(3) [OF ts, of vs_strict vs_final_files]) (simp_all add: sel paths read)
  have verified: "wp_verified (proof_of (vs_env ts) t k (''http://w/'', ''a1''))" for t k
    by (simp add: proof_of_def vs_env_def Let_def)
  have remote: "rk_failure (runRemoteWitnessCheck vs_final vs_final_files vs_strict (Some zero_tip)) = None"
    by (simp add: vs_final_def runRemoteWitnessCheck_def sel paths read vs_lines records List.map_filter_simps anchor
        checkRemoteWitnesses_def Let_def verified)
  have "\<exists>at. runAttestationCheck vs_final vs_final_files vs_strict NoAge
      (state_of (vr_tip vs_report) (vr_chain vs_report) (vr_seal vs_report) (vr_witness vs_report)) = Inr at
    \<and> at_failure at = None \<and> at_signed at \<and> at_signature_valid at \<and> at_matches at"
  proof (rule own_attestation_passes)
    show "vs_artifact = signed_artifact (re_sign (ve_base vs_final)) (artifact_members vs_command vs_report)
        (Some (Some ''0000000000000000'', ''key''))"
      by (simp add: vs_final_def vs_artifact_def)
    show "loadKeyById (vf_keyring vs_final_files (path_or (vp_keyringDir vs_strict) (ve_keyring_dir vs_final)))
        ''0000000000000000'' = Inr ''key''"
    proof -
      have "loadKeyById (vf_keyring vs_sealed_files ''KR'') ''0000000000000000'' = Inr ''key''" by code_simp
      then show ?thesis by (simp add: vs_final_def sel paths read)
    qed
    show "vf_read vs_final_files (path_or (vp_attestationFile vs_strict) (ve_attestation_path vs_final)) = Some (''A'' @ [newline])"
      by (simp add: vs_final_def sel paths read del: append.simps)
    show "relay_parse (ve_base vs_final) (''A'' @ [newline]) = Some (JObj vs_artifact)"
      by (simp add: vs_final_def ts_def vs_env_def relay_parse_def)
  qed (simp_all add: sel vs_report_def)
  then obtain at where at: "runAttestationCheck vs_final vs_final_files vs_strict NoAge
      (state_of (Some zero_tip) (vr_chain vs_report) (vr_seal vs_report) (vr_witness vs_report)) = Inr at"
    "at_failure at = None" by (auto simp: vs_report_def)
  have age: "parsePositiveIntAge None = NoAge" by (simp add: parsePositiveIntAge_def)
  have chain: "verified_chain vs_final (log_line vs_event) = ([vs_event], vr_chain vs_report)"
    unfolding vs_final_def by (rule vs_chain [OF ts])
  have final: "ve_events_path vs_final = ''E''" "ve_seals_path vs_final = ''S''" "ve_witnesses_path vs_final = ''W''"
    by (simp_all add: vs_final_def)
  have pass: "log_passes vs_strict (vr_chain vs_report)" by code_simp
  have ok: "sc_failure (vr_seal vs_report) = None" "wk_failure (vr_witness vs_report) = None"
    by (simp_all add: vs_report_def)
  have "\<exists>r. runVerification vs_final vs_final_files vs_strict = Inr r \<and> vr_pass r \<and> vr_error r = None
      \<and> vr_chain r = vr_chain vs_report \<and> vr_seal r = vr_seal vs_report"
    by (simp add: runVerification_def verify_log_def Let_def final sel paths age read chain seal witness at
        vs_tip remote pass ok del: find_tip.simps)
  with that show thesis by blast
qed

section \<open>Witnesses\<close>

lemma vs_strict_sel:
  "vp_file vs_strict = None" "vp_strict vs_strict" "\<not> vp_allowInvalid vs_strict" "vp_sealCheck vs_strict = Some True"
  "vp_requireSeal vs_strict" "vp_attestationCheck vs_strict = Some True" "vp_requireSignedAttestation vs_strict"
  "vp_requireAttestationBinding vs_strict"
  by (simp_all add: vs_strict_def verify_engine_options_def vs_flags_def vs_defaults_def apply_profile_def BASE_DEFAULTS_def)

lemma vs_log: "log_of vs_final vs_final_files vs_strict = [vs_event]"
proof -
  have "vf_read vs_final_files ''E'' = Some (log_line vs_event)"
    by (simp add: vs_final_files_def vs_sealed_files_def)
  then show ?thesis
    using vs_chain [OF vs_final_texts(1)] by (simp add: log_of_def vs_strict_sel path_or_def vs_final_def)
qed

lemma sealed_history_kept_witness:
  "\<exists>r. runVerification vs_final vs_final_files vs_strict = Inr r \<and> strict_sealed vs_strict
    \<and> sealed_part r (log_of vs_final vs_final_files vs_strict) = [vs_event]"
proof -
  obtain r where r: "runVerification vs_final vs_final_files vs_strict = Inr r" "vr_pass r"
    "vr_chain r = vr_chain vs_report" "vr_seal r = vr_seal vs_report"
    by (rule vs_strict_run)
  have s: "strict_sealed vs_strict" by (simp add: strict_sealed_def vs_strict_sel)
  have x: "sealed_part r (log_of vs_final vs_final_files vs_strict) = [vs_event]"
    by (simp add: sealed_part_def r vs_log) (simp add: vs_report_def)
  have "\<not> collision h ([vs_event] @ [vs_event])" for h by (simp add: collision_def)
  from sealed_history_kept [OF r(1,2) s r(1,2) s refl refl refl refl, unfolded x, OF this] r(1) s x
  show ?thesis by blast
qed

lemma passing_attestation_genuine_witness:
  "\<exists>a. relay_parse (ve_base vs_final) (''A'' @ [newline]) = Some (JObj a)
    \<and> map_of a ''chain_chained_events'' = Some (JNum 1)"
proof -
  obtain r where r: "runVerification vs_final vs_final_files vs_strict = Inr r" "vr_pass r"
    "vr_chain r = vr_chain vs_report"
    by (rule vs_strict_run)
  have "vp_attestationCheck vs_strict \<noteq> Some False" by (simp add: vs_strict_sel)
  from passing_attestation_genuine [OF r(1,2) this vs_strict_sel(7,8)]
  obtain content a where "vf_read vs_final_files (path_or (vp_attestationFile vs_strict) (ve_attestation_path vs_final)) = Some content"
    "relay_parse (ve_base vs_final) content = Some (JObj a)"
    "map_of a ''chain_chained_events'' = Some (JNum (int (cv_chained_events (vr_chain r))))" by blast
  then show ?thesis
    by (simp add: r(3) vs_strict_def verify_engine_options_def vs_flags_def path_or_def vs_final_def vs_final_files_def)
      (auto simp: vs_report_def)
qed

lemma strict_profile_enforced_witness:
  "\<exists>w r. verifyCommand vs_final vs_final_files vs_config ''/w'' vs_flags = Inr (Reported w r)
    \<and> sc_tip_match (vr_seal r) \<and> rk_quorum_met (vr_remote r)"
proof -
  obtain r where r: "runVerification vs_final vs_final_files vs_strict = Inr r" "vr_pass r" "vr_error r = None"
    by (rule vs_strict_run)
  have f: "fl_profile vs_flags = Some ''strict''" "\<not> fl_showEffectivePolicy vs_flags" "fl_sealCheck vs_flags"
    "fl_witnessCheck vs_flags" "fl_remoteWitnessCheck vs_flags" "fl_attestationCheck vs_flags"
    by (simp_all add: vs_flags_def)
  have "exit_code (verifyCommand vs_final vs_final_files vs_config ''/w'' vs_flags) = 0"
    using r by (simp add: verifyCommand_def Let_def f(2) vs_policy exit_code_def vs_strict_def [symmetric])
  moreover have "keeps_strict (json_get (lc_config (loadConfig vs_config (Some ''/w''))) ''verify'')" by code_simp
  ultimately show ?thesis
    using strict_profile_enforced [OF _ f(2,1) _ f(3-6)] by blast
qed

lemma sealed_log_passes_witness:
  "\<exists>fs sc. runSealCheck ((vs_env [])\<lparr>ve_now := 90000\<rparr>) fs (attest_options vs_flags vs_defaults) [vs_event, JObj []] (MaxAge 100) = Inr sc
    \<and> sc_tip_match sc"
proof -
  obtain l fs where s: "sealCommand (vs_env []) vs_command vs_lock 1 vs_flags None vs_files = (l, fs, Inr (Some vs_seal))"
    using vs_seals [OF vs_final_texts(3)] by blast
  have log: "[vs_event, JObj []] = log_of (vs_env []) vs_files (verify_engine_options vs_flags BASE_DEFAULTS) @ [JObj []]"
    using vs_chain [OF vs_final_texts(3)]
    by (simp add: log_of_def verify_engine_options_def vs_flags_def path_or_def vs_files_def)
  have "vs_event \<noteq> JNull" by code_simp
  then have "JNull \<notin> set [vs_event, JObj []]" by simp
  from sealed_log_passes [OF s _ _ _ _ _ _ _ log this, of "attest_options vs_flags vs_defaults" 90000 "MaxAge 100"]
  show ?thesis
    using vs_reads [OF vs_final_texts(3)] vs_hex
    by (auto simp: vs_files_def ends_line_def attest_options_def vs_flags_def path_or_def age_seconds_def exceeds_def)
qed


end
