(* ===== verification/HookSettings.thy ===== *)
theory HookSettings
  imports ShellQuoting HashChain
begin

text \<open>
  The settings of the hook installer, \<^verbatim>\<open>packages/agents/src/claude-code/installer.ts\<close>: which
  commands count as the product's, the commands it writes, the merge into an existing settings value
  and the removal. What the host answers (the running node, its directory, which files exist, the
  module resolution) and the reader of JSON text are the record \<open>install_env\<close>.
\<close>

section \<open>Which commands are the product's\<close>

text \<open>
  \<open>PATCHWORK_HOOK_RE\<close>. The word \<open>hook\<close> up to a word boundary; blanks before it; then any text
  without a double quote, and one double quote at most, between the product's name and the blanks.
\<close>

definition hook_word :: "string \<Rightarrow> bool" where
  "hook_word s \<longleftrightarrow> starts_with s ''hook'' \<and> (drop 4 s = [] \<or> \<not> is_alnumu (hd (drop 4 s)))"

definition blank_hook :: "string \<Rightarrow> bool" where
  "blank_hook s \<longleftrightarrow> s \<noteq> [] \<and> is_space (hd s) \<and> hook_word (dropWhile is_space s)"

fun gap_hook :: "string \<Rightarrow> bool" where
  "gap_hook [] \<longleftrightarrow> False"
| "gap_hook (c # cs) \<longleftrightarrow>
     blank_hook (c # cs) \<or> (if c = CHR 0x22 then blank_hook cs else gap_hook cs)"

fun named_hook :: "string \<Rightarrow> bool" where
  "named_hook [] \<longleftrightarrow> False"
| "named_hook (c # cs) \<longleftrightarrow>
     starts_with (c # cs) ''patchwork'' \<and> gap_hook (drop 9 (c # cs)) \<or> named_hook cs"

definition patchwork_hook_re :: "string \<Rightarrow> bool" where
  "patchwork_hook_re s \<longleftrightarrow>
     named_hook s
   \<or> list_ex (\<lambda>x. includes_str s (''hook-wrapper.'' @ x)) [''sh'', ''cmd'', ''bat'', ''ps1'']
   \<or> includes_str s ''guard.sh''"

section \<open>Options and commands\<close>

datatype policy_mode = AuditMode | FailClosedMode

datatype telemetry_dest = ToStderr | ToFile | ToBoth

fun telemetry_dest_str :: "telemetry_dest \<Rightarrow> string" where
  "telemetry_dest_str ToStderr = ''stderr''"
| "telemetry_dest_str ToFile = ''file''"
| "telemetry_dest_str ToBoth = ''both''"

datatype telemetry_lock = LockAlways | LockRotateOnly

fun telemetry_lock_str :: "telemetry_lock \<Rightarrow> string" where
  "telemetry_lock_str LockAlways = ''always''"
| "telemetry_lock_str LockRotateOnly = ''rotate-only''"

record install_options =
  policyMode :: "policy_mode option"
  pretoolFailClosed :: "bool option"
  pretoolWarnMs :: "int option"
  pretoolTelemetryJson :: "bool option"
  pretoolTelemetryDest :: "telemetry_dest option"
  pretoolTelemetryFile :: "string option"
  pretoolTelemetryMaxBytes :: "int option"
  pretoolTelemetryMaxFiles :: "int option"
  pretoolTelemetryLockMode :: "telemetry_lock option"

definition conflicting_options :: string where
  "conflicting_options =
    ''Conflicting options: --policy-mode and --pretool-fail-closed disagree. Use one or the other.''"

definition resolveFailClosed :: "install_options option \<Rightarrow> bool \<times> string option" where
  "resolveFailClosed os =
    (case os of
       None \<Rightarrow> (False, None)
     | Some o1 \<Rightarrow>
         (case (policyMode o1, pretoolFailClosed o1) of
            (Some m, Some l) \<Rightarrow>
              if (m = FailClosedMode) \<noteq> l then (False, Some conflicting_options)
              else (m = FailClosedMode, None)
          | (Some m, None) \<Rightarrow> (m = FailClosedMode, None)
          | (None, Some l) \<Rightarrow> (l, None)
          | (None, None) \<Rightarrow> (False, None)))"

record install_env =
  ie_windows :: bool
  ie_exec :: string
  ie_nodeDir :: string
  ie_exists :: "string \<Rightarrow> bool"
  ie_npmCandidates :: "string list"
  ie_require :: "string option"
  ie_home :: string
  ie_parse :: "string \<Rightarrow> json result"

text \<open>
  The path of the program: the given one, else what the host has. \<open>path.join\<close> of the two Windows
  locations is part of the host's answers.
\<close>

definition resolveBin :: "install_env \<Rightarrow> string option \<Rightarrow> string" where
  "resolveBin e binPath =
    (case str_or binPath None of
       Some b \<Rightarrow> b
     | None \<Rightarrow>
         if ie_windows e then
           (case find (ie_exists e) (ie_npmCandidates e) of
              Some c \<Rightarrow> c
            | None \<Rightarrow> (case ie_require e of Some p \<Rightarrow> p | None \<Rightarrow> ''patchwork''))
         else
           (let candidate = path_join [ie_nodeDir e, ''patchwork''] in
            if ie_exists e candidate then candidate else ''patchwork''))"

definition slashes :: "string \<Rightarrow> string" where
  "slashes p = map (\<lambda>c. if c = CHR 0x5C then CHR ''/'' else c) p"

definition sqPath :: "string \<Rightarrow> string" where
  "sqPath p = posix_quote (slashes p)"

definition hook_cmd :: "install_env \<Rightarrow> string option \<Rightarrow> string" where
  "hook_cmd e binPath = sqPath (ie_exec e) @ '' '' @ sqPath (resolveBin e binPath)"

definition opt_part :: "'a option \<Rightarrow> ('a \<Rightarrow> 'b) \<Rightarrow> 'b list" where
  "opt_part v f = (case v of None \<Rightarrow> [] | Some x \<Rightarrow> [f x])"

definition envParts :: "install_options option \<Rightarrow> string list" where
  "envParts os =
    (if fst (resolveFailClosed os) then [''PATCHWORK_PRETOOL_FAIL_CLOSED=1''] else [])
    @ (case os of
         None \<Rightarrow> []
       | Some o1 \<Rightarrow>
           opt_part (pretoolWarnMs o1)
             (\<lambda>n. ''PATCHWORK_PRETOOL_WARN_MS='' @ posix_quote (print_int n))
         @ (if pretoolTelemetryJson o1 = Some True then [''PATCHWORK_PRETOOL_TELEMETRY_JSON=1''] else [])
         @ opt_part (pretoolTelemetryDest o1)
             (\<lambda>d. ''PATCHWORK_PRETOOL_TELEMETRY_DEST='' @ posix_quote (telemetry_dest_str d))
         @ opt_part (str_or (pretoolTelemetryFile o1) None)
             (\<lambda>f. ''PATCHWORK_PRETOOL_TELEMETRY_FILE='' @ posix_quote f)
         @ opt_part (pretoolTelemetryMaxBytes o1)
             (\<lambda>n. ''PATCHWORK_PRETOOL_TELEMETRY_MAX_BYTES='' @ posix_quote (print_int n))
         @ opt_part (pretoolTelemetryMaxFiles o1)
             (\<lambda>n. ''PATCHWORK_PRETOOL_TELEMETRY_MAX_FILES='' @ posix_quote (print_int n))
         @ opt_part (pretoolTelemetryLockMode o1)
             (\<lambda>m. ''PATCHWORK_PRETOOL_TELEMETRY_LOCK_MODE='' @ posix_quote (telemetry_lock_str m)))"

definition preToolCmd :: "install_env \<Rightarrow> string option \<Rightarrow> install_options option \<Rightarrow> string" where
  "preToolCmd e binPath os =
    (let cmd = hook_cmd e binPath in
     if envParts os \<noteq> [] then join '' '' (envParts os) @ '' '' @ cmd @ '' hook pre-tool''
     else cmd @ '' hook pre-tool'')"

text \<open>The events with the command and the timeout of their handler, in the order of the code.\<close>

definition buildHooks ::
  "install_env \<Rightarrow> string option \<Rightarrow> install_options option \<Rightarrow> (string \<times> string \<times> int) list" where
  "buildHooks e binPath os =
    (let cmd = hook_cmd e binPath in
     [(''PreToolUse'', preToolCmd e binPath os, 2000),
      (''PostToolUse'', cmd @ '' hook post-tool'', 2000),
      (''PostToolUseFailure'', cmd @ '' hook post-tool-failure'', 2000),
      (''SessionStart'', cmd @ '' hook session-start'', 3000),
      (''SessionEnd'', cmd @ '' hook session-end'', 1500),
      (''UserPromptSubmit'', cmd @ '' hook prompt-submit'', 1500),
      (''SubagentStart'', cmd @ '' hook subagent-start'', 1500),
      (''SubagentStop'', cmd @ '' hook subagent-stop'', 1500)])"

definition wrap_hook :: "string \<Rightarrow> int \<Rightarrow> json" where
  "wrap_hook cmd timeout =
    JObj [(''matcher'', JStr []),
      (''hooks'', JArr [JObj [(''type'', JStr ''command''), (''command'', JStr cmd),
         (''timeout'', JNum timeout)]])]"

section \<open>Values of JavaScript\<close>

text \<open>Reading a property that nothing inherits: null throws, other values may lack it.\<close>

definition read_prop :: "json \<Rightarrow> string \<Rightarrow> json option result" where
  "read_prop v k =
    (if v = JNull then Inl (TypeError (''Cannot read properties of null (reading '' @ [CHR 0x27] @ k
       @ [CHR 0x27] @ '')''))
     else Inr (json_get v k))"

definition cannot_create :: "string \<Rightarrow> string \<Rightarrow> string \<Rightarrow> js_error" where
  "cannot_create k kind v = TypeError (''Cannot create property '' @ [CHR 0x27] @ k @ [CHR 0x27]
     @ '' on '' @ kind @ '' '' @ [CHR 0x27] @ v @ [CHR 0x27])"

text \<open>
  Assigning a property, seen through a later \<open>JSON.stringify\<close>: a name that is no index is not
  printed for an array; a primitive refuses (modules are strict code).
\<close>

fun write_prop :: "json \<Rightarrow> string \<Rightarrow> json \<Rightarrow> json result" where
  "write_prop (JObj ms) k x = Inr (JObj (obj_set k x ms))"
| "write_prop (JArr vs) k x = Inr (JArr vs)"
| "write_prop JNull k x = Inl (TypeError (''Cannot set properties of null (setting '' @ [CHR 0x27] @ k
     @ [CHR 0x27] @ '')''))"
| "write_prop (JBool b) k x = Inl (cannot_create k ''boolean'' (if b then ''true'' else ''false''))"
| "write_prop (JNum i) k x = Inl (cannot_create k ''number'' (print_int i))"
| "write_prop (JStr s) k x = Inl (cannot_create k ''string'' s)"

text \<open>\<open>settings.hooks || {}\<close>.\<close>

definition hooks_of :: "json \<Rightarrow> json result" where
  "hooks_of settings =
    bind_result (read_prop settings ''hooks'') (\<lambda>h.
      Inr (case h of Some v \<Rightarrow> if \<not> truthy_json (Some v) then JObj [] else v | None \<Rightarrow> JObj []))"

text \<open>The array whose \<open>filter\<close> is called: \<open>existingHooks[eventName] || []\<close>.\<close>

definition existing_entries :: "json \<Rightarrow> string \<Rightarrow> json list result" where
  "existing_entries hooks ev =
    (case json_get hooks ev of
       None \<Rightarrow> Inr []
     | Some v \<Rightarrow>
         if \<not> truthy_json (Some v) then Inr []
         else (case v of JArr vs \<Rightarrow> Inr vs | _ \<Rightarrow> Inl (TypeError ''existing.filter is not a function'')))"

section \<open>Merging\<close>

definition patchwork_handler :: "json \<Rightarrow> bool" where
  "patchwork_handler h \<longleftrightarrow>
    (case json_get h ''command'' of Some (JStr c) \<Rightarrow> patchwork_hook_re c | _ \<Rightarrow> False)"

definition isPatchwork :: "json \<Rightarrow> bool" where
  "isPatchwork entry \<longleftrightarrow>
    (case json_get entry ''hooks'' of
       Some (JArr hs) \<Rightarrow> list_ex patchwork_handler hs
     | _ \<Rightarrow> patchwork_handler entry)"

definition sameCmd :: "json list \<Rightarrow> string \<Rightarrow> bool" where
  "sameCmd entries desired \<longleftrightarrow>
    length entries = 1 \<and>
    (case json_get (hd entries) ''hooks'' of
       Some (JArr (h # hs)) \<Rightarrow> json_get h ''command'' = Some (JStr desired)
     | _ \<Rightarrow> False)"

record merge_state =
  ms_hooks :: json
  ms_installed :: "string list"
  ms_updated :: "string list"

definition merge_event :: "string \<times> string \<times> int \<Rightarrow> merge_state \<Rightarrow> merge_state result" where
  "merge_event def st =
    (case def of (ev, desired, timeout) \<Rightarrow>
       bind_result (existing_entries (ms_hooks st) ev) (\<lambda>existing.
         let ours = filter isPatchwork existing;
             others = filter (\<lambda>x. \<not> isPatchwork x) existing
         in bind_result (write_prop (ms_hooks st) ev (JArr (others @ [wrap_hook desired timeout])))
              (\<lambda>h. Inr (if ours = [] then
                         st\<lparr>ms_hooks := h, ms_installed := ms_installed st @ [ev]\<rparr>
                       else if \<not> sameCmd ours desired then
                         st\<lparr>ms_hooks := h, ms_updated := ms_updated st @ [ev]\<rparr>
                       else st\<lparr>ms_hooks := h\<rparr>))))"

fun merge_events :: "(string \<times> string \<times> int) list \<Rightarrow> merge_state \<Rightarrow> merge_state result" where
  "merge_events [] st = Inr st"
| "merge_events (d # ds) st = bind_result (merge_event d st) (merge_events ds)"

definition mergeHooks ::
  "install_env \<Rightarrow> string option \<Rightarrow> install_options option \<Rightarrow> json
   \<Rightarrow> (json \<times> string list \<times> string list) result" where
  "mergeHooks e binPath os settings =
    bind_result (hooks_of settings) (\<lambda>h0.
      bind_result (merge_events (buildHooks e binPath os)
          \<lparr>ms_hooks = h0, ms_installed = [], ms_updated = []\<rparr>) (\<lambda>st.
        bind_result (write_prop settings ''hooks'' (ms_hooks st)) (\<lambda>s.
          Inr (s, ms_installed st, ms_updated st))))"

section \<open>Removing\<close>

text \<open>\<open>some\<close> with a predicate that may throw stops at the first hit.\<close>

fun some_result :: "('a \<Rightarrow> bool result) \<Rightarrow> 'a list \<Rightarrow> bool result" where
  "some_result p [] = Inr False"
| "some_result p (x # xs) = bind_result (p x) (\<lambda>b. if b then Inr True else some_result p xs)"

fun filter_result :: "('a \<Rightarrow> bool result) \<Rightarrow> 'a list \<Rightarrow> 'a list result" where
  "filter_result p [] = Inr []"
| "filter_result p (x # xs) =
     bind_result (p x) (\<lambda>b. bind_result (filter_result p xs) (\<lambda>ys. Inr (if b then x # ys else ys)))"

definition removable_handler :: "json \<Rightarrow> bool result" where
  "removable_handler h =
    bind_result (read_prop h ''command'') (\<lambda>c.
      Inr (case c of Some (JStr s) \<Rightarrow> patchwork_hook_re s | _ \<Rightarrow> False))"

definition removable_entry :: "json \<Rightarrow> bool result" where
  "removable_entry entry =
    bind_result (read_prop entry ''hooks'') (\<lambda>h.
      case h of
        Some (JArr hs) \<Rightarrow> some_result removable_handler hs
      | _ \<Rightarrow> removable_handler entry)"

definition keep_entries :: "json \<Rightarrow> json list result" where
  "keep_entries hookList =
    (case hookList of
       JArr vs \<Rightarrow> filter_result (\<lambda>v. bind_result (removable_entry v) (\<lambda>b. Inr (\<not> b))) vs
     | JNull \<Rightarrow> Inl (TypeError ''Cannot read properties of null (reading 'filter')'')
     | _ \<Rightarrow> Inl (TypeError ''hookList.filter is not a function''))"

definition list_length :: "json \<Rightarrow> nat" where
  "list_length v = (case v of JArr vs \<Rightarrow> length vs | _ \<Rightarrow> 0)"

text \<open>The loop over the members of an object: those left, and the names of those that changed.\<close>

fun removeMembers :: "(string \<times> json) list \<Rightarrow> ((string \<times> json) list \<times> string list) result" where
  "removeMembers [] = Inr ([], [])"
| "removeMembers ((ev, hookList) # ms) =
     bind_result (keep_entries hookList) (\<lambda>kept.
       bind_result (removeMembers ms) (\<lambda>(ms', removed).
         Inr (if kept = [] then ms' else (ev, JArr kept) # ms',
              if length kept \<noteq> list_length hookList then ev # removed else removed)))"

text \<open>Over an array the names are the indices, and a deleted element prints as null.\<close>

fun removeElements :: "nat \<Rightarrow> json list \<Rightarrow> (json list \<times> string list) result" where
  "removeElements n [] = Inr ([], [])"
| "removeElements n (hookList # vs) =
     bind_result (keep_entries hookList) (\<lambda>kept.
       bind_result (removeElements (Suc n) vs) (\<lambda>(vs', removed).
         Inr ((if kept = [] then JNull else JArr kept) # vs',
              if length kept \<noteq> list_length hookList then digits_of n # removed else removed)))"

text \<open>A string has its characters as entries, and a character has no \<open>filter\<close>.\<close>

definition removeHooks :: "json \<Rightarrow> (json \<times> string list) result" where
  "removeHooks settings =
    bind_result (hooks_of settings) (\<lambda>h.
      bind_result
        (case h of
           JObj ms \<Rightarrow> bind_result (removeMembers ms) (\<lambda>(ms', removed). Inr (JObj ms', removed))
         | JArr vs \<Rightarrow> bind_result (removeElements 0 vs) (\<lambda>(vs', removed). Inr (JArr vs', removed))
         | JStr s \<Rightarrow> Inl (TypeError ''hookList.filter is not a function'')
         | _ \<Rightarrow> Inr (h, []))
        (\<lambda>(h', removed). bind_result (write_prop settings ''hooks'' h') (\<lambda>s. Inr (s, removed))))"

end
