(* ===== verification/HookInstaller.thy ===== *)
theory HookInstaller
  imports HookSettings TaintStore JsonPretty
begin

text \<open>
  The hook installer on the file system, \<^verbatim>\<open>packages/agents/src/claude-code/installer.ts\<close>: install and
  uninstall as sequences of file-system calls. Other processes act on the project's directory between
  any two calls, as the record \<open>host\<close> says.
\<close>

section \<open>The file system\<close>

text \<open>
  A settings file as \<open>lstat\<close> sees it; \<open>Locked\<close> may not be looked at. The state is what \<open>.claude\<close>
  is, the settings file and the temporary file inside it, the same two in the directory a link at
  \<open>.claude\<close> leads to, and the text of the file a link at \<open>settings.json\<close> leads to, if there is one.
\<close>

datatype file_node = NoFile | PlainFile string | LinkFile | Locked

record claude_fs =
  cf_dir :: dir_state
  cf_own :: file_node
  cf_tmp :: "string option"
  cf_far :: file_node
  cf_far_tmp :: "string option"
  cf_target :: "string option"

text \<open>
  The host: what other processes do before the \<open>n\<close>th call of an operation, and whether the host
  carries out the \<open>n\<close>th call.
\<close>

record host =
  ho_other :: "nat \<Rightarrow> claude_fs \<Rightarrow> claude_fs"
  ho_ok :: "nat \<Rightarrow> bool"

definition settings_node :: "claude_fs \<Rightarrow> file_node" where
  "settings_node w =
    (case cf_dir w of
       DirAbsent \<Rightarrow> NoFile | DirPlain \<Rightarrow> cf_own w | DirSymlink \<Rightarrow> cf_far w | DirUnreadable \<Rightarrow> Locked)"

definition set_settings_node :: "file_node \<Rightarrow> claude_fs \<Rightarrow> claude_fs" where
  "set_settings_node x w = (if cf_dir w = DirSymlink then w\<lparr>cf_far := x\<rparr> else w\<lparr>cf_own := x\<rparr>)"

definition tmp_file :: "claude_fs \<Rightarrow> string option" where
  "tmp_file w =
    (case cf_dir w of DirPlain \<Rightarrow> cf_tmp w | DirSymlink \<Rightarrow> cf_far_tmp w | _ \<Rightarrow> None)"

definition set_tmp_file :: "string option \<Rightarrow> claude_fs \<Rightarrow> claude_fs" where
  "set_tmp_file t w =
    (case cf_dir w of DirPlain \<Rightarrow> w\<lparr>cf_tmp := t\<rparr> | DirSymlink \<Rightarrow> w\<lparr>cf_far_tmp := t\<rparr> | _ \<Rightarrow> w)"

text \<open>A call that changes the state and may throw, and the ways such calls are put together.\<close>

type_synonym 'a call = "claude_fs \<Rightarrow> claude_fs \<times> 'a result"

definition call_return :: "'a \<Rightarrow> 'a call" where
  "call_return x w = (w, Inr x)"

definition call_throw :: "js_error \<Rightarrow> 'a call" where
  "call_throw err w = (w, Inl err)"

definition call_lift :: "'a result \<Rightarrow> 'a call" where
  "call_lift r w = (w, r)"

definition call_bind :: "'a call \<Rightarrow> ('a \<Rightarrow> 'b call) \<Rightarrow> 'b call" where
  "call_bind c f w = (case c w of (w', Inl err) \<Rightarrow> (w', Inl err) | (w', Inr x) \<Rightarrow> f x w')"

definition call_catch :: "'a call \<Rightarrow> (js_error \<Rightarrow> 'a call) \<Rightarrow> 'a call" where
  "call_catch c g w = (case c w of (w', Inl err) \<Rightarrow> g err w' | (w', Inr x) \<Rightarrow> (w', Inr x))"

text \<open>One file-system call: the other processes first, then the call on what they left.\<close>

definition syscall :: "host \<Rightarrow> nat \<Rightarrow> 'a call \<Rightarrow> 'a call" where
  "syscall ho n c w = c (ho_other ho n w)"

definition enoent :: js_error where
  "enoent = Thrown ''ENOENT: no such file or directory''"

definition eacces :: js_error where
  "eacces = Thrown ''EACCES: permission denied''"

definition dir_exists :: "host \<Rightarrow> nat \<Rightarrow> bool call" where
  "dir_exists ho n = syscall ho n (\<lambda>w. (w, Inr (cf_dir w = DirPlain \<or> cf_dir w = DirSymlink)))"

text \<open>\<open>mkdirSync(settingsDir, { recursive: true })\<close> leaves a directory that is there alone.\<close>

definition make_dir :: "host \<Rightarrow> nat \<Rightarrow> unit call" where
  "make_dir ho n = syscall ho n (\<lambda>w.
    if \<not> ho_ok ho n \<or> cf_dir w = DirUnreadable then (w, Inl eacces)
    else if cf_dir w = DirAbsent then
      (w\<lparr>cf_dir := DirPlain, cf_own := NoFile, cf_tmp := None\<rparr>, Inr ())
    else (w, Inr ()))"

definition dir_is_link :: "host \<Rightarrow> nat \<Rightarrow> bool call" where
  "dir_is_link ho n = syscall ho n (\<lambda>w.
    (w, case cf_dir w of DirAbsent \<Rightarrow> Inl enoent | DirUnreadable \<Rightarrow> Inl eacces
        | DirPlain \<Rightarrow> Inr False | DirSymlink \<Rightarrow> Inr True))"

text \<open>\<open>existsSync\<close> follows a link, \<open>lstatSync\<close> does not.\<close>

definition file_exists :: "host \<Rightarrow> nat \<Rightarrow> bool call" where
  "file_exists ho n = syscall ho n (\<lambda>w.
    (w, Inr (case settings_node w of PlainFile c \<Rightarrow> True | LinkFile \<Rightarrow> cf_target w \<noteq> None | _ \<Rightarrow> False)))"

definition file_is_link :: "host \<Rightarrow> nat \<Rightarrow> bool call" where
  "file_is_link ho n = syscall ho n (\<lambda>w.
    (w, case settings_node w of NoFile \<Rightarrow> Inl enoent | Locked \<Rightarrow> Inl eacces
        | PlainFile c \<Rightarrow> Inr False | LinkFile \<Rightarrow> Inr True))"

definition read_file :: "host \<Rightarrow> nat \<Rightarrow> string call" where
  "read_file ho n = syscall ho n (\<lambda>w.
    (w, if \<not> ho_ok ho n then Inl eacces
        else case settings_node w of NoFile \<Rightarrow> Inl enoent | Locked \<Rightarrow> Inl eacces
          | PlainFile c \<Rightarrow> Inr c
          | LinkFile \<Rightarrow> (case cf_target w of Some c \<Rightarrow> Inr c | None \<Rightarrow> Inl enoent)))"

text \<open>\<open>writeFileSync\<close> follows a link at the file's name.\<close>

definition write_settings :: "host \<Rightarrow> nat \<Rightarrow> string \<Rightarrow> unit call" where
  "write_settings ho n content = syscall ho n (\<lambda>w.
    if \<not> ho_ok ho n then (w, Inl eacces)
    else if cf_dir w = DirAbsent then (w, Inl enoent)
    else case settings_node w of
        Locked \<Rightarrow> (w, Inl eacces)
      | LinkFile \<Rightarrow> (w\<lparr>cf_target := Some content\<rparr>, Inr ())
      | _ \<Rightarrow> (set_settings_node (PlainFile content) w, Inr ()))"

definition write_tmp :: "host \<Rightarrow> nat \<Rightarrow> string \<Rightarrow> unit call" where
  "write_tmp ho n content = syscall ho n (\<lambda>w.
    if \<not> ho_ok ho n then (w, Inl eacces)
    else if cf_dir w = DirAbsent then (w, Inl enoent)
    else if cf_dir w = DirUnreadable then (w, Inl eacces)
    else (set_tmp_file (Some content) w, Inr ()))"

text \<open>Removing the temporary file, best effort.\<close>

definition remove_tmp :: "host \<Rightarrow> nat \<Rightarrow> unit call" where
  "remove_tmp ho n = syscall ho n (\<lambda>w. (if ho_ok ho n then set_tmp_file None w else w, Inr ()))"

text \<open>A rename replaces what is at the new name, a link included, and does not follow it.\<close>

definition rename_tmp :: "host \<Rightarrow> nat \<Rightarrow> unit call" where
  "rename_tmp ho n = syscall ho n (\<lambda>w.
    if \<not> ho_ok ho n \<or> settings_node w = Locked then (w, Inl eacces)
    else case tmp_file w of
        None \<Rightarrow> (w, Inl enoent)
      | Some c \<Rightarrow> (set_settings_node (PlainFile c) (set_tmp_file None w), Inr ()))"

section \<open>Install and uninstall\<close>

record install_result =
  ir_success :: bool
  ir_settingsPath :: string
  ir_hooksInstalled :: "string list"
  ir_hooksUpdated :: "string list"
  ir_error :: "string option"

definition settings_path :: "install_env \<Rightarrow> string option \<Rightarrow> string" where
  "settings_path e project =
    (case str_or project None of
       Some p \<Rightarrow> path_join [p, ''.claude'', ''settings.json'']
     | None \<Rightarrow> path_join [path_join [ie_home e, ''.claude''], ''settings.json''])"

definition settings_dir :: "install_env \<Rightarrow> string option \<Rightarrow> string" where
  "settings_dir e project = path_join [settings_path e project, ''..'']"

definition failed_install :: "string \<Rightarrow> string \<Rightarrow> install_result" where
  "failed_install path msg = \<lparr>ir_success = False, ir_settingsPath = path, ir_hooksInstalled = [],
     ir_hooksUpdated = [], ir_error = Some msg\<rparr>"

definition finished_install :: "string \<Rightarrow> string list \<Rightarrow> string list \<Rightarrow> install_result" where
  "finished_install path ins upd = \<lparr>ir_success = True, ir_settingsPath = path,
     ir_hooksInstalled = ins, ir_hooksUpdated = upd, ir_error = None\<rparr>"

text \<open>\<open>existsSync(p) && lstatSync(p).isSymbolicLink()\<close> for the two places.\<close>

definition checked_dir_link :: "host \<Rightarrow> nat \<Rightarrow> bool call" where
  "checked_dir_link ho n =
    call_bind (dir_exists ho n) (\<lambda>b. if b then dir_is_link ho (Suc n) else call_return False)"

definition checked_file_link :: "host \<Rightarrow> nat \<Rightarrow> bool call" where
  "checked_file_link ho n =
    call_bind (file_exists ho n) (\<lambda>b. if b then file_is_link ho (Suc n) else call_return False)"

definition became_symlink :: "string \<Rightarrow> string" where
  "became_symlink p = ''Refusing to write: '' @ p @ '' became a symlink between checks.''"

definition atomicWriteRefuseSymlink ::
  "host \<Rightarrow> nat \<Rightarrow> string \<Rightarrow> string \<Rightarrow> string \<Rightarrow> string option call" where
  "atomicWriteRefuseSymlink ho n targetPath targetDir content =
    call_bind (dir_is_link ho n) (\<lambda>dl.
      if dl then call_return (Some (became_symlink targetDir))
      else call_bind (checked_file_link ho (n + 1)) (\<lambda>fl.
        if fl then call_return (Some (became_symlink targetPath))
        else call_catch
          (call_bind (write_tmp ho (n + 3) content) (\<lambda>u.
             call_bind (checked_file_link ho (n + 4)) (\<lambda>fl2.
               if fl2 then
                 call_bind (remove_tmp ho (n + 6)) (\<lambda>u2. call_return (Some (became_symlink targetPath)))
               else call_bind (rename_tmp ho (n + 7)) (\<lambda>u2. call_return None))))
          (\<lambda>err. call_bind (remove_tmp ho (n + 8)) (\<lambda>u.
             call_return (Some (''Atomic write failed: '' @ error_text err))))))"

definition refusing_install :: "string \<Rightarrow> string" where
  "refusing_install p =
    ''Refusing to install: '' @ p @ '' is a symlink. Resolve it manually before re-running.''"

text \<open>The checks of a project install before anything is read.\<close>

definition symlink_checks :: "host \<Rightarrow> nat \<Rightarrow> string \<Rightarrow> string \<Rightarrow> string option call" where
  "symlink_checks ho n settingsPath settingsDir =
    call_catch
      (call_bind (checked_dir_link ho n) (\<lambda>dl.
         if dl then call_return (Some (refusing_install settingsDir))
         else call_bind (checked_file_link ho (n + 2)) (\<lambda>fl.
           call_return (if fl then Some (refusing_install settingsPath) else None))))
      (\<lambda>err. call_return (Some (''Symlink check failed: '' @ error_text err)))"

definition ensure_dir :: "host \<Rightarrow> nat \<Rightarrow> unit call" where
  "ensure_dir ho n =
    call_bind (dir_exists ho n) (\<lambda>b. if b then call_return () else make_dir ho (Suc n))"

definition read_settings :: "install_env \<Rightarrow> host \<Rightarrow> nat \<Rightarrow> json call" where
  "read_settings e ho n =
    call_bind (file_exists ho n) (\<lambda>b.
      if b then call_bind (read_file ho (Suc n)) (\<lambda>c. call_lift (ie_parse e c))
      else call_return (JObj []))"

text \<open>The text of the file: \<open>JSON.stringify(settings, null, 2)\<close> and a newline.\<close>

definition render_settings :: "json \<Rightarrow> string" where
  "render_settings s = pretty 0 s @ [newline]"

definition install_body ::
  "install_env \<Rightarrow> host \<Rightarrow> string option \<Rightarrow> string option \<Rightarrow> install_options option
   \<Rightarrow> install_result call" where
  "install_body e ho project binPath os =
    (let path = settings_path e project; dir = settings_dir e project;
         in_project = str_or project None \<noteq> None
     in call_bind (ensure_dir ho 0) (\<lambda>u.
        call_bind (if in_project then symlink_checks ho 2 path dir else call_return None) (\<lambda>refused.
          case refused of
            Some msg \<Rightarrow> call_return (failed_install path msg)
          | None \<Rightarrow>
              call_bind (read_settings e ho 6) (\<lambda>settings.
              call_bind (call_lift (mergeHooks e binPath os settings)) (\<lambda>(s, ins, upd).
                if in_project then
                  call_bind (atomicWriteRefuseSymlink ho 8 path dir (render_settings s)) (\<lambda>err.
                    call_return (case err of Some msg \<Rightarrow> failed_install path msg
                      | None \<Rightarrow> finished_install path ins upd))
                else
                  call_bind (write_settings ho 17 (render_settings s)) (\<lambda>u2.
                    call_return (finished_install path ins upd)))))))"

text \<open>The outer \<open>try\<close>: what remains is a state and a result, never an exception.\<close>

definition catch_result :: "string \<Rightarrow> install_result call \<Rightarrow> claude_fs \<Rightarrow> claude_fs \<times> install_result" where
  "catch_result path c w =
    (case c w of (w', Inl err) \<Rightarrow> (w', failed_install path (error_text err)) | (w', Inr r) \<Rightarrow> (w', r))"

definition installClaudeCodeHooks ::
  "install_env \<Rightarrow> host \<Rightarrow> string option \<Rightarrow> string option \<Rightarrow> install_options option \<Rightarrow> claude_fs
   \<Rightarrow> claude_fs \<times> install_result" where
  "installClaudeCodeHooks e ho project binPath os w =
    (case snd (resolveFailClosed os) of
       Some msg \<Rightarrow> (w, failed_install (settings_path e project) msg)
     | None \<Rightarrow> catch_result (settings_path e project) (install_body e ho project binPath os) w)"

definition uninstallClaudeCodeHooks ::
  "install_env \<Rightarrow> host \<Rightarrow> string option \<Rightarrow> claude_fs \<Rightarrow> claude_fs \<times> install_result" where
  "uninstallClaudeCodeHooks e ho project w =
    (let path = settings_path e project in
     catch_result path
      (call_bind (file_exists ho 0) (\<lambda>b.
         if \<not> b then call_return (finished_install path [] [])
         else
           call_bind (read_file ho 1) (\<lambda>c.
           call_bind (call_lift (ie_parse e c)) (\<lambda>settings.
           call_bind (call_lift (removeHooks settings)) (\<lambda>(s, removed).
           call_bind (write_settings ho 2 (render_settings s)) (\<lambda>u.
             call_return (finished_install path removed []))))))) w)"

end
