(* ===== verification/InstallLemmas.thy ===== *)
theory InstallLemmas
  imports HookInstaller
begin

text \<open>
  Lemmas on the hook installer: the recogniser of the product's commands against its meaning as a
  pattern, the merge and the removal of entries member by member, and what the file-system calls
  keep.
\<close>

section \<open>The recogniser\<close>

lemma gap_hook_iff:
  "gap_hook s \<longleftrightarrow>
    (\<exists>a q b. s = a @ q @ b \<and> CHR 0x22 \<notin> set a \<and> (q = [] \<or> q = [CHR 0x22]) \<and> blank_hook b)"
    (is "_ \<longleftrightarrow> ?spec s")
proof (induction s)
  case Nil
  then show ?case by (auto simp: blank_hook_def)
next
  case (Cons c s)
  have split: "?spec (c # s) \<longleftrightarrow>
      blank_hook (c # s) \<or> (if c = CHR 0x22 then blank_hook s else ?spec s)"
  proof
    assume "?spec (c # s)"
    then obtain a q b where *: "c # s = a @ q @ b" "CHR 0x22 \<notin> set a" "q = [] \<or> q = [CHR 0x22]"
      "blank_hook b" by blast
    show "blank_hook (c # s) \<or> (if c = CHR 0x22 then blank_hook s else ?spec s)"
    proof (cases a)
      case Nil
      then show ?thesis using * by auto
    next
      case (Cons x a')
      then have "?spec s" "c \<noteq> CHR 0x22" using * by auto
      then show ?thesis by simp
    qed
  next
    assume *: "blank_hook (c # s) \<or> (if c = CHR 0x22 then blank_hook s else ?spec s)"
    consider "blank_hook (c # s)" | "c = CHR 0x22" "blank_hook s" | "c \<noteq> CHR 0x22" "?spec s"
      using * by (auto split: if_splits)
    then show "?spec (c # s)"
    proof cases
      case 1
      then show ?thesis by (intro exI [of _ "[]"] exI [of _ "c # s"]) simp
    next
      case 2
      then show ?thesis by (intro exI [of _ "[]"] exI [of _ "[c]"] exI [of _ s]) simp
    next
      case 3
      then obtain a q b where "s = a @ q @ b" "CHR 0x22 \<notin> set a" "q = [] \<or> q = [CHR 0x22]"
        "blank_hook b" by blast
      then show ?thesis using 3 by (intro exI [of _ "c # a"] exI [of _ q] exI [of _ b]) simp
    qed
  qed
  show ?case unfolding gap_hook.simps Cons.IH split by (rule refl)
qed

lemma named_hook_iff: "named_hook s \<longleftrightarrow> (\<exists>a b. s = a @ ''patchwork'' @ b \<and> gap_hook b)"
proof (induction s)
  case Nil
  then show ?case by simp
next
  case (Cons c s)
  have "(\<exists>a b. c # s = a @ ''patchwork'' @ b \<and> gap_hook b) \<longleftrightarrow>
      (\<exists>b. c # s = ''patchwork'' @ b \<and> gap_hook b)
    \<or> (\<exists>a b. s = a @ ''patchwork'' @ b \<and> gap_hook b)" (is "?l \<longleftrightarrow> ?r1 \<or> ?r2")
  proof
    assume ?l
    then obtain a b where "c # s = a @ ''patchwork'' @ b" "gap_hook b" by blast
    then show "?r1 \<or> ?r2" by (cases a) auto
  next
    assume "?r1 \<or> ?r2"
    then show ?l by (metis append_Cons append_Nil)
  qed
  then show ?case using Cons.IH by (auto simp: starts_with_iff)
qed

section \<open>The commands written\<close>

lemma join_snoc: "ws \<noteq> [] \<Longrightarrow> join sep (ws @ [w]) = join sep ws @ sep @ w"
  by (induction sep ws rule: join.induct) auto

lemma join_append: "us \<noteq> [] \<Longrightarrow> vs \<noteq> [] \<Longrightarrow> join sep (us @ vs) = join sep us @ sep @ join sep vs"
  by (induction sep us rule: join.induct) (auto simp: neq_Nil_conv)

lemma split_on_snoc: "d \<notin> set w \<Longrightarrow> split_on d (s @ d # w) = split_on d s @ [w]"
proof (induction s)
  case Nil
  have "split_on d w = [w]" using Nil by (induction w) auto
  then show ?case by simp
next
  case (Cons c s)
  moreover have "split_on d s \<noteq> []" by (induction s) (auto split: list.splits)
  ultimately show ?case by (auto split: list.splits)
qed

lemma norm_segments_snoc:
  "w \<noteq> [] \<Longrightarrow> w \<noteq> ''.'' \<Longrightarrow> w \<noteq> ''..''
   \<Longrightarrow> \<exists>xs. norm_segments root st (ss @ [w]) = xs @ [w]"
  by (induction root st ss rule: norm_segments.induct) auto

lemma join_ends: "\<exists>a. join sep (xs @ [w]) = a @ w"
  by (cases "xs = []") (auto simp: join_snoc)

lemma path_join_last:
  assumes "w \<noteq> []" "w \<noteq> ''.''" "w \<noteq> ''..''" "CHR ''/'' \<notin> set w"
  shows "\<exists>a. path_join [d, w] = a @ w"
proof -
  define p where "p = (if d = [] then w else d @ CHR ''/'' # w)"
  have p: "path_join [d, w] = path_normalize p" "p \<noteq> []" "last p \<noteq> CHR ''/''"
    using assms by (auto simp: path_join_def p_def dest: last_in_set split: if_splits)
  have "\<exists>ss. split_on (CHR ''/'') p = ss @ [w]"
  proof (cases "d = []")
    case True
    have "split_on (CHR ''/'') w = [w]" using assms(4) by (induction w) auto
    then show ?thesis by (simp add: p_def True)
  next
    case False
    then show ?thesis by (simp add: p_def split_on_snoc [OF assms(4)])
  qed
  then obtain ss where ss: "split_on (CHR ''/'') p = ss @ [w]" by blast
  obtain xs where xs: "norm_segments (hd p = CHR ''/'') [] (ss @ [w]) = xs @ [w]"
    using norm_segments_snoc [OF assms(1-3)] by blast
  obtain a where a: "join ''/'' (xs @ [w]) = a @ w" using join_ends by blast
  have "path_normalize p = (if hd p = CHR ''/'' then ''/'' else []) @ a @ w"
    using p(2,3) assms(1) by (simp add: path_normalize_def ss xs a Let_def)
  then show ?thesis using p(1) by auto
qed

lemma resolveBin_default:
  assumes "\<not> ie_windows e"
  shows "\<exists>a. resolveBin e None = a @ ''patchwork''"
proof -
  obtain a where "path_join [ie_nodeDir e, ''patchwork''] = a @ ''patchwork''"
    using path_join_last [of "''patchwork''"] by auto
  then show ?thesis using assms by (auto simp: resolveBin_def Let_def)
qed

lemma sqPath_name:
  assumes "bin = a @ ''patchwork''"
  shows "\<exists>u. sqPath bin = u @ ''patchwork'' @ [CHR 0x27]"
  by (simp add: assms sqPath_def slashes_def posix_quote_def quote_chars_append)
    (simp add: quote_chars_def)

lemma recognised_cmd:
  assumes "\<not> ie_windows e" and "blank_hook b"
  shows "patchwork_hook_re (pre @ hook_cmd e None @ b)"
proof -
  obtain u where u: "sqPath (resolveBin e None) = u @ ''patchwork'' @ [CHR 0x27]"
    using resolveBin_default [OF assms(1)] sqPath_name by blast
  have "gap_hook ([CHR 0x27] @ b)"
    unfolding gap_hook_iff
    by (intro exI [of _ "[CHR 0x27]"] exI [of _ "[]"] exI [of _ b]) (simp add: assms(2))
  then have "named_hook (pre @ hook_cmd e None @ b)"
    unfolding named_hook_iff
    by (intro exI [of _ "pre @ sqPath (ie_exec e) @ '' '' @ u"] exI [of _ "[CHR 0x27] @ b"])
      (simp add: hook_cmd_def u)
  then show ?thesis by (simp add: patchwork_hook_re_def)
qed

lemma recognised_hooks:
  assumes "\<not> ie_windows e"
  shows "list_all (\<lambda>d. patchwork_hook_re (fst (snd d))) (buildHooks e None os)"
proof -
  have b: "list_all blank_hook ['' hook pre-tool'', '' hook post-tool'', '' hook post-tool-failure'',
      '' hook session-start'', '' hook session-end'', '' hook prompt-submit'', '' hook subagent-start'',
      '' hook subagent-stop'']"
    by code_simp
  note r = recognised_cmd [OF assms, of _ "[]", simplified]
  have "patchwork_hook_re (preToolCmd e None os)"
    using b recognised_cmd [OF assms, of "'' hook pre-tool''" "join '' '' (envParts os) @ '' ''"]
      r [of "'' hook pre-tool''"]
    by (simp add: preToolCmd_def Let_def)
  with b r show ?thesis by (simp add: buildHooks_def Let_def)
qed

section \<open>Merging\<close>

text \<open>The entries of an event as a function of the members.\<close>

definition other_entries :: "json list \<Rightarrow> json list" where
  "other_entries = filter (\<lambda>x. \<not> isPatchwork x)"

lemma isPatchwork_wrap [simp]: "isPatchwork (wrap_hook c t) \<longleftrightarrow> patchwork_hook_re c"
  by (simp add: isPatchwork_def wrap_hook_def patchwork_handler_def)

lemma filter_ours_others [simp]:
  "filter isPatchwork (other_entries vs) = []" "filter (\<lambda>x. \<not> isPatchwork x) (other_entries vs) = other_entries vs"
  by (simp_all add: other_entries_def filter_empty_conv)

lemma merge_event_obj:
  assumes "ms_hooks st = JObj ms" and "merge_event (ev, c, t) st = Inr st'"
  obtains existing where "existing_entries (JObj ms) ev = Inr existing"
    "ms_hooks st' = JObj (obj_set ev (JArr (other_entries existing @ [wrap_hook c t])) ms)"
  using assms
  by (auto simp: merge_event_def result_simps Let_def other_entries_def split: if_splits)

text \<open>What an event holds after it was merged is stable: a second merge changes and reports nothing.\<close>

definition canonical :: "json \<Rightarrow> string \<times> string \<times> int \<Rightarrow> bool" where
  "canonical hooks d \<longleftrightarrow>
    (case d of (ev, c, t) \<Rightarrow>
       \<exists>vs. json_get hooks ev = Some (JArr (other_entries vs @ [wrap_hook c t])))"

lemma obj_set_same: "map_of ps k = Some v \<Longrightarrow> obj_set k v ps = ps"
  by (induction ps) (auto split: if_splits)

lemma merge_event_again:
  assumes "ms_hooks st = JObj ms" "canonical (JObj ms) (ev, c, t)" "patchwork_hook_re c"
  shows "merge_event (ev, c, t) st = Inr st"
proof -
  obtain vs where g: "map_of ms ev = Some (JArr (other_entries vs @ [wrap_hook c t]))"
    using assms(2) by (auto simp: canonical_def)
  have "sameCmd [wrap_hook c t] c" by (simp add: sameCmd_def wrap_hook_def)
  then show ?thesis
    using assms(1,3) obj_set_same [OF g]
    by (simp add: merge_event_def existing_entries_def g Let_def)
qed

lemma merge_events_again:
  assumes "ms_hooks st = JObj ms" "list_all (canonical (JObj ms)) ds"
    "list_all (\<lambda>d. patchwork_hook_re (fst (snd d))) ds"
  shows "merge_events ds st = Inr st"
  using assms(2,3)
proof (induction ds)
  case Nil
  then show ?case by simp
next
  case (Cons d ds)
  then show ?case using merge_event_again [OF assms(1)] by (cases d) simp
qed

text \<open>One merge after another: each event gets its entry, other names keep theirs.\<close>

lemma merge_events_members:
  assumes "merge_events ds st = Inr st'" "ms_hooks st = JObj ms" "distinct (map fst ds)"
  shows "\<exists>ms'. ms_hooks st' = JObj ms'
    \<and> (\<forall>ev. ev \<notin> fst ` set ds \<longrightarrow> map_of ms' ev = map_of ms ev)
    \<and> (\<forall>(ev, c, t) \<in> set ds. \<exists>existing. existing_entries (JObj ms) ev = Inr existing
         \<and> map_of ms' ev = Some (JArr (other_entries existing @ [wrap_hook c t])))"
  using assms
proof (induction ds arbitrary: st ms)
  case Nil
  then show ?case by simp
next
  case (Cons d ds)
  obtain ev c t where d: "d = (ev, c, t)" by (cases d)
  obtain st1 where st1: "merge_event (ev, c, t) st = Inr st1" "merge_events ds st1 = Inr st'"
    using Cons.prems(1) by (auto simp: d result_simps)
  obtain existing where ex: "existing_entries (JObj ms) ev = Inr existing"
    "ms_hooks st1 = JObj (obj_set ev (JArr (other_entries existing @ [wrap_hook c t])) ms)"
    using merge_event_obj [OF Cons.prems(2) st1(1)] .
  have new: "ev \<notin> fst ` set ds" using Cons.prems(3) by (auto simp: d)
  have "distinct (map fst ds)" using Cons.prems(3) by simp
  from Cons.IH [OF st1(2) ex(2) this] obtain ms' where ms': "ms_hooks st' = JObj ms'"
    and keep: "\<And>k. k \<notin> fst ` set ds \<Longrightarrow> map_of ms' k
       = map_of (obj_set ev (JArr (other_entries existing @ [wrap_hook c t])) ms) k"
    and each: "\<And>k c' t'. (k, c', t') \<in> set ds \<Longrightarrow> \<exists>vs. existing_entries
         (JObj (obj_set ev (JArr (other_entries existing @ [wrap_hook c t])) ms)) k = Inr vs
         \<and> map_of ms' k = Some (JArr (other_entries vs @ [wrap_hook c' t']))"
    by blast
  have "existing_entries (JObj (obj_set ev x ms)) k = existing_entries (JObj ms) k"
    if "(k, c', t') \<in> set ds" for k c' t' x
    using that new by (force simp: existing_entries_def)
  with each keep new ex(1) ms' show ?case
    by (intro exI [of _ ms'] conjI ballI allI impI) (auto simp: d)
qed

lemma hook_events_distinct: "distinct (map fst (buildHooks e b os))"
  by (simp add: buildHooks_def Let_def)

definition hook_events :: "string list" where
  "hook_events = [''PreToolUse'', ''PostToolUse'', ''PostToolUseFailure'', ''SessionStart'',
     ''SessionEnd'', ''UserPromptSubmit'', ''SubagentStart'', ''SubagentStop'']"

lemma map_fst_buildHooks: "map fst (buildHooks e b os) = hook_events"
  by (simp add: buildHooks_def Let_def hook_events_def)

lemma mergeHooks_obj:
  assumes "mergeHooks e b os (JObj ms) = Inr (s', ins, upd)" "hooks_of (JObj ms) = Inr (JObj hs)"
  obtains hs' st where
    "merge_events (buildHooks e b os) \<lparr>ms_hooks = JObj hs, ms_installed = [], ms_updated = []\<rparr> = Inr st"
    "ms_hooks st = JObj hs'" "s' = JObj (obj_set ''hooks'' (JObj hs') ms)"
proof -
  obtain st where st:
    "merge_events (buildHooks e b os) \<lparr>ms_hooks = JObj hs, ms_installed = [], ms_updated = []\<rparr> = Inr st"
    "s' = JObj (obj_set ''hooks'' (ms_hooks st) ms)"
    using assms by (auto simp: mergeHooks_def result_simps)
  obtain hs' where "ms_hooks st = JObj hs'"
    using merge_events_members [OF st(1) _ hook_events_distinct] by auto
  with st that show thesis by simp
qed

section \<open>Removing\<close>

lemma removable_handler_eq: "removable_handler h = Inr b \<longleftrightarrow> h \<noteq> JNull \<and> b = patchwork_handler h"
  by (auto simp: removable_handler_def read_prop_def patchwork_handler_def)

lemma some_result_removable:
  "some_result removable_handler hs = Inr b \<Longrightarrow> b = list_ex patchwork_handler hs"
proof (induction hs)
  case Nil
  then show ?case by simp
next
  case (Cons h hs)
  obtain c where c: "removable_handler h = Inr c" using Cons.prems by (auto simp: result_simps)
  then have "c = patchwork_handler h" by (simp add: removable_handler_eq)
  with Cons c show ?case by (cases c) auto
qed

lemma removable_entry_isPatchwork:
  assumes "removable_entry v = Inr b"
  shows "b = isPatchwork v"
proof -
  have "v \<noteq> JNull" using assms by (auto simp: removable_entry_def read_prop_def)
  then have r: "read_prop v ''hooks'' = Inr (json_get v ''hooks'')" by (simp add: read_prop_def)
  show ?thesis
  proof (cases "\<exists>hs. json_get v ''hooks'' = Some (JArr hs)")
    case True
    then obtain hs where hs: "json_get v ''hooks'' = Some (JArr hs)" ..
    then show ?thesis
      using assms some_result_removable by (simp add: removable_entry_def r isPatchwork_def)
  next
    case False
    then have "removable_handler v = Inr b"
      using assms by (simp add: removable_entry_def r split: option.splits json.splits)
    moreover have "isPatchwork v = patchwork_handler v"
      using False by (simp add: isPatchwork_def split: option.splits json.splits)
    ultimately show ?thesis by (simp add: removable_handler_eq)
  qed
qed

lemma removable_wrap [simp]: "removable_entry (wrap_hook c t) = Inr (patchwork_hook_re c)"
  by (simp add: removable_entry_def wrap_hook_def read_prop_def removable_handler_def)

lemma filter_result_eq:
  "filter_result p xs = Inr ys \<longleftrightarrow> (\<forall>x \<in> set xs. \<exists>b. p x = Inr b) \<and> ys = filter (\<lambda>x. p x = Inr True) xs"
proof (induction xs arbitrary: ys)
  case Nil
  then show ?case by auto
next
  case (Cons x xs)
  show ?case by (cases "p x") (auto simp: result_simps Cons.IH)
qed

lemma kept_entry:
  "bind_result (removable_entry v) (\<lambda>b. Inr (\<not> b)) = Inr k \<longleftrightarrow>
     (\<exists>b. removable_entry v = Inr b) \<and> k = (\<not> isPatchwork v)"
  using removable_entry_isPatchwork by (cases "removable_entry v") auto

lemma keep_entries_eq:
  "keep_entries (JArr vs) = Inr kept \<longleftrightarrow>
     (\<forall>v \<in> set vs. \<exists>b. removable_entry v = Inr b) \<and> kept = other_entries vs"
proof -
  have "(\<forall>v \<in> set vs. \<exists>b. removable_entry v = Inr b) \<Longrightarrow>
      filter (\<lambda>v. bind_result (removable_entry v) (\<lambda>b. Inr (\<not> b)) = Inr True) vs = other_entries vs"
    unfolding other_entries_def by (intro filter_cong) (simp_all add: kept_entry)
  moreover have "(\<forall>v \<in> set vs. \<exists>k. bind_result (removable_entry v) (\<lambda>b. Inr (\<not> b)) = Inr k)
      \<longleftrightarrow> (\<forall>v \<in> set vs. \<exists>b. removable_entry v = Inr b)"
    by (simp add: kept_entry)
  ultimately show ?thesis
    unfolding keep_entries_def json.case filter_result_eq by auto
qed

lemma keep_entries_merged:
  assumes "keep_entries (JArr vs) = Inr kept" "patchwork_hook_re c"
  shows "keep_entries (JArr (other_entries vs @ [wrap_hook c t])) = Inr kept"
proof -
  have "set (other_entries vs) \<subseteq> set vs" by (auto simp: other_entries_def)
  moreover have "other_entries (other_entries vs @ [wrap_hook c t]) = other_entries vs"
    using assms(2) by (simp add: other_entries_def)
  ultimately show ?thesis using assms(1) by (auto simp: keep_entries_eq)
qed

text \<open>Removal does not see a merge that went before it.\<close>

lemma removeMembers_merged:
  assumes "removeMembers ms = Inr (ms', removed)" "existing_entries (JObj ms) ev = Inr existing"
    "patchwork_hook_re c"
  shows "\<exists>r. removeMembers (obj_set ev (JArr (other_entries existing @ [wrap_hook c t])) ms) = Inr (ms', r)"
  using assms
proof (induction ms arbitrary: ms' removed)
  case Nil
  have "keep_entries (JArr [wrap_hook c t]) = Inr []"
    using assms(3) by (simp add: keep_entries_def)
  then show ?case using Nil by (simp add: existing_entries_def other_entries_def)
next
  case (Cons m ms)
  obtain k v where m: "m = (k, v)" by (cases m)
  obtain kept ms1 r1 where k: "keep_entries v = Inr kept" "removeMembers ms = Inr (ms1, r1)"
    "ms' = (if kept = [] then ms1 else (k, JArr kept) # ms1)"
    using Cons.prems(1) by (auto simp: m result_simps)
  show ?case
  proof (cases "k = ev")
    case True
    obtain vs where v: "v = JArr vs" using k(1) by (cases v) (auto simp: keep_entries_def)
    have "existing = vs" using Cons.prems(2) by (simp add: existing_entries_def m v True)
    then have "keep_entries (JArr (other_entries existing @ [wrap_hook c t])) = Inr kept"
      using keep_entries_merged [OF k(1) [unfolded v] assms(3)] by simp
    then show ?thesis using k by (simp add: m True)
  next
    case False
    then have "existing_entries (JObj ms) ev = Inr existing"
      using Cons.prems(2) by (simp add: existing_entries_def m)
    from Cons.IH [OF k(2) this assms(3)] show ?thesis
      using False k by (auto simp: m)
  qed
qed

lemma removeMembers_merge_events:
  assumes "merge_events ds st = Inr st'" "ms_hooks st = JObj ms" "ms_hooks st' = JObj ms2"
    "list_all (\<lambda>d. patchwork_hook_re (fst (snd d))) ds" "removeMembers ms = Inr (ms', removed)"
  shows "\<exists>r. removeMembers ms2 = Inr (ms', r)"
  using assms
proof (induction ds arbitrary: st ms removed)
  case Nil
  then show ?case by auto
next
  case (Cons d ds)
  obtain ev c t where d: "d = (ev, c, t)" by (cases d)
  obtain st1 where st1: "merge_event (ev, c, t) st = Inr st1" "merge_events ds st1 = Inr st'"
    using Cons.prems(1) by (auto simp: d result_simps)
  obtain existing where ex: "existing_entries (JObj ms) ev = Inr existing"
    "ms_hooks st1 = JObj (obj_set ev (JArr (other_entries existing @ [wrap_hook c t])) ms)"
    using merge_event_obj [OF Cons.prems(2) st1(1)] .
  have c: "patchwork_hook_re c" and rest: "list_all (\<lambda>d. patchwork_hook_re (fst (snd d))) ds"
    using Cons.prems(4) by (simp_all add: d)
  obtain r where "removeMembers (obj_set ev (JArr (other_entries existing @ [wrap_hook c t])) ms)
      = Inr (ms', r)"
    using removeMembers_merged [OF Cons.prems(5) ex(1) c] by blast
  from Cons.IH [OF st1(2) ex(2) Cons.prems(3) rest this] show ?case .
qed

lemma obj_set_twice: "obj_set k x (obj_set k y ms) = obj_set k x ms"
  by (induction ms) auto

section \<open>The commands, read by the shell recogniser\<close>

text \<open>A text that the word loop consumes whole, as the given value.\<close>

definition spells :: "string \<Rightarrow> string \<Rightarrow> bool" where
  "spells u v \<longleftrightarrow> (\<forall>w r. word_loop w (u @ r) = word_loop (word_append v w) r)"

definition plain_char :: "char \<Rightarrow> bool" where
  "plain_char c \<longleftrightarrow> is_alnumu c \<or> c = CHR ''-'' \<or> c = CHR ''=''"

lemma plain_char_not_special:
  "plain_char c \<Longrightarrow> c \<notin> {CHR '' '', tab, newline, CHR ''|'', CHR '';'', CHR ''&'', CHR ''('',
     CHR '')'', CHR ''<'', CHR ''>'', CHR 0x5C, CHR 0x27, CHR ''$'', CHR 0x22, CHR 0x60}"
  unfolding insert_iff empty_iff de_Morgan_disj
  by (intro conjI notI)
    (simp_all add: plain_char_def is_alnumu_def is_alphau_def is_upper_def is_digit_def in_range_def)

lemma spells_append: "spells u v \<Longrightarrow> spells u' v' \<Longrightarrow> spells (u @ u') (v @ v')"
  by (simp add: spells_def word_append_append)

lemma spells_posix_quote: "spells (posix_quote v) v"
  by (simp add: spells_def word_loop_posix_quote)

lemma spells_plain: "list_all plain_char u \<Longrightarrow> spells u u"
proof (induction u)
  case Nil
  then show ?case by (simp add: spells_def word_append_def)
next
  case (Cons c u)
  then have "plain_char c" by simp
  then have "word_step w c cs = (True, word_append [c] w, cs)" for w cs
    using plain_char_not_special [of c] by (simp add: word_step_def is_word_break_def)
  then have "spells [c] [c]" by (simp add: spells_def)
  with Cons spells_append [of "[c]" "[c]" u u] show ?case by simp
qed

definition word_start :: "char \<Rightarrow> bool" where
  "word_start c \<longleftrightarrow> is_alphau c \<or> c = CHR 0x27"

definition spelt_token :: "token_kind \<Rightarrow> string \<Rightarrow> string \<Rightarrow> token" where
  "spelt_token k u v = (plain_token k u)\<lparr>tresolved := Some v, thas_expansion := False,
     thas_command_sub := False\<rparr>"

lemma lex_step_spelt:
  assumes "spells u v" "u \<noteq> []" "word_start (hd u)" "lrest lx = u @ r" "r = [] \<or> is_word_break (hd r)"
  shows "lex_step lx = push [spelt_token
     (if is_assignment_text u \<and> starts_command (ltokens lx) then Assignment else Word) u v] [] r lx"
proof -
  have w: "word_loop word_acc0 (u @ r) = (word_append v word_acc0, r)"
    using assms(1,5) word_loop_stop by (simp add: spells_def)
  obtain c cs where u: "u = c # cs" using assms(2) by (cases u) auto
  have "consume_word lx = push [spelt_token
     (if is_assignment_text u \<and> starts_command (ltokens lx) then Assignment else Word) u v] [] r lx"
    using assms(2) unfolding consume_word_def assms(4) w Let_def fst_conv snd_conv
    by (simp add: spelt_token_def word_append_def word_acc0_def)
  moreover have "\<not> starts_redirect (c # cs @ r)"
    using assms(3) starts_redirect_head [of c "cs @ r"]
    by (auto simp: u word_start_def is_alphau_def is_digit_def is_upper_def in_range_def)
  moreover have "c \<notin> {CHR '' '', tab, newline, CHR ''#'', CHR 0x5C, CHR ''|'', CHR ''&'', CHR '';'',
      CHR ''('', CHR '')'', CHR ''<'', CHR ''>''}"
    using assms(3) unfolding insert_iff empty_iff de_Morgan_disj
    by (intro conjI notI) (simp_all add: u word_start_def is_alphau_def is_upper_def in_range_def)
  ultimately show ?thesis
    by (simp add: lex_step_def lex_char_def assms(4) u)
qed

text \<open>A line of such texts, a blank between them, with the value of each.\<close>

definition spelt_part :: "string \<times> string \<Rightarrow> bool" where
  "spelt_part p \<longleftrightarrow> spells (fst p) (snd p) \<and> fst p \<noteq> [] \<and> word_start (hd (fst p))"

fun spelt_tokens :: "bool \<Rightarrow> (string \<times> string) list \<Rightarrow> token list" where
  "spelt_tokens b [] = []"
| "spelt_tokens b ((u, v) # ps) =
     spelt_token (if is_assignment_text u \<and> b then Assignment else Word) u v
       # spelt_tokens (is_assignment_text u \<and> b) ps"

lemma starts_command_snoc:
  "starts_command (toks @ [spelt_token (if x then Assignment else Word) u v]) \<longleftrightarrow> x"
  by (simp add: starts_command_def spelt_token_def plain_token_def)

lemma lex_run_spelt:
  "list_all spelt_part ps \<Longrightarrow> lrest lx = join '' '' (map fst ps)
   \<Longrightarrow> lex_run lx = lx\<lparr>lrest := [], ltokens := ltokens lx @ spelt_tokens (starts_command (ltokens lx)) ps\<rparr>"
proof (induction ps arbitrary: lx)
  case Nil
  then show ?case by (simp add: lex_run_done)
next
  case (Cons p ps)
  obtain u v where p: "p = (u, v)" by (cases p)
  define tok where "tok = spelt_token
    (if is_assignment_text u \<and> starts_command (ltokens lx) then Assignment else Word) u v"
  have u: "spells u v" "u \<noteq> []" "word_start (hd u)" using Cons.prems(1) by (auto simp: p spelt_part_def)
  define r where "r = (if ps = [] then [] else '' '' @ join '' '' (map fst ps))"
  have l: "lrest lx = u @ r" using Cons.prems(2) by (cases ps) (simp_all add: p r_def)
  have "r = [] \<or> is_word_break (hd r)" by (simp add: r_def is_word_break_def)
  then have "lex_step lx = push [tok] [] r lx"
    unfolding tok_def by (rule lex_step_spelt [OF u l])
  then have 1: "lex_run lx = lex_run (push [tok] [] r lx)"
    using l u(2) by (simp add: lex_run_step)
  have sc: "starts_command (ltokens lx @ [tok]) \<longleftrightarrow> is_assignment_text u \<and> starts_command (ltokens lx)"
    by (simp add: tok_def starts_command_snoc)
  show ?case
  proof (cases "ps = []")
    case True
    then show ?thesis using 1 by (simp add: r_def p tok_def [symmetric] lex_run_done) (simp add: push_def)
  next
    case False
    define q where "q = join '' '' (map fst ps)"
    have "lex_run (push [tok] [] r lx) = lex_run (push [tok] [] q lx)"
      by (subst lex_run_step)
        (simp_all add: r_def False q_def [symmetric] lex_step_def lex_char_def, simp add: push_def)
    also have "\<dots> = (push [tok] [] q lx)\<lparr>lrest := [], ltokens := ltokens (push [tok] [] q lx)
        @ spelt_tokens (starts_command (ltokens (push [tok] [] q lx))) ps\<rparr>"
      using Cons.prems(1) by (intro Cons.IH) (simp_all add: q_def)
    finally show ?thesis using 1 sc by (simp add: push_def p tok_def [symmetric])
  qed
qed

lemma tokenize_spelt:
  "list_all spelt_part ps \<Longrightarrow> tokenize (join '' '' (map fst ps)) = (spelt_tokens True ps, [])"
  using lex_run_spelt [of ps "\<lparr>lrest = join '' '' (map fst ps), ltokens = [], lerrors = []\<rparr>"]
  by (simp add: tokenize_def starts_command_def)

lemma spelt_tokens_values:
  "map tresolved (spelt_tokens b ps) = map Some (map snd ps)"
  "\<forall>t \<in> set (spelt_tokens b ps). \<not> thas_expansion t"
  by (induction b ps rule: spelt_tokens.induct) (auto simp: spelt_token_def)

lemma spelt_tokens_kinds:
  "list_all (\<lambda>p. is_assignment_text (fst p)) as \<Longrightarrow> list_all (\<lambda>p. \<not> is_assignment_text (fst p)) ws
   \<Longrightarrow> map tkind (spelt_tokens True (as @ ws)) = replicate (length as) Assignment @ replicate (length ws) Word"
proof (induction as)
  case Nil
  have "map tkind (spelt_tokens b ws) = replicate (length ws) Word" for b
    using Nil by (induction b ws rule: spelt_tokens.induct) (auto simp: spelt_token_def plain_token_def)
  then show ?case by simp
next
  case (Cons a as)
  then show ?case by (cases a) (auto simp: spelt_token_def plain_token_def)
qed

text \<open>The variables a command sets, as names and values.\<close>

definition envSettings :: "install_options option \<Rightarrow> (string \<times> string) list" where
  "envSettings os =
    (if fst (resolveFailClosed os) then [(''PATCHWORK_PRETOOL_FAIL_CLOSED'', ''1'')] else [])
    @ (case os of
         None \<Rightarrow> []
       | Some o1 \<Rightarrow>
           opt_part (pretoolWarnMs o1) (\<lambda>n. (''PATCHWORK_PRETOOL_WARN_MS'', print_int n))
         @ (if pretoolTelemetryJson o1 = Some True then [(''PATCHWORK_PRETOOL_TELEMETRY_JSON'', ''1'')] else [])
         @ opt_part (pretoolTelemetryDest o1) (\<lambda>d. (''PATCHWORK_PRETOOL_TELEMETRY_DEST'', telemetry_dest_str d))
         @ opt_part (str_or (pretoolTelemetryFile o1) None) (\<lambda>f. (''PATCHWORK_PRETOOL_TELEMETRY_FILE'', f))
         @ opt_part (pretoolTelemetryMaxBytes o1) (\<lambda>n. (''PATCHWORK_PRETOOL_TELEMETRY_MAX_BYTES'', print_int n))
         @ opt_part (pretoolTelemetryMaxFiles o1) (\<lambda>n. (''PATCHWORK_PRETOOL_TELEMETRY_MAX_FILES'', print_int n))
         @ opt_part (pretoolTelemetryLockMode o1) (\<lambda>m. (''PATCHWORK_PRETOOL_TELEMETRY_LOCK_MODE'', telemetry_lock_str m)))"

definition setting_value :: "string \<times> string \<Rightarrow> string" where
  "setting_value p = fst p @ ''='' @ snd p"

text \<open>A variable's part of the command: bare for the two flags, quoted for the others.\<close>

definition setting_part :: "string \<Rightarrow> string \<times> string \<Rightarrow> bool" where
  "setting_part u p \<longleftrightarrow>
    list_all is_alphau (fst p) \<and> fst p \<noteq> [] \<and>
    (u = fst p @ ''='' @ posix_quote (snd p) \<or> u = fst p @ ''='' @ snd p \<and> snd p = ''1'')"

lemma setting_opt_part:
  "(\<And>x. setting_part (f x) (g x)) \<Longrightarrow> list_all2 setting_part (opt_part v f) (opt_part v g)"
  by (cases v) (simp_all add: opt_part_def)

lemma setting_flag:
  "(b \<Longrightarrow> setting_part u p) \<Longrightarrow> list_all2 setting_part (if b then [u] else []) (if b then [p] else [])"
  by simp

lemma envParts_settings: "list_all2 setting_part (envParts os) (envSettings os)"
  unfolding envParts_def envSettings_def
  by (cases os)
    (auto intro!: list_all2_appendI setting_opt_part
      simp: setting_part_def is_alphau_def is_upper_def in_range_def)

lemma dropWhile_name: "list_all is_alphau n \<Longrightarrow> dropWhile is_alnumu (n @ CHR ''='' # r) = CHR ''='' # r"
  by (induction n) (auto simp: is_alnumu_def is_alphau_def is_upper_def is_digit_def in_range_def)

lemma setting_part_facts:
  assumes "setting_part u p"
  shows "spelt_part (u, setting_value p)" "is_assignment_text u"
proof -
  have n: "list_all is_alphau (fst p)" "fst p \<noteq> []" using assms by (simp_all add: setting_part_def)
  then have hd: "is_alphau (hd (fst p))" by (cases "fst p") simp_all
  have "list_all plain_char (fst p @ ''='')"
    using n(1) by (auto simp: list_all_iff plain_char_def is_alnumu_def)
  then have s: "spells (fst p @ ''='') (fst p @ ''='')" by (rule spells_plain)
  have one: "spells ''1'' ''1''"
    by (rule spells_plain) (simp add: plain_char_def is_alnumu_def is_digit_def in_range_def)
  have "spells u (setting_value p)"
    using assms spells_append [OF s spells_posix_quote] spells_append [OF s one]
    by (auto simp: setting_part_def setting_value_def)
  moreover have "hd u = hd (fst p)" "u \<noteq> []" "\<exists>r. u = fst p @ CHR ''='' # r"
    using assms n(2) by (auto simp: setting_part_def)
  ultimately show "spelt_part (u, setting_value p)" "is_assignment_text u"
    using hd n(1) dropWhile_name [of "fst p"]
    by (auto simp: spelt_part_def word_start_def is_assignment_text_def starts_with_def)
qed

lemma spelt_quoted: "spelt_part (posix_quote v, v)" "\<not> is_assignment_text (posix_quote v)"
  using spells_posix_quote [of v]
  by (auto simp: spelt_part_def word_start_def is_assignment_text_def is_alphau_def is_upper_def
      in_range_def posix_quote_def)

lemma spelt_word:
  assumes "list_all plain_char u" "list_all (\<lambda>c. c \<noteq> CHR ''='') u" "u \<noteq> []" "is_alphau (hd u)"
  shows "spelt_part (u, u)" "\<not> is_assignment_text u"
proof -
  show "spelt_part (u, u)" using assms by (simp add: spelt_part_def spells_plain word_start_def)
  have "c \<noteq> CHR ''=''" if "c \<in> set (dropWhile is_alnumu u)" for c
    using set_dropWhileD [OF that] assms(2) by (simp add: list_all_iff)
  then have "\<not> starts_with (dropWhile is_alnumu u) ''=''"
    unfolding starts_with_iff by fastforce
  then show "\<not> is_assignment_text u" by (simp add: is_assignment_text_def)
qed

section \<open>The file-system calls\<close>

text \<open>A property of the state that a call keeps, whatever it returns.\<close>

definition keeps :: "(claude_fs \<Rightarrow> bool) \<Rightarrow> 'a call \<Rightarrow> bool" where
  "keeps I c \<longleftrightarrow> (\<forall>w. I w \<longrightarrow> I (fst (c w)))"

lemma keeps_return [intro]: "keeps I (call_return x)"
  by (simp add: keeps_def call_return_def)

lemma keeps_lift [intro]: "keeps I (call_lift r)"
  by (simp add: keeps_def call_lift_def)

lemma keeps_bind [intro]:
  assumes "keeps I c" "\<And>x. keeps I (f x)"
  shows "keeps I (call_bind c f)"
  using assms unfolding keeps_def call_bind_def
  by (auto split: prod.splits sum.splits)

lemma keeps_catch [intro]:
  assumes "keeps I c" "\<And>err. keeps I (g err)"
  shows "keeps I (call_catch c g)"
  using assms unfolding keeps_def call_catch_def
  by (auto split: prod.splits sum.splits)

lemma keeps_if: "keeps I c \<Longrightarrow> keeps I d \<Longrightarrow> keeps I (if b then c else d)"
  by simp

lemma keeps_syscall:
  assumes "\<And>w. I w \<Longrightarrow> I (ho_other ho n w)" "\<And>w. I w \<Longrightarrow> I (fst (c w))"
  shows "keeps I (syscall ho n c)"
  using assms by (simp add: keeps_def syscall_def)

text \<open>What lies outside the project's directory.\<close>

definition outside :: "claude_fs \<Rightarrow> file_node \<times> string option \<times> string option" where
  "outside w = (cf_far w, cf_far_tmp w, cf_target w)"

text \<open>Other processes that leave \<open>.claude\<close> what it is and the files outside it alone.\<close>

definition inside_only :: "host \<Rightarrow> bool" where
  "inside_only ho \<longleftrightarrow>
    (\<forall>n w. cf_dir (ho_other ho n w) = cf_dir w \<and> outside (ho_other ho n w) = outside w)"

definition no_link_dir ::
  "file_node \<times> string option \<times> string option \<Rightarrow> claude_fs \<Rightarrow> bool" where
  "no_link_dir x w \<longleftrightarrow> cf_dir w \<noteq> DirSymlink \<and> outside w = x"

lemma no_link_dir_other: "inside_only ho \<Longrightarrow> no_link_dir x w \<Longrightarrow> no_link_dir x (ho_other ho n w)"
  by (simp add: no_link_dir_def inside_only_def)

lemma keeps_no_link_dir:
  assumes "inside_only ho"
  shows "keeps (no_link_dir x) (dir_exists ho n)" "keeps (no_link_dir x) (make_dir ho n)"
    "keeps (no_link_dir x) (dir_is_link ho n)" "keeps (no_link_dir x) (file_exists ho n)"
    "keeps (no_link_dir x) (file_is_link ho n)" "keeps (no_link_dir x) (read_file ho n)"
    "keeps (no_link_dir x) (write_tmp ho n c)" "keeps (no_link_dir x) (remove_tmp ho n)"
    "keeps (no_link_dir x) (rename_tmp ho n)"
  unfolding dir_exists_def make_dir_def dir_is_link_def file_exists_def file_is_link_def read_file_def
    write_tmp_def remove_tmp_def rename_tmp_def
  by (rule keeps_syscall; simp add: no_link_dir_other [OF assms];
      simp add: no_link_dir_def outside_def set_tmp_file_def set_settings_node_def
        split: dir_state.split option.split)+

lemma keeps_checks:
  assumes "inside_only ho"
  shows "keeps (no_link_dir x) (symlink_checks ho n p d)" "keeps (no_link_dir x) (ensure_dir ho n)"
    "keeps (no_link_dir x) (read_settings e ho n)"
    "keeps (no_link_dir x) (atomicWriteRefuseSymlink ho n p d c)"
  unfolding symlink_checks_def ensure_dir_def read_settings_def checked_dir_link_def checked_file_link_def
    atomicWriteRefuseSymlink_def
  by (intro keeps_bind keeps_catch keeps_if keeps_no_link_dir [OF assms] keeps_return keeps_lift)+

definition link_dir ::
  "file_node \<times> string option \<times> string option \<Rightarrow> claude_fs \<Rightarrow> bool" where
  "link_dir x w \<longleftrightarrow> cf_dir w = DirSymlink \<and> outside w = x"

text \<open>At a link the install ends before it reads or writes anything.\<close>

lemma link_dir_other: "inside_only ho \<Longrightarrow> link_dir x w \<Longrightarrow> link_dir x (ho_other ho n w)"
  by (simp add: link_dir_def inside_only_def)

lemma ensure_dir_link:
  assumes "inside_only ho" "link_dir x w"
  shows "\<exists>w'. ensure_dir ho n w = (w', Inr ()) \<and> link_dir x w'"
  using link_dir_other [OF assms, of n]
  by (auto simp: ensure_dir_def call_bind_def dir_exists_def syscall_def link_dir_def call_return_def)

lemma symlink_checks_link:
  assumes "inside_only ho" "link_dir x w"
  shows "\<exists>w' msg. symlink_checks ho n p d w = (w', Inr (Some msg)) \<and> link_dir x w'"
proof -
  have "link_dir x (ho_other ho n w)" "link_dir x (ho_other ho (Suc n) (ho_other ho n w))"
    using link_dir_other [OF assms(1)] assms(2) by blast+
  then show ?thesis
    by (auto simp: symlink_checks_def checked_dir_link_def call_bind_def call_catch_def dir_exists_def
        dir_is_link_def syscall_def link_dir_def call_return_def)
qed

lemma install_body_link:
  assumes "inside_only ho" "link_dir x w"
  shows "link_dir x (fst (install_body e ho (Some (c # p)) b os w))"
proof -
  obtain w1 where w1: "ensure_dir ho 0 w = (w1, Inr ())" "link_dir x w1"
    using ensure_dir_link [OF assms] by blast
  obtain w2 msg where w2: "symlink_checks ho 2 (settings_path e (Some (c # p)))
      (settings_dir e (Some (c # p))) w1 = (w2, Inr (Some msg))" "link_dir x w2"
    using symlink_checks_link [OF assms(1) w1(2)] by blast
  show ?thesis
    using w1 w2 by (simp add: install_body_def Let_def call_bind_def call_return_def)
qed

lemma keeps_option:
  "(\<And>m. keeps I (f m)) \<Longrightarrow> keeps I d \<Longrightarrow> keeps I (case r of Some m \<Rightarrow> f m | None \<Rightarrow> d)"
  by (cases r) simp_all

lemma keeps_prod: "(\<And>a b c. keeps I (f a b c)) \<Longrightarrow> keeps I (case t of (a, b, c) \<Rightarrow> f a b c)"
  by (cases t) simp

lemma install_body_no_link:
  assumes "inside_only ho"
  shows "keeps (no_link_dir x) (install_body e ho (Some (c # p)) b os)"
  unfolding install_body_def Let_def str_or.simps
  by (simp del: not_None_eq, intro keeps_bind keeps_option keeps_prod keeps_if keeps_return keeps_lift
      keeps_checks [OF assms])

section \<open>An install on a host where nothing else runs\<close>

definition quiet_host :: "(nat \<Rightarrow> bool) \<Rightarrow> host" where
  "quiet_host ok = \<lparr>ho_other = (\<lambda>n w. w), ho_ok = ok\<rparr>"

lemma quiet_host_sel [simp]: "ho_other (quiet_host ok) n w = w" "ho_ok (quiet_host ok) n = ok n"
  by (simp_all add: quiet_host_def)

lemma syscall_quiet [simp]: "syscall (quiet_host ok) n c = c"
  by (simp add: syscall_def fun_eq_iff)

lemma ensure_dir_quiet:
  "ensure_dir (quiet_host ok) n w =
    (if cf_dir w = DirPlain \<or> cf_dir w = DirSymlink then (w, Inr ())
     else if \<not> ok (Suc n) \<or> cf_dir w = DirUnreadable then (w, Inl eacces)
     else (w\<lparr>cf_dir := DirPlain, cf_own := NoFile, cf_tmp := None\<rparr>, Inr ()))"
  by (cases "cf_dir w")
    (simp_all add: ensure_dir_def call_bind_def dir_exists_def make_dir_def call_return_def)

text \<open>A link that leads to a file.\<close>

definition live_link :: "claude_fs \<Rightarrow> bool" where
  "live_link w \<longleftrightarrow> settings_node w = LinkFile \<and> cf_target w \<noteq> None"

lemma checked_file_link_quiet:
  "checked_file_link (quiet_host ok) n w = (w, Inr (live_link w))"
  by (cases "settings_node w")
    (simp_all add: checked_file_link_def call_bind_def file_exists_def file_is_link_def call_return_def
      live_link_def)

lemma symlink_checks_quiet:
  "cf_dir w = DirPlain \<Longrightarrow> symlink_checks (quiet_host ok) n p d w
     = (w, Inr (if live_link w then Some (refusing_install p) else None))"
  "cf_dir w = DirSymlink \<Longrightarrow> symlink_checks (quiet_host ok) n p d w = (w, Inr (Some (refusing_install d)))"
  by (simp_all add: symlink_checks_def checked_dir_link_def call_bind_def call_catch_def dir_exists_def
      dir_is_link_def call_return_def checked_file_link_quiet)

definition old_settings :: "install_env \<Rightarrow> claude_fs \<Rightarrow> json result" where
  "old_settings e w = (case settings_node w of PlainFile c \<Rightarrow> ie_parse e c | _ \<Rightarrow> Inr (JObj []))"

lemma read_settings_quiet:
  "\<not> live_link w \<Longrightarrow> read_settings e (quiet_host ok) n w
     = (w, case settings_node w of
             PlainFile c \<Rightarrow> if ok (Suc n) then ie_parse e c else Inl eacces
           | _ \<Rightarrow> Inr (JObj []))"
  by (cases "settings_node w")
    (auto simp: read_settings_def call_bind_def file_exists_def read_file_def call_return_def
      call_lift_def live_link_def)

lemma atomic_write_quiet:
  assumes "cf_dir w = DirPlain" "\<not> live_link w"
    and "atomicWriteRefuseSymlink (quiet_host ok) n p d content w = (w', r)"
  shows "(\<exists>msg. r = Inr (Some msg)) \<and> w'\<lparr>cf_tmp := cf_tmp w\<rparr> = w
    \<or> r = Inr None \<and> w' = w\<lparr>cf_own := PlainFile content, cf_tmp := None\<rparr>"
proof -
  have node: "settings_node v = cf_own v" "tmp_file v = cf_tmp v" "set_tmp_file t v = v\<lparr>cf_tmp := t\<rparr>"
    "set_settings_node x v = v\<lparr>cf_own := x\<rparr>" if "cf_dir v = DirPlain" for v t x
    using that by (simp_all add: settings_node_def tmp_file_def set_tmp_file_def set_settings_node_def)
  have live: "\<not> live_link (w\<lparr>cf_tmp := t\<rparr>)" for t
    using assms(1,2) by (simp add: live_link_def settings_node_def)
  show ?thesis
    using assms(3)
    by (auto simp: atomicWriteRefuseSymlink_def call_bind_def call_catch_def call_return_def
        dir_is_link_def assms(1,2) checked_file_link_quiet live write_tmp_def remove_tmp_def
        rename_tmp_def node split: if_splits)
qed

text \<open>The three ways the body of a project install ends there.\<close>

definition ends_well ::
  "install_env \<Rightarrow> string option \<Rightarrow> install_options option \<Rightarrow> string \<Rightarrow> claude_fs
   \<Rightarrow> claude_fs \<Rightarrow> install_result \<Rightarrow> bool" where
  "ends_well e b os path w w' r \<longleftrightarrow>
    (\<exists>old s ins upd. old_settings e w = Inr old \<and> mergeHooks e b os old = Inr (s, ins, upd)
      \<and> r = finished_install path ins upd
      \<and> cf_dir w' = DirPlain \<and> cf_tmp w' = None \<and> cf_own w' = PlainFile (render_settings s))"

definition ends_unchanged :: "string \<Rightarrow> claude_fs \<Rightarrow> claude_fs \<Rightarrow> install_result result \<Rightarrow> bool" where
  "ends_unchanged path w w' x \<longleftrightarrow>
    settings_node w' = settings_node w
    \<and> ((\<exists>err. x = Inl err) \<or> (\<exists>msg. x = Inr (failed_install path msg)))"

lemma read_settings_old:
  "\<not> live_link w \<Longrightarrow> read_settings e (quiet_host ok) n w = (w, Inr old) \<Longrightarrow> old_settings e w = Inr old"
  by (cases "settings_node w") (auto simp: read_settings_quiet old_settings_def split: if_splits)

lemma install_body_plain:
  fixes c p e
  defines "path \<equiv> settings_path e (Some (c # p))"
  assumes dir: "cf_dir w = DirPlain" and live: "\<not> live_link w"
    and run: "install_body e (quiet_host ok) (Some (c # p)) b os w = (w', x)"
  shows "ends_unchanged path w w' x \<or> (\<exists>r. x = Inr r \<and> ends_well e b os path w w' r)"
proof -
  have ready: "ensure_dir (quiet_host ok) 0 w = (w, Inr ())" by (simp add: ensure_dir_quiet dir)
  have checked: "symlink_checks (quiet_host ok) 2 path (settings_dir e (Some (c # p))) w = (w, Inr None)"
    by (simp add: symlink_checks_quiet(1) [OF dir] live)
  note body = install_body_def Let_def path_def [symmetric] call_bind_def ready checked call_lift_def
    call_return_def
  obtain old0 where read: "read_settings e (quiet_host ok) 6 w = (w, old0)"
    by (simp add: read_settings_quiet live)
  show ?thesis
  proof (cases old0)
    case (Inl err)
    then show ?thesis using run read by (auto simp: ends_unchanged_def body)
  next
    case (Inr old)
    then have old: "old_settings e w = Inr old" using read_settings_old [OF live] read by blast
    show ?thesis
    proof (cases "mergeHooks e b os old")
      case (Inl err)
      with run show ?thesis
        by (auto simp: ends_unchanged_def read \<open>old0 = Inr old\<close> body)
    next
      case (Inr t)
      obtain s ins upd where t: "mergeHooks e b os old = Inr (s, ins, upd)"
        using Inr by (cases t) simp
      obtain w2 y where y: "atomicWriteRefuseSymlink (quiet_host ok) 8 path
          (settings_dir e (Some (c # p))) (render_settings s) w = (w2, y)"
        by fastforce
      from atomic_write_quiet [OF dir live y] show ?thesis
      proof (elim disjE conjE exE)
        fix msg
        assume m: "y = Inr (Some msg)" "w2\<lparr>cf_tmp := cf_tmp w\<rparr> = w"
        have "settings_node (w2\<lparr>cf_tmp := cf_tmp w\<rparr>) = settings_node w2"
          by (cases "cf_dir w2") (simp_all add: settings_node_def)
        then show ?thesis
          using run m y t by (auto simp: ends_unchanged_def read \<open>old0 = Inr old\<close> body)
      next
        assume "y = Inr None" "w2 = w\<lparr>cf_own := PlainFile (render_settings s), cf_tmp := None\<rparr>"
        then show ?thesis
          using run y t old dir by (auto simp: ends_well_def read \<open>old0 = Inr old\<close> body)
      qed
    qed
  qed
qed

lemma install_body_quiet:
  fixes c p e
  defines "path \<equiv> settings_path e (Some (c # p))"
  assumes run: "install_body e (quiet_host ok) (Some (c # p)) b os w = (w', x)"
  shows "ends_unchanged path w w' x \<or> (\<exists>r. x = Inr r \<and> ends_well e b os path w w' r)"
proof -
  define made where "made = w\<lparr>cf_dir := DirPlain, cf_own := NoFile, cf_tmp := None\<rparr>"
  have made: "cf_dir made = DirPlain" "\<not> live_link made" "settings_node made = NoFile"
    by (simp_all add: made_def live_link_def settings_node_def)
  consider "cf_dir w = DirPlain" "\<not> live_link w" | "cf_dir w = DirSymlink \<or> cf_dir w = DirPlain \<and> live_link w"
    | "cf_dir w = DirUnreadable \<or> cf_dir w = DirAbsent \<and> \<not> ok 1" | "cf_dir w = DirAbsent" "ok 1"
    by (cases "cf_dir w") auto
  then show ?thesis
  proof cases
    case 1
    then show ?thesis using install_body_plain [OF 1 run] by (simp add: path_def)
  next
    case 2
    then show ?thesis
      using run by (auto simp: install_body_def Let_def call_bind_def call_return_def ensure_dir_quiet
          symlink_checks_quiet ends_unchanged_def path_def)
  next
    case 3
    then show ?thesis
      using run by (auto simp: install_body_def Let_def call_bind_def ensure_dir_quiet ends_unchanged_def)
  next
    case 4
    then have node: "settings_node w = NoFile" by (simp add: settings_node_def)
    have "install_body e (quiet_host ok) (Some (c # p)) b os made = (w', x)"
      using run 4 made(1)
      by (simp add: install_body_def Let_def call_bind_def ensure_dir_quiet) (simp add: made_def)
    from install_body_plain [OF made(1,2) this] node made(3) show ?thesis
      by (simp add: path_def ends_unchanged_def ends_well_def old_settings_def)
  qed
qed

end
