(* ===== verification/InstallProperties.thy ===== *)
theory InstallProperties
  imports InstallLemmas
begin

text \<open>What the hook installer guarantees, and where it falls short.\<close>

section \<open>The settings file\<close>

text \<open>
  C17: a second install changes nothing: with the program found by the installer itself, merging into
  the settings that an install produced gives the same settings, and reports no event as
  installed or updated.
\<close>

theorem install_idempotent:
  assumes "\<not> ie_windows e" and "is_JObj settings" and "hooks_of settings = Inr (JObj hs)"
    and "mergeHooks e None os settings = Inr (s', ins, upd)"
  shows "mergeHooks e None os s' = Inr (s', [], [])"
proof -
  obtain ms where ms: "settings = JObj ms" using assms(2) by (cases settings) simp_all
  obtain hs' st where st:
    "merge_events (buildHooks e None os) \<lparr>ms_hooks = JObj hs, ms_installed = [], ms_updated = []\<rparr> = Inr st"
    "ms_hooks st = JObj hs'" "s' = JObj (obj_set ''hooks'' (JObj hs') ms)"
    using mergeHooks_obj [OF assms(4,3) [unfolded ms]] .
  have "list_all (canonical (JObj hs')) (buildHooks e None os)"
    using merge_events_members [OF st(1) _ hook_events_distinct] st(2)
    by (fastforce simp: list_all_iff canonical_def)
  then have "merge_events (buildHooks e None os) \<lparr>ms_hooks = JObj hs', ms_installed = [], ms_updated = []\<rparr>
      = Inr \<lparr>ms_hooks = JObj hs', ms_installed = [], ms_updated = []\<rparr>"
    by (intro merge_events_again) (simp_all add: recognised_hooks [OF assms(1)])
  then show ?thesis
    by (simp add: mergeHooks_def hooks_of_def read_prop_def st(3) obj_set_twice)
qed

definition install_sample :: install_env where
  "install_sample = \<lparr>ie_windows = False, ie_exec = ''/usr/bin/node'', ie_nodeDir = ''/usr/bin'',
     ie_exists = (\<lambda>p. True), ie_npmCandidates = [], ie_require = None, ie_home = ''/home/u'',
     ie_parse = (\<lambda>s. if s = [] then Inl (Thrown ''Unexpected end of JSON input'') else Inr (JObj []))\<rparr>"

lemma install_sample_sel [simp]: "ie_windows install_sample = False" "ie_parse install_sample (c # s) = Inr (JObj [])"
  by (simp_all add: install_sample_def)

lemma merge_into_nothing: "\<exists>s' ins upd. mergeHooks e b os (JObj []) = Inr (s', ins, upd)"
  by (simp add: mergeHooks_def hooks_of_def read_prop_def buildHooks_def Let_def merge_event_def
      existing_entries_def)

lemma hooks_of_nothing: "hooks_of (JObj []) = Inr (JObj [])"
  by (simp add: hooks_of_def read_prop_def)

lemma install_idempotent_witness:
  "\<exists>s' ins upd. mergeHooks install_sample None None (JObj []) = Inr (s', ins, upd)
     \<and> mergeHooks install_sample None None s' = Inr (s', [], [])"
  using merge_into_nothing [of install_sample None None]
    install_idempotent [OF _ _ hooks_of_nothing, of install_sample None] by fastforce

text \<open>
  The names by which the product's commands are known. An entry is a stranger's when none of its
  handlers runs a command that mentions one of them.
\<close>

definition mentions_product :: "string \<Rightarrow> bool" where
  "mentions_product c \<longleftrightarrow> list_ex (includes_str c) [''patchwork'', ''hook-wrapper.'', ''guard.sh'']"

definition strange_handler :: "json \<Rightarrow> bool" where
  "strange_handler h \<longleftrightarrow> (case json_get h ''command'' of Some (JStr c) \<Rightarrow> \<not> mentions_product c | _ \<Rightarrow> True)"

definition strange_entry :: "json \<Rightarrow> bool" where
  "strange_entry entry \<longleftrightarrow>
    strange_handler entry
    \<and> (case json_get entry ''hooks'' of Some (JArr hs) \<Rightarrow> list_all strange_handler hs | _ \<Rightarrow> True)"

lemma includes_prefix: "includes_str s (p @ q) \<Longrightarrow> includes_str s p"
  unfolding includes_str_iff by auto

lemma named_hook_mentions: "named_hook s \<Longrightarrow> includes_str s ''patchwork''"
  by (induction s) (auto simp: starts_with_def)

lemma recognised_mentions: "patchwork_hook_re c \<Longrightarrow> mentions_product c"
  using named_hook_mentions [of c] includes_prefix [of c "''hook-wrapper.''"]
  by (auto simp: patchwork_hook_re_def mentions_product_def)

lemma strange_handler_not_ours: "strange_handler h \<Longrightarrow> \<not> patchwork_handler h"
  using recognised_mentions
  by (auto simp: patchwork_handler_def strange_handler_def split: option.splits json.splits)

lemma strange_not_ours: "strange_entry x \<Longrightarrow> \<not> isPatchwork x"
  unfolding strange_entry_def isPatchwork_def
  using strange_handler_not_ours
  by (auto simp: list_all_iff list_ex_iff split: option.split json.split)

lemma strangers_kept: "filter (\<lambda>x. \<not> isPatchwork x \<and> strange_entry x) xs = filter strange_entry xs"
  by (induction xs) (auto simp: strange_not_ours)

text \<open>
  C18: an install keeps what is not its own: every other setting, every event it does not use, and in
  each event it uses the entries it does not recognise as the product's, ahead of the one entry it
  adds; among these, in their order, are all entries none of whose commands mentions patchwork, a
  hook wrapper or a guard script.
\<close>

theorem install_keeps_others:
  assumes "is_JObj settings" and "hooks_of settings = Inr (JObj hs)"
    and "mergeHooks e b os settings = Inr (s', ins, upd)"
  shows "(\<forall>k. k \<noteq> ''hooks'' \<longrightarrow> json_get s' k = json_get settings k)
    \<and> (\<exists>hs'. hooks_of s' = Inr (JObj hs')
      \<and> (\<forall>ev. ev \<notin> set (map fst (buildHooks e b os)) \<longrightarrow> map_of hs' ev = map_of hs ev)
      \<and> (\<forall>(ev, c, t) \<in> set (buildHooks e b os). \<exists>existing kept.
           existing_entries (JObj hs) ev = Inr existing
         \<and> map_of hs' ev = Some (JArr (kept @ [wrap_hook c t]))
         \<and> kept = filter (\<lambda>x. \<not> isPatchwork x) existing
         \<and> filter strange_entry kept = filter strange_entry existing))"
proof -
  obtain ms where ms: "settings = JObj ms" using assms(1) by (cases settings) simp_all
  obtain hs' st where st:
    "merge_events (buildHooks e b os) \<lparr>ms_hooks = JObj hs, ms_installed = [], ms_updated = []\<rparr> = Inr st"
    "ms_hooks st = JObj hs'" "s' = JObj (obj_set ''hooks'' (JObj hs') ms)"
    using mergeHooks_obj [OF assms(3,2) [unfolded ms]] .
  have others: "\<forall>k. k \<noteq> ''hooks'' \<longrightarrow> json_get s' k = json_get settings k" by (simp add: st(3) ms)
  have "hooks_of s' = Inr (JObj hs')" by (simp add: hooks_of_def read_prop_def st(3))
  moreover have "\<exists>existing kept. existing_entries (JObj hs) ev = Inr existing
      \<and> map_of hs' ev = Some (JArr (kept @ [wrap_hook c t]))
      \<and> kept = filter (\<lambda>x. \<not> isPatchwork x) existing
      \<and> filter strange_entry kept = filter strange_entry existing"
    if "(ev, c, t) \<in> set (buildHooks e b os)" for ev c t
    using merge_events_members [OF st(1) _ hook_events_distinct] st(2) that
    by (fastforce simp: other_entries_def strangers_kept)
  moreover have "\<forall>ev. ev \<notin> set (map fst (buildHooks e b os)) \<longrightarrow> map_of hs' ev = map_of hs ev"
    using merge_events_members [OF st(1) _ hook_events_distinct] st(2) by auto
  ultimately show ?thesis using others by blast
qed

text \<open>Settings with a hook of the user's, and a model setting.\<close>

definition user_entry :: json where
  "user_entry = JObj [(''matcher'', JStr []), (''hooks'', JArr [JObj [(''type'', JStr ''command''),
     (''command'', JStr ''echo hi'')]])]"

definition user_settings :: json where
  "user_settings = JObj [(''model'', JStr ''m''), (''hooks'', JObj [(''PreToolUse'', JArr [user_entry])])]"

lemma install_keeps_others_witness:
  "\<exists>s' ins upd. mergeHooks install_sample None None user_settings = Inr (s', ins, upd)
     \<and> json_get s' ''model'' = Some (JStr ''m'')
     \<and> (\<exists>hs' entries. hooks_of s' = Inr (JObj hs') \<and> map_of hs' ''PreToolUse'' = Some (JArr entries)
          \<and> user_entry \<in> set entries)"
proof -
  have h: "is_JObj user_settings" "hooks_of user_settings = Inr (JObj [(''PreToolUse'', JArr [user_entry])])"
    by (simp_all add: user_settings_def hooks_of_def read_prop_def)
  have "case mergeHooks install_sample None None user_settings of Inl x \<Rightarrow> False | Inr r \<Rightarrow> True" by code_simp
  then obtain s' ins upd where m: "mergeHooks install_sample None None user_settings = Inr (s', ins, upd)"
    by (auto split: sum.splits)
  note kept = install_keeps_others [OF h m]
  obtain c t where def: "(''PreToolUse'', c, t) \<in> set (buildHooks install_sample None None)"
    by (auto simp: buildHooks_def Let_def)
  have strange: "strange_entry user_entry" by code_simp
  from kept obtain hs' where hs': "hooks_of s' = Inr (JObj hs')"
    and entries: "\<forall>(ev, c, t) \<in> set (buildHooks install_sample None None). \<exists>existing kept.
         existing_entries (JObj [(''PreToolUse'', JArr [user_entry])]) ev = Inr existing
       \<and> map_of hs' ev = Some (JArr (kept @ [wrap_hook c t]))
       \<and> kept = filter (\<lambda>x. \<not> isPatchwork x) existing
       \<and> filter strange_entry kept = filter strange_entry existing" by blast
  from bspec [OF entries def] obtain existing ks where
    "existing_entries (JObj [(''PreToolUse'', JArr [user_entry])]) ''PreToolUse'' = Inr existing"
    and new: "map_of hs' ''PreToolUse'' = Some (JArr (ks @ [wrap_hook c t]))"
    and "filter strange_entry ks = filter strange_entry existing" by auto
  then have "user_entry \<in> set (filter strange_entry ks)"
    using strange by (auto simp: existing_entries_def)
  then have "user_entry \<in> set (ks @ [wrap_hook c t])" by simp
  with new hs' have "\<exists>hs' entries. hooks_of s' = Inr (JObj hs')
      \<and> map_of hs' ''PreToolUse'' = Some (JArr entries) \<and> user_entry \<in> set entries" by blast
  moreover have "json_get s' ''model'' = Some (JStr ''m'')"
    using kept by (simp add: user_settings_def)
  ultimately show ?thesis using m by blast
qed

text \<open>
  C19: removing the hooks after an install leaves exactly what removing them before it would have left:
  nothing of the install stays in the settings.
\<close>

theorem uninstall_forgets_install:
  assumes "\<not> ie_windows e" and "is_JObj settings" and "hooks_of settings = Inr (JObj hs)"
    and "removeHooks settings = Inr (clean, removed)"
    and "mergeHooks e None os settings = Inr (s', ins, upd)"
  shows "\<exists>r. removeHooks s' = Inr (clean, r)"
proof -
  obtain ms where ms: "settings = JObj ms" using assms(2) by (cases settings) simp_all
  obtain hs' st where st:
    "merge_events (buildHooks e None os) \<lparr>ms_hooks = JObj hs, ms_installed = [], ms_updated = []\<rparr> = Inr st"
    "ms_hooks st = JObj hs'" "s' = JObj (obj_set ''hooks'' (JObj hs') ms)"
    using mergeHooks_obj [OF assms(5,3) [unfolded ms]] .
  obtain hs1 where rem: "removeMembers hs = Inr (hs1, removed)"
    and clean: "clean = JObj (obj_set ''hooks'' (JObj hs1) ms)"
    using assms(3,4) by (auto simp: removeHooks_def result_simps ms)
  obtain r where "removeMembers hs' = Inr (hs1, r)"
    using removeMembers_merge_events [OF st(1) _ st(2) recognised_hooks [OF assms(1)] rem] by auto
  then have "removeHooks s' = Inr (clean, r)"
    by (simp add: removeHooks_def hooks_of_def read_prop_def st(3) clean obj_set_twice)
  then show ?thesis ..
qed

lemma uninstall_forgets_install_witness:
  "\<exists>s' ins upd r. mergeHooks install_sample None None (JObj []) = Inr (s', ins, upd)
     \<and> removeHooks s' = Inr (JObj [(''hooks'', JObj [])], r)"
proof -
  have "removeHooks (JObj []) = Inr (JObj [(''hooks'', JObj [])], [])"
    by (simp add: removeHooks_def hooks_of_nothing)
  from uninstall_forgets_install [OF _ _ hooks_of_nothing this, of install_sample None]
    merge_into_nothing [of install_sample None None]
  show ?thesis by fastforce
qed

section \<open>The command line\<close>

text \<open>
  C20: the command before a tool, read by the shell recogniser: no error and no expansion; first the
  variables the options ask for, each with its value as given, then four words, the node binary, the
  program, hook and pre-tool. No path and no option value can add a word or an operator.
\<close>

theorem hook_command_words:
  "\<exists>toks. tokenize (preToolCmd e b os) = (toks, [])
    \<and> map tkind toks = replicate (length (envSettings os)) Assignment @ replicate 4 Word
    \<and> list_all (\<lambda>t. \<not> thas_expansion t) toks
    \<and> map tresolved toks = map Some (map setting_value (envSettings os)
        @ [slashes (ie_exec e), slashes (resolveBin e b), ''hook'', ''pre-tool''])"
proof -
  let ?as = "zip (envParts os) (map setting_value (envSettings os))"
  let ?ws = "[(posix_quote (slashes (ie_exec e)), slashes (ie_exec e)),
    (posix_quote (slashes (resolveBin e b)), slashes (resolveBin e b)),
    (''hook'', ''hook''), (''pre-tool'', ''pre-tool'')]"
  have len: "length (envParts os) = length (envSettings os)"
    using envParts_settings by (rule list_all2_lengthD)
  have as: "list_all spelt_part ?as" "list_all (\<lambda>p. is_assignment_text (fst p)) ?as"
    using envParts_settings [of os] setting_part_facts
    by (force simp: list_all_iff list_all2_iff zip_map2)+
  have pre: "list_all plain_char ''pre-tool''" "list_all plain_char ''hook''"
    "list_all (\<lambda>c. c \<noteq> CHR ''='') ''pre-tool''" "list_all (\<lambda>c. c \<noteq> CHR ''='') ''hook''"
    "is_alphau (CHR ''p'')" "is_alphau (CHR ''h'')"
    by code_simp+
  have ws: "list_all spelt_part ?ws" "list_all (\<lambda>p. \<not> is_assignment_text (fst p)) ?ws"
    using spelt_word [of "''pre-tool''"] spelt_word [of "''hook''"] pre
    by (simp_all add: spelt_quoted)
  have "preToolCmd e b os = join '' '' (map fst (?as @ ?ws))"
    by (cases "envParts os = []")
      (simp_all add: preToolCmd_def Let_def hook_cmd_def sqPath_def slashes_def len join_append)
  then have "tokenize (preToolCmd e b os) = (spelt_tokens True (?as @ ?ws), [])"
    using tokenize_spelt [of "?as @ ?ws"] as(1) ws(1) by simp
  then show ?thesis
    using spelt_tokens_values [of True "?as @ ?ws"] spelt_tokens_kinds [OF as(2) ws(2)] len
    by (auto simp: eval_nat_numeral list_all_iff)
qed

section \<open>The file system\<close>

text \<open>
  C21: a project install never changes a file outside the project's directory, whether it succeeds or
  not, whatever .claude and settings.json are, and whatever other processes put at the names
  inside the directory meanwhile, as long as they leave .claude itself what it is.
\<close>

theorem install_stays_inside:
  assumes "inside_only ho" and "project \<noteq> []"
  shows "outside (fst (installClaudeCodeHooks e ho (Some project) b os w)) = outside w"
proof -
  obtain c p where p: "project = c # p" using assms(2) by (cases project) simp_all
  have "outside (fst (install_body e ho (Some project) b os w)) = outside w"
  proof (cases "cf_dir w = DirSymlink")
    case True
    then show ?thesis
      using install_body_link [OF assms(1), of "outside w" w] by (simp add: link_dir_def p)
  next
    case False
    then have "no_link_dir (outside w) (fst (install_body e ho (Some project) b os w))"
      using install_body_no_link [OF assms(1), of "outside w" e c p b os]
      by (simp add: keeps_def no_link_dir_def p)
    then show ?thesis by (simp add: no_link_dir_def)
  qed
  then show ?thesis
    by (auto simp: installClaudeCodeHooks_def catch_result_def split: option.split prod.splits sum.splits)
qed

definition fresh_fs :: claude_fs where
  "fresh_fs = \<lparr>cf_dir = DirPlain, cf_own = NoFile, cf_tmp = None, cf_far = NoFile, cf_far_tmp = None,
     cf_target = None\<rparr>"

text \<open>A host whose other process puts a link at \<open>settings.json\<close> before every call.\<close>

definition relinking_host :: host where
  "relinking_host = \<lparr>ho_other = (\<lambda>n w. w\<lparr>cf_own := LinkFile\<rparr>), ho_ok = (\<lambda>n. True)\<rparr>"

lemma install_stays_inside_witness:
  "inside_only relinking_host
   \<and> outside (fst (installClaudeCodeHooks install_sample relinking_host (Some ''repo'') None None
       (fresh_fs\<lparr>cf_target := Some ''other''\<rparr>))) = (NoFile, None, Some ''other'')"
proof -
  have i: "inside_only relinking_host" by (simp add: inside_only_def relinking_host_def outside_def)
  have o: "outside (fresh_fs\<lparr>cf_target := Some ''other''\<rparr>) = (NoFile, None, Some ''other'')"
    by (simp add: outside_def fresh_fs_def)
  show ?thesis
    using i install_stays_inside [OF i, of "''repo''" install_sample None None
        "fresh_fs\<lparr>cf_target := Some ''other''\<rparr>"] o
    by simp
qed

text \<open>
  C22: on a host where nothing else runs a project install happens whole or not at all: it fails and the
  settings file is as before, or it succeeds, and the file holds the old settings with the hooks
  merged in; no temporary file is left then.
\<close>

theorem install_all_or_nothing:
  assumes "installClaudeCodeHooks e (quiet_host ok) (Some (c # p)) b os w = (w', r)"
  shows "\<not> ir_success r \<and> settings_node w' = settings_node w
    \<or> ir_success r \<and> cf_dir w' = DirPlain \<and> cf_tmp w' = None
      \<and> (\<exists>old s. old_settings e w = Inr old
           \<and> mergeHooks e b os old = Inr (s, ir_hooksInstalled r, ir_hooksUpdated r)
           \<and> cf_own w' = PlainFile (render_settings s))"
proof (cases "snd (resolveFailClosed os)")
  case (Some msg)
  then show ?thesis using assms by (auto simp: installClaudeCodeHooks_def failed_install_def)
next
  case None
  obtain x where x: "install_body e (quiet_host ok) (Some (c # p)) b os w = (w', x)"
    "r = (case x of Inl err \<Rightarrow> failed_install (settings_path e (Some (c # p))) (error_text err) | Inr y \<Rightarrow> y)"
    using assms None
    by (auto simp: installClaudeCodeHooks_def catch_result_def split: prod.splits sum.splits)
  from install_body_quiet [OF x(1)] show ?thesis
    unfolding x(2)
    by (auto simp: ends_unchanged_def ends_well_def failed_install_def finished_install_def)
qed

lemma fresh_install:
  "\<exists>w' r. installClaudeCodeHooks e (quiet_host (\<lambda>n. True)) (Some (c # p)) None None fresh_fs = (w', r)
     \<and> ir_success r"
proof -
  obtain s ins upd where m: "mergeHooks e None None (JObj []) = Inr (s, ins, upd)"
    using merge_into_nothing by blast
  have "\<not> live_link fresh_fs" "\<not> live_link (fresh_fs\<lparr>cf_tmp := t\<rparr>)" for t
    by (simp_all add: live_link_def settings_node_def fresh_fs_def)
  moreover have "cf_dir fresh_fs = DirPlain" "settings_node fresh_fs = NoFile"
    by (simp_all add: fresh_fs_def settings_node_def)
  ultimately show ?thesis
    by (simp add: installClaudeCodeHooks_def resolveFailClosed_def catch_result_def install_body_def
        Let_def call_bind_def call_return_def call_lift_def ensure_dir_quiet symlink_checks_quiet
        read_settings_quiet m atomicWriteRefuseSymlink_def call_catch_def dir_is_link_def
        checked_file_link_quiet write_tmp_def rename_tmp_def set_tmp_file_def tmp_file_def
        settings_node_def fresh_fs_def live_link_def finished_install_def)
qed

lemma install_all_or_nothing_witness:
  "\<exists>w' r. installClaudeCodeHooks install_sample (quiet_host (\<lambda>n. True)) (Some ''repo'') None None fresh_fs
       = (w', r)
     \<and> (\<exists>s. mergeHooks install_sample None None (JObj []) = Inr (s, ir_hooksInstalled r, ir_hooksUpdated r)
         \<and> cf_own w' = PlainFile (render_settings s))"
proof -
  obtain w' r where run: "installClaudeCodeHooks install_sample (quiet_host (\<lambda>n. True)) (Some ''repo'') None
      None fresh_fs = (w', r)" "ir_success r"
    using fresh_install by blast
  have "old_settings install_sample fresh_fs = Inr (JObj [])"
    by (simp add: old_settings_def settings_node_def fresh_fs_def)
  then show ?thesis using run install_all_or_nothing [OF run(1)] by auto
qed

section \<open>Where it falls short\<close>

text \<open>
  A settings file that holds an array: the install reports every event as installed, and the file
  keeps none, because the property set on the array is not printed.
\<close>

lemma array_settings_report_success: "mergeHooks e b os (JArr vs) = Inr (JArr vs, hook_events, [])"
  by (simp add: mergeHooks_def hooks_of_def read_prop_def buildHooks_def Let_def merge_event_def
      existing_entries_def hook_events_def)

text \<open>A user's handler that shares a group with one of the product's goes with it.\<close>

lemma shared_group_dropped:
  assumes "json_get g ''hooks'' = Some (JArr hs)" "h \<in> set hs" "patchwork_handler h"
  shows "isPatchwork g"
  using assms by (auto simp: isPatchwork_def list_ex_iff)

text \<open>A user's own script whose name ends in \<open>guard.sh\<close> counts as the product's.\<close>

lemma unrelated_guard_script:
  "isPatchwork (JObj [(''matcher'', JStr []), (''hooks'', JArr [JObj [(''type'', JStr ''command''),
     (''command'', JStr ''bash ~/bin/safeguard.sh'')]])])"
  by code_simp

text \<open>A null handler: the install passes over it, the removal throws and removes nothing.\<close>

lemma null_handler_blocks_removal:
  "removeHooks (JObj [(''hooks'', JObj [(''Stop'', JArr [JNull])])])
     = Inl (TypeError (''Cannot read properties of null (reading '' @ [CHR 0x27] @ ''hooks'' @ [CHR 0x27] @ '')''))"
  "\<exists>t. mergeHooks e b os (JObj [(''hooks'', JObj [(''Stop'', JArr [JNull])])]) = Inr t"
  by (simp_all add: removeHooks_def hooks_of_def read_prop_def keep_entries_def removable_entry_def
      mergeHooks_def buildHooks_def Let_def merge_event_def existing_entries_def)

text \<open>
  The directory is not looked at again before the rename: when \<open>.claude\<close> becomes a link after its
  last check, the install writes the file the link's directory holds, and reports success.
\<close>

definition swapping_host :: host where
  "swapping_host =
    \<lparr>ho_other = (\<lambda>n w. if n = 11 then w\<lparr>cf_dir := DirSymlink\<rparr> else w), ho_ok = (\<lambda>n. True)\<rparr>"

lemma swapped_directory_written:
  "\<exists>w' r s. installClaudeCodeHooks e swapping_host (Some (c # p)) None None fresh_fs = (w', r)
     \<and> ir_success r \<and> cf_far fresh_fs = NoFile \<and> cf_far w' = PlainFile (render_settings s)"
proof -
  obtain s ins upd where m: "mergeHooks e None None (JObj []) = Inr (s, ins, upd)"
    using merge_into_nothing by blast
  show ?thesis
    by (auto simp: installClaudeCodeHooks_def resolveFailClosed_def catch_result_def install_body_def
        Let_def call_bind_def call_return_def call_lift_def syscall_def swapping_host_def ensure_dir_def
        dir_exists_def symlink_checks_def checked_dir_link_def checked_file_link_def file_exists_def
        read_settings_def m atomicWriteRefuseSymlink_def call_catch_def dir_is_link_def
        write_tmp_def rename_tmp_def set_tmp_file_def tmp_file_def set_settings_node_def
        settings_node_def fresh_fs_def finished_install_def)
qed

text \<open>The removal has none of the install's checks: it writes through a link.\<close>

lemma uninstall_follows_links:
  assumes "ie_parse e c = Inr (JObj [])"
  shows "cf_target (fst (uninstallClaudeCodeHooks e (quiet_host (\<lambda>n. True)) project
      (fresh_fs\<lparr>cf_own := LinkFile, cf_target := Some c\<rparr>)))
    = Some (render_settings (JObj [(''hooks'', JObj [])]))"
  by (simp add: uninstallClaudeCodeHooks_def catch_result_def Let_def call_bind_def call_return_def
      call_lift_def file_exists_def read_file_def write_settings_def settings_node_def fresh_fs_def assms
      removeHooks_def hooks_of_nothing)

end
