(* ===== verification/TeamSync.thy ===== *)
theory TeamSync
  imports Attestation EventSchema
begin

text \<open>
  The sync agent of the team mode, \<^verbatim>\<open>packages/team/src\<close>: keys and signatures (\<^verbatim>\<open>crypto.ts\<close>), the
  schemas of the protocol (\<^verbatim>\<open>protocol.ts\<close>), the readers of the relay's log and seals, the cursor, the
  backoff and one cycle of the agent (\<^verbatim>\<open>sync/*.ts\<close>). The log is its bytes; the cursor's file is the
  value its text parses to, \<open>None\<close> where it is missing or does not parse; an HTTP body is the value
  it carries. The digests, the readers of JSON and of dates, the clock and the server's answer are
  arguments.
\<close>

section \<open>Constants\<close>

definition SYNC_INTERVAL_MS :: int where
  "SYNC_INTERVAL_MS = 30000"

definition MAX_BATCH_EVENTS :: nat where
  "MAX_BATCH_EVENTS = 500"

definition MAX_BATCH_BYTES :: nat where
  "MAX_BATCH_BYTES = 1048576"

definition API_KEY_PREFIX :: string where
  "API_KEY_PREFIX = ''pw_''"

definition ENROLL_TOKEN_PREFIX :: string where
  "ENROLL_TOKEN_PREFIX = ''enroll_''"

definition BACKOFF_SCHEDULE_MS :: "int list" where
  "BACKOFF_SCHEDULE_MS = [30000, 60000, 120000, 300000, 600000]"

section \<open>Keys, signatures, hashes\<close>

definition stripSignatureFields :: "json \<Rightarrow> json" where
  "stripSignatureFields envelope = json_remove ''signature'' envelope"

definition envelope_signature :: "sign_env \<Rightarrow> string \<Rightarrow> json \<Rightarrow> string" where
  "envelope_signature e apiKey envelope =
    ''hmac-sha256:'' @ sg_hmac e apiKey (canonicalize (stripSignatureFields envelope))"

fun set_members :: "(string \<times> json) list \<Rightarrow> json \<Rightarrow> json" where
  "set_members [] v = v"
| "set_members ((k, x) # kvs) (JObj ms) = set_members kvs (JObj (obj_set k x ms))"
| "set_members kvs v = v"

definition signEnvelope :: "sign_env \<Rightarrow> string \<Rightarrow> json \<Rightarrow> string \<Rightarrow> json" where
  "signEnvelope e now envelope apiKey =
    (let signed = set_members [(''signature'', JStr []), (''signed_at'', JStr now)] envelope
     in set_members [(''signature'', JStr (envelope_signature e apiKey signed))] signed)"

definition verifyEnvelope :: "sign_env \<Rightarrow> json \<Rightarrow> string \<Rightarrow> bool" where
  "verifyEnvelope e envelope apiKey \<longleftrightarrow>
    (case json_get envelope ''signature'' of
       Some (JStr sig) \<Rightarrow>
         sig \<noteq> [] \<and> starts_with sig ''hmac-sha256:'' \<and> sig = envelope_signature e apiKey envelope
     | _ \<Rightarrow> False)"

definition computeBatchHash :: "sign_env \<Rightarrow> json list \<Rightarrow> string" where
  "computeBatchHash e events = ''sha256:'' @ sg_sha e (canonicalize (JArr events))"

text \<open>The random part is an argument.\<close>

definition generateApiKey :: "string \<Rightarrow> string" where
  "generateApiKey random = API_KEY_PREFIX @ random"

definition hashApiKey :: "sign_env \<Rightarrow> string \<Rightarrow> string" where
  "hashApiKey e key = ''sha256:'' @ sg_sha e key"

definition deriveMachineId :: "sign_env \<Rightarrow> string \<Rightarrow> string \<Rightarrow> string" where
  "deriveMachineId e hardwareId teamId = sg_sha e (hardwareId @ '':'' @ teamId)"

section \<open>Schemas\<close>

text \<open>\<open>z.number().int().nonnegative()\<close>.\<close>

definition z_nat :: schema where
  "z_nat v = (case v of JNum i \<Rightarrow> if i \<ge> 0 then Some v else None | _ \<Rightarrow> None)"

text \<open>\<open>z.array(z.record(z.unknown()))\<close>.\<close>

definition z_records :: schema where
  "z_records v = (case v of JArr vs \<Rightarrow> if list_all is_JObj vs then Some v else None | _ \<Rightarrow> None)"

definition SyncCursorSchema :: schema where
  "SyncCursorSchema = z_object
    [(''schema_version'', Required (z_literal 1)), (''last_synced_offset'', Required z_nat),
     (''last_synced_event_hash'', Required (z_nullable z_string)),
     (''last_synced_at'', Required (z_nullable z_string)),
     (''last_seal_synced'', Required (z_nullable z_string)),
     (''consecutive_failures'', Required z_nat)]"

definition envelope_fields :: "(string \<times> field) list" where
  "envelope_fields =
    [(''schema_version'', Required (z_literal 1)),
     (''type'', Required (z_enum [''event-batch'', ''seal-batch'', ''attestation''])),
     (''machine_id'', Required z_string), (''machine_name'', Required z_string),
     (''developer_id'', Required z_string), (''team_id'', Required z_string),
     (''events'', Required z_records), (''seals'', Optional z_records),
     (''batch_hash'', Required z_string),
     (''first_event_hash'', Required (z_nullable z_string)),
     (''last_event_hash'', Required (z_nullable z_string)),
     (''relay_chain_tip'', Required (z_nullable z_string)),
     (''signature'', Required z_string), (''signed_at'', Required z_string),
     (''byte_offset_start'', Required z_nat), (''byte_offset_end'', Required z_nat)]"

definition SyncEnvelopeSchema :: schema where
  "SyncEnvelopeSchema = z_object envelope_fields"

section \<open>The cursor\<close>

text \<open>
  The members of a cursor; the last seal may be undefined in a cursor about to be written, and
  an event hash is whatever the log had there.
\<close>

record sync_cursor =
  cu_offset :: nat
  cu_event_hash :: json
  cu_synced_at :: json
  cu_seal :: "json option"
  cu_failures :: nat

definition DEFAULT_SYNC_CURSOR :: sync_cursor where
  "DEFAULT_SYNC_CURSOR = \<lparr>cu_offset = 0, cu_event_hash = JNull, cu_synced_at = JNull,
     cu_seal = Some JNull, cu_failures = 0\<rparr>"

definition cursor_json :: "sync_cursor \<Rightarrow> json" where
  "cursor_json c = JObj (members
    [(''schema_version'', Some (JNum 1)), (''last_synced_offset'', Some (JNum (int (cu_offset c)))),
     (''last_synced_event_hash'', Some (cu_event_hash c)), (''last_synced_at'', Some (cu_synced_at c)),
     (''last_seal_synced'', cu_seal c), (''consecutive_failures'', Some (JNum (int (cu_failures c))))])"

fun nat_of_json :: "json option \<Rightarrow> nat" where
  "nat_of_json (Some (JNum i)) = nat i"
| "nat_of_json _ = 0"

definition cursor_of :: "json \<Rightarrow> sync_cursor" where
  "cursor_of v =
    \<lparr>cu_offset = nat_of_json (json_get v ''last_synced_offset''),
     cu_event_hash = the (json_get v ''last_synced_event_hash''),
     cu_synced_at = the (json_get v ''last_synced_at''),
     cu_seal = json_get v ''last_seal_synced'',
     cu_failures = nat_of_json (json_get v ''consecutive_failures'')\<rparr>"

definition readCursor :: "json option \<Rightarrow> sync_cursor" where
  "readCursor file =
    (case file of
       None \<Rightarrow> DEFAULT_SYNC_CURSOR
     | Some v \<Rightarrow>
         (case SyncCursorSchema v of Some d \<Rightarrow> cursor_of d | None \<Rightarrow> DEFAULT_SYNC_CURSOR))"

definition computeBackoffMs :: "nat \<Rightarrow> int" where
  "computeBackoffMs consecutiveFailures =
    (if consecutiveFailures = 0 then 0
     else BACKOFF_SCHEDULE_MS ! min (consecutiveFailures - 1) (length BACKOFF_SCHEDULE_MS - 1))"

section \<open>Reading the log\<close>

record read_result =
  rr_events :: "json list"
  rr_newByteOffset :: nat
  rr_bytesRead :: nat

text \<open>What a line adds: a record that is no heartbeat; null has no members and throws.\<close>

definition line_event :: "(string \<Rightarrow> json option) \<Rightarrow> string \<Rightarrow> json option" where
  "line_event parse line =
    (if trim line = [] then None
     else (case parse line of
         None \<Rightarrow> None
       | Some v \<Rightarrow>
           if v = JNull then None
           else if json_get v ''type'' = Some (JStr ''heartbeat'') then None
           else Some v))"

text \<open>The loop: the events so far and the bytes consumed; the flag is \<open>raw.endsWith("\n")\<close>.\<close>

fun read_lines ::
  "(string \<Rightarrow> json option) \<Rightarrow> nat \<Rightarrow> bool \<Rightarrow> string list \<Rightarrow> json list \<Rightarrow> nat \<Rightarrow> json list \<times> nat" where
  "read_lines parse maxEvents ends [] events consumed = (events, consumed)"
| "read_lines parse maxEvents ends (line # rest) events consumed =
     (if rest = [] \<and> (line = [] \<or> \<not> ends) then (events, consumed)
      else
        (let consumed' = consumed + length line + 1 in
         case line_event parse line of
           None \<Rightarrow> read_lines parse maxEvents ends rest events consumed'
         | Some v \<Rightarrow>
             if length (events @ [v]) \<ge> maxEvents then (events @ [v], consumed')
             else read_lines parse maxEvents ends rest (events @ [v]) consumed'))"

definition readNewEvents ::
  "(string \<Rightarrow> json option) \<Rightarrow> nat \<Rightarrow> nat \<Rightarrow> string option \<Rightarrow> nat \<Rightarrow> read_result" where
  "readNewEvents parse maxEvents maxBytes log byteOffset =
    (case log of
       None \<Rightarrow> \<lparr>rr_events = [], rr_newByteOffset = byteOffset, rr_bytesRead = 0\<rparr>
     | Some bytes \<Rightarrow>
         if byteOffset \<ge> length bytes
         then \<lparr>rr_events = [], rr_newByteOffset = byteOffset, rr_bytesRead = 0\<rparr>
         else
           (let bytesToRead = min (length bytes - byteOffset) maxBytes;
                raw = take bytesToRead (drop byteOffset bytes);
                (events, consumed) =
                  read_lines parse maxEvents (ends_with raw [newline]) (split_on newline raw) [] 0
            in \<lparr>rr_events = events, rr_newByteOffset = byteOffset + consumed, rr_bytesRead = consumed\<rparr>))"

section \<open>Reading the seals\<close>

text \<open>
  \<open>lastSealTimestamp && seal.sealed_at && seal.sealed_at <= lastSealTimestamp\<close>, \<open>None\<close> where the
  property of null is read; a number or a flag is compared as a number with the date's text, which
  is none, so the comparison is false.
\<close>

definition seal_is_old :: "json option \<Rightarrow> json \<Rightarrow> bool option" where
  "seal_is_old last_seal seal =
    (case last_seal of
       Some (JStr (c # cs)) \<Rightarrow>
         if seal = JNull then None
         else Some (case json_get seal ''sealed_at'' of Some (JStr t) \<Rightarrow> t \<noteq> [] \<and> t \<le> c # cs | _ \<Rightarrow> False)
     | _ \<Rightarrow> Some False)"

fun new_seals :: "(string \<Rightarrow> json option) \<Rightarrow> json option \<Rightarrow> string list \<Rightarrow> json list" where
  "new_seals parse last_seal [] = []"
| "new_seals parse last_seal (line # lines) =
     (case parse line of
        None \<Rightarrow> new_seals parse last_seal lines
      | Some seal \<Rightarrow>
          if seal_is_old last_seal seal = Some False then seal # new_seals parse last_seal lines
          else new_seals parse last_seal lines)"

definition readNewSeals ::
  "(string \<Rightarrow> json option) \<Rightarrow> string option \<Rightarrow> json option \<Rightarrow> json list" where
  "readNewSeals parse content lastSealTimestamp =
    (case content of
       None \<Rightarrow> []
     | Some text \<Rightarrow>
         new_seals parse lastSealTimestamp
           (filter (\<lambda>l. trim l \<noteq> []) (split_on newline text)))"

section \<open>One cycle\<close>

record team_config =
  tc_team_id :: string
  tc_team_name :: string
  tc_server_url :: string
  tc_machine_id :: string
  tc_developer_name :: string
  tc_api_key :: string
  tc_enrolled_at :: string

record sync_fs =
  sf_log :: "string option"
  sf_seals :: "string option"
  sf_cursor :: "json option"

text \<open>The server's state is opaque: a push yields an answer or fails. \<open>sn_write\<close> says whether the
  first and the second write of the cursor succeed.\<close>

record 'srv sync_env =
  sn_sign :: sign_env
  sn_parse :: "string \<Rightarrow> json option"
  sn_time :: "string \<Rightarrow> int option"
  sn_now :: int
  sn_now_iso :: string
  sn_push :: "string \<Rightarrow> json \<Rightarrow> 'srv \<Rightarrow> 'srv \<times> json result"
  sn_write :: "nat \<Rightarrow> bool"

record cycle_result =
  cy_eventsPushed :: nat
  cy_sealsPushed :: nat
  cy_accepted :: json
  cy_duplicates :: json
  cy_error :: "json option"
  cy_backoffMs :: int

text \<open>\<open>value ?? fallback\<close>; \<open>or_null\<close> is the case of null.\<close>

definition or_default :: "json option \<Rightarrow> json \<Rightarrow> json" where
  "or_default v d = (if v = None \<or> v = Some JNull then d else the v)"

text \<open>
  Whether the agent waits. A date that does not parse is not a number and compares as false.
\<close>

definition backing_off :: "'srv sync_env \<Rightarrow> sync_cursor \<Rightarrow> bool" where
  "backing_off e c \<longleftrightarrow>
    cu_failures c > 0 \<and>
    (case (case cu_synced_at c of JStr (x # xs) \<Rightarrow> sn_time e (x # xs) | _ \<Rightarrow> Some 0) of
       None \<Rightarrow> False
     | Some lastFailure \<Rightarrow> sn_now e - lastFailure < computeBackoffMs (cu_failures c))"

definition unsigned_envelope ::
  "'srv sync_env \<Rightarrow> team_config \<Rightarrow> sync_cursor \<Rightarrow> read_result \<Rightarrow> json list \<Rightarrow> json" where
  "unsigned_envelope e cfg c rd seals =
    (let events = rr_events rd in
     JObj (members
      [(''schema_version'', Some (JNum 1)), (''type'', Some (JStr ''event-batch'')),
       (''machine_id'', Some (JStr (tc_machine_id cfg))), (''machine_name'', Some (JStr [])),
       (''developer_id'', Some (JStr (tc_developer_name cfg))), (''team_id'', Some (JStr (tc_team_id cfg))),
       (''events'', Some (JArr events)), (''seals'', if seals \<noteq> [] then Some (JArr seals) else None),
       (''batch_hash'', Some (JStr (computeBatchHash (sn_sign e) events))),
       (''first_event_hash'', Some (or_null (json_get (hd events) ''event_hash''))),
       (''last_event_hash'', Some (or_null (json_get (last events) ''event_hash''))),
       (''relay_chain_tip'', Some (or_null (json_get (last events) ''_relay_hash''))),
       (''signature'', Some (JStr [])), (''signed_at'', Some (JStr [])),
       (''byte_offset_start'', Some (JNum (int (cu_offset c)))),
       (''byte_offset_end'', Some (JNum (int (rr_newByteOffset rd))))]))"

definition cycle_envelope ::
  "'srv sync_env \<Rightarrow> team_config \<Rightarrow> sync_cursor \<Rightarrow> read_result \<Rightarrow> json list \<Rightarrow> json" where
  "cycle_envelope e cfg c rd seals =
    signEnvelope (sn_sign e) (sn_now_iso e) (unsigned_envelope e cfg c rd seals) (tc_api_key cfg)"

definition idle_result :: "json option \<Rightarrow> int \<Rightarrow> cycle_result" where
  "idle_result err ms = \<lparr>cy_eventsPushed = 0, cy_sealsPushed = 0, cy_accepted = JNum 0,
     cy_duplicates = JNum 0, cy_error = err, cy_backoffMs = ms\<rparr>"

definition failed_cursor :: "'srv sync_env \<Rightarrow> sync_cursor \<Rightarrow> sync_cursor" where
  "failed_cursor e c = c\<lparr>cu_failures := cu_failures c + 1, cu_synced_at := JStr (sn_now_iso e)\<rparr>"

definition write_failed :: js_error where
  "write_failed = Thrown ''cursor not written''"

definition writeCursor :: "bool \<Rightarrow> sync_cursor \<Rightarrow> sync_fs \<Rightarrow> sync_fs \<times> unit result" where
  "writeCursor ok c fs =
    (if ok then (fs\<lparr>sf_cursor := Some (cursor_json c)\<rparr>, Inr ()) else (fs, Inl write_failed))"

text \<open>The branches of a rejected push and of the outer \<open>catch\<close>; the write may throw again.\<close>

definition failed_cycle ::
  "'srv sync_env \<Rightarrow> bool \<Rightarrow> sync_cursor \<Rightarrow> json \<Rightarrow> sync_fs \<Rightarrow> sync_fs \<times> cycle_result result" where
  "failed_cycle e ok c err fs =
    (let c' = failed_cursor e c in
     case writeCursor ok c' fs of
       (fs', Inl x) \<Rightarrow> (fs', Inl x)
     | (fs', Inr u) \<Rightarrow> (fs', Inr (idle_result (Some err) (computeBackoffMs (cu_failures c')))))"

definition caught_cycle ::
  "'srv sync_env \<Rightarrow> nat \<Rightarrow> sync_cursor \<Rightarrow> js_error \<Rightarrow> sync_fs \<Rightarrow> sync_fs \<times> cycle_result result" where
  "caught_cycle e n c x fs = failed_cycle e (sn_write e n) c (JStr (error_text x)) fs"

text \<open>\<open>seals[seals.length - 1].sealed_at\<close>; reading it from null throws.\<close>

definition advanced_cursor ::
  "'srv sync_env \<Rightarrow> sync_cursor \<Rightarrow> read_result \<Rightarrow> json list \<Rightarrow> sync_cursor result" where
  "advanced_cursor e c rd seals =
    (let c' = (\<lambda>s. \<lparr>cu_offset = rr_newByteOffset rd,
                 cu_event_hash = or_null (json_get (last (rr_events rd)) ''event_hash''),
                 cu_synced_at = JStr (sn_now_iso e), cu_seal = s, cu_failures = 0\<rparr>)
     in if seals = [] then Inr (c' (cu_seal c))
        else if last seals = JNull
        then Inl (TypeError (''Cannot read properties of null (reading '' @ [CHR 0x27] @ ''sealed_at'' @ [CHR 0x27] @ '')''))
        else Inr (c' (json_get (last seals) ''sealed_at'')))"

definition acknowledged ::
  "'srv sync_env \<Rightarrow> sync_cursor \<Rightarrow> read_result \<Rightarrow> json list \<Rightarrow> json \<Rightarrow> sync_fs
   \<Rightarrow> sync_fs \<times> cycle_result result" where
  "acknowledged e c rd seals resp fs =
    (case advanced_cursor e c rd seals of
       Inl x \<Rightarrow> caught_cycle e 0 c x fs
     | Inr c' \<Rightarrow>
         (case writeCursor (sn_write e 0) c' fs of
            (fs', Inl x) \<Rightarrow> caught_cycle e 1 c x fs'
          | (fs', Inr u) \<Rightarrow>
              (fs', Inr \<lparr>cy_eventsPushed = length (rr_events rd), cy_sealsPushed = length seals,
                 cy_accepted = or_default (json_get resp ''accepted'') (JNum 0),
                 cy_duplicates = or_default (json_get resp ''duplicates'') (JNum 0),
                 cy_error = None, cy_backoffMs = 0\<rparr>)))"

text \<open>A rejected push whose cursor cannot be written ends in the \<open>catch\<close>, which writes once more.\<close>

definition rejected ::
  "'srv sync_env \<Rightarrow> sync_cursor \<Rightarrow> json \<Rightarrow> sync_fs \<Rightarrow> sync_fs \<times> cycle_result result" where
  "rejected e c resp fs =
    (case failed_cycle e (sn_write e 0) c
        (or_default (json_get resp ''error'') (JStr ''Server rejected batch'')) fs of
       (fs', Inl x) \<Rightarrow> caught_cycle e 1 c x fs'
     | r \<Rightarrow> r)"

definition sync_cycle ::
  "'srv sync_env \<Rightarrow> team_config \<Rightarrow> sync_fs \<times> 'srv \<Rightarrow> (sync_fs \<times> 'srv) \<times> cycle_result result" where
  "sync_cycle e cfg s =
    (let fs = fst s; srv = snd s; c = readCursor (sf_cursor fs) in
     if backing_off e c
     then (s, Inr (idle_result
            (Some (JStr (''Backing off ('' @ digits_of (cu_failures c) @ '' failures)'')))
            (computeBackoffMs (cu_failures c))))
     else
       (let rd = readNewEvents (sn_parse e) MAX_BATCH_EVENTS MAX_BATCH_BYTES (sf_log fs) (cu_offset c) in
        if rr_events rd = [] then (s, Inr (idle_result None 0))
        else
          (let seals = readNewSeals (sn_parse e) (sf_seals fs) (cu_seal c);
               envelope = cycle_envelope e cfg c rd seals;
               (srv', answer) = sn_push e (tc_server_url cfg) envelope srv;
               (fs', r) =
                 (case answer of
                    Inl x \<Rightarrow> caught_cycle e 0 c x fs
                  | Inr resp \<Rightarrow>
                      if resp = JNull
                      then caught_cycle e 0 c (TypeError (''Cannot read properties of null (reading '' @ [CHR 0x27] @ ''ok'' @ [CHR 0x27] @ '')'')) fs
                      else if truthy_json (json_get resp ''ok'') then acknowledged e c rd seals resp fs
                      else rejected e c resp fs)
           in ((fs', srv'), r))))"

section \<open>Enrolment of a machine\<close>

text \<open>\<open>enrollMachine\<close>: the request and what is stored of the answer. The answer is a value, \<open>None\<close> for a
  request that failed.\<close>

definition enroll_request :: "string \<Rightarrow> string \<Rightarrow> string \<Rightarrow> string \<Rightarrow> string \<Rightarrow> json" where
  "enroll_request token hardwareId machine_name developerName os =
    JObj [(''enrollment_token'', JStr token), (''machine_id'', JStr hardwareId),
      (''machine_name'', JStr machine_name), (''developer_name'', JStr developerName), (''os'', JStr os)]"

definition enrolled_config :: "string \<Rightarrow> string \<Rightarrow> string \<Rightarrow> json \<Rightarrow> json result" where
  "enrolled_config now serverUrl developerName body =
    (if \<not> truthy_json (json_get body ''ok'') \<or> \<not> truthy_json (json_get body ''api_key'')
     then Inl (Thrown (''Enrollment failed: '' @
            (case json_get body ''error'' of Some (JStr (c # cs)) \<Rightarrow> c # cs | _ \<Rightarrow> ''unknown error'')))
     else Inr (JObj (members
       [(''schema_version'', Some (JNum 1)), (''team_id'', json_get body ''team_id''),
        (''team_name'', json_get body ''team_name''), (''server_url'', Some (JStr serverUrl)),
        (''machine_id'', json_get body ''machine_id''), (''developer_name'', Some (JStr developerName)),
        (''api_key'', json_get body ''api_key''), (''enrolled_at'', Some (JStr now))])))"

text \<open>\<open>z.string().url()\<close> is the third-party validator's.\<close>

definition TeamConfigSchema :: "(string \<Rightarrow> bool) \<Rightarrow> schema" where
  "TeamConfigSchema is_url = z_object
    [(''schema_version'', Required (z_literal 1)), (''team_id'', Required z_string),
     (''team_name'', Required z_string), (''server_url'', Required (z_refine is_url)),
     (''machine_id'', Required z_string), (''developer_id'', Optional z_string),
     (''developer_name'', Required z_string), (''api_key'', Required z_string),
     (''enrolled_at'', Required z_string)]"

definition loadTeamConfig :: "(string \<Rightarrow> bool) \<Rightarrow> json option \<Rightarrow> json option" where
  "loadTeamConfig is_url file = (case file of None \<Rightarrow> None | Some v \<Rightarrow> TeamConfigSchema is_url v)"

definition isEnrolled :: "(string \<Rightarrow> bool) \<Rightarrow> json option \<Rightarrow> bool" where
  "isEnrolled is_url file \<longleftrightarrow> loadTeamConfig is_url file \<noteq> None"

end
