(* ===== verification/TeamLemmas.thy ===== *)
theory TeamLemmas
  imports TeamSync
begin

text \<open>
  Lemmas on the sync agent: the incremental reader against a reference that splits the whole text,
  and what a cycle does to the cursor.
\<close>

section \<open>Lines\<close>

text \<open>The records of a text: those of its complete lines.\<close>

definition log_records :: "(string \<Rightarrow> json option) \<Rightarrow> string \<Rightarrow> json list" where
  "log_records parse s = List.map_filter (line_event parse) (butlast (split_on newline s))"

definition lines_text :: "string list \<Rightarrow> string" where
  "lines_text ls = concat (map (\<lambda>l. l @ [newline]) ls)"

lemma lines_text_simps [simp]:
  "lines_text [] = []" "lines_text (l # ls) = l @ newline # lines_text ls"
  "lines_text (ls @ ms) = lines_text ls @ lines_text ms"
  by (simp_all add: lines_text_def)

lemma split_first_line: "newline \<notin> set l \<Longrightarrow> split_on newline (l @ newline # r) = l # split_on newline r"
  by (induction l) auto

lemma split_single: "newline \<notin> set l \<Longrightarrow> split_on newline l = [l]"
  by (induction l) auto

definition line_list :: "string list \<Rightarrow> bool" where
  "line_list ls \<longleftrightarrow> (\<forall>l \<in> set ls. newline \<notin> set l)"

lemma split_lines_text:
  "line_list ls \<Longrightarrow> newline \<notin> set tail \<Longrightarrow> split_on newline (lines_text ls @ tail) = ls @ [tail]"
  by (induction ls) (simp_all add: line_list_def split_first_line split_single)

lemma text_as_lines:
  "\<exists>ls tail. line_list ls \<and> newline \<notin> set tail \<and> s = lines_text ls @ tail"
proof (induction "length s" arbitrary: s rule: less_induct)
  case less
  show ?case
  proof (cases "newline \<in> set s")
    case False
    then show ?thesis by (intro exI [of _ "[]"] exI [of _ s]) (simp add: line_list_def)
  next
    case True
    then obtain l r where s: "s = l @ newline # r" "newline \<notin> set l"
      by (meson split_list_first)
    then obtain ls tail where "line_list ls" "newline \<notin> set tail" "r = lines_text ls @ tail"
      using less [of r] by auto
    then show ?thesis
      using s by (intro exI [of _ "l # ls"] exI [of _ tail]) (simp add: line_list_def)
  qed
qed

lemma records_lines:
  "line_list ls \<Longrightarrow> newline \<notin> set tail
   \<Longrightarrow> log_records parse (lines_text ls @ tail) = List.map_filter (line_event parse) ls"
  by (simp add: log_records_def split_lines_text)

lemma map_filter_append: "List.map_filter f (xs @ ys) = List.map_filter f xs @ List.map_filter f ys"
  by (simp add: List.map_filter_def)

text \<open>A text that ends at the end of a line.\<close>

definition whole_lines :: "string \<Rightarrow> bool" where
  "whole_lines s \<longleftrightarrow> (\<exists>ls. line_list ls \<and> s = lines_text ls)"

lemma records_append:
  assumes "whole_lines a"
  shows "log_records parse (a @ b) = log_records parse a @ log_records parse b"
proof -
  obtain ls where ls: "line_list ls" "a = lines_text ls" using assms by (auto simp: whole_lines_def)
  obtain ms tail where ms: "line_list ms" "newline \<notin> set tail" "b = lines_text ms @ tail"
    using text_as_lines by blast
  have "line_list (ls @ ms)" using ls(1) ms(1) by (auto simp: line_list_def)
  from records_lines [OF this ms(2)] records_lines [OF ls(1), of "[]"] records_lines [OF ms(1,2)]
  show ?thesis by (simp add: ls(2) ms(3) map_filter_append)
qed

lemma whole_lines_append: "whole_lines a \<Longrightarrow> whole_lines b \<Longrightarrow> whole_lines (a @ b)"
  unfolding whole_lines_def line_list_def by (metis Un_iff lines_text_simps(3) set_append)

lemma whole_lines_Nil [simp]: "whole_lines []"
  by (auto simp: whole_lines_def line_list_def intro: exI [of _ "[]"])

section \<open>The reader\<close>

text \<open>The loop over complete lines and a rest: it stops behind a line.\<close>

lemma read_lines_spec:
  assumes "tail = [] \<or> \<not> ends" "read_lines parse m ends (ls @ [tail]) evs n = (evs', n')"
  shows "\<exists>k \<le> length ls. evs' = evs @ List.map_filter (line_event parse) (take k ls)
    \<and> n' = n + length (lines_text (take k ls))
    \<and> (k = length ls \<or> m \<le> length evs')
    \<and> (length evs < m \<longrightarrow> length evs' \<le> m)"
  using assms(2)
proof (induction ls arbitrary: evs n)
  case Nil
  then show ?case using assms(1) by auto
next
  case (Cons l ls)
  show ?case
  proof (cases "line_event parse l")
    case None
    then have "read_lines parse m ends (ls @ [tail]) evs (n + length l + 1) = (evs', n')"
      using Cons.prems by (simp add: Let_def)
    from Cons.IH [OF this] obtain k where "k \<le> length ls"
      "evs' = evs @ List.map_filter (line_event parse) (take k ls)"
      "n' = n + length l + 1 + length (lines_text (take k ls))"
      "k = length ls \<or> m \<le> length evs'" "length evs < m \<longrightarrow> length evs' \<le> m"
      by blast
    then show ?thesis using None
      by (intro exI [of _ "Suc k"]) (auto simp: List.map_filter_def)
  next
    case (Some v)
    show ?thesis
    proof (cases "length (evs @ [v]) \<ge> m")
      case True
      then have "evs' = evs @ [v]" "n' = n + length l + 1"
        using Cons.prems Some by (simp_all add: Let_def)
      then show ?thesis using True Some
        by (intro exI [of _ "Suc 0"]) (auto simp: List.map_filter_def)
    next
      case False
      then have "read_lines parse m ends (ls @ [tail]) (evs @ [v]) (n + length l + 1) = (evs', n')"
        using Cons.prems Some by (simp add: Let_def)
      from Cons.IH [OF this] obtain k where k: "k \<le> length ls"
        "evs' = (evs @ [v]) @ List.map_filter (line_event parse) (take k ls)"
        "n' = n + length l + 1 + length (lines_text (take k ls))"
        "k = length ls \<or> m \<le> length evs'" "length (evs @ [v]) < m \<longrightarrow> length evs' \<le> m"
        by blast
      then show ?thesis using Some False
        by (intro exI [of _ "Suc k"]) (auto simp: List.map_filter_def)
    qed
  qed
qed

lemma readNewEvents_spec:
  fixes parse m b log off
  defines "rd \<equiv> readNewEvents parse m b (Some log) off"
  defines "seg \<equiv> take (rr_bytesRead rd) (drop off log)"
  assumes m: "0 < m"
  shows "whole_lines seg" "rr_events rd = log_records parse seg"
    "rr_newByteOffset rd = off + rr_bytesRead rd" "off \<le> length log \<Longrightarrow> rr_newByteOffset rd \<le> length log"
    "rr_bytesRead rd \<le> b" "length (rr_events rd) \<le> m"
    "length (rr_events rd) = m
     \<or> rr_events rd = log_records parse (take b (drop off log))"
proof -
  have "whole_lines seg \<and> rr_events rd = log_records parse seg
    \<and> rr_newByteOffset rd = off + rr_bytesRead rd \<and> (off \<le> length log \<longrightarrow> rr_newByteOffset rd \<le> length log)
    \<and> rr_bytesRead rd \<le> b \<and> length (rr_events rd) \<le> m
    \<and> (length (rr_events rd) = m \<or> rr_events rd = log_records parse (take b (drop off log)))"
  proof (cases "off \<ge> length log")
    case True
    then show ?thesis by (simp add: rd_def seg_def readNewEvents_def log_records_def List.map_filter_def)
  next
    case False
    define raw where "raw = take (min (length log - off) b) (drop off log)"
    have raw': "raw = take b (drop off log)" by (simp add: raw_def min_def)
    obtain ls tail where ls: "line_list ls" "newline \<notin> set tail" "raw = lines_text ls @ tail"
      using text_as_lines by blast
    have tail: "tail = [] \<or> \<not> ends_with raw [newline]"
    proof (cases tail rule: rev_cases)
      case (snoc t c)
      then show ?thesis using ls(2) by (auto simp: ls(3) ends_with_def starts_with_def)
    qed simp
    obtain evs n where run: "read_lines parse m (ends_with raw [newline]) (ls @ [tail]) [] 0 = (evs, n)"
      by fastforce
    then have rd: "rd = \<lparr>rr_events = evs, rr_newByteOffset = off + n, rr_bytesRead = n\<rparr>"
      using False split_lines_text [OF ls(1,2)]
      by (simp add: rd_def readNewEvents_def Let_def raw_def [symmetric]) (simp add: ls(3))
    from read_lines_spec [OF tail run] obtain k where k: "k \<le> length ls"
      "evs = List.map_filter (line_event parse) (take k ls)" "n = length (lines_text (take k ls))"
      "k = length ls \<or> m \<le> length evs" "length evs \<le> m"
      using m by auto
    have tk: "line_list (take k ls)" using ls(1) by (auto simp: line_list_def dest: in_set_takeD)
    have raw2: "raw = lines_text (take k ls) @ lines_text (drop k ls) @ tail"
      by (metis append_assoc append_take_drop_id lines_text_simps(3) ls(3))
    have "take n raw = lines_text (take k ls)" by (simp add: raw2 k(3))
    moreover have "n \<le> length raw" by (simp add: raw2 k(3))
    then have n: "n \<le> b" "n \<le> length log - off" by (simp_all add: raw_def)
    then have "take n raw = take n (drop off log)" by (simp add: raw_def)
    ultimately have seg: "seg = lines_text (take k ls)" by (simp add: seg_def rd)
    have "evs = log_records parse seg"
      using records_lines [OF tk, of "[]"] by (simp add: seg k(2))
    moreover have "length evs = m \<or> evs = log_records parse raw"
      using k records_lines [OF ls(1,2)] by (auto simp: ls(3))
    ultimately show ?thesis
      using n k tk False by (auto simp: rd whole_lines_def seg raw' [symmetric])
  qed
  then show "whole_lines seg" "rr_events rd = log_records parse seg"
    "rr_newByteOffset rd = off + rr_bytesRead rd" "off \<le> length log \<Longrightarrow> rr_newByteOffset rd \<le> length log"
    "rr_bytesRead rd \<le> b" "length (rr_events rd) \<le> m"
    "length (rr_events rd) = m \<or> rr_events rd = log_records parse (take b (drop off log))"
    by blast+
qed

section \<open>The cursor\<close>

text \<open>What is read back of a written cursor: its offset, or the start where the schema refuses it.\<close>

lemma cursor_of_json [simp]:
  "json_get (cursor_json c) ''last_synced_offset'' = Some (JNum (int (cu_offset c)))"
  "json_get (cursor_json c) ''consecutive_failures'' = Some (JNum (int (cu_failures c)))"
  by (cases "cu_seal c"; simp add: cursor_json_def add_member_def)+

lemma schema_get:
  assumes "z_object fs v = Some d" "distinct (map fst fs)" "(k, f) \<in> set fs"
  shows "z_field f (json_get v k) = Some (json_get d k)"
proof -
  obtain ms ns where "v = JObj ms" "z_members fs ms = Some ns" "d = JObj ns"
    using assms(1) by (cases v) auto
  with z_members_get [OF _ assms(2,3)] show ?thesis by simp
qed

lemma readCursor_offset:
  "cu_offset (readCursor (Some (cursor_json c))) = cu_offset c
   \<or> cu_offset (readCursor (Some (cursor_json c))) = 0"
proof (cases "SyncCursorSchema (cursor_json c)")
  case None
  then show ?thesis by (simp add: readCursor_def DEFAULT_SYNC_CURSOR_def)
next
  case (Some d)
  have "z_field (Required z_nat) (json_get (cursor_json c) ''last_synced_offset'')
      = Some (json_get d ''last_synced_offset'')"
    using Some unfolding SyncCursorSchema_def by (rule schema_get) simp_all
  then have "json_get d ''last_synced_offset'' = Some (JNum (int (cu_offset c)))"
    by (simp add: z_nat_def)
  then show ?thesis using Some by (simp add: readCursor_def cursor_of_def)
qed

text \<open>A cursor all of whose members are as the schema wants them is read back as it was.\<close>

definition text_or_null :: "json \<Rightarrow> bool" where
  "text_or_null v \<longleftrightarrow> z_nullable z_string v = Some v"

lemma z_nullable_string: "z_nullable z_string v = Some w \<longleftrightarrow> text_or_null v \<and> w = v"
  by (cases v) (auto simp: text_or_null_def z_nullable_def)

lemma readCursor_written:
  assumes "text_or_null (cu_event_hash c)" "text_or_null (cu_synced_at c)" "cu_seal c = Some s" "text_or_null s"
  shows "readCursor (Some (cursor_json c)) = c"
proof -
  have "SyncCursorSchema (cursor_json c) = Some (cursor_json c)"
    using assms by (simp add: SyncCursorSchema_def cursor_json_def z_literal_def z_nat_def add_member_def
        text_or_null_def)
  then show ?thesis
    using assms by (simp add: readCursor_def cursor_of_def) (simp add: cursor_json_def add_member_def)
qed

lemma cursor_without_seal:
  assumes "cu_seal c = None"
  shows "readCursor (Some (cursor_json c)) = DEFAULT_SYNC_CURSOR"
proof -
  have "json_get (cursor_json c) ''last_seal_synced'' = None"
    using assms by (simp add: cursor_json_def add_member_def)
  then have "SyncCursorSchema (cursor_json c) = None"
    using schema_get [of _ "cursor_json c" _ "''last_seal_synced''" "Required (z_nullable z_string)"]
    unfolding SyncCursorSchema_def by fastforce
  then show ?thesis by (simp add: readCursor_def)
qed

section \<open>What a cycle does\<close>

definition sync_read :: "'srv sync_env \<Rightarrow> sync_fs \<Rightarrow> read_result" where
  "sync_read e fs = readNewEvents (sn_parse e) MAX_BATCH_EVENTS MAX_BATCH_BYTES (sf_log fs)
     (cu_offset (readCursor (sf_cursor fs)))"

definition sync_envelope :: "'srv sync_env \<Rightarrow> team_config \<Rightarrow> sync_fs \<Rightarrow> json" where
  "sync_envelope e cfg fs =
    (let c = readCursor (sf_cursor fs) in
     cycle_envelope e cfg c (sync_read e fs) (readNewSeals (sn_parse e) (sf_seals fs) (cu_seal c)))"

text \<open>The file of the cursor after a failure: as before, or with the same offset.\<close>

definition cursor_stays :: "sync_cursor \<Rightarrow> sync_fs \<Rightarrow> sync_fs \<Rightarrow> bool" where
  "cursor_stays c fs fs' \<longleftrightarrow>
    fs' = fs \<or> (\<exists>c'. cu_offset c' = cu_offset c \<and> fs' = fs\<lparr>sf_cursor := Some (cursor_json c')\<rparr>)"

lemma failed_cycle_cursor:
  assumes "failed_cycle e ok c err fs = (fs', r)"
  shows "cursor_stays c fs fs'"
proof (cases ok)
  case True
  then have "fs' = fs\<lparr>sf_cursor := Some (cursor_json (failed_cursor e c))\<rparr>"
    using assms by (simp add: failed_cycle_def writeCursor_def Let_def)
  then show ?thesis
    unfolding cursor_stays_def by (intro disjI2 exI [of _ "failed_cursor e c"]) (simp add: failed_cursor_def)
next
  case False
  then show ?thesis using assms by (simp add: failed_cycle_def writeCursor_def cursor_stays_def Let_def)
qed

lemma caught_cycle_cursor: "caught_cycle e n c x fs = (fs', r) \<Longrightarrow> cursor_stays c fs fs'"
  by (simp add: caught_cycle_def failed_cycle_cursor)

lemma rejected_cursor:
  assumes "rejected e c resp fs = (fs', r)"
  shows "cursor_stays c fs fs'"
proof -
  obtain fs1 r1 where f: "failed_cycle e (sn_write e 0) c
      (or_default (json_get resp ''error'') (JStr ''Server rejected batch'')) fs = (fs1, r1)"
    by fastforce
  note s1 = failed_cycle_cursor [OF f]
  show ?thesis
  proof (cases r1)
    case (Inl x)
    then have "fs1 = fs"
      using f by (auto simp: failed_cycle_def writeCursor_def Let_def split: if_splits)
    then show ?thesis
      using assms caught_cycle_cursor by (simp add: rejected_def f Inl)
  next
    case (Inr y)
    then show ?thesis using assms s1 by (simp add: rejected_def f)
  qed
qed

lemma acknowledged_cursor:
  assumes "acknowledged e c rd seals resp fs = (fs', r)"
  shows "cursor_stays c fs fs'
    \<or> (\<exists>c'. cu_offset c' = rr_newByteOffset rd \<and> fs' = fs\<lparr>sf_cursor := Some (cursor_json c')\<rparr>)"
proof (cases "advanced_cursor e c rd seals")
  case (Inl x)
  then show ?thesis using assms caught_cycle_cursor by (auto simp: acknowledged_def)
next
  case (Inr c')
  then have "cu_offset c' = rr_newByteOffset rd"
    by (auto simp: advanced_cursor_def Let_def split: if_splits)
  then show ?thesis
    using assms Inr caught_cycle_cursor
    by (auto simp: acknowledged_def writeCursor_def split: if_splits)
qed

text \<open>The two kinds of cycles: nothing is sent, or one envelope is.\<close>

lemma sync_cycle_cases:
  assumes "sync_cycle e cfg (fs, srv) = ((fs', srv'), r)"
  obtains (quiet) "fs' = fs" "srv' = srv"
  | (pushed) answer where
    "sn_push e (tc_server_url cfg) (sync_envelope e cfg fs) srv = (srv', answer)"
    "rr_events (sync_read e fs) \<noteq> []"
    "cursor_stays (readCursor (sf_cursor fs)) fs fs'
     \<or> (\<exists>resp c'. answer = Inr resp \<and> truthy_json (json_get resp ''ok'')
          \<and> cu_offset c' = rr_newByteOffset (sync_read e fs)
          \<and> fs' = fs\<lparr>sf_cursor := Some (cursor_json c')\<rparr>)"
proof -
  define c where "c = readCursor (sf_cursor fs)"
  define rd where "rd = sync_read e fs"
  define seals where "seals = readNewSeals (sn_parse e) (sf_seals fs) (cu_seal c)"
  have rd: "readNewEvents (sn_parse e) MAX_BATCH_EVENTS MAX_BATCH_BYTES (sf_log fs) (cu_offset c) = rd"
    and env: "sync_envelope e cfg fs = cycle_envelope e cfg c rd seals"
    by (simp_all add: rd_def sync_read_def c_def sync_envelope_def seals_def Let_def)
  note cycle = assms [unfolded sync_cycle_def Let_def fst_conv snd_conv, folded c_def,
      unfolded rd, folded seals_def]
  show thesis
  proof (cases "backing_off e c \<or> rr_events rd = []")
    case True
    then have "fs' = fs" "srv' = srv" using cycle by (auto split: if_splits)
    then show thesis by (rule quiet)
  next
    case False
    obtain srv1 answer where p: "sn_push e (tc_server_url cfg) (sync_envelope e cfg fs) srv = (srv1, answer)"
      by fastforce
    define fin where "fin = (case answer of
        Inl x \<Rightarrow> caught_cycle e 0 c x fs
      | Inr resp \<Rightarrow>
          if resp = JNull
          then caught_cycle e 0 c (TypeError (''Cannot read properties of null (reading '' @ [CHR 0x27] @ ''ok'' @ [CHR 0x27] @ '')'')) fs
          else if truthy_json (json_get resp ''ok'') then acknowledged e c rd seals resp fs
          else rejected e c resp fs)"
    have run: "srv' = srv1" "fin = (fs', r)"
      using cycle False p [unfolded env] by (auto simp: fin_def split: prod.splits)
    have "cursor_stays c fs fs'
      \<or> (\<exists>resp c'. answer = Inr resp \<and> truthy_json (json_get resp ''ok'')
          \<and> cu_offset c' = rr_newByteOffset rd \<and> fs' = fs\<lparr>sf_cursor := Some (cursor_json c')\<rparr>)"
    proof (cases answer)
      case (Inl x)
      then show ?thesis using run(2) caught_cycle_cursor by (auto simp: fin_def)
    next
      case (Inr resp)
      then show ?thesis
        using run(2)
        by (auto simp: fin_def split: if_splits
            dest: caught_cycle_cursor rejected_cursor acknowledged_cursor)
    qed
    with p run(1) False show thesis by (intro pushed) (simp_all add: rd_def c_def)
  qed
qed

section \<open>Progress\<close>

lemma log_records_Nil [simp]: "log_records parse [] = []"
  by (simp add: log_records_def List.map_filter_def)

lemma readCursor_seal: "\<exists>x. cu_seal (readCursor file) = Some x \<and> text_or_null x"
proof (cases "\<exists>v d. file = Some v \<and> SyncCursorSchema v = Some d")
  case True
  then obtain v d where v: "file = Some v" "SyncCursorSchema v = Some d" by blast
  have "z_field (Required (z_nullable z_string)) (json_get v ''last_seal_synced'')
      = Some (json_get d ''last_seal_synced'')"
    using v(2) unfolding SyncCursorSchema_def by (rule schema_get) simp_all
  then obtain x where "json_get d ''last_seal_synced'' = Some x" "text_or_null x"
    by (cases "json_get v ''last_seal_synced''"; cases "json_get d ''last_seal_synced''")
      (auto simp: z_nullable_string)
  then show ?thesis by (simp add: v readCursor_def cursor_of_def)
next
  case False
  then have "readCursor file = DEFAULT_SYNC_CURSOR" by (auto simp: readCursor_def split: option.splits)
  then show ?thesis by (simp add: DEFAULT_SYNC_CURSOR_def text_or_null_def z_nullable_def)
qed

text \<open>A window of the log with a record in it gives a batch, and the batch has bytes.\<close>

lemma sync_read_some:
  fixes fs :: sync_fs and e :: "'srv sync_env"
  defines "off \<equiv> cu_offset (readCursor (sf_cursor fs))"
  assumes log: "sf_log fs = Some log"
  shows "log_records (sn_parse e) (take MAX_BATCH_BYTES (drop off log)) = [] \<longleftrightarrow> rr_events (sync_read e fs) = []"
    "rr_events (sync_read e fs) \<noteq> [] \<Longrightarrow> off < rr_newByteOffset (sync_read e fs)"
proof -
  have rd: "sync_read e fs = readNewEvents (sn_parse e) MAX_BATCH_EVENTS MAX_BATCH_BYTES (Some log) off"
    by (simp add: sync_read_def log off_def)
  have pos: "0 < MAX_BATCH_EVENTS" by (simp add: MAX_BATCH_EVENTS_def)
  note spec = readNewEvents_spec [OF pos, where parse = "sn_parse e" and b = MAX_BATCH_BYTES and log = log
      and off = off, folded rd]
  have "take MAX_BATCH_BYTES (drop off log)
      = take (rr_bytesRead (sync_read e fs)) (drop off log)
        @ drop (rr_bytesRead (sync_read e fs)) (take MAX_BATCH_BYTES (drop off log))"
    using spec(5) by (metis append_take_drop_id min.absorb1 take_take)
  from records_append [OF spec(1), of "sn_parse e"] this spec(2,7)
  show "log_records (sn_parse e) (take MAX_BATCH_BYTES (drop off log)) = [] \<longleftrightarrow> rr_events (sync_read e fs) = []"
    using pos by (metis Nil_is_append_conv less_numeral_extra(3) list.size(3))
  show "off < rr_newByteOffset (sync_read e fs)" if "rr_events (sync_read e fs) \<noteq> []"
    using that spec(2,3) by (cases "rr_bytesRead (sync_read e fs)") auto
qed

lemma batch_moves_cursor:
  assumes ready: "\<not> backing_off e (readCursor (sf_cursor fs))"
    and push: "sn_push e (tc_server_url cfg) (sync_envelope e cfg fs) srv = (srv', Inr resp)"
    and ok: "truthy_json (json_get resp ''ok'')" and written: "sn_write e 0"
    and log: "sf_log fs = Some log"
    and window: "log_records (sn_parse e) (take MAX_BATCH_BYTES (drop (cu_offset (readCursor (sf_cursor fs))) log)) \<noteq> []"
    and hash: "text_or_null (or_null (json_get (last (rr_events (sync_read e fs))) ''event_hash''))"
    and seals: "let seals = readNewSeals (sn_parse e) (sf_seals fs) (cu_seal (readCursor (sf_cursor fs))) in
      seals = [] \<or> (\<exists>x. json_get (last seals) ''sealed_at'' = Some (JStr x))"
  shows "\<exists>fs' r. sync_cycle e cfg (fs, srv) = ((fs', srv'), Inr r)
    \<and> cu_offset (readCursor (sf_cursor fs')) = rr_newByteOffset (sync_read e fs)
    \<and> cu_offset (readCursor (sf_cursor fs)) < rr_newByteOffset (sync_read e fs)
    \<and> sf_log fs' = sf_log fs \<and> cy_eventsPushed r = length (rr_events (sync_read e fs))"
proof -
  define c where "c = readCursor (sf_cursor fs)"
  define rd where "rd = sync_read e fs"
  define ss where "ss = readNewSeals (sn_parse e) (sf_seals fs) (cu_seal c)"
  have rd: "readNewEvents (sn_parse e) MAX_BATCH_EVENTS MAX_BATCH_BYTES (sf_log fs) (cu_offset c) = rd"
    and env: "sync_envelope e cfg fs = cycle_envelope e cfg c rd ss"
    by (simp_all add: rd_def sync_read_def c_def sync_envelope_def ss_def Let_def)
  have ne: "rr_events rd \<noteq> []" "cu_offset c < rr_newByteOffset rd"
    using sync_read_some [OF log, of e] window by (simp_all add: rd_def c_def)
  obtain x where x: "cu_seal c = Some x" "text_or_null x" using readCursor_seal c_def by blast
  have "\<exists>y. advanced_cursor e c rd ss = Inr \<lparr>cu_offset = rr_newByteOffset rd,
      cu_event_hash = or_null (json_get (last (rr_events rd)) ''event_hash''),
      cu_synced_at = JStr (sn_now_iso e), cu_seal = Some y, cu_failures = 0\<rparr> \<and> text_or_null y"
  proof (cases "ss = []")
    case True
    then show ?thesis using x by (simp add: advanced_cursor_def)
  next
    case False
    then obtain z where z: "json_get (last ss) ''sealed_at'' = Some (JStr z)"
      using seals by (auto simp: ss_def c_def Let_def)
    then have "last ss \<noteq> JNull" by auto
    then show ?thesis using False z by (simp add: advanced_cursor_def text_or_null_def z_nullable_def)
  qed
  then obtain y where y: "advanced_cursor e c rd ss = Inr \<lparr>cu_offset = rr_newByteOffset rd,
      cu_event_hash = or_null (json_get (last (rr_events rd)) ''event_hash''),
      cu_synced_at = JStr (sn_now_iso e), cu_seal = Some y, cu_failures = 0\<rparr>" "text_or_null y"
    by blast
  define c' where "c' = \<lparr>cu_offset = rr_newByteOffset rd,
      cu_event_hash = or_null (json_get (last (rr_events rd)) ''event_hash''),
      cu_synced_at = JStr (sn_now_iso e), cu_seal = Some y, cu_failures = 0\<rparr>"
  have "readCursor (Some (cursor_json c')) = c'"
    using hash y(2) by (intro readCursor_written [of _ y])
      (simp_all add: c'_def rd_def text_or_null_def z_nullable_def)
  then have c': "advanced_cursor e c rd ss = Inr c'" "cu_offset c' = rr_newByteOffset rd"
    "readCursor (Some (cursor_json c')) = c'"
    using y(1) by (simp_all add: c'_def)
  have "resp \<noteq> JNull" using ok by auto
  then have "sync_cycle e cfg (fs, srv) = ((fs\<lparr>sf_cursor := Some (cursor_json c')\<rparr>, srv'),
      Inr \<lparr>cy_eventsPushed = length (rr_events rd), cy_sealsPushed = length ss,
        cy_accepted = or_default (json_get resp ''accepted'') (JNum 0),
        cy_duplicates = or_default (json_get resp ''duplicates'') (JNum 0),
        cy_error = None, cy_backoffMs = 0\<rparr>)"
    using ready push ok written ne c'(1)
    by (simp add: sync_cycle_def Let_def c_def [symmetric] rd ss_def [symmetric] env
        acknowledged_def writeCursor_def)
  then show ?thesis using c' ne by (simp add: rd_def c_def)
qed

text \<open>A window of the log without a record: the cycle does nothing, whatever follows the window.\<close>

lemma empty_window_stalls:
  assumes "sf_log fs = Some log"
    and "log_records (sn_parse e) (take MAX_BATCH_BYTES (drop (cu_offset (readCursor (sf_cursor fs))) log)) = []"
  shows "fst (sync_cycle e cfg (fs, srv)) = (fs, srv)"
proof -
  have "rr_events (sync_read e fs) = []" using sync_read_some [OF assms(1), of e] assms(2) by simp
  then show ?thesis by (simp add: sync_cycle_def Let_def sync_read_def)
qed

end
