(* ===== verification/TeamServer.thy ===== *)
theory TeamServer
  imports TeamSync
begin

text \<open>
  The team server, \<^verbatim>\<open>packages/team/src/server\<close>: the tables of \<^verbatim>\<open>db/schema.ts\<close> as lists of rows, the
  statements of \<^verbatim>\<open>db/queries.ts\<close> as what they say of the rows, and the handlers of the routes. The
  time, the random identifiers and the e-mail check of the third-party validator are arguments. A
  statement that is given a value which is no number, text or null throws, and an exception of a
  handler is the framework's answer 500. Conversions between column types are left out.
\<close>

section \<open>Tables\<close>

record team_row =
  tm_id :: string
  tm_name :: string

record member_row =
  mb_id :: string
  mb_team :: string
  mb_email :: string
  mb_name :: string
  mb_role :: string
  mb_password_hash :: string

record machine_row =
  mr_id :: string
  mr_team :: string
  mr_machine_id :: string
  mr_machine_name :: string
  mr_developer_name :: string
  mr_key_hash :: string
  mr_os :: string
  mr_enrolled_at :: string
  mr_last_seen_at :: "string option"
  mr_last_sync_at :: "string option"
  mr_chain_tip :: json
  mr_status :: string

text \<open>A row of the events: its columns in the order of the statement.\<close>

type_synonym event_row = "(string \<times> json) list"

record seal_row =
  sr_id :: string
  sr_machine :: string
  sr_team :: string
  sr_sealed_at :: json
  sr_tip_hash :: json
  sr_chained_events :: json
  sr_signature :: json
  sr_key_id :: json

record token_row =
  tk_id :: string
  tk_team :: string
  tk_hash :: string
  tk_expires_at :: string
  tk_used_at :: "string option"
  tk_used_by :: "string option"

record team_db =
  td_teams :: "team_row list"
  td_members :: "member_row list"
  td_machines :: "machine_row list"
  td_events :: "event_row list"
  td_seals :: "seal_row list"
  td_tokens :: "token_row list"

definition empty_team_db :: team_db where
  "empty_team_db = \<lparr>td_teams = [], td_members = [], td_machines = [], td_events = [], td_seals = [],
     td_tokens = []\<rparr>"

record server_env =
  sv_sign :: sign_env
  sv_now :: int
  sv_now_iso :: string
  sv_now_sql :: string
  sv_iso_of :: "int \<Rightarrow> string"
  sv_time :: "string \<Rightarrow> int option"
  sv_uuid :: "nat \<Rightarrow> string"
  sv_random :: string
  sv_is_email :: "string \<Rightarrow> bool"
  sv_issues :: "json \<Rightarrow> string"

section \<open>Queries\<close>

definition constraint_failed :: js_error where
  "constraint_failed = Thrown ''UNIQUE constraint failed''"

definition cannot_bind :: js_error where
  "cannot_bind = TypeError ''SQLite3 can only bind numbers, strings, bigints, buffers, and null''"

fun bindable :: "json \<Rightarrow> bool" where
  "bindable (JNum i) \<longleftrightarrow> True"
| "bindable (JStr s) \<longleftrightarrow> True"
| "bindable JNull \<longleftrightarrow> True"
| "bindable _ \<longleftrightarrow> False"

definition getTeamCount :: "team_db \<Rightarrow> nat" where
  "getTeamCount db = length (td_teams db)"

definition getTeam :: "team_db \<Rightarrow> string \<Rightarrow> team_row option" where
  "getTeam db i = find (\<lambda>t. tm_id t = i) (td_teams db)"

definition insertTeam :: "string \<Rightarrow> string \<Rightarrow> team_db \<Rightarrow> team_db result" where
  "insertTeam i name db =
    (if \<exists>t \<in> set (td_teams db). tm_id t = i \<or> tm_name t = name then Inl constraint_failed
     else Inr (db\<lparr>td_teams := td_teams db @ [\<lparr>tm_id = i, tm_name = name\<rparr>]\<rparr>))"

definition insertTeamMember ::
  "string \<Rightarrow> string \<Rightarrow> string \<Rightarrow> string \<Rightarrow> string \<Rightarrow> string \<Rightarrow> team_db \<Rightarrow> team_db result" where
  "insertTeamMember i teamId email name role passwordHash db =
    (if \<exists>m \<in> set (td_members db). mb_id m = i \<or> mb_team m = teamId \<and> mb_email m = email
     then Inl constraint_failed
     else Inr (db\<lparr>td_members := td_members db @
            [\<lparr>mb_id = i, mb_team = teamId, mb_email = email, mb_name = name, mb_role = role,
              mb_password_hash = passwordHash\<rparr>]\<rparr>))"

definition insertMachine ::
  "string \<Rightarrow> string \<Rightarrow> string \<Rightarrow> string \<Rightarrow> string \<Rightarrow> string \<Rightarrow> string \<Rightarrow> string \<Rightarrow> team_db
   \<Rightarrow> team_db result" where
  "insertMachine i now teamId machineId machineName developerName apiKeyHash os db =
    (if \<exists>m \<in> set (td_machines db). mr_id m = i \<or> mr_team m = teamId \<and> mr_machine_id m = machineId
     then Inl constraint_failed
     else Inr (db\<lparr>td_machines := td_machines db @
            [\<lparr>mr_id = i, mr_team = teamId, mr_machine_id = machineId, mr_machine_name = machineName,
              mr_developer_name = developerName, mr_key_hash = apiKeyHash, mr_os = os,
              mr_enrolled_at = now, mr_last_seen_at = None, mr_last_sync_at = None,
              mr_chain_tip = JNull, mr_status = ''active''\<rparr>]\<rparr>))"

definition getMachineByApiKeyHash :: "team_db \<Rightarrow> string \<Rightarrow> machine_row option" where
  "getMachineByApiKeyHash db h = find (\<lambda>m. mr_key_hash m = h) (td_machines db)"

definition getMachineByMachineId :: "team_db \<Rightarrow> string \<Rightarrow> string \<Rightarrow> machine_row option" where
  "getMachineByMachineId db teamId machineId =
    find (\<lambda>m. mr_team m = teamId \<and> mr_machine_id m = machineId) (td_machines db)"

definition updateMachineSync :: "string \<Rightarrow> string \<Rightarrow> json \<Rightarrow> team_db \<Rightarrow> team_db" where
  "updateMachineSync now machineDbId chainTip db =
    db\<lparr>td_machines := map (\<lambda>m. if mr_id m = machineDbId
         then m\<lparr>mr_last_seen_at := Some now, mr_last_sync_at := Some now, mr_chain_tip := chainTip\<rparr>
         else m) (td_machines db)\<rparr>"

text \<open>The primary key of the events is the machine with the event's own name.\<close>

definition event_key :: "event_row \<Rightarrow> json option \<times> json option" where
  "event_key row = (map_of row ''machine_id'', map_of row ''id'')"

text \<open>The loop of the transaction: the table so far and the rows accepted; a throw rolls all back.\<close>

fun insert_rows :: "event_row list \<Rightarrow> event_row list \<Rightarrow> nat \<Rightarrow> (event_row list \<times> nat) result" where
  "insert_rows [] table accepted = Inr (table, accepted)"
| "insert_rows (row # rows) table accepted =
     (if \<not> list_all (\<lambda>c. bindable (snd c)) row then Inl cannot_bind
      else if event_key row \<in> event_key ` set table then insert_rows rows table accepted
      else insert_rows rows (table @ [row]) (accepted + 1))"

definition insertEvents :: "event_row list \<Rightarrow> team_db \<Rightarrow> (team_db \<times> nat \<times> nat) result" where
  "insertEvents rows db =
    bind_result (insert_rows rows (td_events db) 0) (\<lambda>(table, accepted).
      Inr (db\<lparr>td_events := table\<rparr>, accepted, length rows - accepted))"

text \<open>A seal without one of the required members, or of a tip the machine has sealed, is ignored.\<close>

definition insertSeal :: "string \<Rightarrow> string \<Rightarrow> string \<Rightarrow> json \<Rightarrow> team_db \<Rightarrow> team_db result" where
  "insertSeal i machineDbId teamId seal db =
    (let cell = (\<lambda>k. or_null (json_get seal k));
         required = map cell [''sealed_at'', ''tip_hash'', ''chained_events'', ''signature'']
     in if \<not> list_all bindable (cell ''key_id'' # required) then Inl cannot_bind
        else if JNull \<in> set required
             \<or> (\<exists>s \<in> set (td_seals db). sr_id s = i
                 \<or> sr_machine s = machineDbId \<and> sr_tip_hash s = cell ''tip_hash'')
        then Inr db
        else Inr (db\<lparr>td_seals := td_seals db @
               [\<lparr>sr_id = i, sr_machine = machineDbId, sr_team = teamId, sr_sealed_at = cell ''sealed_at'',
                 sr_tip_hash = cell ''tip_hash'', sr_chained_events = cell ''chained_events'',
                 sr_signature = cell ''signature'', sr_key_id = cell ''key_id''\<rparr>]\<rparr>))"

definition insertEnrollmentToken :: "string \<Rightarrow> string \<Rightarrow> string \<Rightarrow> string \<Rightarrow> team_db \<Rightarrow> team_db result" where
  "insertEnrollmentToken i teamId tokenHash expiresAt db =
    (if \<exists>t \<in> set (td_tokens db). tk_id t = i \<or> tk_hash t = tokenHash then Inl constraint_failed
     else Inr (db\<lparr>td_tokens := td_tokens db @
            [\<lparr>tk_id = i, tk_team = teamId, tk_hash = tokenHash, tk_expires_at = expiresAt,
              tk_used_at = None, tk_used_by = None\<rparr>]\<rparr>))"

definition getEnrollmentTokenByHash :: "team_db \<Rightarrow> string \<Rightarrow> token_row option" where
  "getEnrollmentTokenByHash db h = find (\<lambda>t. tk_hash t = h) (td_tokens db)"

definition markTokenUsed :: "string \<Rightarrow> string \<Rightarrow> string \<Rightarrow> team_db \<Rightarrow> team_db" where
  "markTokenUsed now tokenId machineDbId db =
    db\<lparr>td_tokens := map (\<lambda>t. if tk_id t = tokenId
         then t\<lparr>tk_used_at := Some now, tk_used_by := Some machineDbId\<rparr> else t) (td_tokens db)\<rparr>"

section \<open>Answers\<close>

type_synonym response = "int \<times> json"

definition refuse :: "int \<Rightarrow> string \<Rightarrow> response" where
  "refuse code msg = (code, JObj [(''ok'', JBool False), (''error'', JStr msg)])"

text \<open>
  A handler's result: the new state with an answer; after an exception the framework answers 500,
  and what was written before stays.
\<close>

definition server_error :: response where
  "server_error = (500, JStr ''Internal Server Error'')"

definition handled :: "team_db \<Rightarrow> 'a result \<Rightarrow> ('a \<Rightarrow> team_db \<times> response) \<Rightarrow> team_db \<times> response" where
  "handled db r f = (case r of Inl x \<Rightarrow> (db, server_error) | Inr y \<Rightarrow> f y)"

section \<open>Authentication\<close>

text \<open>\<open>machineAuth\<close>: the machine and the key, or the answer.\<close>

definition machineAuth ::
  "server_env \<Rightarrow> team_db \<Rightarrow> string option \<Rightarrow> response + (machine_row \<times> string)" where
  "machineAuth e db authHeader =
    (case authHeader of
       None \<Rightarrow> Inl (refuse 401 ''Missing or invalid Authorization header'')
     | Some h \<Rightarrow>
         if \<not> starts_with h ''Bearer '' then Inl (refuse 401 ''Missing or invalid Authorization header'')
         else
           (let token = drop 7 h in
            if \<not> starts_with token ''pw_'' then Inl (refuse 401 ''Invalid API key format'')
            else
              (case getMachineByApiKeyHash db (hashApiKey (sv_sign e) token) of
                 None \<Rightarrow> Inl (refuse 401 ''Unknown API key'')
               | Some m \<Rightarrow>
                   if mr_status m \<noteq> ''active'' then Inl (refuse 403 (''Machine is '' @ mr_status m))
                   else Inr (m, token))))"

section \<open>Ingest\<close>

text \<open>\<open>value || fallback\<close>.\<close>

definition json_or :: "json option \<Rightarrow> json \<Rightarrow> json" where
  "json_or v d = (if truthy_json v then the v else d)"

text \<open>\<open>v?.k\<close> of a member that may be missing or null.\<close>

definition get2 :: "json \<Rightarrow> string \<Rightarrow> string \<Rightarrow> json option" where
  "get2 v k k2 = (case json_get v k of None \<Rightarrow> None | Some x \<Rightarrow> json_get x k2)"

definition event_insert :: "server_env \<Rightarrow> machine_row \<Rightarrow> json \<Rightarrow> event_row" where
  "event_insert e m evt =
    [(''id'', json_or (json_get evt ''id'') (JStr (''unknown_'' @ print_int (sv_now e)))),
     (''machine_id'', JStr (mr_id m)), (''team_id'', JStr (mr_team m)),
     (''session_id'', json_or (json_get evt ''session_id'') (JStr [])),
     (''timestamp'', json_or (json_get evt ''timestamp'') (JStr (sv_now_iso e))),
     (''agent'', json_or (json_get evt ''agent'') (JStr ''unknown'')),
     (''action'', json_or (json_get evt ''action'') (JStr ''unknown'')),
     (''status'', json_or (json_get evt ''status'') (JStr ''completed'')),
     (''target_type'', or_null (get2 evt ''target'' ''type'')),
     (''target_path'', or_null (get2 evt ''target'' ''path'')),
     (''target_command'', or_null (get2 evt ''target'' ''command'')),
     (''risk_level'', json_or (get2 evt ''risk'' ''level'') (JStr ''none'')),
     (''risk_flags'', if truthy_json (get2 evt ''risk'' ''flags'')
        then JStr (stringify (the (get2 evt ''risk'' ''flags''))) else JNull),
     (''event_hash'', or_null (json_get evt ''event_hash'')),
     (''prev_hash'', or_null (json_get evt ''prev_hash'')),
     (''relay_hash'', or_null (json_get evt ''_relay_hash'')),
     (''project_name'', or_null (get2 evt ''project'' ''name'')),
     (''raw_json'', JStr (stringify evt))]"

text \<open>The seals one by one, with the identifiers that are drawn; a throw leaves those before it.\<close>

fun insert_seals ::
  "server_env \<Rightarrow> machine_row \<Rightarrow> nat \<Rightarrow> json list \<Rightarrow> team_db \<Rightarrow> team_db \<times> unit result" where
  "insert_seals e m n [] db = (db, Inr ())"
| "insert_seals e m n (seal # seals) db =
     (case insertSeal (sv_uuid e n) (mr_id m) (mr_team m) seal db of
        Inl x \<Rightarrow> (db, Inl x)
      | Inr db' \<Rightarrow> insert_seals e m (Suc n) seals db')"

fun json_list :: "json option \<Rightarrow> json list" where
  "json_list (Some (JArr vs)) = vs"
| "json_list _ = []"

text \<open>The body is the value it parses to, \<open>None\<close> where it is no JSON.\<close>

definition ingest ::
  "server_env \<Rightarrow> string option \<Rightarrow> json option \<Rightarrow> team_db \<Rightarrow> team_db \<times> response" where
  "ingest e authHeader body db =
    (case machineAuth e db authHeader of
       Inl r \<Rightarrow> (db, r)
     | Inr (m, apiKey) \<Rightarrow>
         (case body of
            None \<Rightarrow> (db, refuse 400 ''Invalid JSON body'')
          | Some v \<Rightarrow>
              (case SyncEnvelopeSchema v of
                 None \<Rightarrow> (db, refuse 400 (''Schema validation failed: '' @ sv_issues e v))
               | Some envelope \<Rightarrow>
                   if \<not> verifyEnvelope (sv_sign e) envelope apiKey
                   then (db, refuse 401 ''Envelope signature verification failed'')
                   else
                     (let events = json_list (json_get envelope ''events'') in
                      if Some (JStr (computeBatchHash (sv_sign e) events))
                         \<noteq> json_get envelope ''batch_hash''
                      then (db, refuse 400 ''Batch hash mismatch'')
                      else handled db (insertEvents (map (event_insert e m) events) db)
                        (\<lambda>(db1, accepted, duplicates).
                          (let (db2, r) = insert_seals e m 0 (json_list (json_get envelope ''seals'')) db1
                           in handled db2 r (\<lambda>u.
                             (updateMachineSync (sv_now_iso e) (mr_id m)
                                (or_null (json_get envelope ''relay_chain_tip'')) db2,
                              (200, JObj [(''ok'', JBool True), (''accepted'', JNum (int accepted)),
                                (''duplicates'', JNum (int duplicates)),
                                (''chain_tip'', or_null (json_get envelope ''relay_chain_tip''))])))))))))"

section \<open>Enrolment\<close>

definition EnrollRequestSchema :: "(string \<Rightarrow> bool) \<Rightarrow> schema" where
  "EnrollRequestSchema is_email = z_object
    [(''enrollment_token'', Required z_string), (''machine_id'', Required z_string),
     (''machine_name'', Required z_string), (''developer_name'', Required z_string),
     (''developer_email'', Optional (z_refine is_email)), (''os'', Required z_string),
     (''agent_version'', Optional z_string)]"

fun str_of :: "json option \<Rightarrow> string" where
  "str_of (Some (JStr s)) = s"
| "str_of _ = []"

definition expired :: "server_env \<Rightarrow> token_row \<Rightarrow> bool" where
  "expired e t \<longleftrightarrow> (case sv_time e (tk_expires_at t) of None \<Rightarrow> False | Some x \<Rightarrow> x < sv_now e)"

definition enroll :: "server_env \<Rightarrow> json option \<Rightarrow> team_db \<Rightarrow> team_db \<times> response" where
  "enroll e body db =
    (case body of
       None \<Rightarrow> (db, refuse 400 ''Invalid JSON'')
     | Some v \<Rightarrow>
         (case EnrollRequestSchema (sv_is_email e) v of
            None \<Rightarrow> (db, refuse 400 (''Validation failed: '' @ sv_issues e v))
          | Some d \<Rightarrow>
              (let field = (\<lambda>k. str_of (json_get d k)) in
               case getEnrollmentTokenByHash db (hashApiKey (sv_sign e) (field ''enrollment_token'')) of
                 None \<Rightarrow> (db, refuse 401 ''Invalid enrollment token'')
               | Some t \<Rightarrow>
                   if truthy (tk_used_at t) then (db, refuse 409 ''Enrollment token already used'')
                   else if expired e t then (db, refuse 401 ''Enrollment token expired'')
                   else if getMachineByMachineId db (tk_team t) (field ''machine_id'') \<noteq> None
                   then (db, refuse 409 ''Machine already enrolled in this team'')
                   else
                     (let apiKey = generateApiKey (sv_random e); i = sv_uuid e 0 in
                      handled db
                        (insertMachine i (sv_now_sql e) (tk_team t) (field ''machine_id'') (field ''machine_name'')
                          (field ''developer_name'') (hashApiKey (sv_sign e) apiKey) (field ''os'') db)
                        (\<lambda>db1.
                          (markTokenUsed (sv_now_sql e) (tk_id t) i db1,
                           (200, JObj [(''ok'', JBool True), (''api_key'', JStr apiKey),
                             (''machine_id'', JStr i), (''team_id'', JStr (tk_team t)),
                             (''team_name'', JStr (case getTeam db1 (tk_team t) of
                                 Some tm \<Rightarrow> tm_name tm | None \<Rightarrow> []))])))))))"

section \<open>Bootstrap\<close>

definition z_length :: "(nat \<Rightarrow> bool) \<Rightarrow> schema" where
  "z_length ok = z_refine (\<lambda>s. ok (length s))"

definition BootstrapRequestSchema :: "(string \<Rightarrow> bool) \<Rightarrow> schema" where
  "BootstrapRequestSchema is_email = z_object
    [(''team_name'', Required (z_length (\<lambda>n. 1 \<le> n \<and> n \<le> 100))),
     (''admin_email'', Required (z_refine is_email)),
     (''admin_password'', Required (z_length (\<lambda>n. 8 \<le> n)))]"

definition token_lifetime_ms :: int where
  "token_lifetime_ms = 7 * 24 * 60 * 60 * 1000"

definition bootstrap :: "server_env \<Rightarrow> json option \<Rightarrow> team_db \<Rightarrow> team_db \<times> response" where
  "bootstrap e body db =
    (if getTeamCount db > 0 then (db, refuse 409 ''Server already bootstrapped'')
     else
       (case body of
          None \<Rightarrow> (db, refuse 400 ''Invalid JSON'')
        | Some v \<Rightarrow>
            (case BootstrapRequestSchema (sv_is_email e) v of
               None \<Rightarrow> (db, refuse 400 (''Validation failed: '' @ sv_issues e v))
             | Some d \<Rightarrow>
                 (let field = (\<lambda>k. str_of (json_get d k)); teamId = sv_uuid e 0 in
                  handled db (insertTeam teamId (field ''team_name'') db) (\<lambda>db1.
                  handled db1 (insertTeamMember (sv_uuid e 1) teamId (field ''admin_email'')
                      (hd (split_on (CHR 0x40) (field ''admin_email''))) ''admin''
                      (sg_sha (sv_sign e) (field ''admin_password'')) db1) (\<lambda>db2.
                    (let token = ENROLL_TOKEN_PREFIX @ sv_random e in
                     handled db2 (insertEnrollmentToken (sv_uuid e 2) teamId (hashApiKey (sv_sign e) token)
                         (sv_iso_of e (sv_now e + token_lifetime_ms)) db2) (\<lambda>db3.
                       (db3, (200, JObj [(''ok'', JBool True), (''team_id'', JStr teamId),
                          (''enrollment_token'', JStr token)]))))))))))"

end
