(* ===== verification/TeamDelivery.thy ===== *)
theory TeamDelivery
  imports TeamLemmas TeamServer
begin

text \<open>
  The agent and the server together: the steps of a machine whose log grows while cycles run, the
  contract of a server that keeps what it acknowledges, and the team server as an instance of it.
\<close>

section \<open>The steps of a machine\<close>

definition agent_log :: "sync_fs \<Rightarrow> string" where
  "agent_log fs = (case sf_log fs of None \<Rightarrow> [] | Some t \<Rightarrow> t)"

text \<open>
  The log only grows; the file of the cursor may be lost or damaged; the file of the seals changes
  as it likes; a cycle runs in any environment of the given kind.
\<close>

inductive sync_step ::
  "('srv sync_env \<Rightarrow> bool) \<Rightarrow> team_config \<Rightarrow> sync_fs \<times> 'srv \<Rightarrow> sync_fs \<times> 'srv \<Rightarrow> bool"
  for P cfg where
  log_grows: "sync_step P cfg (fs, srv) (fs\<lparr>sf_log := Some (agent_log fs @ added)\<rparr>, srv)"
| cursor_lost: "sync_step P cfg (fs, srv) (fs\<lparr>sf_cursor := None\<rparr>, srv)"
| seals_change: "sync_step P cfg (fs, srv) (fs\<lparr>sf_seals := x\<rparr>, srv)"
| cycle: "P e \<Longrightarrow> sync_cycle e cfg (fs, srv) = (s', r) \<Longrightarrow> sync_step P cfg (fs, srv) s'"

definition cursor_offset :: "sync_fs \<Rightarrow> nat" where
  "cursor_offset fs = cu_offset (readCursor (sf_cursor fs))"

text \<open>What the cursor says was sent: the records of the log before it.\<close>

definition sent_records :: "(string \<Rightarrow> json option) \<Rightarrow> sync_fs \<Rightarrow> json list" where
  "sent_records parse fs = log_records parse (take (cursor_offset fs) (agent_log fs))"

section \<open>The contract of the server\<close>

locale event_channel =
  fixes good :: "'srv sync_env \<Rightarrow> bool"
    and parse :: "string \<Rightarrow> json option"
    and stored :: "'srv \<Rightarrow> json \<Rightarrow> bool"
  assumes good_parse: "good e \<Longrightarrow> sn_parse e = parse"
    and keeps: "good e \<Longrightarrow> sn_push e url env srv = (srv', r) \<Longrightarrow> stored srv v \<Longrightarrow> stored srv' v"
    and ack_stores: "good e \<Longrightarrow> sn_push e url (cycle_envelope e cfg c rd seals) srv = (srv', Inr resp)
      \<Longrightarrow> truthy_json (json_get resp ''ok'') \<Longrightarrow> v \<in> set (rr_events rd) \<Longrightarrow> stored srv' v"
begin

definition synced :: "sync_fs \<times> 'srv \<Rightarrow> bool" where
  "synced s \<longleftrightarrow>
    cursor_offset (fst s) \<le> length (agent_log (fst s))
    \<and> whole_lines (take (cursor_offset (fst s)) (agent_log (fst s)))
    \<and> (\<forall>v \<in> set (sent_records parse (fst s)). stored (snd s) v)"

lemma synced_start:
  assumes "cursor_offset fs' = 0"
  shows "synced (fs', srv)"
  using assms by (simp add: synced_def sent_records_def log_records_def List.map_filter_def)

lemma synced_same:
  assumes "synced (fs, srv)" "cursor_offset fs' = cursor_offset fs" "sf_log fs' = sf_log fs"
    "\<And>v. stored srv v \<Longrightarrow> stored srv' v"
  shows "synced (fs', srv')"
  using assms by (auto simp: synced_def sent_records_def agent_log_def)

lemma synced_written:
  assumes "synced (fs, srv)" "\<And>v. stored srv v \<Longrightarrow> stored srv' v" "cu_offset c' = cursor_offset fs"
  shows "synced (fs\<lparr>sf_cursor := Some (cursor_json c')\<rparr>, srv')"
proof -
  let ?fs = "fs\<lparr>sf_cursor := Some (cursor_json c')\<rparr>"
  consider "cursor_offset ?fs = 0" | "cursor_offset ?fs = cursor_offset fs"
    using readCursor_offset [of c'] assms(3) by (auto simp: cursor_offset_def)
  then show ?thesis
    using assms(1,2) synced_start [of ?fs srv'] synced_same [of fs srv ?fs srv'] by cases auto
qed

lemma synced_advanced:
  assumes s: "synced (fs, srv)" and e: "good e"
    and push: "sn_push e (tc_server_url cfg) (sync_envelope e cfg fs) srv = (srv', Inr resp)"
    and ok: "truthy_json (json_get resp ''ok'')"
    and ne: "rr_events (sync_read e fs) \<noteq> []" and c': "cu_offset c' = rr_newByteOffset (sync_read e fs)"
  shows "synced (fs\<lparr>sf_cursor := Some (cursor_json c')\<rparr>, srv')"
proof -
  let ?fs = "fs\<lparr>sf_cursor := Some (cursor_json c')\<rparr>"
  define off where "off = cursor_offset fs"
  define rd where "rd = sync_read e fs"
  have rd': "rd = readNewEvents parse MAX_BATCH_EVENTS MAX_BATCH_BYTES (sf_log fs) off"
    by (simp add: rd_def sync_read_def off_def cursor_offset_def good_parse [OF e])
  obtain log where log: "sf_log fs = Some log"
    using ne by (cases "sf_log fs") (auto simp: rd_def [symmetric] rd' readNewEvents_def)
  define seg where "seg = take (rr_bytesRead rd) (drop off log)"
  note spec = readNewEvents_spec [where parse = parse and m = MAX_BATCH_EVENTS and b = MAX_BATCH_BYTES
      and log = log and off = off, folded log, folded rd', folded seg_def]
  have pos: "0 < MAX_BATCH_EVENTS" by (simp add: MAX_BATCH_EVENTS_def)
  have logs: "agent_log fs = log" "agent_log ?fs = log" by (simp_all add: agent_log_def log)
  have old: "off \<le> length log" "whole_lines (take off log)"
    "\<forall>v \<in> set (log_records parse (take off log)). stored srv v"
    using s by (simp_all add: synced_def logs off_def sent_records_def)
  have new: "take (rr_newByteOffset rd) log = take off log @ seg"
    using spec(3) [OF pos] by (simp add: seg_def take_add)
  have "stored srv' v" if "v \<in> set (rr_events rd)" for v
    using ack_stores [OF e push [unfolded sync_envelope_def Let_def] ok] that
    by (simp add: rd_def)
  moreover have "stored srv' v" if "v \<in> set (log_records parse (take off log))" for v
    using old(3) that keeps [OF e push] by blast
  ultimately have all: "\<forall>v \<in> set (log_records parse (take (rr_newByteOffset rd) log)). stored srv' v"
    using spec(2) [OF pos] records_append [OF old(2), of parse seg] by (auto simp: new)
  show ?thesis
  proof (cases "cursor_offset ?fs = 0")
    case True
    then show ?thesis by (rule synced_start)
  next
    case False
    then have "cursor_offset ?fs = rr_newByteOffset rd"
      using readCursor_offset [of c'] c' by (auto simp: cursor_offset_def rd_def)
    then show ?thesis
      using all whole_lines_append [OF old(2) spec(1) [OF pos]] spec(4) [OF pos old(1)]
      by (simp add: synced_def logs sent_records_def new [symmetric])
  qed
qed

lemma synced_step:
  assumes "sync_step good cfg s s'" "synced s"
  shows "synced s'"
  using assms
proof (cases rule: sync_step.cases)
  case (log_grows fs srv added)
  have "whole_lines (take (cursor_offset fs) (agent_log fs))" "cursor_offset fs \<le> length (agent_log fs)"
    using assms(2) by (simp_all add: synced_def log_grows)
  then show ?thesis
    using assms(2)
    by (auto simp: log_grows synced_def sent_records_def agent_log_def cursor_offset_def)
next
  case (cursor_lost fs srv)
  then show ?thesis
    by (simp add: synced_start cursor_offset_def readCursor_def DEFAULT_SYNC_CURSOR_def)
next
  case (seals_change fs srv x)
  then show ?thesis
    using assms(2) synced_same [of fs srv "fs\<lparr>sf_seals := x\<rparr>" srv] by (simp add: cursor_offset_def)
next
  case (cycle e fs srv r)
  obtain fs' srv' where s': "s' = (fs', srv')" by (cases s')
  have sy: "synced (fs, srv)" using assms(2) by (simp add: cycle)
  from cycle(3) [unfolded s'] show ?thesis
  proof (cases rule: sync_cycle_cases)
    case quiet
    then show ?thesis using sy by (simp add: s')
  next
    case (pushed answer)
    have keep: "stored srv v \<Longrightarrow> stored srv' v" for v using keeps [OF cycle(2) pushed(1)] .
    from pushed(3) show ?thesis
    proof
      assume "cursor_stays (readCursor (sf_cursor fs)) fs fs'"
      then show ?thesis
        using sy keep synced_same [of fs srv fs srv'] synced_written [OF sy, of srv']
        by (auto simp: s' cursor_stays_def cursor_offset_def)
    next
      assume "\<exists>resp c'. answer = Inr resp \<and> truthy_json (json_get resp ''ok'')
          \<and> cu_offset c' = rr_newByteOffset (sync_read e fs)
          \<and> fs' = fs\<lparr>sf_cursor := Some (cursor_json c')\<rparr>"
      then show ?thesis
        using synced_advanced [OF sy cycle(2) _ _ pushed(2)] pushed(1) by (auto simp: s')
    qed
  qed
qed

lemma synced_reachable:
  assumes "(sync_step good cfg)\<^sup>*\<^sup>* (fs, srv) s" "sf_cursor fs = None"
  shows "synced s"
  using assms(1)
proof (induction rule: rtranclp_induct)
  case base
  show ?case
    by (rule synced_start) (simp add: assms(2) cursor_offset_def readCursor_def DEFAULT_SYNC_CURSOR_def)
next
  case (step s t)
  then show ?case using synced_step by blast
qed

end

section \<open>The team server as such a channel\<close>

text \<open>
  A push over HTTP: the route with the machine's key; the body of an answer 500 is no JSON, so
  reading it fails.
\<close>

definition http_ingest ::
  "server_env \<Rightarrow> string \<Rightarrow> json \<Rightarrow> team_db \<Rightarrow> team_db \<times> json result" where
  "http_ingest se key envelope db =
    (let (db', r) = ingest se (Some (''Bearer '' @ key)) (Some envelope) db
     in (db', if r = server_error then Inl (Thrown ''Unexpected token in JSON'') else Inr (snd r)))"

text \<open>
  The machine of a key and its rows; a request leaves the machine what it is, up to what the last
  synchronisation said of it.
\<close>

definition key_machine :: "sign_env \<Rightarrow> string \<Rightarrow> team_db \<Rightarrow> machine_row option" where
  "key_machine sg key db = getMachineByApiKeyHash db (hashApiKey sg key)"

definition key_rows :: "sign_env \<Rightarrow> string \<Rightarrow> team_db \<Rightarrow> event_row set" where
  "key_rows sg key db = (case key_machine sg key db of
       None \<Rightarrow> {}
     | Some m \<Rightarrow> {row \<in> set (td_events db). map_of row ''machine_id'' = Some (JStr (mr_id m))})"

definition same_machine :: "sign_env \<Rightarrow> string \<Rightarrow> team_db \<Rightarrow> team_db \<Rightarrow> bool" where
  "same_machine sg key db db' \<longleftrightarrow>
    (\<exists>f. key_machine sg key db' = map_option f (key_machine sg key db)
      \<and> (\<forall>m. mr_id (f m) = mr_id m \<and> mr_team (f m) = mr_team m))"

text \<open>What the requests of other machines do: they leave this machine and its rows.\<close>

definition others_only :: "sign_env \<Rightarrow> string \<Rightarrow> team_db \<Rightarrow> team_db \<Rightarrow> bool" where
  "others_only sg key db db' \<longleftrightarrow> same_machine sg key db db' \<and> key_rows sg key db' = key_rows sg key db"

text \<open>
  An environment whose pushes go to a server with the same digests, after any requests of other
  machines: a push fails without reaching the server, is answered, or is handled with its answer lost.
\<close>

definition to_server :: "(string \<Rightarrow> json option) \<Rightarrow> sign_env \<Rightarrow> string \<Rightarrow> team_db sync_env \<Rightarrow> bool" where
  "to_server parse sg key e \<longleftrightarrow>
    sn_parse e = parse \<and>
    (\<forall>url env db. \<exists>db1. others_only sg key db db1 \<and>
      ((\<exists>x. sn_push e url env db = (db1, Inl x))
       \<or> (\<exists>se. sv_sign se = sg \<and>
            (sn_push e url env db = http_ingest se key env db1
             \<or> (\<exists>x. sn_push e url env db = (fst (http_ingest se key env db1), Inl x))))))"

text \<open>The machine of the key has a row under the event's name.\<close>

definition has_event :: "sign_env \<Rightarrow> string \<Rightarrow> team_db \<Rightarrow> json \<Rightarrow> bool" where
  "has_event sg key db v \<longleftrightarrow>
    key_machine sg key db \<noteq> None
    \<and> (truthy_json (json_get v ''id'') \<longrightarrow>
        (\<exists>row \<in> key_rows sg key db. map_of row ''id'' = json_get v ''id''))"

text \<open>All rows of the machine of the key are events of a given set, as the server writes them.\<close>

definition own_rows :: "sign_env \<Rightarrow> string \<Rightarrow> json set \<Rightarrow> team_db \<Rightarrow> bool" where
  "own_rows sg key vs db \<longleftrightarrow>
    (\<forall>row \<in> key_rows sg key db. \<exists>se m v.
       key_machine sg key db = Some m \<and> v \<in> vs \<and> row = event_insert se m v)"

lemma event_insert_same:
  "mr_id m' = mr_id m \<Longrightarrow> mr_team m' = mr_team m \<Longrightarrow> event_insert se m' v = event_insert se m v"
  by (simp add: event_insert_def)

lemma same_machine_refl [simp]: "same_machine sg key db db"
  by (auto simp: same_machine_def option.map_ident intro: exI [of _ "\<lambda>m. m"])

lemma others_only_refl [simp]: "others_only sg key db db"
  by (simp add: others_only_def)

lemma own_rows_mono: "own_rows sg key vs db \<Longrightarrow> vs \<subseteq> ws \<Longrightarrow> own_rows sg key ws db"
  by (fastforce simp: own_rows_def)

lemma own_rows_others:
  assumes "others_only sg key db db'" "own_rows sg key vs db"
  shows "own_rows sg key vs db'"
  unfolding own_rows_def
proof
  fix row assume row: "row \<in> key_rows sg key db'"
  obtain f where f: "key_machine sg key db' = map_option f (key_machine sg key db)"
    "\<And>m. mr_id (f m) = mr_id m \<and> mr_team (f m) = mr_team m" "key_rows sg key db' = key_rows sg key db"
    using assms(1) by (auto simp: others_only_def same_machine_def)
  then obtain se m v where "key_machine sg key db = Some m" "v \<in> vs" "row = event_insert se m v"
    using assms(2) row by (auto simp: own_rows_def)
  then have "key_machine sg key db' = Some (f m) \<and> v \<in> vs \<and> row = event_insert se (f m) v"
    using f(1) event_insert_same [of "f m" m se v] f(2) by simp
  then show "\<exists>se m v. key_machine sg key db' = Some m \<and> v \<in> vs \<and> row = event_insert se m v" by blast
qed

lemma has_event_others: "others_only sg key db db' \<Longrightarrow> has_event sg key db v \<Longrightarrow> has_event sg key db' v"
  by (auto simp: has_event_def others_only_def same_machine_def)

lemma insert_rows_spec:
  "insert_rows rows table n = Inr (table', n') \<Longrightarrow>
    (\<exists>new. table' = table @ new \<and> set new \<subseteq> set rows \<and> n' = n + length new)
    \<and> event_key ` set rows \<subseteq> event_key ` set table'"
proof (induction rows table n rule: insert_rows.induct)
  case (1 table n)
  then show ?case by auto
next
  case (2 row rows table n)
  show ?case
  proof (cases "event_key row \<in> event_key ` set table")
    case True
    then have "insert_rows rows table n = Inr (table', n')" using "2.prems" by (auto split: if_splits)
    with "2.IH"(1) True "2.prems" show ?thesis by (fastforce split: if_splits)
  next
    case False
    then have "insert_rows rows (table @ [row]) (n + 1) = Inr (table', n')"
      using "2.prems" by (auto split: if_splits)
    with "2.IH"(2) False "2.prems" have
      "(\<exists>new. table' = (table @ [row]) @ new \<and> set new \<subseteq> set rows \<and> n' = n + 1 + length new)
       \<and> event_key ` set rows \<subseteq> event_key ` set table'"
      by (auto split: if_splits)
    then show ?thesis by (auto intro!: exI [of _ "row # _"])
  qed
qed

lemma insert_seals_keeps:
  "insert_seals e m n seals db = (db', r) \<Longrightarrow>
     td_events db' = td_events db \<and> td_machines db' = td_machines db \<and> td_tokens db' = td_tokens db
     \<and> td_teams db' = td_teams db"
proof (induction seals arbitrary: n db)
  case (Cons seal seals)
  show ?case
  proof (cases "insertSeal (sv_uuid e n) (mr_id m) (mr_team m) seal db")
    case (Inl x)
    then show ?thesis using Cons.prems by simp
  next
    case (Inr db1)
    then have "td_events db1 = td_events db \<and> td_machines db1 = td_machines db
      \<and> td_tokens db1 = td_tokens db \<and> td_teams db1 = td_teams db"
      by (auto simp: insertSeal_def Let_def split: if_splits)
    then show ?thesis using Cons.IH [of "Suc n" db1] Cons.prems Inr by simp
  qed
qed simp

lemma find_map_same: "(\<And>x. P (f x) = P x) \<Longrightarrow> find P (map f xs) = map_option f (find P xs)"
  by (induction xs) auto

lemma updateMachineSync_key:
  "getMachineByApiKeyHash (updateMachineSync now i tip db) h
    = map_option (\<lambda>m. if mr_id m = i
        then m\<lparr>mr_last_seen_at := Some now, mr_last_sync_at := Some now, mr_chain_tip := tip\<rparr> else m)
       (getMachineByApiKeyHash db h)"
  by (simp add: getMachineByApiKeyHash_def updateMachineSync_def find_map_same)

text \<open>What an ingest that writes has checked, and what it leaves.\<close>

definition ingest_checked ::
  "server_env \<Rightarrow> string option \<Rightarrow> json option \<Rightarrow> team_db \<Rightarrow> machine_row \<Rightarrow> string \<Rightarrow> json \<Rightarrow> bool" where
  "ingest_checked e h body db m key envelope \<longleftrightarrow>
    h = Some (''Bearer '' @ key) \<and> starts_with key ''pw_''
    \<and> getMachineByApiKeyHash db (hashApiKey (sv_sign e) key) = Some m \<and> mr_status m = ''active''
    \<and> (\<exists>v. body = Some v \<and> SyncEnvelopeSchema v = Some envelope)
    \<and> verifyEnvelope (sv_sign e) envelope key
    \<and> json_get envelope ''batch_hash''
        = Some (JStr (computeBatchHash (sv_sign e) (json_list (json_get envelope ''events''))))"

lemma machineAuth_Inr:
  assumes "machineAuth e db h = Inr (m, key)"
  shows "h = Some (''Bearer '' @ key)" "starts_with key ''pw_''"
    "getMachineByApiKeyHash db (hashApiKey (sv_sign e) key) = Some m" "mr_status m = ''active''"
proof -
  obtain t where t: "h = Some t" "starts_with t ''Bearer ''"
    using assms by (auto simp: machineAuth_def split: option.splits if_splits)
  then obtain k where "t = ''Bearer '' @ k" by (auto simp: starts_with_iff)
  then show "h = Some (''Bearer '' @ key)" "starts_with key ''pw_''"
    "getMachineByApiKeyHash db (hashApiKey (sv_sign e) key) = Some m" "mr_status m = ''active''"
    using assms t by (auto simp: machineAuth_def Let_def split: option.splits if_splits)
qed

lemma ingest_cases:
  assumes "ingest e h body db = (db', r)"
  obtains (refused) "db' = db" "\<not> truthy_json (json_get (snd r) ''ok'')"
  | (stored) m key envelope new accepted where
    "ingest_checked e h body db m key envelope"
    "insert_rows (map (event_insert e m) (json_list (json_get envelope ''events''))) (td_events db) 0
       = Inr (td_events db @ new, accepted)"
    "td_events db' = td_events db @ new"
    "td_machines db' = td_machines db \<and> r = server_error
     \<or> (\<exists>tip now. td_machines db' = td_machines (updateMachineSync now (mr_id m) tip db))
       \<and> r = (200, JObj [(''ok'', JBool True), (''accepted'', JNum (int accepted)),
           (''duplicates'', JNum (int (length (json_list (json_get envelope ''events'')) - accepted))),
           (''chain_tip'', or_null (json_get envelope ''relay_chain_tip''))])"
proof -
  have no: "\<not> truthy_json (json_get (snd (refuse code msg)) ''ok'')" for code msg
    by (simp add: refuse_def)
  show thesis
  proof (cases "machineAuth e db h")
    case (Inl x)
    then have "db' = db" "r = x" using assms by (simp_all add: ingest_def)
    moreover have "\<not> truthy_json (json_get (snd x) ''ok'')"
      using Inl by (auto simp: machineAuth_def Let_def refuse_def split: option.splits if_splits)
    ultimately show thesis using refused by blast
  next
    case (Inr p)
    obtain m key where p: "p = (m, key)" by (cases p)
    note auth = machineAuth_Inr [OF Inr [unfolded p]]
    show thesis
    proof (cases "\<exists>v envelope. body = Some v \<and> SyncEnvelopeSchema v = Some envelope
        \<and> verifyEnvelope (sv_sign e) envelope key
        \<and> Some (JStr (computeBatchHash (sv_sign e) (json_list (json_get envelope ''events''))))
            = json_get envelope ''batch_hash''")
      case False
      then have "db' = db" "\<exists>code msg. r = refuse code msg"
        using assms by (auto simp: ingest_def Inr p Let_def split: option.splits if_splits)
      then show thesis using refused no by auto
    next
      case True
      then obtain v envelope where v: "body = Some v" "SyncEnvelopeSchema v = Some envelope"
        "verifyEnvelope (sv_sign e) envelope key"
        "json_get envelope ''batch_hash''
          = Some (JStr (computeBatchHash (sv_sign e) (json_list (json_get envelope ''events''))))"
        by auto
      have checked: "ingest_checked e h body db m key envelope"
        using auth v by (simp add: ingest_checked_def)
      define rows where "rows = map (event_insert e m) (json_list (json_get envelope ''events''))"
      have run: "(db', r) = handled db (insertEvents rows db) (\<lambda>(db1, accepted, duplicates).
            (let (db2, r) = insert_seals e m 0 (json_list (json_get envelope ''seals'')) db1
             in handled db2 r (\<lambda>u. (updateMachineSync (sv_now_iso e) (mr_id m)
                  (or_null (json_get envelope ''relay_chain_tip'')) db2,
                (200, JObj [(''ok'', JBool True), (''accepted'', JNum (int accepted)),
                  (''duplicates'', JNum (int duplicates)),
                  (''chain_tip'', or_null (json_get envelope ''relay_chain_tip''))])))))"
        using assms by (simp add: ingest_def Inr p v Let_def rows_def)
      show thesis
      proof (cases "insert_rows rows (td_events db) 0")
        case (Inl x)
        then have "db' = db" "r = server_error" using run by (simp_all add: insertEvents_def handled_def)
        then show thesis by (intro refused) (simp_all add: server_error_def)
      next
        case (Inr q)
        obtain new accepted where q: "q = (td_events db @ new, accepted)"
          using insert_rows_spec [of rows "td_events db" 0 "fst q" "snd q"] Inr by (cases q) auto
        define db1 where "db1 = db\<lparr>td_events := td_events db @ new\<rparr>"
        obtain db2 y where s: "insert_seals e m 0 (json_list (json_get envelope ''seals'')) db1 = (db2, y)"
          by fastforce
        note keep = insert_seals_keeps [OF s]
        have run2: "(db', r) = handled db2 y (\<lambda>u. (updateMachineSync (sv_now_iso e) (mr_id m)
                  (or_null (json_get envelope ''relay_chain_tip'')) db2,
                (200, JObj [(''ok'', JBool True), (''accepted'', JNum (int accepted)),
                  (''duplicates'', JNum (int (length rows - accepted))),
                  (''chain_tip'', or_null (json_get envelope ''relay_chain_tip''))])))"
          using run s by (simp add: insertEvents_def handled_def Inr q db1_def)
        have "td_events db' = td_events db @ new"
          using run2 keep by (cases y) (auto simp: handled_def db1_def updateMachineSync_def)
        moreover have "td_machines db' = td_machines db \<and> r = server_error
          \<or> (\<exists>tip now. td_machines db' = td_machines (updateMachineSync now (mr_id m) tip db))
            \<and> r = (200, JObj [(''ok'', JBool True), (''accepted'', JNum (int accepted)),
                (''duplicates'', JNum (int (length rows - accepted))),
                (''chain_tip'', or_null (json_get envelope ''relay_chain_tip''))])"
          using run2 keep by (cases y) (auto simp: handled_def db1_def updateMachineSync_def)
        ultimately show thesis
          using checked Inr q by (intro stored) (simp_all add: rows_def)
      qed
    qed
  qed
qed

text \<open>The envelope of a cycle, as its reader sees it.\<close>

lemma cycle_envelope_get:
  "json_get (cycle_envelope e cfg c rd seals) ''events'' = Some (JArr (rr_events rd))"
  "json_get (cycle_envelope e cfg c rd seals) ''batch_hash''
     = Some (JStr (computeBatchHash (sn_sign e) (rr_events rd)))"
  by (cases "seals = []"; simp add: cycle_envelope_def signEnvelope_def unsigned_envelope_def Let_def
      add_member_def)+

lemma schema_events:
  assumes "SyncEnvelopeSchema v = Some w" "json_get v ''events'' = Some (JArr evs)"
  shows "json_get w ''events'' = Some (JArr evs)"
proof -
  have "z_field (Required z_records) (json_get v ''events'') = Some (json_get w ''events'')"
    using assms(1) unfolding SyncEnvelopeSchema_def
    by (rule schema_get) (simp_all add: envelope_fields_def)
  then show ?thesis using assms(2) by (auto simp: z_records_def split: if_splits)
qed

lemma event_insert_key:
  "event_key (event_insert e m v) = (Some (JStr (mr_id m)), Some (json_or (json_get v ''id'')
     (JStr (''unknown_'' @ print_int (sv_now e)))))"
  by (simp add: event_key_def event_insert_def)

lemma ingest_same_machine:
  assumes "ingest e h body db = (db', r)"
  shows "same_machine sg key db db'"
  using assms
proof (cases rule: ingest_cases)
  case refused
  then show ?thesis by simp
next
  case (stored m' key' envelope new accepted)
  then consider "td_machines db' = td_machines db"
    | tip now where "td_machines db' = td_machines (updateMachineSync now (mr_id m') tip db)"
    by blast
  then show ?thesis
  proof cases
    case 1
    then show ?thesis
      by (auto simp: same_machine_def key_machine_def getMachineByApiKeyHash_def option.map_ident
          intro: exI [of _ "\<lambda>m. m"])
  next
    case 2
    then have "key_machine sg key db'
        = getMachineByApiKeyHash (updateMachineSync now (mr_id m') tip db) (hashApiKey sg key)"
      by (simp add: key_machine_def getMachineByApiKeyHash_def)
    then show ?thesis
      unfolding same_machine_def updateMachineSync_key key_machine_def
      by (intro exI [of _ "\<lambda>m. if mr_id m = mr_id m' then m\<lparr>mr_last_seen_at := Some now,
          mr_last_sync_at := Some now, mr_chain_tip := tip\<rparr> else m"]) simp
  qed
qed

lemma insert_machine_id [simp]: "map_of (event_insert e m v) ''machine_id'' = Some (JStr (mr_id m))"
  by (simp add: event_insert_def)

text \<open>The request of another machine is one of the others.\<close>

lemma other_ingest:
  assumes "ingest e h body db = (db', r)"
    and "\<And>m k m2. key_machine sg key db = Some m \<Longrightarrow> h = Some (''Bearer '' @ k)
      \<Longrightarrow> getMachineByApiKeyHash db (hashApiKey (sv_sign e) k) = Some m2 \<Longrightarrow> mr_id m2 \<noteq> mr_id m"
  shows "others_only sg key db db'"
proof -
  obtain f where f: "key_machine sg key db' = map_option f (key_machine sg key db)" "\<And>m. mr_id (f m) = mr_id m"
    using ingest_same_machine [OF assms(1), of sg key] by (auto simp: same_machine_def)
  have "key_rows sg key db' = key_rows sg key db"
    using assms(1)
  proof (cases rule: ingest_cases)
    case refused
    then show ?thesis by simp
  next
    case (stored m' key' envelope new accepted)
    have new: "set new \<subseteq> set (map (event_insert e m') (json_list (json_get envelope ''events'')))"
      using insert_rows_spec [OF stored(2)] by auto
    show ?thesis
    proof (cases "key_machine sg key db")
      case None
      then show ?thesis using f(1) by (simp add: key_rows_def)
    next
      case (Some m)
      then have "mr_id m' \<noteq> mr_id m" using assms(2) stored(1) by (auto simp: ingest_checked_def)
      then have "map_of row ''machine_id'' \<noteq> Some (JStr (mr_id m))" if "row \<in> set new" for row
        using new that by auto
      then show ?thesis using f Some by (auto simp: key_rows_def stored(3))
    qed
  qed
  then show ?thesis using ingest_same_machine [OF assms(1)] by (simp add: others_only_def)
qed

text \<open>What a push of this machine leaves: the rows it had, and those of the batch.\<close>

lemma ingest_keeps_event:
  assumes "ingest e h body db = (db', r)" "has_event sg key db v"
  shows "has_event sg key db' v"
proof -
  obtain f where f: "key_machine sg key db' = map_option f (key_machine sg key db)" "\<And>m. mr_id (f m) = mr_id m"
    using ingest_same_machine [OF assms(1), of sg key] by (auto simp: same_machine_def)
  have "set (td_events db) \<subseteq> set (td_events db')"
    using assms(1) by (cases rule: ingest_cases) auto
  then have "key_rows sg key db \<subseteq> key_rows sg key db'"
    using f by (auto simp: key_rows_def split: option.splits)
  then show ?thesis using assms(2) f(1) by (auto simp: has_event_def)
qed

lemma push_own_rows:
  assumes "ingest se (Some (''Bearer '' @ key)) (Some (cycle_envelope e cfg c rd seals)) db = (db', r)"
    and "sv_sign se = sg" and "own_rows sg key vs db"
  shows "own_rows sg key (vs \<union> set (rr_events rd)) db'"
  using assms(1)
proof (cases rule: ingest_cases)
  case refused
  then show ?thesis using own_rows_mono [OF assms(3)] by simp
next
  case (stored m key' envelope new accepted)
  have m: "key_machine sg key db = Some m"
    using stored(1) by (auto simp: ingest_checked_def assms(2) key_machine_def)
  have events: "json_get envelope ''events'' = Some (JArr (rr_events rd))"
    using stored(1) schema_events [OF _ cycle_envelope_get(1)] by (auto simp: ingest_checked_def)
  obtain f where f: "key_machine sg key db' = Some (f m)" "\<And>m. mr_id (f m) = mr_id m"
    "\<And>m. mr_team (f m) = mr_team m"
    using ingest_same_machine [OF assms(1), of sg key] by (auto simp: same_machine_def m)
  have same: "event_insert e2 (f m) v = event_insert e2 m v" for e2 v
    using f(2,3) by (rule event_insert_same)
  have new: "set new \<subseteq> event_insert se m ` set (rr_events rd)"
    using insert_rows_spec [OF stored(2)] by (auto simp: events)
  have "key_rows sg key db' \<subseteq> key_rows sg key db \<union> set new"
    using f by (auto simp: key_rows_def m stored(3))
  then show ?thesis
    using assms(3) new unfolding own_rows_def f(1) m by (fastforce simp: same)
qed

lemma http_ingest_state: "fst (http_ingest se key env db) = fst (ingest se (Some (''Bearer '' @ key)) (Some env) db)"
  by (simp add: http_ingest_def split: prod.split)

lemma to_server_cases:
  assumes "to_server parse sg key e" "sn_push e url env db = (db', r)"
  obtains db1 where "others_only sg key db db1" "db' = db1" "\<exists>x. r = Inl x"
  | db1 se a where "others_only sg key db db1" "sv_sign se = sg"
    "ingest se (Some (''Bearer '' @ key)) (Some env) db1 = (db', a)"
    "(\<exists>x. r = Inl x) \<or> http_ingest se key env db1 = (db', r)"
proof -
  obtain db1 where o: "others_only sg key db db1"
    and d: "(\<exists>x. sn_push e url env db = (db1, Inl x))
       \<or> (\<exists>se. sv_sign se = sg \<and>
            (sn_push e url env db = http_ingest se key env db1
             \<or> (\<exists>x. sn_push e url env db = (fst (http_ingest se key env db1), Inl x))))"
    using assms(1) unfolding to_server_def by meson
  from d show thesis
  proof
    assume "\<exists>x. sn_push e url env db = (db1, Inl x)"
    then show thesis using that(1) [OF o] assms(2) by auto
  next
    assume "\<exists>se. sv_sign se = sg \<and>
            (sn_push e url env db = http_ingest se key env db1
             \<or> (\<exists>x. sn_push e url env db = (fst (http_ingest se key env db1), Inl x)))"
    then obtain se where se: "sv_sign se = sg" "db' = fst (http_ingest se key env db1)"
      "(\<exists>x. r = Inl x) \<or> http_ingest se key env db1 = (db', r)"
      using assms(2) by (metis fst_conv snd_conv prod.inject)
    obtain a where "ingest se (Some (''Bearer '' @ key)) (Some env) db1 = (db', a)"
      using se(2) unfolding http_ingest_state by (cases "ingest se (Some (''Bearer '' @ key)) (Some env) db1") auto
    then show thesis using that(2) [OF o se(1)] se(3) by blast
  qed
qed

lemma server_is_channel:
  "event_channel (to_server parse sg key) parse (has_event sg key)"
proof
  fix e :: "team_db sync_env"
  assume "to_server parse sg key e"
  then show "sn_parse e = parse" by (simp add: to_server_def)
next
  fix e :: "team_db sync_env" and url env db db' r v
  assume "to_server parse sg key e" "sn_push e url env db = (db', r)" and has: "has_event sg key db v"
  then show "has_event sg key db' v"
    by (cases rule: to_server_cases) (auto intro: has_event_others ingest_keeps_event)
next
  fix e :: "team_db sync_env" and url cfg c rd seals db db' resp v
  assume good: "to_server parse sg key e"
    and push: "sn_push e url (cycle_envelope e cfg c rd seals) db = (db', Inr resp)"
    and ok: "truthy_json (json_get resp ''ok'')" and v: "v \<in> set (rr_events rd)"
  obtain db1 se where se: "sv_sign se = sg"
    "http_ingest se key (cycle_envelope e cfg c rd seals) db1 = (db', Inr resp)"
    using good push by (cases rule: to_server_cases) auto
  then obtain r where r: "ingest se (Some (''Bearer '' @ key)) (Some (cycle_envelope e cfg c rd seals)) db1
      = (db', r)" "resp = snd r"
    by (auto simp: http_ingest_def Let_def split: prod.splits if_splits)
  from r(1) show "has_event sg key db' v"
  proof (cases rule: ingest_cases)
    case refused
    then show ?thesis using ok r(2) by simp
  next
    case (stored m key' envelope new accepted)
    have events: "json_get envelope ''events'' = Some (JArr (rr_events rd))"
      using stored(1) schema_events [OF _ cycle_envelope_get(1)] by (auto simp: ingest_checked_def)
    have m: "key_machine sg key db1 = Some m"
      using stored(1) by (auto simp: ingest_checked_def se(1) key_machine_def)
    obtain f where f: "key_machine sg key db' = Some (f m)" "\<And>m. mr_id (f m) = mr_id m"
      using ingest_same_machine [OF r(1), of sg key] by (auto simp: same_machine_def m)
    have "event_key (event_insert se m v) \<in> event_key ` set (td_events db')"
      using insert_rows_spec [OF stored(2)] v unfolding stored(3) by (auto simp: events)
    then obtain row where "row \<in> set (td_events db')" "event_key row = event_key (event_insert se m v)"
      by auto
    moreover have "event_key (event_insert se m v) = (Some (JStr (mr_id m)), json_get v ''id'')"
      if "truthy_json (json_get v ''id'')"
      using that by (cases "json_get v ''id''") (simp_all add: event_insert_key json_or_def)
    ultimately show ?thesis using f by (auto simp: has_event_def key_rows_def event_key_def)
  qed
qed

interpretation server_channel: event_channel "to_server parse sg key" parse "has_event sg key"
  for parse sg key
  by (rule server_is_channel)

section \<open>What the server's rows say\<close>

lemma log_records_mono: "set (log_records parse a) \<subseteq> set (log_records parse (a @ b))"
proof -
  obtain ls tail where ls: "line_list ls" "newline \<notin> set tail" "a = lines_text ls @ tail"
    using text_as_lines by blast
  have "whole_lines (lines_text ls)" using ls(1) by (auto simp: whole_lines_def)
  moreover have "log_records parse a = log_records parse (lines_text ls)"
    using records_lines [OF ls(1,2)] records_lines [OF ls(1), of "[]"] by (simp add: ls(3))
  ultimately show ?thesis
    using records_append [of "lines_text ls" parse "tail @ b"] by (simp add: ls(3))
qed

lemma sync_read_in_log:
  assumes "cursor_offset fs \<le> length (agent_log fs)" "whole_lines (take (cursor_offset fs) (agent_log fs))"
  shows "set (rr_events (sync_read e fs)) \<subseteq> set (log_records (sn_parse e) (agent_log fs))"
proof (cases "sf_log fs")
  case None
  then show ?thesis by (simp add: sync_read_def readNewEvents_def)
next
  case (Some log)
  define off where "off = cursor_offset fs"
  define rd where "rd = sync_read e fs"
  define seg where "seg = take (rr_bytesRead rd) (drop off log)"
  have "rd = readNewEvents (sn_parse e) MAX_BATCH_EVENTS MAX_BATCH_BYTES (Some log) off"
    by (simp add: rd_def sync_read_def off_def cursor_offset_def Some)
  note spec = readNewEvents_spec [where parse = "sn_parse e" and m = MAX_BATCH_EVENTS and b = MAX_BATCH_BYTES
      and log = log and off = off, folded this seg_def]
  have pos: "0 < MAX_BATCH_EVENTS" by (simp add: MAX_BATCH_EVENTS_def)
  have log: "agent_log fs = log" by (simp add: agent_log_def Some)
  have whole: "whole_lines (take off log @ seg)"
    using whole_lines_append [OF _ spec(1) [OF pos]] assms(2) by (simp add: log off_def)
  have "log = (take off log @ seg) @ drop (rr_bytesRead rd) (drop off log)"
    unfolding seg_def by (metis append.assoc append_take_drop_id)
  then have "log_records (sn_parse e) log
      = log_records (sn_parse e) (take off log @ seg)
        @ log_records (sn_parse e) (drop (rr_bytesRead rd) (drop off log))"
    using records_append [OF whole] by metis
  moreover have "log_records (sn_parse e) (take off log @ seg)
      = log_records (sn_parse e) (take off log) @ log_records (sn_parse e) seg"
    using assms(2) records_append by (simp add: log off_def)
  ultimately show ?thesis using spec(2) [OF pos] by (auto simp: rd_def [symmetric] log)
qed

lemma own_rows_step:
  assumes "sync_step (to_server parse sg key) cfg s s'"
    and "event_channel.synced parse (has_event sg key) s"
    and "own_rows sg key (set (log_records parse (agent_log (fst s)))) (snd s)"
  shows "own_rows sg key (set (log_records parse (agent_log (fst s')))) (snd s')"
  using assms(1)
proof (cases rule: sync_step.cases)
  case (log_grows fs srv added)
  then show ?thesis using own_rows_mono [OF assms(3) log_records_mono] by (simp add: agent_log_def)
next
  case (cursor_lost fs srv)
  then show ?thesis using assms(3) by (simp add: agent_log_def)
next
  case (seals_change fs srv x)
  then show ?thesis using assms(3) by (simp add: agent_log_def)
next
  case (cycle e fs srv r)
  obtain fs' srv' where s': "s' = (fs', srv')" by (cases s')
  define vs where "vs = set (log_records parse (agent_log fs))"
  have own: "own_rows sg key vs srv" using assms(3) by (simp add: cycle vs_def)
  from cycle(3) [unfolded s'] show ?thesis
  proof (cases rule: sync_cycle_cases)
    case quiet
    then show ?thesis using own by (simp add: s' vs_def)
  next
    case (pushed answer)
    have log: "agent_log fs' = agent_log fs"
      using pushed(3) by (auto simp: cursor_stays_def agent_log_def)
    have "set (rr_events (sync_read e fs)) \<subseteq> vs"
      using sync_read_in_log [of fs e] assms(2) cycle(2)
      by (simp add: server_channel.synced_def cycle(1) vs_def to_server_def)
    then have vs: "vs \<union> set (rr_events (sync_read e fs)) = vs" by blast
    from cycle(2) pushed(1) have "own_rows sg key vs srv'"
    proof (cases rule: to_server_cases)
      case 1
      then show ?thesis using own own_rows_others by simp
    next
      case (2 db1 se a)
      then show ?thesis
        using push_own_rows [OF 2(3) [unfolded sync_envelope_def Let_def] 2(2) own_rows_others [OF 2(1) own]] vs
        by simp
    qed
    then show ?thesis by (simp add: s' log vs_def)
  qed
qed

lemma own_rows_reachable:
  assumes "(sync_step (to_server parse sg key) cfg)\<^sup>*\<^sup>* (fs, db) s" "sf_cursor fs = None"
    and "key_rows sg key db = {}"
  shows "own_rows sg key (set (log_records parse (agent_log (fst s)))) (snd s)"
  using assms(1)
proof (induction rule: rtranclp_induct)
  case base
  show ?case by (simp add: own_rows_def assms(3))
next
  case (step s t)
  then show ?case using own_rows_step server_channel.synced_reachable [OF step(1) assms(2)] by blast
qed

text \<open>Under its own name, an event of the log is stored as itself.\<close>

lemma stored_as_itself:
  assumes "has_event sg key db v" "own_rows sg key vs db" "v \<in> vs"
    and names: "\<forall>w \<in> vs. truthy_json (json_get w ''id'')" "inj_on (\<lambda>w. json_get w ''id'') vs"
  shows "\<exists>m se. key_machine sg key db = Some m \<and> event_insert se m v \<in> set (td_events db)"
proof -
  obtain row where row: "row \<in> key_rows sg key db" "map_of row ''id'' = json_get v ''id''"
    using assms(1,3) names(1) by (auto simp: has_event_def)
  then obtain se m w where w: "key_machine sg key db = Some m" "w \<in> vs" "row = event_insert se m w"
    using assms(2) by (auto simp: own_rows_def)
  have "map_of (event_insert se m w) ''id'' = json_get w ''id''"
    using names(1) w(2) by (cases "json_get w ''id''") (auto simp: event_insert_def json_or_def)
  then have "w = v" using row(2) names(2) w assms(3) by (auto dest: inj_onD)
  then show ?thesis using row(1) w by (auto simp: key_rows_def)
qed

section \<open>Requests that are accepted\<close>

lemma insert_rows_fresh:
  assumes "insert_rows rows table n = Inr (table @ new, n')"
  shows "\<forall>row \<in> set new. event_key row \<notin> event_key ` set table"
  using assms
proof (induction rows arbitrary: table n new)
  case Nil
  then show ?case by simp
next
  case (Cons row rows)
  show ?case
  proof (cases "event_key row \<in> event_key ` set table")
    case True
    then show ?thesis using Cons by (auto split: if_splits)
  next
    case False
    then have run: "insert_rows rows (table @ [row]) (n + 1) = Inr (table @ new, n')"
      using Cons.prems by (auto split: if_splits)
    obtain new' where "table @ new = (table @ [row]) @ new'"
      using insert_rows_spec [OF run] by auto
    then show ?thesis using Cons.IH [of "table @ [row]" "n + 1" new'] run False by auto
  qed
qed

lemma insert_rows_total:
  "list_all (list_all (\<lambda>c. bindable (snd c))) rows \<Longrightarrow> \<exists>table' n'. insert_rows rows table n = Inr (table', n')"
  by (induction rows table n rule: insert_rows.induct) auto

text \<open>The values of an event that a statement takes, and those of a seal.\<close>

definition storable_event :: "json \<Rightarrow> bool" where
  "storable_event v \<longleftrightarrow>
    list_all (\<lambda>k. bindable (or_null (json_get v k)))
      [''id'', ''session_id'', ''timestamp'', ''agent'', ''action'', ''status'', ''event_hash'', ''prev_hash'',
       ''_relay_hash'']
    \<and> list_all (\<lambda>(k, k2). bindable (or_null (get2 v k k2)))
      [(''target'', ''type''), (''target'', ''path''), (''target'', ''command''), (''risk'', ''level''),
       (''project'', ''name'')]"

definition storable_seal :: "json \<Rightarrow> bool" where
  "storable_seal s \<longleftrightarrow> is_JObj s
    \<and> list_all (\<lambda>k. bindable (or_null (json_get s k)))
      [''sealed_at'', ''tip_hash'', ''chained_events'', ''signature'', ''key_id'']"

lemma event_insert_columns:
  "map_of (event_insert e m v) ''team_id'' = Some (JStr (mr_team m))"
  by (simp add: event_insert_def)

lemma bindable_or: "bindable (or_null v) \<Longrightarrow> bindable d \<Longrightarrow> bindable (json_or v d)"
  by (cases v) (simp_all add: json_or_def or_null_def)

lemma storable_row: "storable_event v \<Longrightarrow> list_all (\<lambda>c. bindable (snd c)) (event_insert e m v)"
  by (simp add: storable_event_def event_insert_def bindable_or)

lemma insert_seals_total:
  "list_all storable_seal seals \<Longrightarrow> \<exists>db'. insert_seals e m n seals db = (db', Inr ())"
proof (induction seals arbitrary: n db)
  case (Cons seal seals)
  have "\<exists>db1. insertSeal (sv_uuid e n) (mr_id m) (mr_team m) seal db = Inr db1"
    using Cons.prems by (simp add: insertSeal_def storable_seal_def Let_def)
  then show ?case using Cons by auto
qed simp

definition sendable_batch :: "read_result \<Rightarrow> json list \<Rightarrow> bool" where
  "sendable_batch rd seals \<longleftrightarrow>
    rr_events rd \<noteq> [] \<and> list_all is_JObj (rr_events rd) \<and> list_all storable_seal seals
    \<and> text_or_null (or_null (json_get (hd (rr_events rd)) ''event_hash''))
    \<and> text_or_null (or_null (json_get (last (rr_events rd)) ''event_hash''))
    \<and> text_or_null (or_null (json_get (last (rr_events rd)) ''_relay_hash''))"

lemma cycle_envelope_valid:
  assumes "sendable_batch rd seals"
  shows "SyncEnvelopeSchema (cycle_envelope e cfg c rd seals) = Some (cycle_envelope e cfg c rd seals)"
proof -
  have "list_all is_JObj seals" using assms by (auto simp: sendable_batch_def storable_seal_def list_all_iff)
  then show ?thesis
    using assms
    by (cases "seals = []") (simp_all add: sendable_batch_def SyncEnvelopeSchema_def envelope_fields_def
        cycle_envelope_def signEnvelope_def unsigned_envelope_def Let_def add_member_def z_literal_def
        z_enum_def z_refine_def z_records_def z_nat_def text_or_null_def)
qed

lemma set_members_one: "set_members [(k, x)] (JObj ms) = JObj (obj_set k x ms)"
  by simp

lemma strip_obj_set: "filter (\<lambda>m. fst m \<noteq> k) (obj_set k x ms) = filter (\<lambda>m. fst m \<noteq> k) ms"
  by (induction ms) auto

text \<open>A signature verifies with the key it was made with.\<close>

lemma verify_signed:
  assumes "is_JObj v"
  shows "verifyEnvelope e (signEnvelope e now v key) key"
proof -
  obtain ms where v: "v = JObj ms" using assms by (cases v) simp_all
  define ns where "ns = obj_set ''signed_at'' (JStr now) (obj_set ''signature'' (JStr []) ms)"
  have strip: "stripSignatureFields (JObj (obj_set ''signature'' x ns)) = stripSignatureFields (JObj ns)" for x
    by (simp add: stripSignatureFields_def strip_obj_set)
  have "signEnvelope e now v key = JObj (obj_set ''signature'' (JStr (envelope_signature e key (JObj ns))) ns)"
    by (simp add: signEnvelope_def v ns_def)
  moreover have "envelope_signature e key (JObj (obj_set ''signature'' x ns)) = envelope_signature e key (JObj ns)" for x
    by (simp add: envelope_signature_def strip)
  moreover have "envelope_signature e key w \<noteq> [] \<and> starts_with (envelope_signature e key w) ''hmac-sha256:''" for w
    unfolding envelope_signature_def by (simp only: starts_with_append) simp
  ultimately show ?thesis by (simp add: verifyEnvelope_def)
qed

lemma cycle_envelope_tip:
  "json_get (cycle_envelope e cfg c rd seals) ''relay_chain_tip''
     = Some (or_null (json_get (last (rr_events rd)) ''_relay_hash''))"
  "json_list (json_get (cycle_envelope e cfg c rd seals) ''seals'') = seals"
  by (cases "seals = []"; simp add: cycle_envelope_def signEnvelope_def unsigned_envelope_def Let_def
      add_member_def)+

lemma ingest_accepts:
  assumes "sv_sign se = sn_sign e" "tc_api_key cfg = key" "starts_with key ''pw_''"
    and "getMachineByApiKeyHash db (hashApiKey (sn_sign e) key) = Some m" "mr_status m = ''active''"
    and batch: "sendable_batch rd seals" and events: "list_all storable_event (rr_events rd)"
  shows "\<exists>db' n. ingest se (Some (''Bearer '' @ key)) (Some (cycle_envelope e cfg c rd seals)) db
    = (db', (200, JObj [(''ok'', JBool True), (''accepted'', JNum (int n)),
        (''duplicates'', JNum (int (length (rr_events rd) - n))),
        (''chain_tip'', or_null (json_get (last (rr_events rd)) ''_relay_hash''))]))"
proof -
  define env where "env = cycle_envelope e cfg c rd seals"
  define h where "h = Some (''Bearer '' @ key)"
  have auth: "machineAuth se db h = Inr (m, key)"
    using assms(1-5) starts_with_append [of "''Bearer ''" key] by (simp add: machineAuth_def h_def)
  have valid: "SyncEnvelopeSchema env = Some env"
    unfolding env_def by (rule cycle_envelope_valid) (rule batch)
  have signed: "verifyEnvelope (sn_sign e) env key"
    unfolding env_def cycle_envelope_def assms(2)
    by (rule verify_signed) (simp add: unsigned_envelope_def Let_def)
  have get: "json_get env ''events'' = Some (JArr (rr_events rd))"
    "json_get env ''batch_hash'' = Some (JStr (computeBatchHash (sn_sign e) (rr_events rd)))"
    "json_get env ''relay_chain_tip'' = Some (or_null (json_get (last (rr_events rd)) ''_relay_hash''))"
    "json_list (json_get env ''seals'') = seals"
    unfolding env_def by (rule cycle_envelope_get cycle_envelope_tip)+
  have "list_all (list_all (\<lambda>c. bindable (snd c))) (map (event_insert se m) (rr_events rd))"
    using events storable_row [of _ se m] unfolding list_all_iff set_map by blast
  then obtain table n where rows:
    "insert_rows (map (event_insert se m) (rr_events rd)) (td_events db) 0 = Inr (table, n)"
    using insert_rows_total by blast
  obtain db2 where "insert_seals se m 0 seals (db\<lparr>td_events := table\<rparr>) = (db2, Inr ())"
    using insert_seals_total batch unfolding sendable_batch_def by blast
  then show ?thesis
    unfolding env_def [symmetric] h_def [symmetric]
    by (simp add: ingest_def auth valid signed get assms(1) insertEvents_def rows handled_def Let_def or_null_def)
qed

end
