(* ===== verification/TeamProperties.thy ===== *)
theory TeamProperties
  imports TeamDelivery
begin

text \<open>What the agent and the server of the team mode promise each other, and where they stall.\<close>

section \<open>A sample\<close>

text \<open>A server with one machine, and an agent whose log holds one record.\<close>

definition team_sign :: sign_env where
  "team_sign = \<lparr>sg_sha = (\<lambda>s. s), sg_hmac = (\<lambda>k s. k)\<rparr>"

definition team_parse :: "string \<Rightarrow> json option" where
  "team_parse s = Some (JObj [(''id'', JStr s)])"

definition team_machine :: machine_row where
  "team_machine = \<lparr>mr_id = ''m'', mr_team = ''t'', mr_machine_id = ''h'', mr_machine_name = ''n'',
     mr_developer_name = ''d'', mr_key_hash = hashApiKey team_sign ''pw_k'', mr_os = ''linux'',
     mr_enrolled_at = ''2026'', mr_last_seen_at = None, mr_last_sync_at = None, mr_chain_tip = JNull,
     mr_status = ''active''\<rparr>"

definition team_sample_db :: team_db where
  "team_sample_db = empty_team_db\<lparr>td_machines := [team_machine]\<rparr>"

definition team_server :: server_env where
  "team_server = \<lparr>sv_sign = team_sign, sv_now = 0, sv_now_iso = ''2026'', sv_now_sql = ''2026'',
     sv_iso_of = (\<lambda>i. ''2027''), sv_time = (\<lambda>s. None), sv_uuid = (\<lambda>n. ''u'' @ digits_of n), sv_random = ''r'',
     sv_is_email = (\<lambda>s. True), sv_issues = (\<lambda>v. [])\<rparr>"

definition team_cfg :: team_config where
  "team_cfg = \<lparr>tc_team_id = ''t'', tc_team_name = ''team'', tc_server_url = ''http://s'', tc_machine_id = ''m'',
     tc_developer_name = ''d'', tc_api_key = ''pw_k'', tc_enrolled_at = ''2026''\<rparr>"

definition team_agent :: "team_db sync_env" where
  "team_agent = \<lparr>sn_sign = team_sign, sn_parse = team_parse, sn_time = (\<lambda>s. None), sn_now = 0,
     sn_now_iso = ''2026'', sn_push = (\<lambda>url. http_ingest team_server ''pw_k''), sn_write = (\<lambda>n. True)\<rparr>"

definition team_fs :: sync_fs where
  "team_fs = \<lparr>sf_log = Some (''x'' @ [newline]), sf_seals = None, sf_cursor = None\<rparr>"

definition team_event :: json where
  "team_event = JObj [(''id'', JStr ''x'')]"

lemma team_records: "log_records team_parse (''x'' @ [newline]) = [team_event]"
  by (simp add: log_records_def List.map_filter_def line_event_def team_parse_def team_event_def trim_def
      is_space_def in_range_def)

lemma team_read: "sync_read team_agent team_fs = \<lparr>rr_events = [team_event], rr_newByteOffset = 2, rr_bytesRead = 2\<rparr>"
  by (simp add: sync_read_def team_agent_def team_fs_def readCursor_def DEFAULT_SYNC_CURSOR_def
      readNewEvents_def MAX_BATCH_BYTES_def MAX_BATCH_EVENTS_def line_event_def team_parse_def team_event_def
      trim_def is_space_def in_range_def)

lemma team_batch: "sendable_batch \<lparr>rr_events = [team_event], rr_newByteOffset = 2, rr_bytesRead = 2\<rparr> []"
  "list_all storable_event (rr_events \<lparr>rr_events = [team_event], rr_newByteOffset = 2, rr_bytesRead = 2\<rparr>)"
  by (simp_all add: sendable_batch_def storable_event_def team_event_def text_or_null_def z_nullable_def
      or_null_def get2_def)

lemma team_key:
  "sv_sign team_server = sn_sign team_agent" "tc_api_key team_cfg = ''pw_k''" "starts_with ''pw_k'' ''pw_''"
  "getMachineByApiKeyHash team_sample_db (hashApiKey (sn_sign team_agent) ''pw_k'') = Some team_machine"
  "mr_status team_machine = ''active''"
  by (simp_all add: team_server_def team_agent_def team_cfg_def starts_with_def team_sample_db_def
      getMachineByApiKeyHash_def team_machine_def)

lemma team_to_server: "to_server team_parse team_sign ''pw_k'' team_agent"
proof -
  have "sn_push team_agent url env db = http_ingest team_server ''pw_k'' env db" for url env db
    by (simp add: team_agent_def)
  moreover have "sn_parse team_agent = team_parse" "sv_sign team_server = team_sign"
    by (simp_all add: team_agent_def team_server_def)
  ultimately show ?thesis
    unfolding to_server_def using others_only_refl by blast
qed

lemma team_envelope:
  "sync_envelope team_agent team_cfg team_fs = cycle_envelope team_agent team_cfg DEFAULT_SYNC_CURSOR
     \<lparr>rr_events = [team_event], rr_newByteOffset = 2, rr_bytesRead = 2\<rparr> []"
  by (simp add: sync_envelope_def team_read Let_def)
    (simp add: readNewSeals_def team_fs_def readCursor_def)

lemma team_push:
  "\<exists>db' resp. sn_push team_agent (tc_server_url team_cfg) (sync_envelope team_agent team_cfg team_fs) team_sample_db
     = (db', Inr resp) \<and> truthy_json (json_get resp ''ok'')"
proof -
  have push: "sn_push team_agent url = http_ingest team_server ''pw_k''" for url
    by (simp add: team_agent_def)
  obtain db' n where run: "ingest team_server (Some (''Bearer '' @ ''pw_k'')) (Some (cycle_envelope team_agent team_cfg
      DEFAULT_SYNC_CURSOR \<lparr>rr_events = [team_event], rr_newByteOffset = 2, rr_bytesRead = 2\<rparr> [])) team_sample_db
    = (db', (200, JObj [(''ok'', JBool True), (''accepted'', JNum (int n)),
        (''duplicates'', JNum (int (length (rr_events
           \<lparr>rr_events = [team_event], rr_newByteOffset = 2, rr_bytesRead = 2\<rparr>) - n))),
        (''chain_tip'', or_null (json_get (last (rr_events
           \<lparr>rr_events = [team_event], rr_newByteOffset = 2, rr_bytesRead = 2\<rparr>)) ''_relay_hash''))]))"
    using ingest_accepts [OF team_key team_batch] by blast
  show ?thesis
    unfolding push team_envelope http_ingest_def run by (simp add: server_error_def)
qed

lemma team_cycle:
  "\<exists>fs' db' r. sync_cycle team_agent team_cfg (team_fs, team_sample_db) = ((fs', db'), Inr r)
     \<and> cursor_offset fs' = 2 \<and> agent_log fs' = ''x'' @ [newline] \<and> cy_eventsPushed r = 1"
proof -
  obtain db' resp where p: "sn_push team_agent (tc_server_url team_cfg)
      (sync_envelope team_agent team_cfg team_fs) team_sample_db = (db', Inr resp)"
    "truthy_json (json_get resp ''ok'')"
    using team_push by blast
  have c: "readCursor (sf_cursor team_fs) = DEFAULT_SYNC_CURSOR" by (simp add: team_fs_def readCursor_def)
  have "\<exists>fs' r. sync_cycle team_agent team_cfg (team_fs, team_sample_db) = ((fs', db'), Inr r)
    \<and> cu_offset (readCursor (sf_cursor fs')) = rr_newByteOffset (sync_read team_agent team_fs)
    \<and> cu_offset (readCursor (sf_cursor team_fs)) < rr_newByteOffset (sync_read team_agent team_fs)
    \<and> sf_log fs' = sf_log team_fs
    \<and> cy_eventsPushed r = length (rr_events (sync_read team_agent team_fs))"
  proof (rule batch_moves_cursor [OF _ p])
    show "\<not> backing_off team_agent (readCursor (sf_cursor team_fs))"
      by (simp add: c backing_off_def DEFAULT_SYNC_CURSOR_def)
    show "sn_write team_agent 0" by (simp add: team_agent_def)
    show log: "sf_log team_fs = Some (''x'' @ [newline])" by (simp add: team_fs_def)
    show "log_records (sn_parse team_agent) (take MAX_BATCH_BYTES
        (drop (cu_offset (readCursor (sf_cursor team_fs))) (''x'' @ [newline]))) \<noteq> []"
      using sync_read_some(1) [OF log, of team_agent] by (simp add: team_read)
    show "text_or_null (or_null (json_get (last (rr_events (sync_read team_agent team_fs))) ''event_hash''))"
      by (simp add: team_read team_event_def or_null_def text_or_null_def z_nullable_def)
    show "let seals = readNewSeals (sn_parse team_agent) (sf_seals team_fs)
        (cu_seal (readCursor (sf_cursor team_fs))) in
      seals = [] \<or> (\<exists>x. json_get (last seals) ''sealed_at'' = Some (JStr x))"
      by (simp add: team_fs_def readNewSeals_def)
  qed
  moreover have "sf_log team_fs = Some (''x'' @ [newline])" by (simp add: team_fs_def)
  ultimately show ?thesis by (auto simp: team_read cursor_offset_def agent_log_def)
qed

section \<open>What the server writes\<close>

text \<open>
  C24: the server's table of events only grows, and it grows only by a request whose key belongs to an
  active machine, whose envelope is signed with this key and whose batch hash is right: the new rows
  are events of this envelope, stored under this machine and its team, under names the machine had
  not used.
\<close>

theorem ingest_only_verified:
  assumes "ingest e h body db = (db', r)" and "td_events db' \<noteq> td_events db"
  shows "\<exists>m key envelope new. ingest_checked e h body db m key envelope
    \<and> td_events db' = td_events db @ new
    \<and> (\<forall>row \<in> set new. \<exists>evt \<in> set (json_list (json_get envelope ''events'')).
         row = event_insert e m evt \<and> event_key row \<notin> event_key ` set (td_events db)
         \<and> map_of row ''machine_id'' = Some (JStr (mr_id m)) \<and> map_of row ''team_id'' = Some (JStr (mr_team m)))"
  using assms(1)
proof (cases rule: ingest_cases)
  case refused
  then show ?thesis using assms(2) by simp
next
  case (stored m key envelope new accepted)
  have "set new \<subseteq> set (map (event_insert e m) (json_list (json_get envelope ''events'')))"
    using insert_rows_spec [OF stored(2)] by auto
  moreover have "\<forall>row \<in> set new. event_key row \<notin> event_key ` set (td_events db)"
    using insert_rows_fresh [OF stored(2)] by auto
  ultimately show ?thesis
    using stored(1,3) by (intro exI [of _ m] exI [of _ key] exI [of _ envelope] exI [of _ new])
      (auto simp: event_insert_columns)
qed

lemma ingest_only_verified_witness:
  "\<exists>db' r. ingest team_server (Some ''Bearer pw_k'') (Some (sync_envelope team_agent team_cfg team_fs)) team_sample_db
     = (db', r) \<and> td_events db' \<noteq> td_events team_sample_db
     \<and> (\<exists>m key envelope new. ingest_checked team_server (Some ''Bearer pw_k'')
          (Some (sync_envelope team_agent team_cfg team_fs)) team_sample_db m key envelope
        \<and> td_events db' = td_events team_sample_db @ new)"
proof -
  obtain db' r where run: "ingest team_server (Some (''Bearer '' @ ''pw_k''))
      (Some (sync_envelope team_agent team_cfg team_fs)) team_sample_db = (db', r)"
    by (metis surj_pair)
  have "has_event team_sign ''pw_k'' db' team_event"
  proof -
    obtain db2 resp where p: "sn_push team_agent (tc_server_url team_cfg)
        (sync_envelope team_agent team_cfg team_fs) team_sample_db = (db2, Inr resp)"
      "truthy_json (json_get resp ''ok'')"
      using team_push by blast
    have "has_event team_sign ''pw_k'' db2 team_event"
      using server_channel.ack_stores [OF team_to_server p(1) [unfolded team_envelope] p(2), of team_event] by simp
    moreover have "db2 = db'"
      using p(1) run by (simp add: team_agent_def http_ingest_def)
    ultimately show ?thesis by simp
  qed
  then have "td_events db' \<noteq> []"
    by (auto simp: has_event_def team_event_def key_rows_def split: option.splits)
  then have changed: "td_events db' \<noteq> td_events team_sample_db"
    by (simp add: team_sample_db_def empty_team_db_def)
  show ?thesis
    using run changed ingest_only_verified [OF run changed] by auto
qed

section \<open>Signed envelopes\<close>

text \<open>
  C25: the envelope a cycle sends is accepted: a server with the same digests that knows the machine by
  its key as active takes the signature and the batch hash, and answers with the number of events
  stored and of those it had.
\<close>

theorem agent_batch_accepted:
  assumes "sv_sign se = sn_sign e" and "tc_api_key cfg = key" and "starts_with key ''pw_''"
    and "getMachineByApiKeyHash db (hashApiKey (sn_sign e) key) = Some m" and "mr_status m = ''active''"
    and "sendable_batch rd seals" and "list_all storable_event (rr_events rd)"
  shows "\<exists>db' n. http_ingest se key (cycle_envelope e cfg c rd seals) db
    = (db', Inr (JObj [(''ok'', JBool True), (''accepted'', JNum (int n)),
        (''duplicates'', JNum (int (length (rr_events rd) - n))),
        (''chain_tip'', or_null (json_get (last (rr_events rd)) ''_relay_hash''))]))"
proof -
  obtain db' n where "ingest se (Some (''Bearer '' @ key)) (Some (cycle_envelope e cfg c rd seals)) db
    = (db', (200, JObj [(''ok'', JBool True), (''accepted'', JNum (int n)),
        (''duplicates'', JNum (int (length (rr_events rd) - n))),
        (''chain_tip'', or_null (json_get (last (rr_events rd)) ''_relay_hash''))]))"
    using ingest_accepts [OF assms] by blast
  then show ?thesis unfolding http_ingest_def by (auto simp: server_error_def)
qed

lemma agent_batch_accepted_witness:
  "\<exists>db' n. http_ingest team_server ''pw_k'' (cycle_envelope team_agent team_cfg DEFAULT_SYNC_CURSOR
      \<lparr>rr_events = [team_event], rr_newByteOffset = 2, rr_bytesRead = 2\<rparr> []) team_sample_db
    = (db', Inr (JObj [(''ok'', JBool True), (''accepted'', JNum (int n)),
        (''duplicates'', JNum (int (1 - n))), (''chain_tip'', JNull)]))"
  using agent_batch_accepted [OF team_key team_batch, of DEFAULT_SYNC_CURSOR]
  by (simp add: team_event_def or_null_def)

section \<open>Delivery\<close>

text \<open>
  C23: what was synchronised is stored: after any steps of a machine that starts with no cursor and no
  row at the server, however its log grows, its cursor is lost, its pushes fail, go unanswered after
  they were handled or are refused, and whatever other machines send in between, every record of the
  log before the cursor has its row at the server, under this machine and its team and with all the
  columns the server derives from this very record. The records of the log carry an \<open>id\<close>, and no two
  different records the same one.
\<close>

theorem synced_events_stored:
  assumes "(sync_step (to_server parse sg key) cfg)\<^sup>*\<^sup>* (fs, db) (fs', db')"
    and "sf_cursor fs = None" and "key_rows sg key db = {}"
    and "\<forall>w \<in> set (log_records parse (agent_log fs')). truthy_json (json_get w ''id'')"
    and "inj_on (\<lambda>w. json_get w ''id'') (set (log_records parse (agent_log fs')))"
    and "v \<in> set (log_records parse (take (cursor_offset fs') (agent_log fs')))"
  shows "\<exists>m se. getMachineByApiKeyHash db' (hashApiKey sg key) = Some m
    \<and> event_insert se m v \<in> set (td_events db')"
proof -
  have "has_event sg key db' v"
    using server_channel.synced_reachable [OF assms(1,2)] assms(6)
    by (simp add: server_channel.synced_def sent_records_def)
  moreover have "v \<in> set (log_records parse (agent_log fs'))"
    using assms(6) log_records_mono by (metis append_take_drop_id subsetD)
  ultimately show ?thesis
    using stored_as_itself own_rows_reachable [OF assms(1-3)] assms(4,5)
    unfolding key_machine_def by simp
qed

lemma synced_events_stored_witness:
  "\<exists>fs' db' m se. sync_cycle team_agent team_cfg (team_fs, team_sample_db) = ((fs', db'), snd (sync_cycle team_agent
      team_cfg (team_fs, team_sample_db))) \<and> cursor_offset fs' = 2
      \<and> getMachineByApiKeyHash db' (hashApiKey team_sign ''pw_k'') = Some m
      \<and> event_insert se m team_event \<in> set (td_events db')"
proof -
  obtain fs' db' r where run: "sync_cycle team_agent team_cfg (team_fs, team_sample_db) = ((fs', db'), Inr r)"
    "cursor_offset fs' = 2" "agent_log fs' = ''x'' @ [newline]"
    using team_cycle by blast
  have steps: "(sync_step (to_server team_parse team_sign ''pw_k'') team_cfg)\<^sup>*\<^sup>*
      (team_fs, team_sample_db) (fs', db')"
    using sync_step.cycle [where P = "to_server team_parse team_sign ''pw_k''", OF team_to_server run(1)]
    by (rule r_into_rtranclp)
  have records: "log_records team_parse (agent_log fs') = [team_event]"
    by (simp add: run(3) team_records del: append_Cons)
  then have sent: "team_event \<in> set (log_records team_parse (take (cursor_offset fs') (agent_log fs')))"
    by (simp add: run(2,3))
  have start: "sf_cursor team_fs = None" "key_rows team_sign ''pw_k'' team_sample_db = {}"
    by (simp add: team_fs_def)
      (simp add: key_rows_def team_sample_db_def empty_team_db_def split: option.split)
  have names: "\<forall>w \<in> set (log_records team_parse (agent_log fs')). truthy_json (json_get w ''id'')"
    "inj_on (\<lambda>w. json_get w ''id'') (set (log_records team_parse (agent_log fs')))"
    unfolding records by (simp_all add: team_event_def)
  show ?thesis using synced_events_stored [OF steps start names sent] run by auto
qed

section \<open>Enrolment\<close>

text \<open>The requests of a server: any of the three routes that write, at any time.\<close>

inductive server_step :: "sign_env \<Rightarrow> team_db \<Rightarrow> team_db \<Rightarrow> bool" for sg where
  ingest: "sv_sign e = sg \<Longrightarrow> ingest e h body db = (db', r) \<Longrightarrow> server_step sg db db'"
| enroll: "sv_sign e = sg \<Longrightarrow> sv_now_sql e \<noteq> [] \<Longrightarrow> enroll e body db = (db', r) \<Longrightarrow> server_step sg db db'"
| bootstrap: "sv_sign e = sg \<Longrightarrow> bootstrap e body db = (db', r) \<Longrightarrow> server_step sg db db'"

text \<open>A token that was used, found by its hash.\<close>

definition used_token :: "string \<Rightarrow> team_db \<Rightarrow> bool" where
  "used_token h db \<longleftrightarrow> (\<exists>t. getEnrollmentTokenByHash db h = Some t \<and> truthy (tk_used_at t))"

lemma used_token_cong: "td_tokens db' = td_tokens db \<Longrightarrow> used_token h db' = used_token h db"
  by (simp add: used_token_def getEnrollmentTokenByHash_def)

lemma find_append_Some: "find P xs = Some x \<Longrightarrow> find P (xs @ ys) = Some x"
  by (induction xs) (auto split: if_splits)

lemma markTokenUsed_hash:
  "getEnrollmentTokenByHash (markTokenUsed now i m db) h
    = map_option (\<lambda>t. if tk_id t = i then t\<lparr>tk_used_at := Some now, tk_used_by := Some m\<rparr> else t)
        (getEnrollmentTokenByHash db h)"
  by (simp add: getEnrollmentTokenByHash_def markTokenUsed_def find_map_same)

lemma used_token_mark:
  assumes "now \<noteq> []" "used_token h db"
  shows "used_token h (markTokenUsed now i m db)"
proof -
  obtain t where t: "getEnrollmentTokenByHash db h = Some t" "truthy (tk_used_at t)"
    using assms(2) by (auto simp: used_token_def)
  then show ?thesis
    using assms(1) unfolding used_token_def markTokenUsed_hash t(1) option.map(2)
    by (simp add: truthy_def)
qed

lemma insertMachine_tokens: "insertMachine i now t mid mn dn kh os db = Inr db' \<Longrightarrow> td_tokens db' = td_tokens db"
  by (auto simp: insertMachine_def split: if_splits)

text \<open>An enrolment ends without a change, or with its token marked.\<close>

definition token_hash :: "server_env \<Rightarrow> json \<Rightarrow> string" where
  "token_hash e body = hashApiKey (sv_sign e) (str_of (json_get body ''enrollment_token''))"

lemma enroll_request_token:
  assumes "EnrollRequestSchema is_email v = Some d"
  shows "json_get d ''enrollment_token'' = json_get v ''enrollment_token''"
proof -
  have "z_field (Required z_string) (json_get v ''enrollment_token'') = Some (json_get d ''enrollment_token'')"
    using assms unfolding EnrollRequestSchema_def by (rule schema_get) simp_all
  then show ?thesis
    by (cases "json_get v ''enrollment_token''") (auto elim!: z_string.elims)
qed

lemma enroll_cases:
  assumes "enroll e body db = (db', r)"
  obtains (refused) "db' = db" "fst r \<noteq> 200"
  | (enrolled) v t i db1 where "body = Some v" "getEnrollmentTokenByHash db (token_hash e v) = Some t"
      "\<not> truthy (tk_used_at t)" "td_tokens db1 = td_tokens db" "td_machines db1 \<noteq> td_machines db"
      "db' = markTokenUsed (sv_now_sql e) (tk_id t) i db1" "fst r = 200"
proof -
  have no: "fst (refuse code msg) = code" for code msg by (simp add: refuse_def)
  show thesis
  proof (cases "\<exists>v d t. body = Some v \<and> EnrollRequestSchema (sv_is_email e) v = Some d
      \<and> getEnrollmentTokenByHash db (token_hash e v) = Some t \<and> \<not> truthy (tk_used_at t) \<and> \<not> expired e t
      \<and> getMachineByMachineId db (tk_team t) (str_of (json_get d ''machine_id'')) = None")
    case False
    then have "db' = db \<and> fst r \<noteq> 200"
      using assms by (auto simp: enroll_def Let_def no token_hash_def enroll_request_token
          split: option.splits if_splits)
    then show thesis using refused by blast
  next
    case True
    then obtain v d t where t: "body = Some v" "EnrollRequestSchema (sv_is_email e) v = Some d"
      "getEnrollmentTokenByHash db (token_hash e v) = Some t" "\<not> truthy (tk_used_at t)" "\<not> expired e t"
      "getMachineByMachineId db (tk_team t) (str_of (json_get d ''machine_id'')) = None"
      by blast
    define ins where "ins = insertMachine (sv_uuid e 0) (sv_now_sql e) (tk_team t)
      (str_of (json_get d ''machine_id'')) (str_of (json_get d ''machine_name''))
      (str_of (json_get d ''developer_name'')) (hashApiKey (sv_sign e) (generateApiKey (sv_random e)))
      (str_of (json_get d ''os'')) db"
    have run: "(db', r) = handled db ins (\<lambda>db1. (markTokenUsed (sv_now_sql e) (tk_id t) (sv_uuid e 0) db1,
        (200, JObj [(''ok'', JBool True), (''api_key'', JStr (generateApiKey (sv_random e))),
          (''machine_id'', JStr (sv_uuid e 0)), (''team_id'', JStr (tk_team t)),
          (''team_name'', JStr (case getTeam db1 (tk_team t) of Some tm \<Rightarrow> tm_name tm | None \<Rightarrow> []))])))"
      using assms t by (simp add: enroll_def Let_def ins_def token_hash_def enroll_request_token [OF t(2)])
    show thesis
    proof (cases ins)
      case (Inl x)
      then show thesis using run by (intro refused) (simp_all add: handled_def server_error_def)
    next
      case (Inr db1)
      then have "td_tokens db1 = td_tokens db" "td_machines db1 \<noteq> td_machines db"
        by (auto simp: ins_def insertMachine_def split: if_splits)
      then show thesis using run t Inr by (intro enrolled [of v t db1 "sv_uuid e 0"]) (simp_all add: handled_def)
    qed
  qed
qed

lemma ingest_tokens:
  assumes "ingest e h body db = (db', r)"
  shows "td_tokens db' = td_tokens db"
proof -
  have "td_tokens db2 = td_tokens db"
    if "insertEvents rows db = Inr (db1, n, d)" "insert_seals e m k seals db1 = (db2, y)" for rows db1 n d m k seals db2 y
    using that insert_seals_keeps [OF that(2)] by (auto simp: insertEvents_def result_simps)
  then show ?thesis
    using assms
    by (auto simp: ingest_def handled_def Let_def updateMachineSync_def
        split: sum.splits option.splits if_splits prod.splits)
qed

lemma bootstrap_tokens:
  assumes "bootstrap e body db = (db', r)"
  shows "\<exists>new. td_tokens db' = td_tokens db @ new"
  using assms
  by (auto simp: bootstrap_def handled_def Let_def insertTeam_def insertTeamMember_def
      insertEnrollmentToken_def split: option.splits if_splits sum.splits)

lemma used_token_step: "server_step sg db db' \<Longrightarrow> used_token h db \<Longrightarrow> used_token h db'"
proof (induction rule: server_step.induct)
  case (ingest e hd body db db' r)
  then show ?case using ingest_tokens used_token_cong by blast
next
  case (enroll e body db db' r)
  from enroll(3) show ?case
  proof (cases rule: enroll_cases)
    case refused
    then show ?thesis using enroll by simp
  next
    case (enrolled v t i db1)
    then show ?thesis using enroll used_token_mark used_token_cong [of db1 db h] by blast
  qed
next
  case (bootstrap e body db db' r)
  then obtain new where "td_tokens db' = td_tokens db @ new" using bootstrap_tokens by blast
  then show ?case
    using bootstrap.prems find_append_Some by (fastforce simp: used_token_def getEnrollmentTokenByHash_def)
qed

lemma used_token_steps: "(server_step sg)\<^sup>*\<^sup>* db db' \<Longrightarrow> used_token h db \<Longrightarrow> used_token h db'"
  by (induction rule: rtranclp_induct) (auto intro: used_token_step)

lemma used_token_after_enroll:
  assumes "enroll e (Some v) db = (db', r)" "fst r = 200" "sv_now_sql e \<noteq> []"
  shows "used_token (token_hash e v) db'"
  using assms(1)
proof (cases rule: enroll_cases)
  case refused
  then show ?thesis using assms(2) by simp
next
  case (enrolled w t i db1)
  then have "getEnrollmentTokenByHash db1 (token_hash e v) = Some t"
    by (simp add: getEnrollmentTokenByHash_def)
  then show ?thesis
    using assms(3) enrolled by (simp add: used_token_def markTokenUsed_hash truthy_def)
qed

text \<open>
  C26: an enrolment token enrols one machine: after the request that used it, whatever the server answers
  in between, no further request with the same token is accepted or changes anything.
\<close>

theorem token_enrols_once:
  assumes "enroll e (Some v) db = (db1, r)" and "fst r = 200" and "sv_now_sql e \<noteq> []"
    and "(server_step (sv_sign e))\<^sup>*\<^sup>* db1 db2" and "sv_sign e2 = sv_sign e"
    and "json_get w ''enrollment_token'' = json_get v ''enrollment_token''"
    and "enroll e2 (Some w) db2 = (db3, r3)"
  shows "db3 = db2 \<and> fst r3 \<noteq> 200"
proof -
  have used: "used_token (token_hash e2 w) db2"
    using used_token_steps [OF assms(4) used_token_after_enroll [OF assms(1-3)]] assms(5,6)
    by (simp add: token_hash_def)
  from assms(7) show ?thesis
  proof (cases rule: enroll_cases)
    case refused
    then show ?thesis by simp
  next
    case (enrolled w' t i db1')
    then show ?thesis using used by (simp add: used_token_def)
  qed
qed

lemma token_enrols_once_witness:
  "\<exists>v db db1. fst (snd (enroll team_server (Some v) db)) = 200 \<and> fst (enroll team_server (Some v) db) = db1
     \<and> fst (enroll team_server (Some v) db1) = db1 \<and> fst (snd (enroll team_server (Some v) db1)) \<noteq> 200"
proof -
  define v where "v = JObj [(''enrollment_token'', JStr ''k''), (''machine_id'', JStr ''h''),
    (''machine_name'', JStr ''n''), (''developer_name'', JStr ''d''), (''os'', JStr ''linux'')]"
  define db where "db = empty_team_db\<lparr>td_tokens := [\<lparr>tk_id = ''i'', tk_team = ''t'',
    tk_hash = hashApiKey team_sign ''k'', tk_expires_at = ''2027'', tk_used_at = None, tk_used_by = None\<rparr>]\<rparr>"
  obtain db1 r where run: "enroll team_server (Some v) db = (db1, r)" by (metis surj_pair)
  have ok: "fst r = 200"
    using run by (simp add: enroll_def v_def db_def EnrollRequestSchema_def add_member_def Let_def
        getEnrollmentTokenByHash_def team_server_def truthy_def expired_def getMachineByMachineId_def
        empty_team_db_def handled_def insertMachine_def) auto
  obtain db3 r3 where again: "enroll team_server (Some v) db1 = (db3, r3)" by (metis surj_pair)
  have "sv_now_sql team_server \<noteq> []" by (simp add: team_server_def)
  from token_enrols_once [OF run ok this rtranclp.rtrancl_refl refl refl again] run ok again
  show ?thesis by (intro exI [of _ v] exI [of _ db] exI [of _ db1]) simp
qed

section \<open>Where they stall or lose\<close>

text \<open>
  While the relay writes nothing but heartbeats the cursor stays; once they fill the window that is
  read at a time, no cycle sends anything again, whatever events follow.
\<close>

lemma idle_window_never_left:
  assumes "sf_log fs = Some (a @ w @ later)" and "cursor_offset fs = length a"
    and "length w = MAX_BATCH_BYTES" and "log_records (sn_parse e) w = []"
  shows "fst (sync_cycle e cfg (fs, srv)) = (fs, srv)"
  using assms(1)
  by (rule empty_window_stalls)
    (use assms(2,4) in \<open>simp add: cursor_offset_def assms(3) [symmetric]\<close>)

text \<open>A seal without its time leaves a cursor that is not read back: the next cycle starts at zero.\<close>

lemma seal_without_time_resets:
  assumes "seals \<noteq> []" and "last seals \<noteq> JNull" and "json_get (last seals) ''sealed_at'' = None"
  shows "\<exists>c'. advanced_cursor e c rd seals = Inr c' \<and> readCursor (Some (cursor_json c')) = DEFAULT_SYNC_CURSOR"
  using assms cursor_without_seal by (simp add: advanced_cursor_def)

text \<open>Two events without a name in one batch: the second counts as a duplicate and is lost.\<close>

lemma nameless_event_lost:
  assumes "json_get v ''id'' = None" and "json_get w ''id'' = None"
    and "storable_event v" and "storable_event w"
  shows "insert_rows [event_insert e m v, event_insert e m w] [] 0 = Inr ([event_insert e m v], 1)"
  using assms storable_row by (simp add: event_insert_key json_or_def)

text \<open>An event under a name that was used, whatever it says: acknowledged as a duplicate, not stored.\<close>

lemma reused_name_dropped:
  assumes "json_get w ''id'' = json_get v ''id''" and "truthy_json (json_get v ''id'')"
    and "storable_event w" and "event_insert e0 m v \<in> set table"
  shows "insert_rows [event_insert e m w] table n = Inr (table, n)"
proof -
  have "event_key (event_insert e m w) = event_key (event_insert e0 m v)"
    using assms(1,2) by (simp add: event_insert_key json_or_def)
  then show ?thesis using assms(3,4) storable_row by auto
qed

end
