(* ===== verification/ComplianceData.thy ===== *)
theory ComplianceData
  imports JsonlStore PolicyLoader
begin

text \<open>
  What a compliance report is computed from, \<^verbatim>\<open>compliance/types.ts\<close>, the categories of
  \<^verbatim>\<open>commands/report.ts\<close> and the counts of \<^verbatim>\<open>commands/stats.ts\<close> of the command line package. Events
  are JSON values that have passed the schema; what \<open>Date\<close>, \<open>URL\<close> and \<open>localeCompare\<close> answer, the
  store, the clock and the files are fields of \<open>report_env\<close>. Times are milliseconds, none where
  the code has NaN. The most changed files and the most used commands, which only the page shows,
  are left out.
\<close>

section \<open>Members of an event\<close>

definition field_str :: "json \<Rightarrow> string \<Rightarrow> string" where
  "field_str e k = (case string_member e k of None \<Rightarrow> [] | Some s \<Rightarrow> s)"

definition risk_level_of :: "json \<Rightarrow> string" where
  "risk_level_of e = (case member_of e ''risk'' ''level'' of None \<Rightarrow> [] | Some s \<Rightarrow> s)"

definition is_high_risk :: "json \<Rightarrow> bool" where
  "is_high_risk e \<longleftrightarrow> risk_level_of e = ''critical'' \<or> risk_level_of e = ''high''"

definition is_denied :: "json \<Rightarrow> bool" where
  "is_denied e \<longleftrightarrow> field_str e ''status'' = ''denied''"

definition action_in :: "string list \<Rightarrow> json \<Rightarrow> bool" where
  "action_in names e \<longleftrightarrow> field_str e ''action'' \<in> set names"

definition has_target :: "string \<Rightarrow> json \<Rightarrow> bool" where
  "has_target k e \<longleftrightarrow> truthy (member_of e ''target'' k)"

text \<open>The path of the target holds one of the patterns, upper and lower case alike.\<close>

definition path_matches :: "string list \<Rightarrow> json \<Rightarrow> bool" where
  "path_matches patterns e \<longleftrightarrow>
    (case str_or (member_of e ''target'' ''path'') None of
       None \<Rightarrow> False
     | Some p \<Rightarrow> list_ex (includes_str (to_lower p)) patterns)"

definition file_writes :: "string list" where
  "file_writes = [''file_write'', ''file_edit'', ''file_create'']"

section \<open>Counts\<close>

record report_stats =
  st_totalEvents :: nat
  st_byAction :: "(string \<times> nat) list"
  st_byAgent :: "(string \<times> nat) list"
  st_byRisk :: "(string \<times> nat) list"
  st_byDay :: "(string \<times> nat) list"

definition bump :: "string \<Rightarrow> (string \<times> nat) list \<Rightarrow> (string \<times> nat) list" where
  "bump k counts = obj_set k (case map_of counts k of None \<Rightarrow> 1 | Some n \<Rightarrow> n + 1) counts"

definition tally :: "(json \<Rightarrow> string) \<Rightarrow> json list \<Rightarrow> (string \<times> nat) list" where
  "tally key events = fold (\<lambda>e. bump (key e)) events []"

definition computeStats :: "json list \<Rightarrow> report_stats" where
  "computeStats events =
    \<lparr>st_totalEvents = length events,
     st_byAction = tally (\<lambda>e. field_str e ''action'') events,
     st_byAgent = tally (\<lambda>e. field_str e ''agent'') events,
     st_byRisk = tally risk_level_of events,
     st_byDay = tally (\<lambda>e. take 10 (field_str e ''timestamp'')) events\<rparr>"

section \<open>The environment\<close>

record report_env =
  re_time :: "string \<Rightarrow> int option"
  re_iso :: "int \<Rightarrow> string"
  re_hostname :: "string \<Rightarrow> string option"
  re_compare :: "string \<Rightarrow> string \<Rightarrow> int"
  re_hash :: hash_env
  re_loader :: loader_env
  re_readAll :: "json list"
  re_query :: "event_filter \<Rightarrow> json list"
  re_now_iso :: string
  re_data_dir :: string
  re_exists :: "string \<Rightarrow> bool"
  re_mkdir :: "string \<Rightarrow> unit result"
  re_write :: "string \<Rightarrow> string option"

section \<open>Sessions\<close>

record session_summary =
  ss_id :: string
  ss_agent :: string
  ss_project :: string
  ss_started :: string
  ss_ended :: string
  ss_durationMs :: "int option"
  ss_count :: nat
  ss_writes :: nat
  ss_commands :: nat
  ss_highRisk :: nat
  ss_denials :: nat

definition add_to_session :: "json \<Rightarrow> (string \<times> json list) list \<Rightarrow> (string \<times> json list) list" where
  "add_to_session e m =
    (let sid = field_str e ''session_id''
     in obj_set sid ((case map_of m sid of None \<Rightarrow> [] | Some es \<Rightarrow> es) @ [e]) m)"

definition session_groups :: "json list \<Rightarrow> (string \<times> json list) list" where
  "session_groups events = fold add_to_session events []"

definition or_unknown :: "string option \<Rightarrow> string" where
  "or_unknown v = (case str_or v None of None \<Rightarrow> ''unknown'' | Some s \<Rightarrow> s)"

definition session_row :: "report_env \<Rightarrow> string \<times> json list \<Rightarrow> session_summary" where
  "session_row en g =
    (let evts = snd g; e0 = hd evts; en1 = last evts;
         t0 = re_time en (field_str e0 ''timestamp''); t1 = re_time en (field_str en1 ''timestamp'')
     in \<lparr>ss_id = fst g,
         ss_agent = or_unknown (string_member e0 ''agent''),
         ss_project = or_unknown (member_of e0 ''project'' ''name''),
         ss_started = field_str e0 ''timestamp'',
         ss_ended = field_str en1 ''timestamp'',
         ss_durationMs =
           (case t1 of None \<Rightarrow> None | Some b \<Rightarrow> (case t0 of None \<Rightarrow> None | Some a \<Rightarrow> Some (b - a))),
         ss_count = length evts,
         ss_writes = length (filter (action_in file_writes) evts),
         ss_commands = length (filter (action_in [''command_execute'']) evts),
         ss_highRisk = length (filter is_high_risk evts),
         ss_denials = length (filter is_denied evts)\<rparr>)"

text \<open>A stable sort by a comparison.\<close>

fun insert_sorted_by :: "('a \<Rightarrow> 'a \<Rightarrow> int) \<Rightarrow> 'a \<Rightarrow> 'a list \<Rightarrow> 'a list" where
  "insert_sorted_by cmp x [] = [x]"
| "insert_sorted_by cmp x (y # ys) =
     (if cmp x y \<le> 0 then x # y # ys else y # insert_sorted_by cmp x ys)"

definition stable_sort :: "('a \<Rightarrow> 'a \<Rightarrow> int) \<Rightarrow> 'a list \<Rightarrow> 'a list" where
  "stable_sort cmp xs = foldr (insert_sorted_by cmp) xs []"

definition report_sessions :: "report_env \<Rightarrow> json list \<Rightarrow> session_summary list" where
  "report_sessions en events =
    stable_sort (\<lambda>a b. re_compare en (ss_started b) (ss_started a))
      (map (session_row en) (session_groups events))"

section \<open>The data of a report\<close>

record report_integrity =
  ri_chainValid :: bool
  ri_chainedEvents :: nat
  ri_legacyEvents :: nat
  ri_invalidEvents :: nat
  ri_sealed :: bool
  ri_attested :: bool

record report_data =
  rd_events :: "json list"
  rd_periodStart :: "int option"
  rd_periodEnd :: "int option"
  rd_stats :: report_stats
  rd_sessions :: "session_summary list"
  rd_integrity :: report_integrity
  rd_policy :: "policy option"
  rd_policySource :: string
  rd_denials :: "json list"
  rd_highRiskEvents :: "json list"
  rd_sensitiveFileEvents :: "json list"
  rd_commandEvents :: "json list"
  rd_fileEvents :: "json list"
  rd_networkEvents :: "json list"
  rd_mcpEvents :: "json list"

text \<open>The patterns of \<^verbatim>\<open>commands/report.ts\<close>, and those of \<^verbatim>\<open>compliance/frameworks.ts\<close> for the windows.\<close>

definition report_SENSITIVE_PATTERNS :: "string list" where
  "report_SENSITIVE_PATTERNS =
    [''.env'', ''.key'', ''.pem'', ''id_rsa'', ''.aws/'', ''.ssh/'', ''secret'', ''password'', ''token'',
     ''credential'']"

definition window_SENSITIVE_PATTERNS :: "string list" where
  "window_SENSITIVE_PATTERNS =
    [''.env'', ''.key'', ''.pem'', ''id_rsa'', ''.aws/credentials'', ''.ssh/'', ''secret'', ''password'',
     ''token'']"

definition is_file_action :: "json \<Rightarrow> bool" where
  "is_file_action e \<longleftrightarrow> starts_with (field_str e ''action'') ''file_''"

text \<open>The events by category; the patterns are the caller's.\<close>

definition categorize :: "string list \<Rightarrow> json list \<Rightarrow> report_data \<Rightarrow> report_data" where
  "categorize patterns events d =
    d\<lparr>rd_events := events,
      rd_denials := filter is_denied events,
      rd_highRiskEvents := filter is_high_risk events,
      rd_sensitiveFileEvents := filter (path_matches patterns) events,
      rd_commandEvents := filter (action_in [''command_execute'']) events,
      rd_fileEvents := filter is_file_action events,
      rd_networkEvents := filter (action_in [''web_fetch'', ''web_search'']) events,
      rd_mcpEvents := filter (action_in [''mcp_tool_call'']) events\<rparr>"

text \<open>The least and the greatest time, none while there is no number.\<close>

definition closer :: "(int \<Rightarrow> int \<Rightarrow> bool) \<Rightarrow> int option \<Rightarrow> int option \<Rightarrow> int option" where
  "closer lt t m =
    (case t of
       None \<Rightarrow> m
     | Some x \<Rightarrow> (case m of None \<Rightarrow> Some x | Some y \<Rightarrow> if lt x y then Some x else Some y))"

definition event_time :: "report_env \<Rightarrow> json \<Rightarrow> int option" where
  "event_time en e = re_time en (field_str e ''timestamp'')"

definition period_start :: "report_env \<Rightarrow> json list \<Rightarrow> int option" where
  "period_start en events = fold (\<lambda>e. closer (<) (event_time en e)) events None"

definition period_end :: "report_env \<Rightarrow> json list \<Rightarrow> int option" where
  "period_end en events = fold (\<lambda>e. closer (>) (event_time en e)) events None"

definition SEALS_PATH :: "report_env \<Rightarrow> string" where
  "SEALS_PATH en = path_join [re_data_dir en, ''seals.jsonl'']"

definition ATTESTATION_PATH :: "report_env \<Rightarrow> string" where
  "ATTESTATION_PATH en = path_join [re_data_dir en, ''attestations'', ''latest.json'']"

definition lenient :: verify_options where
  "lenient = \<lparr>vo_strict = False, vo_requireChainProtected = False\<rparr>"

definition report_policy :: "report_env \<Rightarrow> policy option \<times> string" where
  "report_policy en =
    (case loadActivePolicy (re_loader en) None of
       Inl err \<Rightarrow> (None, ''none'') | Inr r \<Rightarrow> (Some (fst r), snd r))"

definition report_data_of :: "report_env \<Rightarrow> json list \<Rightarrow> report_data" where
  "report_data_of en events =
    (let c = verifyChain (re_hash en) lenient events; p = report_policy en
     in categorize report_SENSITIVE_PATTERNS events
          \<lparr>rd_events = [], rd_periodStart = period_start en events,
           rd_periodEnd = period_end en events, rd_stats = computeStats events,
           rd_sessions = report_sessions en events,
           rd_integrity =
             \<lparr>ri_chainValid = cv_valid c, ri_chainedEvents = cv_chained_events c,
              ri_legacyEvents = cv_legacy_events c, ri_invalidEvents = cv_invalid_schema_events c,
              ri_sealed = re_exists en (SEALS_PATH en),
              ri_attested = re_exists en (ATTESTATION_PATH en)\<rparr>,
           rd_policy = fst p, rd_policySource = snd p,
           rd_denials = [], rd_highRiskEvents = [], rd_sensitiveFileEvents = [],
           rd_commandEvents = [], rd_fileEvents = [], rd_networkEvents = [], rd_mcpEvents = []\<rparr>)"

end
