(* ===== verification/ComplianceControls.thy ===== *)
theory ComplianceControls
  imports ComplianceData
begin

text \<open>
  The controls of the compliance frameworks, \<^verbatim>\<open>packages/cli/src/compliance/frameworks.ts\<close>: one
  definition per control, its evaluation as the code has it, in the order of the registry. Strings
  are UTF-8 bytes.
\<close>

section \<open>Results and frameworks\<close>

datatype control_status = Pass | Fail | Partial | Na

record control_result =
  cr_status :: control_status
  cr_evidence :: string
  cr_eventCount :: "nat option"
  cr_linkedEvents :: "string list option"

definition finding :: "control_status \<Rightarrow> string \<Rightarrow> nat option \<Rightarrow> string list option \<Rightarrow> control_result" where
  "finding s evidence n linked =
    \<lparr>cr_status = s, cr_evidence = evidence, cr_eventCount = n, cr_linkedEvents = linked\<rparr>"

record control =
  ct_id :: string
  ct_name :: string
  ct_evaluate :: "report_data \<Rightarrow> control_result"

record framework =
  fw_id :: string
  fw_name :: string
  fw_version :: string
  fw_controls :: "control list"

definition section_sign :: string where
  "section_sign = [CHR 0xC2, CHR 0xA7]"

definition hasEvents :: "report_data \<Rightarrow> bool" where
  "hasEvents d \<longleftrightarrow> length (rd_events d) > 0"

definition hasPolicy :: "report_data \<Rightarrow> bool" where
  "hasPolicy d \<longleftrightarrow> rd_policy d \<noteq> None \<and> rd_policySource d \<noteq> ''built-in''"

text \<open>The identifiers of at most the first so many events.\<close>

definition links_of :: "nat \<Rightarrow> json list \<Rightarrow> string list option" where
  "links_of n events = Some (take n (map (\<lambda>e. field_str e ''id'') events))"

definition with_path :: "json list \<Rightarrow> nat" where
  "with_path events = length (filter (has_target ''path'') events)"

definition with_command :: "json list \<Rightarrow> nat" where
  "with_command events = length (filter (has_target ''command'') events)"

definition risk_classified :: "json \<Rightarrow> bool" where
  "risk_classified e \<longleftrightarrow> risk_level_of e \<noteq> ''none''"

abbreviation total_of :: "report_data \<Rightarrow> nat" where
  "total_of d \<equiv> st_totalEvents (rd_stats d)"

abbreviation chain_ok :: "report_data \<Rightarrow> bool" where
  "chain_ok d \<equiv> ri_chainValid (rd_integrity d)"

abbreviation chained_of :: "report_data \<Rightarrow> nat" where
  "chained_of d \<equiv> ri_chainedEvents (rd_integrity d)"

section \<open>A ratio as a percentage with one decimal\<close>

text \<open>
  \<open>((a / b) * 100).toFixed(1)\<close> on doubles: a positive rational is rounded to 53 bits, to the even
  neighbour where it lies half way, and \<open>toFixed\<close> takes the nearest tenth of the exact value, the
  greater one where two are as near. A double is \<open>(m, k)\<close> for the value \<open>m / 2 ^ k\<close>.
\<close>

function bit_length :: "int \<Rightarrow> nat" where
  "bit_length n = (if n \<le> 0 then 0 else Suc (bit_length (n div 2)))"
  by pat_completeness auto

termination by (relation "measure nat") auto

declare bit_length.simps [simp del]

definition round_even :: "int \<Rightarrow> int \<Rightarrow> int" where
  "round_even a b =
    (let q = a div b; r = a mod b
     in if 2 * r < b then q else if 2 * r > b then q + 1 else if even q then q else q + 1)"

definition to_double :: "int \<Rightarrow> int \<Rightarrow> int \<times> nat" where
  "to_double a b =
    (let k = 53 + bit_length b - bit_length a;
         k' = (if a * 2 ^ k div b \<ge> 2 ^ 53 then k - 1 else k)
     in (round_even (a * 2 ^ k') b, k'))"

definition to_fixed1 :: "int \<times> nat \<Rightarrow> string" where
  "to_fixed1 x =
    (let tenths = (20 * fst x + 2 ^ snd x) div (2 * 2 ^ snd x)
     in print_int (tenths div 10) @ ''.'' @ print_int (tenths mod 10))"

definition percent_text :: "nat \<Rightarrow> nat \<Rightarrow> string" where
  "percent_text a b =
    (if a = 0 then ''0.0''
     else let x = to_double (int a) (int b) in to_fixed1 (to_double (100 * fst x) (2 ^ snd x)))"

lemma percent_text_samples: "percent_text 1 8 = ''12.5''" "percent_text 3 2000 = ''0.1''"
  "percent_text 1 400 = ''0.3''"
  by code_simp+

section \<open>SOC 2\<close>

definition CC6_1 :: "report_data \<Rightarrow> control_result" where
  "CC6_1 d =
    (let fileEvents = length (rd_fileEvents d); sensitiveAccess = length (rd_sensitiveFileEvents d);
         deniedAccess = with_path (rd_denials d)
     in if \<not> hasEvents d then finding Na ''No events in reporting period.'' None None
        else if fileEvents = 0 then finding Na ''No file access events recorded.'' None None
        else
          let hasDenials = deniedAccess > 0; hasRiskClassification = list_ex risk_classified (rd_events d)
          in if hasRiskClassification \<and> (hasDenials \<or> sensitiveAccess > 0) then
               finding Pass
                 (digits_of fileEvents @
                  '' file access events recorded with risk classification. '' @
                  digits_of sensitiveAccess @ '' sensitive file accesses detected. '' @
                  digits_of deniedAccess @ '' unauthorised access attempts blocked by policy.'')
                 (Some fileEvents) None
             else
               finding Partial
                 (digits_of fileEvents @ '' file access events recorded but '' @
                  (if hasDenials then [] else ''no '') @
                  ''policy denials detected. Risk classification is '' @
                  (if hasRiskClassification
                   then ''active''
                   else ''not configured'') @
                  ''.'')
                 (Some fileEvents) None)"

definition CC6_2 :: "report_data \<Rightarrow> control_result" where
  "CC6_2 d =
    (let commands = length (rd_commandEvents d);
         highRiskCmds = length (filter is_high_risk (rd_commandEvents d));
         deniedCmds = with_command (rd_denials d)
     in if \<not> hasEvents d then finding Na ''No events in reporting period.'' None None
        else if commands = 0 then finding Na ''No command execution events recorded.'' None None
        else if deniedCmds > 0 then
          finding Pass
            (digits_of commands @ '' command executions logged. '' @ digits_of highRiskCmds @
             '' high-risk commands detected. '' @ digits_of deniedCmds @
             '' privileged operations blocked by policy enforcement.'')
            (Some commands) None
        else
          finding Partial
            (digits_of commands @ '' command executions logged with '' @
             digits_of highRiskCmds @ '' flagged as high-risk. No policy denials recorded '' @
             em_dash @ '' policy enforcement may not be active.'')
            (Some commands) None)"

definition CC7_1 :: "report_data \<Rightarrow> control_result" where
  "CC7_1 d =
    (if \<not> hasEvents d then finding Fail ''No events recorded. Monitoring appears inactive.'' None None
     else
       let sessionCount = length (rd_sessions d); agents = length (st_byAgent (rd_stats d));
           daysCovered = length (st_byDay (rd_stats d))
       in finding Pass
            (digits_of (total_of d) @ '' events recorded across '' @ digits_of sessionCount @
             '' sessions from '' @ digits_of agents @ '' agent(s) over '' @
             digits_of daysCovered @
             '' day(s). All events include timestamps, agent identification, action '' @
             ''classification, and risk assessment.'')
            (Some (total_of d)) None)"

definition CC7_2 :: "report_data \<Rightarrow> control_result" where
  "CC7_2 d =
    (if \<not> hasEvents d then finding Fail ''No events in audit trail.'' None None
     else
       let chainOk = chain_ok d; sealed = ri_sealed (rd_integrity d); chained = chained_of d
       in if chainOk \<and> chained > 0 then
            finding (if sealed then Pass else Partial)
              (''Hash chain verified: '' @ digits_of chained @
               '' events with tamper-evident linking. Chain integrity: VALID. '' @
               (if sealed
                then ''Audit trail is HMAC-sealed.''
                else ''Audit trail is NOT sealed '' @ em_dash @ '' run 'patchwork seal' for cryptographic signing.''))
              (Some chained) None
          else
            finding Fail
              (''Hash chain verification '' @ (if chainOk then ''passed'' else ''FAILED'') @
               ''. '' @ digits_of (ri_invalidEvents (rd_integrity d)) @
               '' invalid events detected. Log integrity cannot be guaranteed.'')
              None None)"

definition CC7_3 :: "report_data \<Rightarrow> control_result" where
  "CC7_3 d =
    (if \<not> hasEvents d then finding Na ''No events in reporting period.'' None None
     else
       let highRisk = length (rd_highRiskEvents d); denials = length (rd_denials d)
       in if hasPolicy d \<and> denials > 0 then
            finding Pass
              (''Policy enforcement active (source: '' @ rd_policySource d @ ''). '' @
               digits_of highRisk @ '' high-risk events detected. '' @ digits_of denials @
               '' policy violations blocked in real-time. Anomalous actions are '' @
               ''automatically classified and denied.'')
              (Some denials) None
          else if hasPolicy d then
            finding Partial
              (''Policy loaded (source: '' @ rd_policySource d @
               '') but no denial events recorded. '' @ digits_of highRisk @
               '' high-risk events detected. Policy may not be configured for active '' @
               ''enforcement.'')
              (Some highRisk) None
          else
            finding Fail
              (''No security policy loaded. '' @ digits_of highRisk @
               '' high-risk events detected but no policy enforcement active. Run '' @
               '''patchwork policy init --strict' to enable.'')
              (Some highRisk) None)"

definition project_names :: "json list \<Rightarrow> string list" where
  "project_names events =
    uniq (filter (\<lambda>p. p \<noteq> [])
      (map (\<lambda>e. case member_of e ''project'' ''name'' of None \<Rightarrow> [] | Some p \<Rightarrow> p) events))"

definition CC8_1 :: "report_data \<Rightarrow> control_result" where
  "CC8_1 d =
    (let writes = length (filter (action_in (file_writes @ [''file_delete''])) (rd_fileEvents d));
         projects = length (project_names (rd_events d))
     in if \<not> hasEvents d then finding Na ''No events in reporting period.'' None None
        else if writes = 0 then finding Na ''No file modification events recorded.'' None None
        else
          finding Pass
            (digits_of writes @ '' file modifications recorded across '' @ digits_of projects @
             '' project(s). All changes logged with risk classification, agent '' @
             ''identification, and timestamp. Top modified files tracked.'')
            (Some writes) None)"

definition SOC2_CONTROLS :: "control list" where
  "SOC2_CONTROLS =
    [\<lparr>ct_id = ''CC6.1'', ct_name = ''Logical Access Controls'', ct_evaluate = CC6_1\<rparr>,
     \<lparr>ct_id = ''CC6.2'', ct_name = ''Privileged Operations'', ct_evaluate = CC6_2\<rparr>,
     \<lparr>ct_id = ''CC7.1'', ct_name = ''System Activity Monitoring'', ct_evaluate = CC7_1\<rparr>,
     \<lparr>ct_id = ''CC7.2'', ct_name = ''Monitoring Log Effectiveness'', ct_evaluate = CC7_2\<rparr>,
     \<lparr>ct_id = ''CC7.3'', ct_name = ''Exception & Anomaly Handling'', ct_evaluate = CC7_3\<rparr>,
     \<lparr>ct_id = ''CC8.1'', ct_name = ''Change Management'', ct_evaluate = CC8_1\<rparr>]"

section \<open>ISO 27001\<close>

definition A_8_2 :: "report_data \<Rightarrow> control_result" where
  "A_8_2 d =
    (let commands = length (rd_commandEvents d);
         elevated = length (filter is_high_risk (rd_commandEvents d));
         denied = with_command (rd_denials d)
     in if commands = 0 then finding Na ''No command execution events.'' None None
        else if denied > 0 then
          finding Pass
            (digits_of commands @ '' commands logged. '' @ digits_of elevated @
             '' elevated/dangerous commands detected and classified. '' @ digits_of denied @
             '' privileged operations denied by policy.'')
            (Some commands) None
        else
          finding Partial
            (digits_of commands @ '' commands logged with '' @ digits_of elevated @
             '' classified as elevated risk. No active policy denials '' @ em_dash @
             '' consider enabling fail-closed enforcement.'')
            (Some commands) None)"

definition A_8_3 :: "report_data \<Rightarrow> control_result" where
  "A_8_3 d =
    (let sensitiveCount = length (rd_sensitiveFileEvents d); deniedFiles = with_path (rd_denials d)
     in if \<not> hasEvents d then finding Na ''No events in reporting period.'' None None
        else if sensitiveCount > 0 \<and> deniedFiles > 0 then
          finding Pass
            (digits_of sensitiveCount @ '' sensitive file accesses detected and classified. '' @
             digits_of deniedFiles @
             '' unauthorised file access attempts blocked. Access control policy '' @
             ''actively enforced.'')
            (Some (sensitiveCount + deniedFiles)) None
        else if sensitiveCount > 0 then
          finding Partial
            (digits_of sensitiveCount @
             '' sensitive file accesses detected but no active denials. Access is '' @
             ''logged but may not be restricted.'')
            (Some sensitiveCount) None
        else
          finding Pass
            (''No sensitive file access detected in reporting period. File access is '' @
             ''logged and classified.'')
            None None)"

definition A_8_15 :: "report_data \<Rightarrow> control_result" where
  "A_8_15 d =
    (if \<not> hasEvents d then finding Fail ''No events recorded. Logging appears inactive.'' None None
     else
       let chainOk = chain_ok d; chained = chained_of d
       in if chainOk \<and> chained > 0 then
            finding Pass
              (digits_of (total_of d) @ '' events logged with tamper-evident hash chaining ('' @
               digits_of chained @
               '' chained events). All events include: timestamp, agent, action, '' @
               ''target, risk level, status. Chain integrity: VALID.'')
              (Some (total_of d)) None
          else
            finding Partial
              (digits_of (total_of d) @ '' events logged. Hash chain '' @
               (if chainOk
                then ''valid''
                else ''BROKEN '' @ em_dash @ '' integrity compromised'') @
               ''.'')
              (Some (total_of d)) None)"

definition A_8_16 :: "report_data \<Rightarrow> control_result" where
  "A_8_16 d =
    (if \<not> hasEvents d then finding Fail ''No monitoring data available.'' None None
     else
       let highRisk = length (rd_highRiskEvents d); agents = length (st_byAgent (rd_stats d))
       in finding (if highRisk > 0 \<or> hasPolicy d then Pass else Partial)
            (''Continuous monitoring active across '' @ digits_of agents @ '' agent(s). '' @
             digits_of (total_of d) @ '' events with automatic risk classification. '' @
             digits_of highRisk @ '' anomalous (high-risk) events detected. '' @
             (if hasPolicy d
              then ''Policy enforcement active.''
              else ''No enforcement policy configured.''))
            (Some (total_of d)) None)"

definition A_8_28 :: "report_data \<Rightarrow> control_result" where
  "A_8_28 d =
    (let writes = length (filter (action_in file_writes) (rd_fileEvents d));
         riskAssessed = length (filter risk_classified (rd_fileEvents d))
     in if writes = 0 then finding Na ''No code modification events.'' None None
        else
          finding Pass
            (digits_of writes @ '' code modifications logged. '' @ digits_of riskAssessed @
             '' changes risk-assessed. All modifications include agent '' @
             ''identification, timestamp, and risk classification.'')
            (Some writes) None)"

definition ISO27001_CONTROLS :: "control list" where
  "ISO27001_CONTROLS =
    [\<lparr>ct_id = ''A.8.2'', ct_name = ''Privileged Access Rights'', ct_evaluate = A_8_2\<rparr>,
     \<lparr>ct_id = ''A.8.3'', ct_name = ''Information Access Restriction'', ct_evaluate = A_8_3\<rparr>,
     \<lparr>ct_id = ''A.8.15'', ct_name = ''Logging'', ct_evaluate = A_8_15\<rparr>,
     \<lparr>ct_id = ''A.8.16'', ct_name = ''Monitoring Activities'', ct_evaluate = A_8_16\<rparr>,
     \<lparr>ct_id = ''A.8.28'', ct_name = ''Secure Development'', ct_evaluate = A_8_28\<rparr>]"

section \<open>EU AI Act\<close>

definition lifecycle_tracked :: "report_data \<Rightarrow> bool" where
  "lifecycle_tracked d \<longleftrightarrow>
    list_ex (action_in [''session_start'']) (rd_events d)
    \<and> list_ex (action_in [''session_end'']) (rd_events d)"

definition Art_12 :: "report_data \<Rightarrow> control_result" where
  "Art_12 d =
    (if \<not> hasEvents d then finding Fail ''No automatic event recording detected.'' None None
     else
       let hasSessionLifecycle = lifecycle_tracked d; chainOk = chain_ok d
       in if hasSessionLifecycle \<and> chainOk then
            finding Pass
              (''Automatic logging active: '' @ digits_of (total_of d) @
               '' events recorded across '' @ digits_of (length (rd_sessions d)) @
               '' sessions. Full lifecycle tracked (session start/end). Events '' @
               ''include: timestamp, action, target, risk assessment, agent '' @
               ''identification. Hash chain integrity: VALID. Records are '' @
               ''tamper-evident.'')
              (Some (total_of d)) None
          else
            finding Partial
              (digits_of (total_of d) @ '' events recorded. '' @
               (if hasSessionLifecycle
                then ''Session lifecycle tracked.''
                else ''Session lifecycle NOT fully tracked.'') @
               '' Hash chain: '' @ (if chainOk then ''VALID'' else ''BROKEN'') @ ''.'')
              (Some (total_of d)) None)"

definition Art_13 :: "report_data \<Rightarrow> control_result" where
  "Art_13 d =
    (if \<not> hasEvents d then finding Na ''No events in reporting period.'' None None
     else
       let hasRisk = list_ex risk_classified (rd_events d);
           hasTargets = list_ex (\<lambda>e. has_target ''path'' e \<or> has_target ''command'' e) (rd_events d)
       in finding (if hasRisk \<and> hasTargets then Pass else Partial)
            (''Audit trail provides full transparency: each action includes the '' @
             ''target (file/command/URL), risk assessment, and decision outcome '' @
             ''(completed/denied). '' @
             (if hasPolicy d
              then ''Policy documentation available ('' @ rd_policySource d @ '').''
              else ''No policy documentation configured.''))
            (Some (total_of d)) None)"

definition Art_14 :: "report_data \<Rightarrow> control_result" where
  "Art_14 d =
    (if \<not> hasEvents d then finding Na ''No events in reporting period.'' None None
     else
       let denials = length (rd_denials d); policyActive = hasPolicy d
       in if policyActive \<and> denials > 0 then
            finding Pass
              (''Human oversight implemented via policy enforcement: '' @ digits_of denials @
               '' AI agent actions blocked by human-defined rules. Policy source: '' @
               rd_policySource d @ ''. Audit trail enables post-hoc review of all '' @
               digits_of (total_of d) @
               '' events. Dashboard available for real-time monitoring.'')
              (Some denials) None
          else if policyActive then
            finding Partial
              (''Policy configured ('' @ rd_policySource d @
               '') providing human-defined guardrails. No denial events in this '' @
               ''period. Audit trail of '' @ digits_of (total_of d) @
               '' events available for human review.'')
              (Some (total_of d)) None
          else
            finding Fail
              (''No enforcement policy configured. AI agent operated without '' @
               ''human-defined constraints. Audit trail exists ('' @ digits_of (total_of d) @
               '' events) but no real-time controls.'')
              (Some (total_of d)) None)"

definition Art_19 :: "report_data \<Rightarrow> control_result" where
  "Art_19 d =
    (if \<not> hasEvents d then finding Fail ''No automatic logging detected.'' None None
     else
       let actions = length (st_byAction (rd_stats d)); riskLevels = length (st_byRisk (rd_stats d))
       in finding Pass
            (''Automatic logging fully operational: '' @ digits_of (total_of d) @
             '' events captured without manual intervention. '' @ digits_of actions @
             '' distinct action types monitored. '' @ digits_of riskLevels @
             '' risk levels assigned automatically. Events generated by native hook '' @
             ''integration (no manual logging required).'')
            (Some (total_of d)) None)"

definition EU_AI_ACT_CONTROLS :: "control list" where
  "EU_AI_ACT_CONTROLS =
    [\<lparr>ct_id = ''Art. 12'', ct_name = ''Record-Keeping'', ct_evaluate = Art_12\<rparr>,
     \<lparr>ct_id = ''Art. 13'', ct_name = ''Transparency'', ct_evaluate = Art_13\<rparr>,
     \<lparr>ct_id = ''Art. 14'', ct_name = ''Human Oversight'', ct_evaluate = Art_14\<rparr>,
     \<lparr>ct_id = ''Art. 19'', ct_name = ''Automatic Logging'', ct_evaluate = Art_19\<rparr>]"

section \<open>GDPR\<close>

definition all_timestamped :: "report_data \<Rightarrow> bool" where
  "all_timestamped d \<longleftrightarrow> list_all (\<lambda>e. truthy (string_member e ''timestamp'')) (rd_events d)"

definition Art_5 :: "report_data \<Rightarrow> control_result" where
  "Art_5 d =
    (if \<not> hasEvents d then finding Fail ''No processing records.'' None None
     else
       let hasTimestamps = all_timestamped d; policyActive = hasPolicy d
       in finding (if hasTimestamps \<and> policyActive then Pass else Partial)
            (digits_of (total_of d) @ '' processing events logged. Timestamps: '' @
             (if hasTimestamps then ''complete'' else ''incomplete'') @
             ''. Processing purpose documented: '' @
             (if policyActive
              then ''yes (policy active)''
              else ''no policy '' @ em_dash @ '' processing purpose undocumented'') @
             ''.'')
            (Some (total_of d)) (links_of 50 (rd_events d)))"

text \<open>
  One round of the loop: the names added to the set and the identifiers added to the list. A host
  name the platform cannot read adds nothing to the set.
\<close>

definition processors_of :: "(string \<Rightarrow> string option) \<Rightarrow> json \<Rightarrow> string list" where
  "processors_of host e =
    (if action_in [''mcp_tool_call''] e \<and> has_target ''tool_name'' e
     then [the (member_of e ''target'' ''tool_name'')] else [])
    @ (if action_in [''web_fetch'', ''web_search''] e \<and> has_target ''url'' e
       then (case host (the (member_of e ''target'' ''url'')) of None \<Rightarrow> [] | Some h \<Rightarrow> [h]) else [])"

definition processor_event :: "json \<Rightarrow> bool" where
  "processor_event e \<longleftrightarrow>
    (action_in [''mcp_tool_call''] e \<and> has_target ''tool_name'' e)
    \<or> (action_in [''web_fetch'', ''web_search''] e \<and> has_target ''url'' e)"

definition Art_28 :: "(string \<Rightarrow> string option) \<Rightarrow> report_data \<Rightarrow> control_result" where
  "Art_28 host d =
    (let subprocessors = uniq (concat (map (processors_of host) (rd_events d)));
         subprocessorEvents = filter processor_event (rd_events d)
     in if length subprocessors = 0 then finding Na ''No external processors accessed.'' None (Some [])
        else
          finding Pass
            (digits_of (length subprocessors) @
             '' external processor(s) identified and logged: '' @
             join '', '' (take 10 subprocessors) @
             ''. All access events recorded with timestamps.'')
            (Some (length subprocessorEvents)) (links_of 50 subprocessorEvents))"

definition Art_32 :: "report_data \<Rightarrow> control_result" where
  "Art_32 d =
    (if \<not> hasEvents d then finding Fail ''No security measures observable.'' None None
     else
       let hasChain = chain_ok d; denials = length (rd_denials d); policyActive = hasPolicy d
       in finding (if hasChain \<and> policyActive then Pass else Partial)
            (''Audit trail integrity: '' @
             (if hasChain then ''VALID (hash-chained)'' else ''unverified'') @
             ''. Access control: '' @
             (if policyActive then ''policy active'' else ''no policy'') @ ''. '' @
             (if denials > 0
              then digits_of denials @ '' unauthorised access attempts blocked.''
              else ''No access violations detected.''))
            (Some (total_of d)) (links_of 50 (rd_denials d)))"

definition Art_34 :: "report_data \<Rightarrow> control_result" where
  "Art_34 d =
    (let criticalEvents = filter (\<lambda>e. risk_level_of e = ''critical'') (rd_events d);
         denials = rd_denials d
     in if length criticalEvents = 0 \<and> length denials = 0 then
          finding Pass
            (''No breach indicators detected. Zero critical events, zero policy '' @
             ''violations.'')
            None (Some [])
        else
          finding (if length denials > 0 then Pass else Partial)
            (digits_of (length criticalEvents) @ '' critical events detected. '' @
             digits_of (length denials) @
             '' blocked by policy. Breach indicators are logged and classifiable for '' @
             ''notification assessment.'')
            (Some (length criticalEvents + length denials)) (links_of 50 (criticalEvents @ denials)))"

definition GDPR_CONTROLS :: "(string \<Rightarrow> string option) \<Rightarrow> control list" where
  "GDPR_CONTROLS host =
    [\<lparr>ct_id = ''Art. 5'', ct_name = ''Lawfulness, Fairness, Transparency'', ct_evaluate = Art_5\<rparr>,
     \<lparr>ct_id = ''Art. 28'', ct_name = ''Data Processor Compliance'', ct_evaluate = Art_28 host\<rparr>,
     \<lparr>ct_id = ''Art. 32'', ct_name = ''Security of Processing'', ct_evaluate = Art_32\<rparr>,
     \<lparr>ct_id = ''Art. 34'', ct_name = ''Communication of Breach to Data Subject'',
      ct_evaluate = Art_34\<rparr>]"

section \<open>NIST AI RMF\<close>

definition GOVERN_1_1 :: "report_data \<Rightarrow> control_result" where
  "GOVERN_1_1 d =
    (if \<not> hasEvents d then finding Fail ''No events to assess risk.'' None None
     else
       let riskMapped = filter risk_classified (rd_events d); mapped = length riskMapped;
           all_events = length (rd_events d); pct = percent_text mapped all_events
       in finding (if mapped = all_events then Pass else if mapped > 0 then Partial else Fail)
            (digits_of mapped @ ''/'' @ digits_of all_events @ '' events ('' @ pct @
             ''%) have risk classification. Risk levels: '' @
             join '', '' (map (\<lambda>(k, v). k @ ''='' @ digits_of v) (st_byRisk (rd_stats d))) @
             ''.'')
            (Some mapped) (links_of 50 riskMapped))"

definition MAP_1_1 :: "report_data \<Rightarrow> control_result" where
  "MAP_1_1 d =
    (let dataEvents = filter (action_in [''file_read'', ''file_write'', ''file_create'', ''web_fetch''])
           (rd_events d);
         withHash = length (filter (\<lambda>e. truthy (member_of e ''content'' ''hash'')) dataEvents);
         accesses = length dataEvents
     in if accesses = 0 then finding Na ''No data access events.'' None None
        else
          finding (if withHash > 0 then Pass else Partial)
            (digits_of accesses @ '' data access events. '' @ digits_of withHash @
             '' have content provenance (SHA-256 hash). Data lineage tracked via '' @
             ''hash chain.'')
            (Some accesses) (links_of 50 dataEvents))"

definition MEASURE_1_1 :: "report_data \<Rightarrow> control_result" where
  "MEASURE_1_1 d =
    (if \<not> hasEvents d then finding Fail ''No monitoring data.'' None None
     else
       let anomalies = length (rd_highRiskEvents d)
       in finding (if anomalies > 0 \<or> hasPolicy d then Pass else Partial)
            (''Continuous monitoring active: '' @ digits_of (total_of d) @ '' events across '' @
             digits_of (length (rd_sessions d)) @ '' sessions. '' @ digits_of anomalies @
             '' anomalous (high-risk) events detected and classified. '' @
             (if hasPolicy d
              then ''Policy enforcement active.''
              else ''No enforcement policy.''))
            (Some anomalies) (links_of 50 (rd_highRiskEvents d)))"

definition MANAGE_1_1 :: "report_data \<Rightarrow> control_result" where
  "MANAGE_1_1 d =
    (let denials = rd_denials d; policyActive = hasPolicy d
     in if \<not> hasEvents d then finding Fail ''No events.'' None None
        else if policyActive \<and> length denials > 0 then
          finding Pass
            (''Policy enforcement active ('' @ rd_policySource d @ ''). '' @
             digits_of (length denials) @
             '' risky actions mitigated by automatic denial. Human-defined risk '' @
             ''thresholds enforced.'')
            (Some (length denials)) (links_of 50 denials)
        else if policyActive then
          finding Partial
            (''Policy loaded ('' @ rd_policySource d @
             '') but no denial events. Risk mitigation controls defined but not '' @
             ''triggered.'')
            None (Some [])
        else
          finding Fail
            (''No risk mitigation policy configured. AI system operates without '' @
             ''guardrails.'')
            None (Some []))"

definition NIST_AI_RMF_CONTROLS :: "control list" where
  "NIST_AI_RMF_CONTROLS =
    [\<lparr>ct_id = ''GOVERN-1.1'', ct_name = ''Risk Mapping'', ct_evaluate = GOVERN_1_1\<rparr>,
     \<lparr>ct_id = ''MAP-1.1'', ct_name = ''Data Governance'', ct_evaluate = MAP_1_1\<rparr>,
     \<lparr>ct_id = ''MEASURE-1.1'', ct_name = ''Performance Monitoring'', ct_evaluate = MEASURE_1_1\<rparr>,
     \<lparr>ct_id = ''MANAGE-1.1'', ct_name = ''Risk Mitigation'', ct_evaluate = MANAGE_1_1\<rparr>]"

section \<open>HIPAA\<close>

definition phi_patterns :: "string list" where
  "phi_patterns =
    [''health'', ''patient'', ''medical'', ''ssn'', ''mrn'', ''phi'', ''hipaa'', ''ehr'', ''emr'']"

definition HIPAA_312_a_2 :: "report_data \<Rightarrow> control_result" where
  "HIPAA_312_a_2 d =
    (let phiEvents = filter (path_matches phi_patterns) (rd_events d);
         deniedAccess = filter (has_target ''path'') (rd_denials d);
         allFileEvents = length (rd_fileEvents d)
     in if allFileEvents = 0 then finding Na ''No file access events.'' None (Some [])
        else
          finding (if length deniedAccess > 0 then Pass else if length phiEvents > 0 then Partial else Pass)
            (digits_of allFileEvents @ '' file access events logged. '' @
             digits_of (length phiEvents) @ '' potential PHI-related accesses detected. '' @
             digits_of (length deniedAccess) @
             '' unauthorised access attempts blocked. All access includes agent '' @
             ''identification and timestamps.'')
            (Some allFileEvents) (links_of 50 (phiEvents @ deniedAccess)))"

definition HIPAA_312_b :: "report_data \<Rightarrow> control_result" where
  "HIPAA_312_b d =
    (if \<not> hasEvents d then finding Fail ''No audit trail.'' None (Some [])
     else
       let hasChain = chain_ok d
       in finding (if hasChain then Pass else Partial)
            (''Complete audit trail: '' @ digits_of (total_of d) @ '' events with '' @
             digits_of (chained_of d) @ '' hash-chained entries. Chain integrity: '' @
             (if hasChain then ''VALID'' else ''BROKEN'') @
             ''. All events timestamped with agent identification, action type, '' @
             ''target, and risk level.'')
            (Some (total_of d)) (links_of 50 (rd_events d)))"

definition HIPAA_308_a_5_ii :: "report_data \<Rightarrow> control_result" where
  "HIPAA_308_a_5_ii d =
    (if \<not> hasEvents d then finding Na ''No events.'' None (Some [])
     else
       let agents = map fst (st_byAgent (rd_stats d));
           allIdentified = list_all
             (\<lambda>e. truthy (string_member e ''agent'') \<and> truthy (string_member e ''session_id''))
             (rd_events d)
       in finding (if allIdentified then Pass else Partial)
            (digits_of (length agents) @ '' distinct agent(s) identified: '' @
             join '', '' agents @ ''. All '' @ digits_of (total_of d) @
             '' events include unique agent identifier and session ID. '' @
             (if allIdentified
              then ''100% identification coverage.''
              else ''Some events missing agent identification.''))
            (Some (total_of d)) (links_of 20 (rd_events d)))"

definition HIPAA_312_a_2_i :: "report_data \<Rightarrow> control_result" where
  "HIPAA_312_a_2_i d =
    (let denials = rd_denials d; policyActive = hasPolicy d
     in if \<not> hasEvents d then finding Na ''No events.'' None (Some [])
        else if policyActive \<and> length denials > 0 then
          finding Pass
            (''Access management via policy enforcement ('' @ rd_policySource d @ ''). '' @
             digits_of (length denials) @
             '' unauthorised access attempts blocked. Policy defines allowed/denied '' @
             ''operations.'')
            (Some (length denials)) (links_of 50 denials)
        else
          finding (if policyActive then Partial else Fail)
            (if policyActive
             then (''Policy configured but no denials in period. Access management defined '' @
                   ''but not triggered.'')
             else ''No access management policy. All actions permitted without review.'')
            None (Some []))"

definition HIPAA_CONTROLS :: "control list" where
  "HIPAA_CONTROLS =
    [\<lparr>ct_id = section_sign @ ''164.312(a)(2)'', ct_name = ''Access Controls'',
      ct_evaluate = HIPAA_312_a_2\<rparr>,
     \<lparr>ct_id = section_sign @ ''164.312(b)'', ct_name = ''Audit Controls'', ct_evaluate = HIPAA_312_b\<rparr>,
     \<lparr>ct_id = section_sign @ ''164.308(a)(5)(ii)'', ct_name = ''Unique User Identification'',
      ct_evaluate = HIPAA_308_a_5_ii\<rparr>,
     \<lparr>ct_id = section_sign @ ''164.312(a)(2)(i)'', ct_name = ''Access Management'',
      ct_evaluate = HIPAA_312_a_2_i\<rparr>]"

section \<open>PCI DSS\<close>

definition config_patterns :: "string list" where
  "config_patterns =
    [''config'', ''package.json'', ''tsconfig'', ''dockerfile'', ''.yml'', ''.yaml'', ''.toml'', ''.ini'',
     ''.conf'']"

definition Req_2_1 :: "report_data \<Rightarrow> control_result" where
  "Req_2_1 d =
    (let configChanges = filter (\<lambda>e. action_in file_writes e \<and> path_matches config_patterns e)
           (rd_events d)
     in if length configChanges = 0
        then finding Na ''No configuration changes detected.'' None (Some [])
        else
          finding Pass
            (digits_of (length configChanges) @
             '' configuration file changes logged and risk-assessed. All '' @
             ''modifications tracked with agent ID, timestamp, and content hash.'')
            (Some (length configChanges)) (links_of 50 configChanges))"

definition Req_7 :: "report_data \<Rightarrow> control_result" where
  "Req_7 d =
    (let denials = rd_denials d; sensitiveAccess = rd_sensitiveFileEvents d
     in if \<not> hasEvents d then finding Na ''No access events.'' None (Some [])
        else if length denials > 0 then
          finding Pass
            (''Access restricted via policy enforcement. '' @
             digits_of (length sensitiveAccess) @ '' sensitive file accesses logged. '' @
             digits_of (length denials) @ '' unauthorised accesses blocked.'')
            (Some (length denials + length sensitiveAccess)) (links_of 50 (denials @ sensitiveAccess))
        else
          finding (if length sensitiveAccess > 0 then Partial else Pass)
            (digits_of (length (rd_fileEvents d)) @ '' file accesses logged. '' @
             digits_of (length sensitiveAccess) @ '' sensitive accesses detected. '' @
             digits_of (length denials) @ '' blocked.'')
            (Some (length (rd_fileEvents d))) (links_of 50 (rd_fileEvents d)))"

definition Req_10 :: "report_data \<Rightarrow> control_result" where
  "Req_10 d =
    (if \<not> hasEvents d then finding Fail ''No logging active.'' None (Some [])
     else
       let allTimestamped = list_all
             (\<lambda>e. truthy (string_member e ''timestamp'') \<and> truthy (string_member e ''agent''))
             (rd_events d);
           hasChain = chain_ok d
       in finding (if allTimestamped \<and> hasChain then Pass else Partial)
            (digits_of (total_of d) @ '' events logged. Timestamps: '' @
             (if allTimestamped then ''complete'' else ''incomplete'') @ ''. Hash chain: '' @
             (if hasChain then ''VALID'' else ''BROKEN'') @
             ''. Covers: file access, commands, network, MCP tools.'')
            (Some (total_of d)) (links_of 50 (rd_events d)))"

definition Req_12 :: "report_data \<Rightarrow> control_result" where
  "Req_12 d =
    (let policyActive = hasPolicy d; denials = rd_denials d
     in if policyActive \<and> length denials > 0 then
          finding Pass
            (''Security policy active ('' @ rd_policySource d @ ''). '' @
             digits_of (length denials) @
             '' policy violations detected and blocked. Policy defines file, '' @
             ''command, network, and MCP rules.'')
            (Some (length denials)) (links_of 50 denials)
        else if policyActive then
          finding Partial
            (''Policy configured ('' @ rd_policySource d @
             '') but no violations in period. Policy enforcement is operational.'')
            None (Some [])
        else
          finding Fail
            (''No security policy configured. AI agent operates without defined '' @
             ''security rules.'')
            None (Some []))"

definition PCI_DSS_CONTROLS :: "control list" where
  "PCI_DSS_CONTROLS =
    [\<lparr>ct_id = ''Req. 2.1'', ct_name = ''Change Defaults'', ct_evaluate = Req_2_1\<rparr>,
     \<lparr>ct_id = ''Req. 7'', ct_name = ''Restrict Access'', ct_evaluate = Req_7\<rparr>,
     \<lparr>ct_id = ''Req. 10'', ct_name = ''Logging and Monitoring'', ct_evaluate = Req_10\<rparr>,
     \<lparr>ct_id = ''Req. 12'', ct_name = ''Security Policy'', ct_evaluate = Req_12\<rparr>]"

section \<open>The registry\<close>

definition FRAMEWORKS :: "(string \<Rightarrow> string option) \<Rightarrow> (string \<times> framework) list" where
  "FRAMEWORKS host =
    [(''soc2'', \<lparr>fw_id = ''soc2'', fw_name = ''SOC 2 Type II'', fw_version = ''2017'',
        fw_controls = SOC2_CONTROLS\<rparr>),
     (''iso27001'', \<lparr>fw_id = ''iso27001'', fw_name = ''ISO/IEC 27001:2022'', fw_version = ''2022'',
        fw_controls = ISO27001_CONTROLS\<rparr>),
     (''eu-ai-act'', \<lparr>fw_id = ''eu-ai-act'', fw_name = ''EU AI Act'', fw_version = ''2024'',
        fw_controls = EU_AI_ACT_CONTROLS\<rparr>),
     (''gdpr'', \<lparr>fw_id = ''gdpr'', fw_name = ''GDPR'', fw_version = ''2018'',
        fw_controls = GDPR_CONTROLS host\<rparr>),
     (''nist-ai-rmf'', \<lparr>fw_id = ''nist-ai-rmf'', fw_name = ''NIST AI RMF'', fw_version = ''1.0'',
        fw_controls = NIST_AI_RMF_CONTROLS\<rparr>),
     (''hipaa'', \<lparr>fw_id = ''hipaa'', fw_name = ''HIPAA'', fw_version = ''2013'',
        fw_controls = HIPAA_CONTROLS\<rparr>),
     (''pci-dss'', \<lparr>fw_id = ''pci-dss'', fw_name = ''PCI DSS'', fw_version = ''4.0'',
        fw_controls = PCI_DSS_CONTROLS\<rparr>)]"

definition FRAMEWORK_IDS :: "string list" where
  "FRAMEWORK_IDS = map fst (FRAMEWORKS (\<lambda>u. None))"

end
