(* ===== verification/ComplianceReport.thy ===== *)
theory ComplianceReport
  imports ComplianceControls
begin

text \<open>
  The evaluation of a framework, the gap analysis and the trends of
  \<^verbatim>\<open>packages/cli/src/compliance/frameworks.ts\<close>, and the report command of
  \<^verbatim>\<open>packages/cli/src/commands/report.ts\<close>. The texts of the two output formats are left out: what
  is written is the report itself, with the format it is to be rendered in.
\<close>

section \<open>Evaluation\<close>

record report_summary =
  su_pass :: nat
  su_fail :: nat
  su_partial :: nat
  su_na :: nat
  su_total :: nat

record framework_report =
  fr_framework :: framework
  fr_results :: "(control \<times> control_result) list"
  fr_summary :: report_summary

definition with_status :: "control_status \<Rightarrow> (control \<times> control_result) list \<Rightarrow> nat" where
  "with_status s results = length (filter (\<lambda>r. cr_status (snd r) = s) results)"

definition evaluateFramework :: "framework \<Rightarrow> report_data \<Rightarrow> framework_report" where
  "evaluateFramework fw d =
    (let results = map (\<lambda>c. (c, ct_evaluate c d)) (fw_controls fw)
     in \<lparr>fr_framework = fw, fr_results = results,
         fr_summary =
           \<lparr>su_pass = with_status Pass results, su_fail = with_status Fail results,
            su_partial = with_status Partial results, su_na = with_status Na results,
            su_total = length results\<rparr>\<rparr>)"

section \<open>Gaps\<close>

datatype effort = Minutes | Hours | Days

definition REMEDIATIONS :: "(string \<times> string \<times> effort) list" where
  "REMEDIATIONS =
    [(''CC6.1'', ''Configure file deny rules in policy.yml for sensitive paths.'', Minutes),
     (''CC6.2'', ''Add command deny rules (sudo, rm -rf) to policy.yml.'', Minutes),
     (''CC7.1'',
      ''Run Claude Code sessions '' @ em_dash @ '' events are recorded automatically.'', Minutes),
     (''CC7.2'', ''Run 'patchwork seal' to HMAC-sign the audit trail.'', Minutes),
     (''CC7.3'', ''Run 'patchwork policy init --strict' to enable policy enforcement.'', Minutes),
     (''CC8.1'',
      ''Use AI agent to make code changes '' @ em_dash @ '' modifications are tracked automatically.'', Minutes),
     (''A.8.2'', ''Add command deny rules for elevated operations.'', Minutes),
     (''A.8.3'', ''Configure sensitive file patterns in policy.yml.'', Minutes),
     (''A.8.15'',
      ''Ensure hooks are installed: patchwork init claude-code --strict-profile.'', Minutes),
     (''A.8.16'', ''Enable fail-closed mode and webhook alerts.'', Hours),
     (''A.8.28'', ''Integrate SAST scanner and track code review events.'', Days),
     (''Art. 12'', ''Verify hooks record session start/end. Run 'patchwork verify'.'', Minutes),
     (''Art. 13'', ''Document policy rules with reason fields for transparency.'', Hours),
     (''Art. 14'', ''Configure policy.yml with human-defined constraints.'', Hours),
     (''Art. 19'',
      ''Ensure hooks are installed '' @ em_dash @ '' logging is automatic.'', Minutes),
     (''Art. 5'', ''Configure policy.yml to document processing purposes.'', Hours),
     (''Art. 28'',
      ''MCP tools and web access are logged automatically when hooks are active.'', Minutes),
     (''Art. 32'', ''Run 'patchwork seal' and configure strict policy.'', Minutes),
     (''Art. 34'',
      ''Enable webhook alerts (PATCHWORK_WEBHOOK_URL) for breach notification.'', Hours),
     (''GOVERN-1.1'',
      ''Risk classification is automatic '' @ em_dash @ '' ensure hooks are installed.'', Minutes),
     (''MAP-1.1'', ''Content hashing is automatic for all file operations.'', Minutes),
     (''MEASURE-1.1'', ''Enable policy and webhook alerts for anomaly detection.'', Hours),
     (''MANAGE-1.1'', ''Run 'patchwork policy init --strict' for risk mitigation.'', Minutes),
     (section_sign @ ''164.312(a)(2)'',
      ''Add PHI-related file patterns to policy deny rules.'', Hours),
     (section_sign @ ''164.312(b)'',
      ''Ensure hooks are installed and hash chain is valid.'', Minutes),
     (section_sign @ ''164.308(a)(5)(ii)'',
      ''Agent identification is automatic '' @ em_dash @ '' no action needed.'', Minutes),
     (section_sign @ ''164.312(a)(2)(i)'', ''Configure access deny rules in policy.yml.'', Hours),
     (''Req. 2.1'', ''Configuration changes are tracked automatically.'', Minutes),
     (''Req. 7'', ''Add file deny rules for sensitive data paths.'', Minutes),
     (''Req. 10'', ''Ensure hooks are installed: patchwork init claude-code.'', Minutes),
     (''Req. 12'', ''Run 'patchwork policy init --strict' to create security policy.'', Minutes)]"

definition default_remediation :: "string \<times> effort" where
  "default_remediation = (''Review control requirements and enable missing capabilities.'', Hours)"

record compliance_gap =
  gp_frameworkId :: string
  gp_controlId :: string
  gp_controlName :: string
  gp_reason :: string
  gp_remediation :: string
  gp_effort :: effort

definition remediation_of :: "string \<Rightarrow> string \<times> effort" where
  "remediation_of cid =
    (case map_of REMEDIATIONS cid of None \<Rightarrow> default_remediation | Some r \<Rightarrow> r)"

definition gap_of :: "framework \<Rightarrow> control \<times> control_result \<Rightarrow> compliance_gap" where
  "gap_of fw r =
    (let rem = remediation_of (ct_id (fst r))
     in \<lparr>gp_frameworkId = fw_id fw, gp_controlId = ct_id (fst r), gp_controlName = ct_name (fst r),
         gp_reason = cr_evidence (snd r), gp_remediation = fst rem, gp_effort = snd rem\<rparr>)"

definition is_gap :: "control \<times> control_result \<Rightarrow> bool" where
  "is_gap r \<longleftrightarrow> cr_status (snd r) = Fail \<or> cr_status (snd r) = Na"

definition generateGaps :: "framework_report list \<Rightarrow> compliance_gap list" where
  "generateGaps frs =
    concat (map (\<lambda>fr. map (gap_of (fr_framework fr)) (filter is_gap (fr_results fr))) frs)"

section \<open>Trends\<close>

record trend_window =
  tw_start :: string
  tw_end :: string
  tw_events :: nat
  tw_passRate :: nat
  tw_highRisk :: nat
  tw_denials :: nat
  tw_grade :: control_status

record compliance_trend =
  td_frameworkId :: string
  td_period :: string
  td_windows :: "trend_window list"

text \<open>Anything but the two names is a month of thirty days.\<close>

definition period_ms :: "string \<Rightarrow> int" where
  "period_ms period =
    (if period = ''daily'' then 86400000 else if period = ''weekly'' then 604800000 else 2592000000)"

text \<open>The bounds of the windows: the loop on the start of the window.\<close>

function window_bounds :: "int \<Rightarrow> int \<Rightarrow> int \<Rightarrow> (int \<times> int) list" where
  "window_bounds ms start end_time =
    (if 0 < ms \<and> start < end_time
     then (let windowEnd = min (start + ms) end_time
           in (start, windowEnd) # window_bounds ms windowEnd end_time)
     else [])"
  by pat_completeness auto

termination by (relation "measure (\<lambda>(ms, start, end_time). nat (end_time - start))") auto

declare window_bounds.simps [simp del]

definition in_window :: "report_env \<Rightarrow> int \<times> int \<Rightarrow> json \<Rightarrow> bool" where
  "in_window en w e \<longleftrightarrow>
    (case event_time en e of None \<Rightarrow> False | Some t \<Rightarrow> fst w \<le> t \<and> t < snd w)"

definition window_data :: "report_env \<Rightarrow> report_data \<Rightarrow> int \<times> int \<Rightarrow> report_data" where
  "window_data en d w =
    categorize window_SENSITIVE_PATTERNS (filter (in_window en w) (rd_events d)) d"

text \<open>\<open>Math.round((pass / total) * 100)\<close>, the half rounded up.\<close>

definition pass_rate :: "report_summary \<Rightarrow> nat" where
  "pass_rate s =
    (if su_total s > 0 then (200 * su_pass s + su_total s) div (2 * su_total s) else 0)"

definition summary_grade :: "report_summary \<Rightarrow> control_status" where
  "summary_grade s =
    (if su_fail s > 0 then Fail else if su_partial s > 0 then Partial
     else if su_pass s > 0 then Pass else Na)"

definition window_of :: "report_env \<Rightarrow> report_data \<Rightarrow> framework \<Rightarrow> int \<times> int \<Rightarrow> trend_window" where
  "window_of en d fw w =
    (let wd = window_data en d w; s = fr_summary (evaluateFramework fw wd)
     in \<lparr>tw_start = re_iso en (fst w), tw_end = re_iso en (snd w),
         tw_events = length (rd_events wd), tw_passRate = pass_rate s,
         tw_highRisk = length (rd_highRiskEvents wd), tw_denials = length (rd_denials wd),
         tw_grade = summary_grade s\<rparr>)"

definition period_windows :: "report_data \<Rightarrow> string \<Rightarrow> (int \<times> int) list" where
  "period_windows d period =
    (case (rd_periodStart d, rd_periodEnd d) of
       (Some a, Some b) \<Rightarrow> window_bounds (period_ms period) a b | _ \<Rightarrow> [])"

definition generateTrends ::
  "report_env \<Rightarrow> report_data \<Rightarrow> framework_report list \<Rightarrow> string \<Rightarrow> compliance_trend list" where
  "generateTrends en d frs period =
    map (\<lambda>fr. \<lparr>td_frameworkId = fw_id (fr_framework fr), td_period = period,
               td_windows = map (window_of en d (fr_framework fr)) (period_windows d period)\<rparr>) frs"

section \<open>The report\<close>

record compliance_report =
  rp_generatedAt :: string
  rp_toolVersion :: string
  rp_periodStart :: string
  rp_periodEnd :: string
  rp_data :: report_data
  rp_frameworks :: "framework_report list"
  rp_overallGrade :: control_status
  rp_gaps :: "compliance_gap list option"
  rp_trends :: "compliance_trend list option"

record report_options =
  op_framework :: string
  op_since :: "string option"
  op_session :: "string option"
  op_format :: string
  op_includeGaps :: bool
  op_includeTrends :: bool
  op_trendPeriod :: string
  op_output :: "string option"

definition status_present :: "control_status \<Rightarrow> framework_report list \<Rightarrow> bool" where
  "status_present s frs = list_ex (\<lambda>r. cr_status (snd r) = s) (concat (map fr_results frs))"

definition overall_grade :: "framework_report list \<Rightarrow> control_status" where
  "overall_grade frs =
    (if status_present Fail frs then Fail else if status_present Partial frs then Partial
     else if status_present Pass frs then Pass else Na)"

text \<open>
  A look-up in the registry: a framework, nothing, or a value every object inherits, which passes
  the test for being there and has no controls.
\<close>

definition known_framework :: "report_env \<Rightarrow> string \<Rightarrow> bool" where
  "known_framework en fwid \<longleftrightarrow>
    map_of (FRAMEWORKS (re_hostname en)) fwid \<noteq> None \<or> fwid \<in> set inherited_names"

definition evaluate_named :: "report_env \<Rightarrow> report_data \<Rightarrow> string \<Rightarrow> framework_report result" where
  "evaluate_named en d fwid =
    (case map_of (FRAMEWORKS (re_hostname en)) fwid of
       None \<Rightarrow> Inl (TypeError ''Cannot read properties of undefined (reading 'map')'')
     | Some fw \<Rightarrow> Inr (evaluateFramework fw d))"

definition framework_ids :: "report_options \<Rightarrow> string list" where
  "framework_ids opts =
    (if op_framework opts = ''all'' then FRAMEWORK_IDS else [op_framework opts])"

definition no_filter :: event_filter where
  "no_filter =
    \<lparr>ef_agent = None, ef_action = None, ef_minRisk = None, ef_sessionId = None, ef_since = None,
     ef_targetGlob = None, ef_projectName = None, ef_limit = 0\<rparr>"

text \<open>The events of the period, or the message that ends the command.\<close>

definition report_events :: "report_env \<Rightarrow> report_options \<Rightarrow> string + json list" where
  "report_events en opts =
    (case str_or (op_session opts) None of
       Some sid \<Rightarrow> Inr (re_query en (no_filter\<lparr>ef_sessionId := Some sid\<rparr>))
     | None \<Rightarrow>
         (case str_or (op_since opts) None of
            Some since \<Rightarrow>
              (case re_time en since of
                 None \<Rightarrow> Inl (''Invalid date: '' @ since)
               | Some t \<Rightarrow> Inr (re_query en (no_filter\<lparr>ef_since := Some (re_iso en t)\<rparr>)))
          | None \<Rightarrow> Inr (re_readAll en)))"

definition iso_text :: "report_env \<Rightarrow> int option \<Rightarrow> string result" where
  "iso_text en t = (case t of None \<Rightarrow> Inl RangeError | Some x \<Rightarrow> Inr (re_iso en x))"

definition build_report :: "report_env \<Rightarrow> report_options \<Rightarrow> json list \<Rightarrow> compliance_report result" where
  "build_report en opts events =
    (let d = report_data_of en events in
     bind_result (map_result (evaluate_named en d) (framework_ids opts)) (\<lambda>frs.
     let gaps = (if op_includeGaps opts then Some (generateGaps frs) else None);
         period = (if op_trendPeriod opts = [] then ''daily'' else op_trendPeriod opts);
         trends = (if op_includeTrends opts then Some (generateTrends en d frs period) else None)
     in bind_result (iso_text en (rd_periodStart d)) (\<lambda>first_text.
        bind_result (iso_text en (rd_periodEnd d)) (\<lambda>last_text.
        Inr \<lparr>rp_generatedAt = re_now_iso en, rp_toolVersion = ''0.2.0'',
             rp_periodStart = first_text, rp_periodEnd = last_text, rp_data = d,
             rp_frameworks = frs, rp_overallGrade = overall_grade frs,
             rp_gaps = gaps, rp_trends = trends\<rparr>))))"

section \<open>The command\<close>

fun gradeText :: "control_status \<Rightarrow> string" where
  "gradeText Pass = ''COMPLIANT''"
| "gradeText Fail = ''NON-COMPLIANT''"
| "gradeText Partial = ''PARTIALLY COMPLIANT''"
| "gradeText Na = ''INSUFFICIENT DATA''"

text \<open>What the command leaves: its messages without colours, the exit code, the file written.\<close>

record report_outcome =
  ro_messages :: "string list"
  ro_exit :: nat
  ro_written :: "(string \<times> string \<times> compliance_report) option"

definition stop_with :: "string list \<Rightarrow> report_outcome" where
  "stop_with ms = \<lparr>ro_messages = ms, ro_exit = 0, ro_written = None\<rparr>"

definition report_ext :: "report_options \<Rightarrow> string" where
  "report_ext opts = (if op_format opts = ''json'' then ''json'' else ''html'')"

definition stamp :: "string \<Rightarrow> string" where
  "stamp ts = take 19 (map (\<lambda>c. if c = CHR '':'' \<or> c = CHR ''.'' then CHR ''-'' else c) ts)"

definition report_path :: "report_env \<Rightarrow> report_options \<Rightarrow> string result" where
  "report_path en opts =
    (case str_or (op_output opts) None of
       Some p \<Rightarrow> Inr p
     | None \<Rightarrow>
         (let dir = path_join [re_data_dir en, ''reports''] in
          bind_result (re_mkdir en dir) (\<lambda>_.
          Inr (dir @ ''/report-'' @ stamp (re_now_iso en) @ ''.'' @ report_ext opts))))"

definition write_report ::
  "report_env \<Rightarrow> report_options \<Rightarrow> json list \<Rightarrow> compliance_report \<Rightarrow> report_outcome result" where
  "write_report en opts events r =
    bind_result (report_path en opts) (\<lambda>outPath.
    case re_write en outPath of
      Some msg \<Rightarrow>
        Inr \<lparr>ro_messages = [''Failed to write report: '' @ msg], ro_exit = 1, ro_written = None\<rparr>
    | None \<Rightarrow>
        Inr \<lparr>ro_messages =
               [''Compliance report written to '' @ outPath,
                ''Framework(s): '' @ join '', '' (framework_ids opts),
                ''Events: '' @ digits_of (length events) @ '', Sessions: ''
                  @ digits_of (length (rd_sessions (rp_data r))),
                ''Overall grade: '' @ gradeText (rp_overallGrade r)],
             ro_exit = 0, ro_written = Some (outPath, report_ext opts, r)\<rparr>)"

definition report_command :: "report_env \<Rightarrow> report_options \<Rightarrow> report_outcome result" where
  "report_command en opts =
    (case find (\<lambda>fwid. \<not> known_framework en fwid) (framework_ids opts) of
       Some fwid \<Rightarrow>
         Inr (stop_with [''Unknown framework: '' @ fwid,
                         ''Available: '' @ join '', '' FRAMEWORK_IDS @ '', all''])
     | None \<Rightarrow>
         (case report_events en opts of
            Inl msg \<Rightarrow> Inr (stop_with [msg])
          | Inr events \<Rightarrow>
              if events = [] then
                Inr (stop_with [''No events found for the reporting period.'',
                                ''Run some Claude Code sessions first, then try again.''])
              else bind_result (build_report en opts events) (write_report en opts events)))"

end
