(* ===== verification/ComplianceProperties.thy ===== *)
theory ComplianceProperties
  imports ComplianceReport
begin

text \<open>
  The properties of the compliance report: first the status of a control without its texts, the
  grade of a report from the status of its controls, the windows of a trend as a partition of the
  period, and the greatest time of the events; then what the grade of a SOC 2 report says of the
  log, that the gap analysis and the summaries account for every control, that the windows of a
  trend count every event but those of the last instant, and where the report says something else.
\<close>

section \<open>The status of a control\<close>

named_theorems status_of_control

lemma cr_status_finding [simp]: "cr_status (finding s evidence n linked) = s"
  by (simp add: finding_def)

lemma hasEvents_iff [simp]: "hasEvents d \<longleftrightarrow> rd_events d \<noteq> []"
  by (simp add: hasEvents_def)

lemmas without_texts = Let_def if_distrib [of cr_status] cr_status_finding

lemma CC6_1_status [status_of_control]:
  "cr_status (CC6_1 d) =
    (if rd_events d = [] \<or> rd_fileEvents d = [] then Na
     else if list_ex risk_classified (rd_events d)
       \<and> (with_path (rd_denials d) > 0 \<or> rd_sensitiveFileEvents d \<noteq> []) then Pass else Partial)"
  unfolding CC6_1_def without_texts by auto

lemma CC6_2_status [status_of_control]:
  "cr_status (CC6_2 d) =
    (if rd_events d = [] \<or> rd_commandEvents d = [] then Na
     else if with_command (rd_denials d) > 0 then Pass else Partial)"
  unfolding CC6_2_def without_texts by auto

lemma CC7_1_status [status_of_control]:
  "cr_status (CC7_1 d) = (if rd_events d = [] then Fail else Pass)"
  unfolding CC7_1_def without_texts by auto

lemma CC7_2_status [status_of_control]:
  "cr_status (CC7_2 d) =
    (if rd_events d \<noteq> [] \<and> chain_ok d \<and> chained_of d > 0
     then if ri_sealed (rd_integrity d) then Pass else Partial else Fail)"
  unfolding CC7_2_def without_texts by auto

lemma CC7_3_status [status_of_control]:
  "cr_status (CC7_3 d) =
    (if rd_events d = [] then Na else if \<not> hasPolicy d then Fail
     else if rd_denials d = [] then Partial else Pass)"
  unfolding CC7_3_def without_texts by auto

lemma CC8_1_status [status_of_control]:
  "cr_status (CC8_1 d) =
    (if rd_events d = [] \<or> filter (action_in (file_writes @ [''file_delete''])) (rd_fileEvents d) = []
     then Na else Pass)"
  unfolding CC8_1_def without_texts by auto

lemma Art_12_status [status_of_control]:
  "cr_status (Art_12 d) =
    (if rd_events d = [] then Fail
     else if lifecycle_tracked d \<and> chain_ok d then Pass else Partial)"
  unfolding Art_12_def without_texts by auto

lemma GOVERN_1_1_status [status_of_control]:
  "cr_status (GOVERN_1_1 d) =
    (if rd_events d = [] then Fail
     else if list_all risk_classified (rd_events d) then Pass
     else if list_ex risk_classified (rd_events d) then Partial else Fail)"
proof -
  have all: "length (filter P xs) = length xs \<longleftrightarrow> list_all P xs" for P and xs :: "json list"
  proof (induction xs)
    case (Cons x xs)
    have "length (filter P xs) \<noteq> Suc (length xs)" by (metis Suc_n_not_le_n length_filter_le)
    then show ?case using Cons by auto
  qed simp
  have some: "0 < length (filter P xs) \<longleftrightarrow> list_ex P xs" for P and xs :: "json list"
    by (induction xs) auto
  show ?thesis unfolding GOVERN_1_1_def without_texts all some by auto
qed

section \<open>Grades\<close>

lemma with_status_pos: "with_status s results > 0 \<longleftrightarrow> list_ex (\<lambda>r. cr_status (snd r) = s) results"
  by (induction results) (auto simp: with_status_def)

lemma with_status_sum:
  "with_status Pass rs + with_status Fail rs + with_status Partial rs + with_status Na rs = length rs"
proof (induction rs)
  case (Cons r rs)
  then show ?case by (cases "cr_status (snd r)") (simp_all add: with_status_def)
qed (simp add: with_status_def)

lemma overall_grade_Pass:
  "overall_grade frs = Pass \<longleftrightarrow>
    \<not> status_present Fail frs \<and> \<not> status_present Partial frs \<and> status_present Pass frs"
  by (simp add: overall_grade_def)

text \<open>The grade of one framework's report is that of its summary.\<close>

lemma overall_grade_single:
  "overall_grade [evaluateFramework fw d] = summary_grade (fr_summary (evaluateFramework fw d))"
  by (simp add: overall_grade_def summary_grade_def status_present_def evaluateFramework_def
      with_status_pos Let_def)

lemma present_in_report:
  "status_present s [evaluateFramework fw d] \<longleftrightarrow>
    list_ex (\<lambda>c. cr_status (ct_evaluate c d) = s) (fw_controls fw)"
  by (simp add: status_present_def evaluateFramework_def Let_def list_ex_iff)

lemma control_in_report:
  assumes "c \<in> set (fw_controls fw)" "evaluateFramework fw d \<in> set frs"
  shows "status_present (cr_status (ct_evaluate c d)) frs"
  using assms by (force simp: status_present_def evaluateFramework_def Let_def list_ex_iff)

section \<open>Gaps\<close>

lemma gap_count:
  "length (filter is_gap rs) = with_status Fail rs + with_status Na rs"
proof (induction rs)
  case (Cons r rs)
  then show ?case by (cases "cr_status (snd r)") (simp_all add: with_status_def is_gap_def)
qed (simp add: with_status_def)

section \<open>The windows of a trend\<close>

text \<open>The windows follow each other from the start to the end and none is longer than the period.\<close>

fun consecutive :: "int \<Rightarrow> (int \<times> int) list \<Rightarrow> int \<Rightarrow> bool" where
  "consecutive a [] b \<longleftrightarrow> a = b"
| "consecutive a (w # ws) b \<longleftrightarrow> fst w = a \<and> a < snd w \<and> consecutive (snd w) ws b"

lemma window_bounds_consecutive:
  "0 < ms \<Longrightarrow> start \<le> stop \<Longrightarrow>
    consecutive start (window_bounds ms start stop) stop
    \<and> list_all (\<lambda>w. snd w - fst w \<le> ms) (window_bounds ms start stop)"
proof (induction ms start stop rule: window_bounds.induct)
  case (1 ms start stop)
  then show ?case
    by (cases "start < stop") (auto simp: window_bounds.simps [of ms start stop] window_bounds.simps [of ms stop stop]
        Let_def)
qed

lemma consecutive_le: "consecutive a ws b \<Longrightarrow> a \<le> b"
  by (induction ws arbitrary: a) force+

lemma window_split:
  assumes "a \<le> m" "m \<le> b"
  shows "length (filter (in_window en (a, b)) es)
    = length (filter (in_window en (a, m)) es) + length (filter (in_window en (m, b)) es)"
  using assms by (induction es) (auto simp: in_window_def split: option.splits)

lemma windows_count:
  "consecutive a ws b \<Longrightarrow>
    sum_list (map (\<lambda>w. length (filter (in_window en w) es)) ws) = length (filter (in_window en (a, b)) es)"
proof (induction ws arbitrary: a)
  case Nil
  then show ?case by (auto simp: in_window_def filter_empty_conv split: option.splits)
next
  case (Cons w ws)
  then have "a \<le> snd w" "snd w \<le> b" and w: "w = (a, snd w)"
    using consecutive_le by (auto simp: prod_eq_iff)
  then show ?case using Cons.IH [of "snd w"] Cons.prems window_split [of a "snd w" b en es] by auto
qed

lemma period_ms_pos [simp]: "0 < period_ms period"
  by (simp add: period_ms_def)

section \<open>The period\<close>

lemma fold_closest_min:
  "\<exists>r. fold (\<lambda>e. closer (<) (f e)) es (Some m) = Some r \<and> r \<le> m
     \<and> (\<forall>e \<in> set es. \<forall>t. f e = Some t \<longrightarrow> r \<le> t)"
proof (induction es arbitrary: m)
  case (Cons e es)
  have "\<exists>m'. closer (<) (f e) (Some m) = Some m' \<and> m' \<le> m \<and> (\<forall>t. f e = Some t \<longrightarrow> m' \<le> t)"
    by (cases "f e") (auto simp: closer_def)
  then obtain m' where m': "closer (<) (f e) (Some m) = Some m'" "m' \<le> m"
      "\<forall>t. f e = Some t \<longrightarrow> m' \<le> t" by blast
  then show ?case using Cons [of m'] by fastforce
qed simp

lemma fold_closest_max:
  "\<exists>r. fold (\<lambda>e. closer (>) (f e)) es (Some m) = Some r \<and> m \<le> r
     \<and> (\<forall>e \<in> set es. \<forall>t. f e = Some t \<longrightarrow> t \<le> r)"
proof (induction es arbitrary: m)
  case (Cons e es)
  have "\<exists>m'. closer (>) (f e) (Some m) = Some m' \<and> m \<le> m' \<and> (\<forall>t. f e = Some t \<longrightarrow> t \<le> m')"
    by (cases "f e") (auto simp: closer_def)
  then obtain m' where m': "closer (>) (f e) (Some m) = Some m'" "m \<le> m'"
      "\<forall>t. f e = Some t \<longrightarrow> t \<le> m'" by blast
  then show ?case using Cons [of m'] by fastforce
qed simp

lemma period_of_timed:
  assumes "events \<noteq> []" "list_all (\<lambda>e. event_time en e \<noteq> None) events"
  obtains a b where "period_start en events = Some a" "period_end en events = Some b" "a \<le> b"
    "\<And>e. e \<in> set events \<Longrightarrow> \<exists>t. event_time en e = Some t \<and> a \<le> t \<and> t \<le> b"
proof -
  obtain e es t where es: "events = e # es" "event_time en e = Some t"
    using assms by (cases events) auto
  obtain a where a: "period_start en events = Some a" "a \<le> t"
      "\<forall>x \<in> set es. \<forall>s. event_time en x = Some s \<longrightarrow> a \<le> s"
    using fold_closest_min [of "event_time en" es t] es by (auto simp: period_start_def closer_def)
  obtain b where b: "period_end en events = Some b" "t \<le> b"
      "\<forall>x \<in> set es. \<forall>s. event_time en x = Some s \<longrightarrow> s \<le> b"
    using fold_closest_max [of "event_time en" es t] es by (auto simp: period_end_def closer_def)
  have "\<exists>s. event_time en x = Some s \<and> a \<le> s \<and> s \<le> b" if "x \<in> set events" for x
    using that assms(2) a b es by (auto simp: list_all_iff)
  with a b show thesis using that by fastforce
qed

text \<open>Of timed events, those of the period but its last instant.\<close>

lemma in_whole_period:
  assumes "list_all (\<lambda>e. event_time en e \<noteq> None) events"
    "\<And>e. e \<in> set events \<Longrightarrow> \<exists>t. event_time en e = Some t \<and> a \<le> t \<and> t \<le> b"
  shows "filter (in_window en (a, b)) events = filter (\<lambda>e. event_time en e \<noteq> Some b) events"
  using assms(2) by (intro filter_cong) (force simp: in_window_def)+

lemma report_data_sel [simp]:
  "rd_events (report_data_of en events) = events"
  "rd_periodStart (report_data_of en events) = period_start en events"
  "rd_periodEnd (report_data_of en events) = period_end en events"
  "rd_denials (report_data_of en events) = filter is_denied events"
  "rd_fileEvents (report_data_of en events) = filter is_file_action events"
  "rd_commandEvents (report_data_of en events) = filter (action_in [''command_execute'']) events"
  "rd_sensitiveFileEvents (report_data_of en events)
    = filter (path_matches report_SENSITIVE_PATTERNS) events"
  "rd_integrity (report_data_of en events) =
    (let c = verifyChain (re_hash en) lenient events
     in \<lparr>ri_chainValid = cv_valid c, ri_chainedEvents = cv_chained_events c,
         ri_legacyEvents = cv_legacy_events c, ri_invalidEvents = cv_invalid_schema_events c,
         ri_sealed = re_exists en (SEALS_PATH en), ri_attested = re_exists en (ATTESTATION_PATH en)\<rparr>)"
  by (simp_all add: report_data_of_def categorize_def Let_def)

lemma rd_events_window [simp]:
  "rd_events (window_data en d w) = filter (in_window en w) (rd_events d)"
  by (simp add: window_data_def categorize_def)

section \<open>The parts of a report\<close>

lemmas compliant_controls = status_present_def evaluateFramework_def Let_def status_of_control
  SOC2_CONTROLS_def EU_AI_ACT_CONTROLS_def NIST_AI_RMF_CONTROLS_def

lemma build_report_parts:
  assumes "build_report en opts events = Inr r"
  obtains frs where "map_result (evaluate_named en (report_data_of en events)) (framework_ids opts) = Inr frs"
    "rp_frameworks r = frs" "rp_overallGrade r = overall_grade frs" "rp_data r = report_data_of en events"
    "rp_gaps r = (if op_includeGaps opts then Some (generateGaps frs) else None)"
    "rp_trends r = (if op_includeTrends opts then Some (generateTrends en (report_data_of en events) frs
       (if op_trendPeriod opts = [] then ''daily'' else op_trendPeriod opts)) else None)"
  using assms by (auto simp: build_report_def Let_def bind_result_def split: sum.splits)

lemma hasPolicy_report:
  "hasPolicy (report_data_of en events) \<longleftrightarrow>
    (\<exists>p src. loadActivePolicy (re_loader en) None = Inr (p, src) \<and> src \<noteq> ''built-in'')"
  by (auto simp: hasPolicy_def report_data_of_def categorize_def Let_def report_policy_def
      split: sum.splits)

lemma some_filtered: "length (filter P (filter Q xs)) > 0 \<longleftrightarrow> list_ex (\<lambda>x. Q x \<and> P x) xs"
  "filter Q xs \<noteq> [] \<longleftrightarrow> list_ex Q xs" "filter Q xs = [] \<longleftrightarrow> \<not> list_ex Q xs"
  by (induction xs) auto

lemma soc2_summary:
  "overall_grade [evaluateFramework \<lparr>fw_id = i, fw_name = n, fw_version = v, fw_controls = SOC2_CONTROLS\<rparr> d]
     = Pass \<longleftrightarrow>
    rd_events d \<noteq> [] \<and> chain_ok d \<and> chained_of d > 0 \<and> ri_sealed (rd_integrity d) \<and> hasPolicy d
    \<and> rd_denials d \<noteq> []
    \<and> (rd_fileEvents d = [] \<or> list_ex risk_classified (rd_events d)
         \<and> (with_path (rd_denials d) > 0 \<or> rd_sensitiveFileEvents d \<noteq> []))
    \<and> (rd_commandEvents d = [] \<or> with_command (rd_denials d) > 0)"
  by (auto simp: overall_grade_Pass compliant_controls)

section \<open>What a SOC 2 grade says\<close>

text \<open>
  A SOC 2 report of a log is graded compliant exactly when the log has events, its hash chain
  verifies and links at least one event, a seals file is there, a policy that is not the built-in
  one was loaded, some event was denied, and, where files or commands were used, the events are
  classified and the accesses of that kind were denied or known as sensitive.
\<close>

theorem soc2_compliant_iff:
  assumes "build_report en opts events = Inr r" "op_framework opts = ''soc2''"
  shows "rp_overallGrade r = Pass \<longleftrightarrow>
    events \<noteq> []
    \<and> cv_valid (verifyChain (re_hash en) lenient events)
    \<and> cv_chained_events (verifyChain (re_hash en) lenient events) > 0
    \<and> re_exists en (SEALS_PATH en)
    \<and> (\<exists>p src. loadActivePolicy (re_loader en) None = Inr (p, src) \<and> src \<noteq> ''built-in'')
    \<and> list_ex is_denied events
    \<and> (\<not> list_ex is_file_action events
         \<or> list_ex risk_classified events
           \<and> (list_ex (\<lambda>e. is_denied e \<and> has_target ''path'' e) events
               \<or> list_ex (path_matches report_SENSITIVE_PATTERNS) events))
    \<and> (\<not> list_ex (action_in [''command_execute'']) events
         \<or> list_ex (\<lambda>e. is_denied e \<and> has_target ''command'' e) events)"
proof -
  obtain frs where frs: "map_result (evaluate_named en (report_data_of en events)) [''soc2''] = Inr frs"
    "rp_overallGrade r = overall_grade frs"
    using build_report_parts [OF assms(1)] assms(2) by (auto simp: framework_ids_def)
  have "frs = [evaluateFramework \<lparr>fw_id = ''soc2'', fw_name = ''SOC 2 Type II'', fw_version = ''2017'',
      fw_controls = SOC2_CONTROLS\<rparr> (report_data_of en events)]"
    using frs(1) by (simp add: evaluate_named_def FRAMEWORKS_def bind_result_def)
  then show ?thesis
    unfolding frs(2) by (simp add: soc2_summary hasPolicy_report Let_def some_filtered with_path_def
        with_command_def)
qed


section \<open>Every control is accounted for\<close>

lemma map_result_members:
  "map_result f xs = Inr ys \<Longrightarrow> y \<in> set ys \<Longrightarrow> \<exists>x \<in> set xs. f x = Inr y"
  "map_result f xs = Inr ys \<Longrightarrow> x \<in> set xs \<Longrightarrow> \<exists>y \<in> set ys. f x = Inr y"
  by (induction xs arbitrary: ys) (auto simp: result_simps)

lemma evaluated_named:
  "evaluate_named en d i = Inr fr \<longleftrightarrow>
    (\<exists>fw. map_of (FRAMEWORKS (re_hostname en)) i = Some fw \<and> fr = evaluateFramework fw d)"
  by (auto simp: evaluate_named_def split: option.splits)

lemma report_frameworks:
  assumes "build_report en opts events = Inr r" "fr \<in> set (rp_frameworks r)"
  obtains i fw where "(i, fw) \<in> set (FRAMEWORKS (re_hostname en))" "fr = evaluateFramework fw (report_data_of en events)"
proof -
  obtain i where "evaluate_named en (report_data_of en events) i = Inr fr"
  proof (rule build_report_parts [OF assms(1)])
    fix frs
    assume "map_result (evaluate_named en (report_data_of en events)) (framework_ids opts) = Inr frs"
      "rp_frameworks r = frs"
    then show thesis using map_result_members(1) [of _ _ frs fr] that assms(2) by blast
  qed
  then show thesis using that map_of_SomeD by (fastforce simp: evaluated_named)
qed

lemma registry_controls:
  "map fst REMEDIATIONS = concat (map (map ct_id \<circ> fw_controls \<circ> snd) (FRAMEWORKS host))"
proof -
  have "map fst REMEDIATIONS = map ct_id SOC2_CONTROLS @ map ct_id ISO27001_CONTROLS
    @ map ct_id EU_AI_ACT_CONTROLS @ map ct_id (GDPR_CONTROLS host) @ map ct_id NIST_AI_RMF_CONTROLS
    @ map ct_id HIPAA_CONTROLS @ map ct_id PCI_DSS_CONTROLS"
    unfolding REMEDIATIONS_def list.map fst_conv
    by (simp only: SOC2_CONTROLS_def ISO27001_CONTROLS_def EU_AI_ACT_CONTROLS_def GDPR_CONTROLS_def
        NIST_AI_RMF_CONTROLS_def HIPAA_CONTROLS_def PCI_DSS_CONTROLS_def list.map control.select_convs
        append_Cons append_Nil)
  then show ?thesis
    by (simp only: FRAMEWORKS_def list.map comp_apply snd_conv framework.select_convs concat.simps append_Nil2)
qed

lemma registry_remediated:
  assumes "(i, fw) \<in> set (FRAMEWORKS host)" "c \<in> set (fw_controls fw)"
  shows "ct_id c \<in> set (map fst REMEDIATIONS)"
  unfolding registry_controls [of host] using assms by force

text \<open>
  The summary of every framework of a report counts each of its controls in exactly one status, and
  the gap analysis lists one gap for each control that failed or did not apply, each with a
  remediation of its own and never the default.
\<close>

theorem gaps_complete:
  assumes "build_report en opts events = Inr r" "rp_gaps r = Some gs"
  shows "length gs = sum_list (map (\<lambda>fr. su_fail (fr_summary fr) + su_na (fr_summary fr)) (rp_frameworks r))
    \<and> (\<forall>fr \<in> set (rp_frameworks r). let s = fr_summary fr
         in su_pass s + su_fail s + su_partial s + su_na s = length (fw_controls (fr_framework fr)))
    \<and> (\<forall>g \<in> set gs. map_of REMEDIATIONS (gp_controlId g) = Some (gp_remediation g, gp_effort g))"
proof (intro conjI ballI)
  have gs: "gs = generateGaps (rp_frameworks r)"
    using build_report_parts [OF assms(1)] assms(2) by (metis option.distinct(1) option.inject)
  have one: "\<exists>i fw. (i, fw) \<in> set (FRAMEWORKS (re_hostname en)) \<and> fr = evaluateFramework fw (report_data_of en events)"
    if "fr \<in> set (rp_frameworks r)" for fr
    using report_frameworks [OF assms(1) that] by metis
  have "length (filter is_gap (fr_results fr)) = su_fail (fr_summary fr) + su_na (fr_summary fr)"
    if "fr \<in> set (rp_frameworks r)" for fr
    using one [OF that] by (auto simp: evaluateFramework_def Let_def gap_count)
  then show "length gs = sum_list (map (\<lambda>fr. su_fail (fr_summary fr) + su_na (fr_summary fr)) (rp_frameworks r))"
    by (simp add: gs generateGaps_def length_concat comp_def cong: map_cong)
  show "let s = fr_summary fr
      in su_pass s + su_fail s + su_partial s + su_na s = length (fw_controls (fr_framework fr))"
    if "fr \<in> set (rp_frameworks r)" for fr
    using one [OF that] with_status_sum by (auto simp: evaluateFramework_def Let_def)
  show "map_of REMEDIATIONS (gp_controlId g) = Some (gp_remediation g, gp_effort g)" if gap: "g \<in> set gs" for g
  proof -
    obtain fr x where g: "fr \<in> set (rp_frameworks r)" "x \<in> set (fr_results fr)" "g = gap_of (fr_framework fr) x"
      using gap by (auto simp: gs generateGaps_def)
    define c where "c = fst x"
    obtain i fw where "(i, fw) \<in> set (FRAMEWORKS (re_hostname en))" "c \<in> set (fw_controls fw)"
      using one [OF g(1)] g(2) by (auto simp: evaluateFramework_def Let_def c_def)
    then have "ct_id c \<in> fst ` set REMEDIATIONS" using registry_remediated by (metis set_map)
    then obtain y where "map_of REMEDIATIONS (ct_id c) = Some y"
      by (metis map_of_eq_None_iff not_None_eq)
    then show ?thesis by (simp add: g(3) gap_of_def remediation_of_def Let_def c_def)
  qed
qed

section \<open>The windows of a trend\<close>

text \<open>
  The windows of a trend follow each other from the first time to the last, none longer than the
  period asked for, and together they count every event but those of the last instant, which no
  window holds.
\<close>

theorem trend_windows_partition:
  assumes "build_report en opts events = Inr r" "rp_trends r = Some ts" "t \<in> set ts"
    and "events \<noteq> []" "list_all (\<lambda>e. event_time en e \<noteq> None) events"
  shows "\<exists>a b ws. period_start en events = Some a \<and> period_end en events = Some b
    \<and> map (\<lambda>w. (tw_start w, tw_end w)) (td_windows t) = map (\<lambda>w. (re_iso en (fst w), re_iso en (snd w))) ws
    \<and> consecutive a ws b \<and> list_all (\<lambda>w. snd w - fst w \<le> period_ms (td_period t)) ws
    \<and> sum_list (map tw_events (td_windows t)) = length (filter (\<lambda>e. event_time en e \<noteq> Some b) events)"
proof -
  let ?d = "report_data_of en events"
  obtain frs period where ts: "ts = generateTrends en ?d frs period"
    using build_report_parts [OF assms(1)] assms(2) by (metis option.distinct(1) option.inject)
  obtain a b where ab: "period_start en events = Some a" "period_end en events = Some b" "a \<le> b"
    "\<And>e. e \<in> set events \<Longrightarrow> \<exists>t. event_time en e = Some t \<and> a \<le> t \<and> t \<le> b"
    by (rule period_of_timed [OF assms(4,5)]) blast
  define ws where "ws = window_bounds (period_ms period) a b"
  obtain fw where t: "t = \<lparr>td_frameworkId = fw_id fw, td_period = period, td_windows = map (window_of en ?d fw) ws\<rparr>"
    using assms(3) ab(1,2) by (auto simp: ts generateTrends_def period_windows_def ws_def)
  have ws: "consecutive a ws b" "list_all (\<lambda>w. snd w - fst w \<le> period_ms period) ws"
    using window_bounds_consecutive [OF period_ms_pos ab(3)] by (simp_all add: ws_def)
  have "sum_list (map tw_events (td_windows t)) = sum_list (map (\<lambda>w. length (filter (in_window en w) events)) ws)"
    by (simp add: t window_of_def Let_def comp_def)
  also have "\<dots> = length (filter (\<lambda>e. event_time en e \<noteq> Some b) events)"
    using windows_count [OF ws(1), of en events] in_whole_period [OF assms(5) ab(4)] by simp
  finally have count: "sum_list (map tw_events (td_windows t))
      = length (filter (\<lambda>e. event_time en e \<noteq> Some b) events)" .
  have "map (\<lambda>w. (tw_start w, tw_end w)) (td_windows t) = map (\<lambda>w. (re_iso en (fst w), re_iso en (snd w))) ws"
    by (simp add: t window_of_def Let_def comp_def)
  then show ?thesis using ab(1,2) ws count by (intro exI [of _ a] exI [of _ b] exI [of _ ws]) (simp add: t)
qed

section \<open>Where the report says something else\<close>

text \<open>
  The report of one session verifies the chain of the events that were picked: each of them has its
  right hash, and yet the chain is reported broken where another session wrote in between.
\<close>

lemma session_report_breaks_chain:
  assumes "\<forall>x \<in> {a, c}. he_schema e x \<and> truthy_json (event_hash x) \<and> hash_matches e x"
    and "prev_hash c \<noteq> Some (or_null (event_hash a))"
  shows "ei_valid (verifyEventHashes e lenient [a, c]) \<and> \<not> cv_valid (verifyChain e lenient [a, c])"
  using assms
  by (simp add: verifyChain_def chain_state0_def chain_step_def check_link_def check_hash_def cv_fail_def
      lenient_def Let_def verifyEventHashes_def)

text \<open>
  A report of all frameworks is graded compliant only with the start of a session among its events
  and every event above the level none, which the classifier gives to every start of a session.
\<close>

lemma named_frameworks:
  "map_of (FRAMEWORKS host) ''eu-ai-act'' = Some \<lparr>fw_id = ''eu-ai-act'', fw_name = ''EU AI Act'',
     fw_version = ''2024'', fw_controls = EU_AI_ACT_CONTROLS\<rparr>"
  "map_of (FRAMEWORKS host) ''nist-ai-rmf'' = Some \<lparr>fw_id = ''nist-ai-rmf'', fw_name = ''NIST AI RMF'',
     fw_version = ''1.0'', fw_controls = NIST_AI_RMF_CONTROLS\<rparr>"
  by (simp_all add: FRAMEWORKS_def)

lemma known_names: "''eu-ai-act'' \<in> set FRAMEWORK_IDS" "''nist-ai-rmf'' \<in> set FRAMEWORK_IDS"
  by (simp_all add: FRAMEWORK_IDS_def FRAMEWORKS_def)

lemma all_grade_needs:
  assumes "build_report en opts events = Inr r" "op_framework opts = ''all''" "rp_overallGrade r = Pass"
  shows "\<exists>e \<in> set events. field_str e ''action'' = ''session_start'' \<and> risk_level_of e \<noteq> ''none''"
proof -
  let ?d = "report_data_of en events"
  obtain frs where frs: "map_result (evaluate_named en ?d) FRAMEWORK_IDS = Inr frs" "overall_grade frs = Pass"
  proof (rule build_report_parts [OF assms(1)])
    fix frs
    assume "map_result (evaluate_named en ?d) (framework_ids opts) = Inr frs" "rp_overallGrade r = overall_grade frs"
    then show thesis using that [of frs] assms(2,3) by (simp only: framework_ids_def if_True simp_thms)
  qed
  have evaluated: "evaluateFramework fw ?d \<in> set frs"
    if fw: "i \<in> set FRAMEWORK_IDS" "map_of (FRAMEWORKS (re_hostname en)) i = Some fw" for i fw
  proof -
    obtain fr where "fr \<in> set frs" "evaluate_named en ?d i = Inr fr"
      using map_result_members(2) [OF frs(1) fw(1)] by blast
    then show ?thesis using fw(2) by (simp add: evaluate_named_def)
  qed
  have clean: "cr_status (ct_evaluate c ?d) \<notin> {Fail, Partial}"
    if "i \<in> set FRAMEWORK_IDS" "map_of (FRAMEWORKS (re_hostname en)) i = Some fw" "c \<in> set (fw_controls fw)" for i fw c
    using control_in_report [OF that(3) evaluated [OF that(1,2)]] frs(2) by (auto simp: overall_grade_Pass)
  have "cr_status (Art_12 ?d) \<notin> {Fail, Partial}"
    using clean [OF known_names(1) named_frameworks(1), of "hd EU_AI_ACT_CONTROLS"]
    by (simp only: EU_AI_ACT_CONTROLS_def framework.select_convs list.sel list.set_intros control.select_convs simp_thms)
  then have "lifecycle_tracked ?d" by (simp add: Art_12_status split: if_splits)
  moreover have "cr_status (GOVERN_1_1 ?d) \<notin> {Fail, Partial}"
    using clean [OF known_names(2) named_frameworks(2), of "hd NIST_AI_RMF_CONTROLS"]
    by (simp only: NIST_AI_RMF_CONTROLS_def framework.select_convs list.sel list.set_intros control.select_convs simp_thms)
  then have "list_all risk_classified events" by (simp add: GOVERN_1_1_status split: if_splits)
  ultimately show ?thesis
    by (auto simp: lifecycle_tracked_def list_ex_iff list_all_iff action_in_def risk_classified_def)
qed

lemma session_start_unclassified: "risk_of (classifyRisk e ''session_start'' t) = RNone"
  by (simp add: classifyRisk_def starts_with_def)

text \<open>A name that every object inherits is taken for a framework, and its evaluation throws.\<close>

lemma inherited_framework_throws:
  "known_framework en ''constructor'' \<and> (\<exists>x. evaluate_named en d ''constructor'' = Inl x)"
  by (simp add: known_framework_def inherited_names_def evaluate_named_def FRAMEWORKS_def)

end
