(* ===== verification/TrustStore.thy ===== *)
theory TrustStore
  imports Json TaintSnapshot Sensitive
begin

text \<open>
  The user's trusted repositories, \<^verbatim>\<open>packages/agents/src/claude-code/trust-store.ts\<close>, and the trust
  of a path that is read (\<open>readPathIsUntrusted\<close> and \<open>mergeTrustedPaths\<close> of \<^verbatim>\<open>adapter.ts\<close>). The
  third-party YAML parse of the existing file is an argument: \<open>None\<close> where the file is missing or
  does not parse.
\<close>

fun is_object :: "json \<Rightarrow> bool" where
  "is_object (JObj ms) \<longleftrightarrow> True"
| "is_object (JArr vs) \<longleftrightarrow> True"
| "is_object _ \<longleftrightarrow> False"

fun object_values :: "json \<Rightarrow> json list" where
  "object_values (JObj ms) = map snd ms"
| "object_values (JArr vs) = vs"
| "object_values _ = []"

fun is_string_array :: "json option \<Rightarrow> bool" where
  "is_string_array (Some (JArr vs)) \<longleftrightarrow> list_all (\<lambda>v. case v of JStr s \<Rightarrow> True | _ \<Rightarrow> False) vs"
| "is_string_array _ \<longleftrightarrow> False"

definition isTrustStore :: "json \<Rightarrow> bool" where
  "isTrustStore v \<longleftrightarrow>
    is_object v \<and> json_get v ''schema_version'' = Some (JNum 1)
    \<and> (case json_get v ''repos'' of
         None \<Rightarrow> False
       | Some repos \<Rightarrow>
           is_object repos
           \<and> list_all (\<lambda>repo. is_object repo \<and> is_string_array (json_get repo ''trusted_paths''))
               (object_values repos))"

definition empty_trust_store :: json where
  "empty_trust_store = JObj [(''schema_version'', JNum 1), (''repos'', JObj [])]"

definition loadTrustStore :: "json option \<Rightarrow> json" where
  "loadTrustStore parsed =
    (case parsed of Some v \<Rightarrow> if isTrustStore v then v else empty_trust_store
     | None \<Rightarrow> empty_trust_store)"

definition strings_of :: "json option \<Rightarrow> string list" where
  "strings_of v =
    (case v of
       Some (JArr vs) \<Rightarrow> List.map_filter (\<lambda>w. case w of JStr s \<Rightarrow> Some s | _ \<Rightarrow> None) vs
     | _ \<Rightarrow> [])"

text \<open>\<open>store.repos[repoRoot]?.trusted_paths ?? []\<close>; an inherited value has no such member.\<close>

definition getTrustedPathsForRepo :: "json option \<Rightarrow> string \<Rightarrow> string list" where
  "getTrustedPathsForRepo parsed repoRoot =
    (case json_get (loadTrustStore parsed) ''repos'' of
       None \<Rightarrow> []
     | Some repos \<Rightarrow>
         (case json_get repos repoRoot of
            None \<Rightarrow> [] | Some entry \<Rightarrow> strings_of (json_get entry ''trusted_paths'')))"

definition mergeTrustedPaths :: "json option \<Rightarrow> string list \<Rightarrow> string \<Rightarrow> string list" where
  "mergeTrustedPaths parsed systemTrusted cwd =
    uniq (systemTrusted @ getTrustedPathsForRepo parsed cwd)"

text \<open>\<open>readPathIsUntrusted\<close>, with the trusted paths of the active policy.\<close>

definition readPathIsUntrusted ::
  "(string \<Rightarrow> string \<Rightarrow> bool) \<Rightarrow> json option \<Rightarrow> string list \<Rightarrow> string \<Rightarrow> string \<Rightarrow> bool" where
  "readPathIsUntrusted isMatch parsed policy_trusted path cwd \<longleftrightarrow>
    (let repoRelative = (if starts_with path (cwd @ ''/'') then drop (length cwd + 1) path else path);
         matchGlob = (\<lambda>candidate pattern.
           if isMatch candidate pattern then True
           else if candidate = path \<and> isMatch repoRelative pattern then True else False)
     in isPathUntrustedRepo matchGlob FORCE_UNTRUSTED_PATTERNS cwd
          (mergeTrustedPaths parsed policy_trusted cwd) path)"

section \<open>Facts\<close>

text \<open>
  A trusted path is under the working directory, matches a trusted pattern of the policy or the
  user, and no pattern of the forced list.
\<close>

lemma trusted_read_iff:
  "\<not> readPathIsUntrusted isMatch parsed pt path cwd \<longleftrightarrow>
    (let rel = (if starts_with path (cwd @ ''/'') then drop (length cwd + 1) path else path);
         hit = (\<lambda>pat. isMatch path pat \<or> isMatch rel pat)
     in starts_with path cwd
        \<and> (\<exists>pat \<in> set pt \<union> set (getTrustedPathsForRepo parsed cwd). hit pat)
        \<and> (\<forall>pat \<in> set FORCE_UNTRUSTED_PATTERNS. \<not> hit pat))"
proof -
  define ms where "ms = mergeTrustedPaths parsed pt cwd"
  have ms: "set ms = set pt \<union> set (getTrustedPathsForRepo parsed cwd)"
    by (simp add: ms_def mergeTrustedPaths_def)
  show ?thesis
    unfolding readPathIsUntrusted_def isPathUntrustedRepo_def Let_def ms_def [symmetric] ms [symmetric]
    by (cases ms) (auto simp: list_ex_iff)
qed

end
