(* ===== verification/ApprovalStore.thy ===== *)
theory ApprovalStore
  imports HashChain
begin

text \<open>
  Approvals, \<^verbatim>\<open>packages/agents/src/claude-code/approval-store.ts\<close>. The state is the approvals
  directory as the listing gives it: the names, each with the value its text parses to, \<open>None\<close> for
  a file that cannot be read or parsed; the directory may be missing. The random identifiers and
  the clock are arguments, the digest is a parameter, and a predicate tells which files can be
  removed. Identifiers have no slash, so a file's name is its path.
\<close>

type_synonym approval_files = "(string \<times> json option) list"

definition DEFAULT_APPROVAL_TTL_MS :: int where
  "DEFAULT_APPROVAL_TTL_MS = 5 * 60 * 1000"

record key_input =
  ki_session :: string
  ki_tool :: string
  ki_target :: string

definition key_text :: "key_input \<Rightarrow> string" where
  "key_text i = ki_session i @ CHR 0x00 # ki_tool i @ CHR 0x00 # ki_target i"

definition canonicalKey :: "(string \<Rightarrow> string) \<Rightarrow> key_input \<Rightarrow> string" where
  "canonicalKey sha i = sha (key_text i)"

definition pendingPathFor :: "string \<Rightarrow> string" where
  "pendingPathFor requestId = requestId @ ''.pending.json''"

definition approvedPathFor :: "string \<Rightarrow> string" where
  "approvedPathFor requestId = requestId @ ''.approved.json''"

definition remove_file :: "string \<Rightarrow> approval_files \<Rightarrow> approval_files" where
  "remove_file f d = filter (\<lambda>p. fst p \<noteq> f) d"

definition dir_files :: "approval_files option \<Rightarrow> approval_files" where
  "dir_files d = (case d of None \<Rightarrow> [] | Some fs \<Rightarrow> fs)"

section \<open>Requests and tokens\<close>

record pending_args =
  pa_key :: key_input
  pa_summary :: "string option"
  pa_reason :: string
  pa_rule :: string

definition pending_request ::
  "(string \<Rightarrow> string) \<Rightarrow> string \<Rightarrow> string \<Rightarrow> pending_args \<Rightarrow> json" where
  "pending_request sha request_id created_at a =
    JObj [(''schema_version'', JNum 1), (''request_id'', JStr request_id),
      (''canonical_key'', JStr (canonicalKey sha (pa_key a))),
      (''session_id'', JStr (ki_session (pa_key a))), (''tool_name'', JStr (ki_tool (pa_key a))),
      (''target_summary'',
         JStr (case pa_summary a of Some s \<Rightarrow> s | None \<Rightarrow> take 120 (ki_target (pa_key a)))),
      (''reason'', JStr (pa_reason a)), (''rule'', JStr (pa_rule a)),
      (''created_at'', JStr created_at)]"

definition writePendingRequest ::
  "(string \<Rightarrow> string) \<Rightarrow> string \<Rightarrow> string \<Rightarrow> pending_args \<Rightarrow> approval_files option
   \<Rightarrow> approval_files option \<times> json" where
  "writePendingRequest sha request_id created_at a d =
    (let req = pending_request sha request_id created_at a in
     (Some (obj_set (pendingPathFor request_id) (Some req) (dir_files d)), req))"

text \<open>The fields of a parsed file: a number, and a string.\<close>

definition number_field :: "json \<Rightarrow> string \<Rightarrow> int option" where
  "number_field v k = (case json_get v k of Some (JNum i) \<Rightarrow> Some i | _ \<Rightarrow> None)"

definition string_field :: "json \<Rightarrow> string \<Rightarrow> string option" where
  "string_field v k = (case json_get v k of Some (JStr s) \<Rightarrow> Some s | _ \<Rightarrow> None)"

definition readPendingRequest :: "approval_files option \<Rightarrow> string \<Rightarrow> json option" where
  "readPendingRequest d requestId =
    (case map_of (dir_files d) (pendingPathFor requestId) of
       Some (Some v) \<Rightarrow>
         if number_field v ''schema_version'' = Some 1 \<and> string_field v ''request_id'' \<noteq> None
            \<and> string_field v ''canonical_key'' \<noteq> None
         then Some v else None
     | _ \<Rightarrow> None)"

text \<open>A member copied from the request, left out where it is undefined there.\<close>

definition copied :: "json \<Rightarrow> string \<Rightarrow> (string \<times> json) list" where
  "copied v k = (case json_get v k of None \<Rightarrow> [] | Some w \<Rightarrow> [(k, w)])"

definition approved_token :: "json \<Rightarrow> string \<Rightarrow> int \<Rightarrow> json" where
  "approved_token pending approved_at expires =
    JObj ((''schema_version'', JNum 1) # copied pending ''request_id'' @ copied pending ''canonical_key''
      @ copied pending ''session_id'' @ copied pending ''tool_name''
      @ [(''approved_at'', JStr approved_at), (''expires_at_ms'', JNum expires)])"

definition request_name :: "json \<Rightarrow> string" where
  "request_name pending = (case string_field pending ''request_id'' of Some s \<Rightarrow> s | None \<Rightarrow> [])"

definition writeApprovedToken ::
  "(string \<Rightarrow> bool) \<Rightarrow> int \<Rightarrow> string \<Rightarrow> int \<Rightarrow> json \<Rightarrow> approval_files option
   \<Rightarrow> approval_files option \<times> json" where
  "writeApprovedToken removable now approved_at ttlMs pending d =
    (let tok = approved_token pending approved_at (now + ttlMs);
         d1 = obj_set (approvedPathFor (request_name pending)) (Some tok) (dir_files d);
         p = pendingPathFor (request_name pending)
     in (Some (if removable p then remove_file p d1 else d1), tok))"

text \<open>The loop of \<open>consumeApprovedToken\<close> over the listed names.\<close>

definition token_live :: "string \<Rightarrow> int \<Rightarrow> json \<Rightarrow> bool" where
  "token_live key now tok \<longleftrightarrow>
    number_field tok ''schema_version'' = Some 1 \<and> string_field tok ''canonical_key'' = Some key
    \<and> (case number_field tok ''expires_at_ms'' of None \<Rightarrow> False | Some x \<Rightarrow> x > now)"

definition token_expired :: "int \<Rightarrow> json \<Rightarrow> bool" where
  "token_expired now tok \<longleftrightarrow>
    (case number_field tok ''expires_at_ms'' of None \<Rightarrow> False | Some x \<Rightarrow> x \<le> now)"

fun consume_loop ::
  "(string \<Rightarrow> bool) \<Rightarrow> int \<Rightarrow> string \<Rightarrow> string list \<Rightarrow> approval_files
   \<Rightarrow> approval_files \<times> json option" where
  "consume_loop removable now key [] d = (d, None)"
| "consume_loop removable now key (f # fs) d =
     (if \<not> ends_with f ''.approved.json'' then consume_loop removable now key fs d
      else
        (case map_of d f of
           Some (Some tok) \<Rightarrow>
             if token_live key now tok then
               (if removable f then (remove_file f d, Some tok) else (d, None))
             else if token_expired now tok then
               consume_loop removable now key fs (if removable f then remove_file f d else d)
             else consume_loop removable now key fs d
         | _ \<Rightarrow> consume_loop removable now key fs d))"

definition consumeApprovedToken ::
  "(string \<Rightarrow> bool) \<Rightarrow> int \<Rightarrow> string \<Rightarrow> approval_files option \<Rightarrow> approval_files option \<times> json option"
where
  "consumeApprovedToken removable now key d =
    (case d of
       None \<Rightarrow> (None, None)
     | Some fs \<Rightarrow>
         (let r = consume_loop removable now key (map fst fs) fs in (Some (fst r), snd r)))"

definition listPendingRequests :: "approval_files option \<Rightarrow> json list" where
  "listPendingRequests d =
    List.map_filter
      (\<lambda>p. if ends_with (fst p) ''.pending.json'' then
             (case snd p of
                Some v \<Rightarrow> if number_field v ''schema_version'' = Some 1 then Some v else None
              | None \<Rightarrow> None)
           else None)
      (dir_files d)"

section \<open>Facts\<close>

text \<open>The key separates session, tool and target where the first two have no zero byte.\<close>

lemma split_at_zero:
  assumes "a @ CHR 0x00 # b = a' @ CHR 0x00 # b'" "CHR 0x00 \<notin> set a" "CHR 0x00 \<notin> set a'"
  shows "a = a' \<and> b = b'"
proof -
  have "takeWhile (\<lambda>c. c \<noteq> CHR 0x00) (x @ CHR 0x00 # y) = x"
    "dropWhile (\<lambda>c. c \<noteq> CHR 0x00) (x @ CHR 0x00 # y) = CHR 0x00 # y" if "CHR 0x00 \<notin> set x" for x y
    using that by (induction x) auto
  from this [OF assms(2), of b] this [OF assms(3), of b'] show ?thesis
    unfolding assms(1) by (simp only: list.inject)
qed

lemma key_text_inject:
  assumes "key_text i = key_text j"
    and "CHR 0x00 \<notin> set (ki_session i) \<union> set (ki_tool i) \<union> set (ki_session j) \<union> set (ki_tool j)"
  shows "i = j"
proof -
  have "ki_session i = ki_session j"
    and r: "ki_tool i @ CHR 0x00 # ki_target i = ki_tool j @ CHR 0x00 # ki_target j"
    using split_at_zero [OF assms(1) [unfolded key_text_def]] assms(2) by auto
  moreover have "ki_tool i = ki_tool j \<and> ki_target i = ki_target j"
    using split_at_zero [OF r] assms(2) by blast
  ultimately show ?thesis by simp
qed

lemma map_of_remove_file [simp]: "map_of (remove_file f d) g = (if g = f then None else map_of d g)"
  by (induction d) (auto simp: remove_file_def)

text \<open>The files whose token would be accepted.\<close>

definition live_files :: "string \<Rightarrow> int \<Rightarrow> approval_files \<Rightarrow> string set" where
  "live_files key now d =
    {f. ends_with f ''.approved.json'' \<and> (\<exists>tok. map_of d f = Some (Some tok) \<and> token_live key now tok)}"

lemma finite_live: "finite (live_files key now d)"
  by (rule finite_subset [of _ "dom (map_of d)"]) (auto simp: live_files_def finite_dom_map_of)

lemma live_not_expired: "token_live key now tok \<Longrightarrow> \<not> token_expired now tok"
  by (auto simp: token_live_def token_expired_def split: option.splits)

lemma live_remove: "live_files key now (remove_file f d) = live_files key now d - {f}"
  by (auto simp: live_files_def)

lemma live_remove_expired:
  "map_of d f = Some (Some tok) \<Longrightarrow> token_expired now tok
   \<Longrightarrow> live_files key now (remove_file f d) = live_files key now d"
  using live_not_expired by (auto simp: live_files_def)

text \<open>One name of the listing: its token is live, or the loop goes on past it.\<close>

lemma consume_step:
  obtains (hit) tok where "f \<in> live_files key now d" "map_of d f = Some (Some tok)"
      "consume_loop removable now key (f # fs) d
       = (if removable f then (remove_file f d, Some tok) else (d, None))"
  | (skip) d1 where "f \<notin> live_files key now d"
      "consume_loop removable now key (f # fs) d = consume_loop removable now key fs d1"
      "live_files key now d1 = live_files key now d"
      "\<And>g t. map_of d1 g = Some t \<Longrightarrow> map_of d g = Some t"
proof (cases "ends_with f ''.approved.json''")
  case False
  then show thesis by (intro skip [of d]) (auto simp: live_files_def)
next
  case True
  consider "map_of d f = None" | "map_of d f = Some None" | v where "map_of d f = Some (Some v)"
    by (metis not_None_eq)
  then show thesis
  proof cases
    case 1
    with True show thesis by (intro skip [of d]) (auto simp: live_files_def)
  next
    case 2
    with True show thesis by (intro skip [of d]) (auto simp: live_files_def)
  next
    case (3 v)
    show thesis
    proof (cases "token_live key now v")
      case live: True
      with True 3 show thesis by (intro hit [of v]) (auto simp: live_files_def)
    next
      case dead: False
      with True 3 live_remove_expired [OF 3] show thesis
        by (intro skip [of "if token_expired now v \<and> removable f then remove_file f d else d"])
          (auto simp: live_files_def split: if_splits)
    qed
  qed
qed

text \<open>
  A token that is returned was live and its file is gone; nothing else that was live is touched.
  Where nothing is returned, nothing live is touched.
\<close>

lemma consume_loop_Some:
  "consume_loop removable now key fs d = (d', Some tok) \<Longrightarrow>
   \<exists>f. f \<in> live_files key now d \<and> map_of d f = Some (Some tok)
     \<and> live_files key now d' = live_files key now d - {f}"
proof (induction fs arbitrary: d)
  case (Cons f fs)
  show ?case
  proof (cases rule: consume_step [where f = f and key = key and now = now and d = d
        and removable = removable and fs = fs])
    case (hit v)
    with Cons.prems show ?thesis
      by (intro exI [of _ f]) (simp add: live_remove split: if_splits)
  next
    case (skip d1)
    with Cons.IH [of d1] Cons.prems show ?thesis by auto
  qed
qed simp

lemma consume_loop_None:
  "consume_loop removable now key fs d = (d', None) \<Longrightarrow> live_files key now d' = live_files key now d
   \<and> (set fs \<inter> live_files key now d \<noteq> {} \<longrightarrow> (\<exists>g \<in> live_files key now d. \<not> removable g))"
proof (induction fs arbitrary: d)
  case (Cons f fs)
  show ?case
  proof (cases rule: consume_step [where f = f and key = key and now = now and d = d
        and removable = removable and fs = fs])
    case (hit v)
    with Cons.prems show ?thesis by (auto split: if_splits)
  next
    case (skip d1)
    with Cons.IH [of d1] Cons.prems show ?thesis by auto
  qed
qed simp

definition live_tokens :: "string \<Rightarrow> int \<Rightarrow> approval_files option \<Rightarrow> nat" where
  "live_tokens key now d = card (live_files key now (dir_files d))"

lemma consume_Some_spends:
  assumes "consumeApprovedToken removable now key d = (d', Some tok)"
  shows "token_live key now tok" "live_tokens key now d = Suc (live_tokens key now d')"
proof -
  obtain fs where d: "d = Some fs" using assms by (cases d) (auto simp: consumeApprovedToken_def)
  have c: "consume_loop removable now key (map fst fs) fs = (dir_files d', Some tok)"
    using assms by (cases "consume_loop removable now key (map fst fs) fs")
      (auto simp: d consumeApprovedToken_def Let_def dir_files_def)
  from consume_loop_Some [OF c] obtain f where f: "f \<in> live_files key now fs"
    "map_of fs f = Some (Some tok)" "live_files key now (dir_files d') = live_files key now fs - {f}"
    by blast
  then show "token_live key now tok" by (auto simp: live_files_def)
  show "live_tokens key now d = Suc (live_tokens key now d')"
    unfolding live_tokens_def f(3) using card.remove [OF finite_live f(1)] by (simp add: d dir_files_def)
qed

lemma consume_None_keeps:
  assumes "consumeApprovedToken removable now key d = (d', None)"
  shows "live_tokens key now d' = live_tokens key now d"
    and "(\<And>f. removable f) \<Longrightarrow> live_tokens key now d = 0"
proof -
  have *: "live_tokens key now d' = live_tokens key now d \<and> ((\<forall>f. removable f) \<longrightarrow> live_tokens key now d = 0)"
  proof (cases d)
    case None
    then show ?thesis using assms
      by (auto simp: consumeApprovedToken_def live_tokens_def dir_files_def live_files_def)
  next
    case (Some fs)
    have c: "consume_loop removable now key (map fst fs) fs = (dir_files d', None)"
      using assms by (cases "consume_loop removable now key (map fst fs) fs")
        (auto simp: Some consumeApprovedToken_def Let_def dir_files_def)
    have "live_files key now fs \<subseteq> set (map fst fs)"
      by (force simp: live_files_def dest: map_of_SomeD)
    then have "live_files key now fs = {}" if "\<forall>f. removable f"
      using consume_loop_None [OF c] that by blast
    moreover have "live_files key now (dir_files d') = live_files key now fs"
      using consume_loop_None [OF c] by blast
    ultimately show ?thesis by (auto simp: live_tokens_def Some dir_files_def)
  qed
  then show "live_tokens key now d' = live_tokens key now d" by simp
  show "(\<And>f. removable f) \<Longrightarrow> live_tokens key now d = 0" using * by simp
qed

text \<open>Attempts one after the other, each at its own time, with one key.\<close>

fun attempts :: "(string \<Rightarrow> bool) \<Rightarrow> string \<Rightarrow> int list \<Rightarrow> approval_files option \<Rightarrow> nat" where
  "attempts removable key [] d = 0"
| "attempts removable key (now # ts) d =
     (let r = consumeApprovedToken removable now key d in
      (if snd r = None then 0 else 1) + attempts removable key ts (fst r))"

text \<open>Time only expires tokens.\<close>

lemma live_later: "now \<le> later \<Longrightarrow> live_files key later d \<subseteq> live_files key now d"
  by (auto simp: live_files_def token_live_def split: option.splits)

lemma live_tokens_later: "now \<le> later \<Longrightarrow> live_tokens key later d \<le> live_tokens key now d"
  unfolding live_tokens_def by (intro card_mono finite_live live_later)

lemma attempts_bounded:
  "sorted (now # ts) \<Longrightarrow> attempts removable key (now # ts) d \<le> live_tokens key now d"
proof (induction ts arbitrary: now d)
  case Nil
  show ?case
    using consume_Some_spends [of removable now key d] by (cases "consumeApprovedToken removable now key d") auto
next
  case (Cons t ts)
  obtain d' v where c: "consumeApprovedToken removable now key d = (d', v)" by force
  have "attempts removable key (t # ts) d' \<le> live_tokens key t d'" using Cons by simp
  also have "\<dots> \<le> live_tokens key now d'" using Cons.prems by (intro live_tokens_later) simp
  finally show ?case
    using consume_Some_spends [of removable now key d] consume_None_keeps(1) [of removable now key d]
    by (cases v) (auto simp: c simp del: attempts.simps(2) simp: attempts.simps(2) [of _ _ now])
qed

text \<open>An approved request is there for the retry.\<close>

lemma approved_token_live:
  assumes "readPendingRequest d i = Some pending" "0 < ttl"
    and "string_field pending ''canonical_key'' = Some key"
  shows "token_live key now (approved_token pending at (now + ttl))"
  using assms(2,3)
  by (auto simp: token_live_def number_field_def string_field_def approved_token_def copied_def
      split: option.splits json.splits)

end
