(* ===== verification/HookAdapter.thy ===== *)
theory HookAdapter
  imports CommitHook AuditEvents TrustStore TaintStore ApprovalStore PolicyLoader PreToolDecision ShellCombos
    SinkClassify ShellTree
begin

text \<open>
  The hook handlers, \<^verbatim>\<open>packages/agents/src/claude-code/adapter.ts\<close>. The state \<open>world\<close> is what the
  processes of the hook share: the taint directory, the approvals directory, the audit log and the
  commit attestations. An
  \<open>hook_env\<close> is the environment of one hook process: configuration, third-party matchers and
  parsers, the clock, fresh identifiers, and which input and output succeeds. Not modelled: the
  second copies of an event (SQLite, relay, webhook), whose failures are swallowed.
\<close>

record world =
  w_taint :: taint_fs
  w_approvals :: "approval_files option"
  w_log :: "audit_event list"
  w_commits :: commit_store

record hook_env =
  hk_event :: event_env
  hk_loader :: loader_env
  hk_url :: "string \<Rightarrow> url_parts option"
  hk_regex :: "string \<Rightarrow> string \<Rightarrow> bool option"
  hk_sink_glob :: "string \<Rightarrow> string \<Rightarrow> bool"
  hk_home :: string
  hk_cli :: cli_env
  hk_store :: store_env
  hk_sha :: "string \<Rightarrow> string"
  hk_trusted :: "json option"
  hk_now :: int
  hk_new_session :: string
  hk_request_id :: string
  hk_removable :: "string \<Rightarrow> bool"
  hk_append_ok :: bool
  hk_request_ok :: bool
  hk_marker_ok :: bool
  hk_write_ok :: bool
  hk_commit :: commit_env
  hk_query_ok :: bool

datatype hook_output = NoOutput | NoObjection | DenyOutput string | Feedback string

definition policy_env_of :: "hook_env \<Rightarrow> policy_env" where
  "policy_env_of e =
    \<lparr>pv_paths = ee_paths (hk_event e), pv_url = hk_url e, pv_regex = hk_regex e\<rparr>"

definition tool_name :: "hook_input \<Rightarrow> string" where
  "tool_name inp = (case str_or (hi_tool_name inp) None of Some n \<Rightarrow> n | None \<Rightarrow> ''unknown'')"

definition tool_input :: "hook_input \<Rightarrow> json" where
  "tool_input inp =
    (case hi_tool_input inp of
       Some v \<Rightarrow> if truthy_json (Some v) then v else JObj [] | None \<Rightarrow> JObj [])"

section \<open>Writing the log\<close>

text \<open>An event whose idempotency key is in the log is not written again.\<close>

definition already_logged :: "audit_event \<Rightarrow> audit_event list \<Rightarrow> bool" where
  "already_logged ev evs \<longleftrightarrow>
    truthy (ae_idempotency_key ev) \<and> ae_idempotency_key ev \<in> set (map ae_idempotency_key evs)"

definition append_event :: "hook_env \<Rightarrow> audit_event \<Rightarrow> world \<Rightarrow> world \<times> unit result" where
  "append_event e ev w =
    (if \<not> hk_append_ok e then (w, Inl (Thrown ''event log append failed''))
     else if already_logged ev (w_log w) then (w, Inr ())
     else (w\<lparr>w_log := w_log w @ [ev]\<rparr>, Inr ()))"

definition log_then :: "hook_env \<Rightarrow> audit_event \<Rightarrow> 'a \<Rightarrow> world \<Rightarrow> world \<times> 'a result" where
  "log_then e ev out w =
    (let r = append_event e ev w
     in (fst r, bind_result (snd r) (\<lambda>u. Inr out)))"

section \<open>Approval targets\<close>

definition approvalTargetForAdapter :: "string \<Rightarrow> target \<Rightarrow> hook_input \<Rightarrow> string" where
  "approvalTargetForAdapter toolName t inp =
    (if toolName = ''Bash'' then
       (case asString (json_get (tool_input inp) ''command'') of Some c \<Rightarrow> c | None \<Rightarrow> [])
     else
       (case str_or (tg_path t) (str_or (tg_abs_path t) (str_or (tg_url t) (str_or (tg_command t)
               (str_or (tg_tool_name t) None)))) of
          Some s \<Rightarrow> s | None \<Rightarrow> toolName))"

definition shortTargetSummary :: "string \<Rightarrow> string" where
  "shortTargetSummary t = (if length t \<le> 120 then t else take 117 t @ ''...'')"

section \<open>Taint and sinks\<close>

definition fail_closed_source :: taint_source where
  "fail_closed_source =
    \<lparr>sts = 0, sref = ''patchwork:fail-closed-synthetic'',
     shash = ''sha256:fail-closed-synthetic'', scleared = None\<rparr>"

definition syntheticTaintForFailClosed :: "string \<Rightarrow> taint_snapshot" where
  "syntheticTaintForFailClosed sid =
    \<lparr>session_id = sid, by_kind = map (\<lambda>k. (kind_key k, [fail_closed_source])) ALL_TAINT_KINDS,
     generated_files = []\<rparr>"

definition target_paths :: "target \<Rightarrow> string list" where
  "target_paths t =
    (case str_or (tg_path t) None of None \<Rightarrow> [] | Some p \<Rightarrow> [p])
    @ (case str_or (tg_abs_path t) None of
         None \<Rightarrow> [] | Some p \<Rightarrow> if tg_abs_path t \<noteq> tg_path t then [p] else [])"

text \<open>The command of a Bash call that is parsed: a nonempty string.\<close>

definition bash_command :: "string \<Rightarrow> hook_input \<Rightarrow> string option" where
  "bash_command toolName inp =
    (if toolName = ''Bash'' then str_or (asString (json_get (tool_input inp) ''command'')) None
     else None)"

definition parse_bash :: "string \<Rightarrow> hook_input \<Rightarrow> parsed_command option result" where
  "parse_bash toolName inp =
    (case bash_command toolName inp of
       None \<Rightarrow> Inr None
     | Some cmd \<Rightarrow> bind_result (parseShellCommand cmd) (\<lambda>c. Inr (Some c)))"

definition sink_matches ::
  "hook_env \<Rightarrow> string \<Rightarrow> target \<Rightarrow> string \<Rightarrow> taint_snapshot option \<Rightarrow> parsed_command option
   \<Rightarrow> sink_match list" where
  "sink_matches e toolName t sid snapshot cmd =
    classifyToolEvent (hk_sink_glob e) (hk_home e)
      \<lparr>ev_tool = toolName, ev_target_paths = target_paths t, ev_resolved_paths = target_paths t,
       ev_taint_state = Some (case snapshot of Some s \<Rightarrow> s | None \<Rightarrow> syntheticTaintForFailClosed sid)\<rparr>
    @ (case cmd of
         None \<Rightarrow> []
       | Some c \<Rightarrow> classifyDangerousShellCombos (hk_cli e) c (effective_taint snapshot))"

definition computeTaintSinkDecision ::
  "hook_env \<Rightarrow> hook_input \<Rightarrow> string \<Rightarrow> target \<Rightarrow> policy_decision \<Rightarrow> world \<Rightarrow> decision result" where
  "computeTaintSinkDecision e inp toolName t pd w =
    (let sid = (if hi_session_id inp = [] then hk_new_session e else hi_session_id inp);
         snapshot = readTaintSnapshot (hk_store e) (w_taint w) sid
     in bind_result (parse_bash toolName inp) (\<lambda>cmd.
          Inr (decidePreToolUse
                 \<lparr>in_policy = pd, in_matches = sink_matches e toolName t sid snapshot cmd,
                  in_command = cmd, in_taint = snapshot\<rparr>)))"

section \<open>Before a tool runs\<close>

definition pre_event :: "hook_env \<Rightarrow> hook_input \<Rightarrow> mapped_action \<Rightarrow> event_status \<Rightarrow> audit_event" where
  "pre_event e inp mp st =
    buildEvent (hk_event e) inp
      \<lparr>pe_action = ma_action mp, pe_status = Some st, pe_target = Some (ma_target mp),
       pe_content = None,
       pe_provenance = Some \<lparr>pv_hook_event = ''PreToolUse'', pv_tool_name = tool_name inp\<rparr>\<rparr>"

definition action_key :: "hook_input \<Rightarrow> target \<Rightarrow> key_input" where
  "action_key inp t =
    \<lparr>ki_session = hi_session_id inp, ki_tool = tool_name inp,
     ki_target = approvalTargetForAdapter (tool_name inp) t inp\<rparr>"

definition deny_text :: "decision \<Rightarrow> string option \<Rightarrow> string" where
  "deny_text d pendingId =
    (if dverdict d = ApprovalV then ''[Patchwork] approval required'' else ''[Patchwork] denied'')
    @ '': '' @ dreason d @ '' (rule: '' @ rule_name (drule d) @ '')''
    @ (case pendingId of
         None \<Rightarrow> []
       | Some i \<Rightarrow> [newline] @ ''  Ask the human user to run '' @ [CHR 0x60] @ ''patchwork approve '' @ i
           @ [CHR 0x60] @ '' in their own terminal, then retry.'')"

text \<open>A verdict that is not allow: an approved token is spent, or a request is left.\<close>

definition approval_step ::
  "hook_env \<Rightarrow> hook_input \<Rightarrow> mapped_action \<Rightarrow> decision \<Rightarrow> world \<Rightarrow> world \<times> hook_output result" where
  "approval_step e inp mp d w =
    (let key = action_key inp (ma_target mp);
         c = consumeApprovedToken (hk_removable e) (hk_now e) (canonicalKey (hk_sha e) key)
               (w_approvals w);
         w1 = w\<lparr>w_approvals := fst c\<rparr>
     in if snd c \<noteq> None then log_then e (pre_event e inp mp Completed) NoObjection w1
        else
          (let p = writePendingRequest (hk_sha e) (hk_request_id e) (ee_now_iso (hk_event e))
                     \<lparr>pa_key = key, pa_summary = Some (shortTargetSummary (ki_target key)),
                      pa_reason = dreason d, pa_rule = rule_name (drule d)\<rparr> (w_approvals w1);
               w2 = (if hk_request_ok e then w1\<lparr>w_approvals := fst p\<rparr> else w1);
               i = (if hk_request_ok e then Some (hk_request_id e) else None)
           in log_then e (pre_event e inp mp Denied) (DenyOutput (deny_text d i)) w2))"

definition policy_decision_for :: "hook_env \<Rightarrow> mapped_action \<Rightarrow> policy \<Rightarrow> rule_decision" where
  "policy_decision_for e mp p =
    evaluatePolicy (policy_env_of e) p
      \<lparr>ei_action = ma_action mp,
       ei_risk_level =
         risk_name (risk_of (classifyRisk (ee_paths (hk_event e)) (ma_action mp) (Some (ma_target mp)))),
       ei_target = Some (ma_target mp), ei_cwd = None\<rparr>"

definition handlePreToolUse :: "hook_env \<Rightarrow> hook_input \<Rightarrow> world \<Rightarrow> world \<times> hook_output result" where
  "handlePreToolUse e inp w =
    (let mp = mapClaudeCodeTool (tool_name inp) (tool_input inp);
         deny = (\<lambda>why. log_then e (pre_event e inp mp Denied) (DenyOutput (''[Patchwork] '' @ why)) w)
     in case ma_malformed mp of
          Some why \<Rightarrow> deny (''malformed tool input: '' @ why)
        | None \<Rightarrow>
            (case loadActivePolicy (hk_loader e) (Some (hi_cwd inp)) of
               Inl x \<Rightarrow> (w, Inl x)
             | Inr (policy, source) \<Rightarrow>
                 (let rd = policy_decision_for e mp policy in
                  if \<not> rd_allowed rd then deny (rd_reason rd)
                  else
                    (case computeTaintSinkDecision e inp (tool_name inp) (ma_target mp)
                            \<lparr>pd_allowed = rd_allowed rd, pd_reason = Some (rd_reason rd)\<rparr> w of
                       Inl x \<Rightarrow> deny (''enforcement layer error (fail-closed): '' @ error_text x)
                     | Inr d \<Rightarrow>
                         if dverdict d \<noteq> AllowV then approval_step e inp mp d w
                         else (w, Inr NoObjection)))))"

end
