(* ===== verification/HookPost.thy ===== *)
theory HookPost
  imports HookAdapter
begin

text \<open>
  After a tool has run, and the dispatch of the hook events, \<^verbatim>\<open>adapter.ts\<close>: which taint a call
  raises, the folding of it into the session's snapshot under the session's lock, and the
  handlers of the remaining events.
\<close>

section \<open>The taint a call raises\<close>

definition taintKindsForTool :: "string \<Rightarrow> taint_kind list lookup" where
  "taintKindsForTool toolName =
    (if starts_with toolName ''mcp__'' then RAISES_FOR_TOOL ''mcp:'' else RAISES_FOR_TOOL toolName)"

definition pickSourceRef :: "string \<Rightarrow> target \<Rightarrow> string" where
  "pickSourceRef toolName t =
    (case str_or (tg_path t) (str_or (tg_abs_path t) (str_or (tg_url t) (str_or (tg_command t)
            (str_or (tg_tool_name t) None)))) of
       Some s \<Rightarrow> s | None \<Rightarrow> toolName)"

fun indicator_taint :: "indicator_kind \<Rightarrow> taint_kind list" where
  "indicator_taint FetchTool = [NetworkContent, Prompt]"
| "indicator_taint SecretPath = [Secret, Prompt]"
| "indicator_taint InterpreterInlineEval = [Prompt]"
| "indicator_taint _ = []"

definition bashIndicatorTaint :: "parsed_command \<Rightarrow> taint_kind list" where
  "bashIndicatorTaint root =
    uniq (concat (map (\<lambda>i. indicator_taint (ikind i))
      (concat (map sink_indicators (stack_walk [root])))))"

text \<open>The kinds of the table, narrowed for \<open>Read\<close>.\<close>

definition read_kinds :: "hook_env \<Rightarrow> hook_input \<Rightarrow> target \<Rightarrow> taint_kind list \<Rightarrow> taint_kind list result" where
  "read_kinds e inp t ks =
    (let base = filter (\<lambda>k. k \<noteq> Secret) ks in
     case (if Prompt \<in> set base then str_or (tg_abs_path t) (str_or (tg_path t) None) else None) of
       None \<Rightarrow> Inr base
     | Some readPath \<Rightarrow>
         bind_result (loadActivePolicy (hk_loader e) (Some (hi_cwd inp))) (\<lambda>(policy, source).
           Inr (if \<not> readPathIsUntrusted (\<lambda>p g. pe_match (ee_paths (hk_event e)) p g) (hk_trusted e)
                     (po_trusted_paths policy) readPath (hi_cwd inp)
                then filter (\<lambda>k. k \<noteq> Prompt) base else base)))"

definition base_kinds :: "hook_env \<Rightarrow> hook_input \<Rightarrow> target \<Rightarrow> taint_kind list result" where
  "base_kinds e inp t =
    (case taintKindsForTool (tool_name inp) of
       Own ks \<Rightarrow> if tool_name inp = ''Read'' then read_kinds e inp t ks else Inr ks
     | Undefined \<Rightarrow> Inr []
     | Inherited \<Rightarrow> Inl (TypeError ''baseKinds is not iterable''))"

definition raised_kinds :: "hook_env \<Rightarrow> hook_input \<Rightarrow> target \<Rightarrow> taint_kind list result" where
  "raised_kinds e inp t =
    bind_result (base_kinds e inp t) (\<lambda>base.
      bind_result (parse_bash (tool_name inp) inp) (\<lambda>cmd.
        let bash = (case cmd of None \<Rightarrow> [] | Some c \<Rightarrow> bashIndicatorTaint c)
        in Inr (base @ filter (\<lambda>k. k \<notin> set base) bash)))"

section \<open>Folding it into the snapshot\<close>

text \<open>\<open>r?.output || r?.content || r?.stdout || ""\<close>, as a nonempty string.\<close>

definition response_text :: "json option \<Rightarrow> string option" where
  "response_text r =
    (let f = (\<lambda>k. case r of None \<Rightarrow> None | Some v \<Rightarrow> json_get v k);
         pick = (if truthy_json (f ''output'') then f ''output''
                 else if truthy_json (f ''content'') then f ''content''
                 else if truthy_json (f ''stdout'') then f ''stdout'' else None)
     in str_or (asString pick) None)"

definition new_source :: "hook_env \<Rightarrow> hook_input \<Rightarrow> target \<Rightarrow> taint_source" where
  "new_source e inp t =
    \<lparr>sts = hk_now e, sref = pickSourceRef (tool_name inp) t,
     shash = ''sha256:'' @ hk_sha e
       (case response_text (hi_tool_response inp) of
          Some s \<Rightarrow> s
        | None \<Rightarrow> ''tool:'' @ tool_name inp @ '':'' @ print_int (hk_now e)),
     scleared = None\<rparr>"

text \<open>One kind: the operation on the snapshot, if it changes anything.\<close>

definition kind_op :: "target \<Rightarrow> taint_source \<Rightarrow> taint_kind \<Rightarrow> taint_snapshot \<Rightarrow> taint_op option" where
  "kind_op t src k s =
    (if k = GeneratedFile then
       (case str_or (tg_abs_path t) (str_or (tg_path t) None) of
          None \<Rightarrow> None
        | Some path \<Rightarrow>
            (let upstream = concat (map (getActiveSources s) ALL_TAINT_KINDS) in
             if upstream = [] then None else Some (Generate path upstream)))
     else Some (Register k src))"

fun fold_kinds ::
  "target \<Rightarrow> taint_source \<Rightarrow> taint_kind list \<Rightarrow> taint_snapshot \<times> bool \<Rightarrow> (taint_snapshot \<times> bool) result"
where
  "fold_kinds t src [] st = Inr st"
| "fold_kinds t src (k # ks) st =
     (case kind_op t src k (fst st) of
        None \<Rightarrow> fold_kinds t src ks st
      | Some p \<Rightarrow> bind_result (apply_op p (fst st)) (\<lambda>s. fold_kinds t src ks (s, True)))"

definition doFoldedUpdate ::
  "hook_env \<Rightarrow> hook_input \<Rightarrow> target \<Rightarrow> string \<Rightarrow> taint_kind list \<Rightarrow> taint_fs \<Rightarrow> taint_fs \<times> unit result"
where
  "doFoldedUpdate e inp t sid kinds fs =
    (case fold_kinds t (new_source e inp t) kinds (loadOrInitSnapshot (hk_store e) fs sid, False) of
       Inl x \<Rightarrow> (fs, Inl x)
     | Inr (s, changed) \<Rightarrow>
         if \<not> changed then (fs, Inr ())
         else commit_snapshot (hk_store e) (hk_marker_ok e) (hk_write_ok e) sid s fs)"

definition updateTaintSnapshotForPostTool ::
  "hook_env \<Rightarrow> hook_input \<Rightarrow> target \<Rightarrow> taint_fs \<Rightarrow> taint_fs \<times> unit result" where
  "updateTaintSnapshotForPostTool e inp t fs =
    (case raised_kinds e inp t of
       Inl x \<Rightarrow> (fs, Inl x)
     | Inr kinds \<Rightarrow>
         if kinds = [] then (fs, Inr ())
         else
           (let sid = (if hi_session_id inp = [] then hk_new_session e else hi_session_id inp) in
            withSessionLock (hk_store e) (hk_now e) sid (doFoldedUpdate e inp t sid kinds) fs))"

section \<open>Handlers\<close>

definition response_content :: "hook_env \<Rightarrow> json option \<Rightarrow> event_content option" where
  "response_content e r =
    map_option (\<lambda>s. \<lparr>ec_hash = ''sha256:'' @ hk_sha e s, ec_size_bytes = Some (length s)\<rparr>)
      (response_text r)"

definition post_event :: "hook_env \<Rightarrow> hook_input \<Rightarrow> event_status \<Rightarrow> audit_event" where
  "post_event e inp st =
    (let mp = mapClaudeCodeTool (tool_name inp) (tool_input inp) in
     buildEvent (hk_event e) inp
       \<lparr>pe_action = ma_action mp, pe_status = Some st, pe_target = Some (ma_target mp),
        pe_content = response_content e (hi_tool_response inp),
        pe_provenance = Some \<lparr>pv_hook_event = hi_event_name inp, pv_tool_name = tool_name inp\<rparr>\<rparr>)"

text \<open>
  The event, then the taint, whose errors are swallowed, then the attestation of a commit.
\<close>

definition handlePostToolUse ::
  "hook_env \<Rightarrow> hook_input \<Rightarrow> event_status \<Rightarrow> world \<Rightarrow> world \<times> hook_output result" where
  "handlePostToolUse e inp st w =
    (let t = ma_target (mapClaudeCodeTool (tool_name inp) (tool_input inp));
         r = append_event e (post_event e inp st) w
     in case snd r of
          Inl x \<Rightarrow> (fst r, Inl x)
        | Inr u \<Rightarrow>
            (let w1 = (fst r)\<lparr>w_taint := fst (updateTaintSnapshotForPostTool e inp t (w_taint (fst r)))\<rparr>;
                 c = commit_attestation_step (hk_commit e) (hk_loader e) inp (tool_name inp) (tool_input inp) st
                       (session_query (cm_log (hk_commit e)) (hk_query_ok e) (hi_session_id inp) (w_log w1))
                       (w_commits w1)
             in (w1\<lparr>w_commits := fst c\<rparr>,
                 Inr (case snd c of None \<Rightarrow> NoOutput | Some f \<Rightarrow> Feedback f))))"

definition plain_event :: "hook_env \<Rightarrow> hook_input \<Rightarrow> string \<Rightarrow> target option \<Rightarrow> audit_event" where
  "plain_event e inp action t =
    buildEvent (hk_event e) inp
      \<lparr>pe_action = action, pe_status = None, pe_target = t, pe_content = None, pe_provenance = None\<rparr>"

definition handleSessionStart :: "hook_env \<Rightarrow> hook_input \<Rightarrow> world \<Rightarrow> world \<times> hook_output result" where
  "handleSessionStart e inp = log_then e (plain_event e inp ''session_start'' None) NoOutput"

definition handleSessionEnd :: "hook_env \<Rightarrow> hook_input \<Rightarrow> world \<Rightarrow> world \<times> hook_output result" where
  "handleSessionEnd e inp = log_then e (plain_event e inp ''session_end'' None) NoOutput"

text \<open>The prompt is recorded by its hash; its size where that is configured.\<close>

definition handlePromptSubmit ::
  "bool \<Rightarrow> hook_env \<Rightarrow> hook_input \<Rightarrow> world \<Rightarrow> world \<times> hook_output result" where
  "handlePromptSubmit capture e inp =
    log_then e
      (buildEvent (hk_event e) inp
        \<lparr>pe_action = ''prompt_submit'', pe_status = None, pe_target = Some (empty_target ''prompt''),
         pe_content = map_option (\<lambda>p. \<lparr>ec_hash = ''sha256:'' @ hk_sha e p,
             ec_size_bytes = (if capture then Some (length p) else None)\<rparr>)
           (str_or (hi_prompt inp) None),
         pe_provenance = None\<rparr>) NoOutput"

definition handleSubagent ::
  "string \<Rightarrow> hook_env \<Rightarrow> hook_input \<Rightarrow> world \<Rightarrow> world \<times> hook_output result" where
  "handleSubagent action e inp =
    log_then e
      (plain_event e inp action (Some ((empty_target ''prompt'')\<lparr>tg_tool_name := hi_subagent_type inp\<rparr>)))
      NoOutput"

definition handleClaudeCodeHook ::
  "bool \<Rightarrow> hook_env \<Rightarrow> hook_input \<Rightarrow> world \<Rightarrow> world \<times> hook_output result" where
  "handleClaudeCodeHook capture e inp w =
    (let ev = hi_event_name inp in
     if ev = ''SessionStart'' then handleSessionStart e inp w
     else if ev = ''SessionEnd'' then handleSessionEnd e inp w
     else if ev = ''UserPromptSubmit'' then handlePromptSubmit capture e inp w
     else if ev = ''PreToolUse'' then handlePreToolUse e inp w
     else if ev = ''PostToolUse'' then handlePostToolUse e inp Completed w
     else if ev = ''PostToolUseFailure'' then handlePostToolUse e inp Failed w
     else if ev = ''SubagentStart'' then handleSubagent ''subagent_start'' e inp w
     else if ev = ''SubagentStop'' then handleSubagent ''subagent_stop'' e inp w
     else (w, Inr NoOutput))"

end
