(* ===== verification/HookProperties.thy ===== *)
theory HookProperties
  imports HookPost CommitProperties ShellProperties
begin

text \<open>
  The hook handlers end to end: when a tool call gets no objection, that doubt denies, that an
  approval is spent once, that the log only grows, and what a finished call adds to the taint.
\<close>

section \<open>Before a tool\<close>

definition mapped :: "hook_input \<Rightarrow> mapped_action" where
  "mapped inp = mapClaudeCodeTool (tool_name inp) (tool_input inp)"

lemma log_then_objects: "snd (log_then e ev out w) = Inr out' \<Longrightarrow> out' = out"
  by (auto simp: log_then_def Let_def bind_result_eq_Inr)

lemma log_then_approvals: "w_approvals (fst (log_then e ev out w)) = w_approvals w"
  by (simp add: log_then_def append_event_def Let_def)

text \<open>How a call may get no objection.\<close>

definition judged :: "hook_env \<Rightarrow> hook_input \<Rightarrow> world \<Rightarrow> decision \<Rightarrow> bool" where
  "judged e inp w d \<longleftrightarrow>
    ma_malformed (mapped inp) = None
    \<and> (\<exists>policy source. loadActivePolicy (hk_loader e) (Some (hi_cwd inp)) = Inr (policy, source)
        \<and> rd_allowed (policy_decision_for e (mapped inp) policy)
        \<and> computeTaintSinkDecision e inp (tool_name inp) (ma_target (mapped inp))
             \<lparr>pd_allowed = True, pd_reason = Some (rd_reason (policy_decision_for e (mapped inp) policy))\<rparr> w
           = Inr d)"

lemma handle_cases:
  assumes "handlePreToolUse e inp w = (w', Inr NoObjection)"
  shows "\<exists>d. judged e inp w d
    \<and> (if dverdict d = AllowV then w' = w
       else approval_step e inp (mapped inp) d w = (w', Inr NoObjection))"
proof -
  have deny: "log_then e ev (DenyOutput t) w \<noteq> (w', Inr NoObjection)" for ev t
  proof
    assume "log_then e ev (DenyOutput t) w = (w', Inr NoObjection)"
    then have "snd (log_then e ev (DenyOutput t) w) = Inr NoObjection" by simp
    from log_then_objects [OF this] show False by simp
  qed
  show ?thesis
    using assms deny
    by (auto simp: handlePreToolUse_def mapped_def [symmetric] judged_def Let_def
        split: option.splits sum.splits if_splits)
qed

text \<open>An approval step that ends without objection has spent one token; any other keeps them.\<close>

lemma write_pending_live:
  "live_tokens key now (fst (writePendingRequest sha i at a d)) = live_tokens key now d"
proof -
  have n: "\<not> ends_with (pendingPathFor i) ''.approved.json''"
    by (simp add: ends_with_def pendingPathFor_def starts_with_def)
  show ?thesis
    unfolding live_tokens_def
    by (rule arg_cong [where f = card])
      (use n in \<open>auto simp: writePendingRequest_def Let_def live_files_def dir_files_def split: if_splits\<close>)
qed

definition spent :: "world \<Rightarrow> world \<Rightarrow> hook_env \<Rightarrow> hook_input \<Rightarrow> nat \<Rightarrow> bool" where
  "spent w w' e inp n \<longleftrightarrow>
    (let key = canonicalKey (hk_sha e) (action_key inp (ma_target (mapped inp)))
     in live_tokens key (hk_now e) (w_approvals w) = live_tokens key (hk_now e) (w_approvals w') + n)"

lemma approval_step_spends:
  assumes "approval_step e inp (mapped inp) d w = (w', r)"
  shows "r = Inr NoObjection \<and> spent w w' e inp 1 \<or> r \<noteq> Inr NoObjection \<and> (spent w w' e inp 0 \<or> spent w w' e inp 1)"
proof -
  define key where "key = canonicalKey (hk_sha e) (action_key inp (ma_target (mapped inp)))"
  obtain a v where c: "consumeApprovedToken (hk_removable e) (hk_now e) key (w_approvals w) = (a, v)"
    by force
  show ?thesis
  proof (cases v)
    case None
    then have "live_tokens key (hk_now e) a = live_tokens key (hk_now e) (w_approvals w)"
      using consume_None_keeps(1) c by simp
    moreover have "r \<noteq> Inr NoObjection"
      using assms c None
      by (auto simp: approval_step_def key_def [symmetric] Let_def log_then_def append_event_def
          split: if_splits)
    moreover have "live_tokens key (hk_now e) (w_approvals w') = live_tokens key (hk_now e) a"
      using assms c None
      by (auto simp: approval_step_def key_def [symmetric] Let_def log_then_def append_event_def
          write_pending_live split: if_splits)
    ultimately show ?thesis by (simp add: spent_def key_def [symmetric])
  next
    case (Some tok)
    then have "live_tokens key (hk_now e) (w_approvals w) = Suc (live_tokens key (hk_now e) a)"
      using consume_Some_spends(2) c by simp
    moreover have "w_approvals w' = a"
      using assms c Some
      by (auto simp: approval_step_def key_def [symmetric] Let_def log_then_def append_event_def
          split: if_splits)
    ultimately show ?thesis by (auto simp: spent_def key_def [symmetric])
  qed
qed

lemma no_objection_spends:
  assumes "handlePreToolUse e inp w = (w', Inr NoObjection)"
  shows "\<exists>d. judged e inp w d \<and> (if dverdict d = AllowV then w' = w else spent w w' e inp 1)"
proof -
  from handle_cases [OF assms] obtain d where d: "judged e inp w d"
    "if dverdict d = AllowV then w' = w else approval_step e inp (mapped inp) d w = (w', Inr NoObjection)"
    by blast
  with approval_step_spends [of e inp d w w' "Inr NoObjection"] show ?thesis
    by (intro exI [of _ d]) (auto split: if_splits)
qed

text \<open>
  C1: a tool call that gets no objection was well formed, the active policy allowed it, and the
  enforcement layer judged it without error; then either its verdict is allow and nothing changed,
  or exactly one approved, unexpired token for this very session, tool and target was spent.
\<close>

theorem no_objection_justified:
  assumes "handlePreToolUse e inp w = (w', Inr NoObjection)"
  shows "\<exists>d. judged e inp w d \<and> (if dverdict d = AllowV then w' = w else spent w w' e inp 1)"
  by (rule no_objection_spends [OF assms])

text \<open>
  C3: the enforcement fails closed: when the tool input is malformed, or the policy refuses, or the
  enforcement layer throws (a command nested too deeply for the parser, say), and the log can be
  written, the answer is a denial.
\<close>

theorem enforcement_fails_closed:
  assumes "hk_append_ok e"
    and "ma_malformed (mapped inp) \<noteq> None
      \<or> (\<exists>policy source. loadActivePolicy (hk_loader e) (Some (hi_cwd inp)) = Inr (policy, source)
          \<and> (\<not> rd_allowed (policy_decision_for e (mapped inp) policy)
              \<or> (\<forall>pd. \<exists>x. computeTaintSinkDecision e inp (tool_name inp) (ma_target (mapped inp)) pd w = Inl x)))"
  shows "\<exists>msg. snd (handlePreToolUse e inp w) = Inr (DenyOutput msg)"
proof -
  have deny: "snd (log_then e ev (DenyOutput t) w) = Inr (DenyOutput t)" for ev t
    using assms(1) by (simp add: log_then_def append_event_def)
  show ?thesis
  proof (cases "ma_malformed (mapped inp)")
    case (Some why)
    then show ?thesis by (simp add: handlePreToolUse_def mapped_def [symmetric] deny)
  next
    case None
    with assms(2) obtain policy source where p:
      "loadActivePolicy (hk_loader e) (Some (hi_cwd inp)) = Inr (policy, source)"
      "\<not> rd_allowed (policy_decision_for e (mapped inp) policy)
       \<or> (\<forall>pd. \<exists>x. computeTaintSinkDecision e inp (tool_name inp) (ma_target (mapped inp)) pd w = Inl x)"
      by blast
    show ?thesis
    proof (cases "rd_allowed (policy_decision_for e (mapped inp) policy)")
      case False
      then show ?thesis using None p(1) by (simp add: handlePreToolUse_def mapped_def [symmetric] deny Let_def)
    next
      case True
      with p(2) obtain x where "computeTaintSinkDecision e inp (tool_name inp) (ma_target (mapped inp))
        \<lparr>pd_allowed = True, pd_reason = Some (rd_reason (policy_decision_for e (mapped inp) policy))\<rparr> w = Inl x"
        by blast
      then show ?thesis
        using None p(1) True by (simp add: handlePreToolUse_def mapped_def [symmetric] deny Let_def)
    qed
  qed
qed

lemma judged_bash:
  assumes "judged e inp w d" "bash_command (tool_name inp) inp = Some cmd" "parseShellCommand cmd = Inr root"
  shows "\<exists>i. d = decidePreToolUse i
    \<and> set (classifyDangerousShellCombos (hk_cli e) root (effective_taint (in_taint i))) \<subseteq> set (in_matches i)"
  using assms by (auto simp: judged_def computeTaintSinkDecision_def parse_bash_def sink_matches_def Let_def)

text \<open>
  C2: from the command line to the answer: a Bash call whose command is a pipeline of quoted plain
  commands, and that pipes into a shell interpreter or runs an administrative command of the tool
  itself, gets no objection only by spending an approval for this very command, whatever the
  policy and the taint. A plain command does not begin with a word that runs another command (sudo,
  nice, timeout, env, command, exec, nohup, stdbuf), gives an interpreter no text by -c, and is not
  named as a member that every object inherits; commands behind sudo and its like are outside the
  claim, and with flags they are indeed missed.
\<close>

theorem dangerous_bash_needs_approval:
  assumes "bash_command (tool_name inp) inp = Some (quote_pipeline (ws # wss))"
    and "list_all plain_argv (ws # wss)"
    and "wss \<noteq> [] \<and> last_segment (to_lower (hd (last wss))) \<in> set INTERPRETER_NAMES
      \<or> (\<exists>us \<in> set (ws # wss). basenameOf (hd us) = ''patchwork'' \<and> 2 \<le> length us \<and> us ! 1 \<in> set ADMIN_CLI_VERBS)"
    and "handlePreToolUse e inp w = (w', Inr NoObjection)"
  shows "spent w w' e inp 1"
proof -
  from no_objection_spends [OF assms(4)] obtain d where d: "judged e inp w d"
    "if dverdict d = AllowV then w' = w else spent w w' e inp 1" by blast
  have "dverdict d \<noteq> AllowV"
    using assms(3)
  proof
    assume p: "wss \<noteq> [] \<and> last_segment (to_lower (hd (last wss))) \<in> set INTERPRETER_NAMES"
    then obtain root where root: "parseShellCommand (quote_pipeline (ws # wss)) = Inr root"
      using piped_flagged [OF assms(2)] by blast
    obtain i where i: "d = decidePreToolUse i"
      "set (classifyDangerousShellCombos (hk_cli e) root (effective_taint (in_taint i))) \<subseteq> set (in_matches i)"
      using judged_bash [OF d(1) assms(1) root] by blast
    obtain m where "m \<in> set (in_matches i)" "mseverity m = severityFor (effective_taint (in_taint i))"
      using piped_flagged [OF assms(2), of "hk_cli e" "effective_taint (in_taint i)"] p root i(2) by auto
    then show ?thesis unfolding i(1) verdict_allow_iff severityFor_def by (auto split: if_splits)
  next
    assume "\<exists>us \<in> set (ws # wss). basenameOf (hd us) = ''patchwork'' \<and> 2 \<le> length us \<and> us ! 1 \<in> set ADMIN_CLI_VERBS"
    then obtain us where us: "us \<in> set (ws # wss)" "basenameOf (hd us) = ''patchwork''" "2 \<le> length us"
      "us ! 1 \<in> set ADMIN_CLI_VERBS" by blast
    note deny = admin_denied [OF assms(2) us, of "hk_cli e"]
    then obtain root where root: "parseShellCommand (quote_pipeline (ws # wss)) = Inr root" by blast
    obtain i where i: "d = decidePreToolUse i"
      "set (classifyDangerousShellCombos (hk_cli e) root (effective_taint (in_taint i))) \<subseteq> set (in_matches i)"
      using judged_bash [OF d(1) assms(1) root] by blast
    with deny [of "effective_taint (in_taint i)"] root have "dverdict d = DenyV" by auto
    then show ?thesis by simp
  qed
  with d(2) show ?thesis by simp
qed

section \<open>The log\<close>

text \<open>No two events of the log have the same idempotency key.\<close>

definition keys_distinct :: "audit_event list \<Rightarrow> bool" where
  "keys_distinct evs \<longleftrightarrow> distinct (filter truthy (map ae_idempotency_key evs))"

definition log_grows :: "world \<Rightarrow> world \<Rightarrow> bool" where
  "log_grows w w' \<longleftrightarrow>
    (\<exists>new. w_log w' = w_log w @ new \<and> length new \<le> 1) \<and> (keys_distinct (w_log w) \<longrightarrow> keys_distinct (w_log w'))"

lemma log_grows_same: "w_log w' = w_log w \<Longrightarrow> log_grows w w'"
  by (simp add: log_grows_def)

lemma append_event_grows: "w_log v = w_log w \<Longrightarrow> log_grows w (fst (append_event e ev v))"
  by (auto simp: append_event_def log_grows_def keys_distinct_def already_logged_def)

lemma log_then_grows: "w_log v = w_log w \<Longrightarrow> log_grows w (fst (log_then e ev out v))"
  using append_event_grows [of v w e ev] by (simp add: log_then_def Let_def)

lemma log_then_grows_here [simp]: "log_grows w (fst (log_then e ev out w))"
  by (rule log_then_grows) simp

lemma log_grows_refl [simp]: "log_grows w w"
  by (rule log_grows_same) simp

lemma pre_grows [simp]: "log_grows w (fst (handlePreToolUse e inp w))"
proof -
  have "log_grows w (fst (approval_step e inp mp d w))" for mp d
    by (auto simp: approval_step_def Let_def intro!: log_then_grows)
  then show ?thesis
    by (auto simp: handlePreToolUse_def Let_def split: option.split sum.split)
qed

lemma post_log: "w_log (fst (handlePostToolUse e inp st w)) = w_log (fst (append_event e (post_event e inp st) w))"
  by (cases "snd (append_event e (post_event e inp st) w)") (simp_all add: handlePostToolUse_def Let_def)

lemma post_grows [simp]: "log_grows w (fst (handlePostToolUse e inp st w))"
  using append_event_grows [of w w e "post_event e inp st"] by (simp add: log_grows_def post_log)

text \<open>
  C33: every hook keeps the log: what was recorded stays, at its place; at most one event is added;
  and no idempotency key is ever recorded twice, so a hook that is run again for the same tool use
  leaves one record.
\<close>

theorem hooks_keep_log:
  assumes "handleClaudeCodeHook capture e inp w = (w', r)"
  shows "(\<exists>new. w_log w' = w_log w @ new \<and> length new \<le> 1)
    \<and> (keys_distinct (w_log w) \<longrightarrow> keys_distinct (w_log w'))"
proof -
  have "log_grows w (fst (handleClaudeCodeHook capture e inp w))"
    by (auto simp: handleClaudeCodeHook_def Let_def handleSessionStart_def handleSessionEnd_def
        handlePromptSubmit_def handleSubagent_def)
  with assms show ?thesis by (simp add: log_grows_def)
qed

text \<open>Events that the schema reads back as they are.\<close>

definition well_typed :: "(string \<Rightarrow> bool) \<Rightarrow> audit_event \<Rightarrow> bool" where
  "well_typed dt ev \<longleftrightarrow> AuditEventSchema dt (event_json ev) = Some (event_json ev)"

definition typed_log :: "(string \<Rightarrow> bool) \<Rightarrow> world \<Rightarrow> bool" where
  "typed_log dt w \<longleftrightarrow> (\<forall>ev \<in> set (w_log w). well_typed dt ev)"

lemma typed_log_cong: "w_log v = w_log w \<Longrightarrow> typed_log dt v = typed_log dt w"
  by (simp add: typed_log_def)

lemma typed_append: "typed_log dt w \<Longrightarrow> well_typed dt ev \<Longrightarrow> typed_log dt (fst (append_event e ev w))"
  by (auto simp: append_event_def typed_log_def)

lemma typed_log_then: "typed_log dt w \<Longrightarrow> well_typed dt ev \<Longrightarrow> typed_log dt (fst (log_then e ev out w))"
  by (simp add: log_then_def Let_def typed_append)

lemma typed_hook_events:
  assumes "dt (ee_now_iso (hk_event e))"
  shows typed_pre: "well_typed dt (pre_event e inp (mapClaudeCodeTool n i) st)"
    and typed_post: "well_typed dt (post_event e inp st)"
    and typed_plain: "a \<in> set AllActions \<Longrightarrow> (\<And>t. tgt = Some t \<Longrightarrow> known_target t) \<Longrightarrow> well_typed dt (plain_event e inp a tgt)"
    and typed_prompt: "well_typed dt (buildEvent (hk_event e) inp
        \<lparr>pe_action = ''prompt_submit'', pe_status = st', pe_target = Some (empty_target ''prompt''),
         pe_content = c, pe_provenance = pr\<rparr>)"
proof -
  show "well_typed dt (pre_event e inp (mapClaudeCodeTool n i) st)"
    unfolding well_typed_def pre_event_def using assms mapped_known by (intro buildEvent_valid) auto
  show "well_typed dt (post_event e inp st)"
    unfolding well_typed_def post_event_def Let_def using assms mapped_known by (intro buildEvent_valid) auto
  show "well_typed dt (plain_event e inp a tgt)" if "a \<in> set AllActions" "\<And>t. tgt = Some t \<Longrightarrow> known_target t"
    unfolding well_typed_def plain_event_def using assms that by (intro buildEvent_valid) auto
  show "well_typed dt (buildEvent (hk_event e) inp
        \<lparr>pe_action = ''prompt_submit'', pe_status = st', pe_target = Some (empty_target ''prompt''),
         pe_content = c, pe_provenance = pr\<rparr>)"
    unfolding well_typed_def using assms
    by (intro buildEvent_valid) (auto simp: AllActions_def known_target_def empty_target_def)
qed

lemma pre_typed:
  assumes "dt (ee_now_iso (hk_event e))" "typed_log dt w"
  shows "typed_log dt (fst (handlePreToolUse e inp w))"
proof -
  have ev: "typed_log dt (fst (log_then e (pre_event e inp (mapClaudeCodeTool n i) st) out v))"
    if "w_log v = w_log w" for n i st out v
  proof (rule typed_log_then)
    show "typed_log dt v" using assms(2) typed_log_cong [OF that] by simp
    show "well_typed dt (pre_event e inp (mapClaudeCodeTool n i) st)" by (rule typed_pre) (rule assms(1))
  qed
  have "typed_log dt (fst (approval_step e inp (mapClaudeCodeTool n i) d w))" for n i d
    by (auto simp: approval_step_def Let_def intro!: ev)
  then show ?thesis
    by (auto simp: handlePreToolUse_def Let_def ev assms(2) split: option.split sum.split)
qed

text \<open>
  C34: the log is well typed: whatever hook runs, on whatever input, every event in the log is a
  normal form of the event schema, so that reading it back neither drops nor adds a member and
  every stored hash can be recomputed.
\<close>

theorem hooks_keep_log_typed:
  assumes "typed_log dt w" "dt (ee_now_iso (hk_event e))"
  shows "typed_log dt (fst (handleClaudeCodeHook capture e inp w))"
proof -
  have post: "typed_log dt (fst (handlePostToolUse e inp st w))" for st
    unfolding typed_log_cong [OF post_log] using assms by (intro typed_append typed_post)
  have plain: "typed_log dt (fst (log_then e (plain_event e inp a tgt) out w))"
    if "a \<in> set AllActions" "\<And>t. tgt = Some t \<Longrightarrow> known_target t" for a tgt out
    using that by (intro typed_log_then typed_plain assms)
  have sub: "typed_log dt (fst (handleSubagent a e inp w))" if "a \<in> set AllActions" for a
    unfolding handleSubagent_def by (rule plain [OF that]) (auto simp: known_target_def empty_target_def)
  have prompt: "typed_log dt (fst (handlePromptSubmit capture e inp w))"
    unfolding handlePromptSubmit_def by (intro typed_log_then typed_prompt assms)
  have sess: "typed_log dt (fst (handleSessionStart e inp w))" "typed_log dt (fst (handleSessionEnd e inp w))"
    unfolding handleSessionStart_def handleSessionEnd_def by (rule plain, simp add: AllActions_def, simp)+
  have "''subagent_start'' \<in> set AllActions" "''subagent_stop'' \<in> set AllActions" by (simp_all add: AllActions_def)
  with sub prompt sess post pre_typed [OF assms(2,1)] assms(1) show ?thesis
    by (simp add: handleClaudeCodeHook_def Let_def)
qed

section \<open>Approvals\<close>

definition live_for :: "hook_env \<Rightarrow> hook_input \<Rightarrow> world \<Rightarrow> nat" where
  "live_for e inp w =
    live_tokens (canonicalKey (hk_sha e) (action_key inp (ma_target (mapped inp)))) (hk_now e) (w_approvals w)"

lemma spent_live: "spent w w' e inp n \<longleftrightarrow> live_for e inp w = live_for e inp w' + n"
  by (simp add: spent_def live_for_def Let_def)

lemma pre_cases:
  "w_approvals (fst (handlePreToolUse e inp w)) = w_approvals w
   \<or> (\<exists>d. approval_step e inp (mapped inp) d w = handlePreToolUse e inp w)"
  by (auto simp: handlePreToolUse_def mapped_def [symmetric] Let_def log_then_approvals
      split: option.split sum.split)

lemma pre_live:
  "live_for e inp (fst (handlePreToolUse e inp w))
     + (if snd (handlePreToolUse e inp w) = Inr NoObjection \<and> fst (handlePreToolUse e inp w) \<noteq> w then 1 else 0)
   \<le> live_for e inp w"
proof (cases "snd (handlePreToolUse e inp w) = Inr NoObjection \<and> fst (handlePreToolUse e inp w) \<noteq> w")
  case True
  then have "handlePreToolUse e inp w = (fst (handlePreToolUse e inp w), Inr NoObjection)"
    by (metis prod.collapse)
  from no_objection_spends [OF this] True show ?thesis by (auto simp: spent_live split: if_splits)
next
  case False
  from pre_cases [of e inp w] show ?thesis
  proof
    assume "w_approvals (fst (handlePreToolUse e inp w)) = w_approvals w"
    then show ?thesis using False by (simp add: live_for_def)
  next
    assume "\<exists>d. approval_step e inp (mapped inp) d w = handlePreToolUse e inp w"
    then obtain d where "approval_step e inp (mapped inp) d w
        = (fst (handlePreToolUse e inp w), snd (handlePreToolUse e inp w))" by auto
    from approval_step_spends [OF this] show ?thesis using False by (auto simp: spent_live)
  qed
qed

text \<open>Calls one after the other; those that an approval let through are counted.\<close>

fun approved_calls :: "(hook_env \<times> hook_input) list \<Rightarrow> world \<Rightarrow> nat" where
  "approved_calls [] w = 0"
| "approved_calls ((e, inp) # cs) w =
     (let r = handlePreToolUse e inp w in
      (if snd r = Inr NoObjection \<and> fst r \<noteq> w then 1 else 0) + approved_calls cs (fst r))"

lemma approved_calls_live:
  assumes "\<forall>c \<in> set ((e, inp) # cs).
      canonicalKey (hk_sha (fst c)) (action_key (snd c) (ma_target (mapped (snd c)))) = key"
    and "sorted (map (\<lambda>c. hk_now (fst c)) ((e, inp) # cs))"
  shows "approved_calls ((e, inp) # cs) w \<le> live_tokens key (hk_now e) (w_approvals w)"
  using assms
proof (induction cs arbitrary: e inp w)
  case Nil
  then show ?case using pre_live [of e inp w] by (simp add: live_for_def Let_def split: if_splits)
next
  case (Cons c cs)
  obtain e' inp' where c: "c = (e', inp')" by force
  let ?r = "handlePreToolUse e inp w"
  have "approved_calls (c # cs) (fst ?r) \<le> live_tokens key (hk_now e') (w_approvals (fst ?r))"
    using Cons.IH [of e' inp' "fst ?r"] Cons.prems by (simp add: c)
  also have "\<dots> \<le> live_tokens key (hk_now e) (w_approvals (fst ?r))"
    using Cons.prems(2) by (intro live_tokens_later) (simp add: c)
  also have "\<dots> = live_for e inp (fst ?r)" using Cons.prems(1) by (simp add: live_for_def)
  finally have "approved_calls (c # cs) (fst ?r) \<le> live_for e inp (fst ?r)" .
  moreover have "live_for e inp w = live_tokens key (hk_now e) (w_approvals w)"
    using Cons.prems(1) by (simp add: live_for_def)
  ultimately show ?case
    using pre_live [of e inp w] by (simp add: Let_def del: approved_calls.simps add: approved_calls.simps(2) [of e])
qed

text \<open>
  C6: approvals are a budget: over any sequence of calls for one session, tool and target, in the
  order of their clocks, no more calls that were not allowed anyway get through than there were
  approved, unexpired tokens for them when the first was made.
\<close>

theorem approvals_are_a_budget:
  assumes "\<forall>c \<in> set ((e, inp) # cs).
      canonicalKey (hk_sha (fst c)) (action_key (snd c) (ma_target (mapped (snd c)))) = key"
    and "sorted (map (\<lambda>c. hk_now (fst c)) ((e, inp) # cs))"
  shows "approved_calls ((e, inp) # cs) w \<le> live_tokens key (hk_now e) (w_approvals w)"
  by (rule approved_calls_live [OF assms])

lemma written_token_live:
  assumes "readPendingRequest d i = Some pending" "string_field pending ''canonical_key'' = Some key"
    and "now < t + ttl"
  shows "0 < live_tokens key now (fst (writeApprovedToken removable t at ttl pending d))"
proof -
  let ?f = "approvedPathFor (request_name pending)"
  have ne: "?f \<noteq> pendingPathFor (request_name pending)"
    by (simp add: approvedPathFor_def pendingPathFor_def)
  have "token_live key now (approved_token pending at (now + (t + ttl - now)))"
    using assms by (intro approved_token_live) simp_all
  then have "token_live key now (approved_token pending at (t + ttl))" by simp
  moreover have "ends_with ?f ''.approved.json''"
    by (simp add: ends_with_def approvedPathFor_def starts_with_def)
  ultimately have "?f \<in> live_files key now (dir_files (fst (writeApprovedToken removable t at ttl pending d)))"
    using ne by (simp add: live_files_def writeApprovedToken_def Let_def dir_files_def)
  then show ?thesis
    unfolding live_tokens_def by (metis card_gt_0_iff empty_iff finite_live)
qed

lemma approved_goes:
  assumes "judged e inp w d"
    and "w_approvals w = fst (writeApprovedToken removable t at ttl pending dir)"
    and "readPendingRequest dir i = Some pending"
    and "string_field pending ''canonical_key''
      = Some (canonicalKey (hk_sha e) (action_key inp (ma_target (mapped inp))))"
    and "hk_now e < t + ttl" and "\<forall>f. hk_removable e f" and "hk_append_ok e"
  shows "snd (handlePreToolUse e inp w) = Inr NoObjection"
proof -
  obtain policy source where j: "ma_malformed (mapped inp) = None"
      "loadActivePolicy (hk_loader e) (Some (hi_cwd inp)) = Inr (policy, source)"
      "rd_allowed (policy_decision_for e (mapped inp) policy)"
      "computeTaintSinkDecision e inp (tool_name inp) (ma_target (mapped inp))
        \<lparr>pd_allowed = True, pd_reason = Some (rd_reason (policy_decision_for e (mapped inp) policy))\<rparr> w = Inr d"
    using assms(1) by (auto simp: judged_def)
  let ?c = "consumeApprovedToken (hk_removable e) (hk_now e)
    (canonicalKey (hk_sha e) (action_key inp (ma_target (mapped inp)))) (w_approvals w)"
  have "snd ?c \<noteq> None"
    using consume_None_keeps(2) [of "hk_removable e" "hk_now e" _ "w_approvals w" "fst ?c"] assms(6)
      written_token_live [OF assms(3,4,5), of removable at]
    by (metis assms(2) less_irrefl prod.collapse)
  then have "snd (approval_step e inp (mapped inp) d w) = Inr NoObjection"
    using assms(7) by (auto simp: approval_step_def Let_def log_then_def append_event_def)
  with j show ?thesis
    by (simp add: handlePreToolUse_def mapped_def [symmetric] Let_def)
qed

text \<open>
  C7: what the user approves goes through: after the user has approved a request with this call's
  key, and before the token expires, the retried call gets no objection, provided the files can be
  removed and the log written.
\<close>

theorem approved_call_goes_through:
  assumes "judged e inp w d"
    and "w_approvals w = fst (writeApprovedToken removable t at ttl pending dir)"
    and "readPendingRequest dir i = Some pending"
    and "string_field pending ''canonical_key''
      = Some (canonicalKey (hk_sha e) (action_key inp (ma_target (mapped inp))))"
    and "hk_now e < t + ttl" and "\<forall>f. hk_removable e f" and "hk_append_ok e"
  shows "snd (handlePreToolUse e inp w) = Inr NoObjection"
  by (rule approved_goes [OF assms])

section \<open>After a tool\<close>

lemma fold_kinds_run:
  assumes "fold_kinds t src ks (s, c) = Inr (s', c')"
  shows "session_id s' = session_id s
    \<and> (\<forall>k. hasKind s k \<or> k \<in> set ks \<and> k \<noteq> GeneratedFile \<longrightarrow> hasKind s' k)
    \<and> (\<forall>k. hasKind s' k \<longrightarrow> hasKind s k \<or> k \<in> set ks)
    \<and> (c' \<longrightarrow> c \<or> ks \<noteq> []) \<and> (\<not> c' \<longrightarrow> s' = s)"
  using assms
proof (induction ks arbitrary: s c)
  case (Cons k ks)
  show ?case
  proof (cases "kind_op t src k s")
    case None
    then have "k = GeneratedFile" by (auto simp: kind_op_def split: if_splits)
    with Cons.IH [of s c] Cons.prems None show ?thesis by auto
  next
    case (Some p)
    then obtain u where u: "apply_op p s = Inr u" "fold_kinds t src ks (u, True) = Inr (s', c')"
      using Cons.prems by (auto simp: bind_result_eq_Inr)
    have p: "p = Register k src \<or> (k = GeneratedFile \<and> (\<exists>q ups. p = Generate q ups))"
      using Some by (auto simp: kind_op_def Let_def split: if_splits option.splits)
    have run: "taint_run s [p] u" using u(1) by (blast intro: taint_run.intros)
    have "session_id u = session_id s" using run_session [OF run] .
    moreover have "hasKind u j \<longleftrightarrow> hasKind s j" if "j \<noteq> k" for j
      using apply_op_refines [OF u(1)] p that by (auto simp: active_kinds_def set_eq_iff op_eqs split: if_splits)
    moreover have "hasKind s k \<Longrightarrow> hasKind u k" using apply_op_keeps [OF u(1)] p by auto
    moreover have "k \<noteq> GeneratedFile \<Longrightarrow> hasKind u k" using u(1) p by (auto simp: op_eqs hasKind_set_sources)
    moreover have "c'"
      using u(2) by (induction ks arbitrary: u) (auto split: option.splits simp: bind_result_eq_Inr)
    ultimately show ?thesis using Cons.IH [OF u(2)] by auto metis+
  qed
qed simp

lemma read_locks [simp]:
  "readTaintSnapshot se (fs\<lparr>tlocks := l\<rparr>) sid = readTaintSnapshot se fs sid"
  by (simp add: readTaintSnapshot_def taintPathIsUnsafe_def Let_def)

lemma folded_update_read:
  assumes "doFoldedUpdate e inp t sid ks fs = (fs', Inr ())" and "\<exists>k \<in> set ks. k \<noteq> GeneratedFile"
    and "\<forall>s c. fold_kinds t (new_source e inp t) ks (loadOrInitSnapshot (hk_store e) fs sid, False) = Inr (s, c)
      \<longrightarrow> decodes_back (hk_store e) s"
    and "marker_clean (hk_store e) fs sid"
  shows "\<exists>s. readTaintSnapshot (hk_store e) fs' sid = Some s
    \<and> (\<forall>k. hasKind (loadOrInitSnapshot (hk_store e) fs sid) k \<or> k \<in> set ks \<and> k \<noteq> GeneratedFile \<longrightarrow> hasKind s k)
    \<and> (\<forall>k. hasKind s k \<longrightarrow> hasKind (loadOrInitSnapshot (hk_store e) fs sid) k \<or> k \<in> set ks)"
proof -
  let ?s0 = "loadOrInitSnapshot (hk_store e) fs sid"
  obtain s c where f: "fold_kinds t (new_source e inp t) ks (?s0, False) = Inr (s, c)"
    using assms(1) by (auto simp: doFoldedUpdate_def split: sum.splits)
  note run = fold_kinds_run [OF f]
  have sid: "session_id s = sid"
    using run read_own by (auto simp: loadOrInitSnapshot_def createSnapshot_def split: option.splits)
  show ?thesis
  proof (cases c)
    case True
    then have "commit_snapshot (hk_store e) (hk_marker_ok e) (hk_write_ok e) sid s fs = (fs', Inr ())"
      using assms(1) f by (simp add: doFoldedUpdate_def)
    from commit_read_back [OF this sid] assms(3,4) f run show ?thesis by blast
  next
    case False
    from assms(2) have ks: "ks \<noteq> []" by auto
    have "s = ?s0" "fs' = fs" using run False assms(1) f by (auto simp: doFoldedUpdate_def)
    have "c" if "\<exists>k \<in> set ks. k \<noteq> GeneratedFile"
    proof -
      have step: "fold_kinds t src qs (u, True) = Inr (v, b) \<Longrightarrow> b" for src qs u v b
        by (induction qs arbitrary: u) (auto split: option.splits simp: bind_result_eq_Inr)
      have "fold_kinds t src qs (u, False) = Inr (v, b) \<Longrightarrow> \<exists>k \<in> set qs. k \<noteq> GeneratedFile \<Longrightarrow> b" for src qs u v b
      proof (induction qs arbitrary: u)
        case (Cons k qs)
        then show ?case
          by (cases "kind_op t src k u") (auto simp: bind_result_eq_Inr kind_op_def dest: step split: if_splits)
      qed simp
      with f that show ?thesis by blast
    qed
    with assms(2) False show ?thesis by blast
  qed
qed

text \<open>
  C5: what a tool call raised is what the next decision sees: after an update that succeeded, for a
  call that raises some kind other than that of generated files, the snapshot can be read, and its
  active kinds, generated files aside, are those of the snapshot stored before together with the
  kinds raised; where no snapshot was stored before, exactly the kinds raised. A stored snapshot
  that could not be read is outside the claim.
\<close>

theorem raised_taint_is_seen:
  assumes "updateTaintSnapshotForPostTool e inp t fs = (fs', Inr ())"
    and "raised_kinds e inp t = Inr ks" and "\<exists>k \<in> set ks. k \<noteq> GeneratedFile"
    and stored: "tfiles fs (getTaintSnapshotPath (hk_store e) (hi_session_id inp)) = Absent \<and> before = {}
      \<or> (\<exists>s. readTaintSnapshot (hk_store e) fs (hi_session_id inp) = Some s \<and> before = {k. hasKind s k})"
    and "\<forall>s c. fold_kinds t (new_source e inp t) ks
        (loadOrInitSnapshot (hk_store e) fs (hi_session_id inp), False) = Inr (s, c) \<longrightarrow> decodes_back (hk_store e) s"
    and "marker_clean (hk_store e) fs (hi_session_id inp)" and "hi_session_id inp \<noteq> []"
  shows "\<exists>s. readTaintSnapshot (hk_store e) fs' (hi_session_id inp) = Some s
    \<and> {k. hasKind s k} - {GeneratedFile} = before \<union> set ks - {GeneratedFile}"
proof -
  let ?sid = "hi_session_id inp"
  have "ks \<noteq> []" using assms(3) by auto
  then have "withSessionLock (hk_store e) (hk_now e) ?sid (doFoldedUpdate e inp t ?sid ks) fs = (fs', Inr ())"
    using assms(1,2,7) by (simp add: updateTaintSnapshotForPostTool_def Let_def)
  then obtain g l l' where g: "doFoldedUpdate e inp t ?sid ks (fs\<lparr>tlocks := l\<rparr>) = (g, Inr ())" "fs' = g\<lparr>tlocks := l'\<rparr>"
    by (cases "doFoldedUpdate e inp t ?sid ks (fs\<lparr>tlocks := (tlocks fs)(getTaintLockPath (hk_store e) ?sid := Some (hk_now e))\<rparr>)")
      (auto simp: withSessionLock_def Let_def split: option.splits if_splits)
  have "hasKind (createSnapshot ?sid) k = False" for k by (simp add: hasKind_def)
  moreover have "readTaintSnapshot (hk_store e) fs ?sid = None"
    if "tfiles fs (getTaintSnapshotPath (hk_store e) ?sid) = Absent"
    using that by (simp add: readTaintSnapshot_def Let_def)
  ultimately have old: "hasKind (loadOrInitSnapshot (hk_store e) (fs\<lparr>tlocks := l\<rparr>) ?sid) k \<longleftrightarrow> k \<in> before" for k
    using stored by (auto simp: loadOrInitSnapshot_def)
  have "marker_clean (hk_store e) (fs\<lparr>tlocks := l\<rparr>) ?sid" using assms(6) by (simp add: marker_clean_def)
  moreover have "loadOrInitSnapshot (hk_store e) (fs\<lparr>tlocks := l\<rparr>) ?sid = loadOrInitSnapshot (hk_store e) fs ?sid"
    by (simp add: loadOrInitSnapshot_def)
  ultimately show ?thesis
    using folded_update_read [OF g(1) assms(3)] assms(5)
    unfolding old g(2) by (auto 4 3)
qed

text \<open>
  A stored snapshot that could not be read counts as tainted for a decision, but an update starts from
  one without any taint in its place.
\<close>

lemma doubt_forgotten_by_update:
  assumes "readTaintSnapshot e fs sid = None"
  shows "effective_taint (readTaintSnapshot e fs sid) \<and> \<not> hasAnyTaint (loadOrInitSnapshot e fs sid)"
  using assms by (simp add: loadOrInitSnapshot_def effective_taint_def hasAnyTaint_def list_ex_iff hasKind_def)

section \<open>Concrete calls\<close>

definition sample_path_env :: path_env where
  "sample_path_env = \<lparr>pe_match = (\<lambda>s p. False), pe_realpath = (\<lambda>p. None), pe_process_cwd = ''/w''\<rparr>"

definition sample_event_env :: event_env where
  "sample_event_env = \<lparr>ee_paths = sample_path_env, ee_capture_abs_path = False, ee_now_iso = ''t'',
     ee_event_id = ''evt'', ee_new_session = ''ses''\<rparr>"

text \<open>The snapshot that a first web page leaves.\<close>

definition web_source :: taint_source where
  "web_source = \<lparr>sts = 10, sref = ''https://x'', shash = ''sha256:tool:WebFetch:10'', scleared = None\<rparr>"

definition web_snapshot :: taint_snapshot where
  "web_snapshot = set_sources Prompt [web_source] (set_sources NetworkContent [web_source] (createSnapshot ''s''))"

definition sample_hook_env :: hook_env where
  "sample_hook_env =
    \<lparr>hk_event = sample_event_env, hk_loader = bare_loader, hk_url = (\<lambda>u. None),
     hk_regex = (\<lambda>p s. None), hk_sink_glob = (\<lambda>p s. True), hk_home = ''/h'',
     hk_cli = \<lparr>env_candidate = None, env_realpath = (\<lambda>p. None)\<rparr>,
     hk_store = \<lparr>se_sha256 = (\<lambda>s. s), se_parse = (\<lambda>raw. Some web_snapshot), se_render = (\<lambda>s. ''x'')\<rparr>,
     hk_sha = (\<lambda>s. s), hk_trusted = None, hk_now = 10, hk_new_session = ''n'', hk_request_id = ''q'',
     hk_removable = (\<lambda>f. True), hk_append_ok = True, hk_request_ok = True, hk_marker_ok = True,
     hk_write_ok = True, hk_commit = sample_commit_env, hk_query_ok = True\<rparr>"

definition sample_world :: world where
  "sample_world =
    \<lparr>w_taint = \<lparr>tdir = DirPlain, tfiles = (\<lambda>p. Absent), tlocks = (\<lambda>p. None)\<rparr>, w_approvals = None, w_log = [],
     w_commits = sample_commit_store\<rparr>"

definition sample_input :: "string \<Rightarrow> string \<Rightarrow> (string \<times> json) list \<Rightarrow> hook_input" where
  "sample_input ev tool args =
    \<lparr>hi_session_id = ''s'', hi_cwd = ''/w'', hi_event_name = ev, hi_tool_name = Some tool,
     hi_tool_input = Some (JObj args), hi_tool_response = None, hi_tool_use_id = Some ''u'',
     hi_prompt = None, hi_subagent_type = None\<rparr>"

definition glob_call :: hook_input where
  "glob_call = sample_input ''PreToolUse'' ''Glob'' [(''pattern'', JStr ''a'')]"

definition rc_write :: hook_input where
  "rc_write = sample_input ''PreToolUse'' ''Write'' [(''file_path'', JStr ''/h/.bashrc'')]"

definition web_call :: hook_input where
  "web_call = sample_input ''PostToolUse'' ''WebFetch'' [(''url'', JStr ''https://x'')]"

lemma glob_no_objection: "snd (handlePreToolUse sample_hook_env glob_call sample_world) = Inr NoObjection"
  by code_simp

lemma no_objection_justified_witness: "\<exists>d. judged sample_hook_env glob_call sample_world d"
  using no_objection_justified [of sample_hook_env glob_call sample_world
      "fst (handlePreToolUse sample_hook_env glob_call sample_world)"] glob_no_objection
  by (metis prod.collapse)

lemma enforcement_fails_closed_witness:
  "\<exists>msg. snd (handlePreToolUse sample_hook_env (sample_input ''PreToolUse'' ''Write'' []) sample_world)
     = Inr (DenyOutput msg)"
proof -
  have "ma_malformed (mapped (sample_input ''PreToolUse'' ''Write'' [])) \<noteq> None" by code_simp
  then show ?thesis by (intro enforcement_fails_closed) (simp_all add: sample_hook_env_def)
qed

lemma hooks_keep_log_witness:
  "\<exists>w' r new. handleClaudeCodeHook False sample_hook_env glob_call sample_world = (w', r) \<and> w_log w' = w_log sample_world @ new"
proof -
  obtain w' r where h: "handleClaudeCodeHook False sample_hook_env glob_call sample_world = (w', r)" by force
  from hooks_keep_log [OF h] h show ?thesis by blast
qed

lemma hooks_keep_log_typed_witness:
  "typed_log (\<lambda>t. True) (fst (handleClaudeCodeHook False sample_hook_env web_call sample_world))"
  by (rule hooks_keep_log_typed) (simp_all add: typed_log_def sample_world_def)

lemma approvals_are_a_budget_witness:
  "approved_calls [(sample_hook_env, rc_write), (sample_hook_env, rc_write)] sample_world = 0"
proof -
  have "approved_calls [(sample_hook_env, rc_write), (sample_hook_env, rc_write)] sample_world
      \<le> live_tokens (canonicalKey (hk_sha sample_hook_env) (action_key rc_write (ma_target (mapped rc_write))))
        (hk_now sample_hook_env) (w_approvals sample_world)"
    by (rule approvals_are_a_budget) (simp_all)
  also have "\<dots> = 0"
    by (simp add: sample_world_def live_tokens_def live_files_def dir_files_def)
  finally show ?thesis by simp
qed

text \<open>A request with the key of a call, approved.\<close>

definition key_for :: "hook_input \<Rightarrow> string" where
  "key_for inp = canonicalKey (hk_sha sample_hook_env) (action_key inp (ma_target (mapped inp)))"

definition pending_for :: "hook_input \<Rightarrow> json" where
  "pending_for inp = JObj [(''schema_version'', JNum 1), (''request_id'', JStr ''q''), (''canonical_key'', JStr (key_for inp))]"

definition files_for :: "hook_input \<Rightarrow> approval_files option" where
  "files_for inp = Some [(''q.pending.json'', Some (pending_for inp))]"

definition world_for :: "hook_input \<Rightarrow> world" where
  "world_for inp = sample_world\<lparr>w_approvals := fst (writeApprovedToken (\<lambda>f. True) 0 ''t'' 300000 (pending_for inp) (files_for inp))\<rparr>"

lemma world_for_facts:
  "w_approvals (world_for inp) = fst (writeApprovedToken (\<lambda>f. True) 0 ''t'' 300000 (pending_for inp) (files_for inp))"
  "readPendingRequest (files_for inp) ''q'' = Some (pending_for inp)"
  "string_field (pending_for inp) ''canonical_key''
     = Some (canonicalKey (hk_sha sample_hook_env) (action_key inp (ma_target (mapped inp))))"
  "hk_now sample_hook_env < 0 + 300000" "\<forall>f. hk_removable sample_hook_env f" "hk_append_ok sample_hook_env"
  by (simp_all add: world_for_def readPendingRequest_def files_for_def dir_files_def pendingPathFor_def
      pending_for_def number_field_def string_field_def key_for_def sample_hook_env_def)

definition judges :: "hook_input \<Rightarrow> bool" where
  "judges inp \<longleftrightarrow>
    (case loadActivePolicy (hk_loader sample_hook_env) (Some (hi_cwd inp)) of
      Inl x \<Rightarrow> False
    | Inr (policy, source) \<Rightarrow>
        ma_malformed (mapped inp) = None \<and> rd_allowed (policy_decision_for sample_hook_env (mapped inp) policy)
        \<and> (case computeTaintSinkDecision sample_hook_env inp (tool_name inp) (ma_target (mapped inp))
             \<lparr>pd_allowed = True, pd_reason = Some (rd_reason (policy_decision_for sample_hook_env (mapped inp) policy))\<rparr>
             (world_for inp) of Inl x \<Rightarrow> False | Inr d \<Rightarrow> True))"

lemma judges_judged: "judges inp \<Longrightarrow> \<exists>d. judged sample_hook_env inp (world_for inp) d"
  by (auto simp: judges_def judged_def split: sum.splits)

lemma approved_call_goes_through_witness: "snd (handlePreToolUse sample_hook_env rc_write (world_for rc_write)) = Inr NoObjection"
proof -
  have "judges rc_write" by code_simp
  then obtain d where "judged sample_hook_env rc_write (world_for rc_write) d" using judges_judged by blast
  from approved_call_goes_through [OF this world_for_facts] show ?thesis .
qed

definition admin_call :: hook_input where
  "admin_call = sample_input ''PreToolUse'' ''Bash''
     [(''command'', JStr (quote_pipeline [[''patchwork'', ''approve'', ''q'']]))]"

lemma dangerous_bash_needs_approval_witness:
  "\<exists>w'. handlePreToolUse sample_hook_env admin_call (world_for admin_call) = (w', Inr NoObjection)
     \<and> spent (world_for admin_call) w' sample_hook_env admin_call 1"
proof -
  have "judges admin_call" by code_simp
  then obtain d where "judged sample_hook_env admin_call (world_for admin_call) d" using judges_judged by blast
  from approved_goes [OF this world_for_facts] obtain w'
    where h: "handlePreToolUse sample_hook_env admin_call (world_for admin_call) = (w', Inr NoObjection)"
    by (metis prod.collapse)
  have "bash_command (tool_name admin_call) admin_call = Some (quote_pipeline [[''patchwork'', ''approve'', ''q'']])"
    "list_all plain_argv [[''patchwork'', ''approve'', ''q'']]"
    "\<exists>us \<in> set [[''patchwork'', ''approve'', ''q'']]. basenameOf (hd us) = ''patchwork'' \<and> 2 \<le> length us
       \<and> us ! 1 \<in> set ADMIN_CLI_VERBS" by code_simp+
  with dangerous_bash_needs_approval [OF _ _ _ h, of "[''patchwork'', ''approve'', ''q'']" "[]"] h show ?thesis by blast
qed

lemma raised_taint_is_seen_witness:
  "\<exists>fs s. updateTaintSnapshotForPostTool sample_hook_env web_call (ma_target (mapped web_call)) (w_taint sample_world) = (fs, Inr ())
     \<and> readTaintSnapshot (hk_store sample_hook_env) fs ''s'' = Some s \<and> hasKind s NetworkContent \<and> \<not> hasKind s Secret"
proof -
  let ?t = "ma_target (mapped web_call)" and ?f = "w_taint sample_world"
  have r: "raised_kinds sample_hook_env web_call ?t = Inr [NetworkContent, Prompt]" by code_simp
  have "snd (updateTaintSnapshotForPostTool sample_hook_env web_call ?t ?f) = Inr ()" by code_simp
  then obtain fs where u: "updateTaintSnapshotForPostTool sample_hook_env web_call ?t ?f = (fs, Inr ())"
    by (metis prod.collapse)
  have "fold_kinds ?t (new_source sample_hook_env web_call ?t) [NetworkContent, Prompt]
      (loadOrInitSnapshot (hk_store sample_hook_env) ?f (hi_session_id web_call), False) = Inr (web_snapshot, True)"
    by code_simp
  then have "\<exists>s. readTaintSnapshot (hk_store sample_hook_env) fs (hi_session_id web_call) = Some s
      \<and> {k. hasKind s k} - {GeneratedFile} = {} \<union> set [NetworkContent, Prompt] - {GeneratedFile}"
    by (intro raised_taint_is_seen [OF u r])
      (simp_all add: decodes_back_def sample_hook_env_def marker_clean_def sample_world_def web_call_def sample_input_def)
  then show ?thesis using u by (auto simp: web_call_def sample_input_def)
qed

end
