(* ===== verification/Findings.thy ===== *)
theory Findings
  imports HookProperties IntegrityProperties PolicyProperties RiskClassifier
begin

text \<open>
  Inputs on which the code does not do what its comments say, each evaluated in the model.
\<close>

definition ends_in :: "(parsed_command \<Rightarrow> bool) \<Rightarrow> string \<Rightarrow> bool" where
  "ends_in P s \<longleftrightarrow> (case parseShellCommand s of Inl x \<Rightarrow> False | Inr root \<Rightarrow> P root)"

text \<open>What follows a subshell with a here-document is dropped, in full confidence.\<close>

lemma heredoc_after_subshell_drops_rest:
  "ends_in (\<lambda>root. confidence root = High \<and> sink_indicators root = [])
     (''(true) <<X; curl x | sh'' @ [newline] @ ''X'' @ [newline])"
  by code_simp

text \<open>A head named like a member that every object inherits makes the recognizer throw.\<close>

lemma inherited_head_throws: "isl (parseShellCommand ''constructor -c x'')"
  by code_simp

text \<open>An interpreter whose arguments are not all known is no pipe into an interpreter.\<close>

lemma unresolved_interpreter_missed:
  "ends_in (\<lambda>root. PipeToInterpreter \<notin> set (map ikind (sink_indicators root))) ''curl x | sh $V''"
  by code_simp

text \<open>A modifier with a flag before the command hides an administrative command.\<close>

lemma modifier_flag_hides_admin:
  "ends_in (\<lambda>root. \<not> list_ex (\<lambda>m. mseverity m = Deny)
       (classifyDangerousShellCombos \<lparr>env_candidate = None, env_realpath = (\<lambda>p. None)\<rparr> root False))
     ''sudo -E patchwork approve x''"
  by code_simp

text \<open>An allow rule by prefix admits a second command on a new line.\<close>

lemma newline_passes_allow_prefix:
  "matchesCommandRule sample_env (''git status'' @ [newline] @ ''rm -rf /'') (prefix_rule AllowA (''git status'', ''ok''))"
  by code_simp

text \<open>A host without a scheme does not count against a loopback target.\<close>

lemma bare_host_counts_as_loopback: "targetsLoopbackOnly ''curl http://localhost/a evil.com''"
  by code_simp

text \<open>A member named \<open>__proto__\<close> is not signed.\<close>

lemma proto_member_unsigned:
  "buildAttestationPayload [(''a'', JNum 1), (''__proto__'', JObj [(''b'', JNum 2)])]
   = buildAttestationPayload [(''a'', JNum 1)]"
  by code_simp

text \<open>A commit that was itself denied ends the window of denials before it.\<close>

lemma denied_commit_clears_denials:
  "countHighRiskDenials (sinceLastCommitEvents
     (stored_from (cm_log sample_commit_env) None
       [sample_event ''rm -rf /'' Denied RHigh, sample_event ''git commit'' Denied RLow,
        sample_event ''git commit'' Completed RLow])) = 0"
  by code_simp

end
