(* ===== verification/Spec2Isabelle.thy ===== *)
theory Spec2Isabelle
  imports ShellProperties TaintProperties PolicyProperties IntegrityProperties CommitProperties RelayProperties
    UrlProperties GitProperties CommandProperties InstallProperties TeamProperties ComplianceProperties
    HookProperties Findings
begin

text \<open>
  A verification development for Patchwork, an audit and enforcement layer for AI coding agents.
  An agent calls a hook process around each tool call. Before the tool, the hook
  (\<^verbatim>\<open>packages/agents/src/claude-code/adapter.ts\<close>) maps the call to an action, evaluates the
  active policy, reads the session's taint, classifies the sinks and the shell command, composes a
  verdict and, where it is not allow, spends an approval or leaves a request for one. After the
  tool, it records an event in a hash chained log, folds the taint the call raised into the
  session's snapshot and attests commits. Paths below are under \<^verbatim>\<open>packages/core/src\<close> (core) and
  \<^verbatim>\<open>packages/agents/src/claude-code\<close> (agent).

  \<^bold>\<open>Theories and code.\<close>

  \<^item> \<open>Prelude\<close>, \<open>Json\<close>: JavaScript strings as bytes, results that may throw, JSON values with
    \<open>JSON.stringify\<close> and a reader that shows printing injective.
  \<^item> \<open>ShellTypes\<close>, \<open>ShellLexer\<close>, \<open>SinkIndicators\<close>, \<open>ShellParser\<close>: the shell recognizer, core
    \<^verbatim>\<open>shell/types.ts\<close>, \<^verbatim>\<open>lexer.ts\<close>, \<^verbatim>\<open>sink-indicators.ts\<close>, \<^verbatim>\<open>parse.ts\<close>. \<open>ShellBounds\<close> shows that the
    fuel of the parser suffices, \<open>ShellTree\<close> that indicators and confidence reach the root,
    \<open>ShellQuoting\<close> that quoted pipelines are read back, \<open>ShellProperties\<close> the properties.
  \<^item> \<open>SinkTypes\<close>, \<open>SinkClassify\<close>: core \<^verbatim>\<open>sinks\<close>; \<open>ShellCombos\<close>: agent \<^verbatim>\<open>dangerous-shell-combos.ts\<close>;
    \<open>PreToolDecision\<close>: agent \<^verbatim>\<open>pre-tool-decision.ts\<close>.
  \<^item> \<open>TaintSnapshot\<close>, \<open>TaintEngine\<close>: core \<^verbatim>\<open>taint/snapshot.ts\<close>, with the abstract machine on the
    set of active kinds that it refines; \<open>TaintStore\<close>: agent \<^verbatim>\<open>taint-store.ts\<close>, whose contract is the
    locale \<open>session_store\<close>; \<open>TaintProperties\<close>.
  \<^item> \<open>Sensitive\<close>, \<open>RiskClassifier\<close>, \<open>PolicyEngine\<close>, \<open>PolicyLoader\<close>, \<open>ToolMapper\<close>: core \<^verbatim>\<open>risk\<close>,
    \<^verbatim>\<open>policy\<close> and agent \<^verbatim>\<open>mapper.ts\<close>; \<open>PolicyProperties\<close>.
  \<^item> \<open>HashChain\<close>, \<open>Attestation\<close>, \<open>SealKeyring\<close>: core \<^verbatim>\<open>hash\<close>; \<open>EventSchema\<close>: core
    \<^verbatim>\<open>schema/event.ts\<close>; \<open>JsonlStore\<close>, \<open>JsonlChain\<close>, \<open>JsonlLock\<close>: core \<^verbatim>\<open>store/jsonl.ts\<close>, its file, its
    cache and its lock, with rotation and any number of stores; \<open>Intoto\<close>: core \<^verbatim>\<open>attestation/intoto.ts\<close>; \<open>IntegrityProperties\<close>.
  \<^item> \<open>SigningProxy\<close>: core \<^verbatim>\<open>relay/signing-proxy.ts\<close>; \<open>CommitDetector\<close>, \<open>CommitAttestor\<close>,
    \<open>CommitHook\<close>: the recognition and attestation of commits in the agent; \<open>CommitProperties\<close>.
  \<^item> \<open>ApprovalStore\<close>, \<open>TrustStore\<close>, \<open>AuditEvents\<close>, \<open>HookAdapter\<close>, \<open>HookPost\<close>: agent
    \<^verbatim>\<open>approval-store.ts\<close>, \<^verbatim>\<open>trust-store.ts\<close>, \<^verbatim>\<open>adapter.ts\<close>; the state \<open>world\<close> is what the hook processes
    share; \<open>HookProperties\<close> composes the components.
  \<^item> \<open>RelayConfig\<close>, \<open>RelaySigning\<close>, \<open>RelaySeal\<close>, \<open>RelayDaemon\<close>: core \<^verbatim>\<open>relay/config.ts\<close>,
    \<^verbatim>\<open>relay/auto-seal.ts\<close>, \<^verbatim>\<open>relay/daemon.ts\<close>. The state is the daemon's with its files; a sealing
    cycle is two steps, so that messages fall between. \<open>RelayTrust\<close> shows what is signed,
    \<open>RelayChain\<close> the step relation with its invariant; \<open>RelayClient\<close>: core \<^verbatim>\<open>relay/client.ts\<close>,
    \<^verbatim>\<open>relay/health.ts\<close> and the requests of the signing proxy; \<open>RelayProperties\<close>.
  \<^item> \<open>UrlCanonical\<close>, \<open>UrlProperties\<close>: core \<^verbatim>\<open>url/canonicalize.ts\<close>.
  \<^item> \<open>GitConfig\<close>, \<open>GitRemote\<close>, \<open>GitProperties\<close>: core \<^verbatim>\<open>git/parse-config.ts\<close>,
    \<^verbatim>\<open>git/resolve-remote.ts\<close>.
  \<^item> \<open>VerifyChecks\<close>, \<open>VerifyEngine\<close>, \<open>VerifyConfig\<close>, \<open>SealCommand\<close>: \<^verbatim>\<open>packages/cli/src\<close>, the engine of
    \<^verbatim>\<open>patchwork verify\<close> (\<^verbatim>\<open>verify-engine.ts\<close>, \<^verbatim>\<open>remote-witness.ts\<close>), the policy that applies to it and
    the command (\<^verbatim>\<open>config.ts\<close>, \<^verbatim>\<open>commands/verify.ts\<close>), and the commands \<^verbatim>\<open>seal\<close> and \<^verbatim>\<open>attest\<close> that
    write what it reads. \<open>VerifyProperties\<close> and \<open>CommandLemmas\<close> show what each check accepts and
    inputs that pass although a comment says otherwise; \<open>CommandProperties\<close> composes them.
  \<^item> \<open>HookSettings\<close>, \<open>HookInstaller\<close>: \<^verbatim>\<open>agents/src/claude-code/installer.ts\<close>. \<open>HookSettings\<close> has the
    recogniser of the product's commands, the commands written, and merge and removal as functions on
    the settings value; \<open>HookInstaller\<close> has install and uninstall as sequences of file-system calls,
    between which other processes act. \<open>InstallLemmas\<close> relates the recogniser to the pattern, merge
    and removal to the members of the settings, and the commands to the tokens of the shell
    recognizer; \<open>InstallProperties\<close> states that a second install changes nothing, that others' hooks
    are kept, that removal forgets the install, and that a project install stays inside its
    directory.
  \<^item> \<open>TeamSync\<close>, \<open>TeamServer\<close>: \<^verbatim>\<open>packages/team/src\<close>, the agent that sends the relay's log to a team
    server in batches, with its cursor and its backoff, and the server: the tables as lists of rows,
    the statements as what they say of the rows, and the routes that write. \<open>TeamLemmas\<close> compares the
    incremental reader with one that splits the whole text; \<open>TeamDelivery\<close> has the steps of a machine,
    the contract of a server that keeps what it acknowledges (the locale \<open>event_channel\<close>) and the team
    server as its instance, whose answers may be lost and which other machines use as well;
    \<open>TeamProperties\<close> states delivery, what is written, and enrolment.
  \<^item> \<open>ComplianceData\<close>, \<open>ComplianceControls\<close>, \<open>ComplianceReport\<close>: \<^verbatim>\<open>packages/cli/src/compliance\<close> and
    \<^verbatim>\<open>commands/report.ts\<close>, what a report is computed from, the controls of the seven frameworks with
    their texts, and the evaluation, gaps, trends and the command; \<open>ComplianceProperties\<close> states what
    a SOC 2 grade says of the log, that gaps and summaries account for every control, that the
    windows partition the period, and where the report says something else.
  \<^item> \<open>Findings\<close>: inputs on which the code departs from its comments.

  \<^bold>\<open>State and errors.\<close> A file system is a map from names to contents with the entries the code
  distinguishes (symbolic link, unreadable, absent); a process's clock, fresh identifiers and the
  success of its writes are fields of its environment. An exception is \<open>Inl\<close> of an error, and every
  handler says what it leaves behind on that branch.

  \<^bold>\<open>Fuel.\<close> The parser recurses over its tokens and into the body of an inline \<open>-c\<close>. Its
  definitions take fuel, the entry point supplies the number of tokens and the length of the text,
  and \<open>parse_returns\<close> shows that it is never used up. Every other loop is structural or ends by a
  measure.

  \<^bold>\<open>Parameters.\<close> SHA-256 and HMAC, picomatch, \<open>realpath\<close>, \<open>URL\<close>, \<open>RegExp\<close>, the YAML and JSON
  parsers, Zod's date check and the relay's answers are arguments. Hypotheses on them are named:
  \<open>hex_digest\<close> (a digest is hexadecimal), \<open>reads_own_lines\<close> (\<open>JSON.parse\<close> inverts
  \<open>JSON.stringify\<close>), \<open>decodes_back\<close>, and the absence of \<open>collision\<close>s.

  \<^bold>\<open>Premises on the environment.\<close> Where the code is right only under a condition on what surrounds
  it, the condition is a premise that the text of the property names, and what happens without it is
  a lemma. A write of the log leaves a later modification time than any a store remembers
  (\<open>clock_ahead\<close>); clients of the relay send no payload that calls itself a heartbeat (\<open>honest\<close>,
  \<open>self_styled_heartbeat_lost\<close>); other processes leave \<open>.claude\<close> what it is (\<open>inside_only\<close>,
  \<open>swapped_directory_written\<close>); a lock names a live process or is young (\<open>in_force\<close>, \<open>stale_race\<close>,
  \<open>unwritten_metadata_reclaimed\<close>); the events of a log carry names of their own
  (\<open>nameless_event_lost\<close>, \<open>reused_name_dropped\<close>); what is taken for a commit is one (\<open>ran_commit\<close>,
  \<open>denied_commit_clears_denials\<close>).

  \<^bold>\<open>Not modelled.\<close> The operational text log of the relay daemon, the SQLite copy of the log, the
  timers and listings of the team mode, the web dashboard, the pages and texts of reports and the
  command line around the modelled operations. File modes, \<open>fsync\<close> and log messages are left out of the modelled functions.
\<close>

section \<open>The shell recognizer\<close>

text \<open>
  C40: for every input, the recognizer returns a tree or the one exception the flag lookup can
  raise; the recursion over the tokens and over inline bodies always ends within its fuel.
\<close>

theorem parse_returns:
  "parseShellCommand s \<in> range Inr \<union> {Inl (TypeError ''flagsForHead.has is not a function'')}"
proof -
  have "in_depth (parseShellCommand s)"
    unfolding parseShellCommand_def by (rule in_depth_parse_shell) simp
  then show ?thesis by (cases "parseShellCommand s") (auto simp: in_depth_def)
qed

text \<open>
  C31: what a node of the tree shows, the root shows too: every sink indicator found anywhere in a
  parsed command is among the indicators of its root.
\<close>

theorem indicators_reach_root:
  assumes "parseShellCommand s = Inr root" and "n \<in> set (nodes root)"
  shows "set (sink_indicators n) \<subseteq> set (sink_indicators root)"
  by (rule bubbled_indicators [OF bubbling.parseShellCommand_ok [OF assms(1)] assms(2)])

lemma parse_sample:
  "case parseShellCommand ''curl x | sh'' of
     Inr r \<Rightarrow> (case children r of
       c # _ \<Rightarrow> map ikind (sink_indicators c) = [FetchTool] | [] \<Rightarrow> False)
   | Inl e \<Rightarrow> False"
  by code_simp

lemma indicators_reach_root_witness:
  "\<exists>root n. parseShellCommand ''curl x | sh'' = Inr root \<and> n \<in> set (nodes root)
     \<and> sink_indicators n \<noteq> [] \<and> set (sink_indicators n) \<subseteq> set (sink_indicators root)"
proof -
  obtain root c cs where root: "parseShellCommand ''curl x | sh'' = Inr root"
    and c: "children root = c # cs" "map ikind (sink_indicators c) = [FetchTool]"
    using parse_sample by (auto split: sum.splits list.splits)
  have n: "c \<in> set (nodes root)" using c(1) child_in_nodes [of c root c] by simp
  show ?thesis
    using indicators_reach_root [OF root n] root n c(2) by auto
qed

end
